(* ===== verification/Prelude.thy ===== *)
theory Prelude
  imports Main
begin

text \<open>
  Shared vocabulary of the development: Python strings as lists of Unicode code points,
  database tables as lists of rows with the SQL-style conditional update the services
  rely on, datetimes, and a small state-and-exception monad with its triples.
  Everything here is generic; no definition of this theory models a particular
  function of the program except where its comment says so.
\<close>

named_theorems triple_intro \<open>rules that decompose triples over the monad\<close>
named_theorems op_defs \<open>definitions that executable handlers unfold to\<close>

section \<open>Python strings\<close>

text \<open>
  A Python \<open>str\<close> is a sequence of code points; \<open>len\<close> counts them.  Error codes and
  reasons, which the program only ever writes as ASCII literals, stay HOL strings.
\<close>

type_synonym pystr = "nat list"

definition lit :: "string \<Rightarrow> pystr" where
  "lit s = map of_char s"

fun occurs_in :: "pystr \<Rightarrow> pystr \<Rightarrow> bool" where
  "occurs_in p [] = (p = [])"
| "occurs_in p (c # cs) = (take (length p) (c # cs) = p \<or> occurs_in p cs)"

definition is_ascii :: "pystr \<Rightarrow> bool" where
  "is_ascii s = list_all (\<lambda>c. c < 128) s"

definition ascii_space :: "nat \<Rightarrow> bool" where
  "ascii_space c = (9 \<le> c \<and> c \<le> 13 \<or> 28 \<le> c \<and> c \<le> 32)"

lemma lit_simps [simp]:
  "lit [] = []"
  "lit (c # cs) = of_char c # lit cs"
  by (simp_all add: lit_def)

lemma lit_eq: "lit a = lit b \<longleftrightarrow> a = b"
  by (auto simp: lit_def inj_map_eq_map inj_def)

lemma occurs_in_iff: "occurs_in p s \<longleftrightarrow> (\<exists>us vs. s = us @ p @ vs)"
proof (induction s)
  case Nil
  then show ?case by auto
next
  case (Cons c cs)
  have here: "take (length p) (c # cs) = p \<longleftrightarrow> (\<exists>vs. c # cs = p @ vs)"
    by (metis append_eq_conv_conj)
  have "(\<exists>us vs. c # cs = us @ p @ vs)
    \<longleftrightarrow> (\<exists>vs. c # cs = p @ vs) \<or> (\<exists>us vs. cs = us @ p @ vs)"
    by (metis Cons_eq_append_conv append_Cons append_Nil)
  with Cons.IH here show ?case by simp
qed

lemma occurs_in_single [simp]: "occurs_in [c] s \<longleftrightarrow> c \<in> set s"
  by (induction s) auto

text \<open>
  The Unicode character database of the interpreter.  Which code points are digits, decimals
  (with their value), white space and letters and how a code point folds depend on the Unicode version
  the interpreter ships, so they are data of the model and nothing is assumed about them.
\<close>

record unicode =
  uni_digit :: "nat \<Rightarrow> bool"
  uni_fold :: "nat \<Rightarrow> pystr"
  uni_decimal :: "nat \<Rightarrow> nat option"
  uni_space :: "nat \<Rightarrow> bool"
  uni_alpha :: "nat \<Rightarrow> bool"

definition py_isdigit :: "unicode \<Rightarrow> pystr \<Rightarrow> bool" where
  "py_isdigit u s = (s \<noteq> [] \<and> list_all (uni_digit u) s)"

definition py_strip :: "unicode \<Rightarrow> pystr \<Rightarrow> pystr" where
  "py_strip u s = rev (dropWhile (uni_space u) (rev (dropWhile (uni_space u) s)))"

definition py_casefold :: "unicode \<Rightarrow> pystr \<Rightarrow> pystr" where
  "py_casefold u s = concat (map (uni_fold u) s)"

text \<open>The restriction of the database to ASCII, used where a concrete instance is evaluated.\<close>

definition ascii_unicode :: unicode where
  "ascii_unicode =
     \<lparr>uni_digit = (\<lambda>c. 48 \<le> c \<and> c \<le> 57),
      uni_fold = (\<lambda>c. [if 65 \<le> c \<and> c \<le> 90 then c + 32 else c]),
      uni_decimal = (\<lambda>c. if 48 \<le> c \<and> c \<le> 57 then Some (c - 48) else None),
      uni_space = ascii_space,
      uni_alpha = (\<lambda>c. 65 \<le> c \<and> c \<le> 90 \<or> 97 \<le> c \<and> c \<le> 122)\<rparr>"

section \<open>Datetimes\<close>

text \<open>
  An instant is a number of microseconds; a Python \<open>datetime\<close> is naive or carries its
  offset from UTC.  \<open>_as_utc\<close> reads a naive value as UTC.
\<close>

type_synonym time = int

datatype py_datetime = Naive int | Aware int int

fun as_utc :: "py_datetime \<Rightarrow> time" where
  "as_utc (Naive t) = t"
| "as_utc (Aware t offset) = t - offset"

definition resolve_now :: "time \<Rightarrow> py_datetime option \<Rightarrow> time" where
  "resolve_now clk now = (case now of None \<Rightarrow> clk | Some d \<Rightarrow> as_utc d)"

lemma resolve_now_simps [simp]:
  "resolve_now clk None = clk"
  "resolve_now clk (Some d) = as_utc d"
  by (simp_all add: resolve_now_def)

section \<open>Tables\<close>

text \<open>
  A table is the list of its rows in insertion order.  \<open>row_of\<close> is a lookup by a unique
  column, \<open>update_where\<close> the rows after an SQL \<open>UPDATE .. WHERE\<close>, \<open>row_count\<close> what the
  statement reports, and \<open>update_one\<close> the idiom of the services: run the statement, raise
  and roll back unless exactly one row changed.
\<close>

definition row_of :: "('r \<Rightarrow> 'k) \<Rightarrow> 'k \<Rightarrow> 'r list \<Rightarrow> 'r option" where
  "row_of key k rows = find (\<lambda>r. key r = k) rows"

definition update_where :: "('r \<Rightarrow> bool) \<Rightarrow> ('r \<Rightarrow> 'r) \<Rightarrow> 'r list \<Rightarrow> 'r list" where
  "update_where p f rows = map (\<lambda>r. if p r then f r else r) rows"

definition row_count :: "('r \<Rightarrow> bool) \<Rightarrow> 'r list \<Rightarrow> nat" where
  "row_count p rows = length (filter p rows)"

definition update_one :: "('r \<Rightarrow> bool) \<Rightarrow> ('r \<Rightarrow> 'r) \<Rightarrow> 'r list \<Rightarrow> 'r list option" where
  "update_one p f rows =
     (if row_count p rows = 1 then Some (update_where p f rows) else None)"

lemma row_of_simps [simp]:
  "row_of key k [] = None"
  "row_of key k (r # rows) = (if key r = k then Some r else row_of key k rows)"
  by (simp_all add: row_of_def)

lemma row_of_Some: "row_of key k rows = Some r \<Longrightarrow> r \<in> set rows \<and> key r = k"
  by (induction rows) (auto split: if_splits)

lemma row_of_None: "row_of key k rows = None \<longleftrightarrow> k \<notin> key ` set rows"
  by (induction rows) auto

lemma row_of_unique:
  "distinct (map key rows) \<Longrightarrow> r \<in> set rows \<Longrightarrow> row_of key (key r) rows = Some r"
  by (induction rows) (auto simp: rev_image_eqI)

lemma row_of_append:
  "row_of key k (xs @ ys) = (case row_of key k xs of None \<Rightarrow> row_of key k ys | Some r \<Rightarrow> Some r)"
  by (induction xs) auto

lemma row_of_update:
  assumes "\<And>r. key (f r) = key r"
  shows "row_of key k (update_where p f rows)
    = map_option (\<lambda>r. if p r then f r else r) (row_of key k rows)"
  using assms by (induction rows) (auto simp: update_where_def)

lemma map_key_update:
  assumes "\<And>r. key (f r) = key r"
  shows "map key (update_where p f rows) = map key rows"
  using assms by (auto simp: update_where_def)

lemma set_update_where:
  "r' \<in> set (update_where p f rows) \<Longrightarrow> \<exists>r \<in> set rows. r' = (if p r then f r else r)"
  by (auto simp: update_where_def)

lemma row_count_zero: "row_count p rows = 0 \<longleftrightarrow> (\<forall>r \<in> set rows. \<not> p r)"
  by (auto simp: row_count_def filter_empty_conv)

text \<open>
  With a unique key, the conditional update of the row with key \<open>k\<close> succeeds exactly when
  that row exists and satisfies the condition.
\<close>

lemma row_count_key:
  assumes "distinct (map key rows)"
  shows "row_count (\<lambda>r. key r = k \<and> q r) rows
    = (case row_of key k rows of None \<Rightarrow> 0 | Some r \<Rightarrow> if q r then 1 else 0)"
  using assms
proof (induction rows)
  case Nil
  then show ?case by (simp add: row_count_def)
next
  case (Cons r rows)
  show ?case
  proof (cases "key r = k")
    case True
    with Cons.prems have "row_of key k rows = None" by (auto simp: row_of_None)
    with Cons True show ?thesis by (simp add: row_count_def)
  next
    case False
    with Cons show ?thesis by (simp add: row_count_def)
  qed
qed

lemma row_count_key_one:
  assumes "distinct (map key rows)" and "row_count (\<lambda>r. key r = k \<and> q r) rows = 1"
  obtains r where "row_of key k rows = Some r" "q r"
  using assms(2) unfolding row_count_key[OF assms(1)]
  by (cases "row_of key k rows") (auto split: if_splits)

lemma update_one_key:
  assumes "distinct (map key rows)"
  shows "update_one (\<lambda>r. key r = k \<and> q r) f rows
    = (case row_of key k rows of
        None \<Rightarrow> None
      | Some r \<Rightarrow> if q r then Some (update_where (\<lambda>r. key r = k \<and> q r) f rows) else None)"
  using row_count_key[OF assms, of k q] by (auto simp: update_one_def split: option.splits)

section \<open>Largest element\<close>

text \<open>Python's \<open>max(.., default=None)\<close>: the first of the largest.\<close>

fun first_max :: "('a \<Rightarrow> 'b::linorder) \<Rightarrow> 'a list \<Rightarrow> 'a option" where
  "first_max k [] = None"
| "first_max k (x # xs) =
     (case first_max k xs of
        None \<Rightarrow> Some x
      | Some y \<Rightarrow> if k x < k y then Some y else Some x)"

lemma first_max_None: "first_max k xs = None \<longleftrightarrow> xs = []"
  by (cases xs) (auto split: option.splits if_splits)

lemma first_max_Some:
  "first_max k xs = Some u \<Longrightarrow> u \<in> set xs \<and> (\<forall>x \<in> set xs. k x \<le> k u)"
proof (induction xs arbitrary: u)
  case (Cons y ys)
  show ?case
  proof (cases "first_max k ys")
    case None
    with Cons.prems show ?thesis by (simp add: first_max_None)
  next
    case (Some v)
    with Cons.IH Cons.prems show ?thesis by (fastforce split: if_splits)
  qed
qed simp

section \<open>State with exceptions\<close>

text \<open>
  A handler takes the state and returns the state with either its exception or its value:
  a raise keeps what was committed before it.
\<close>

type_synonym ('s, 'e, 'a) act = "'s \<Rightarrow> ('e + 'a) \<times> 's"

definition sret :: "'a \<Rightarrow> ('s, 'e, 'a) act" where
  "sret x s = (Inr x, s)"

definition sraise :: "'e \<Rightarrow> ('s, 'e, 'a) act" where
  "sraise e s = (Inl e, s)"

definition sbind :: "('s, 'e, 'a) act \<Rightarrow> ('a \<Rightarrow> ('s, 'e, 'b) act) \<Rightarrow> ('s, 'e, 'b) act" where
  "sbind m k s = (case m s of (Inl e, s') \<Rightarrow> (Inl e, s') | (Inr x, s') \<Rightarrow> k x s')"

definition scheck :: "('e + 'a) \<Rightarrow> ('s, 'e, 'a) act" where
  "scheck v s = (v, s)"

definition sget :: "('s, 'e, 's) act" where
  "sget s = (Inr s, s)"

definition sput :: "'s \<Rightarrow> ('s, 'e, unit) act" where
  "sput s' s = (Inr (), s')"

definition scatch :: "('s, 'e, 'a) act \<Rightarrow> ('e \<Rightarrow> ('s, 'e, 'a) act) \<Rightarrow> ('s, 'e, 'a) act" where
  "scatch m h s = (case m s of (Inl e, s') \<Rightarrow> h e s' | (Inr x, s') \<Rightarrow> (Inr x, s'))"

definition succeeds :: "('e + 'a) \<times> 's \<Rightarrow> bool" where
  "succeeds out = (case fst out of Inl _ \<Rightarrow> False | Inr _ \<Rightarrow> True)"

lemmas monad_defs = sret_def sraise_def sbind_def scheck_def sget_def sput_def scatch_def

text \<open>
  \<open>triple P m Q E\<close>: from a state satisfying \<open>P\<close>, \<open>m\<close> ends with a value satisfying \<open>Q\<close>
  or with an exception satisfying \<open>E\<close>.  Handlers are total, so this is total correctness.
\<close>

definition triple ::
  "('s \<Rightarrow> bool) \<Rightarrow> ('s, 'e, 'a) act \<Rightarrow> ('a \<Rightarrow> 's \<Rightarrow> bool) \<Rightarrow> ('e \<Rightarrow> 's \<Rightarrow> bool) \<Rightarrow> bool" where
  "triple P m Q E \<longleftrightarrow>
     (\<forall>s. P s \<longrightarrow> (case m s of (Inl e, s') \<Rightarrow> E e s' | (Inr x, s') \<Rightarrow> Q x s'))"

lemma tripleI:
  assumes "\<And>s e s'. P s \<Longrightarrow> m s = (Inl e, s') \<Longrightarrow> E e s'"
    and "\<And>s x s'. P s \<Longrightarrow> m s = (Inr x, s') \<Longrightarrow> Q x s'"
  shows "triple P m Q E"
  using assms by (auto simp: triple_def split: prod.splits sum.splits)

lemma triple_exn: "triple P m Q E \<Longrightarrow> P s \<Longrightarrow> m s = (Inl e, s') \<Longrightarrow> E e s'"
  by (force simp: triple_def)

lemma triple_val: "triple P m Q E \<Longrightarrow> P s \<Longrightarrow> m s = (Inr x, s') \<Longrightarrow> Q x s'"
  by (force simp: triple_def)

lemma triple_bind:
  "triple P m R E \<Longrightarrow> (\<And>x. triple (R x) (k x) Q E) \<Longrightarrow> triple P (sbind m k) Q E"
  by (fastforce simp: triple_def sbind_def split: prod.splits sum.splits)

lemma triple_conseq:
  "triple P' m Q' E' \<Longrightarrow> (\<And>s. P s \<Longrightarrow> P' s) \<Longrightarrow> (\<And>x s. Q' x s \<Longrightarrow> Q x s)
    \<Longrightarrow> (\<And>e s. E' e s \<Longrightarrow> E e s) \<Longrightarrow> triple P m Q E"
  by (fastforce simp: triple_def split: prod.splits sum.splits)

lemma triple_ret [triple_intro]: "(\<And>s. P s \<Longrightarrow> Q x s) \<Longrightarrow> triple P (sret x) Q E"
  by (simp add: triple_def sret_def)

lemma triple_raise [triple_intro]: "(\<And>s. P s \<Longrightarrow> E e s) \<Longrightarrow> triple P (sraise e) Q E"
  by (simp add: triple_def sraise_def)

lemma triple_if [triple_intro]:
  "(b \<Longrightarrow> triple P m Q E) \<Longrightarrow> (\<not> b \<Longrightarrow> triple P n Q E) \<Longrightarrow> triple P (if b then m else n) Q E"
  by simp

lemma sbind_Inr: "m s = (Inr x, s') \<Longrightarrow> sbind m k s = k x s'"
  by (simp add: sbind_def)

lemma sbind_Inl: "m s = (Inl e, s') \<Longrightarrow> sbind m k s = (Inl e, s')"
  by (simp add: sbind_def)

end
