(* ===== verification/Store.thy ===== *)
theory Store
  imports Complex_Main Prelude
begin

text \<open>
  The database tables the organization services share (\<^verbatim>\<open>models.py\<close>,
  \<^verbatim>\<open>library_models.py\<close>): operations, plans, libraries, scan runs with their entries, and dirty events, with
  the columns those services read or write.  A committed transaction is a value of
  \<open>store\<close>.
\<close>

section \<open>Rows\<close>

datatype op_status =
    OP_PLANNED | OP_ORGANIZING | OP_ORGANIZED | OP_FAILED | OP_UNCERTAIN | OP_CANCELLED

datatype plan_status = PLAN_NEEDS_REVIEW | PLAN_PLANNED | PLAN_INVALIDATED | PLAN_IGNORED

datatype scan_run_state =
    SCAN_QUEUED | SCAN_RUNNING | SCAN_COMPLETED | SCAN_FAILED | SCAN_CANCELLED

record op_row =
  op_id :: pystr
  op_plan_id :: pystr
  op_plan_revision :: int
  op_idempotency_key :: pystr
  op_status :: op_status
  op_revision :: int
  op_attempts :: int
  op_lease_token :: "pystr option"
  op_lease_expires_at :: "time option"
  op_error_code :: "string option"
  op_created_at :: time
  op_updated_at :: time
  op_finished_at :: "time option"

record library_row =
  lib_id :: pystr
  lib_root_directory_id :: pystr
  lib_scope_verified :: bool
  lib_enabled :: bool
  lib_revision :: int

record run_row =
  run_id :: pystr
  run_library_id :: pystr
  run_root_directory_id :: pystr
  run_state :: scan_run_state
  run_complete :: bool
  run_snapshot_revision :: "int option"
  run_idempotency_key :: pystr
  run_expected_page_count :: "int option"
  run_expected_total :: "int option"
  run_pages_read :: int
  run_items_seen :: int
  run_added_count :: int
  run_changed_count :: int
  run_removed_count :: int
  run_error_code :: "pystr option"
  run_created_at :: time
  run_updated_at :: time

text \<open>
  Decoded JSON.  A text column that the code only reads through \<open>json.loads\<close> is kept as
  what that call returns; \<open>None\<close> stands for the \<open>TypeError\<close> or \<open>ValueError\<close> it raises.
  Objects list their items once per key.
\<close>

datatype json =
    JNull
  | JBool bool
  | JInt int
  | JReal rat
  | JNonFinite string
  | JStr pystr
  | JList "json list"
  | JObj "(pystr \<times> json) list"

record plan_row =
  plan_id :: pystr
  plan_library_id :: pystr
  plan_source_scan_run_id :: pystr
  plan_source_snapshot_revision :: int
  plan_source_snapshot :: "json option"
  plan_target_root :: pystr
  plan_actions :: "json option"
  plan_preconditions :: "json option"
  plan_rule_version :: pystr
  plan_parser_version :: pystr
  plan_matcher_version :: pystr
  plan_status :: plan_status
  plan_revision :: int
  plan_expires_at :: time
  plan_hash :: pystr
  plan_basis :: "json option"
  plan_alias :: "pystr option"
  plan_created_at :: time

record scan_entry =
  se_scan_run_id :: pystr
  se_object_type :: pystr
  se_object_id :: pystr
  se_parent_id :: "pystr option"
  se_name :: pystr
  se_path :: "pystr option"
  se_is_directory :: bool
  se_size_bytes :: "int option"
  se_modified_at :: "time option"

record checkpoint_row =
  cp_scan_run_id :: pystr
  cp_page :: int
  cp_items_seen :: int

record diff_row =
  df_scan_run_id :: pystr
  df_object_type :: pystr
  df_object_id :: pystr
  df_change_kind :: string
  df_path_changed :: bool

text \<open>The surrogate keys of the ledger and of the inventory events, which nothing reads, are left out.\<close>

record ledger_row =
  lg_library_id :: pystr
  lg_object_type :: pystr
  lg_object_id :: pystr
  lg_parent_id :: "pystr option"
  lg_name :: pystr
  lg_path :: "pystr option"
  lg_is_directory :: bool
  lg_size_bytes :: "int option"
  lg_modified_at :: "time option"
  lg_status :: string
  lg_first_seen_at :: time
  lg_last_seen_at :: time
  lg_missing_since :: "time option"
  lg_last_scan_run_id :: "pystr option"
  lg_revision :: int

record inventory_event =
  ie_library_id :: pystr
  ie_scan_run_id :: pystr
  ie_object_type :: pystr
  ie_object_id :: pystr
  ie_event_kind :: string
  ie_previous_status :: "string option"
  ie_dedupe_key :: pystr

record media_identity_row =
  mi_library_id :: pystr
  mi_object_id :: pystr
  mi_tmdb_id :: int
  mi_media_type :: pystr
  mi_season :: "int option"
  mi_episode_start :: "int option"
  mi_episode_end :: "int option"

record event_row =
  ev_id :: pystr
  ev_operation_id :: pystr
  ev_directory_id :: pystr
  ev_kind :: string
  ev_status :: string

record store =
  ops :: "op_row list"
  plans :: "plan_row list"
  libraries :: "library_row list"
  runs :: "run_row list"
  scan_entries :: "scan_entry list"
  events :: "event_row list"
  checkpoints :: "checkpoint_row list"
  diffs :: "diff_row list"
  ledger :: "ledger_row list"
  inventory_events :: "inventory_event list"
  media_identities :: "media_identity_row list"

section \<open>Python equality on decoded JSON\<close>

text \<open>Python's \<open>==\<close> identifies \<open>True\<close> with \<open>1\<close> and an integral float with its integer.\<close>

fun json_eq_int :: "json \<Rightarrow> int \<Rightarrow> bool" where
  "json_eq_int (JInt k) n = (k = n)"
| "json_eq_int (JBool b) n = (of_bool b = n)"
| "json_eq_int (JReal r) n = (r = of_int n)"
| "json_eq_int _ n = False"

definition json_eq_bool :: "json \<Rightarrow> bool \<Rightarrow> bool" where
  "json_eq_bool j b = json_eq_int j (of_bool b)"

definition json_eq_str :: "json \<Rightarrow> pystr \<Rightarrow> bool" where
  "json_eq_str j s = (j = JStr s)"

section \<open>Unique columns\<close>

definition event_key :: "event_row \<Rightarrow> pystr \<times> pystr \<times> string" where
  "event_key e = (ev_operation_id e, ev_directory_id e, ev_kind e)"

definition unique_ops :: "op_row list \<Rightarrow> bool" where
  "unique_ops rows =
     (distinct (map op_id rows) \<and> distinct (map op_plan_id rows)
      \<and> distinct (map op_idempotency_key rows))"

definition unique_events :: "event_row list \<Rightarrow> bool" where
  "unique_events rows = (distinct (map ev_id rows) \<and> distinct (map event_key rows))"

text \<open>An \<open>INSERT\<close> at commit: \<open>None\<close> is the \<open>IntegrityError\<close> of a unique constraint.\<close>

definition insert_op :: "op_row \<Rightarrow> store \<Rightarrow> store option" where
  "insert_op r s =
     (if op_id r \<in> set (map op_id (ops s)) \<or> op_plan_id r \<in> set (map op_plan_id (ops s))
         \<or> op_idempotency_key r \<in> set (map op_idempotency_key (ops s)) then None
      else Some (s\<lparr>ops := ops s @ [r]\<rparr>))"

definition insert_events :: "event_row list \<Rightarrow> store \<Rightarrow> store option" where
  "insert_events rows s =
     (if unique_events rows
         \<and> list_all (\<lambda>e. ev_id e \<notin> set (map ev_id (events s))
                       \<and> event_key e \<notin> set (map event_key (events s))) rows
      then Some (s\<lparr>events := events s @ rows\<rparr>) else None)"

lemma unique_events_append:
  "insert_events rows s = Some s' \<Longrightarrow> unique_events (events s) \<Longrightarrow> unique_events (events s')"
  by (auto simp: insert_events_def unique_events_def list_all_iff split: if_splits)
     (metis image_eqI)+

lemma unique_ops_insert:
  "insert_op r s = Some s' \<Longrightarrow> unique_ops (ops s) \<Longrightarrow> unique_ops (ops s')"
  by (auto simp: insert_op_def unique_ops_def split: if_splits)

end
