(* ===== verification/Dirty_Outbox.thy ===== *)
theory Dirty_Outbox
  imports Store
begin

text \<open>
  \<^verbatim>\<open>services/organization_outbox.py\<close>: the transactional outbox.  \<open>enqueue\<close> computes the
  rows it adds to the caller's transaction; the caller commits them.  The lemmas show
  which events are added, that none is added twice, and that a directory is never skipped.
\<close>

definition directory_dirty_kind :: string where
  "directory_dirty_kind = ''directory_dirty''"

definition outbox_markers :: "pystr list" where
  "outbox_markers = [lit ''/'', [92], lit ''://'', lit ''='', lit ''?'', lit ''#'', [0]]"

definition outbox_validate_identifier :: "pystr \<Rightarrow> string \<Rightarrow> nat \<Rightarrow> string + unit" where
  "outbox_validate_identifier s err maximum =
     (if s = [] \<or> length s > maximum \<or> \<not> is_ascii s
         \<or> list_ex (\<lambda>m. occurs_in m s) outbox_markers
      then Inl err else Inr ())"

fun normalize_directory_ids :: "pystr list \<Rightarrow> pystr list \<Rightarrow> string + pystr list" where
  "normalize_directory_ids seen [] = Inr []"
| "normalize_directory_ids seen (d # ds) =
     (case outbox_validate_identifier d ''invalid_directory_id'' 128 of
        Inl e \<Rightarrow> Inl e
      | Inr _ \<Rightarrow>
          if d \<in> set seen then normalize_directory_ids seen ds
          else (case normalize_directory_ids (d # seen) ds of
                  Inl e \<Rightarrow> Inl e | Inr rest \<Rightarrow> Inr (d # rest)))"

definition existing_directories :: "pystr \<Rightarrow> event_row list \<Rightarrow> pystr list" where
  "existing_directories operation_id rows =
     map ev_directory_id
       (filter (\<lambda>e. ev_operation_id e = operation_id \<and> ev_kind e = directory_dirty_kind) rows)"

text \<open>\<open>new_id n\<close> is the identifier \<open>uuid4\<close> gives the \<open>n\<close>-th event added.\<close>

definition pending_event :: "(nat \<Rightarrow> pystr) \<Rightarrow> pystr \<Rightarrow> nat \<times> pystr \<Rightarrow> event_row" where
  "pending_event new_id operation_id nd =
     \<lparr>ev_id = new_id (fst nd), ev_operation_id = operation_id, ev_directory_id = snd nd,
      ev_kind = directory_dirty_kind, ev_status = ''pending''\<rparr>"

definition enqueue_directory_dirty ::
  "(nat \<Rightarrow> pystr) \<Rightarrow> pystr \<Rightarrow> pystr list \<Rightarrow> event_row list \<Rightarrow> string + event_row list" where
  "enqueue_directory_dirty new_id operation_id directory_ids rows =
     (case outbox_validate_identifier operation_id ''invalid_operation_id'' 40 of
        Inl e \<Rightarrow> Inl e
      | Inr _ \<Rightarrow>
         (case normalize_directory_ids [] directory_ids of
            Inl e \<Rightarrow> Inl e
          | Inr normalized \<Rightarrow>
              if normalized = [] then Inl ''invalid_directory_scope''
              else Inr (map (pending_event new_id operation_id)
                     (enumerate 0 (filter (\<lambda>d. d \<notin> set (existing_directories operation_id rows))
                        normalized)))))"

section \<open>Lemmas\<close>

lemma normalize_Inr_all:
  "normalize_directory_ids seen ds = Inr ns \<Longrightarrow>
    set ns = set ds - set seen \<and> distinct ns
    \<and> (\<forall>d \<in> set ds. outbox_validate_identifier d ''invalid_directory_id'' 128 = Inr ())"
proof (induction seen ds arbitrary: ns rule: normalize_directory_ids.induct)
  case (1 seen)
  then show ?case by simp
next
  case (2 seen d ds)
  from "2.prems" have ok: "outbox_validate_identifier d ''invalid_directory_id'' 128 = Inr ()"
    by (simp split: sum.splits)
  show ?case
  proof (cases "d \<in> set seen")
    case True
    with "2.prems" ok have "normalize_directory_ids seen ds = Inr ns" by simp
    from "2.IH"(1)[OF ok True this] True ok show ?thesis by auto
  next
    case False
    with "2.prems" ok obtain rest where rest: "normalize_directory_ids (d # seen) ds = Inr rest"
      and ns: "ns = d # rest" by (auto split: sum.splits)
    from "2.IH"(2)[OF ok False rest] False ok show ?thesis by (auto simp: ns)
  qed
qed

lemma normalize_Inr:
  assumes "normalize_directory_ids seen ds = Inr ns"
  shows "set ns = set ds - set seen" and "distinct ns"
    and "\<forall>d \<in> set ds. outbox_validate_identifier d ''invalid_directory_id'' 128 = Inr ()"
  using normalize_Inr_all[OF assms] by simp_all

lemma normalize_Inl:
  "normalize_directory_ids seen ds = Inl e \<Longrightarrow> e = ''invalid_directory_id''"
  by (induction seen ds rule: normalize_directory_ids.induct)
     (auto simp: outbox_validate_identifier_def split: sum.splits if_splits)

lemma existing_directories_iff:
  "d \<in> set (existing_directories op rows)
    \<longleftrightarrow> (op, d, directory_dirty_kind) \<in> set (map event_key rows)"
  by (auto simp: existing_directories_def event_key_def)

lemma enqueue_error:
  assumes "enqueue_directory_dirty new_id op ds rows = Inl e"
  shows "e \<in> {''invalid_operation_id'', ''invalid_directory_id'', ''invalid_directory_scope''}"
  using assms
  by (auto simp: enqueue_directory_dirty_def outbox_validate_identifier_def
      split: sum.splits if_splits dest: normalize_Inl)

lemma enqueue_Inr:
  assumes "enqueue_directory_dirty new_id op ds rows = Inr new"
  shows "set (map ev_directory_id new) = set ds - set (existing_directories op rows)"
    and "distinct (map event_key new)"
    and "\<forall>e \<in> set new. event_key e \<notin> set (map event_key rows)
          \<and> ev_operation_id e = op \<and> ev_kind e = directory_dirty_kind \<and> ev_status e = ''pending''"
    and "map ev_id new = map new_id [0..<length new]"
    and "ds \<noteq> []"
proof -
  from assms obtain ns where ns: "normalize_directory_ids [] ds = Inr ns" and "ns \<noteq> []"
    and new: "new = map (pending_event new_id op)
      (enumerate 0 (filter (\<lambda>d. d \<notin> set (existing_directories op rows)) ns))"
    by (auto simp: enqueue_directory_dirty_def split: sum.splits if_splits)
  let ?fs = "filter (\<lambda>d. d \<notin> set (existing_directories op rows)) ns"
  have dirs: "map ev_directory_id new = ?fs"
  proof -
    have "ev_directory_id \<circ> pending_event new_id op = snd"
      by (simp add: fun_eq_iff pending_event_def)
    then show ?thesis by (simp add: new)
  qed
  show dset: "set (map ev_directory_id new) = set ds - set (existing_directories op rows)"
    unfolding dirs using normalize_Inr(1)[OF ns] by auto
  have all: "ev_operation_id e = op \<and> ev_kind e = directory_dirty_kind \<and> ev_status e = ''pending''"
    if "e \<in> set new" for e
    using that by (auto simp: new pending_event_def)
  have "map event_key new = map (\<lambda>d. (op, d, directory_dirty_kind)) (map ev_directory_id new)"
    using all by (auto simp: event_key_def)
  then show "distinct (map event_key new)"
    using normalize_Inr(2)[OF ns] by (simp add: dirs distinct_map inj_on_def del: map_map)
  show "\<forall>e \<in> set new. event_key e \<notin> set (map event_key rows)
      \<and> ev_operation_id e = op \<and> ev_kind e = directory_dirty_kind \<and> ev_status e = ''pending''"
  proof
    fix e assume e: "e \<in> set new"
    then have "ev_directory_id e \<notin> set (existing_directories op rows)"
      using dset by auto
    then show "event_key e \<notin> set (map event_key rows)
      \<and> ev_operation_id e = op \<and> ev_kind e = directory_dirty_kind \<and> ev_status e = ''pending''"
      using all[OF e] by (simp only: existing_directories_iff) (simp add: event_key_def)
  qed
  have "map ev_id new = map new_id (map fst (enumerate 0 ?fs))"
    unfolding new map_map by (simp add: pending_event_def comp_def)
  also have "\<dots> = map new_id [0..<length new]"
    by (simp only: map_fst_enumerate) (simp add: new)
  finally show "map ev_id new = map new_id [0..<length new]" .
  show "ds \<noteq> []" using normalize_Inr(1)[OF ns] \<open>ns \<noteq> []\<close> by auto
qed

end
