(* ===== verification/Operations.thy ===== *)
theory Operations
  imports Dirty_Outbox "HOL-Library.Product_Lexorder" "HOL-Library.List_Lexorder"
begin

text \<open>
  \<^verbatim>\<open>services/organization_operations.py\<close>: durable state and leases of organization
  operations.  A method is a handler over \<open>store\<close>: it raises one of the service's
  exceptions or returns, and what it committed stays.  Every conditional
  \<open>UPDATE .. WHERE revision = expected\<close> is one atomic write; between a method's reads
  and its write other sessions may commit, which the parameter \<open>interf\<close> stands for.
  \<open>uuid4\<close> values and the clock are arguments.
\<close>

datatype op_error =
    NotFound
  | Conflict string
  | StateError string
  | PrerequisiteError string
  | LeaseUnavailable string
  | ValueErr string

type_synonym 'a op_act = "(store, op_error, 'a) act"

record op_summary =
  sm_operation_id :: pystr
  sm_plan_id :: pystr
  sm_status :: op_status
  sm_revision :: int
  sm_attempts :: int
  sm_error_code :: "string option"

record op_lease =
  lease_operation_id :: pystr
  lease_revision :: int
  lease_token :: pystr
  lease_expires_at :: "time option"

definition summary :: "op_row \<Rightarrow> op_summary" where
  "summary r = \<lparr>sm_operation_id = op_id r, sm_plan_id = op_plan_id r, sm_status = op_status r,
     sm_revision = op_revision r, sm_attempts = op_attempts r, sm_error_code = op_error_code r\<rparr>"

section \<open>Validators\<close>

definition valid_operation_error_codes :: "string list" where
  "valid_operation_error_codes =
     [''cancelled'', ''lease_lost'', ''local_failure'', ''outcome_unknown'',
      ''postcondition_mismatch'', ''plan_prerequisites_changed'', ''rate_limited'',
      ''remote_write_failed'', ''timeout'']"

definition validate_identifier :: "pystr \<Rightarrow> string \<Rightarrow> nat \<Rightarrow> op_error + unit" where
  "validate_identifier s err maximum =
     (if s = [] \<or> length s > maximum
         \<or> list_ex (\<lambda>m. occurs_in m s) [lit ''/'', [92], lit ''://'', [0]]
      then Inl (ValueErr err) else Inr ())"

definition validate_token :: "pystr \<Rightarrow> op_error + unit" where
  "validate_token s =
     (if length s \<noteq> 32 \<or> \<not> is_ascii s then Inl (ValueErr ''invalid_lease_token'') else Inr ())"

definition validate_error_code :: "string option \<Rightarrow> op_error + unit" where
  "validate_error_code c =
     (case c of
        None \<Rightarrow> Inr ()
      | Some code \<Rightarrow> if code \<in> set valid_operation_error_codes then Inr ()
                    else Inl (ValueErr ''invalid_error_code''))"

text \<open>Durations are microseconds; the bound is one hour, the default five minutes.\<close>

definition validate_lease_duration :: "int \<Rightarrow> op_error + int" where
  "validate_lease_duration d =
     (if d \<le> 0 \<or> d > 3600000000 then Inl (ValueErr ''invalid_lease_duration'') else Inr d)"

definition default_lease_duration :: int where
  "default_lease_duration = 300000000"

section \<open>Plan prerequisites\<close>

definition library_snapshot_keys :: "pystr list" where
  "library_snapshot_keys =
     [lit ''library_id'', lit ''revision'', lit ''enabled'', lit ''scope_verified'',
      lit ''root_directory_id'']"

definition json_matches_library :: "json \<Rightarrow> library_row \<Rightarrow> bool" where
  "json_matches_library j lib =
     (case j of
        JObj kvs \<Rightarrow>
          set (map fst kvs) = set library_snapshot_keys
          \<and> (case map (map_of kvs) library_snapshot_keys of
               [Some a, Some b, Some c, Some d, Some e] \<Rightarrow>
                 json_eq_str a (lib_id lib) \<and> json_eq_int b (lib_revision lib)
                 \<and> json_eq_bool c (lib_enabled lib) \<and> json_eq_bool d (lib_scope_verified lib)
                 \<and> json_eq_str e (lib_root_directory_id lib)
             | _ \<Rightarrow> False)
      | _ \<Rightarrow> False)"

definition plan_library_snapshot_matches :: "plan_row \<Rightarrow> library_row \<Rightarrow> bool" where
  "plan_library_snapshot_matches p lib =
     (case plan_preconditions p of
        Some (JObj kvs) \<Rightarrow>
          (case map_of kvs (lit ''library'') of
             None \<Rightarrow> False | Some j \<Rightarrow> json_matches_library j lib)
      | _ \<Rightarrow> False)"

definition plan_is_current :: "time \<Rightarrow> store \<Rightarrow> plan_row \<Rightarrow> bool" where
  "plan_is_current clk s p =
     (case (row_of lib_id (plan_library_id p) (libraries s),
            row_of run_id (plan_source_scan_run_id p) (runs s)) of
        (Some lib, Some run) \<Rightarrow>
          lib_enabled lib \<and> lib_scope_verified lib \<and> plan_library_snapshot_matches p lib
          \<and> run_library_id run = plan_library_id p
          \<and> run_root_directory_id run = lib_root_directory_id lib
          \<and> run_state run = SCAN_COMPLETED \<and> run_complete run
          \<and> run_snapshot_revision run = Some (plan_source_snapshot_revision p)
          \<and> plan_expires_at p > clk
      | _ \<Rightarrow> False)"

definition invalidate_plan :: "plan_row \<Rightarrow> store \<Rightarrow> store" where
  "invalidate_plan p s =
     s\<lparr>plans := update_where (\<lambda>q. plan_id q = plan_id p)
        (\<lambda>q. q\<lparr>plan_status := PLAN_INVALIDATED, plan_revision := plan_revision p + 1\<rparr>) (plans s)\<rparr>"

definition ensure_planned_and_current :: "time \<Rightarrow> plan_row option \<Rightarrow> plan_row op_act" where
  "ensure_planned_and_current clk plan s =
     (case plan of
        None \<Rightarrow> (Inl (PrerequisiteError ''plan_not_found''), s)
      | Some p \<Rightarrow>
          if plan_status p \<noteq> PLAN_PLANNED
            then (Inl (PrerequisiteError ''plan_is_not_planned''), s)
          else if plan_is_current clk s p then (Inr p, s)
          else (Inl (PrerequisiteError ''plan_prerequisites_changed''), invalidate_plan p s))"

definition get_plan :: "pystr \<Rightarrow> store \<Rightarrow> plan_row option" where
  "get_plan pid s = row_of plan_id pid (plans s)"

definition get_op :: "pystr \<Rightarrow> store \<Rightarrow> op_row option" where
  "get_op oid s = row_of op_id oid (ops s)"

definition load_operation :: "pystr \<Rightarrow> int \<Rightarrow> op_row op_act" where
  "load_operation oid rv =
     sbind (scheck (validate_identifier oid ''invalid_operation_id'' 40)) (\<lambda>_.
     sbind sget (\<lambda>s.
       case get_op oid s of
         None \<Rightarrow> sraise NotFound
       | Some r \<Rightarrow> if op_revision r \<noteq> rv then sraise (Conflict ''operation_revision_changed'')
                   else sret r))"

section \<open>Atomic writes\<close>

definition op_update ::
  "pystr \<Rightarrow> (op_row \<Rightarrow> bool) \<Rightarrow> (op_row \<Rightarrow> op_row) \<Rightarrow> store \<Rightarrow> store option" where
  "op_update oid q f s =
     map_option (\<lambda>rows. s\<lparr>ops := rows\<rparr>) (update_one (\<lambda>r. op_id r = oid \<and> q r) f (ops s))"

definition op_write :: "(store \<Rightarrow> store option) \<Rightarrow> op_error \<Rightarrow> unit op_act" where
  "op_write w e s = (case w s of None \<Rightarrow> (Inl e, s) | Some s' \<Rightarrow> (Inr (), s'))"

definition interleave :: "(store \<Rightarrow> store) \<Rightarrow> unit op_act" where
  "interleave interf s = (Inr (), interf s)"

definition lease_expired :: "time \<Rightarrow> op_row \<Rightarrow> bool" where
  "lease_expired t r = (case op_lease_expires_at r of None \<Rightarrow> False | Some e \<Rightarrow> e \<le> t)"

definition lease_live :: "time \<Rightarrow> op_row \<Rightarrow> bool" where
  "lease_live t r = (case op_lease_expires_at r of None \<Rightarrow> False | Some e \<Rightarrow> e > t)"

definition claim_guard :: "time \<Rightarrow> int \<Rightarrow> op_row \<Rightarrow> bool" where
  "claim_guard t rv r =
     (op_revision r = rv
      \<and> (op_status r = OP_PLANNED \<or> (op_status r = OP_ORGANIZING \<and> lease_expired t r)))"

definition claim_set :: "pystr \<Rightarrow> time \<Rightarrow> time \<Rightarrow> int \<Rightarrow> op_row \<Rightarrow> op_row" where
  "claim_set tok e t rv r =
     r\<lparr>op_status := OP_ORGANIZING, op_revision := rv + 1, op_attempts := op_attempts r + 1,
       op_lease_token := Some tok, op_lease_expires_at := Some e, op_updated_at := t\<rparr>"

definition owned_guard :: "pystr \<Rightarrow> time \<Rightarrow> int \<Rightarrow> op_row \<Rightarrow> bool" where
  "owned_guard tok t rv r =
     (op_revision r = rv \<and> op_status r = OP_ORGANIZING \<and> op_lease_token r = Some tok
      \<and> lease_live t r)"

definition renew_set :: "time \<Rightarrow> time \<Rightarrow> int \<Rightarrow> op_row \<Rightarrow> op_row" where
  "renew_set e t rv r =
     r\<lparr>op_revision := rv + 1, op_lease_expires_at := Some e, op_updated_at := t\<rparr>"

definition finish_set :: "op_status \<Rightarrow> string option \<Rightarrow> time \<Rightarrow> int \<Rightarrow> op_row \<Rightarrow> op_row" where
  "finish_set st err t rv r =
     r\<lparr>op_status := st, op_revision := rv + 1, op_lease_token := None,
       op_lease_expires_at := None, op_error_code := err, op_finished_at := Some t,
       op_updated_at := t\<rparr>"

definition lost_guard :: "pystr \<Rightarrow> int \<Rightarrow> op_row \<Rightarrow> bool" where
  "lost_guard tok rv r =
     (op_revision r = rv \<and> op_status r = OP_ORGANIZING \<and> op_lease_token r = Some tok)"

definition cancel_guard :: "int \<Rightarrow> op_row \<Rightarrow> bool" where
  "cancel_guard rv r = (op_revision r = rv \<and> op_status r = OP_PLANNED)"

definition cancel_set :: "time \<Rightarrow> int \<Rightarrow> op_row \<Rightarrow> op_row" where
  "cancel_set t rv r =
     r\<lparr>op_status := OP_CANCELLED, op_revision := rv + 1, op_finished_at := Some t,
       op_updated_at := t\<rparr>"

definition retry_guard :: "int \<Rightarrow> op_row \<Rightarrow> bool" where
  "retry_guard rv r = (op_revision r = rv \<and> op_status r = OP_FAILED)"

definition retry_set :: "time \<Rightarrow> int \<Rightarrow> op_row \<Rightarrow> op_row" where
  "retry_set t rv r =
     r\<lparr>op_status := OP_PLANNED, op_revision := rv + 1, op_error_code := None,
       op_finished_at := None, op_updated_at := t\<rparr>"

section \<open>Methods\<close>

definition read_summary :: "pystr \<Rightarrow> op_summary op_act" where
  "read_summary oid =
     sbind sget (\<lambda>s. case get_op oid s of None \<Rightarrow> sraise NotFound | Some r \<Rightarrow> sret (summary r))"

definition get_operation :: "pystr \<Rightarrow> op_summary op_act" where
  "get_operation oid =
     sbind (scheck (validate_identifier oid ''invalid_operation_id'' 40)) (\<lambda>_. read_summary oid)"

definition plan_digest :: "pystr \<Rightarrow> pystr op_act" where
  "plan_digest pid =
     sbind (scheck (validate_identifier pid ''invalid_plan_id'' 64)) (\<lambda>_.
     sbind sget (\<lambda>s. case get_plan pid s of None \<Rightarrow> sraise NotFound | Some p \<Rightarrow> sret (plan_hash p)))"

definition new_operation :: "time \<Rightarrow> pystr \<Rightarrow> plan_row \<Rightarrow> pystr \<Rightarrow> op_row" where
  "new_operation clk new_id p key =
     \<lparr>op_id = new_id, op_plan_id = plan_id p, op_plan_revision = plan_revision p,
      op_idempotency_key = key, op_status = OP_PLANNED, op_revision = 1, op_attempts = 0,
      op_lease_token = None, op_lease_expires_at = None, op_error_code = None,
      op_created_at = clk, op_updated_at = clk, op_finished_at = None\<rparr>"

definition insert_or_existing :: "op_row \<Rightarrow> op_summary op_act" where
  "insert_or_existing r s =
     (case insert_op r s of
        Some s' \<Rightarrow> (Inr (summary r), s')
      | None \<Rightarrow>
         (case row_of op_idempotency_key (op_idempotency_key r) (ops s) of
            Some ex \<Rightarrow>
              if op_plan_id ex = op_plan_id r then (Inr (summary ex), s)
              else (case row_of op_plan_id (op_plan_id r) (ops s) of
                      Some _ \<Rightarrow> (Inl (Conflict ''operation_plan_conflict''), s)
                    | None \<Rightarrow> (Inl (Conflict ''operation_creation_conflict''), s))
          | None \<Rightarrow>
              (case row_of op_plan_id (op_plan_id r) (ops s) of
                 Some _ \<Rightarrow> (Inl (Conflict ''operation_plan_conflict''), s)
               | None \<Rightarrow> (Inl (Conflict ''operation_creation_conflict''), s))))"

definition create_operation ::
  "(store \<Rightarrow> store) \<Rightarrow> time \<Rightarrow> pystr \<Rightarrow> pystr \<Rightarrow> pystr \<Rightarrow> int option \<Rightarrow> op_summary op_act" where
  "create_operation interf clk new_id pid key expected_plan_revision =
     sbind (scheck (validate_identifier pid ''invalid_plan_id'' 64)) (\<lambda>_.
     sbind (scheck (validate_identifier key ''invalid_idempotency_key'' 255)) (\<lambda>_.
     sbind sget (\<lambda>s0.
     sbind (ensure_planned_and_current clk (get_plan pid s0)) (\<lambda>p.
     if expected_plan_revision \<noteq> None \<and> expected_plan_revision \<noteq> Some (plan_revision p)
       then sraise (Conflict ''plan_revision_changed'')
     else sbind sget (\<lambda>s.
       case row_of op_idempotency_key key (ops s) of
         Some ex \<Rightarrow> if op_plan_id ex \<noteq> pid then sraise (Conflict ''idempotency_key_conflict'')
                     else sret (summary ex)
       | None \<Rightarrow>
           (case row_of op_plan_id pid (ops s) of
              Some _ \<Rightarrow> sraise (Conflict ''operation_plan_conflict'')
            | None \<Rightarrow>
                sbind (interleave interf) (\<lambda>_.
                  insert_or_existing (new_operation clk new_id p key))))))))"

definition claim ::
  "(store \<Rightarrow> store) \<Rightarrow> time \<Rightarrow> pystr \<Rightarrow> pystr \<Rightarrow> int \<Rightarrow> int \<Rightarrow> py_datetime option
    \<Rightarrow> op_lease op_act" where
  "claim interf clk token oid rv lease_duration now =
     sbind (scheck (validate_lease_duration lease_duration)) (\<lambda>d.
     let t = resolve_now clk now in
     sbind (load_operation oid rv) (\<lambda>r.
     sbind sget (\<lambda>s0.
     sbind (ensure_planned_and_current clk (get_plan (op_plan_id r) s0)) (\<lambda>p.
     if plan_revision p \<noteq> op_plan_revision r
       then sraise (PrerequisiteError ''plan_revision_changed'')
     else if op_status r = OP_UNCERTAIN then sraise (StateError ''uncertain_requires_verification'')
     else if op_status r \<notin> {OP_PLANNED, OP_ORGANIZING}
       then sraise (StateError ''operation_is_not_claimable'')
     else if op_status r = OP_ORGANIZING \<and> lease_live t r
       then sraise (LeaseUnavailable ''lease_is_active'')
     else
       sbind (interleave interf) (\<lambda>_.
       sbind (op_write (op_update oid (claim_guard t rv) (claim_set token (t + d) t rv))
                (LeaseUnavailable ''lease_claim_lost'')) (\<lambda>_.
       sret \<lparr>lease_operation_id = oid, lease_revision = rv + 1, lease_token = token,
             lease_expires_at = Some (t + d)\<rparr>))))))"

definition oldest_planned :: "store \<Rightarrow> op_row option" where
  "oldest_planned s =
     (case sort_key (\<lambda>r. (op_created_at r, op_id r))
             (filter (\<lambda>r. op_status r = OP_PLANNED) (ops s)) of
        [] \<Rightarrow> None | r # _ \<Rightarrow> Some r)"

definition claim_next ::
  "(store \<Rightarrow> store) \<Rightarrow> (store \<Rightarrow> store) \<Rightarrow> time \<Rightarrow> pystr \<Rightarrow> int \<Rightarrow> py_datetime option
    \<Rightarrow> op_lease option op_act" where
  "claim_next interf_select interf clk token lease_duration now =
     sbind sget (\<lambda>s.
       case oldest_planned s of
         None \<Rightarrow> sret None
       | Some r \<Rightarrow>
           sbind (interleave interf_select) (\<lambda>_.
             scatch
               (sbind (claim interf clk token (op_id r) (op_revision r) lease_duration now)
                  (\<lambda>l. sret (Some l)))
               (\<lambda>e. case e of LeaseUnavailable _ \<Rightarrow> sret None | _ \<Rightarrow> sraise e)))"

definition renew_lease ::
  "time \<Rightarrow> pystr \<Rightarrow> int \<Rightarrow> pystr \<Rightarrow> int \<Rightarrow> py_datetime option \<Rightarrow> op_lease op_act" where
  "renew_lease clk oid rv token lease_duration now =
     sbind (scheck (validate_lease_duration lease_duration)) (\<lambda>d.
     sbind (scheck (validate_token token)) (\<lambda>_.
     let t = resolve_now clk now in
     sbind (op_write (op_update oid (owned_guard token t rv) (renew_set (t + d) t rv))
              (LeaseUnavailable ''lease_is_not_owned'')) (\<lambda>_.
     sret \<lparr>lease_operation_id = oid, lease_revision = rv + 1, lease_token = token,
           lease_expires_at = Some (t + d)\<rparr>)))"

text \<open>
  \<open>complete_organized_with_dirty_events\<close> updates the row and adds the events in one
  transaction; any failure rolls both back.
\<close>

definition complete_tx ::
  "(nat \<Rightarrow> pystr) \<Rightarrow> time \<Rightarrow> pystr \<Rightarrow> int \<Rightarrow> pystr \<Rightarrow> pystr list \<Rightarrow> unit op_act" where
  "complete_tx new_id t oid rv token dirs s =
     (case op_update oid (owned_guard token t rv) (finish_set OP_ORGANIZED None t rv) s of
        None \<Rightarrow> (Inl (LeaseUnavailable ''lease_is_not_owned''), s)
      | Some s1 \<Rightarrow>
         (case enqueue_directory_dirty new_id oid dirs (events s1) of
            Inl e \<Rightarrow> (Inl (Conflict e), s)
          | Inr rows \<Rightarrow>
             (case insert_events rows s1 of
                None \<Rightarrow> (Inl (Conflict ''outbox_persistence_failed''), s)
              | Some s2 \<Rightarrow> (Inr (), s2))))"

definition complete_organized ::
  "(nat \<Rightarrow> pystr) \<Rightarrow> time \<Rightarrow> pystr \<Rightarrow> int \<Rightarrow> pystr \<Rightarrow> pystr \<Rightarrow> pystr \<Rightarrow> pystr list option
    \<Rightarrow> py_datetime option \<Rightarrow> op_summary op_act" where
  "complete_organized new_id clk oid rv token source_dir target_dir dirs now =
     sbind (scheck (validate_identifier oid ''invalid_operation_id'' 40)) (\<lambda>_.
     sbind (scheck (validate_token token)) (\<lambda>_.
     sbind (complete_tx new_id (resolve_now clk now) oid rv token
              (case dirs of None \<Rightarrow> [source_dir, target_dir] | Some ds \<Rightarrow> ds)) (\<lambda>_.
     read_summary oid)))"

definition finish_operation ::
  "(nat \<Rightarrow> pystr) \<Rightarrow> time \<Rightarrow> pystr \<Rightarrow> int \<Rightarrow> pystr \<Rightarrow> op_status \<Rightarrow> string option
    \<Rightarrow> pystr option \<Rightarrow> pystr option \<Rightarrow> py_datetime option \<Rightarrow> op_summary op_act" where
  "finish_operation new_id clk oid rv token st err source_dir target_dir now =
     (if st \<notin> {OP_ORGANIZED, OP_FAILED, OP_UNCERTAIN}
        then sraise (StateError ''invalid_terminal_status'')
      else if st = OP_ORGANIZED then
        (case (source_dir, target_dir) of
           (Some sd, Some td) \<Rightarrow> complete_organized new_id clk oid rv token sd td None now
         | _ \<Rightarrow> sraise (StateError ''directory_scope_required''))
      else
        sbind (scheck (validate_token token)) (\<lambda>_.
        sbind (scheck (validate_error_code err)) (\<lambda>_.
        let t = resolve_now clk now in
        sbind (op_write (op_update oid (owned_guard token t rv) (finish_set st err t rv))
                 (LeaseUnavailable ''lease_is_not_owned'')) (\<lambda>_.
        read_summary oid))))"

definition finish_after_lease_loss ::
  "time \<Rightarrow> pystr \<Rightarrow> int \<Rightarrow> pystr \<Rightarrow> py_datetime option \<Rightarrow> op_summary op_act" where
  "finish_after_lease_loss clk oid rv token now =
     sbind (scheck (validate_identifier oid ''invalid_operation_id'' 40)) (\<lambda>_.
     sbind (scheck (validate_token token)) (\<lambda>_.
     let t = resolve_now clk now in
     sbind (op_write (op_update oid (lost_guard token rv)
                        (finish_set OP_UNCERTAIN (Some ''lease_lost'') t rv))
              (LeaseUnavailable ''lease_is_not_owned'')) (\<lambda>_.
     read_summary oid)))"

definition cancel_operation :: "time \<Rightarrow> pystr \<Rightarrow> int \<Rightarrow> op_summary op_act" where
  "cancel_operation clk oid rv =
     sbind (scheck (validate_identifier oid ''invalid_operation_id'' 40)) (\<lambda>_.
     sbind (op_write (op_update oid (cancel_guard rv) (cancel_set clk rv))
              (StateError ''operation_is_not_cancellable'')) (\<lambda>_.
     read_summary oid))"

definition retry_operation :: "(store \<Rightarrow> store) \<Rightarrow> time \<Rightarrow> pystr \<Rightarrow> int \<Rightarrow> op_summary op_act" where
  "retry_operation interf clk oid rv =
     sbind (load_operation oid rv) (\<lambda>r.
     if op_status r = OP_UNCERTAIN then sraise (StateError ''uncertain_requires_verification'')
     else if op_status r \<noteq> OP_FAILED then sraise (StateError ''operation_is_not_retryable'')
     else
       sbind (interleave interf) (\<lambda>_.
       sbind (op_write (op_update oid (retry_guard rv) (retry_set clk rv))
                (Conflict ''operation_revision_changed'')) (\<lambda>_.
       read_summary oid)))"

end
