(* ===== verification/Lease_Writes.thy ===== *)
theory Lease_Writes
  imports Operations
begin

text \<open>
  The seven conditional writes of \<^verbatim>\<open>organization_operations.py\<close> share one contract: the
  guard fixes the expected revision, the assignment moves it on by one, keeps the
  identifying columns, follows the status diagram and keeps the row invariant.  The
  contract is the locale \<open>cas_write\<close>; its lemmas are what compare-and-set gives, and each
  write of the model is an interpretation.
\<close>

section \<open>Row invariant and status diagram\<close>

fun op_transition :: "op_status \<Rightarrow> op_status \<Rightarrow> bool" where
  "op_transition OP_PLANNED st = (st \<in> {OP_ORGANIZING, OP_CANCELLED})"
| "op_transition OP_ORGANIZING st = (st \<in> {OP_ORGANIZING, OP_ORGANIZED, OP_FAILED, OP_UNCERTAIN})"
| "op_transition OP_FAILED st = (st = OP_PLANNED)"
| "op_transition _ st = False"

definition row_ok :: "op_row \<Rightarrow> bool" where
  "row_ok r \<longleftrightarrow>
     1 \<le> op_revision r \<and> 0 \<le> op_attempts r
     \<and> (op_status r = OP_ORGANIZING \<longleftrightarrow> op_lease_token r \<noteq> None)
     \<and> (op_lease_token r \<noteq> None \<longleftrightarrow> op_lease_expires_at r \<noteq> None)
     \<and> (op_status r \<in> {OP_ORGANIZED, OP_FAILED, OP_UNCERTAIN, OP_CANCELLED}
          \<longleftrightarrow> op_finished_at r \<noteq> None)
     \<and> (op_error_code r \<noteq> None \<longrightarrow> op_status r \<in> {OP_FAILED, OP_UNCERTAIN})
     \<and> (op_attempts r = 0 \<longrightarrow> op_status r \<in> {OP_PLANNED, OP_CANCELLED})"

text \<open>What never changes in a row once it is inserted.\<close>

definition same_identity :: "op_row \<Rightarrow> op_row \<Rightarrow> bool" where
  "same_identity r r' \<longleftrightarrow>
     op_id r' = op_id r \<and> op_plan_id r' = op_plan_id r
     \<and> op_plan_revision r' = op_plan_revision r
     \<and> op_idempotency_key r' = op_idempotency_key r \<and> op_created_at r' = op_created_at r"

lemma same_identity_refl [simp]: "same_identity r r"
  by (simp add: same_identity_def)

lemma same_identity_trans: "same_identity a b \<Longrightarrow> same_identity b c \<Longrightarrow> same_identity a c"
  by (simp add: same_identity_def)

definition op_invariant :: "op_row list \<Rightarrow> bool" where
  "op_invariant rows \<longleftrightarrow> unique_ops rows \<and> (\<forall>r \<in> set rows. row_ok r)"

lemma op_update_frame:
  assumes "op_update oid q f s = Some s'"
  shows "plans s' = plans s" "libraries s' = libraries s" "runs s' = runs s" "events s' = events s"
  using assms by (auto simp: op_update_def)

lemma op_update_Some:
  assumes "op_update oid q f s = Some s'"
  shows "ops s' = update_where (\<lambda>r. op_id r = oid \<and> q r) f (ops s)"
    and "row_count (\<lambda>r. op_id r = oid \<and> q r) (ops s) = 1"
  using assms by (auto simp: op_update_def update_one_def split: if_splits)

section \<open>The contract\<close>

locale cas_write =
  fixes guard :: "int \<Rightarrow> op_row \<Rightarrow> bool"
    and assign :: "int \<Rightarrow> op_row \<Rightarrow> op_row"
  assumes guard_revision: "guard rv r \<Longrightarrow> op_revision r = rv"
    and assign_revision: "op_revision (assign rv r) = rv + 1"
    and assign_identity: "same_identity r (assign rv r)"
    and assign_transition: "guard rv r \<Longrightarrow> op_transition (op_status r) (op_status (assign rv r))"
    and assign_ok: "row_ok r \<Longrightarrow> guard rv r \<Longrightarrow> row_ok (assign rv r)"
begin

lemma assign_columns:
  "op_id (assign rv r) = op_id r"
  "op_plan_id (assign rv r) = op_plan_id r"
  "op_idempotency_key (assign rv r) = op_idempotency_key r"
  using assign_identity[of r rv] by (simp_all add: same_identity_def)

lemma write_unique:
  assumes "op_update oid (guard rv) (assign rv) s = Some s'" and "unique_ops (ops s)"
  shows "unique_ops (ops s')"
  using assms(2) op_update_Some(1)[OF assms(1)]
  by (simp add: unique_ops_def map_key_update assign_columns)

lemma write_invariant:
  assumes "op_update oid (guard rv) (assign rv) s = Some s'" and "op_invariant (ops s)"
  shows "op_invariant (ops s')"
  unfolding op_invariant_def
proof (intro conjI ballI)
  show "unique_ops (ops s')"
    using write_unique[OF assms(1)] assms(2) by (simp add: op_invariant_def)
  fix r' assume "r' \<in> set (ops s')"
  then obtain r where "r \<in> set (ops s)"
    and "r' = (if op_id r = oid \<and> guard rv r then assign rv r else r)"
    unfolding op_update_Some(1)[OF assms(1)] by (blast dest: set_update_where)
  with assms(2) show "row_ok r'" by (simp add: op_invariant_def assign_ok)
qed

text \<open>A successful write found the row at the expected revision and replaced only that row.\<close>

lemma write_row:
  assumes w: "op_update oid (guard rv) (assign rv) s = Some s'" and u: "unique_ops (ops s)"
  obtains r where "get_op oid s = Some r" "guard rv r" "op_revision r = rv"
    "get_op oid s' = Some (assign rv r)"
proof -
  have d: "distinct (map op_id (ops s))" using u by (simp add: unique_ops_def)
  obtain r where r: "row_of op_id oid (ops s) = Some r" "guard rv r"
    by (rule row_count_key_one[OF d op_update_Some(2)[OF w]])
  have "row_of op_id oid (ops s')
      = map_option (\<lambda>r. if op_id r = oid \<and> guard rv r then assign rv r else r)
          (row_of op_id oid (ops s))"
    unfolding op_update_Some(1)[OF w] by (rule row_of_update) (simp add: assign_columns)
  also have "\<dots> = Some (assign rv r)"
    using r row_of_Some[OF r(1)] by simp
  finally show thesis
    using that[of r] r guard_revision[OF r(2)] by (simp add: get_op_def)
qed

lemma write_other:
  assumes "op_update oid (guard rv) (assign rv) s = Some s'" and "oid' \<noteq> oid"
  shows "get_op oid' s' = get_op oid' s"
proof -
  have "row_of op_id oid' (ops s')
    = map_option (\<lambda>r. if op_id r = oid \<and> guard rv r then assign rv r else r)
        (row_of op_id oid' (ops s))"
    unfolding op_update_Some(1)[OF assms(1)]
    by (rule row_of_update) (simp add: assign_columns)
  then show ?thesis
    using assms(2) by (cases "row_of op_id oid' (ops s)") (auto simp: get_op_def dest: row_of_Some)
qed

text \<open>Compare-and-set: after one success, no write that expects the same revision succeeds.\<close>

lemma write_excludes:
  assumes w: "op_update oid (guard rv) (assign rv) s = Some s'" and u: "unique_ops (ops s)"
    and g: "\<And>r. q r \<Longrightarrow> op_revision r = rv"
  shows "op_update oid q f s' = None"
proof -
  obtain r where r: "get_op oid s' = Some (assign rv r)" using write_row[OF w u] by blast
  have "distinct (map op_id (ops s'))" using write_unique[OF w u] by (simp add: unique_ops_def)
  from row_count_key[OF this, of oid q] r g assign_revision[of rv r]
  have "row_count (\<lambda>r. op_id r = oid \<and> q r) (ops s') = 0"
    by (fastforce simp: get_op_def)
  then show ?thesis by (simp add: op_update_def update_one_def)
qed

text \<open>Every row of the table keeps its identity, moves along the diagram or stays as it is.\<close>

lemma write_history:
  assumes "op_update oid (guard rv) (assign rv) s = Some s'" and "r \<in> set (ops s)"
  shows "\<exists>r' \<in> set (ops s'). same_identity r r'
    \<and> (r' = r \<or> (op_transition (op_status r) (op_status r') \<and> op_revision r' = op_revision r + 1))"
proof -
  let ?r' = "if op_id r = oid \<and> guard rv r then assign rv r else r"
  have "?r' \<in> set (ops s')"
    unfolding op_update_Some(1)[OF assms(1)] using assms(2) by (auto simp: update_where_def)
  moreover have "same_identity r ?r'" by (simp add: assign_identity)
  moreover have "?r' = r \<or> (op_transition (op_status r) (op_status ?r')
      \<and> op_revision ?r' = op_revision r + 1)"
    using assign_revision[of rv r] assign_transition[of rv r] guard_revision[of rv r] by auto
  ultimately show ?thesis by blast
qed

end

section \<open>The seven writes\<close>

lemmas write_sets =
  claim_guard_def claim_set_def owned_guard_def renew_set_def finish_set_def lost_guard_def
  cancel_guard_def cancel_set_def retry_guard_def retry_set_def

interpretation claim_cas: cas_write "claim_guard t" "claim_set tok e t" for t tok e
  by unfold_locales (auto simp: write_sets same_identity_def row_ok_def)

interpretation renew_cas: cas_write "owned_guard tok t" "renew_set e t" for tok t e
  by unfold_locales (auto simp: write_sets same_identity_def row_ok_def)

interpretation fail_cas: cas_write "owned_guard tok t" "finish_set OP_FAILED err t" for tok t err
  by unfold_locales (auto simp: write_sets same_identity_def row_ok_def)

interpretation uncertain_cas: cas_write "owned_guard tok t" "finish_set OP_UNCERTAIN err t"
  for tok t err
  by unfold_locales (auto simp: write_sets same_identity_def row_ok_def)

interpretation organized_cas: cas_write "owned_guard tok t" "finish_set OP_ORGANIZED None t" for tok t
  by unfold_locales (auto simp: write_sets same_identity_def row_ok_def)

interpretation lost_cas: cas_write "lost_guard tok" "finish_set OP_UNCERTAIN err t" for tok err t
  by unfold_locales (auto simp: write_sets same_identity_def row_ok_def)

interpretation cancel_cas: cas_write cancel_guard "cancel_set t" for t
  by unfold_locales (auto simp: write_sets same_identity_def row_ok_def)

interpretation retry_cas: cas_write retry_guard "retry_set t" for t
  by unfold_locales (auto simp: write_sets same_identity_def row_ok_def)

end
