(* ===== verification/Operation_Steps.thy ===== *)
theory Operation_Steps
  imports Lease_Writes
begin

text \<open>
  The step relation of the operation tables: one rule per atomic commit any part of the
  program makes on them, with arbitrary arguments, so that every interleaving of service
  calls is a run of \<open>db_write\<close>.  The theory shows that every method only ever performs such steps,
  that the table invariant is kept, and how a row evolves.
\<close>

section \<open>Atomic commits\<close>

inductive db_write :: "store \<Rightarrow> store \<Rightarrow> bool" where
  dw_insert: "insert_op (new_operation clk new_id p key) s = Some s' \<Longrightarrow> db_write s s'"
| dw_claim: "op_update oid (claim_guard t rv) (claim_set tok e t rv) s = Some s' \<Longrightarrow> db_write s s'"
| dw_renew: "op_update oid (owned_guard tok t rv) (renew_set e t rv) s = Some s' \<Longrightarrow> db_write s s'"
| dw_fail: "op_update oid (owned_guard tok t rv) (finish_set OP_FAILED err t rv) s = Some s'
    \<Longrightarrow> db_write s s'"
| dw_uncertain: "op_update oid (owned_guard tok t rv) (finish_set OP_UNCERTAIN err t rv) s = Some s'
    \<Longrightarrow> db_write s s'"
| dw_lost: "op_update oid (lost_guard tok rv) (finish_set OP_UNCERTAIN err t rv) s = Some s'
    \<Longrightarrow> db_write s s'"
| dw_cancel: "op_update oid (cancel_guard rv) (cancel_set t rv) s = Some s' \<Longrightarrow> db_write s s'"
| dw_retry: "op_update oid (retry_guard rv) (retry_set t rv) s = Some s' \<Longrightarrow> db_write s s'"
| dw_complete: "complete_tx new_id t oid rv tok dirs s = (Inr (), s') \<Longrightarrow> db_write s s'"
| dw_other: "ops s' = ops s \<Longrightarrow> events s' = events s \<Longrightarrow> db_write s s'"

abbreviation db_reach :: "store \<Rightarrow> store \<Rightarrow> bool" where
  "db_reach \<equiv> db_write\<^sup>*\<^sup>*"

lemma complete_tx_Inr:
  assumes "complete_tx new_id t oid rv tok dirs s = (Inr (), s')"
  obtains s1 rows where
    "op_update oid (owned_guard tok t rv) (finish_set OP_ORGANIZED None t rv) s = Some s1"
    "enqueue_directory_dirty new_id oid dirs (events s1) = Inr rows"
    "insert_events rows s1 = Some s'"
  using assms by (auto simp: complete_tx_def split: option.splits sum.splits)

lemma insert_events_frame:
  assumes "insert_events rows s = Some s'"
  shows "ops s' = ops s" "plans s' = plans s" "events s' = events s @ rows"
  using assms by (auto simp: insert_events_def split: if_splits)

section \<open>Table invariant\<close>

definition store_ok :: "store \<Rightarrow> bool" where
  "store_ok s \<longleftrightarrow>
     op_invariant (ops s) \<and> unique_events (events s)
     \<and> (\<forall>e \<in> set (events s). \<exists>r \<in> set (ops s).
          op_id r = ev_operation_id e \<and> op_status r = OP_ORGANIZED)"

lemma db_write_invariant:
  assumes "db_write s s'" and "op_invariant (ops s)"
  shows "op_invariant (ops s')"
  using assms
proof (induction rule: db_write.induct)
  case (dw_insert clk new_id p key s s')
  then have "unique_ops (ops s')"
    by (auto simp: op_invariant_def dest: unique_ops_insert)
  moreover have "row_ok (new_operation clk new_id p key)"
    by (simp add: new_operation_def row_ok_def)
  ultimately show ?case
    using dw_insert by (auto simp: op_invariant_def insert_op_def split: if_splits)
next
  case (dw_complete new_id t oid rv tok dirs s s')
  then show ?case
    by (elim complete_tx_Inr) (simp add: insert_events_frame organized_cas.write_invariant)
qed ((rule claim_cas.write_invariant renew_cas.write_invariant fail_cas.write_invariant
    uncertain_cas.write_invariant lost_cas.write_invariant cancel_cas.write_invariant
    retry_cas.write_invariant, assumption+) | simp)+

lemma db_write_history:
  assumes "db_write s s'" and "r \<in> set (ops s)"
  shows "\<exists>r' \<in> set (ops s'). same_identity r r'
    \<and> (r' = r \<or> (op_transition (op_status r) (op_status r') \<and> op_revision r' = op_revision r + 1))"
  using assms
proof (induction rule: db_write.induct)
  case (dw_insert clk new_id p key s s')
  then have "r \<in> set (ops s')" by (auto simp: insert_op_def split: if_splits)
  then show ?case by (rule bexI[rotated]) simp
next
  case (dw_complete new_id t oid rv tok dirs s s')
  then show ?case
    by (elim complete_tx_Inr) (simp add: insert_events_frame organized_cas.write_history)
next
  case (dw_other s' s)
  then show ?case by (auto intro: bexI[of _ r])
qed (rule claim_cas.write_history renew_cas.write_history fail_cas.write_history
    uncertain_cas.write_history lost_cas.write_history cancel_cas.write_history
    retry_cas.write_history, assumption+)+

lemma settled_write:
  assumes "db_write s s'" "r \<in> set (ops s)"
    and "op_status r \<in> {OP_ORGANIZED, OP_UNCERTAIN, OP_CANCELLED}"
  shows "r \<in> set (ops s')"
  using db_write_history[OF assms(1,2)] assms(3) by auto

lemma db_write_events:
  assumes "db_write s s'" and "unique_events (events s)"
  shows "unique_events (events s')
    \<and> (\<forall>e \<in> set (events s') - set (events s). \<exists>r \<in> set (ops s').
         op_id r = ev_operation_id e \<and> op_status r = OP_ORGANIZED)"
  using assms
proof (induction rule: db_write.induct)
  case (dw_complete new_id t oid rv tok dirs s s')
  from dw_complete(1) obtain s1 rows where
    w: "op_update oid (owned_guard tok t rv) (finish_set OP_ORGANIZED None t rv) s = Some s1"
    and rows: "enqueue_directory_dirty new_id oid dirs (events s1) = Inr rows"
    and ins: "insert_events rows s1 = Some s'" by (rule complete_tx_Inr)
  have ev: "events s1 = events s" by (rule op_update_frame[OF w])
  obtain r where "r \<in> set (ops s)" "op_id r = oid" "owned_guard tok t rv r"
    using op_update_Some(2)[OF w] row_count_zero[of "\<lambda>r. op_id r = oid \<and> owned_guard tok t rv r" "ops s"]
    by force
  then have "finish_set OP_ORGANIZED None t rv r \<in> set (ops s')"
    unfolding insert_events_frame[OF ins] op_update_Some(1)[OF w]
    by (auto simp: update_where_def)
  moreover have "op_id (finish_set OP_ORGANIZED None t rv r) = oid"
    and "op_status (finish_set OP_ORGANIZED None t rv r) = OP_ORGANIZED"
    using \<open>op_id r = oid\<close> by (simp_all add: finish_set_def)
  ultimately have "\<exists>r \<in> set (ops s'). op_id r = oid \<and> op_status r = OP_ORGANIZED" by blast
  moreover have "\<forall>e \<in> set rows. ev_operation_id e = oid" using enqueue_Inr(3)[OF rows] by blast
  ultimately show ?case
    using unique_events_append[OF ins] dw_complete(2) insert_events_frame[OF ins] ev by auto
qed (auto simp: op_update_frame insert_op_def split: if_splits)

lemma db_write_ok:
  assumes "db_write s s'" and "store_ok s"
  shows "store_ok s'"
  unfolding store_ok_def
proof (intro conjI ballI)
  show "op_invariant (ops s')"
    using assms by (simp add: store_ok_def db_write_invariant)
  show "unique_events (events s')"
    using db_write_events[OF assms(1)] assms(2) by (simp add: store_ok_def)
  fix e assume "e \<in> set (events s')"
  show "\<exists>r \<in> set (ops s'). op_id r = ev_operation_id e \<and> op_status r = OP_ORGANIZED"
  proof (cases "e \<in> set (events s)")
    case True
    then obtain r where "r \<in> set (ops s)" "op_id r = ev_operation_id e" "op_status r = OP_ORGANIZED"
      using assms(2) by (auto simp: store_ok_def)
    with settled_write[OF assms(1)] show ?thesis by (metis insertCI)
  next
    case False
    with \<open>e \<in> set (events s')\<close> db_write_events[OF assms(1)] assms(2)
    show ?thesis by (auto simp: store_ok_def)
  qed
qed

lemma db_reach_ok: "db_reach s s' \<Longrightarrow> store_ok s \<Longrightarrow> store_ok s'"
  by (induction rule: rtranclp_induct) (auto intro: db_write_ok)

lemma db_reach_history:
  assumes "db_reach s s'" and "r \<in> set (ops s)"
  shows "\<exists>r' \<in> set (ops s'). same_identity r r' \<and> op_transition\<^sup>*\<^sup>* (op_status r) (op_status r')
    \<and> (r' = r \<or> op_revision r < op_revision r')"
  using assms
proof (induction rule: rtranclp_induct)
  case base
  then show ?case by (intro bexI[of _ r]) auto
next
  case (step t u)
  then obtain r1 where r1: "r1 \<in> set (ops t)" "same_identity r r1"
    "op_transition\<^sup>*\<^sup>* (op_status r) (op_status r1)" "r1 = r \<or> op_revision r < op_revision r1"
    by auto
  from db_write_history[OF step(2) r1(1)] obtain r2 where r2: "r2 \<in> set (ops u)"
    "same_identity r1 r2" "r2 = r1 \<or> (op_transition (op_status r1) (op_status r2)
      \<and> op_revision r2 = op_revision r1 + 1)" by blast
  show ?case
  proof (intro bexI[OF _ r2(1)] conjI)
    show "same_identity r r2" using r1(2) r2(2) by (rule same_identity_trans)
    show "op_transition\<^sup>*\<^sup>* (op_status r) (op_status r2)"
      using r1(3) r2(3) by (auto intro: rtranclp.rtrancl_into_rtrancl)
    show "r2 = r \<or> op_revision r < op_revision r2" using r1(4) r2(3) by auto
  qed
qed

lemma settled_reach:
  assumes "db_reach s s'" "r \<in> set (ops s)"
    and "op_status r \<in> {OP_ORGANIZED, OP_UNCERTAIN, OP_CANCELLED}"
  shows "r \<in> set (ops s')"
  using assms by (induction rule: rtranclp_induct) (auto dest: settled_write)

lemma events_grow: "db_reach s s' \<Longrightarrow> set (events s) \<subseteq> set (events s')"
proof (induction rule: rtranclp_induct)
  case (step t u)
  have "set (events t) \<subseteq> set (events u)"
    using step(2)
  proof (cases rule: db_write.cases)
    case (dw_complete new_id t1 oid rv tok dirs)
    then obtain s1 rows where
      "op_update oid (owned_guard tok t1 rv) (finish_set OP_ORGANIZED None t1 rv) t = Some s1"
      "insert_events rows s1 = Some u" by (rule complete_tx_Inr) blast
    then show ?thesis by (simp add: insert_events_frame op_update_frame)
  qed (auto simp: op_update_frame insert_op_def split: if_splits)
  with step(3) show ?case by blast
qed simp

text \<open>Keyed form: the row of an operation after any run.\<close>

lemma get_op_iff:
  "op_invariant (ops s) \<Longrightarrow> get_op oid s = Some r \<longleftrightarrow> r \<in> set (ops s) \<and> op_id r = oid"
  by (auto simp: get_op_def op_invariant_def unique_ops_def dest: row_of_Some
      intro: row_of_unique)

lemma reach_get_op:
  assumes "db_reach s s'" "store_ok s" "get_op oid s = Some r"
  obtains r' where "get_op oid s' = Some r'" "same_identity r r'"
    "op_transition\<^sup>*\<^sup>* (op_status r) (op_status r')" "r' = r \<or> op_revision r < op_revision r'"
proof -
  have inv: "op_invariant (ops s)" "op_invariant (ops s')"
    using assms(2) db_reach_ok[OF assms(1,2)] by (simp_all add: store_ok_def)
  have r: "r \<in> set (ops s)" "op_id r = oid" using assms(3) by (simp_all add: get_op_iff[OF inv(1)])
  from db_reach_history[OF assms(1) r(1)] obtain r' where r': "r' \<in> set (ops s')"
    "same_identity r r'" "op_transition\<^sup>*\<^sup>* (op_status r) (op_status r')"
    "r' = r \<or> op_revision r < op_revision r'" by blast
  with r(2) have "get_op oid s' = Some r'"
    by (simp add: get_op_iff[OF inv(2)] same_identity_def)
  with r' that show thesis by blast
qed

section \<open>Methods are runs of atomic commits\<close>

definition commits_only :: "(store, 'e, 'a) act \<Rightarrow> bool" where
  "commits_only m \<longleftrightarrow> (\<forall>s. db_reach s (snd (m s)))"

named_theorems commits_intro \<open>composition of handlers that only perform atomic commits\<close>

lemma commits_basic [commits_intro]:
  "commits_only (sret x)" "commits_only (sraise e)" "commits_only (scheck v)" "commits_only sget"
  by (simp_all add: commits_only_def monad_defs)

lemma commits_bind [commits_intro]:
  "commits_only m \<Longrightarrow> (\<And>x. commits_only (k x)) \<Longrightarrow> commits_only (sbind m k)"
  by (fastforce simp: commits_only_def sbind_def split: prod.splits sum.splits
      intro: rtranclp_trans)

lemma commits_catch [commits_intro]:
  "commits_only m \<Longrightarrow> (\<And>e. commits_only (h e)) \<Longrightarrow> commits_only (scatch m h)"
  by (fastforce simp: commits_only_def scatch_def split: prod.splits sum.splits
      intro: rtranclp_trans)

lemma commits_if [commits_intro]:
  "commits_only m \<Longrightarrow> commits_only n \<Longrightarrow> commits_only (if b then m else n)"
  by simp

lemma commits_option [commits_intro]:
  "commits_only m \<Longrightarrow> (\<And>x. commits_only (k x)) \<Longrightarrow> commits_only (case v of None \<Rightarrow> m | Some x \<Rightarrow> k x)"
  by (simp split: option.splits)

lemma commits_let [commits_intro]: "commits_only (k v) \<Longrightarrow> commits_only (let x = v in k x)"
  by simp

lemma commits_interleave [commits_intro]:
  "(\<And>s. db_reach s (interf s)) \<Longrightarrow> commits_only (interleave interf)"
  by (simp add: commits_only_def interleave_def)

lemma commits_write:
  "(\<And>s s'. w s = Some s' \<Longrightarrow> db_write s s') \<Longrightarrow> commits_only (op_write w e)"
  by (auto simp: commits_only_def op_write_def split: option.splits)

lemma commits_ensure [commits_intro]: "commits_only (ensure_planned_and_current clk p)"
proof -
  have "db_write s (invalidate_plan q s)" for s q
    by (rule dw_other) (simp_all add: invalidate_plan_def)
  then show ?thesis
    by (auto simp: commits_only_def ensure_planned_and_current_def split: option.splits)
qed

lemma commits_insert [commits_intro]:
  "commits_only (insert_or_existing (new_operation clk nid p key))"
  by (auto simp: commits_only_def insert_or_existing_def split: option.splits intro: dw_insert)

lemma commits_complete_tx [commits_intro]: "commits_only (complete_tx new_id t oid rv tok dirs)"
proof -
  have "db_reach s (snd (complete_tx new_id t oid rv tok dirs s))" for s
  proof (cases "complete_tx new_id t oid rv tok dirs s")
    case (Pair res s')
    show ?thesis
    proof (cases res)
      case (Inl e)
      then have "s' = s" using Pair by (auto simp: complete_tx_def split: option.splits sum.splits)
      then show ?thesis by (simp add: Pair)
    next
      case (Inr u)
      with Pair have "db_write s s'" by (auto intro: dw_complete)
      then show ?thesis by (simp add: Pair r_into_rtranclp)
    qed
  qed
  then show ?thesis by (simp add: commits_only_def)
qed

lemma commits_writes [commits_intro]:
  "commits_only (op_write (op_update oid (claim_guard t rv) (claim_set tok e t rv)) x)"
  "commits_only (op_write (op_update oid (owned_guard tok t rv) (renew_set e t rv)) x)"
  "commits_only (op_write (op_update oid (owned_guard tok t rv) (finish_set OP_FAILED err t rv)) x)"
  "commits_only (op_write (op_update oid (owned_guard tok t rv) (finish_set OP_UNCERTAIN err t rv)) x)"
  "commits_only (op_write (op_update oid (lost_guard tok rv) (finish_set OP_UNCERTAIN err t rv)) x)"
  "commits_only (op_write (op_update oid (cancel_guard rv) (cancel_set t rv)) x)"
  "commits_only (op_write (op_update oid (retry_guard rv) (retry_set t rv)) x)"
  by (rule commits_write, erule dw_claim dw_renew dw_fail dw_uncertain dw_lost dw_cancel dw_retry)+

lemma commits_read_summary [commits_intro]: "commits_only (read_summary oid)"
  unfolding read_summary_def by (intro commits_intro)

lemma commits_load [commits_intro]: "commits_only (load_operation oid rv)"
  unfolding load_operation_def by (intro commits_intro)

lemma commits_create:
  "(\<And>s. db_reach s (interf s)) \<Longrightarrow> commits_only (create_operation interf clk nid pid key expected)"
  unfolding create_operation_def by (intro commits_intro)

lemma commits_claim [commits_intro]:
  "(\<And>s. db_reach s (interf s)) \<Longrightarrow> commits_only (claim interf clk tok oid rv d now)"
  unfolding claim_def by (intro commits_intro)

lemma commits_claim_next:
  "(\<And>s. db_reach s (i1 s)) \<Longrightarrow> (\<And>s. db_reach s (i2 s))
    \<Longrightarrow> commits_only (claim_next i1 i2 clk tok d now)"
  unfolding claim_next_def
  by (intro commits_intro) (auto split: op_error.splits intro: commits_intro)

lemma commits_renew: "commits_only (renew_lease clk oid rv tok d now)"
  unfolding renew_lease_def by (intro commits_intro)

lemma commits_complete [commits_intro]:
  "commits_only (complete_organized new_id clk oid rv tok sd td dirs now)"
  unfolding complete_organized_def by (intro commits_intro)

lemma commits_finish: "commits_only (finish_operation new_id clk oid rv tok st err sd td now)"
proof -
  have wr: "commits_only (op_write
      (op_update oid (owned_guard tok t rv) (finish_set st err t rv)) e)"
    if "st = OP_FAILED \<or> st = OP_UNCERTAIN" for t e
    using that by (auto intro: commits_intro)
  show ?thesis
  proof (cases "st = OP_FAILED \<or> st = OP_UNCERTAIN")
    case True
    then show ?thesis
      unfolding finish_operation_def Let_def
      by (auto intro!: commits_intro wr)
  next
    case False
    then show ?thesis
      unfolding finish_operation_def Let_def
      by (auto intro!: commits_intro split: option.splits)
  qed
qed

lemma commits_lease_loss: "commits_only (finish_after_lease_loss clk oid rv tok now)"
  unfolding finish_after_lease_loss_def by (intro commits_intro)

lemma commits_cancel: "commits_only (cancel_operation clk oid rv)"
  unfolding cancel_operation_def by (intro commits_intro)

lemma commits_retry:
  "(\<And>s. db_reach s (interf s)) \<Longrightarrow> commits_only (retry_operation interf clk oid rv)"
  unfolding retry_operation_def by (intro commits_intro)

end
