(* ===== verification/Operation_Props.thy ===== *)
theory Operation_Props
  imports Operation_Steps
begin

text \<open>
  Correctness of the operation service: what each method does on success, how leases
  exclude and fence, and what holds after any run of service calls.  A demonstration store
  at the end instantiates every hypothesis.
\<close>

section \<open>Inversion of successful calls\<close>

lemmas act_defs = monad_defs load_operation_def ensure_planned_and_current_def op_write_def
  interleave_def Let_def

lemmas act_splits = option.splits sum.splits prod.splits if_splits

lemma validate_lease_duration_Inr:
  "validate_lease_duration d = Inr d' \<longleftrightarrow> d' = d \<and> 0 < d \<and> d \<le> 3600000000"
  by (auto simp: validate_lease_duration_def)

lemma claim_Inr:
  assumes "claim interf clk tok oid rv d now s = (Inr l, s')"
  obtains r p where
    "get_op oid s = Some r" "op_revision r = rv"
    "get_plan (op_plan_id r) s = Some p" "plan_status p = PLAN_PLANNED" "plan_is_current clk s p"
    "plan_revision p = op_plan_revision r"
    "op_status r = OP_PLANNED \<or> (op_status r = OP_ORGANIZING \<and> \<not> lease_live (resolve_now clk now) r)"
    "0 < d" "d \<le> 3600000000"
    "op_update oid (claim_guard (resolve_now clk now) rv)
       (claim_set tok (resolve_now clk now + d) (resolve_now clk now) rv) (interf s) = Some s'"
    "l = \<lparr>lease_operation_id = oid, lease_revision = rv + 1, lease_token = tok,
          lease_expires_at = Some (resolve_now clk now + d)\<rparr>"
  using assms
  by (auto simp: claim_def act_defs validate_lease_duration_Inr split: act_splits)

lemma renew_Inr:
  assumes "renew_lease clk oid rv tok d now s = (Inr l, s')"
  shows "op_update oid (owned_guard tok (resolve_now clk now) rv)
      (renew_set (resolve_now clk now + d) (resolve_now clk now) rv) s = Some s'"
    and "l = \<lparr>lease_operation_id = oid, lease_revision = rv + 1, lease_token = tok,
          lease_expires_at = Some (resolve_now clk now + d)\<rparr>"
    and "0 < d" "d \<le> 3600000000"
  using assms
  by (auto simp: renew_lease_def act_defs validate_lease_duration_Inr split: act_splits)

lemma renew_Inl:
  assumes "renew_lease clk oid rv tok d now s = (Inl e, s')"
  shows "s' = s"
  using assms by (auto simp: renew_lease_def act_defs split: act_splits)

lemma complete_Inr:
  assumes "complete_organized new_id clk oid rv tok sd td dirs now s = (Inr sm, s')"
  obtains r where
    "complete_tx new_id (resolve_now clk now) oid rv tok
       (case dirs of None \<Rightarrow> [sd, td] | Some ds \<Rightarrow> ds) s = (Inr (), s')"
    "get_op oid s' = Some r" "sm = summary r"
  using assms
  by (auto simp: complete_organized_def read_summary_def monad_defs split: act_splits)

lemma finish_Inr:
  assumes "finish_operation new_id clk oid rv tok st err sd td now s = (Inr sm, s')"
    and "st \<noteq> OP_ORGANIZED"
  shows "st \<in> {OP_FAILED, OP_UNCERTAIN}"
    and "op_update oid (owned_guard tok (resolve_now clk now) rv)
      (finish_set st err (resolve_now clk now) rv) s = Some s'"
    and "validate_error_code err = Inr ()"
  using assms
  by (auto simp: finish_operation_def read_summary_def act_defs split: act_splits)

lemma lease_loss_Inr:
  assumes "finish_after_lease_loss clk oid rv tok now s = (Inr sm, s')"
  shows "op_update oid (lost_guard tok rv)
      (finish_set OP_UNCERTAIN (Some ''lease_lost'') (resolve_now clk now) rv) s = Some s'"
  using assms
  by (auto simp: finish_after_lease_loss_def read_summary_def act_defs split: act_splits)

section \<open>Runs of the service\<close>

text \<open>One constructor per state-changing method, with its arguments.\<close>

datatype op_call =
    CallCreate time pystr pystr pystr "int option"
  | CallClaim time pystr pystr int int "py_datetime option"
  | CallClaimNext time pystr int "py_datetime option"
  | CallRenew time pystr int pystr int "py_datetime option"
  | CallFinish "nat \<Rightarrow> pystr" time pystr int pystr op_status "string option" "pystr option"
      "pystr option" "py_datetime option"
  | CallLeaseLoss time pystr int pystr "py_datetime option"
  | CallComplete "nat \<Rightarrow> pystr" time pystr int pystr pystr pystr "pystr list option"
      "py_datetime option"
  | CallCancel time pystr int
  | CallRetry time pystr int

fun run_call :: "op_call \<Rightarrow> store \<Rightarrow> store" where
  "run_call (CallCreate clk nid pid key expected) s =
     snd (create_operation (\<lambda>s. s) clk nid pid key expected s)"
| "run_call (CallClaim clk tok oid rv d now) s = snd (claim (\<lambda>s. s) clk tok oid rv d now s)"
| "run_call (CallClaimNext clk tok d now) s = snd (claim_next (\<lambda>s. s) (\<lambda>s. s) clk tok d now s)"
| "run_call (CallRenew clk oid rv tok d now) s = snd (renew_lease clk oid rv tok d now s)"
| "run_call (CallFinish nid clk oid rv tok st err sd td now) s =
     snd (finish_operation nid clk oid rv tok st err sd td now s)"
| "run_call (CallLeaseLoss clk oid rv tok now) s = snd (finish_after_lease_loss clk oid rv tok now s)"
| "run_call (CallComplete nid clk oid rv tok sd td dirs now) s =
     snd (complete_organized nid clk oid rv tok sd td dirs now s)"
| "run_call (CallCancel clk oid rv) s = snd (cancel_operation clk oid rv s)"
| "run_call (CallRetry clk oid rv) s = snd (retry_operation (\<lambda>s. s) clk oid rv s)"

lemma run_call_reach: "db_reach s (run_call c s)"
  using commits_create[of "\<lambda>s. s"] commits_claim[of "\<lambda>s. s"]
    commits_claim_next[of "\<lambda>s. s" "\<lambda>s. s"] commits_renew commits_finish commits_lease_loss
    commits_complete commits_cancel commits_retry[of "\<lambda>s. s"]
  by (cases c) (simp_all add: commits_only_def)

lemma run_calls_reach: "db_reach s (fold run_call cs s)"
  by (induction cs arbitrary: s) (auto intro: run_call_reach rtranclp_trans)

section \<open>Properties\<close>

text \<open>
  After any run of service calls from a well-formed store: operation, plan and
  idempotency keys are unique, every row is well formed (a lease exists exactly while
  organizing, a finish time exactly when finished, an error code only on failed or uncertain rows),
  dirty events are unique per operation and directory, and exist only for organized
  operations.
\<close>

theorem service_run_invariant: "store_ok s \<Longrightarrow> store_ok (fold run_call calls s)"
  using run_calls_reach by (rule db_reach_ok)

text \<open>
  C12. However the commits of concurrent sessions interleave, an operation's row keeps its
  identity, its revision only grows with each change, its status follows the diagram, and
  an organized, uncertain or cancelled operation never changes again: in particular an
  uncertain outcome is never retried.
\<close>

theorem operation_history:
  assumes "db_reach s s'" and "store_ok s" and "get_op oid s = Some r"
  shows "\<exists>r'. get_op oid s' = Some r' \<and> same_identity r r'
    \<and> op_transition\<^sup>*\<^sup>* (op_status r) (op_status r')
    \<and> (r' = r \<or> op_revision r < op_revision r')
    \<and> (op_status r \<in> {OP_ORGANIZED, OP_UNCERTAIN, OP_CANCELLED} \<longrightarrow> r' = r)"
proof -
  have inv: "op_invariant (ops s)" "op_invariant (ops s')"
    using assms(2) db_reach_ok[OF assms(1,2)] by (simp_all add: store_ok_def)
  have r: "r \<in> set (ops s)" "op_id r = oid" using assms(3) by (simp_all add: get_op_iff[OF inv(1)])
  obtain r' where r': "get_op oid s' = Some r'" "same_identity r r'"
    "op_transition\<^sup>*\<^sup>* (op_status r) (op_status r')" "r' = r \<or> op_revision r < op_revision r'"
    using reach_get_op[OF assms] by blast
  have "r' = r" if "op_status r \<in> {OP_ORGANIZED, OP_UNCERTAIN, OP_CANCELLED}"
  proof -
    have "get_op oid s' = Some r"
      using settled_reach[OF assms(1) r(1) that] r(2) by (simp add: get_op_iff[OF inv(2)])
    with r'(1) show ?thesis by simp
  qed
  with r' show ?thesis by blast
qed

text \<open>The row a successful claim wrote, whatever committed between its reads and its write.\<close>

lemma claim_row:
  assumes c: "claim interf clk tok oid rv d now s = (Inr l, s')"
    and i: "\<And>s. db_reach s (interf s)" and ok: "store_ok s"
  obtains r where "get_op oid s = Some r" "op_revision r = rv"
    "claim_guard (resolve_now clk now) rv r"
    "get_op oid s' = Some (claim_set tok (resolve_now clk now + d) (resolve_now clk now) rv r)"
    "store_ok s'"
proof -
  from claim_Inr[OF c] obtain r where r: "get_op oid s = Some r" "op_revision r = rv"
    and w: "op_update oid (claim_guard (resolve_now clk now) rv)
       (claim_set tok (resolve_now clk now + d) (resolve_now clk now) rv) (interf s) = Some s'"
    by metis
  have ok': "store_ok (interf s)" using i ok by (rule db_reach_ok)
  then have u: "unique_ops (ops (interf s))" by (simp add: store_ok_def op_invariant_def)
  obtain q where q: "get_op oid (interf s) = Some q" "claim_guard (resolve_now clk now) rv q"
    "op_revision q = rv"
    "get_op oid s' = Some (claim_set tok (resolve_now clk now + d) (resolve_now clk now) rv q)"
    by (rule claim_cas.write_row[OF w u])
  obtain q' where "get_op oid (interf s) = Some q'" "q' = r \<or> op_revision r < op_revision q'"
    using reach_get_op[OF i[of s] ok r(1)] by metis
  with q r have "q = r" by auto
  moreover have "store_ok s'" using dw_claim[OF w] ok' by (rule db_write_ok)
  ultimately show thesis using that r q by blast
qed

text \<open>
  A claim that returns a lease did so for an operation whose plan is planned,
  current, unexpired and at the revision the operation was created from; the operation
  was planned or its lease had expired; its row is now organizing with one more attempt and a lease of at most
  an hour under the returned token and revision.
\<close>

theorem claim_sound:
  assumes "claim interf clk tok oid rv d now s = (Inr l, s')"
    and "\<And>s. db_reach s (interf s)" and "store_ok s"
  shows "\<exists>r p r'. get_op oid s = Some r \<and> get_plan (op_plan_id r) s = Some p
    \<and> plan_status p = PLAN_PLANNED \<and> plan_is_current clk s p
    \<and> plan_revision p = op_plan_revision r
    \<and> (op_status r = OP_PLANNED
        \<or> (op_status r = OP_ORGANIZING \<and> lease_expired (resolve_now clk now) r))
    \<and> get_op oid s' = Some r' \<and> op_status r' = OP_ORGANIZING
    \<and> op_attempts r' = op_attempts r + 1
    \<and> op_revision r' = rv + 1 \<and> lease_revision l = rv + 1
    \<and> op_lease_token r' = Some (lease_token l)
    \<and> op_lease_expires_at r' = lease_expires_at l
    \<and> lease_expires_at l = Some (resolve_now clk now + d)
    \<and> 0 < d \<and> d \<le> 3600000000"
proof -
  obtain r where r: "get_op oid s = Some r" "claim_guard (resolve_now clk now) rv r"
    "get_op oid s' = Some (claim_set tok (resolve_now clk now + d) (resolve_now clk now) rv r)"
    using claim_row[OF assms] by metis
  obtain r2 p where p: "get_op oid s = Some r2" "get_plan (op_plan_id r2) s = Some p"
    "plan_status p = PLAN_PLANNED" "plan_is_current clk s p" "plan_revision p = op_plan_revision r2"
    "0 < d" "d \<le> 3600000000"
    "l = \<lparr>lease_operation_id = oid, lease_revision = rv + 1, lease_token = tok,
          lease_expires_at = Some (resolve_now clk now + d)\<rparr>"
    using claim_Inr[OF assms(1)] by metis
  from r p show ?thesis by (auto simp: claim_guard_def claim_set_def)
qed

text \<open>
  While an operation is organizing under a lease that has not expired, every claim of
  it raises, whatever revision it expects, and leaves the operation table as it was.
\<close>

theorem claim_respects_live_lease:
  assumes "get_op oid s = Some r" and "op_status r = OP_ORGANIZING"
    and "lease_live (resolve_now clk now) r"
  shows "\<exists>e s'. claim interf clk tok oid rv d now s = (Inl e, s') \<and> ops s' = ops s"
  using assms
  by (auto simp: claim_def act_defs invalidate_plan_def split: act_splits)

text \<open>
  C13. Two workers that read the same operation cannot both claim it: if the first
  worker's commit lands between the second one's reads and its write, the second raises
  \<open>lease_claim_lost\<close> and changes nothing.
\<close>

theorem claim_race:
  assumes first: "claim (\<lambda>s. s) clk tok oid rv d now s = (Inr l, s1)" and ok: "store_ok s"
    and second: "claim (\<lambda>_. s1) clk' tok' oid rv d' now' s = (res, s2)"
  shows "\<exists>e. res = Inl e \<and> ops s2 \<in> {ops s, ops s1}"
proof (cases res)
  case (Inr l')
  from claim_Inr[OF second[unfolded Inr]] obtain g f where
    w2: "op_update oid (claim_guard (resolve_now clk' now') rv) f s1 = Some g" by metis
  from claim_Inr[OF first] have w1: "op_update oid (claim_guard (resolve_now clk now) rv)
     (claim_set tok (resolve_now clk now + d) (resolve_now clk now) rv) s = Some s1" by metis
  have "op_update oid (claim_guard (resolve_now clk' now') rv) f s1 = None"
    using ok by (intro claim_cas.write_excludes[OF w1])
      (auto simp: store_ok_def op_invariant_def claim_guard_def)
  with w2 show ?thesis by simp
next
  case (Inl e)
  with second show ?thesis
    by (auto simp: claim_def act_defs invalidate_plan_def split: act_splits)
qed

text \<open>
  A lease is accepted by a store when some call that presents it, at whatever time and
  with whatever other arguments, succeeds there.
\<close>

definition lease_accepted :: "op_lease \<Rightarrow> store \<Rightarrow> bool" where
  "lease_accepted l s \<longleftrightarrow>
     (\<exists>clk d now. succeeds ((renew_lease clk (lease_operation_id l) (lease_revision l)
                        (lease_token l) d now s)))
     \<or> (\<exists>nid clk st err sd td now. succeeds ((finish_operation nid clk (lease_operation_id l)
                        (lease_revision l) (lease_token l) st err sd td now s)))
     \<or> (\<exists>nid clk sd td dirs now. succeeds ((complete_organized nid clk (lease_operation_id l)
                        (lease_revision l) (lease_token l) sd td dirs now s)))
     \<or> (\<exists>clk now. succeeds ((finish_after_lease_loss clk (lease_operation_id l)
                        (lease_revision l) (lease_token l) now s)))"

lemma succeeds_cases: "succeeds p \<Longrightarrow> \<exists>x s. p = (Inr x, s)"
  by (cases p; cases "fst p") (auto simp: succeeds_def)

lemma owned_row:
  assumes "op_update oid q f s = Some s'" and "unique_ops (ops s)"
    and "\<And>r. q r \<Longrightarrow> op_revision r = rv \<and> op_lease_token r = Some tok"
  shows "\<exists>r. get_op oid s = Some r \<and> op_revision r = rv \<and> op_lease_token r = Some tok"
proof -
  have "distinct (map op_id (ops s))" using assms(2) by (simp add: unique_ops_def)
  from row_count_key_one[OF this op_update_Some(2)[OF assms(1)]] assms(3) show ?thesis
    by (metis get_op_def)
qed

lemma complete_tx_owned:
  assumes "complete_tx nid t oid rv tok dirs s = (Inr (), s')" and "unique_ops (ops s)"
  shows "\<exists>r. get_op oid s = Some r \<and> op_revision r = rv \<and> op_lease_token r = Some tok"
  using complete_tx_Inr[OF assms(1)] owned_row[OF _ assms(2)] by (metis owned_guard_def)

lemma complete_owned:
  assumes "complete_organized nid clk oid rv tok sd td dirs now s = (Inr sm, s')"
    and "unique_ops (ops s)"
  shows "\<exists>r. get_op oid s = Some r \<and> op_revision r = rv \<and> op_lease_token r = Some tok"
  using complete_Inr[OF assms(1)] complete_tx_owned[OF _ assms(2)] by metis

lemma finish_owned:
  assumes f: "finish_operation nid clk oid rv tok st err sd td now s = (Inr sm, s')"
    and u: "unique_ops (ops s)"
  shows "\<exists>r. get_op oid s = Some r \<and> op_revision r = rv \<and> op_lease_token r = Some tok"
proof (cases "st = OP_ORGANIZED")
  case True
  with f obtain sd' td'
    where "complete_organized nid clk oid rv tok sd' td' None now s = (Inr sm, s')"
    by (auto simp: finish_operation_def sraise_def split: option.splits)
  then show ?thesis using u by (rule complete_owned)
next
  case False
  from finish_Inr(2)[OF f False] show ?thesis
    by (rule owned_row[OF _ u]) (simp add: owned_guard_def)
qed

lemma renew_owned:
  assumes "renew_lease clk oid rv tok d now s = (Inr l', s')" and "unique_ops (ops s)"
  shows "\<exists>r. get_op oid s = Some r \<and> op_revision r = rv \<and> op_lease_token r = Some tok"
  by (rule owned_row[OF renew_Inr(1)[OF assms(1)] assms(2)]) (simp add: owned_guard_def)

lemma lease_loss_owned:
  assumes "finish_after_lease_loss clk oid rv tok now s = (Inr sm, s')" and "unique_ops (ops s)"
  shows "\<exists>r. get_op oid s = Some r \<and> op_revision r = rv \<and> op_lease_token r = Some tok"
  by (rule owned_row[OF lease_loss_Inr[OF assms(1)] assms(2)]) (simp add: lost_guard_def)

lemma accepted_row:
  assumes "lease_accepted l s" and u: "unique_ops (ops s)"
  shows "\<exists>r. get_op (lease_operation_id l) s = Some r \<and> op_revision r = lease_revision l
    \<and> op_lease_token r = Some (lease_token l)"
  using assms(1) unfolding lease_accepted_def
  by (elim disjE exE)
     (drule succeeds_cases, elim exE,
       erule renew_owned[OF _ u] finish_owned[OF _ u] complete_owned[OF _ u] lease_loss_owned[OF _ u])+

text \<open>
  C5. Fencing: if any call that presents a lease is accepted after arbitrary further
  commits, the operation's row is still exactly the one the claim wrote.  A lease that
  another worker took over, renewed or finished is refused by every method.
\<close>

theorem lease_fencing:
  assumes "claim interf clk tok oid rv d now s = (Inr l, s1)"
    and "\<And>s. db_reach s (interf s)" and "store_ok s"
    and "db_reach s1 s2" and "lease_accepted l s2"
  shows "get_op oid s2 = get_op oid s1"
proof -
  have l: "lease_operation_id l = oid" "lease_revision l = rv + 1"
    by (rule claim_Inr[OF assms(1)], simp)+
  obtain r where r1: "get_op oid s1 = Some r" "op_revision r = rv + 1" and ok: "store_ok s1"
  proof -
    obtain r0 where "get_op oid s1
        = Some (claim_set tok (resolve_now clk now + d) (resolve_now clk now) rv r0)" "store_ok s1"
      using claim_row[OF assms(1-3)] by metis
    then show thesis using that by (simp add: claim_set_def)
  qed
  obtain r2 where r2: "get_op oid s2 = Some r2" "r2 = r \<or> op_revision r < op_revision r2"
    using reach_get_op[OF assms(4) ok r1(1)] by metis
  have "unique_ops (ops s2)"
    using db_reach_ok[OF assms(4) ok] by (simp add: store_ok_def op_invariant_def)
  from accepted_row[OF assms(5) this] l r2 r1 show ?thesis by auto
qed

lemma create_Inr:
  assumes "create_operation interf clk nid pid key expected s = (Inr sm, s')"
  shows "(\<exists>ex. row_of op_idempotency_key key (ops s) = Some ex \<and> op_plan_id ex = pid
            \<and> sm = summary ex \<and> s' = s)
    \<or> (row_of op_idempotency_key key (ops s) = None
        \<and> row_of op_plan_id pid (ops s) = None
        \<and> (\<exists>p. get_plan pid s = Some p \<and> plan_is_current clk s p
            \<and> insert_or_existing (new_operation clk nid p key) (interf s) = (Inr sm, s')))"
  using assms
  by (auto simp: create_operation_def act_defs split: act_splits)

lemma insert_or_existing_Inr:
  assumes "insert_or_existing r s = (Inr sm, s')"
  shows "\<exists>ex \<in> set (ops s'). op_idempotency_key ex = op_idempotency_key r
    \<and> op_plan_id ex = op_plan_id r \<and> sm = summary ex"
  using assms
  by (auto simp: insert_or_existing_def insert_op_def split: act_splits dest: row_of_Some)

lemma create_row:
  assumes "create_operation interf clk nid pid key expected s = (Inr sm, s')"
  shows "\<exists>ex \<in> set (ops s'). op_idempotency_key ex = key \<and> op_plan_id ex = pid \<and> sm = summary ex"
  using create_Inr[OF assms]
proof (elim disjE conjE exE)
  fix ex assume "row_of op_idempotency_key key (ops s) = Some ex" "op_plan_id ex = pid"
    "sm = summary ex" "s' = s"
  then show ?thesis by (auto dest: row_of_Some)
next
  fix p assume "get_plan pid s = Some p"
    and ins: "insert_or_existing (new_operation clk nid p key) (interf s) = (Inr sm, s')"
  then have "plan_id p = pid" by (auto simp: get_plan_def dest: row_of_Some)
  with insert_or_existing_Inr[OF ins] show ?thesis by (simp add: new_operation_def)
qed

text \<open>
  Creating an operation is idempotent in its key: once a call has returned a summary,
  a later call with the same plan and key, after any further commits, returns the same
  operation and adds no row.
\<close>

theorem create_idempotent:
  assumes first: "create_operation interf clk nid pid key expected s = (Inr sm, s1)"
    and ok: "store_ok s1" and reach: "db_reach s1 s2"
    and again: "create_operation interf' clk' nid' pid key expected' s2 = (Inr sm', s3)"
  shows "sm_operation_id sm' = sm_operation_id sm \<and> ops s3 = ops s2"
proof -
  obtain ex where ex: "ex \<in> set (ops s1)" "op_idempotency_key ex = key" "sm = summary ex"
    using create_row[OF first] by blast
  obtain ex' where ex': "ex' \<in> set (ops s2)" "same_identity ex ex'"
    using db_reach_history[OF reach ex(1)] by blast
  have "distinct (map op_idempotency_key (ops s2))"
    using db_reach_ok[OF reach ok] by (simp add: store_ok_def op_invariant_def unique_ops_def)
  then have "row_of op_idempotency_key key (ops s2) = Some ex'"
    using row_of_unique[of op_idempotency_key "ops s2" ex'] ex ex' by (simp add: same_identity_def)
  with create_Inr[OF again] have "sm' = summary ex' \<and> s3 = s2" by auto
  with ex ex' show ?thesis by (simp add: summary_def same_identity_def)
qed

lemma complete_tx_effect:
  assumes c: "complete_tx nid t oid rv tok dirs s = (Inr (), s')" and ok: "store_ok s"
  shows "(\<exists>r. get_op oid s' = Some r \<and> op_status r = OP_ORGANIZED)"
    and "set (events s) \<subseteq> set (events s')"
    and "d \<in> set dirs \<Longrightarrow> \<exists>!e. e \<in> set (events s')
      \<and> event_key e = (oid, d, directory_dirty_kind)"
    and "store_ok s'"
proof -
  obtain s1 rows where
    w: "op_update oid (owned_guard tok t rv) (finish_set OP_ORGANIZED None t rv) s = Some s1"
    and rows: "enqueue_directory_dirty nid oid dirs (events s1) = Inr rows"
    and ins: "insert_events rows s1 = Some s'" using c by (rule complete_tx_Inr)
  have ev: "events s1 = events s" by (rule op_update_frame[OF w])
  have "unique_ops (ops s)" using ok by (simp add: store_ok_def op_invariant_def)
  from organized_cas.write_row[OF w this]
  obtain r where "get_op oid s1 = Some (finish_set OP_ORGANIZED None t rv r)" by metis
  then show "\<exists>r. get_op oid s' = Some r \<and> op_status r = OP_ORGANIZED"
    by (auto simp: get_op_def insert_events_frame[OF ins] finish_set_def)
  show "set (events s) \<subseteq> set (events s')" by (simp add: insert_events_frame[OF ins] ev)
  show ok': "store_ok s'" using dw_complete[OF c] ok by (rule db_write_ok)
  show "\<exists>!e. e \<in> set (events s') \<and> event_key e = (oid, d, directory_dirty_kind)"
    if d: "d \<in> set dirs"
  proof -
    have "(oid, d, directory_dirty_kind) \<in> set (map event_key (events s'))"
    proof (cases "d \<in> set (existing_directories oid (events s1))")
      case True
      then show ?thesis
        by (simp add: existing_directories_iff insert_events_frame[OF ins])
    next
      case False
      with d have "d \<in> set (map ev_directory_id rows)"
        unfolding enqueue_Inr(1)[OF rows] by simp
      then obtain e where "e \<in> set rows" "ev_directory_id e = d" by auto
      then have "event_key e = (oid, d, directory_dirty_kind)"
        using enqueue_Inr(3)[OF rows] by (simp add: event_key_def)
      with \<open>e \<in> set rows\<close> show ?thesis by (force simp: insert_events_frame[OF ins])
    qed
    then obtain e where e: "e \<in> set (events s')" "event_key e = (oid, d, directory_dirty_kind)"
      by auto
    have inj: "inj_on event_key (set (events s'))"
      using ok' by (simp add: store_ok_def unique_events_def distinct_map)
    show ?thesis
    proof (rule ex1I[of _ e])
      show "e \<in> set (events s') \<and> event_key e = (oid, d, directory_dirty_kind)" using e by simp
      fix e' assume "e' \<in> set (events s') \<and> event_key e' = (oid, d, directory_dirty_kind)"
      with e show "e' = e" by (intro inj_onD[OF inj]) simp_all
    qed
  qed
qed

lemma complete_effect:
  assumes "store_ok s"
    and "complete_organized nid clk oid rv tok sd td dirs now s = (Inr sm, s')"
  shows "sm_status sm = OP_ORGANIZED"
    and "\<exists>r. get_op oid s' = Some r \<and> sm = summary r"
    and "set (events s) \<subseteq> set (events s')"
    and "\<forall>d \<in> set (case dirs of None \<Rightarrow> [sd, td] | Some ds \<Rightarrow> ds).
           \<exists>!e. e \<in> set (events s') \<and> event_key e = (oid, d, directory_dirty_kind)"
proof -
  obtain r where r: "complete_tx nid (resolve_now clk now) oid rv tok
       (case dirs of None \<Rightarrow> [sd, td] | Some ds \<Rightarrow> ds) s = (Inr (), s')"
    "get_op oid s' = Some r" "sm = summary r"
    using complete_Inr[OF assms(2)] by metis
  note e = complete_tx_effect[OF r(1) assms(1)]
  show "sm_status sm = OP_ORGANIZED" "set (events s) \<subseteq> set (events s')"
    and "\<exists>r. get_op oid s' = Some r \<and> sm = summary r"
    and "\<forall>d \<in> set (case dirs of None \<Rightarrow> [sd, td] | Some ds \<Rightarrow> ds).
           \<exists>!e. e \<in> set (events s') \<and> event_key e = (oid, d, directory_dirty_kind)"
    using e r(2,3) by (auto simp: summary_def)
qed

text \<open>
  Completion is atomic: it either raises and leaves the store untouched, or the
  operation is organized and every directory passed in has exactly one pending dirty
  event of this operation, the earlier events being kept.
\<close>

theorem complete_atomic:
  assumes "store_ok s"
    and "complete_organized nid clk oid rv tok sd td dirs now s = (res, s')"
  shows "case res of
      Inl e \<Rightarrow> s' = s
    | Inr sm \<Rightarrow> sm_status sm = OP_ORGANIZED
        \<and> (\<exists>r. get_op oid s' = Some r \<and> sm = summary r)
        \<and> set (events s) \<subseteq> set (events s')
        \<and> (\<forall>d \<in> set (case dirs of None \<Rightarrow> [sd, td] | Some ds \<Rightarrow> ds).
             \<exists>!e. e \<in> set (events s') \<and> event_key e = (oid, d, directory_dirty_kind))"
proof (cases res)
  case (Inr sm)
  with complete_effect[OF assms(1) assms(2)[unfolded Inr]] show ?thesis by simp
next
  case (Inl e)
  have present: "get_op oid s1 \<noteq> None" if "complete_tx nid t oid rv tok ds s = (Inr (), s1)"
    for t ds s1
    using complete_tx_effect(1)[OF that assms(1)] by auto
  have kept: "s1 = s" if "complete_tx nid t oid rv tok ds s = (Inl x, s1)" for t ds x s1
    using that by (auto simp: complete_tx_def split: act_splits)
  show ?thesis
    using assms(2) unfolding Inl
    by (auto simp: complete_organized_def read_summary_def monad_defs split: act_splits
        dest: present kept)
qed

lemma oldest_planned_Some:
  assumes "oldest_planned s = Some r"
  shows "r \<in> set (ops s)" "op_status r = OP_PLANNED"
    "\<forall>q \<in> set (ops s). op_status q = OP_PLANNED
      \<longrightarrow> (op_created_at r, op_id r) \<le> (op_created_at q, op_id q)"
proof -
  let ?k = "\<lambda>r. (op_created_at r, op_id r)"
  let ?sorted = "sort_key ?k (filter (\<lambda>r. op_status r = OP_PLANNED) (ops s))"
  from assms obtain rest where hd: "?sorted = r # rest"
    by (auto simp: oldest_planned_def split: list.splits)
  have "set ?sorted = {r \<in> set (ops s). op_status r = OP_PLANNED}" by simp
  with hd have mem: "{q \<in> set (ops s). op_status q = OP_PLANNED} = insert r (set rest)" by simp
  then show "r \<in> set (ops s)" "op_status r = OP_PLANNED" by blast+
  have "sorted (map ?k (r # rest))" using sorted_sort_key[of ?k] unfolding hd[symmetric] .
  then show "\<forall>q \<in> set (ops s). op_status q = OP_PLANNED \<longrightarrow> ?k r \<le> ?k q"
    using mem by auto
qed

text \<open>
  \<open>claim_next\<close> serves the oldest approved operation: what it claims was planned, and no
  planned operation was created before it (ties are broken by identifier).
\<close>

theorem claim_next_oldest:
  assumes "claim_next i1 i2 clk tok d now s = (Inr (Some l), s')"
  shows "\<exists>r \<in> set (ops s). op_id r = lease_operation_id l \<and> op_status r = OP_PLANNED
    \<and> (\<forall>q \<in> set (ops s). op_status q = OP_PLANNED
         \<longrightarrow> (op_created_at r, op_id r) \<le> (op_created_at q, op_id q))"
proof -
  obtain r where r: "oldest_planned s = Some r"
    using assms by (auto simp: claim_next_def monad_defs split: act_splits)
  have "lease_operation_id l = op_id r"
    using assms r
    by (auto simp: claim_next_def monad_defs interleave_def split: act_splits op_error.splits
        elim: claim_Inr)
  then show ?thesis using oldest_planned_Some[OF r] by (intro bexI[of _ r]) auto
qed

end
