(* ===== verification/Step_Checks.thy ===== *)
theory Step_Checks
  imports Prelude
begin

text \<open>
  \<^verbatim>\<open>services/organization_execution_contract.py\<close>: the pure pre- and postcondition checks
  that decide whether one remote object is safe to touch, already at its planned target,
  in conflict, or too ambiguous to act on.  The lemmas characterise each verdict.
\<close>

datatype step_check = CHECK_READY | CHECK_ALREADY_APPLIED | CHECK_CONFLICT | CHECK_UNCERTAIN

record remote_state =
  rs_object_id :: pystr
  rs_parent_id :: pystr
  rs_name :: pystr

record step_expectation =
  ex_object_id :: pystr
  ex_source_parent_id :: pystr
  ex_source_name :: pystr
  ex_target_parent_id :: pystr
  ex_target_name :: pystr

record check_result =
  cr_status :: step_check
  cr_error_code :: "string option"

text \<open>The constructors' \<open>__post_init__\<close>: \<open>None\<close> is the \<open>ValueError\<close>.\<close>

definition make_remote_state :: "pystr \<Rightarrow> pystr \<Rightarrow> pystr \<Rightarrow> remote_state option" where
  "make_remote_state object_id parent_id name =
     (if object_id = [] \<or> parent_id = [] \<or> name = [] then None
      else Some \<lparr>rs_object_id = object_id, rs_parent_id = parent_id, rs_name = name\<rparr>)"

definition make_step_expectation ::
  "pystr \<Rightarrow> pystr \<Rightarrow> pystr \<Rightarrow> pystr \<Rightarrow> pystr \<Rightarrow> step_expectation option" where
  "make_step_expectation object_id source_parent source_name target_parent target_name =
     (if object_id = [] \<or> source_parent = [] \<or> source_name = []
         \<or> target_parent = [] \<or> target_name = [] then None
      else Some \<lparr>ex_object_id = object_id, ex_source_parent_id = source_parent,
                 ex_source_name = source_name, ex_target_parent_id = target_parent,
                 ex_target_name = target_name\<rparr>)"

definition matches_source :: "step_expectation \<Rightarrow> remote_state option \<Rightarrow> bool" where
  "matches_source ex observed =
     (case observed of
        None \<Rightarrow> False
      | Some rs \<Rightarrow> rs_object_id rs = ex_object_id ex
                 \<and> rs_parent_id rs = ex_source_parent_id ex
                 \<and> rs_name rs = ex_source_name ex)"

definition matches_target :: "step_expectation \<Rightarrow> remote_state option \<Rightarrow> bool" where
  "matches_target ex observed =
     (case observed of
        None \<Rightarrow> False
      | Some rs \<Rightarrow> rs_object_id rs = ex_object_id ex
                 \<and> rs_parent_id rs = ex_target_parent_id ex
                 \<and> rs_name rs = ex_target_name ex)"

definition verdict :: "step_check \<Rightarrow> check_result" where
  "verdict st = \<lparr>cr_status = st, cr_error_code = None\<rparr>"

definition verdict_code :: "step_check \<Rightarrow> string \<Rightarrow> check_result" where
  "verdict_code st code = \<lparr>cr_status = st, cr_error_code = Some code\<rparr>"

definition check_before_write ::
  "step_expectation \<Rightarrow> remote_state option \<Rightarrow> remote_state option \<Rightarrow> check_result" where
  "check_before_write ex source target =
     (if matches_target ex source then verdict CHECK_ALREADY_APPLIED
      else if source = None then verdict_code CHECK_UNCERTAIN ''source_not_observed''
      else if \<not> matches_source ex source
        then verdict_code CHECK_CONFLICT ''source_precondition_changed''
      else if target \<noteq> None then verdict_code CHECK_CONFLICT ''target_already_exists''
      else verdict CHECK_READY)"

definition check_after_write ::
  "step_expectation \<Rightarrow> remote_state option \<Rightarrow> check_result" where
  "check_after_write ex observed =
     (if matches_target ex observed then verdict CHECK_ALREADY_APPLIED
      else if observed = None then verdict_code CHECK_UNCERTAIN ''postcondition_not_observed''
      else verdict_code CHECK_CONFLICT ''postcondition_mismatch'')"

definition check_after_timeout ::
  "step_expectation \<Rightarrow> remote_state option \<Rightarrow> check_result" where
  "check_after_timeout ex observed =
     (let result = check_after_write ex observed
      in if cr_status result = CHECK_ALREADY_APPLIED then result
         else verdict_code CHECK_UNCERTAIN ''timeout'')"

lemma verdict_simps [simp]:
  "cr_status (verdict st) = st" "cr_error_code (verdict st) = None"
  "cr_status (verdict_code st code) = st" "cr_error_code (verdict_code st code) = Some code"
  by (simp_all add: verdict_def verdict_code_def)

lemma matches_None [simp]: "\<not> matches_source ex None" "\<not> matches_target ex None"
  by (simp_all add: matches_source_def matches_target_def)

section \<open>What each verdict means\<close>

lemma before_ready_iff:
  "cr_status (check_before_write ex source target) = CHECK_READY
    \<longleftrightarrow> matches_source ex source \<and> \<not> matches_target ex source \<and> target = None"
  by (cases source) (auto simp: check_before_write_def)

lemma before_applied_iff:
  "cr_status (check_before_write ex source target) = CHECK_ALREADY_APPLIED
    \<longleftrightarrow> matches_target ex source"
  by (cases source) (auto simp: check_before_write_def)

lemma before_uncertain_iff:
  "cr_status (check_before_write ex source target) = CHECK_UNCERTAIN \<longleftrightarrow> source = None"
  by (cases source) (auto simp: check_before_write_def)

lemma before_conflict_iff:
  "cr_status (check_before_write ex source target) = CHECK_CONFLICT
    \<longleftrightarrow> source \<noteq> None \<and> \<not> matches_target ex source
      \<and> (\<not> matches_source ex source \<or> target \<noteq> None)"
  by (cases source) (auto simp: check_before_write_def)

lemma after_applied_iff:
  "cr_status (check_after_write ex observed) = CHECK_ALREADY_APPLIED \<longleftrightarrow> matches_target ex observed"
  by (cases observed) (auto simp: check_after_write_def)

lemma after_never_ready: "cr_status (check_after_write ex observed) \<noteq> CHECK_READY"
  by (auto simp: check_after_write_def)

lemma timeout_applied_iff:
  "cr_status (check_after_timeout ex observed) = CHECK_ALREADY_APPLIED
    \<longleftrightarrow> matches_target ex observed"
  by (auto simp: check_after_timeout_def after_applied_iff Let_def)

lemma timeout_status:
  "cr_status (check_after_timeout ex observed)
    = (if matches_target ex observed then CHECK_ALREADY_APPLIED else CHECK_UNCERTAIN)"
  by (auto simp: check_after_timeout_def after_applied_iff Let_def)

lemmas check_iffs =
  before_ready_iff before_applied_iff before_uncertain_iff before_conflict_iff
  after_applied_iff timeout_applied_iff

end
