(* ===== verification/Write_Contract.thy ===== *)
theory Write_Contract
  imports Prelude "HOL-Library.Char_ord" "HOL-Library.List_Lexorder"
begin

text \<open>
  \<^verbatim>\<open>adapters/p115_library_write_contract.py\<close>: the write payloads, the write gates and
  the offline gateway.  Lemmas: the gate is closed by default and opens for exactly one
  combination, payload identifiers are decimal numbers, a quarantine and its restore are
  the same two writes on one object, and the gateway records a call only behind an open gate.
\<close>

datatype write_operation =
    WRITE_MKDIR | WRITE_MOVE | WRITE_RENAME | WRITE_QUARANTINE | WRITE_RESTORE
  | WRITE_RECYCLE | WRITE_DELETE

datatype write_status = WRITE_SUCCESS | WRITE_FAILED | WRITE_UNCERTAIN

datatype postcondition_status = POST_SATISFIED | POST_NOT_SATISFIED | POST_UNVERIFIED

record write_result =
  wr_operation :: write_operation
  wr_status :: write_status
  wr_error_code :: "string option"
  wr_postcondition_required :: bool

section \<open>Gates\<close>

record write_gate =
  wg_write_enabled :: bool
  wg_user_approved :: bool
  wg_disposable_fixture :: bool
  wg_cleanup_plan :: bool
  wg_permanent_delete_enabled :: bool

definition default_write_gate :: write_gate where
  "default_write_gate =
     \<lparr>wg_write_enabled = False, wg_user_approved = False, wg_disposable_fixture = False,
      wg_cleanup_plan = False, wg_permanent_delete_enabled = False\<rparr>"

record gate_decision =
  gd_allowed :: bool
  gd_error_code :: "string option"

definition deny :: "string \<Rightarrow> gate_decision" where
  "deny code = \<lparr>gd_allowed = False, gd_error_code = Some code\<rparr>"

definition evaluate_write_gate :: "write_gate \<Rightarrow> write_operation \<Rightarrow> gate_decision" where
  "evaluate_write_gate g op =
     (if \<not> wg_write_enabled g then deny ''write_disabled''
      else if \<not> wg_user_approved g then deny ''approval_required''
      else if \<not> wg_disposable_fixture g then deny ''fixture_scope_required''
      else if \<not> wg_cleanup_plan g then deny ''cleanup_plan_required''
      else if op = WRITE_DELETE \<and> \<not> wg_permanent_delete_enabled g
        then deny ''permanent_delete_disabled''
      else \<lparr>gd_allowed = True, gd_error_code = None\<rparr>)"

lemma gate_allowed_iff:
  "gd_allowed (evaluate_write_gate g op) \<longleftrightarrow>
     wg_write_enabled g \<and> wg_user_approved g \<and> wg_disposable_fixture g \<and> wg_cleanup_plan g
     \<and> (op = WRITE_DELETE \<longrightarrow> wg_permanent_delete_enabled g)"
  by (auto simp: evaluate_write_gate_def deny_def)

lemma gate_code: "gd_error_code (evaluate_write_gate g op) = None \<longleftrightarrow> gd_allowed (evaluate_write_gate g op)"
  by (auto simp: evaluate_write_gate_def deny_def)

section \<open>Payloads\<close>

text \<open>Arguments of type \<open>Any\<close>: the cases \<open>_id\<close> tells apart.\<close>

datatype py_any = AnyBool bool | AnyInt int | AnyStr pystr | AnyOther

datatype payload_error = TypeErr string | PayloadValueErr string

fun decimal :: "nat \<Rightarrow> pystr" where
  "decimal n = (if n < 10 then [48 + n] else decimal (n div 10) @ [48 + n mod 10])"

declare decimal.simps [simp del]

definition ascii_digit :: "nat \<Rightarrow> bool" where
  "ascii_digit c = (48 \<le> c \<and> c \<le> 57)"

fun payload_id :: "py_any \<Rightarrow> payload_error + pystr" where
  "payload_id (AnyBool _) = Inl (TypeErr ''invalid_id'')"
| "payload_id (AnyInt n) =
     (if n < 0 then Inl (PayloadValueErr ''invalid_id'') else Inr (decimal (nat n)))"
| "payload_id (AnyStr s) =
     (if s \<noteq> [] \<and> list_all ascii_digit s then Inr s else Inl (TypeErr ''invalid_id''))"
| "payload_id AnyOther = Inl (TypeErr ''invalid_id'')"

fun payload_name :: "py_any \<Rightarrow> payload_error + pystr" where
  "payload_name (AnyStr s) =
     (if s = [] \<or> length s > 255 \<or> 0 \<in> set s \<or> 47 \<in> set s \<or> 92 \<in> set s
      then Inl (PayloadValueErr ''invalid_name'') else Inr s)"
| "payload_name _ = Inl (PayloadValueErr ''invalid_name'')"

record prepared_write =
  pw_operation :: write_operation
  pw_payload :: "(string \<times> pystr) list"

record write_plan =
  wp_operation :: write_operation
  wp_steps :: "prepared_write list"

definition rbind :: "('e + 'a) \<Rightarrow> ('a \<Rightarrow> 'e + 'b) \<Rightarrow> 'e + 'b" where
  "rbind r k = (case r of Inl e \<Rightarrow> Inl e | Inr x \<Rightarrow> k x)"

definition prepare_mkdir :: "py_any \<Rightarrow> py_any \<Rightarrow> payload_error + prepared_write" where
  "prepare_mkdir parent name =
     rbind (payload_id parent) (\<lambda>pid. rbind (payload_name name) (\<lambda>nm.
       Inr \<lparr>pw_operation = WRITE_MKDIR, pw_payload = [(''pid'', pid), (''file_name'', nm)]\<rparr>))"

definition prepare_move :: "py_any \<Rightarrow> py_any \<Rightarrow> payload_error + prepared_write" where
  "prepare_move file target =
     rbind (payload_id file) (\<lambda>fid. rbind (payload_id target) (\<lambda>cid.
       Inr \<lparr>pw_operation = WRITE_MOVE, pw_payload = [(''file_ids'', fid), (''to_cid'', cid)]\<rparr>))"

definition prepare_rename :: "py_any \<Rightarrow> py_any \<Rightarrow> payload_error + prepared_write" where
  "prepare_rename file name =
     rbind (payload_id file) (\<lambda>fid. rbind (payload_name name) (\<lambda>nm.
       Inr \<lparr>pw_operation = WRITE_RENAME, pw_payload = [(''file_id'', fid), (''file_name'', nm)]\<rparr>))"

definition prepare_recycle :: "py_any \<Rightarrow> payload_error + prepared_write" where
  "prepare_recycle file =
     rbind (payload_id file) (\<lambda>fid.
       Inr \<lparr>pw_operation = WRITE_RECYCLE, pw_payload = [(''file_id'', fid)]\<rparr>)"

definition prepare_delete :: "py_any \<Rightarrow> payload_error + prepared_write" where
  "prepare_delete file =
     rbind (payload_id file) (\<lambda>fid.
       Inr \<lparr>pw_operation = WRITE_DELETE, pw_payload = [(''file_id'', fid)]\<rparr>)"

definition prepare_quarantine :: "py_any \<Rightarrow> py_any \<Rightarrow> py_any \<Rightarrow> payload_error + write_plan" where
  "prepare_quarantine file parent name =
     rbind (payload_id file) (\<lambda>fid.
     rbind (prepare_move (AnyStr fid) parent) (\<lambda>move.
     rbind (prepare_rename (AnyStr fid) name) (\<lambda>rename.
       Inr \<lparr>wp_operation = WRITE_QUARANTINE, wp_steps = [move, rename]\<rparr>)))"

definition prepare_restore :: "py_any \<Rightarrow> py_any \<Rightarrow> py_any \<Rightarrow> payload_error + write_plan" where
  "prepare_restore file parent name =
     rbind (payload_id file) (\<lambda>fid.
     rbind (prepare_move (AnyStr fid) parent) (\<lambda>move.
     rbind (prepare_rename (AnyStr fid) name) (\<lambda>rename.
       Inr \<lparr>wp_operation = WRITE_RESTORE, wp_steps = [move, rename]\<rparr>)))"

section \<open>Outcomes\<close>

datatype base_exception = CancelledError | TimeoutExn | OtherExn

text \<open>\<open>Inl\<close> is the exception raised again.\<close>

definition classify_write_exception ::
  "write_operation \<Rightarrow> base_exception \<Rightarrow> base_exception + write_result" where
  "classify_write_exception op e =
     (case e of
        CancelledError \<Rightarrow> Inl CancelledError
      | TimeoutExn \<Rightarrow> Inr \<lparr>wr_operation = op, wr_status = WRITE_UNCERTAIN,
                        wr_error_code = Some ''timeout'', wr_postcondition_required = True\<rparr>
      | OtherExn \<Rightarrow> Inr \<lparr>wr_operation = op, wr_status = WRITE_FAILED,
                      wr_error_code = Some ''remote_failed'', wr_postcondition_required = False\<rparr>)"

record write_call =
  wc_operation :: write_operation
  wc_payload_fields :: "string list"

record fake_gateway =
  fg_outcomes :: "(write_operation \<times> (base_exception + write_result)) list"
  fg_postconditions :: "(write_operation \<times> (postcondition_status \<times> string option)) list"
  fg_calls :: "write_call list"
  fg_postcondition_calls :: "write_operation list"

definition gateway_execute ::
  "prepared_write \<Rightarrow> write_gate \<Rightarrow> (fake_gateway, base_exception, write_result) act" where
  "gateway_execute request gate fg =
     (let op = pw_operation request; decision = evaluate_write_gate gate op
      in if \<not> gd_allowed decision
         then (Inr \<lparr>wr_operation = op, wr_status = WRITE_FAILED,
                    wr_error_code = gd_error_code decision, wr_postcondition_required = False\<rparr>, fg)
         else
           let fg' = fg\<lparr>fg_calls := fg_calls fg
                 @ [\<lparr>wc_operation = op, wc_payload_fields = sort (map fst (pw_payload request))\<rparr>]\<rparr>
           in (case map_of (fg_outcomes fg) op of
                 Some (Inl e) \<Rightarrow> (classify_write_exception op e, fg')
               | Some (Inr result) \<Rightarrow> (Inr result, fg')
               | None \<Rightarrow> (Inr \<lparr>wr_operation = op, wr_status = WRITE_SUCCESS, wr_error_code = None,
                              wr_postcondition_required = True\<rparr>, fg')))"

definition gateway_verify_postcondition ::
  "write_operation \<Rightarrow> fake_gateway \<Rightarrow> (postcondition_status \<times> string option) \<times> fake_gateway" where
  "gateway_verify_postcondition op fg =
     (case map_of (fg_postconditions fg) op of None \<Rightarrow> (POST_UNVERIFIED, None) | Some r \<Rightarrow> r,
      fg\<lparr>fg_postcondition_calls := fg_postcondition_calls fg @ [op]\<rparr>)"

section \<open>Lemmas\<close>

lemma rbind_Inr: "rbind r k = Inr y \<longleftrightarrow> (\<exists>x. r = Inr x \<and> k x = Inr y)"
  by (cases r) (simp_all add: rbind_def)

lemma decimal_digits: "decimal n \<noteq> [] \<and> list_all ascii_digit (decimal n)"
proof (induction n rule: decimal.induct)
  case (1 n)
  have "n mod 10 < 10" by simp
  with 1 show ?case
    by (subst (1 2) decimal.simps) (auto simp: ascii_digit_def list_all_iff)
qed

lemma payload_id_digits: "payload_id v = Inr s \<Longrightarrow> s \<noteq> [] \<and> list_all ascii_digit s"
  by (cases v) (auto split: if_splits simp: decimal_digits)

text \<open>Normalising an identifier twice changes nothing: the plans normalise once more.\<close>

lemma payload_id_idem: "payload_id v = Inr s \<Longrightarrow> payload_id (AnyStr s) = Inr s"
  using payload_id_digits by simp

lemma payload_name_safe:
  "payload_name v = Inr s \<Longrightarrow> s \<noteq> [] \<and> length s \<le> 255 \<and> {0, 47, 92} \<inter> set s = {}"
  by (cases v) (auto split: if_splits)

text \<open>The decimal text determines the number, so two numbers never share a payload identifier.\<close>

fun undecimal :: "nat \<Rightarrow> pystr \<Rightarrow> nat" where
  "undecimal acc [] = acc"
| "undecimal acc (c # cs) = undecimal (acc * 10 + (c - 48)) cs"

lemma undecimal_append: "undecimal acc (xs @ ys) = undecimal (undecimal acc xs) ys"
  by (induction xs arbitrary: acc) simp_all

lemma undecimal_decimal: "undecimal 0 (decimal n) = n"
proof (induction n rule: decimal.induct)
  case (1 n)
  show ?case
  proof (cases "n < 10")
    case True
    then show ?thesis by (simp add: decimal.simps[of n])
  next
    case False
    then have "undecimal 0 (decimal n) = undecimal (n div 10) [48 + n mod 10]"
      using "1.IH" by (simp add: decimal.simps[of n] undecimal_append)
    then show ?thesis by simp
  qed
qed

lemma decimal_inject: "decimal m = decimal n \<Longrightarrow> m = n"
  by (metis undecimal_decimal)

lemma prepare_two_step:
  assumes "payload_id file = Inr fid" "payload_id parent = Inr pid" "payload_name name = Inr nm"
  shows "prepare_quarantine file parent name =
      Inr \<lparr>wp_operation = WRITE_QUARANTINE, wp_steps =
        [\<lparr>pw_operation = WRITE_MOVE, pw_payload = [(''file_ids'', fid), (''to_cid'', pid)]\<rparr>,
         \<lparr>pw_operation = WRITE_RENAME, pw_payload = [(''file_id'', fid), (''file_name'', nm)]\<rparr>]\<rparr>"
    and "prepare_restore file parent name =
      Inr \<lparr>wp_operation = WRITE_RESTORE, wp_steps =
        [\<lparr>pw_operation = WRITE_MOVE, pw_payload = [(''file_ids'', fid), (''to_cid'', pid)]\<rparr>,
         \<lparr>pw_operation = WRITE_RENAME, pw_payload = [(''file_id'', fid), (''file_name'', nm)]\<rparr>]\<rparr>"
  using assms payload_id_idem[OF assms(1)]
  by (simp_all add: prepare_quarantine_def prepare_restore_def prepare_move_def prepare_rename_def
      rbind_def)

lemma gateway_calls:
  "fg_calls (snd (gateway_execute request gate fg)) =
     (if gd_allowed (evaluate_write_gate gate (pw_operation request))
      then fg_calls fg @ [\<lparr>wc_operation = pw_operation request,
                           wc_payload_fields = sort (map fst (pw_payload request))\<rparr>]
      else fg_calls fg)"
  by (auto simp: gateway_execute_def Let_def split: option.splits sum.splits)

end
