(* ===== verification/Transport.thy ===== *)
theory Transport
  imports Step_Checks Write_Contract
begin

text \<open>
  The seam between executor and remote drive (\<open>OrganizationExecutorTransport\<close> of
  \<^verbatim>\<open>services/organization_executor.py\<close>): four calls that return or raise.  The locale
  \<open>scoped_transport\<close> states what a client may rely on: reads change nothing, a write touches the
  named object only and moves or renames it as asked.
\<close>

datatype transport_operation = TRANSPORT_MOVE | TRANSPORT_RENAME

datatype transport_status = TRANSPORT_SUCCESS | TRANSPORT_FAILED | TRANSPORT_UNCERTAIN

record transport_result =
  tr_operation :: transport_operation
  tr_status :: transport_status
  tr_error_code :: "string option"

record 'r transport =
  t_read_object :: "pystr \<Rightarrow> 'r \<Rightarrow> (base_exception + remote_state option) \<times> 'r"
  t_read_target :: "pystr \<Rightarrow> pystr \<Rightarrow> 'r \<Rightarrow> (base_exception + remote_state option) \<times> 'r"
  t_move :: "pystr \<Rightarrow> pystr \<Rightarrow> 'r \<Rightarrow> (base_exception + transport_result) \<times> 'r"
  t_rename :: "pystr \<Rightarrow> pystr \<Rightarrow> 'r \<Rightarrow> (base_exception + transport_result) \<times> 'r"

locale scoped_transport =
  fixes tr :: "'r transport"
    and object_at :: "'r \<Rightarrow> pystr \<Rightarrow> remote_state option"
  assumes read_object_frame: "object_at (snd (t_read_object tr o1 r)) = object_at r"
    and read_target_frame: "object_at (snd (t_read_target tr p n r)) = object_at r"
    and move_frame: "x \<noteq> o1 \<Longrightarrow> object_at (snd (t_move tr o1 p r)) x = object_at r x"
    and rename_frame: "x \<noteq> o1 \<Longrightarrow> object_at (snd (t_rename tr o1 n r)) x = object_at r x"
    and move_effect: "object_at (snd (t_move tr o1 p r)) o1
      \<in> {object_at r o1, map_option (\<lambda>st. st\<lparr>rs_parent_id := p\<rparr>) (object_at r o1)}"
    and rename_effect: "object_at (snd (t_rename tr o1 n r)) o1
      \<in> {object_at r o1, map_option (\<lambda>st. st\<lparr>rs_name := n\<rparr>) (object_at r o1)}"
begin

text \<open>No call creates or removes an object.\<close>

lemma same_objects:
  "object_at (snd (t_read_object tr o1 r)) x = None \<longleftrightarrow> object_at r x = None"
  "object_at (snd (t_read_target tr p n r)) x = None \<longleftrightarrow> object_at r x = None"
  "object_at (snd (t_move tr o1 p r)) x = None \<longleftrightarrow> object_at r x = None"
  "object_at (snd (t_rename tr o1 n r)) x = None \<longleftrightarrow> object_at r x = None"
  using move_frame[of x o1 p r] move_effect[of o1 p r] rename_frame[of x o1 n r]
    rename_effect[of o1 n r]
  by (cases "x = o1"; auto simp: read_object_frame read_target_frame)+

end

end
