(* ===== verification/Companion_Group.thy ===== *)
theory Companion_Group
  imports Step_Checks "HOL-Library.List_Lexorder" "HOL-Library.Multiset"
begin

text \<open>
  \<^verbatim>\<open>services/organization_companion_contract.py\<close>: the all-or-nothing checks for a
  media file and its companion files.  A group is validated once; before and after every
  write the observations of all members are aggregated to one verdict.  The lemmas show
  that a group verdict is a statement about every member, and that the group does not
  depend on the order its companions were given in.
\<close>

section \<open>Identities and names\<close>

definition unsafe_markers :: "pystr list" where
  "unsafe_markers = [lit ''/'', [92], [0], lit ''://'']"

definition safe_identity :: "pystr \<Rightarrow> bool" where
  "safe_identity s =
     (s \<noteq> [] \<and> length s \<le> 128 \<and> is_ascii s \<and> \<not> list_ex ascii_space s
      \<and> \<not> list_ex (\<lambda>m. occurs_in m s) unsafe_markers)"

definition safe_name :: "pystr \<Rightarrow> bool" where
  "safe_name s =
     (s \<noteq> [] \<and> length s \<le> 4096 \<and> s \<notin> {lit ''.'', lit ''..''}
      \<and> \<not> list_ex (\<lambda>m. occurs_in m s) unsafe_markers)"

definition valid_expectation :: "step_expectation \<Rightarrow> bool" where
  "valid_expectation ex =
     (list_all safe_identity
        [ex_object_id ex, ex_source_parent_id ex, ex_target_parent_id ex]
      \<and> safe_name (ex_source_name ex) \<and> safe_name (ex_target_name ex))"

definition valid_state :: "remote_state \<Rightarrow> bool" where
  "valid_state rs =
     (safe_identity (rs_object_id rs) \<and> safe_identity (rs_parent_id rs)
      \<and> safe_name (rs_name rs))"

lemma safe_identity_no_separator: "safe_identity s \<Longrightarrow> 47 \<notin> set s \<and> 92 \<notin> set s \<and> 0 \<notin> set s"
  by (simp add: safe_identity_def unsafe_markers_def)

lemma safe_name_no_separator: "safe_name s \<Longrightarrow> 47 \<notin> set s \<and> 92 \<notin> set s \<and> 0 \<notin> set s"
  by (simp add: safe_name_def unsafe_markers_def)

section \<open>The group\<close>

record companion_group =
  cg_main :: step_expectation
  cg_companions :: "step_expectation list"

definition group_steps :: "companion_group \<Rightarrow> step_expectation list" where
  "group_steps g = cg_main g # cg_companions g"

definition target_key :: "unicode \<Rightarrow> step_expectation \<Rightarrow> pystr \<times> pystr" where
  "target_key u ex = (ex_target_parent_id ex, py_casefold u (ex_target_name ex))"

text \<open>
  \<open>OrganizationCompanionGroup.__post_init__\<close>: a repeated object and two members that
  would land on the same case-folded target are both refused.
\<close>

definition make_group ::
  "unicode \<Rightarrow> step_expectation \<Rightarrow> step_expectation list \<Rightarrow> companion_group option" where
  "make_group u main companions =
     (let g = \<lparr>cg_main = main, cg_companions = companions\<rparr>; steps = group_steps g
      in if \<not> list_all valid_expectation steps then None
         else if \<not> distinct (map ex_object_id steps) then None
         else if card (set (map (target_key u) steps)) \<noteq> length steps then None
         else Some g)"

definition resolve_companion_group ::
  "unicode \<Rightarrow> step_expectation \<Rightarrow> step_expectation list \<Rightarrow> companion_group option" where
  "resolve_companion_group u main companions =
     make_group u main (sort_key ex_object_id companions)"

section \<open>Observations\<close>

text \<open>
  A dict is the list of its items; \<open>dict_get\<close> is \<open>dict.get\<close> on values that may
  themselves be \<open>None\<close>.
\<close>

type_synonym source_obs = "(pystr \<times> remote_state option) list"
type_synonym target_obs = "((pystr \<times> pystr) \<times> remote_state option) list"

definition dict_get :: "('k \<times> 'v option) list \<Rightarrow> 'k \<Rightarrow> 'v option" where
  "dict_get d k = (case map_of d k of None \<Rightarrow> None | Some v \<Rightarrow> v)"

definition bad_value :: "remote_state option \<Rightarrow> bool" where
  "bad_value v = (case v of None \<Rightarrow> False | Some rs \<Rightarrow> \<not> valid_state rs)"

definition validate_observation_maps ::
  "companion_group \<Rightarrow> source_obs \<Rightarrow> target_obs \<Rightarrow> check_result option" where
  "validate_observation_maps g sources targets =
     (let expected_ids = map ex_object_id (group_steps g);
          expected_targets = map (\<lambda>ex. (ex_target_parent_id ex, ex_target_name ex)) (group_steps g)
      in if \<not> (list_all (\<lambda>k. k \<in> set expected_ids) (map fst sources)
             \<and> list_all (\<lambda>k. k \<in> set expected_targets) (map fst targets))
         then Some (verdict_code CHECK_CONFLICT ''group_member_set_mismatch'')
         else if list_ex bad_value (map snd sources @ map snd targets)
         then Some (verdict_code CHECK_UNCERTAIN ''group_precondition_unverified'')
         else None)"

definition validate_observed_map :: "companion_group \<Rightarrow> source_obs \<Rightarrow> check_result option" where
  "validate_observed_map g observed =
     (if \<not> list_all (\<lambda>k. k \<in> set (map ex_object_id (group_steps g))) (map fst observed)
      then Some (verdict_code CHECK_UNCERTAIN ''group_member_set_mismatch'')
      else if list_ex bad_value (map snd observed)
      then Some (verdict_code CHECK_UNCERTAIN ''group_postcondition_unverified'')
      else None)"

section \<open>Group verdicts\<close>

definition check_step_before_write ::
  "step_expectation \<Rightarrow> remote_state option \<Rightarrow> remote_state option \<Rightarrow> step_check" where
  "check_step_before_write ex source target =
     (if target \<noteq> None \<and> \<not> matches_target ex source then CHECK_CONFLICT
      else cr_status (check_before_write ex source target))"

definition aggregate_before_write :: "step_check list \<Rightarrow> check_result" where
  "aggregate_before_write statuses =
     (if list_all (\<lambda>st. st = CHECK_READY) statuses then verdict CHECK_READY
      else if list_all (\<lambda>st. st = CHECK_ALREADY_APPLIED) statuses
        then verdict CHECK_ALREADY_APPLIED
      else if list_ex (\<lambda>st. st = CHECK_CONFLICT) statuses
        then verdict_code CHECK_CONFLICT ''group_precondition_conflict''
      else if list_ex (\<lambda>st. st = CHECK_UNCERTAIN) statuses
        then verdict_code CHECK_UNCERTAIN ''group_precondition_unverified''
      else verdict_code CHECK_CONFLICT ''group_partial_state'')"

definition before_statuses ::
  "companion_group \<Rightarrow> source_obs \<Rightarrow> target_obs \<Rightarrow> step_check list" where
  "before_statuses g sources targets =
     map (\<lambda>ex. check_step_before_write ex (dict_get sources (ex_object_id ex))
                (dict_get targets (ex_target_parent_id ex, ex_target_name ex)))
       (group_steps g)"

definition check_group_before_write ::
  "companion_group \<Rightarrow> source_obs \<Rightarrow> target_obs \<Rightarrow> check_result" where
  "check_group_before_write g sources targets =
     (case validate_observation_maps g sources targets of
        Some shape \<Rightarrow> shape
      | None \<Rightarrow> aggregate_before_write (before_statuses g sources targets))"

definition check_group_after_write :: "companion_group \<Rightarrow> source_obs \<Rightarrow> check_result" where
  "check_group_after_write g observed =
     (case validate_observed_map g observed of
        Some shape \<Rightarrow> shape
      | None \<Rightarrow>
          (let statuses = map (\<lambda>ex. cr_status (check_after_write ex
                                     (dict_get observed (ex_object_id ex)))) (group_steps g)
           in if list_all (\<lambda>st. st = CHECK_ALREADY_APPLIED) statuses
                then verdict CHECK_ALREADY_APPLIED
              else if list_ex (\<lambda>st. st = CHECK_CONFLICT) statuses
                then verdict_code CHECK_CONFLICT ''group_postcondition_conflict''
              else verdict_code CHECK_UNCERTAIN ''group_postcondition_unverified''))"

definition check_group_after_timeout :: "companion_group \<Rightarrow> source_obs \<Rightarrow> check_result" where
  "check_group_after_timeout g observed =
     (case validate_observed_map g observed of
        Some shape \<Rightarrow> shape
      | None \<Rightarrow>
          (let statuses = map (\<lambda>ex. cr_status (check_after_timeout ex
                                     (dict_get observed (ex_object_id ex)))) (group_steps g)
           in if list_all (\<lambda>st. st = CHECK_ALREADY_APPLIED) statuses
                then verdict CHECK_ALREADY_APPLIED
              else verdict_code CHECK_UNCERTAIN ''timeout''))"

section \<open>Lemmas about groups\<close>

lemma card_set_map_iff: "card (set (map f xs)) \<noteq> length xs \<longleftrightarrow> \<not> distinct (map f xs)"
  by (metis card_distinct distinct_card length_map)

lemma make_group_iff:
  "make_group u main companions = Some g \<longleftrightarrow>
     g = \<lparr>cg_main = main, cg_companions = companions\<rparr>
     \<and> list_all valid_expectation (main # companions)
     \<and> distinct (map ex_object_id (main # companions))
     \<and> distinct (map (target_key u) (main # companions))"
  unfolding make_group_def Let_def group_steps_def companion_group.select_convs card_set_map_iff
  by auto

lemma make_group_Some:
  assumes "make_group u main companions = Some g"
  shows "group_steps g = main # companions"
    and "list_all valid_expectation (group_steps g)"
    and "distinct (map ex_object_id (group_steps g))"
    and "distinct (map (target_key u) (group_steps g))"
  using assms by (simp_all add: make_group_iff group_steps_def)

lemma sort_key_perm_distinct:
  assumes "mset xs = mset ys" and "distinct (map k xs)"
  shows "sort_key k xs = sort_key k ys"
proof (rule properties_for_sort_key)
  show "mset (sort_key k ys) = mset xs" using assms(1) by simp
  show "sorted (map k (sort_key k ys))" by simp
  fix x assume "x \<in> set (sort_key k ys)"
  then have x: "x \<in> set xs" using assms(1) by (metis set_sort mset_eq_setD)
  have inj: "inj_on k (set xs)" and dx: "distinct xs"
    using assms(2) by (auto simp: distinct_map)
  have dy: "distinct (sort_key k ys)"
    using assms(1) dx by (metis mset_sort mset_eq_imp_distinct_iff)
  have sets: "set (sort_key k ys) = set xs"
    using assms(1) by (metis mset_sort mset_eq_setD)
  have one: "filter (\<lambda>y. k x = k y) zs = [x]" if "distinct zs" "set zs = set xs" for zs
  proof -
    have "filter (\<lambda>y. k x = k y) zs = filter (\<lambda>y. x = y) zs"
      using x inj that(2) by (intro filter_cong) (auto dest: inj_onD)
    moreover have "filter (\<lambda>y. x = y) zs = [x]" if "distinct zs" "x \<in> set zs" for zs
      using that by (induction zs) (auto simp: filter_empty_conv)
    ultimately show ?thesis using x that by simp
  qed
  show "filter (\<lambda>y. k x = k y) (sort_key k ys) = filter (\<lambda>y. k x = k y) xs"
    using one[OF dy sets] one[OF dx refl] by simp
qed

lemma resolve_group_perm:
  assumes "mset companions = mset companions'"
  shows "resolve_companion_group u main companions = resolve_companion_group u main companions'"
proof (cases "distinct (map ex_object_id companions)")
  case True
  with assms show ?thesis
    by (simp add: resolve_companion_group_def sort_key_perm_distinct)
next
  case False
  have "distinct (map ex_object_id companions') = distinct (map ex_object_id companions)"
    using assms by (metis mset_eq_imp_distinct_iff mset_map)
  moreover have "distinct (map ex_object_id (sort_key ex_object_id cs))
      = distinct (map ex_object_id cs)" for cs
    by (metis mset_eq_imp_distinct_iff mset_map mset_sort)
  ultimately have "make_group u main (sort_key ex_object_id cs) = None"
    if "cs \<in> {companions, companions'}" for cs
    using that False by (auto simp: make_group_def group_steps_def Let_def)
  then show ?thesis by (simp add: resolve_companion_group_def)
qed

lemma resolve_group_mset:
  assumes "resolve_companion_group u main companions = Some g"
  shows "mset (group_steps g) = mset (main # companions)"
  using make_group_Some(1)[OF assms[unfolded resolve_companion_group_def]] by simp

lemma step_before_ready_iff:
  "check_step_before_write ex source target = CHECK_READY
    \<longleftrightarrow> matches_source ex source \<and> \<not> matches_target ex source \<and> target = None"
  by (auto simp: check_step_before_write_def before_ready_iff)

lemma step_before_applied_iff:
  "check_step_before_write ex source target = CHECK_ALREADY_APPLIED \<longleftrightarrow> matches_target ex source"
  by (auto simp: check_step_before_write_def before_applied_iff)

lemma shape_not_ready:
  "validate_observation_maps g sources targets = Some shape
    \<Longrightarrow> cr_status shape \<noteq> CHECK_READY \<and> cr_status shape \<noteq> CHECK_ALREADY_APPLIED"
  "validate_observed_map g observed = Some shape \<Longrightarrow> cr_status shape = CHECK_UNCERTAIN"
  by (auto simp: validate_observation_maps_def validate_observed_map_def Let_def split: if_splits)

lemma group_before_ready:
  assumes "cr_status (check_group_before_write g sources targets) = CHECK_READY"
    and "ex \<in> set (group_steps g)"
  shows "matches_source ex (dict_get sources (ex_object_id ex))"
    and "\<not> matches_target ex (dict_get sources (ex_object_id ex))"
    and "dict_get targets (ex_target_parent_id ex, ex_target_name ex) = None"
  using assms
  by (auto simp: check_group_before_write_def aggregate_before_write_def before_statuses_def
      list_all_iff step_before_ready_iff split: option.splits if_splits dest: shape_not_ready)

lemma group_before_applied:
  assumes "cr_status (check_group_before_write g sources targets) = CHECK_ALREADY_APPLIED"
    and "ex \<in> set (group_steps g)"
  shows "matches_target ex (dict_get sources (ex_object_id ex))"
  using assms
  by (auto simp: check_group_before_write_def aggregate_before_write_def before_statuses_def
      list_all_iff step_before_applied_iff split: option.splits if_splits dest: shape_not_ready)

lemma group_after_applied_iff:
  "cr_status (check_group_after_write g observed) = CHECK_ALREADY_APPLIED \<longleftrightarrow>
     validate_observed_map g observed = None
     \<and> (\<forall>ex \<in> set (group_steps g). matches_target ex (dict_get observed (ex_object_id ex)))"
  by (auto simp: check_group_after_write_def Let_def list_all_iff after_applied_iff
      split: option.splits if_splits dest: shape_not_ready)

lemma group_timeout_applied_iff:
  "cr_status (check_group_after_timeout g observed) = CHECK_ALREADY_APPLIED
    \<longleftrightarrow> cr_status (check_group_after_write g observed) = CHECK_ALREADY_APPLIED"
  by (auto simp: check_group_after_write_def check_group_after_timeout_def Let_def list_all_iff
      after_applied_iff timeout_applied_iff split: option.splits if_splits dest: shape_not_ready)

text \<open>A member that is neither untouched nor done makes the verdict neither ready nor applied.\<close>

lemma group_partial:
  assumes "validate_observation_maps g sources targets = None"
    and "ex \<in> set (group_steps g)" "ex' \<in> set (group_steps g)"
    and "matches_target ex (dict_get sources (ex_object_id ex))"
    and "\<not> matches_target ex' (dict_get sources (ex_object_id ex'))"
  shows "cr_status (check_group_before_write g sources targets) \<notin> {CHECK_READY, CHECK_ALREADY_APPLIED}"
  using assms group_before_ready[of g sources targets ex] group_before_applied[of g sources targets ex']
  by auto

end
