(* ===== verification/Executor.thy ===== *)
theory Executor
  imports Operation_Props Transport Companion_Group "HOL-Library.AList"
begin

text \<open>
  \<^verbatim>\<open>services/organization_executor.py\<close>: the executor of one claimed operation.  It renews
  its lease before every transport call, observes all members of a step before it writes,
  and records how far it got.

  The executor is a coroutine: at every \<open>await\<close> the rest of the program may run.  The
  environment \<open>xc_env\<close> is what happens at the n-th await: it may change the database, the
  remote drive, the clocks and the cancel event, and may cancel the task.  A service or
  transport call has an await before and after its effect, so a cancellation can also strike
  after the effect.  The trace lists the lease renewals and transport calls in order, a call
  with its monotonic time and outcome.
\<close>

section \<open>Plan steps and results\<close>

record exec_member =
  em_object_type :: pystr
  em_object_id :: pystr
  em_source_parent_id :: pystr
  em_source_path :: pystr
  em_source_name :: pystr
  em_source_version :: pystr
  em_target_parent_id :: pystr
  em_target_name :: pystr

record exec_step =
  es_order :: int
  es_kind :: pystr
  es_scope_directory_ids :: "pystr list"
  es_members :: "exec_member list"

datatype exec_status =
    EXEC_ORGANIZED | EXEC_FAILED | EXEC_UNCERTAIN | EXEC_CANCELLED | EXEC_LEASE_LOST

record exec_result =
  xr_operation_id :: pystr
  xr_status :: exec_status
  xr_error_code :: "string option"
  xr_completed_steps :: nat
  xr_transport_calls :: nat

record exec_context =
  cx_lease :: op_lease
  cx_completed_steps :: nat
  cx_transport_calls :: nat
  cx_last_call_at :: "int option"
  cx_write_started :: bool
  cx_write_confirmed :: bool

datatype exec_exn =
    RateLimitReached
  | ExecutionCancelled
  | LeaseLost
  | TransportFailure string bool
  | TaskCancelled
  | ServiceExn op_error
  | IndexErr

section \<open>The world and the state of a run\<close>

record 'r world =
  wd_store :: store
  wd_remote :: 'r
  wd_clock :: time
  wd_mono :: int
  wd_cancel :: bool
  wd_abort :: bool

datatype transport_call =
    ReadObject pystr
  | ReadTarget pystr pystr
  | Move pystr pystr
  | Rename pystr pystr

datatype call_value = Observed "remote_state option" | Wrote transport_result

datatype trace_event =
    Renewed op_lease
  | Called transport_call int "base_exception + call_value"

record 'r exec_state =
  xs_world :: "'r world"
  xs_tick :: nat
  xs_ctx :: exec_context
  xs_trace :: "trace_event list"

text \<open>
  The constructor's arguments, the arguments of \<open>execute\<close> that stay fixed, and the
  surroundings: \<open>xc_loader\<close> is \<open>load_executable_steps\<close>, \<open>xc_ids\<close> the event identifiers drawn
  at a tick, \<open>xc_set_order\<close> the iteration order of a set built from the list.
\<close>

record 'r exec_config =
  xc_transport :: "'r transport"
  xc_max_calls :: int
  xc_min_interval :: int
  xc_cancel_event :: bool
  xc_now :: "py_datetime option"
  xc_loader :: "store \<Rightarrow> time \<Rightarrow> pystr \<Rightarrow> exec_step list option"
  xc_unicode :: unicode
  xc_env :: "nat \<Rightarrow> 'r world \<Rightarrow> 'r world"
  xc_ids :: "nat \<Rightarrow> nat \<Rightarrow> pystr"
  xc_set_order :: "pystr list \<Rightarrow> pystr list"

definition valid_budget :: "int \<Rightarrow> int \<Rightarrow> bool" where
  "valid_budget max_calls min_interval = (max_calls > 0 \<and> min_interval \<ge> 0)"

type_synonym ('r, 'a) exec = "('r exec_state, exec_exn, 'a) act"

abbreviation xs_store :: "'r exec_state \<Rightarrow> store" where
  "xs_store s \<equiv> wd_store (xs_world s)"

definition modify_ctx :: "(exec_context \<Rightarrow> exec_context) \<Rightarrow> ('r, unit) exec" where
  "modify_ctx f s = (Inr (), s\<lparr>xs_ctx := f (xs_ctx s)\<rparr>)"

definition emit :: "trace_event \<Rightarrow> ('r, unit) exec" where
  "emit e s = (Inr (), s\<lparr>xs_trace := xs_trace s @ [e]\<rparr>)"

definition await :: "'r exec_config \<Rightarrow> ('r, unit) exec" where
  "await cfg s =
     (let w = xc_env cfg (xs_tick s) (xs_world s);
          s' = s\<lparr>xs_world := w, xs_tick := xs_tick s + 1\<rparr>
      in if wd_abort w then (Inl TaskCancelled, s'\<lparr>xs_world := w\<lparr>wd_abort := False\<rparr>\<rparr>)
         else (Inr (), s'))"

text \<open>A call of the operation service: \<open>m\<close> gets the clock and the tick.\<close>

definition service_effect :: "(time \<Rightarrow> nat \<Rightarrow> 'a op_act) \<Rightarrow> ('r, 'a) exec" where
  "service_effect m s =
     (case m (wd_clock (xs_world s)) (xs_tick s) (xs_store s) of
        (out, st) \<Rightarrow>
          ((case out of Inl e \<Rightarrow> Inl (ServiceExn e) | Inr x \<Rightarrow> Inr x),
           s\<lparr>xs_world := (xs_world s)\<lparr>wd_store := st\<rparr>\<rparr>))"

definition service :: "'r exec_config \<Rightarrow> (time \<Rightarrow> nat \<Rightarrow> 'a op_act) \<Rightarrow> ('r, 'a) exec" where
  "service cfg m =
     sbind (await cfg) (\<lambda>_.
     sbind (service_effect m) (\<lambda>x.
     sbind (await cfg) (\<lambda>_. sret x)))"

section \<open>Helpers of the executor\<close>

definition member_expectation :: "exec_member \<Rightarrow> step_expectation" where
  "member_expectation m =
     \<lparr>ex_object_id = em_object_id m, ex_source_parent_id = em_source_parent_id m,
      ex_source_name = em_source_name m, ex_target_parent_id = em_target_parent_id m,
      ex_target_name = em_target_name m\<rparr>"

text \<open>\<open>_group_for_step\<close>; a step without members is the \<open>IndexError\<close> of \<open>expectations[0]\<close>.\<close>

definition group_for_step :: "unicode \<Rightarrow> exec_step \<Rightarrow> exec_exn + companion_group option" where
  "group_for_step u st =
     (case map member_expectation (es_members st) of
        [] \<Rightarrow> Inl IndexErr
      | ex # exs \<Rightarrow> Inr (resolve_companion_group u ex exs))"

definition safe_transport_code :: "string option \<Rightarrow> string option" where
  "safe_transport_code c =
     (if c \<in> {Some ''timeout'', Some ''outcome_unknown'', Some ''remote_write_failed''} then c
      else None)"

definition check_cancel :: "'r exec_config \<Rightarrow> ('r, unit) exec" where
  "check_cancel cfg s =
     (if xc_cancel_event cfg \<and> wd_cancel (xs_world s) then (Inl ExecutionCancelled, s)
      else (Inr (), s))"

definition result_of :: "exec_status \<Rightarrow> string option \<Rightarrow> ('r, exec_result) exec" where
  "result_of st err s =
     (Inr \<lparr>xr_operation_id = lease_operation_id (cx_lease (xs_ctx s)), xr_status = st,
           xr_error_code = err, xr_completed_steps = cx_completed_steps (xs_ctx s),
           xr_transport_calls = cx_transport_calls (xs_ctx s)\<rparr>, s)"

definition lease_lost :: "('r, exec_result) exec" where
  "lease_lost = result_of EXEC_LEASE_LOST (Some ''lease_lost'')"

definition with_lease ::
  "'r exec_config \<Rightarrow> (op_lease \<Rightarrow> time \<Rightarrow> nat \<Rightarrow> 'a op_act) \<Rightarrow> ('r, 'a) exec" where
  "with_lease cfg m = sbind sget (\<lambda>s. service cfg (m (cx_lease (xs_ctx s))))"

text \<open>
  \<open>_renew\<close>: the lease in the context is replaced once the call has returned.  The trace
  event belongs to that moment.
\<close>

definition renew :: "'r exec_config \<Rightarrow> ('r, bool) exec" where
  "renew cfg =
     scatch
       (sbind (with_lease cfg (\<lambda>l clk _. renew_lease clk (lease_operation_id l) (lease_revision l)
                 (lease_token l) default_lease_duration (xc_now cfg))) (\<lambda>l.
        sbind (modify_ctx (\<lambda>c. c\<lparr>cx_lease := l\<rparr>)) (\<lambda>_.
        sbind (emit (Renewed l)) (\<lambda>_. sret True))))
       (\<lambda>e. case e of ServiceExn (LeaseUnavailable _) \<Rightarrow> sret False | _ \<Rightarrow> sraise e)"

definition persist_lease_loss :: "'r exec_config \<Rightarrow> ('r, exec_result) exec" where
  "persist_lease_loss cfg =
     scatch
       (sbind (with_lease cfg (\<lambda>l clk _. finish_after_lease_loss clk (lease_operation_id l)
                 (lease_revision l) (lease_token l) (xc_now cfg))) (\<lambda>_.
        result_of EXEC_UNCERTAIN (Some ''lease_lost'')))
       (\<lambda>e. case e of ServiceExn (LeaseUnavailable _) \<Rightarrow> lease_lost | _ \<Rightarrow> sraise e)"

definition handle_lease_loss :: "'r exec_config \<Rightarrow> ('r, exec_result) exec" where
  "handle_lease_loss cfg =
     sbind sget (\<lambda>s. if \<not> cx_write_started (xs_ctx s) then lease_lost else persist_lease_loss cfg)"

section \<open>Finishing\<close>

definition stored_status :: "exec_status \<Rightarrow> op_status" where
  "stored_status st =
     (if st \<in> {EXEC_UNCERTAIN, EXEC_CANCELLED} then OP_UNCERTAIN else OP_FAILED)"

definition finish_not_organized ::
  "'r exec_config \<Rightarrow> op_status \<Rightarrow> string option \<Rightarrow> ('r, op_summary) exec" where
  "finish_not_organized cfg st err =
     with_lease cfg (\<lambda>l clk n. finish_operation (xc_ids cfg n) clk (lease_operation_id l)
       (lease_revision l) (lease_token l) st err None None (xc_now cfg))"

text \<open>\<open>_finish\<close> of every status but organized.\<close>

definition finish :: "'r exec_config \<Rightarrow> exec_status \<Rightarrow> string \<Rightarrow> ('r, exec_result) exec" where
  "finish cfg st err =
     scatch
       (sbind (finish_not_organized cfg (stored_status st) (Some err)) (\<lambda>_. result_of st (Some err)))
       (\<lambda>e. case e of
           ServiceExn (LeaseUnavailable _) \<Rightarrow>
             sbind sget (\<lambda>s. if cx_write_started (xs_ctx s) then persist_lease_loss cfg
                             else lease_lost)
         | ServiceExn (Conflict _) \<Rightarrow> result_of EXEC_FAILED (Some ''local_failure'')
         | _ \<Rightarrow> sraise e)"

text \<open>\<open>_finish\<close> of an organized operation, its \<open>except\<close> clauses first.\<close>

definition organized_failure :: "'r exec_config \<Rightarrow> exec_exn \<Rightarrow> ('r, exec_result) exec" where
  "organized_failure cfg e =
     (case e of
        ServiceExn (LeaseUnavailable _) \<Rightarrow>
          sbind sget (\<lambda>s. if cx_write_started (xs_ctx s) then persist_lease_loss cfg else lease_lost)
      | ServiceExn (Conflict _) \<Rightarrow>
          scatch
            (sbind (finish_not_organized cfg OP_FAILED (Some ''local_failure''))
               (\<lambda>_. result_of EXEC_FAILED (Some ''local_failure'')))
            (\<lambda>e'. case e' of ServiceExn (LeaseUnavailable _) \<Rightarrow> lease_lost | _ \<Rightarrow> sraise e')
      | _ \<Rightarrow> sraise e)"

definition complete_call ::
  "'r exec_config \<Rightarrow> pystr \<Rightarrow> pystr \<Rightarrow> pystr list \<Rightarrow> ('r, op_summary) exec" where
  "complete_call cfg source_dir target_dir dirs =
     with_lease cfg (\<lambda>l clk n. complete_organized (xc_ids cfg n) clk (lease_operation_id l)
       (lease_revision l) (lease_token l) source_dir target_dir (Some dirs) (xc_now cfg))"

definition finish_organized ::
  "'r exec_config \<Rightarrow> pystr \<Rightarrow> pystr \<Rightarrow> pystr list \<Rightarrow> ('r, exec_result) exec" where
  "finish_organized cfg source_dir target_dir dirs =
     scatch (sbind (complete_call cfg source_dir target_dir dirs) (\<lambda>_. result_of EXEC_ORGANIZED None))
       (organized_failure cfg)"

section \<open>Transport calls\<close>

definition sleep :: "'r exec_config \<Rightarrow> int \<Rightarrow> ('r, unit) exec" where
  "sleep cfg d =
     sbind sget (\<lambda>s0.
     sbind (await cfg) (\<lambda>_ s.
       (Inr (), s\<lparr>xs_world := (xs_world s)\<lparr>wd_mono := max (wd_mono (xs_world s))
                                              (wd_mono (xs_world s0) + d)\<rparr>\<rparr>)))"

definition pace :: "'r exec_config \<Rightarrow> ('r, unit) exec" where
  "pace cfg =
     sbind sget (\<lambda>s.
       case cx_last_call_at (xs_ctx s) of
         None \<Rightarrow> sret ()
       | Some last_at \<Rightarrow>
           if xc_min_interval cfg \<noteq> 0 \<and> wd_mono (xs_world s) - last_at < xc_min_interval cfg
           then sleep cfg (xc_min_interval cfg - (wd_mono (xs_world s) - last_at))
           else sret ())"

definition mark_call :: "bool \<Rightarrow> ('r, unit) exec" where
  "mark_call is_write s =
     modify_ctx (\<lambda>c. c\<lparr>cx_write_started := (is_write \<or> cx_write_started c),
                       cx_transport_calls := cx_transport_calls c + 1,
                       cx_last_call_at := Some (wd_mono (xs_world s))\<rparr>) s"

definition transport_effect ::
  "transport_call \<Rightarrow> ('a \<Rightarrow> call_value) \<Rightarrow> ('r \<Rightarrow> (base_exception + 'a) \<times> 'r) \<Rightarrow> ('r, 'a) exec" where
  "transport_effect c wrap method s =
     (case method (wd_remote (xs_world s)) of
        (out, r') \<Rightarrow>
          ((case out of
              Inl CancelledError \<Rightarrow> Inl TaskCancelled
            | Inl TimeoutExn \<Rightarrow> Inl (TransportFailure ''timeout'' True)
            | Inl OtherExn \<Rightarrow> Inl (TransportFailure ''outcome_unknown'' True)
            | Inr x \<Rightarrow> Inr x),
           s\<lparr>xs_world := (xs_world s)\<lparr>wd_remote := r'\<rparr>,
             xs_trace := xs_trace s
               @ [Called c (wd_mono (xs_world s)) (map_sum id wrap out)]\<rparr>))"

definition call ::
  "'r exec_config \<Rightarrow> bool \<Rightarrow> transport_call \<Rightarrow> ('a \<Rightarrow> call_value)
    \<Rightarrow> ('r \<Rightarrow> (base_exception + 'a) \<times> 'r) \<Rightarrow> ('r, 'a) exec" where
  "call cfg is_write c wrap method =
     sbind sget (\<lambda>s.
     if int (cx_transport_calls (xs_ctx s)) \<ge> xc_max_calls cfg then sraise RateLimitReached
     else
       sbind (pace cfg) (\<lambda>_.
       sbind (check_cancel cfg) (\<lambda>_.
       sbind (renew cfg) (\<lambda>ok.
       if \<not> ok then sraise LeaseLost
       else
         sbind (check_cancel cfg) (\<lambda>_.
         sbind (mark_call is_write) (\<lambda>_.
         sbind (transport_effect c wrap method) (\<lambda>x.
         sbind (await cfg) (\<lambda>_. sret x))))))))"

definition read_object :: "'r exec_config \<Rightarrow> pystr \<Rightarrow> ('r, remote_state option) exec" where
  "read_object cfg oid =
     call cfg False (ReadObject oid) Observed (t_read_object (xc_transport cfg) oid)"

definition read_target :: "'r exec_config \<Rightarrow> pystr \<Rightarrow> pystr \<Rightarrow> ('r, remote_state option) exec" where
  "read_target cfg p n =
     call cfg False (ReadTarget p n) Observed (t_read_target (xc_transport cfg) p n)"

definition move :: "'r exec_config \<Rightarrow> pystr \<Rightarrow> pystr \<Rightarrow> ('r, transport_result) exec" where
  "move cfg oid p = call cfg True (Move oid p) Wrote (t_move (xc_transport cfg) oid p)"

definition rename :: "'r exec_config \<Rightarrow> pystr \<Rightarrow> pystr \<Rightarrow> ('r, transport_result) exec" where
  "rename cfg oid n = call cfg True (Rename oid n) Wrote (t_rename (xc_transport cfg) oid n)"

definition check_write_result ::
  "transport_result \<Rightarrow> transport_operation \<Rightarrow> exec_exn + unit" where
  "check_write_result res expected =
     (if tr_operation res \<noteq> expected then Inl (TransportFailure ''outcome_unknown'' True)
      else case tr_status res of
          TRANSPORT_SUCCESS \<Rightarrow> Inr ()
        | TRANSPORT_UNCERTAIN \<Rightarrow>
            Inl (TransportFailure
              (case safe_transport_code (tr_error_code res) of
                 None \<Rightarrow> ''outcome_unknown'' | Some code \<Rightarrow> code) True)
        | TRANSPORT_FAILED \<Rightarrow> Inl (TransportFailure ''remote_write_failed'' False))"

section \<open>Phases of a step\<close>

text \<open>
  The loops over a step's members.  A phase returns early with a result (\<open>Inl\<close>), falls
  through with its value (\<open>Inr\<close>), or raises to its handler.
\<close>

definition checked_renew ::
  "'r exec_config \<Rightarrow> ('r, exec_result + 'a) exec \<Rightarrow> ('r, exec_result + 'a) exec" where
  "checked_renew cfg k =
     sbind (check_cancel cfg) (\<lambda>_.
     sbind (renew cfg) (\<lambda>ok.
       if \<not> ok then sbind (handle_lease_loss cfg) (\<lambda>r. sret (Inl r)) else k))"

fun read_members ::
  "'r exec_config \<Rightarrow> exec_member list \<Rightarrow> source_obs \<Rightarrow> target_obs
    \<Rightarrow> ('r, exec_result + source_obs \<times> target_obs) exec" where
  "read_members cfg [] sources targets = sret (Inr (sources, targets))"
| "read_members cfg (m # ms) sources targets =
     checked_renew cfg (
       sbind (read_object cfg (em_object_id m)) (\<lambda>src.
       checked_renew cfg (
         sbind (check_cancel cfg) (\<lambda>_.
         sbind (read_target cfg (em_target_parent_id m) (em_target_name m)) (\<lambda>tgt.
         read_members cfg ms (AList.update (em_object_id m) src sources)
           (AList.update (em_target_parent_id m, em_target_name m) tgt targets))))))"

fun write_members :: "'r exec_config \<Rightarrow> exec_member list \<Rightarrow> ('r, exec_result + unit) exec" where
  "write_members cfg [] = sret (Inr ())"
| "write_members cfg (m # ms) =
     checked_renew cfg (
       sbind (check_cancel cfg) (\<lambda>_.
       sbind (move cfg (em_object_id m) (em_target_parent_id m)) (\<lambda>moved.
       sbind (scheck (check_write_result moved TRANSPORT_MOVE)) (\<lambda>_.
       sbind (modify_ctx (\<lambda>c. c\<lparr>cx_write_confirmed := True\<rparr>)) (\<lambda>_.
       checked_renew cfg (
         sbind (check_cancel cfg) (\<lambda>_.
         sbind (rename cfg (em_object_id m) (em_target_name m)) (\<lambda>renamed.
         sbind (scheck (check_write_result renamed TRANSPORT_RENAME)) (\<lambda>_.
         sbind (modify_ctx (\<lambda>c. c\<lparr>cx_write_confirmed := True\<rparr>)) (\<lambda>_.
         write_members cfg ms))))))))))"

fun verify_members ::
  "'r exec_config \<Rightarrow> exec_member list \<Rightarrow> source_obs \<Rightarrow> ('r, exec_result + source_obs) exec" where
  "verify_members cfg [] observed = sret (Inr observed)"
| "verify_members cfg (m # ms) observed =
     checked_renew cfg (
       sbind (check_cancel cfg) (\<lambda>_.
       sbind (read_object cfg (em_object_id m)) (\<lambda>obs.
       verify_members cfg ms (AList.update (em_object_id m) obs observed))))"

definition early :: "('r, exec_result) exec \<Rightarrow> ('r, exec_result + 'a) exec" where
  "early m = sbind m (\<lambda>r. sret (Inl r))"

definition read_phase ::
  "'r exec_config \<Rightarrow> exec_member list \<Rightarrow> ('r, exec_result + source_obs \<times> target_obs) exec" where
  "read_phase cfg ms =
     scatch (read_members cfg ms [] [])
       (\<lambda>e. case e of
           RateLimitReached \<Rightarrow> early (finish cfg EXEC_FAILED ''rate_limited'')
         | ExecutionCancelled \<Rightarrow> early (finish cfg EXEC_CANCELLED ''cancelled'')
         | LeaseLost \<Rightarrow> early (handle_lease_loss cfg)
         | TransportFailure code _ \<Rightarrow> early (finish cfg EXEC_UNCERTAIN code)
         | _ \<Rightarrow> sraise e)"

definition write_phase :: "'r exec_config \<Rightarrow> exec_member list \<Rightarrow> ('r, exec_result + unit) exec" where
  "write_phase cfg ms =
     scatch (write_members cfg ms)
       (\<lambda>e. case e of
           RateLimitReached \<Rightarrow> early (finish cfg EXEC_UNCERTAIN ''rate_limited'')
         | ExecutionCancelled \<Rightarrow> early (finish cfg EXEC_CANCELLED ''cancelled'')
         | LeaseLost \<Rightarrow> early (handle_lease_loss cfg)
         | TransportFailure code uncertain \<Rightarrow>
             sbind sget (\<lambda>s.
               early (finish cfg
                 (if uncertain \<or> cx_write_confirmed (xs_ctx s) then EXEC_UNCERTAIN
                  else EXEC_FAILED) code))
         | _ \<Rightarrow> sraise e)"

definition verify_phase ::
  "'r exec_config \<Rightarrow> exec_member list \<Rightarrow> ('r, exec_result + source_obs) exec" where
  "verify_phase cfg ms =
     scatch (verify_members cfg ms [])
       (\<lambda>e. case e of
           RateLimitReached \<Rightarrow> early (finish cfg EXEC_UNCERTAIN ''rate_limited'')
         | ExecutionCancelled \<Rightarrow> early (finish cfg EXEC_CANCELLED ''cancelled'')
         | LeaseLost \<Rightarrow> early (handle_lease_loss cfg)
         | TransportFailure code _ \<Rightarrow> early (finish cfg EXEC_UNCERTAIN code)
         | _ \<Rightarrow> sraise e)"

text \<open>Some target slot is held by an object other than the member planned for it.\<close>

definition foreign_target :: "exec_member list \<Rightarrow> target_obs \<Rightarrow> bool" where
  "foreign_target ms targets =
     list_ex (\<lambda>m. case dict_get targets (em_target_parent_id m, em_target_name m) of
         None \<Rightarrow> False | Some st \<Rightarrow> rs_object_id st \<noteq> em_object_id m) ms"

definition step_done :: "('r, exec_result + unit) exec" where
  "step_done =
     sbind (modify_ctx (\<lambda>c. c\<lparr>cx_completed_steps := cx_completed_steps c + 1\<rparr>))
       (\<lambda>_. sret (Inr ()))"

text \<open>Sequencing of phases: an early result ends the step.\<close>

definition then_phase ::
  "('r, exec_result + 'a) exec \<Rightarrow> ('a \<Rightarrow> ('r, exec_result + 'b) exec) \<Rightarrow> ('r, exec_result + 'b) exec" where
  "then_phase m k = sbind m (\<lambda>v. case v of Inl r \<Rightarrow> sret (Inl r) | Inr x \<Rightarrow> k x)"

definition after_verify ::
  "'r exec_config \<Rightarrow> companion_group \<Rightarrow> source_obs \<Rightarrow> ('r, exec_result + unit) exec" where
  "after_verify cfg g observed =
     (let post = check_group_after_write g observed
      in if cr_status post = CHECK_CONFLICT
           then early (finish cfg EXEC_UNCERTAIN ''postcondition_mismatch'')
         else if cr_status post \<noteq> CHECK_ALREADY_APPLIED
           then early (finish cfg EXEC_UNCERTAIN ''outcome_unknown'')
         else step_done)"

definition after_read ::
  "'r exec_config \<Rightarrow> exec_step \<Rightarrow> companion_group \<Rightarrow> source_obs \<Rightarrow> target_obs
    \<Rightarrow> ('r, exec_result + unit) exec" where
  "after_read cfg st g sources targets =
     (let pre = check_group_before_write g sources targets
      in if cr_status pre = CHECK_ALREADY_APPLIED \<and> foreign_target (es_members st) targets
           then early (finish cfg EXEC_FAILED ''plan_prerequisites_changed'')
         else if cr_status pre = CHECK_CONFLICT then
           (if cr_error_code pre = Some ''group_partial_state''
            then early (finish cfg EXEC_UNCERTAIN ''outcome_unknown'')
            else early (finish cfg EXEC_FAILED ''plan_prerequisites_changed''))
         else if cr_status pre = CHECK_UNCERTAIN
           then early (finish cfg EXEC_UNCERTAIN ''outcome_unknown'')
         else if cr_status pre = CHECK_ALREADY_APPLIED then step_done
         else
           then_phase (write_phase cfg (es_members st)) (\<lambda>_.
           then_phase (verify_phase cfg (es_members st)) (after_verify cfg g)))"

definition run_step :: "'r exec_config \<Rightarrow> exec_step \<Rightarrow> ('r, exec_result + unit) exec" where
  "run_step cfg st =
     sbind sget (\<lambda>s.
     if xc_cancel_event cfg \<and> wd_cancel (xs_world s)
       then early (finish cfg EXEC_CANCELLED ''cancelled'')
     else
       sbind (renew cfg) (\<lambda>ok.
       if \<not> ok then early (handle_lease_loss cfg)
       else
         sbind (scheck (group_for_step (xc_unicode cfg) st)) (\<lambda>group.
         case group of
           None \<Rightarrow> early (finish cfg EXEC_FAILED ''plan_prerequisites_changed'')
         | Some g \<Rightarrow>
             then_phase (read_phase cfg (es_members st)) (\<lambda>(sources, targets).
               after_read cfg st g sources targets))))"

fun run_loop :: "'r exec_config \<Rightarrow> exec_step list \<Rightarrow> ('r, exec_result + unit) exec" where
  "run_loop cfg [] = sret (Inr ())"
| "run_loop cfg (st # sts) = then_phase (run_step cfg st) (\<lambda>_. run_loop cfg sts)"

definition scope_ids :: "exec_step list \<Rightarrow> pystr list" where
  "scope_ids sts =
     concat (map (\<lambda>m. [em_source_parent_id m, em_target_parent_id m])
       (concat (map es_members sts)))"

definition run_steps :: "'r exec_config \<Rightarrow> exec_step list \<Rightarrow> ('r, exec_result) exec" where
  "run_steps cfg sts =
     sbind (run_loop cfg sts) (\<lambda>v.
       case v of
         Inl r \<Rightarrow> sret r
       | Inr _ \<Rightarrow>
           (case sts of
              [] \<Rightarrow> sraise IndexErr
            | st # _ \<Rightarrow>
               (case es_members st of
                  [] \<Rightarrow> sraise IndexErr
                | m # _ \<Rightarrow> finish_organized cfg (em_source_parent_id m) (em_target_parent_id m)
                            (xc_set_order cfg (scope_ids sts)))))"

section \<open>Entry point\<close>

definition fresh_context :: "'r exec_config \<Rightarrow> pystr \<Rightarrow> int \<Rightarrow> pystr \<Rightarrow> exec_context" where
  "fresh_context cfg oid rv token =
     \<lparr>cx_lease = \<lparr>lease_operation_id = oid, lease_revision = rv, lease_token = token,
                  lease_expires_at = map_option as_utc (xc_now cfg)\<rparr>,
      cx_completed_steps = 0, cx_transport_calls = 0, cx_last_call_at = None,
      cx_write_started = False, cx_write_confirmed = False\<rparr>"

definition load_steps :: "'r exec_config \<Rightarrow> pystr \<Rightarrow> ('r, exec_step list option) exec" where
  "load_steps cfg pid =
     service cfg (\<lambda>clk _ st. (Inr (xc_loader cfg st clk pid), st))"

definition execute ::
  "'r exec_config \<Rightarrow> pystr \<Rightarrow> int \<Rightarrow> pystr \<Rightarrow> ('r, exec_result) exec" where
  "execute cfg oid rv token =
     sbind (service cfg (\<lambda>_ _. get_operation oid)) (\<lambda>sm.
     if sm_status sm \<noteq> OP_ORGANIZING \<or> sm_revision sm \<noteq> rv
       then sraise (ServiceExn (StateError ''operation_is_not_claimed''))
     else
       sbind (load_steps cfg (sm_plan_id sm)) (\<lambda>steps.
       sbind (modify_ctx (\<lambda>_. fresh_context cfg oid rv token)) (\<lambda>_.
       case steps of
         None \<Rightarrow> finish cfg EXEC_FAILED ''plan_prerequisites_changed''
       | Some sts \<Rightarrow>
           scatch (run_steps cfg sts)
             (\<lambda>e. case e of
                 TaskCancelled \<Rightarrow>
                   sbind (finish cfg EXEC_UNCERTAIN ''cancelled'') (\<lambda>_. sraise TaskCancelled)
               | _ \<Rightarrow> sraise e))))"

end
