(* ===== verification/Executor_Rules.thy ===== *)
theory Executor_Rules
  imports Executor
begin

text \<open>
  Proof rules for the executor.  \<open>keeps I m\<close> says that \<open>m\<close> keeps \<open>I\<close> on every exit; it is
  closed under the constructs of the executor, so an invariant is proved for the whole
  coroutine by checking the primitive effects.
\<close>

section \<open>Invariants\<close>

definition keeps :: "('s \<Rightarrow> bool) \<Rightarrow> ('s, 'e, 'a) act \<Rightarrow> bool" where
  "keeps I m \<longleftrightarrow> (\<forall>s. I s \<longrightarrow> I (snd (m s)))"

named_theorems keeps_intro \<open>composition of handlers that keep an invariant\<close>

lemma keepsD: "keeps I m \<Longrightarrow> I s \<Longrightarrow> m s = (out, s') \<Longrightarrow> I s'"
  unfolding keeps_def by (metis snd_conv)

lemma keeps_basic [keeps_intro]:
  "keeps I (sret x)" "keeps I (sraise e)" "keeps I (scheck v)" "keeps I sget"
  by (simp_all add: keeps_def monad_defs)

lemma keeps_bind [keeps_intro]:
  "keeps I m \<Longrightarrow> (\<And>x. keeps I (k x)) \<Longrightarrow> keeps I (sbind m k)"
  unfolding keeps_def sbind_def
  by (metis (mono_tags, lifting) old.prod.case split_pairs sum.case_eq_if)

lemma keeps_catch [keeps_intro]:
  "keeps I m \<Longrightarrow> (\<And>e. keeps I (h e)) \<Longrightarrow> keeps I (scatch m h)"
  unfolding keeps_def scatch_def
  by (metis (mono_tags, lifting) old.prod.case split_pairs sum.case_eq_if)

lemma keeps_if [keeps_intro]:
  "(b \<Longrightarrow> keeps I m) \<Longrightarrow> (\<not> b \<Longrightarrow> keeps I n) \<Longrightarrow> keeps I (if b then m else n)"
  by simp

lemma keeps_option [keeps_intro]:
  "keeps I m \<Longrightarrow> (\<And>x. keeps I (k x)) \<Longrightarrow> keeps I (case v of None \<Rightarrow> m | Some x \<Rightarrow> k x)"
  by (simp split: option.split)

lemma keeps_list [keeps_intro]:
  "keeps I m \<Longrightarrow> (\<And>x xs. keeps I (k x xs)) \<Longrightarrow> keeps I (case v of [] \<Rightarrow> m | x # xs \<Rightarrow> k x xs)"
  by (simp split: list.split)

lemma keeps_sum [keeps_intro]:
  "(\<And>x. keeps I (h x)) \<Longrightarrow> (\<And>x. keeps I (k x)) \<Longrightarrow> keeps I (case v of Inl x \<Rightarrow> h x | Inr x \<Rightarrow> k x)"
  by (simp split: sum.split)

lemma keeps_pair [keeps_intro]:
  "(\<And>x y. keeps I (k x y)) \<Longrightarrow> keeps I (case v of (x, y) \<Rightarrow> k x y)"
  by (simp split: prod.split)

lemma keeps_let [keeps_intro]: "keeps I (k v) \<Longrightarrow> keeps I (let x = v in k x)"
  by simp

lemma keeps_exn [keeps_intro]:
  assumes "keeps I a" "keeps I b" "keeps I c" "\<And>x y. keeps I (d x y)" "keeps I e"
    "\<And>x. keeps I (f x)" "keeps I g"
  shows "keeps I (case v of RateLimitReached \<Rightarrow> a | ExecutionCancelled \<Rightarrow> b | LeaseLost \<Rightarrow> c
    | TransportFailure x y \<Rightarrow> d x y | TaskCancelled \<Rightarrow> e | ServiceExn x \<Rightarrow> f x | IndexErr \<Rightarrow> g)"
  using assms by (simp split: exec_exn.split)

lemma keeps_op_error [keeps_intro]:
  assumes "keeps I a" "\<And>x. keeps I (b x)" "\<And>x. keeps I (c x)" "\<And>x. keeps I (d x)"
    "\<And>x. keeps I (e x)" "\<And>x. keeps I (f x)"
  shows "keeps I (case v of NotFound \<Rightarrow> a | Conflict x \<Rightarrow> b x | StateError x \<Rightarrow> c x
    | PrerequisiteError x \<Rightarrow> d x | LeaseUnavailable x \<Rightarrow> e x | ValueErr x \<Rightarrow> f x)"
  using assms by (simp split: op_error.split)

lemma keeps_conj: "keeps I m \<Longrightarrow> keeps J m \<Longrightarrow> keeps (\<lambda>s. I s \<and> J s) m"
  by (simp add: keeps_def)

lemma keeps_triple:
  fixes m :: "('a, 'c, 'b) act"
  shows "keeps I m \<longleftrightarrow> triple I m (\<lambda>_. I) (\<lambda>_. I)"
proof -
  have "I (snd p) \<longleftrightarrow> (case p of (Inl e, s') \<Rightarrow> I s' | (Inr x, s') \<Rightarrow> I s')" for p :: "('c + 'b) \<times> 'a"
    by (cases p; cases "fst p") simp_all
  then show ?thesis unfolding keeps_def triple_def by simp
qed

lemma triple_keeps: "triple P m Q E \<Longrightarrow> (\<And>s. I s \<Longrightarrow> P s) \<Longrightarrow> (\<And>x s. Q x s \<Longrightarrow> I s)
    \<Longrightarrow> (\<And>e s. E e s \<Longrightarrow> I s) \<Longrightarrow> keeps I m"
  unfolding keeps_triple by (rule triple_conseq)

lemma triple_raise_iff: "triple P (sraise e) Q E \<longleftrightarrow> (\<forall>s. P s \<longrightarrow> E e s)"
  by (simp add: triple_def sraise_def)

lemma triple_catch:
  "triple P m Q E' \<Longrightarrow> (\<And>e. triple (E' e) (h e) Q E) \<Longrightarrow> triple P (scatch m h) Q E"
  unfolding triple_def scatch_def by (fastforce split: prod.splits sum.splits)

lemma triple_bind2:
  "triple P' m R E' \<Longrightarrow> (\<And>x. triple (R x) (k x) Q E) \<Longrightarrow> (\<And>s. P s \<Longrightarrow> P' s)
    \<Longrightarrow> (\<And>e s. E' e s \<Longrightarrow> E e s) \<Longrightarrow> triple P (sbind m k) Q E"
  by (rule triple_bind[OF triple_conseq[where Q = R and E = E]])

section \<open>One transport call\<close>

definition perform_call ::
  "'r transport \<Rightarrow> transport_call \<Rightarrow> 'r \<Rightarrow> (base_exception + call_value) \<times> 'r" where
  "perform_call tr c r =
     (case c of
        ReadObject oid \<Rightarrow> apfst (map_sum id Observed) (t_read_object tr oid r)
      | ReadTarget p n \<Rightarrow> apfst (map_sum id Observed) (t_read_target tr p n r)
      | Move oid p \<Rightarrow> apfst (map_sum id Wrote) (t_move tr oid p r)
      | Rename oid n \<Rightarrow> apfst (map_sum id Wrote) (t_rename tr oid n r))"

fun is_write_call :: "transport_call \<Rightarrow> bool" where
  "is_write_call (Move _ _) = True"
| "is_write_call (Rename _ _) = True"
| "is_write_call _ = False"

text \<open>What one call does to the state, and what holds when it is made.\<close>

definition called :: "'r exec_config \<Rightarrow> transport_call \<Rightarrow> 'r exec_state \<Rightarrow> 'r exec_state" where
  "called cfg c s =
     (let w = xs_world s; res = perform_call (xc_transport cfg) c (wd_remote w)
      in s\<lparr>xs_ctx := (xs_ctx s)\<lparr>cx_write_started := (is_write_call c \<or> cx_write_started (xs_ctx s)),
                              cx_transport_calls := cx_transport_calls (xs_ctx s) + 1,
                              cx_last_call_at := Some (wd_mono w)\<rparr>,
           xs_world := w\<lparr>wd_remote := snd res\<rparr>,
           xs_trace := xs_trace s @ [Called c (wd_mono w) (fst res)]\<rparr>)"

definition mono_env :: "'r exec_config \<Rightarrow> bool" where
  "mono_env cfg \<longleftrightarrow> (\<forall>n w. wd_mono w \<le> wd_mono (xc_env cfg n w))"

definition paced :: "'r exec_config \<Rightarrow> 'r exec_state \<Rightarrow> bool" where
  "paced cfg s \<longleftrightarrow>
     (case cx_last_call_at (xs_ctx s) of
        None \<Rightarrow> True
      | Some t \<Rightarrow> xc_min_interval cfg = 0 \<or> t + xc_min_interval cfg \<le> wd_mono (xs_world s))"

definition ready_to_call :: "'r exec_config \<Rightarrow> 'r exec_state \<Rightarrow> bool" where
  "ready_to_call cfg s \<longleftrightarrow>
     int (cx_transport_calls (xs_ctx s)) < xc_max_calls cfg
     \<and> \<not> (xc_cancel_event cfg \<and> wd_cancel (xs_world s))
     \<and> (\<exists>before. xs_trace s = before @ [Renewed (cx_lease (xs_ctx s))])
     \<and> (mono_env cfg \<longrightarrow> paced cfg s)"

definition next_lease :: "op_lease \<Rightarrow> op_lease \<Rightarrow> bool" where
  "next_lease l l' \<longleftrightarrow>
     lease_operation_id l' = lease_operation_id l \<and> lease_token l' = lease_token l
     \<and> lease_revision l' = lease_revision l + 1"

definition with_store :: "'r exec_state \<Rightarrow> store \<Rightarrow> 'r exec_state" where
  "with_store s st = s\<lparr>xs_world := (xs_world s)\<lparr>wd_store := st\<rparr>\<rparr>"

definition renewed :: "'r exec_state \<Rightarrow> op_lease \<Rightarrow> 'r exec_state" where
  "renewed s l = s\<lparr>xs_ctx := (xs_ctx s)\<lparr>cx_lease := l\<rparr>, xs_trace := xs_trace s @ [Renewed l]\<rparr>"

definition at_mono :: "'r exec_state \<Rightarrow> int \<Rightarrow> 'r exec_state" where
  "at_mono s n = s\<lparr>xs_world := (xs_world s)\<lparr>wd_mono := n\<rparr>\<rparr>"

lemma effect_simps [simp]:
  "xs_ctx (with_store s st) = xs_ctx s" "xs_trace (with_store s st) = xs_trace s"
  "wd_mono (xs_world (with_store s st)) = wd_mono (xs_world s)" "xs_store (with_store s st) = st"
  "xs_ctx (renewed s l) = (xs_ctx s)\<lparr>cx_lease := l\<rparr>" "xs_trace (renewed s l) = xs_trace s @ [Renewed l]"
  "xs_world (renewed s l) = xs_world s"
  "xs_ctx (at_mono s n) = xs_ctx s" "xs_trace (at_mono s n) = xs_trace s"
  "xs_store (at_mono s n) = xs_store s" "wd_mono (xs_world (at_mono s n)) = n"
  "wd_remote (xs_world (with_store s st)) = wd_remote (xs_world s)"
  "wd_remote (xs_world (at_mono s n)) = wd_remote (xs_world s)"
  "wd_cancel (xs_world (with_store s st)) = wd_cancel (xs_world s)"
  "wd_cancel (xs_world (at_mono s n)) = wd_cancel (xs_world s)"
  by (simp_all add: with_store_def renewed_def at_mono_def)

section \<open>Rules for service calls\<close>

lemma keeps_service_effect:
  assumes "\<And>clk n. commits_only (m clk n)"
    and "\<And>s st. I s \<Longrightarrow> db_reach (xs_store s) st \<Longrightarrow> I (with_store s st)"
  shows "keeps I (service_effect m)"
  unfolding keeps_def
proof (intro allI impI)
  fix s assume "I s"
  have "db_reach (xs_store s) (snd (m (wd_clock (xs_world s)) (xs_tick s) (xs_store s)))"
    using assms(1) by (simp add: commits_only_def)
  from assms(2)[OF \<open>I s\<close> this] show "I (snd (service_effect m s))"
    by (cases "m (wd_clock (xs_world s)) (xs_tick s) (xs_store s)")
      (simp add: service_effect_def with_store_def)
qed

lemma keeps_service:
  assumes "\<And>clk n. commits_only (m clk n)"
    and "\<And>s. I s \<Longrightarrow> I (snd (await cfg s))"
    and "\<And>s st. I s \<Longrightarrow> db_reach (xs_store s) st \<Longrightarrow> I (with_store s st)"
  shows "keeps I (service cfg m)"
  unfolding service_def
  by (intro keeps_intro keeps_service_effect assms) (simp_all add: keeps_def assms)

lemma keeps_with_lease:
  assumes "\<And>l clk n. commits_only (m l clk n)"
    and "\<And>s. I s \<Longrightarrow> I (snd (await cfg s))"
    and "\<And>s st. I s \<Longrightarrow> db_reach (xs_store s) st \<Longrightarrow> I (with_store s st)"
  shows "keeps I (with_lease cfg m)"
  unfolding with_lease_def by (intro keeps_intro keeps_service assms)

lemma await_ctx [simp]: "xs_ctx (snd (await cfg s)) = xs_ctx s"
  by (simp add: await_def Let_def)

lemma await_trace [simp]: "xs_trace (snd (await cfg s)) = xs_trace s"
  by (simp add: await_def Let_def)

lemma await_mono: "mono_env cfg \<Longrightarrow> wd_mono (xs_world s) \<le> wd_mono (xs_world (snd (await cfg s)))"
  by (simp add: await_def Let_def mono_env_def)

lemma keeps_await: "(\<And>s. I s \<Longrightarrow> I (snd (await cfg s))) \<Longrightarrow> keeps I (await cfg)"
  by (simp add: keeps_def)

lemma service_ctx: "keeps (\<lambda>s. xs_ctx s = c \<and> xs_trace s = tr) (service cfg m)"
proof -
  have "keeps (\<lambda>s. xs_ctx s = c \<and> xs_trace s = tr) (service_effect m)"
    by (simp add: keeps_def service_effect_def split: prod.split)
  then show ?thesis
    unfolding service_def by (intro keeps_intro keeps_await) simp_all
qed

lemma service_Inr:
  assumes "service cfg m s = (Inr x, s')"
  obtains s1 s2 where "s1 = snd (await cfg s)" "service_effect m s1 = (Inr x, s2)"
    "s' = snd (await cfg s2)"
  using assms by (auto simp: service_def sbind_def sret_def split: prod.splits sum.splits)

text \<open>A renewal that returns leaves the context with the next lease, just recorded.\<close>

lemma renewed_lease:
  fixes cfg :: "'r exec_config"
  assumes "with_lease cfg (\<lambda>l clk _. renew_lease clk (lease_operation_id l) (lease_revision l)
      (lease_token l) default_lease_duration (xc_now cfg)) s = (Inr l', s')"
  shows "next_lease (cx_lease (xs_ctx s)) l'" and "xs_ctx s' = xs_ctx s" and "xs_trace s' = xs_trace s"
proof -
  let ?m = "\<lambda>clk (_::nat). renew_lease clk (lease_operation_id (cx_lease (xs_ctx s)))
    (lease_revision (cx_lease (xs_ctx s))) (lease_token (cx_lease (xs_ctx s)))
    default_lease_duration (xc_now cfg)"
  from assms have srv: "service cfg ?m s = (Inr l', s')"
    by (simp add: with_lease_def sbind_def sget_def)
  then show "xs_ctx s' = xs_ctx s" "xs_trace s' = xs_trace s"
    using keepsD[OF service_ctx] by blast+
  from srv obtain s1 s2 :: "'r exec_state" where "service_effect ?m s1 = (Inr l', s2)"
    by (rule service_Inr) blast
  then obtain st where "?m (wd_clock (xs_world s1)) (xs_tick s1) (xs_store s1) = (Inr l', st)"
    by (auto simp: service_effect_def split: prod.splits sum.splits)
  from renew_Inr(2)[OF this] show "next_lease (cx_lease (xs_ctx s)) l'"
    by (simp add: next_lease_def)
qed

lemma renew_rule:
  fixes cfg :: "'r exec_config"
  assumes aw: "\<And>s. I s \<Longrightarrow> I (snd (await cfg s))"
    and sv: "\<And>s st. I s \<Longrightarrow> db_reach (xs_store s) st \<Longrightarrow> I (with_store s st)"
    and le: "\<And>s l. I s \<Longrightarrow> next_lease (cx_lease (xs_ctx s)) l \<Longrightarrow> I (renewed s l)"
  shows "triple I (renew cfg)
    (\<lambda>ok s. I s \<and> (ok \<longrightarrow> (\<exists>before. xs_trace s = before @ [Renewed (cx_lease (xs_ctx s))])))
    (\<lambda>_. I)"
proof -
  let ?m = "with_lease cfg (\<lambda>l clk _. renew_lease clk (lease_operation_id l) (lease_revision l)
    (lease_token l) default_lease_duration (xc_now cfg)) :: ('r, op_lease) exec"
  have "keeps I ?m" by (intro keeps_with_lease commits_renew aw sv)
  then have k: "I s \<Longrightarrow> ?m s = (out, s') \<Longrightarrow> I s'" for s out s' by (rule keepsD)
  show ?thesis
    unfolding triple_def
  proof (intro allI impI)
    fix s assume s: "I s"
    obtain out s' where m: "?m s = (out, s')" by fastforce
    note s' = k[OF s m]
    show "case renew cfg s of
        (Inl e, s') \<Rightarrow> I s'
      | (Inr ok, s') \<Rightarrow> I s' \<and> (ok \<longrightarrow> (\<exists>before. xs_trace s' = before @ [Renewed (cx_lease (xs_ctx s'))]))"
    proof (cases out)
      case (Inl e)
      with m s' show ?thesis
        by (simp add: renew_def scatch_def sbind_def sret_def sraise_def
            split: exec_exn.split op_error.split)
    next
      case (Inr l)
      note lease = renewed_lease[OF m[unfolded Inr]]
      from le[OF s'] lease have "I (renewed s' l)" by simp
      with m Inr show ?thesis
        by (simp add: renew_def scatch_def sbind_def sret_def modify_ctx_def emit_def renewed_def)
    qed
  qed
qed

lemma renew_keeps:
  assumes "\<And>s. I s \<Longrightarrow> I (snd (await cfg s))"
    and "\<And>s st. I s \<Longrightarrow> db_reach (xs_store s) st \<Longrightarrow> I (with_store s st)"
    and "\<And>s l. I s \<Longrightarrow> next_lease (cx_lease (xs_ctx s)) l \<Longrightarrow> I (renewed s l)"
  shows "keeps I (renew cfg)"
  by (rule triple_keeps[OF renew_rule[OF assms]]) auto

section \<open>Pacing\<close>

lemma sleep_rule:
  assumes aw: "\<And>s. I s \<Longrightarrow> I (snd (await cfg s))"
    and mo: "\<And>s n. I s \<Longrightarrow> wd_mono (xs_world s) \<le> n \<Longrightarrow> I (at_mono s n)"
  shows "triple (\<lambda>s. I s \<and> s = s0) (sleep cfg d)
    (\<lambda>_ s. I s \<and> xs_ctx s = xs_ctx s0 \<and> wd_mono (xs_world s0) + d \<le> wd_mono (xs_world s))
    (\<lambda>_. I)"
  unfolding triple_def
proof (intro allI impI, elim conjE)
  fix s assume "I s" "s = s0"
  from aw[OF \<open>I s\<close>] have 1: "I (snd (await cfg s))" .
  from mo[OF 1] have 2: "I (at_mono (snd (await cfg s)) (max (wd_mono (xs_world (snd (await cfg s)))) n))"
    for n by simp
  show "case sleep cfg d s of (Inl e, s') \<Rightarrow> I s'
    | (Inr x, s') \<Rightarrow> I s' \<and> xs_ctx s' = xs_ctx s0 \<and> wd_mono (xs_world s0) + d \<le> wd_mono (xs_world s')"
    using 1 2 await_ctx[of cfg s] \<open>s = s0\<close>
    by (cases "await cfg s"; cases "fst (await cfg s)")
      (simp_all add: sleep_def sbind_def sget_def at_mono_def)
qed

lemma pace_rule:
  assumes aw: "\<And>s. I s \<Longrightarrow> I (snd (await cfg s))"
    and mo: "\<And>s n. I s \<Longrightarrow> wd_mono (xs_world s) \<le> n \<Longrightarrow> I (at_mono s n)"
  shows "triple I (pace cfg) (\<lambda>_ s. I s \<and> paced cfg s) (\<lambda>_. I)"
proof -
  have *: "case sleep cfg d s of (Inl e, s') \<Rightarrow> I s'
    | (Inr x, s') \<Rightarrow> I s' \<and> xs_ctx s' = xs_ctx s \<and> wd_mono (xs_world s) + d \<le> wd_mono (xs_world s')"
    if "I s" for s d
  proof -
    have "triple (\<lambda>r. I r \<and> r = s) (sleep cfg d)
      (\<lambda>_ r. I r \<and> xs_ctx r = xs_ctx s \<and> wd_mono (xs_world s) + d \<le> wd_mono (xs_world r)) (\<lambda>_. I)"
      by (rule sleep_rule; fact aw mo)
    then show ?thesis using that by (simp add: triple_def)
  qed
  show ?thesis
    unfolding triple_def
  proof (intro allI impI)
    fix s assume "I s"
    show "case pace cfg s of (Inl e, s') \<Rightarrow> I s' | (Inr x, s') \<Rightarrow> I s' \<and> paced cfg s'"
    proof (cases "\<exists>t. cx_last_call_at (xs_ctx s) = Some t \<and> xc_min_interval cfg \<noteq> 0
        \<and> wd_mono (xs_world s) - t < xc_min_interval cfg")
      case True
      then obtain t where t: "cx_last_call_at (xs_ctx s) = Some t" "xc_min_interval cfg \<noteq> 0"
        "wd_mono (xs_world s) - t < xc_min_interval cfg" by blast
      then have "pace cfg s = sleep cfg (xc_min_interval cfg - (wd_mono (xs_world s) - t)) s"
        by (simp add: pace_def sbind_def sget_def)
      with *[OF \<open>I s\<close>, of "xc_min_interval cfg - (wd_mono (xs_world s) - t)"] t show ?thesis
        by (auto simp: paced_def split: prod.splits sum.splits)
    next
      case False
      with \<open>I s\<close> show ?thesis
        by (auto simp: pace_def sbind_def sget_def sret_def paced_def split: option.split)
    qed
  qed
qed

section \<open>Invariants of the executor\<close>

definition readable_member :: "(transport_call \<Rightarrow> bool) \<Rightarrow> exec_member \<Rightarrow> bool" where
  "readable_member allowed m \<longleftrightarrow>
     allowed (ReadObject (em_object_id m))
     \<and> allowed (ReadTarget (em_target_parent_id m) (em_target_name m))"

definition writable_member :: "(transport_call \<Rightarrow> bool) \<Rightarrow> exec_member \<Rightarrow> bool" where
  "writable_member allowed m \<longleftrightarrow>
     allowed (Move (em_object_id m) (em_target_parent_id m))
     \<and> allowed (Rename (em_object_id m) (em_target_name m))"

text \<open>
  The primitive effects of the executor: an invariant of these is an invariant of the
  whole.  The locale collects the obligations and lifts them through every operation;
  \<open>allowed\<close> restricts the calls the invariant admits, and the lifted lemmas ask for it of
  the members they work on.
\<close>

locale executor_invariant =
  fixes cfg :: "'r exec_config"
    and I :: "'r exec_state \<Rightarrow> bool"
    and allowed :: "transport_call \<Rightarrow> bool"
  assumes keep_await: "I s \<Longrightarrow> I (snd (await cfg s))"
    and keep_mono: "I s \<Longrightarrow> wd_mono (xs_world s) \<le> n \<Longrightarrow> I (at_mono s n)"
    and keep_store: "I s \<Longrightarrow> db_reach (xs_store s) st \<Longrightarrow> I (with_store s st)"
    and keep_lease: "I s \<Longrightarrow> next_lease (cx_lease (xs_ctx s)) l \<Longrightarrow> I (renewed s l)"
    and keep_progress: "I s \<Longrightarrow> I (s\<lparr>xs_ctx := (xs_ctx s)\<lparr>cx_completed_steps := Suc (cx_completed_steps (xs_ctx s))\<rparr>\<rparr>)"
    and keep_confirmed: "I s \<Longrightarrow> I (s\<lparr>xs_ctx := (xs_ctx s)\<lparr>cx_write_confirmed := True\<rparr>\<rparr>)"
    and keep_call: "I s \<Longrightarrow> ready_to_call cfg s \<Longrightarrow> allowed c \<Longrightarrow> I (called cfg c s)"
begin

lemma service_keeps: "(\<And>l clk n. commits_only (m l clk n)) \<Longrightarrow> keeps I (with_lease cfg m)"
  by (intro keeps_with_lease keep_await keep_store)

lemma renew_I [keeps_intro]: "keeps I (renew cfg)"
  by (intro renew_keeps keep_await keep_store keep_lease)

lemma check_cancel_I [keeps_intro]: "keeps I (check_cancel cfg)"
  by (simp add: keeps_def check_cancel_def)

lemma confirm_I [keeps_intro]: "keeps I (modify_ctx (\<lambda>c. c\<lparr>cx_write_confirmed := True\<rparr>))"
  by (simp add: keeps_def modify_ctx_def keep_confirmed)

lemma step_done_I [keeps_intro]: "keeps I step_done"
  unfolding step_done_def
  by (intro keeps_intro) (simp add: keeps_def modify_ctx_def keep_progress)

lemma result_of_I [keeps_intro]: "keeps I (result_of st err)"
  by (simp add: keeps_def result_of_def)

lemma lease_lost_I [keeps_intro]: "keeps I lease_lost"
  unfolding lease_lost_def by (rule result_of_I)

lemma persist_I [keeps_intro]: "keeps I (persist_lease_loss cfg)"
  unfolding persist_lease_loss_def by (intro keeps_intro service_keeps commits_lease_loss)

lemma handle_loss_I [keeps_intro]: "keeps I (handle_lease_loss cfg)"
  unfolding handle_lease_loss_def by (intro keeps_intro)

lemma finish_not_organized_I [keeps_intro]: "keeps I (finish_not_organized cfg st err)"
  unfolding finish_not_organized_def by (intro service_keeps commits_finish)

lemma finish_I [keeps_intro]: "keeps I (finish cfg st err)"
  unfolding finish_def by (intro keeps_intro)

lemma finish_organized_I [keeps_intro]: "keeps I (finish_organized cfg sd td dirs)"
  unfolding finish_organized_def organized_failure_def complete_call_def
  by (intro keeps_intro service_keeps commits_complete)

lemma early_I [keeps_intro]: "keeps I m \<Longrightarrow> keeps I (early m)"
  unfolding early_def by (intro keeps_intro)

text \<open>The call itself: after pacing and renewal, with the cancel event clear.\<close>

lemma call_body:
  assumes ok: "allowed c" "w = is_write_call c"
    and perform: "\<And>r. perform_call (xc_transport cfg) c r = apfst (map_sum id wrap) (meth r)"
  shows "triple (\<lambda>s. I s \<and> ready_to_call cfg s)
    (sbind (mark_call w) (\<lambda>_. sbind (transport_effect c wrap meth) (\<lambda>x.
       sbind (await cfg) (\<lambda>_. sret x)))) (\<lambda>_. I) (\<lambda>_. I)"
proof -
  have eff: "\<exists>out. sbind (mark_call w) (\<lambda>_. transport_effect c wrap meth) s = (out, called cfg c s)" for s
    by (cases "meth (wd_remote (xs_world s))")
      (simp add: sbind_def mark_call_def modify_ctx_def transport_effect_def called_def Let_def
        perform ok(2))
  have reassoc: "sbind (mark_call w) (\<lambda>_. sbind m k) = sbind (sbind (mark_call w) (\<lambda>_. m)) k"
    for m :: "('r, 'b) exec" and k :: "'b \<Rightarrow> ('r, 'b) exec"
    by (simp add: fun_eq_iff sbind_def mark_call_def modify_ctx_def split: prod.split sum.split)
  show ?thesis
    unfolding reassoc
  proof (rule triple_bind)
    show "triple (\<lambda>s. I s \<and> ready_to_call cfg s)
        (sbind (mark_call w) (\<lambda>_. transport_effect c wrap meth)) (\<lambda>_. I) (\<lambda>_. I)"
      unfolding triple_def
    proof (intro allI impI)
      fix s assume "I s \<and> ready_to_call cfg s"
      with keep_call ok(1) have "I (called cfg c s)" by blast
      with eff[of s] show "case sbind (mark_call w) (\<lambda>_. transport_effect c wrap meth) s of
          (Inl e, s') \<Rightarrow> I s' | (Inr x, s') \<Rightarrow> I s'"
        by (auto split: sum.split)
    qed
    show "triple I (sbind (await cfg) (\<lambda>_. sret x)) (\<lambda>_. I) (\<lambda>_. I)" for x
      unfolding keeps_triple[symmetric] by (intro keeps_intro keeps_await keep_await)
  qed
qed

lemma paced_kept:
  defines "K \<equiv> \<lambda>n s. I s \<and> cx_transport_calls (xs_ctx s) = n \<and> (mono_env cfg \<longrightarrow> paced cfg s)"
  shows "triple (\<lambda>s. I s \<and> cx_transport_calls (xs_ctx s) = n) (pace cfg) (\<lambda>_. K n) (\<lambda>_. I)"
    and "triple (K n) (renew cfg)
      (\<lambda>ok s. K n s \<and> (ok \<longrightarrow> (\<exists>before. xs_trace s = before @ [Renewed (cx_lease (xs_ctx s))])))
      (\<lambda>_. K n)"
proof -
  show "triple (\<lambda>s. I s \<and> cx_transport_calls (xs_ctx s) = n) (pace cfg) (\<lambda>_. K n) (\<lambda>_. I)"
    by (rule triple_conseq[OF pace_rule[where I = "\<lambda>s. I s \<and> cx_transport_calls (xs_ctx s) = n"]])
       (auto simp: K_def keep_await keep_mono)
  show "triple (K n) (renew cfg)
      (\<lambda>ok s. K n s \<and> (ok \<longrightarrow> (\<exists>before. xs_trace s = before @ [Renewed (cx_lease (xs_ctx s))])))
      (\<lambda>_. K n)"
  proof (rule renew_rule)
    fix s assume k: "K n s"
    show "K n (snd (await cfg s))"
      using k await_mono[of cfg s] by (auto simp: K_def keep_await paced_def split: option.splits)
    show "K n (with_store s st)" if "db_reach (xs_store s) st" for st
      using k keep_store[OF _ that] by (auto simp: K_def paced_def split: option.splits)
    show "K n (renewed s l)" if "next_lease (cx_lease (xs_ctx s)) l" for l
      using k keep_lease[OF _ that] by (auto simp: K_def paced_def split: option.splits)
  qed
qed

lemma check_cancel_rule:
  "triple P (check_cancel cfg)
     (\<lambda>_ s. P s \<and> \<not> (xc_cancel_event cfg \<and> wd_cancel (xs_world s))) (\<lambda>_. P)"
  by (auto simp: triple_def check_cancel_def)

lemma call_I:
  assumes "allowed c" "w = is_write_call c"
    and "\<And>r. perform_call (xc_transport cfg) c r = apfst (map_sum id wrap) (meth r)"
  shows "keeps I (call cfg w c wrap meth)"
  unfolding keeps_def
proof (intro allI impI)
  fix s assume s: "I s"
  let ?n = "cx_transport_calls (xs_ctx s)"
  let ?K = "\<lambda>s. I s \<and> cx_transport_calls (xs_ctx s) = ?n \<and> (mono_env cfg \<longrightarrow> paced cfg s)"
  let ?L = "\<lambda>s. ?K s \<and> (\<exists>before. xs_trace s = before @ [Renewed (cx_lease (xs_ctx s))])"
  let ?body = "sbind (mark_call w) (\<lambda>_. sbind (transport_effect c wrap meth) (\<lambda>x.
    sbind (await cfg) (\<lambda>_. sret x)))"
  show "I (snd (call cfg w c wrap meth s))"
  proof (cases "int ?n \<ge> xc_max_calls cfg")
    case True
    with s show ?thesis by (simp add: call_def sbind_def sget_def sraise_def)
  next
    case False
    have "triple ?L (sbind (check_cancel cfg) (\<lambda>_. ?body)) (\<lambda>_. I) (\<lambda>_. I)"
      using False assms
      by (intro triple_bind[OF triple_conseq[OF check_cancel_rule[of ?L]]]
          triple_conseq[OF call_body]) (auto simp: ready_to_call_def)
    then have "triple (\<lambda>s. ?K s \<and> (ok \<longrightarrow>
          (\<exists>before. xs_trace s = before @ [Renewed (cx_lease (xs_ctx s))])))
        (if \<not> ok then sraise LeaseLost else sbind (check_cancel cfg) (\<lambda>_. ?body)) (\<lambda>_. I) (\<lambda>_. I)" for ok
      by (cases ok) (simp_all add: triple_raise_iff)
    note triple_bind2[OF paced_kept(2)[of ?n] this]
    then have "triple ?K (sbind (renew cfg) (\<lambda>ok. if \<not> ok then sraise LeaseLost
        else sbind (check_cancel cfg) (\<lambda>_. ?body))) (\<lambda>_. I) (\<lambda>_. I)" by simp
    note triple_bind2[OF check_cancel_rule[of ?K] triple_conseq[OF this]]
    then have "triple ?K (sbind (check_cancel cfg) (\<lambda>_. sbind (renew cfg) (\<lambda>ok.
        if \<not> ok then sraise LeaseLost else sbind (check_cancel cfg) (\<lambda>_. ?body)))) (\<lambda>_. I) (\<lambda>_. I)"
      by simp
    note triple_bind2[OF paced_kept(1)[of ?n] this]
    then have "triple (\<lambda>s. I s \<and> cx_transport_calls (xs_ctx s) = ?n)
        (sbind (pace cfg) (\<lambda>_. sbind (check_cancel cfg) (\<lambda>_. sbind (renew cfg) (\<lambda>ok.
          if \<not> ok then sraise LeaseLost else sbind (check_cancel cfg) (\<lambda>_. ?body)))))
        (\<lambda>_. I) (\<lambda>_. I)" by simp
    from this[unfolded triple_def, rule_format, of s] s False show ?thesis
      by (auto simp: call_def sbind_def[of sget] sget_def split: prod.splits sum.splits)
  qed
qed

lemma read_object_I: "allowed (ReadObject oid) \<Longrightarrow> keeps I (read_object cfg oid)"
  unfolding read_object_def by (rule call_I) (simp_all add: perform_call_def)

lemma read_target_I: "allowed (ReadTarget p n) \<Longrightarrow> keeps I (read_target cfg p n)"
  unfolding read_target_def by (rule call_I) (simp_all add: perform_call_def)

lemma move_I: "allowed (Move oid p) \<Longrightarrow> keeps I (move cfg oid p)"
  unfolding move_def by (rule call_I) (simp_all add: perform_call_def)

lemma rename_I: "allowed (Rename oid n) \<Longrightarrow> keeps I (rename cfg oid n)"
  unfolding rename_def by (rule call_I) (simp_all add: perform_call_def)

lemma checked_renew_I [keeps_intro]: "keeps I k \<Longrightarrow> keeps I (checked_renew cfg k)"
  unfolding checked_renew_def by (intro keeps_intro)

lemma read_members_I:
  "\<forall>m \<in> set ms. readable_member allowed m \<Longrightarrow> keeps I (read_members cfg ms sources targets)"
proof (induction ms arbitrary: sources targets)
  case (Cons m ms)
  then show ?case
    by (auto simp: readable_member_def intro!: keeps_intro read_object_I read_target_I)
qed (simp add: keeps_intro)

lemma write_members_I: "\<forall>m \<in> set ms. writable_member allowed m \<Longrightarrow> keeps I (write_members cfg ms)"
proof (induction ms)
  case (Cons m ms)
  then show ?case
    by (auto simp: writable_member_def intro!: keeps_intro move_I rename_I)
qed (simp add: keeps_intro)

lemma verify_members_I:
  "\<forall>m \<in> set ms. readable_member allowed m \<Longrightarrow> keeps I (verify_members cfg ms observed)"
proof (induction ms arbitrary: observed)
  case (Cons m ms)
  then show ?case
    by (auto simp: readable_member_def intro!: keeps_intro read_object_I)
qed (simp add: keeps_intro)

lemma read_phase_I: "\<forall>m \<in> set ms. readable_member allowed m \<Longrightarrow> keeps I (read_phase cfg ms)"
  unfolding read_phase_def by (intro keeps_intro read_members_I)

lemma write_phase_I: "\<forall>m \<in> set ms. writable_member allowed m \<Longrightarrow> keeps I (write_phase cfg ms)"
  unfolding write_phase_def by (intro keeps_intro write_members_I)

lemma verify_phase_I: "\<forall>m \<in> set ms. readable_member allowed m \<Longrightarrow> keeps I (verify_phase cfg ms)"
  unfolding verify_phase_def by (intro keeps_intro verify_members_I)

lemma then_phase_I [keeps_intro]:
  "keeps I m \<Longrightarrow> (\<And>x. keeps I (k x)) \<Longrightarrow> keeps I (then_phase m k)"
  unfolding then_phase_def by (intro keeps_intro)

lemma after_verify_I [keeps_intro]: "keeps I (after_verify cfg g observed)"
  unfolding after_verify_def by (intro keeps_intro)

lemma after_read_I:
  "\<forall>m \<in> set (es_members st). readable_member allowed m \<and> writable_member allowed m
    \<Longrightarrow> keeps I (after_read cfg st g sources targets)"
  unfolding after_read_def by (intro keeps_intro write_phase_I verify_phase_I) auto

lemma run_step_I:
  "\<forall>m \<in> set (es_members st). readable_member allowed m \<and> writable_member allowed m \<Longrightarrow> keeps I (run_step cfg st)"
  unfolding run_step_def by (intro keeps_intro read_phase_I after_read_I) auto

lemma run_loop_I:
  "\<forall>st \<in> set sts. \<forall>m \<in> set (es_members st). readable_member allowed m \<and> writable_member allowed m
    \<Longrightarrow> keeps I (run_loop cfg sts)"
  by (induction sts) (auto intro!: keeps_intro run_step_I)

lemma run_steps_I:
  "\<forall>st \<in> set sts. \<forall>m \<in> set (es_members st). readable_member allowed m \<and> writable_member allowed m
    \<Longrightarrow> keeps I (run_steps cfg sts)"
  unfolding run_steps_def by (intro keeps_intro run_loop_I) auto

end

section \<open>Outcomes\<close>

text \<open>
  \<open>ends R E m\<close>: from any state \<open>m\<close> returns a value that satisfies \<open>R\<close> in the final state
  or raises an exception that satisfies \<open>E\<close>.
\<close>

definition ends ::
  "('a \<Rightarrow> 's \<Rightarrow> bool) \<Rightarrow> ('e \<Rightarrow> bool) \<Rightarrow> ('s, 'e, 'a) act \<Rightarrow> bool" where
  "ends R E m \<longleftrightarrow> triple (\<lambda>_. True) m R (\<lambda>e _. E e)"

named_theorems ends_intro \<open>composition of outcomes\<close>

lemma ends_Inr: "ends R E m \<Longrightarrow> m s = (Inr x, s') \<Longrightarrow> R x s'"
  unfolding ends_def by (erule triple_val) simp_all

lemma ends_Inl: "ends R E m \<Longrightarrow> m s = (Inl e, s') \<Longrightarrow> E e"
  unfolding ends_def by (erule triple_exn) simp_all

lemma ends_ret: "(\<And>s. R x s) \<Longrightarrow> ends R E (sret x)"
  by (simp add: ends_def triple_def sret_def)

lemma ends_raise [ends_intro]: "E e \<Longrightarrow> ends R E (sraise e)"
  by (simp add: ends_def triple_def sraise_def)

lemma ends_get: "ends (\<lambda>_ _. True) E sget"
  by (simp add: ends_def triple_def sget_def)

lemma ends_bind:
  assumes "ends S E m" and "\<And>x s. S x s \<Longrightarrow> ends R E (k x)"
  shows "ends R E (sbind m k)"
  using assms unfolding ends_def triple_def sbind_def
  by (fastforce split: prod.splits sum.splits)

lemma ends_bind_any [ends_intro]:
  "ends (\<lambda>_ _. True) E m \<Longrightarrow> (\<And>x. ends R E (k x)) \<Longrightarrow> ends R E (sbind m k)"
  by (rule ends_bind)

lemma ends_catch:
  assumes "ends R E' m" and "\<And>e. E' e \<Longrightarrow> ends R E (h e)"
  shows "ends R E (scatch m h)"
  using assms unfolding ends_def triple_def scatch_def
  by (fastforce split: prod.splits sum.splits)

lemma ends_if [ends_intro]:
  "(b \<Longrightarrow> ends R E m) \<Longrightarrow> (\<not> b \<Longrightarrow> ends R E n) \<Longrightarrow> ends R E (if b then m else n)"
  by simp

lemma ends_weaken: "ends R' E' m \<Longrightarrow> (\<And>x s. R' x s \<Longrightarrow> R x s) \<Longrightarrow> (\<And>e. E' e \<Longrightarrow> E e) \<Longrightarrow> ends R E m"
  unfolding ends_def by (erule triple_conseq) simp_all

section \<open>The entry point\<close>

text \<open>
  \<open>execute\<close> reads the operation and the plan, installs a fresh context and runs the steps; a
  cancellation during the run is recorded and raised again.  The rule splits a triple
  accordingly.
\<close>

definition loaded :: "'r exec_config \<Rightarrow> exec_step list \<Rightarrow> bool" where
  "loaded cfg sts \<longleftrightarrow> (\<exists>st clk pid. xc_loader cfg st clk pid = Some sts)"

lemma get_operation_frame: "snd (get_operation oid st) = st"
  by (simp add: get_operation_def read_summary_def monad_defs validate_identifier_def
      split: option.split)

lemma service_pure_rule:
  fixes cfg :: "'r exec_config"
  assumes aw: "\<And>s. J s \<Longrightarrow> J (snd (await cfg s))"
    and pure: "\<And>clk n st. snd (m clk n st) = st"
    and val: "\<And>clk n st x. fst (m clk n st) = Inr x \<Longrightarrow> V x"
  shows "triple J (service cfg m) (\<lambda>x s. J s \<and> V x) (\<lambda>_. J)"
proof -
  have a: "triple J (await cfg) (\<lambda>_. J) (\<lambda>_. J)"
    unfolding keeps_triple[symmetric] by (rule keeps_await[where I = J]) (rule aw)
  have e: "triple J (service_effect m) (\<lambda>x s. J s \<and> V x) (\<lambda>_. J)"
    unfolding triple_def
  proof (intro allI impI)
    fix s assume "J s"
    let ?o = "m (wd_clock (xs_world s)) (xs_tick s) (xs_store s)"
    have "?o = (fst ?o, xs_store s)" using pure by (metis prod.collapse)
    then show "case service_effect m s of (Inl e, s') \<Rightarrow> J s' | (Inr x, s') \<Rightarrow> J s' \<and> V x"
      using \<open>J s\<close> val[of "wd_clock (xs_world s)" "xs_tick s" "xs_store s"]
      by (cases "fst ?o") (auto simp: service_effect_def split: prod.splits)
  qed
  have r: "triple J (sbind (await cfg) (\<lambda>_. sret x)) (\<lambda>x s. J s \<and> V x) (\<lambda>_. J)" if "V x" for x
    by (rule triple_bind[OF a]) (simp add: triple_def sret_def that)
  have "triple (\<lambda>s. J s \<and> V x) (sbind (await cfg) (\<lambda>_. sret x)) (\<lambda>x s. J s \<and> V x) (\<lambda>_. J)" for x
    using r[of x] by (cases "V x") (simp_all add: triple_def)
  from triple_bind[OF a triple_bind[OF e this]] show ?thesis
    unfolding service_def .
qed

lemma ends_await: "E TaskCancelled \<Longrightarrow> ends (\<lambda>_ _. True) E (await cfg)"
  by (simp add: ends_def triple_def await_def Let_def)

lemma service_ends:
  assumes "\<And>clk n st x. fst (m clk n st) = Inl x \<Longrightarrow> X x"
  shows "ends (\<lambda>_ _. True) (\<lambda>e. (\<exists>x. e = ServiceExn x \<and> X x) \<or> e = TaskCancelled) (service cfg m)"
proof -
  have "ends (\<lambda>_ _. True) (\<lambda>e. (\<exists>x. e = ServiceExn x \<and> X x) \<or> e = TaskCancelled) (service_effect m)"
    unfolding ends_def triple_def
  proof (intro allI impI)
    fix s
    show "case service_effect m s of
        (Inl e, s') \<Rightarrow> (\<exists>x. e = ServiceExn x \<and> X x) \<or> e = TaskCancelled | (Inr x, s') \<Rightarrow> True"
      using assms[of "wd_clock (xs_world s)" "xs_tick s" "xs_store s"]
      by (cases "m (wd_clock (xs_world s)) (xs_tick s) (xs_store s)")
        (auto simp: service_effect_def split: sum.splits)
  qed
  then show ?thesis
    unfolding service_def by (intro ends_bind_any ends_await ends_ret) simp_all
qed

text \<open>What reading the operation can raise.\<close>

definition lookup_error :: "op_error \<Rightarrow> bool" where
  "lookup_error x \<longleftrightarrow> x = NotFound \<or> (\<exists>c. x = ValueErr c) \<or> (\<exists>c. x = StateError c)"

lemma get_operation_error: "fst (get_operation oid st) = Inl x \<Longrightarrow> lookup_error x"
  by (auto simp: get_operation_def read_summary_def monad_defs validate_identifier_def
      lookup_error_def split: option.splits if_splits)

lemma service_exit_rule:
  fixes cfg :: "'r exec_config"
  assumes "\<And>s. J s \<Longrightarrow> J (snd (await cfg s))"
    and "\<And>clk n st. snd (m clk n st) = st"
    and "\<And>clk n st x. fst (m clk n st) = Inr x \<Longrightarrow> V x"
    and err: "\<And>clk n st x. fst (m clk n st) = Inl x \<Longrightarrow> lookup_error x"
    and exit: "\<And>e s. J s \<Longrightarrow> (\<exists>x. e = ServiceExn x \<and> lookup_error x) \<or> e = TaskCancelled \<Longrightarrow> E e s"
  shows "triple J (service cfg m) (\<lambda>x s. J s \<and> V x) E"
proof (rule tripleI)
  have rule: "triple J (service cfg m) (\<lambda>x s. J s \<and> V x) (\<lambda>_. J)"
    by (rule service_pure_rule; fact assms)
  fix s assume "J s"
  show "E e s'" if "service cfg m s = (Inl e, s')" for e s'
    using exit[OF triple_exn[OF rule \<open>J s\<close> that] ends_Inl[OF service_ends[OF err] that]] .
  show "J s' \<and> V x" if "service cfg m s = (Inr x, s')" for x s'
    using triple_val[OF rule \<open>J s\<close> that] .
qed

lemma execute_rule:
  fixes cfg :: "'r exec_config"
  assumes aw: "\<And>s. J s \<Longrightarrow> J (snd (await cfg s))"
    and early_exit: "\<And>e s. J s \<Longrightarrow> (\<exists>x. e = ServiceExn x \<and> lookup_error x) \<or> e = TaskCancelled
      \<Longrightarrow> E e s"
    and start: "\<And>s. J s \<Longrightarrow> K (s\<lparr>xs_ctx := fresh_context cfg oid rv token\<rparr>)"
    and refused: "triple K (finish cfg EXEC_FAILED ''plan_prerequisites_changed'') Q E"
    and run: "\<And>sts. loaded cfg sts \<Longrightarrow> triple K (run_steps cfg sts) Q E'"
    and raised: "\<And>e s. E' e s \<Longrightarrow> e \<noteq> TaskCancelled \<Longrightarrow> E e s"
    and cancelled: "triple (E' TaskCancelled) (finish cfg EXEC_UNCERTAIN ''cancelled'')
      (\<lambda>_. E TaskCancelled) E"
  shows "triple J (execute cfg oid rv token) Q E"
proof -
  have started: "triple J (modify_ctx (\<lambda>_. fresh_context cfg oid rv token)) (\<lambda>_. K) E"
    using start by (simp add: triple_def modify_ctx_def)
  have whole: "triple K (scatch (run_steps cfg sts) (\<lambda>e. case e of
      TaskCancelled \<Rightarrow> sbind (finish cfg EXEC_UNCERTAIN ''cancelled'') (\<lambda>_. sraise TaskCancelled)
    | _ \<Rightarrow> sraise e)) Q E" if "loaded cfg sts" for sts
  proof (rule triple_catch[OF run[OF that]])
    fix e
    show "triple (E' e) (case e of
        TaskCancelled \<Rightarrow> sbind (finish cfg EXEC_UNCERTAIN ''cancelled'') (\<lambda>_. sraise TaskCancelled)
      | _ \<Rightarrow> sraise e) Q E"
      using raised by (cases e) (auto simp: triple_raise_iff intro: triple_bind[OF cancelled])
  qed
  have after: "triple (\<lambda>s. J s \<and> (steps = None \<or> (\<exists>sts. steps = Some sts \<and> loaded cfg sts)))
      (sbind (modify_ctx (\<lambda>_. fresh_context cfg oid rv token)) (\<lambda>_.
       case steps of
         None \<Rightarrow> finish cfg EXEC_FAILED ''plan_prerequisites_changed''
       | Some sts \<Rightarrow> scatch (run_steps cfg sts) (\<lambda>e. case e of
           TaskCancelled \<Rightarrow> sbind (finish cfg EXEC_UNCERTAIN ''cancelled'') (\<lambda>_. sraise TaskCancelled)
         | _ \<Rightarrow> sraise e))) Q E" (is "triple _ (?body steps) Q E") for steps
  proof (cases "steps = None \<or> (\<exists>sts. steps = Some sts \<and> loaded cfg sts)")
    case True
    then have "triple J (?body steps) Q E"
      using refused whole by (intro triple_bind[OF started]) auto
    with True show ?thesis by simp
  qed (auto simp: triple_def)
  have load: "triple J (load_steps cfg pid)
      (\<lambda>steps s. J s \<and> (steps = None \<or> (\<exists>sts. steps = Some sts \<and> loaded cfg sts))) E" for pid
    unfolding load_steps_def
    by (rule service_exit_rule[where J = J]) (auto simp: loaded_def aw early_exit, metis not_None_eq)
  have "triple J (service cfg (\<lambda>_ _. get_operation oid)) (\<lambda>x s. J s \<and> True) E"
    by (rule service_exit_rule[where J = J]) (auto simp: get_operation_frame aw early_exit get_operation_error)
  then show ?thesis
    unfolding execute_def
  proof (rule triple_bind)
    fix sm
    show "triple (\<lambda>s. J s \<and> True)
      (if sm_status sm \<noteq> OP_ORGANIZING \<or> sm_revision sm \<noteq> rv
       then sraise (ServiceExn (StateError ''operation_is_not_claimed''))
       else sbind (load_steps cfg (sm_plan_id sm)) ?body) Q E"
      using triple_bind[OF load after] early_exit by (simp add: triple_raise_iff lookup_error_def)
  qed
qed

context executor_invariant
begin

lemma triple_I: "keeps I m \<Longrightarrow> (\<And>x s. I s \<Longrightarrow> Q x s) \<Longrightarrow> (\<And>e s. I s \<Longrightarrow> E e s) \<Longrightarrow> triple I m Q E"
  unfolding keeps_triple by (erule triple_conseq) auto

text \<open>The invariant from the start: \<open>J\<close> is what holds before the run has begun.\<close>

lemma execute_I:
  assumes aw: "\<And>s. J s \<Longrightarrow> J (snd (await cfg s))"
    and start: "\<And>s. J s \<Longrightarrow> I (s\<lparr>xs_ctx := fresh_context cfg oid rv token\<rparr>)"
    and members: "\<And>sts st m. loaded cfg sts \<Longrightarrow> st \<in> set sts \<Longrightarrow> m \<in> set (es_members st)
      \<Longrightarrow> readable_member allowed m \<and> writable_member allowed m"
  shows "triple J (execute cfg oid rv token) (\<lambda>_. I) (\<lambda>_ s. J s \<or> I s)"
proof (rule execute_rule)
  show "J s \<Longrightarrow> J (snd (await cfg s))" for s by (rule aw)
  show "J s \<Longrightarrow> I (s\<lparr>xs_ctx := fresh_context cfg oid rv token\<rparr>)" for s by (rule start)
  show "triple I (run_steps cfg sts) (\<lambda>_. I) (\<lambda>_. I)" if "loaded cfg sts" for sts
    using members[OF that] by (intro triple_I run_steps_I) auto
qed (auto intro: triple_I finish_I)

lemma execute_end:
  assumes "\<And>s. J s \<Longrightarrow> J (snd (await cfg s))"
    and "\<And>s. J s \<Longrightarrow> I (s\<lparr>xs_ctx := fresh_context cfg oid rv token\<rparr>)"
    and "\<And>sts st m. loaded cfg sts \<Longrightarrow> st \<in> set sts \<Longrightarrow> m \<in> set (es_members st)
      \<Longrightarrow> readable_member allowed m \<and> writable_member allowed m"
    and "J s" and "execute cfg oid rv token s = (out, s')"
  shows "J s' \<or> I s'" and "\<forall>r. out = Inr r \<longrightarrow> I s'"
proof -
  have "triple J (execute cfg oid rv token) (\<lambda>_. I) (\<lambda>_ s. J s \<or> I s)"
    by (rule execute_I; fact assms)
  with assms(4,5) show "J s' \<or> I s'" "\<forall>r. out = Inr r \<longrightarrow> I s'"
    by (cases out; force simp: triple_def)+
qed

end

end
