(* ===== verification/Offline_Transport.thy ===== *)
theory Offline_Transport
  imports Transport Companion_Group "HOL-Library.AList"
begin

text \<open>
  \<^verbatim>\<open>adapters/p115_organization_transport.py\<close>: the in-memory transport with a frozen
  plan scope.  It refuses every call outside the scope, moves and renames only between the
  planned source and target, and reports anything unexpected as uncertain.  It is an
  instance of \<open>scoped_transport\<close>.
\<close>

datatype transport_method = METHOD_READ_OBJECT | METHOD_READ_TARGET | METHOD_MOVE | METHOD_RENAME

text \<open>\<open>P115OrganizationTransportError\<close> with its code, or an injected exception raised as it is.\<close>

datatype transport_error = TransportError string | Reraised base_exception

record object_intent =
  oi_object_id :: pystr
  oi_source_parent_id :: pystr
  oi_source_name :: pystr
  oi_target_parent_id :: pystr
  oi_target_name :: pystr

definition stable_id :: "unicode \<Rightarrow> pystr \<Rightarrow> bool" where
  "stable_id u s = (py_isdigit u s \<and> take 1 s \<noteq> lit ''0'')"

definition transport_safe_name :: "pystr \<Rightarrow> bool" where
  "transport_safe_name s =
     (s \<noteq> [] \<and> length s \<le> 255 \<and> 0 \<notin> set s \<and> 47 \<notin> set s \<and> 92 \<notin> set s
      \<and> s \<notin> {lit ''.'', lit ''..''})"

definition object_intent_ok :: "unicode \<Rightarrow> object_intent \<Rightarrow> bool" where
  "object_intent_ok u i =
     (list_all (stable_id u) [oi_object_id i, oi_source_parent_id i, oi_target_parent_id i]
      \<and> transport_safe_name (oi_source_name i) \<and> transport_safe_name (oi_target_name i))"

text \<open>An injected outcome: any Python value, as far as the transport tells values apart.\<close>

datatype outcome =
    OutState remote_state
  | OutResult transport_result
  | OutExn base_exception
  | OutNone
  | OutOther

record offline =
  of_intents :: "(pystr \<times> object_intent) list"
  of_targets :: "(pystr \<times> pystr) list"
  of_managed :: "pystr list"
  of_scope_confirmed :: bool
  of_states :: "(pystr \<times> remote_state) list"
  of_outcomes :: "((transport_method \<times> pystr) \<times> outcome) list"
  of_calls :: "transport_method list"

text \<open>The constructor; \<open>None\<close> is its \<open>ValueError\<close>.\<close>

definition make_offline ::
  "unicode \<Rightarrow> object_intent list \<Rightarrow> pystr list \<Rightarrow> bool \<Rightarrow> (pystr \<times> remote_state) list
    \<Rightarrow> ((transport_method \<times> pystr) \<times> outcome) list \<Rightarrow> offline option" where
  "make_offline u intents managed scope_confirmed states outcomes =
     (let targets = map (\<lambda>i. (oi_target_parent_id i, oi_target_name i)) intents
      in if intents = [] \<or> \<not> distinct (map oi_object_id intents) then None
         else if managed = [] \<or> \<not> list_all (stable_id u) managed then None
         else if list_ex (\<lambda>i. oi_source_parent_id i \<notin> set managed
                          \<or> oi_target_parent_id i \<notin> set managed) intents then None
         else if \<not> distinct targets then None
         else if list_ex (\<lambda>(key, st). key \<noteq> rs_object_id st \<or> \<not> stable_id u key) states then None
         else Some \<lparr>of_intents = map (\<lambda>i. (oi_object_id i, i)) intents, of_targets = targets,
                    of_managed = managed, of_scope_confirmed = scope_confirmed,
                    of_states = states, of_outcomes = outcomes, of_calls = []\<rparr>)"

type_synonym 'a offline_act = "(offline, transport_error, 'a) act"

definition require_scope :: "unit offline_act" where
  "require_scope t =
     (if of_scope_confirmed t then (Inr (), t) else (Inl (TransportError ''scope_unverified''), t))"

definition find_intent :: "unicode \<Rightarrow> pystr \<Rightarrow> object_intent offline_act" where
  "find_intent u object_id =
     sbind require_scope (\<lambda>_ t.
       case map_of (of_intents t) object_id of
         Some i \<Rightarrow> if stable_id u object_id then (Inr i, t)
                   else (Inl (TransportError ''scope_unverified''), t)
       | None \<Rightarrow> (Inl (TransportError ''scope_unverified''), t))"

definition record_call :: "transport_method \<Rightarrow> unit offline_act" where
  "record_call m t = (Inr (), t\<lparr>of_calls := of_calls t @ [m]\<rparr>)"

text \<open>\<open>_injected\<close>: \<open>None\<close> is the missing marker.\<close>

definition injected :: "transport_method \<Rightarrow> pystr \<Rightarrow> outcome option offline_act" where
  "injected m identity t =
     (case map_of (of_outcomes t) (m, identity) of
        None \<Rightarrow> (Inr None, t)
      | Some (OutExn CancelledError) \<Rightarrow> (Inl (Reraised CancelledError), t)
      | Some (OutExn TimeoutExn) \<Rightarrow> (Inl (Reraised TimeoutExn), t)
      | Some (OutExn OtherExn) \<Rightarrow> (Inl (TransportError ''outcome_unknown''), t)
      | Some out \<Rightarrow> (Inr (Some out), t))"

definition intent_observation :: "pystr list \<Rightarrow> object_intent \<Rightarrow> remote_state \<Rightarrow> bool" where
  "intent_observation managed i st =
     (rs_object_id st = oi_object_id i
      \<and> rs_parent_id st \<in> {oi_source_parent_id i, oi_target_parent_id i}
      \<and> rs_parent_id st \<in> set managed
      \<and> rs_name st \<in> {oi_source_name i, oi_target_name i})"

definition offline_read_object :: "unicode \<Rightarrow> pystr \<Rightarrow> remote_state option offline_act" where
  "offline_read_object u object_id =
     sbind (find_intent u object_id) (\<lambda>i.
     sbind (record_call METHOD_READ_OBJECT) (\<lambda>_.
     sbind (injected METHOD_READ_OBJECT object_id) (\<lambda>inj t.
       case (case inj of
               None \<Rightarrow> (case map_of (of_states t) (oi_object_id i) of
                          None \<Rightarrow> OutNone | Some st \<Rightarrow> OutState st)
             | Some out \<Rightarrow> out) of
         OutNone \<Rightarrow> (Inr None, t)
       | OutState st \<Rightarrow>
           if intent_observation (of_managed t) i st then (Inr (Some st), t)
           else (Inl (TransportError ''observation_unverified''), t)
       | _ \<Rightarrow> (Inl (TransportError ''observation_unverified''), t))))"

definition offline_read_target ::
  "pystr \<Rightarrow> pystr \<Rightarrow> remote_state option offline_act" where
  "offline_read_target parent_id name =
     sbind require_scope (\<lambda>_.
     sbind sget (\<lambda>t.
     if (parent_id, name) \<notin> set (of_targets t)
       then sraise (TransportError ''scope_unverified'')
     else
       sbind (record_call METHOD_READ_TARGET) (\<lambda>_.
       sbind (injected METHOD_READ_TARGET parent_id) (\<lambda>inj t.
         let matches = (case inj of
               None \<Rightarrow> map OutState (filter (\<lambda>st. rs_parent_id st = parent_id \<and> rs_name st = name)
                           (map snd (of_states t)))
             | Some OutNone \<Rightarrow> []
             | Some out \<Rightarrow> [out]);
             bad = (\<lambda>out. case out of
                 OutState st \<Rightarrow> rs_parent_id st \<noteq> parent_id \<or> rs_name st \<noteq> name
                               \<or> rs_parent_id st \<notin> set (of_managed t)
               | _ \<Rightarrow> True)
         in if length matches > 1 \<or> list_ex bad matches
            then (Inl (TransportError ''observation_unverified''), t)
            else (case matches of
                    OutState st # _ \<Rightarrow> (Inr (Some st), t)
                  | _ \<Rightarrow> (Inr None, t))))))"

definition transport_success :: "transport_operation \<Rightarrow> transport_result" where
  "transport_success op =
     \<lparr>tr_operation = op, tr_status = TRANSPORT_SUCCESS, tr_error_code = None\<rparr>"

definition transport_uncertain :: "transport_operation \<Rightarrow> string \<Rightarrow> transport_result" where
  "transport_uncertain op code =
     \<lparr>tr_operation = op, tr_status = TRANSPORT_UNCERTAIN, tr_error_code = Some code\<rparr>"

definition write_outcome ::
  "transport_method \<Rightarrow> transport_operation \<Rightarrow> pystr \<Rightarrow> transport_result option offline_act" where
  "write_outcome m op object_id =
     sbind (injected m object_id) (\<lambda>inj.
       sret (case inj of
           None \<Rightarrow> None
         | Some (OutResult res) \<Rightarrow>
             if tr_operation res \<noteq> op then Some (transport_uncertain op ''outcome_unknown'')
             else (case tr_status res of
                 TRANSPORT_SUCCESS \<Rightarrow> Some (transport_success op)
               | TRANSPORT_FAILED \<Rightarrow> Some \<lparr>tr_operation = op, tr_status = TRANSPORT_FAILED,
                                           tr_error_code = Some ''remote_failed''\<rparr>
               | TRANSPORT_UNCERTAIN \<Rightarrow>
                   Some (transport_uncertain op
                     (if tr_error_code res = Some ''timeout'' then ''timeout''
                      else ''outcome_unknown'')))
         | Some _ \<Rightarrow> Some (transport_uncertain op ''outcome_unknown'')))"

definition offline_move :: "unicode \<Rightarrow> pystr \<Rightarrow> pystr \<Rightarrow> transport_result offline_act" where
  "offline_move u object_id target_parent =
     sbind (find_intent u object_id) (\<lambda>i.
     if target_parent \<noteq> oi_target_parent_id i then sraise (TransportError ''scope_unverified'')
     else
       sbind (record_call METHOD_MOVE) (\<lambda>_.
       sbind (write_outcome METHOD_MOVE TRANSPORT_MOVE object_id) (\<lambda>out t.
         case out of
           Some res \<Rightarrow> (Inr res, t)
         | None \<Rightarrow>
            (case map_of (of_states t) object_id of
               None \<Rightarrow> (Inr (transport_uncertain TRANSPORT_MOVE ''outcome_unknown''), t)
             | Some st \<Rightarrow>
                 if \<not> intent_observation (of_managed t) i st
                    \<or> rs_parent_id st \<noteq> oi_source_parent_id i
                 then (Inr (transport_uncertain TRANSPORT_MOVE ''outcome_unknown''), t)
                 else (Inr (transport_success TRANSPORT_MOVE),
                       t\<lparr>of_states := AList.update object_id
                           \<lparr>rs_object_id = object_id, rs_parent_id = oi_target_parent_id i,
                            rs_name = rs_name st\<rparr> (of_states t)\<rparr>)))))"

definition offline_rename :: "unicode \<Rightarrow> pystr \<Rightarrow> pystr \<Rightarrow> transport_result offline_act" where
  "offline_rename u object_id target_name =
     sbind (find_intent u object_id) (\<lambda>i.
     if target_name \<noteq> oi_target_name i then sraise (TransportError ''scope_unverified'')
     else
       sbind (record_call METHOD_RENAME) (\<lambda>_.
       sbind (write_outcome METHOD_RENAME TRANSPORT_RENAME object_id) (\<lambda>out t.
         case out of
           Some res \<Rightarrow> (Inr res, t)
         | None \<Rightarrow>
            (case map_of (of_states t) object_id of
               None \<Rightarrow> (Inr (transport_uncertain TRANSPORT_RENAME ''outcome_unknown''), t)
             | Some st \<Rightarrow>
                 if \<not> intent_observation (of_managed t) i st
                    \<or> rs_parent_id st \<noteq> oi_target_parent_id i
                 then (Inr (transport_uncertain TRANSPORT_RENAME ''outcome_unknown''), t)
                 else (Inr (transport_success TRANSPORT_RENAME),
                       t\<lparr>of_states := AList.update object_id
                           \<lparr>rs_object_id = object_id, rs_parent_id = rs_parent_id st,
                            rs_name = oi_target_name i\<rparr> (of_states t)\<rparr>)))))"

text \<open>The transport as the executor sees it: its own error class is one more exception.\<close>

fun seam_exception :: "transport_error \<Rightarrow> base_exception" where
  "seam_exception (TransportError _) = OtherExn"
| "seam_exception (Reraised e) = e"

definition at_seam :: "('s, transport_error, 'a) act \<Rightarrow> 's \<Rightarrow> (base_exception + 'a) \<times> 's" where
  "at_seam m t = (case m t of (Inl e, t') \<Rightarrow> (Inl (seam_exception e), t') | (Inr x, t') \<Rightarrow> (Inr x, t'))"

definition offline_transport :: "unicode \<Rightarrow> offline transport" where
  "offline_transport u =
     \<lparr>t_read_object = (\<lambda>oid. at_seam (offline_read_object u oid)),
      t_read_target = (\<lambda>p n. at_seam (offline_read_target p n)),
      t_move = (\<lambda>oid p. at_seam (offline_move u oid p)),
      t_rename = (\<lambda>oid n. at_seam (offline_rename u oid n))\<rparr>"

section \<open>Lemmas\<close>

lemmas offline_defs = find_intent_def require_scope_def record_call_def injected_def
  write_outcome_def monad_defs

lemmas offline_splits = option.splits sum.splits prod.splits if_splits outcome.splits
  base_exception.splits transport_status.splits list.splits

lemma at_seam_snd [simp]: "snd (at_seam m t) = snd (m t)"
  by (simp add: at_seam_def split: prod.splits sum.splits)

lemma injected_state: "snd (injected m k t) = t"
  by (simp add: injected_def split: option.split outcome.split base_exception.split)

lemma write_outcome_state: "snd (write_outcome m op k t) = t"
  using injected_state[of m k t]
  by (cases "injected m k t"; cases "fst (injected m k t)")
    (simp_all add: write_outcome_def sbind_def sret_def)

lemma find_intent_state: "snd (find_intent u oid t) = t"
  by (simp add: find_intent_def require_scope_def monad_defs split: option.split)

lemma find_intent_Inr:
  "find_intent u oid t = (Inr i, t') \<Longrightarrow>
     t' = t \<and> map_of (of_intents t) oid = Some i \<and> of_scope_confirmed t \<and> stable_id u oid"
  by (simp add: find_intent_def require_scope_def monad_defs split: option.splits if_splits)

lemma record_call_simp [simp]:
  "sbind (record_call m) k t = k () (t\<lparr>of_calls := of_calls t @ [m]\<rparr>)"
  by (simp add: record_call_def sbind_def)

lemma sbind_keeps:
  assumes "snd (m t) = t" and "\<And>x. of_states (snd (k x t)) = of_states t"
  shows "of_states (snd (sbind m k t)) = of_states t"
  using assms by (cases "m t") (auto simp: sbind_def split: sum.split)

lemma read_object_state:
  "of_states (snd (offline_read_object u oid t)) = of_states t"
proof -
  have "of_states (snd (sbind (injected m k) (\<lambda>inj t. case (f inj t) of
          OutNone \<Rightarrow> (Inr None, t)
        | OutState st \<Rightarrow> if g st t then (Inr (Some st), t) else (Inl e, t)
        | _ \<Rightarrow> (Inl e, t)) r)) = of_states r" for m k f g e and r :: offline
    by (rule sbind_keeps) (simp_all add: injected_state split: outcome.split)
  then show ?thesis
    unfolding offline_read_object_def
    by (intro sbind_keeps[of "find_intent u oid"]) (simp_all add: find_intent_state)
qed

lemma read_target_state:
  "of_states (snd (offline_read_target p n t)) = of_states t"
proof -
  have keep: "of_states (snd (sbind (injected m k) (\<lambda>inj t.
          if b inj t then (Inl e, t)
          else (case f inj t of OutState st # _ \<Rightarrow> (Inr (Some st), t) | _ \<Rightarrow> (Inr None, t))) r))
        = of_states r" for m k b f e and r :: offline
    by (rule sbind_keeps) (simp_all add: injected_state split: list.split outcome.split)
  show ?thesis
    unfolding offline_read_target_def Let_def
    apply (rule sbind_keeps)
     apply (simp add: require_scope_def)
    apply (rule sbind_keeps)
     apply (simp add: sget_def)
    apply (simp add: sraise_def keep)
    done
qed

text \<open>A write leaves the states alone or does exactly what the plan's intent says.\<close>

definition write_body ::
  "transport_operation \<Rightarrow> (offline \<Rightarrow> remote_state \<Rightarrow> bool) \<Rightarrow> (remote_state \<Rightarrow> remote_state) \<Rightarrow> pystr
    \<Rightarrow> transport_result option \<Rightarrow> transport_result offline_act" where
  "write_body op ok f oid out t =
     (case out of
        Some res \<Rightarrow> (Inr res, t)
      | None \<Rightarrow>
         (case map_of (of_states t) oid of
            None \<Rightarrow> (Inr (transport_uncertain op ''outcome_unknown''), t)
          | Some st \<Rightarrow>
              if \<not> ok t st then (Inr (transport_uncertain op ''outcome_unknown''), t)
              else (Inr (transport_success op),
                    t\<lparr>of_states := AList.update oid (f st) (of_states t)\<rparr>)))"

lemma write_body_states:
  "of_states (snd (sbind (write_outcome m op oid) (write_body op ok f oid) t)) = of_states t
   \<or> (\<exists>st. map_of (of_states t) oid = Some st \<and> ok t st
        \<and> of_states (snd (sbind (write_outcome m op oid) (write_body op ok f oid) t))
          = AList.update oid (f st) (of_states t))"
  using write_outcome_state[of m op oid t]
  by (cases "write_outcome m op oid t")
    (auto simp: sbind_def write_body_def split: sum.split option.split)

lemma offline_move_body:
  "offline_move u oid p = sbind (find_intent u oid) (\<lambda>i.
     if p \<noteq> oi_target_parent_id i then sraise (TransportError ''scope_unverified'')
     else sbind (record_call METHOD_MOVE) (\<lambda>_.
       sbind (write_outcome METHOD_MOVE TRANSPORT_MOVE oid)
         (write_body TRANSPORT_MOVE
            (\<lambda>t st. intent_observation (of_managed t) i st
              \<and> rs_parent_id st = oi_source_parent_id i)
            (\<lambda>st. \<lparr>rs_object_id = oid, rs_parent_id = oi_target_parent_id i, rs_name = rs_name st\<rparr>)
            oid)))"
  unfolding offline_move_def write_body_def de_Morgan_conj by (rule refl)

lemma offline_rename_body:
  "offline_rename u oid n = sbind (find_intent u oid) (\<lambda>i.
     if n \<noteq> oi_target_name i then sraise (TransportError ''scope_unverified'')
     else sbind (record_call METHOD_RENAME) (\<lambda>_.
       sbind (write_outcome METHOD_RENAME TRANSPORT_RENAME oid)
         (write_body TRANSPORT_RENAME
            (\<lambda>t st. intent_observation (of_managed t) i st
              \<and> rs_parent_id st = oi_target_parent_id i)
            (\<lambda>st. \<lparr>rs_object_id = oid, rs_parent_id = rs_parent_id st, rs_name = oi_target_name i\<rparr>)
            oid)))"
  unfolding offline_rename_def write_body_def de_Morgan_conj by (rule refl)

lemma move_states:
  "of_states (snd (offline_move u oid p t)) = of_states t
   \<or> (\<exists>i st. map_of (of_intents t) oid = Some i \<and> p = oi_target_parent_id i
        \<and> map_of (of_states t) oid = Some st \<and> rs_object_id st = oi_object_id i
        \<and> rs_parent_id st = oi_source_parent_id i
        \<and> of_states (snd (offline_move u oid p t)) = AList.update oid
            \<lparr>rs_object_id = oid, rs_parent_id = p, rs_name = rs_name st\<rparr> (of_states t))"
proof (cases "find_intent u oid t")
  case (Pair out t')
  show ?thesis
  proof (cases out)
    case (Inl e)
    with Pair find_intent_state[of u oid t] show ?thesis
      by (simp add: offline_move_body sbind_def)
  next
    case (Inr i)
    with Pair find_intent_Inr have i: "t' = t" "map_of (of_intents t) oid = Some i" by blast+
    show ?thesis
    proof (cases "p = oi_target_parent_id i")
      case False
      with Pair Inr i show ?thesis by (simp add: offline_move_body sbind_Inr sraise_def)
    next
      case True
      show ?thesis
        using write_body_states[of METHOD_MOVE TRANSPORT_MOVE oid
            "\<lambda>t st. intent_observation (of_managed t) i st
              \<and> rs_parent_id st = oi_source_parent_id i"
            "\<lambda>st. \<lparr>rs_object_id = oid, rs_parent_id = oi_target_parent_id i, rs_name = rs_name st\<rparr>"
            "t\<lparr>of_calls := of_calls t @ [METHOD_MOVE]\<rparr>"]
        by (auto simp: offline_move_body sbind_Inr[of "find_intent u oid", OF Pair[unfolded Inr]] i True
            intent_observation_def)
    qed
  qed
qed

lemma rename_states:
  "of_states (snd (offline_rename u oid n t)) = of_states t
   \<or> (\<exists>i st. map_of (of_intents t) oid = Some i \<and> n = oi_target_name i
        \<and> map_of (of_states t) oid = Some st \<and> rs_object_id st = oi_object_id i
        \<and> rs_parent_id st = oi_target_parent_id i
        \<and> of_states (snd (offline_rename u oid n t)) = AList.update oid
            \<lparr>rs_object_id = oid, rs_parent_id = rs_parent_id st, rs_name = n\<rparr> (of_states t))"
proof (cases "find_intent u oid t")
  case (Pair out t')
  show ?thesis
  proof (cases out)
    case (Inl e)
    with Pair find_intent_state[of u oid t] show ?thesis
      by (simp add: offline_rename_body sbind_def)
  next
    case (Inr i)
    with Pair find_intent_Inr have i: "t' = t" "map_of (of_intents t) oid = Some i" by blast+
    show ?thesis
    proof (cases "n = oi_target_name i")
      case False
      with Pair Inr i show ?thesis by (simp add: offline_rename_body sbind_Inr sraise_def)
    next
      case True
      show ?thesis
        using write_body_states[of METHOD_RENAME TRANSPORT_RENAME oid
            "\<lambda>t st. intent_observation (of_managed t) i st
              \<and> rs_parent_id st = oi_target_parent_id i"
            "\<lambda>st. \<lparr>rs_object_id = oid, rs_parent_id = rs_parent_id st, rs_name = oi_target_name i\<rparr>"
            "t\<lparr>of_calls := of_calls t @ [METHOD_RENAME]\<rparr>"]
        by (auto simp: offline_rename_body sbind_Inr[of "find_intent u oid", OF Pair[unfolded Inr]] i True
            intent_observation_def)
    qed
  qed
qed

text \<open>
  Where an object is, by its identifier: the observable part of a state.  The stored
  record's own identifier is normalised to its key, which the constructor checks they share.
\<close>

definition offline_object_at :: "offline \<Rightarrow> pystr \<Rightarrow> remote_state option" where
  "offline_object_at t oid =
     map_option (\<lambda>st. st\<lparr>rs_object_id := oid\<rparr>) (map_of (of_states t) oid)"

lemma offline_object_at_cong: "of_states t' = of_states t \<Longrightarrow> offline_object_at t' = offline_object_at t"
  by (simp add: offline_object_at_def fun_eq_iff)

interpretation offline: scoped_transport "offline_transport u" offline_object_at for u
proof unfold_locales
  fix o1 r p n x
  show "offline_object_at (snd (t_read_object (offline_transport u) o1 r)) = offline_object_at r"
    by (rule offline_object_at_cong) (simp add: offline_transport_def read_object_state)
  show "offline_object_at (snd (t_read_target (offline_transport u) p n r)) = offline_object_at r"
    by (rule offline_object_at_cong) (simp add: offline_transport_def read_target_state)
  show "x \<noteq> o1 \<Longrightarrow> offline_object_at (snd (t_move (offline_transport u) o1 p r)) x
      = offline_object_at r x"
    using move_states[of u o1 p r]
    by (auto simp: offline_transport_def offline_object_at_def update_conv')
  show "x \<noteq> o1 \<Longrightarrow> offline_object_at (snd (t_rename (offline_transport u) o1 n r)) x
      = offline_object_at r x"
    using rename_states[of u o1 n r]
    by (auto simp: offline_transport_def offline_object_at_def update_conv')
  show "offline_object_at (snd (t_move (offline_transport u) o1 p r)) o1
      \<in> {offline_object_at r o1,
         map_option (\<lambda>st. st\<lparr>rs_parent_id := p\<rparr>) (offline_object_at r o1)}"
    using move_states[of u o1 p r]
    by (auto simp: offline_transport_def offline_object_at_def update_conv')
  show "offline_object_at (snd (t_rename (offline_transport u) o1 n r)) o1
      \<in> {offline_object_at r o1,
         map_option (\<lambda>st. st\<lparr>rs_name := n\<rparr>) (offline_object_at r o1)}"
    using rename_states[of u o1 n r]
    by (auto simp: offline_transport_def offline_object_at_def update_conv')
qed

text \<open>The whole planned transition of one object, with no injected outcome.\<close>

lemma find_intent_ok:
  "of_scope_confirmed t \<Longrightarrow> map_of (of_intents t) oid = Some i \<Longrightarrow> stable_id u oid
    \<Longrightarrow> find_intent u oid t = (Inr i, t)"
  by (simp add: find_intent_def require_scope_def sbind_def)

lemma write_outcome_quiet: "of_outcomes t = [] \<Longrightarrow> write_outcome m op oid t = (Inr None, t)"
  by (simp add: write_outcome_def injected_def sbind_def sret_def)

lemma offline_move_ok:
  assumes "find_intent u oid t = (Inr i, t)" "of_outcomes t = []"
    and "map_of (of_states t) oid = Some st" "intent_observation (of_managed t) i st"
    and "rs_parent_id st = oi_source_parent_id i"
  shows "offline_move u oid (oi_target_parent_id i) t = (Inr (transport_success TRANSPORT_MOVE),
    t\<lparr>of_calls := of_calls t @ [METHOD_MOVE], of_states := AList.update oid
       \<lparr>rs_object_id = oid, rs_parent_id = oi_target_parent_id i, rs_name = rs_name st\<rparr>
       (of_states t)\<rparr>)"
  using assms
  by (simp add: offline_move_body sbind_Inr[of "find_intent u oid"]
      sbind_Inr[OF write_outcome_quiet] write_body_def)

lemma offline_rename_ok:
  assumes "find_intent u oid t = (Inr i, t)" "of_outcomes t = []"
    and "map_of (of_states t) oid = Some st" "intent_observation (of_managed t) i st"
    and "rs_parent_id st = oi_target_parent_id i"
  shows "offline_rename u oid (oi_target_name i) t = (Inr (transport_success TRANSPORT_RENAME),
    t\<lparr>of_calls := of_calls t @ [METHOD_RENAME], of_states := AList.update oid
       \<lparr>rs_object_id = oid, rs_parent_id = rs_parent_id st, rs_name = oi_target_name i\<rparr>
       (of_states t)\<rparr>)"
  using assms
  by (simp add: offline_rename_body sbind_Inr[of "find_intent u oid"]
      sbind_Inr[OF write_outcome_quiet] write_body_def)

lemma offline_move_then_rename:
  assumes i: "map_of (of_intents t) oid = Some i" "oi_object_id i = oid" "stable_id u oid"
    and scope: "of_scope_confirmed t" "oi_source_parent_id i \<in> set (of_managed t)"
      "oi_target_parent_id i \<in> set (of_managed t)"
    and quiet: "of_outcomes t = []"
    and st: "map_of (of_states t) oid = Some \<lparr>rs_object_id = oid,
      rs_parent_id = oi_source_parent_id i, rs_name = oi_source_name i\<rparr>"
  shows "\<exists>t1 t2. offline_move u oid (oi_target_parent_id i) t = (Inr (transport_success TRANSPORT_MOVE), t1)
    \<and> offline_rename u oid (oi_target_name i) t1 = (Inr (transport_success TRANSPORT_RENAME), t2)
    \<and> map_of (of_states t2) oid = Some \<lparr>rs_object_id = oid,
         rs_parent_id = oi_target_parent_id i, rs_name = oi_target_name i\<rparr>"
proof -
  let ?moved = "\<lparr>rs_object_id = oid, rs_parent_id = oi_target_parent_id i,
    rs_name = oi_source_name i\<rparr>"
  define t1 where "t1 = t\<lparr>of_calls := of_calls t @ [METHOD_MOVE],
    of_states := AList.update oid ?moved (of_states t)\<rparr>"
  have "offline_move u oid (oi_target_parent_id i) t = (Inr (transport_success TRANSPORT_MOVE), t1)"
    using offline_move_ok[OF find_intent_ok[OF scope(1) i(1,3)] quiet st] i scope
    by (simp add: t1_def intent_observation_def)
  moreover have t1: "of_scope_confirmed t1" "map_of (of_intents t1) oid = Some i"
    "of_outcomes t1 = []" "map_of (of_states t1) oid = Some ?moved" "of_managed t1 = of_managed t"
    using scope i quiet by (simp_all add: t1_def update_conv')
  then have "offline_rename u oid (oi_target_name i) t1 = (Inr (transport_success TRANSPORT_RENAME),
      t1\<lparr>of_calls := of_calls t1 @ [METHOD_RENAME], of_states := AList.update oid
        (?moved\<lparr>rs_name := oi_target_name i\<rparr>) (of_states t1)\<rparr>)"
    using offline_rename_ok[OF find_intent_ok[OF t1(1,2) i(3)] t1(3,4)] i scope
    by (simp add: intent_observation_def)
  ultimately show ?thesis by (simp add: update_conv')
qed

end
