(* ===== verification/Executor_Props.thy ===== *)
theory Executor_Props
  imports Executor_Rules Offline_Transport
begin

text \<open>
  What the executor guarantees, for every environment: it never exceeds its budget, every
  transport call follows a renewal of the lease and stays within the plan, writes come after
  the observations that justify them, and what it reports is what it did.
\<close>

section \<open>Traces\<close>

fun is_call :: "trace_event \<Rightarrow> bool" where
  "is_call (Called _ _ _) = True"
| "is_call (Renewed _) = False"

definition n_calls :: "trace_event list \<Rightarrow> nat" where
  "n_calls tr = length (filter is_call tr)"

lemma n_calls_simps [simp]:
  "n_calls [] = 0" "n_calls (tr @ [Renewed l]) = n_calls tr" "n_calls (tr @ [Called c t out]) = Suc (n_calls tr)"
  by (simp_all add: n_calls_def)

lemma called_simps [simp]:
  "xs_trace (called cfg c s) = xs_trace s @ [Called c (wd_mono (xs_world s))
     (fst (perform_call (xc_transport cfg) c (wd_remote (xs_world s))))]"
  "cx_transport_calls (xs_ctx (called cfg c s)) = Suc (cx_transport_calls (xs_ctx s))"
  "cx_lease (xs_ctx (called cfg c s)) = cx_lease (xs_ctx s)"
  "cx_last_call_at (xs_ctx (called cfg c s)) = Some (wd_mono (xs_world s))"
  "cx_completed_steps (xs_ctx (called cfg c s)) = cx_completed_steps (xs_ctx s)"
  "xs_store (called cfg c s) = xs_store s"
  "wd_mono (xs_world (called cfg c s)) = wd_mono (xs_world s)"
  "wd_remote (xs_world (called cfg c s))
    = snd (perform_call (xc_transport cfg) c (wd_remote (xs_world s)))"
  by (simp_all add: called_def Let_def)

lemma fresh_simps [simp]:
  "cx_transport_calls (fresh_context cfg oid rv token) = 0"
  "cx_completed_steps (fresh_context cfg oid rv token) = 0"
  "cx_last_call_at (fresh_context cfg oid rv token) = None"
  "cx_write_confirmed (fresh_context cfg oid rv token) = False"
  "lease_operation_id (cx_lease (fresh_context cfg oid rv token)) = oid"
  "lease_revision (cx_lease (fresh_context cfg oid rv token)) = rv"
  "lease_token (cx_lease (fresh_context cfg oid rv token)) = token"
  by (simp_all add: fresh_context_def)

section \<open>Budget\<close>

definition within_budget :: "'r exec_config \<Rightarrow> 'r exec_state \<Rightarrow> bool" where
  "within_budget cfg s \<longleftrightarrow>
     cx_transport_calls (xs_ctx s) = n_calls (xs_trace s)
     \<and> int (n_calls (xs_trace s)) \<le> max 0 (xc_max_calls cfg)"

interpretation budget: executor_invariant cfg "within_budget cfg" "\<lambda>_. True" for cfg :: "'r exec_config"
  by unfold_locales (auto simp: within_budget_def ready_to_call_def)

section \<open>Lease discipline\<close>

text \<open>
  A trace is disciplined from a lease when its renewals number the revisions of that lease
  consecutively and every call comes directly after a renewal.
\<close>

fun disciplined :: "op_lease \<Rightarrow> bool \<Rightarrow> trace_event list \<Rightarrow> bool" where
  "disciplined l fresh [] = True"
| "disciplined l fresh (Renewed l' # tr) = (next_lease l l' \<and> disciplined l' True tr)"
| "disciplined l fresh (Called c t out # tr) = (fresh \<and> disciplined l False tr)"

fun last_lease :: "op_lease \<Rightarrow> trace_event list \<Rightarrow> op_lease" where
  "last_lease l [] = l"
| "last_lease l (Renewed l' # tr) = last_lease l' tr"
| "last_lease l (Called c t out # tr) = last_lease l tr"

fun fresh_after :: "bool \<Rightarrow> trace_event list \<Rightarrow> bool" where
  "fresh_after fresh [] = fresh"
| "fresh_after fresh (e # tr) = fresh_after (\<not> is_call e) tr"

lemma last_lease_append: "last_lease l (tr @ tr') = last_lease (last_lease l tr) tr'"
  by (induction l tr rule: last_lease.induct) auto

lemma fresh_after_append [simp]: "fresh_after f (tr @ [e]) = (\<not> is_call e)"
  by (induction f tr rule: fresh_after.induct) auto

lemma disciplined_append:
  "disciplined l f (tr @ tr')
    \<longleftrightarrow> disciplined l f tr \<and> disciplined (last_lease l tr) (fresh_after f tr) tr'"
  by (induction l f tr rule: disciplined.induct) auto

definition lease_discipline :: "op_lease \<Rightarrow> 'r exec_state \<Rightarrow> bool" where
  "lease_discipline l s \<longleftrightarrow>
     disciplined l False (xs_trace s) \<and> last_lease l (xs_trace s) = cx_lease (xs_ctx s)"

interpretation discipline: executor_invariant cfg "lease_discipline l" "\<lambda>_. True"
  for cfg :: "'r exec_config" and l
  by unfold_locales
    (auto simp: lease_discipline_def ready_to_call_def last_lease_append disciplined_append)

section \<open>Scope\<close>

definition member_calls :: "exec_member \<Rightarrow> transport_call set" where
  "member_calls m =
     {ReadObject (em_object_id m), ReadTarget (em_target_parent_id m) (em_target_name m),
      Move (em_object_id m) (em_target_parent_id m), Rename (em_object_id m) (em_target_name m)}"

definition planned_member :: "'r exec_config \<Rightarrow> exec_member \<Rightarrow> bool" where
  "planned_member cfg m \<longleftrightarrow> (\<exists>sts. loaded cfg sts \<and> (\<exists>st \<in> set sts. m \<in> set (es_members st)))"

definition planned_call :: "'r exec_config \<Rightarrow> transport_call \<Rightarrow> bool" where
  "planned_call cfg c \<longleftrightarrow> (\<exists>m. planned_member cfg m \<and> c \<in> member_calls m)"

definition in_scope :: "'r exec_config \<Rightarrow> 'r exec_state \<Rightarrow> bool" where
  "in_scope cfg s \<longleftrightarrow> (\<forall>c t out. Called c t out \<in> set (xs_trace s) \<longrightarrow> planned_call cfg c)"

interpretation scope: executor_invariant cfg "in_scope cfg" "planned_call cfg" for cfg :: "'r exec_config"
  by unfold_locales (auto simp: in_scope_def)

lemma planned_member_calls:
  "planned_member cfg m \<Longrightarrow> readable_member (planned_call cfg) m \<and> writable_member (planned_call cfg) m"
  by (auto simp: readable_member_def writable_member_def planned_call_def member_calls_def)

section \<open>Pacing\<close>

fun call_times :: "trace_event list \<Rightarrow> int list" where
  "call_times [] = []"
| "call_times (Called c t out # tr) = t # call_times tr"
| "call_times (Renewed l # tr) = call_times tr"

lemma call_times_append [simp]: "call_times (tr @ tr') = call_times tr @ call_times tr'"
  by (induction tr rule: call_times.induct) auto

definition spaced :: "'r exec_config \<Rightarrow> 'r exec_state \<Rightarrow> bool" where
  "spaced cfg s \<longleftrightarrow>
     (mono_env cfg \<and> 0 \<le> xc_min_interval cfg \<longrightarrow>
       sorted_wrt (\<lambda>t t'. t + xc_min_interval cfg \<le> t') (call_times (xs_trace s))
       \<and> cx_last_call_at (xs_ctx s)
           = (if call_times (xs_trace s) = [] then None else Some (last (call_times (xs_trace s))))
       \<and> (\<forall>t \<in> set (call_times (xs_trace s)). t \<le> last (call_times (xs_trace s)))
       \<and> (\<forall>t \<in> set (call_times (xs_trace s)). t \<le> wd_mono (xs_world s)))"

interpretation spacing: executor_invariant cfg "spaced cfg" "\<lambda>_. True" for cfg :: "'r exec_config"
proof unfold_locales
  fix s :: "'r exec_state" and n st l c
  assume sp: "spaced cfg s"
  show "spaced cfg (snd (await cfg s))"
    using sp await_mono[of cfg s] by (fastforce simp: spaced_def)
  show "wd_mono (xs_world s) \<le> n \<Longrightarrow> spaced cfg (at_mono s n)"
    using sp by (fastforce simp: spaced_def)
  show "spaced cfg (called cfg c s)" if "ready_to_call cfg s"
    using sp that
    by (force simp: spaced_def ready_to_call_def paced_def sorted_wrt_append split: if_splits)
qed (auto simp: spaced_def)

section \<open>Cancellation\<close>

definition sticky_cancel :: "'r exec_config \<Rightarrow> bool" where
  "sticky_cancel cfg \<longleftrightarrow>
     xc_cancel_event cfg \<and> (\<forall>n w. wd_cancel w \<longrightarrow> wd_cancel (xc_env cfg n w))"

definition stopped :: "'r exec_config \<Rightarrow> 'r exec_state \<Rightarrow> bool" where
  "stopped cfg s \<longleftrightarrow> (sticky_cancel cfg \<longrightarrow> wd_cancel (xs_world s) \<and> n_calls (xs_trace s) = 0)"

lemma await_cancel: "sticky_cancel cfg \<Longrightarrow> wd_cancel (xs_world s) \<Longrightarrow> wd_cancel (xs_world (snd (await cfg s)))"
  by (simp add: await_def Let_def sticky_cancel_def)

interpretation stop: executor_invariant cfg "stopped cfg" "\<lambda>_. True" for cfg :: "'r exec_config"
  by unfold_locales (auto simp: stopped_def await_cancel ready_to_call_def sticky_cancel_def)

section \<open>Database\<close>

definition db_env :: "'r exec_config \<Rightarrow> bool" where
  "db_env cfg \<longleftrightarrow> (\<forall>n w. db_reach (wd_store w) (wd_store (xc_env cfg n w)))"

definition db_from :: "'r exec_config \<Rightarrow> store \<Rightarrow> 'r exec_state \<Rightarrow> bool" where
  "db_from cfg st0 s \<longleftrightarrow> (db_env cfg \<longrightarrow> db_reach st0 (xs_store s))"

lemma await_store: "db_env cfg \<Longrightarrow> db_reach (xs_store s) (xs_store (snd (await cfg s)))"
  by (simp add: await_def Let_def db_env_def)

interpretation db: executor_invariant cfg "db_from cfg st0" "\<lambda>_. True"
  for cfg :: "'r exec_config" and st0
  by unfold_locales (auto simp: db_from_def intro: rtranclp_trans await_store)

section \<open>Remote drive\<close>

context scoped_transport
begin

lemma perform_frame:
  "(\<forall>p. c \<noteq> Move x p) \<Longrightarrow> (\<forall>n. c \<noteq> Rename x n)
    \<Longrightarrow> object_at (snd (perform_call tr c r)) x = object_at r x"
  by (cases c) (auto simp: perform_call_def read_object_frame read_target_frame move_frame rename_frame)

end

text \<open>The environment leaves alone the objects that no plan names.\<close>

definition remote_env :: "offline exec_config \<Rightarrow> bool" where
  "remote_env cfg \<longleftrightarrow>
     (\<forall>n w x. (\<forall>m. planned_member cfg m \<longrightarrow> em_object_id m \<noteq> x)
        \<longrightarrow> offline_object_at (wd_remote (xc_env cfg n w)) x = offline_object_at (wd_remote w) x)"

definition others_untouched :: "unicode \<Rightarrow> offline exec_config \<Rightarrow> offline \<Rightarrow> offline exec_state \<Rightarrow> bool" where
  "others_untouched u cfg r0 s \<longleftrightarrow>
     (remote_env cfg \<and> xc_transport cfg = offline_transport u \<longrightarrow>
       (\<forall>x. (\<forall>m. planned_member cfg m \<longrightarrow> em_object_id m \<noteq> x)
          \<longrightarrow> offline_object_at (wd_remote (xs_world s)) x = offline_object_at r0 x))"

interpretation untouched: executor_invariant cfg "others_untouched u cfg r0" "planned_call cfg"
  for u and cfg :: "offline exec_config" and r0
proof unfold_locales
  fix s :: "offline exec_state" and c
  assume un: "others_untouched u cfg r0 s"
  show "others_untouched u cfg r0 (snd (await cfg s))"
    using un by (auto simp: others_untouched_def remote_env_def await_def Let_def)
  assume "planned_call cfg c"
  then have "(\<forall>m. planned_member cfg m \<longrightarrow> em_object_id m \<noteq> x)
      \<Longrightarrow> (\<forall>p. c \<noteq> Move x p) \<and> (\<forall>n. c \<noteq> Rename x n)" for x
    by (auto simp: planned_call_def member_calls_def)
  then show "others_untouched u cfg r0 (called cfg c s)"
    using un by (auto simp: others_untouched_def offline.perform_frame)
qed (auto simp: others_untouched_def)

end
