(* ===== verification/Executor_Results.thy ===== *)
theory Executor_Results
  imports Executor_Rules
begin

text \<open>
  What the executor returns and raises: every result it hands back reports the context it
  ended with and carries a code the operation service accepts, and the exceptions it uses
  for its own control flow never leave it.
\<close>

definition reported :: "exec_result \<Rightarrow> 'r exec_state \<Rightarrow> bool" where
  "reported r s \<longleftrightarrow>
     xr_operation_id r = lease_operation_id (cx_lease (xs_ctx s))
     \<and> xr_completed_steps r = cx_completed_steps (xs_ctx s)
     \<and> xr_transport_calls r = cx_transport_calls (xs_ctx s)
     \<and> (xr_status r = EXEC_ORGANIZED \<longleftrightarrow> xr_error_code r = None)
     \<and> validate_error_code (xr_error_code r) = Inr ()"

text \<open>A result that ends the run early; when it is failed, its code satisfies \<open>F\<close>.\<close>

definition stops :: "(string \<Rightarrow> bool) \<Rightarrow> exec_result \<Rightarrow> 'r exec_state \<Rightarrow> bool" where
  "stops F r s \<longleftrightarrow>
     reported r s \<and> xr_status r \<noteq> EXEC_ORGANIZED
     \<and> (xr_status r = EXEC_FAILED \<longrightarrow> xr_error_code r = Some ''local_failure''
          \<or> (\<exists>c. xr_error_code r = Some c \<and> F c))"

text \<open>The exceptions of the service, of the task and of Python itself.\<close>

fun outer_exn :: "exec_exn \<Rightarrow> bool" where
  "outer_exn (ServiceExn e) = (\<forall>c. e \<noteq> LeaseUnavailable c)"
| "outer_exn TaskCancelled = True"
| "outer_exn IndexErr = True"
| "outer_exn _ = False"

fun phase_exn :: "exec_exn \<Rightarrow> bool" where
  "phase_exn (TransportFailure code _) = (code \<in> {''timeout'', ''outcome_unknown'', ''remote_write_failed''})"
| "phase_exn (ServiceExn e) = (\<forall>c. e \<noteq> LeaseUnavailable c)"
| "phase_exn _ = True"

definition lifted :: "('x \<Rightarrow> 's \<Rightarrow> bool) \<Rightarrow> 'x + 'a \<Rightarrow> 's \<Rightarrow> bool" where
  "lifted R v s = (case v of Inl r \<Rightarrow> R r s | Inr _ \<Rightarrow> True)"

lemma outer_phase: "outer_exn e \<Longrightarrow> phase_exn e"
  by (cases e) auto

lemma ends_any: "ends R E m \<Longrightarrow> ends (\<lambda>_ _. True) E m"
  by (erule ends_weaken) simp_all

lemma ends_early [ends_intro]: "ends R E m \<Longrightarrow> ends (lifted R) E (early m)"
  unfolding ends_def triple_def early_def sbind_def sret_def lifted_def
  by (auto split: prod.splits sum.splits)

lemma ends_then_phase [ends_intro]:
  "ends (lifted R) E m \<Longrightarrow> (\<And>x. ends (lifted R) E (k x)) \<Longrightarrow> ends (lifted R) E (then_phase m k)"
  unfolding ends_def triple_def then_phase_def sbind_def sret_def lifted_def
  by (fastforce split: prod.splits sum.splits)

lemma ends_value [ends_intro]: "ends (lifted R) E (sret (Inr x))"
  by (rule ends_ret) (simp add: lifted_def)

lemma ends_modify: "ends (\<lambda>_ _. True) E (modify_ctx f)" "ends (\<lambda>_ _. True) E (emit ev)"
  by (simp_all add: ends_def triple_def modify_ctx_def emit_def)

lemma ends_check_cancel: "E ExecutionCancelled \<Longrightarrow> ends (\<lambda>_ _. True) E (check_cancel cfg)"
  by (simp add: ends_def triple_def check_cancel_def)

lemma ends_with_lease:
  "ends (\<lambda>_ _. True) (\<lambda>e. (\<exists>x. e = ServiceExn x) \<or> e = TaskCancelled) (with_lease cfg m)"
  unfolding with_lease_def
  by (intro ends_bind[OF ends_get] ends_weaken[OF service_ends[where X = "\<lambda>_. True"]]) auto

lemma ends_result_of:
  "(st = EXEC_ORGANIZED \<longleftrightarrow> err = None) \<Longrightarrow> validate_error_code err = Inr ()
    \<Longrightarrow> ends reported E (result_of st err)"
  by (simp add: ends_def triple_def result_of_def reported_def)

lemma ends_stop:
  "st \<noteq> EXEC_ORGANIZED \<Longrightarrow> c \<in> set valid_operation_error_codes
    \<Longrightarrow> (st = EXEC_FAILED \<and> c \<noteq> ''local_failure'' \<Longrightarrow> F c) \<Longrightarrow> ends (stops F) E (result_of st (Some c))"
  by (auto simp: ends_def triple_def result_of_def reported_def stops_def validate_error_code_def)

lemma stops_reported: "stops F r s \<Longrightarrow> reported r s"
  by (simp add: stops_def)

lemma code_valid [simp]:
  "validate_error_code None = Inr ()"
  "c \<in> set valid_operation_error_codes \<Longrightarrow> validate_error_code (Some c) = Inr ()"
  by (simp_all add: validate_error_code_def)

lemma ends_lease_lost [ends_intro]: "ends (stops F) E lease_lost"
  unfolding lease_lost_def
  by (rule ends_stop) (simp_all add: valid_operation_error_codes_def)

lemma ends_renew [ends_intro]: "ends (\<lambda>_ _. True) outer_exn (renew cfg)"
  unfolding renew_def
proof (rule ends_catch)
  show "ends (\<lambda>_ _. True) (\<lambda>e. (\<exists>x. e = ServiceExn x) \<or> e = TaskCancelled)
      (sbind (with_lease cfg (\<lambda>l clk _. renew_lease clk (lease_operation_id l) (lease_revision l)
         (lease_token l) default_lease_duration (xc_now cfg)))
       (\<lambda>l. sbind (modify_ctx (\<lambda>c. c\<lparr>cx_lease := l\<rparr>)) (\<lambda>_. sbind (emit (Renewed l)) (\<lambda>_. sret True))))"
    by (intro ends_bind_any ends_with_lease ends_modify ends_ret) simp
qed (auto intro!: ends_raise ends_ret split: op_error.split)

lemma ends_persist [ends_intro]: "ends (stops F) outer_exn (persist_lease_loss cfg)"
  unfolding persist_lease_loss_def
proof (rule ends_catch)
  show "ends (stops F) (\<lambda>e. (\<exists>x. e = ServiceExn x) \<or> e = TaskCancelled)
      (sbind (with_lease cfg (\<lambda>l clk _. finish_after_lease_loss clk (lease_operation_id l)
         (lease_revision l) (lease_token l) (xc_now cfg)))
       (\<lambda>_. result_of EXEC_UNCERTAIN (Some ''lease_lost'')))"
    by (intro ends_bind_any ends_with_lease ends_stop)
       (simp_all add: valid_operation_error_codes_def)
qed (auto intro!: ends_intro split: op_error.split)

lemma ends_handle_loss [ends_intro]: "ends (stops F) outer_exn (handle_lease_loss cfg)"
  unfolding handle_lease_loss_def
  by (intro ends_bind_any ends_get ends_if ends_intro)

lemma ends_finish [ends_intro]:
  assumes "st \<noteq> EXEC_ORGANIZED" and "err \<in> set valid_operation_error_codes"
    and "st = EXEC_FAILED \<Longrightarrow> F err"
  shows "ends (stops F) outer_exn (finish cfg st err)"
  unfolding finish_def
proof (rule ends_catch)
  show "ends (stops F) (\<lambda>e. (\<exists>x. e = ServiceExn x) \<or> e = TaskCancelled)
      (sbind (finish_not_organized cfg (stored_status st) (Some err)) (\<lambda>_. result_of st (Some err)))"
    unfolding finish_not_organized_def using assms
    by (intro ends_bind_any ends_with_lease ends_stop) simp_all
qed (auto intro!: ends_intro ends_get ends_stop split: op_error.split
    simp: valid_operation_error_codes_def)

lemma ends_organized_failure:
  assumes "(\<exists>x. e = ServiceExn x) \<or> e = TaskCancelled"
  shows "ends (stops F) outer_exn (organized_failure cfg e)"
proof -
  have "ends (stops F) outer_exn (scatch
      (sbind (finish_not_organized cfg OP_FAILED (Some ''local_failure''))
         (\<lambda>_. result_of EXEC_FAILED (Some ''local_failure'')))
      (\<lambda>e'. case e' of ServiceExn (LeaseUnavailable _) \<Rightarrow> lease_lost | _ \<Rightarrow> sraise e'))"
  proof (rule ends_catch)
    show "ends (stops F) (\<lambda>e. (\<exists>x. e = ServiceExn x) \<or> e = TaskCancelled)
        (sbind (finish_not_organized cfg OP_FAILED (Some ''local_failure''))
           (\<lambda>_. result_of EXEC_FAILED (Some ''local_failure'')))"
      unfolding finish_not_organized_def
      by (intro ends_bind_any ends_with_lease ends_stop)
         (simp_all add: valid_operation_error_codes_def)
  qed (auto intro!: ends_intro split: op_error.split)
  with assms show ?thesis
    unfolding organized_failure_def by (auto intro!: ends_intro ends_get split: op_error.split)
qed

lemma ends_finish_organized [ends_intro]:
  "ends reported outer_exn (finish_organized cfg sd td dirs)"
  unfolding finish_organized_def complete_call_def
proof (rule ends_catch)
  show "ends reported (\<lambda>e. (\<exists>x. e = ServiceExn x) \<or> e = TaskCancelled)
      (sbind (with_lease cfg (\<lambda>l clk n. complete_organized (xc_ids cfg n) clk
         (lease_operation_id l) (lease_revision l) (lease_token l) sd td (Some dirs) (xc_now cfg)))
       (\<lambda>_. result_of EXEC_ORGANIZED None))"
    by (intro ends_bind_any ends_with_lease ends_result_of) simp_all
  show "ends reported outer_exn (organized_failure cfg e)"
    if "(\<exists>x. e = ServiceExn x) \<or> e = TaskCancelled" for e
    by (rule ends_weaken[OF ends_organized_failure[OF that, where F = "\<lambda>_. True"]]) (simp_all add: stops_reported)
qed

section \<open>Phases\<close>

lemma ends_pace: "ends (\<lambda>_ _. True) phase_exn (pace cfg)"
  unfolding ends_def triple_def
  by (auto simp: pace_def sleep_def await_def Let_def monad_defs
      split: prod.splits sum.splits option.splits if_splits)

lemma ends_transport: "ends (\<lambda>_ _. True) phase_exn (transport_effect c wrap meth)"
  unfolding ends_def triple_def
  by (auto simp: transport_effect_def split: prod.splits sum.splits base_exception.splits)

lemma ends_renew_phase [ends_intro]: "ends (\<lambda>_ _. True) phase_exn (renew cfg)"
  by (rule ends_weaken[OF ends_renew]) (simp_all add: outer_phase)

lemma ends_call [ends_intro]: "ends (\<lambda>_ _. True) phase_exn (call cfg w c wrap meth)"
  unfolding call_def mark_call_def[abs_def]
  by (intro ends_bind_any ends_get ends_if ends_raise ends_pace ends_check_cancel ends_renew_phase
      ends_transport ends_await ends_ret) (simp_all add: ends_def triple_def modify_ctx_def)

lemma ends_checked_renew [ends_intro]:
  assumes "ends (lifted (stops F)) phase_exn k"
  shows "ends (lifted (stops F)) phase_exn (checked_renew cfg k)"
proof -
  have loss: "ends (lifted (stops F)) phase_exn (early (handle_lease_loss cfg))"
    by (intro ends_early ends_weaken[OF ends_handle_loss]) (simp_all add: outer_phase)
  show ?thesis
    unfolding checked_renew_def early_def[symmetric]
    by (intro ends_bind_any ends_check_cancel ends_renew_phase ends_if assms loss) simp_all
qed

lemma ends_check_write: "ends (\<lambda>_ _. True) phase_exn (scheck (check_write_result res op))"
  by (auto simp: ends_def triple_def scheck_def check_write_result_def safe_transport_code_def
      split: transport_status.split option.split)

lemma ends_members [ends_intro]:
  "ends (lifted (stops F)) phase_exn (read_members cfg ms sources targets)"
  "ends (lifted (stops F)) phase_exn (write_members cfg ms)"
  "ends (lifted (stops F)) phase_exn (verify_members cfg ms observed)"
proof -
  show "ends (lifted (stops F)) phase_exn (read_members cfg ms sources targets)"
    by (induction ms arbitrary: sources targets)
       (auto simp: read_object_def read_target_def intro!: ends_intro ends_check_cancel)
  show "ends (lifted (stops F)) phase_exn (write_members cfg ms)"
    by (induction ms)
       (auto simp: move_def rename_def intro!: ends_intro ends_check_cancel ends_check_write ends_modify)
  show "ends (lifted (stops F)) phase_exn (verify_members cfg ms observed)"
    by (induction ms arbitrary: observed)
       (auto simp: read_object_def intro!: ends_intro ends_check_cancel)
qed

lemma phase_handler [ends_intro]:
  assumes "st \<noteq> EXEC_ORGANIZED" "st = EXEC_FAILED \<Longrightarrow> F ''rate_limited''" "phase_exn e"
    and "\<And>code b. e = TransportFailure code b
      \<Longrightarrow> ends (lifted (stops F)) outer_exn (h code b)"
  shows "ends (lifted (stops F)) outer_exn (case e of
      RateLimitReached \<Rightarrow> early (finish cfg st ''rate_limited'')
    | ExecutionCancelled \<Rightarrow> early (finish cfg EXEC_CANCELLED ''cancelled'')
    | LeaseLost \<Rightarrow> early (handle_lease_loss cfg)
    | TransportFailure code b \<Rightarrow> h code b
    | _ \<Rightarrow> sraise e)"
  using assms
  by (cases e) (auto intro!: ends_intro simp: valid_operation_error_codes_def)

lemma ends_phases [ends_intro]:
  "F ''rate_limited'' \<Longrightarrow> ends (lifted (stops F)) outer_exn (read_phase cfg ms)"
  "ends (lifted (stops (\<lambda>_. True))) outer_exn (write_phase cfg ms)"
  "ends (lifted (stops F)) outer_exn (verify_phase cfg ms)"
proof -
  have code: "ends (lifted (stops F)) outer_exn (early (finish cfg st code))"
    if "phase_exn (TransportFailure code b)" "st \<noteq> EXEC_ORGANIZED" "st = EXEC_FAILED \<Longrightarrow> F code"
    for code b st F
    using that by (intro ends_early ends_finish) (auto simp: valid_operation_error_codes_def)
  show "ends (lifted (stops F)) outer_exn (read_phase cfg ms)" if "F ''rate_limited''"
    unfolding read_phase_def
    by (rule ends_catch[OF ends_members(1)], rule phase_handler) (auto intro!: code that)
  show "ends (lifted (stops (\<lambda>_. True))) outer_exn (write_phase cfg ms)"
    unfolding write_phase_def
    by (rule ends_catch[OF ends_members(2)], rule phase_handler)
       (auto intro!: code ends_bind_any[OF ends_get] split: if_splits)
  show "ends (lifted (stops F)) outer_exn (verify_phase cfg ms)"
    unfolding verify_phase_def
    by (rule ends_catch[OF ends_members(3)], rule phase_handler) (auto intro!: code)
qed

lemma ends_step_done [ends_intro]: "ends (lifted (stops F)) E step_done"
  unfolding step_done_def by (intro ends_bind_any ends_modify ends_value)

lemma ends_after_verify [ends_intro]: "ends (lifted (stops F)) outer_exn (after_verify cfg g obs)"
  unfolding after_verify_def Let_def
  by (auto intro!: ends_intro simp: valid_operation_error_codes_def)

lemma ends_after_read [ends_intro]: "ends (lifted (stops (\<lambda>_. True))) outer_exn (after_read cfg st g src tgt)"
  unfolding after_read_def Let_def
  by (auto intro!: ends_intro simp: valid_operation_error_codes_def)

lemma ends_run_step [ends_intro]: "ends (lifted (stops (\<lambda>_. True))) outer_exn (run_step cfg st)"
proof -
  have "ends (\<lambda>_ _. True) outer_exn (scheck (group_for_step u st))" for u
    by (simp add: ends_def triple_def scheck_def group_for_step_def split: list.split)
  then show ?thesis
    unfolding run_step_def
    by (intro ends_bind_any ends_get ends_if ends_renew ends_early ends_handle_loss)
       (auto intro!: ends_intro simp: valid_operation_error_codes_def split: option.split)
qed

lemma ends_run_loop: "ends (lifted (stops (\<lambda>_. True))) outer_exn (run_loop cfg sts)"
  by (induction sts) (auto intro!: ends_intro)

lemma ends_run_steps: "ends reported outer_exn (run_steps cfg sts)"
proof -
  have "triple (lifted (stops (\<lambda>_. True)) v)
      (case v of Inl r \<Rightarrow> sret r
       | Inr _ \<Rightarrow> (case sts of [] \<Rightarrow> sraise IndexErr
          | st # _ \<Rightarrow> (case es_members st of [] \<Rightarrow> sraise IndexErr
             | m # _ \<Rightarrow> finish_organized cfg (em_source_parent_id m) (em_target_parent_id m)
                         (xc_set_order cfg (scope_ids sts))))) reported (\<lambda>e _. outer_exn e)"
    for v :: "exec_result + unit"
  proof (cases v)
    case (Inl r)
    then show ?thesis by (auto simp: lifted_def triple_def sret_def stops_reported)
  next
    case (Inr x)
    have "ends reported outer_exn (case sts of [] \<Rightarrow> sraise IndexErr
          | st # _ \<Rightarrow> (case es_members st of [] \<Rightarrow> sraise IndexErr
             | m # _ \<Rightarrow> finish_organized cfg (em_source_parent_id m) (em_target_parent_id m)
                         (xc_set_order cfg (scope_ids sts))))"
      by (auto intro!: ends_intro split: list.split)
    with Inr show ?thesis unfolding ends_def by (auto elim: triple_conseq)
  qed
  then show ?thesis
    unfolding run_steps_def ends_def
    by (rule triple_bind[OF ends_run_loop[unfolded ends_def]])
qed

lemma ends_execute: "ends reported outer_exn (execute cfg oid rv token)"
  unfolding ends_def
proof (rule execute_rule[where J = "\<lambda>_. True" and K = "\<lambda>_. True" and E' = "\<lambda>e _. outer_exn e"])
  show "triple (\<lambda>_. True) (run_steps cfg sts) reported (\<lambda>e _. outer_exn e)" for sts
    using ends_run_steps unfolding ends_def .
  show "triple (\<lambda>_. True) (finish cfg EXEC_FAILED ''plan_prerequisites_changed'') reported
      (\<lambda>e _. outer_exn e)"
    using ends_weaken[OF ends_finish[of EXEC_FAILED "''plan_prerequisites_changed''" "\<lambda>_. True" cfg],
        of reported outer_exn]
    by (simp add: ends_def valid_operation_error_codes_def stops_reported)
  show "triple (\<lambda>_. outer_exn TaskCancelled) (finish cfg EXEC_UNCERTAIN ''cancelled'')
      (\<lambda>_ _. outer_exn TaskCancelled) (\<lambda>e _. outer_exn e)"
    using ends_any[OF ends_finish[of EXEC_UNCERTAIN "''cancelled''" "\<lambda>_. True" cfg]]
    by (simp add: ends_def valid_operation_error_codes_def)
qed (auto simp: lookup_error_def)

end
