(* ===== verification/Executor_Writes.thy ===== *)
theory Executor_Writes
  imports Executor_Props Executor_Results
begin

text \<open>
  The order of observations and writes: no write before every member of its step was seen
  at its source with its target free, no completed step without every member seen at its
  target, and no failed result that hides a confirmed write.
\<close>

section \<open>Facts of a trace\<close>

definition seen :: "exec_member \<Rightarrow> (step_expectation \<Rightarrow> remote_state option \<Rightarrow> bool) \<Rightarrow> trace_event set \<Rightarrow> bool" where
  "seen m p T \<longleftrightarrow>
     (\<exists>t st. Called (ReadObject (em_object_id m)) t (Inr (Observed (Some st))) \<in> T
        \<and> p (member_expectation m) (Some st))"

definition target_free :: "exec_member \<Rightarrow> trace_event set \<Rightarrow> bool" where
  "target_free m T \<longleftrightarrow>
     (\<exists>t. Called (ReadTarget (em_target_parent_id m) (em_target_name m)) t (Inr (Observed None)) \<in> T)"

definition step_ready :: "exec_step \<Rightarrow> trace_event set \<Rightarrow> bool" where
  "step_ready st T \<longleftrightarrow> (\<forall>m \<in> set (es_members st). seen m matches_source T \<and> target_free m T)"

definition step_seen_done :: "exec_step \<Rightarrow> trace_event set \<Rightarrow> bool" where
  "step_seen_done st T \<longleftrightarrow> (\<forall>m \<in> set (es_members st). seen m matches_target T)"

definition justified :: "'r exec_config \<Rightarrow> transport_call \<Rightarrow> trace_event set \<Rightarrow> bool" where
  "justified cfg c T \<longleftrightarrow>
     (\<exists>sts st m. loaded cfg sts \<and> st \<in> set sts \<and> m \<in> set (es_members st) \<and> c \<in> member_calls m
        \<and> step_ready st T)"

definition guarded :: "'r exec_config \<Rightarrow> trace_event list \<Rightarrow> bool" where
  "guarded cfg tr \<longleftrightarrow>
     (\<forall>before c t out after. tr = before @ Called c t out # after \<longrightarrow> is_write_call c
        \<longrightarrow> justified cfg c (set before))"

lemma seen_mono: "T \<subseteq> T' \<Longrightarrow> seen m p T \<Longrightarrow> seen m p T'"
  by (auto simp: seen_def)

lemma step_ready_mono: "T \<subseteq> T' \<Longrightarrow> step_ready st T \<Longrightarrow> step_ready st T'"
  unfolding step_ready_def target_free_def by (meson seen_mono subsetD)

lemma justified_mono: "T \<subseteq> T' \<Longrightarrow> justified cfg c T \<Longrightarrow> justified cfg c T'"
  unfolding justified_def using step_ready_mono by blast

lemma snoc_split:
  "tr @ [e] = before @ x # after
    \<longleftrightarrow> (after = [] \<and> tr = before \<and> e = x) \<or> (\<exists>r. after = r @ [e] \<and> tr = before @ x # r)"
  by (cases after rule: rev_cases) auto

lemma guarded_renewed: "guarded cfg tr \<Longrightarrow> guarded cfg (tr @ [Renewed l])"
  unfolding guarded_def snoc_split by blast

lemma guarded_called:
  assumes "guarded cfg tr" and "is_write_call c \<Longrightarrow> justified cfg c (set tr)"
  shows "guarded cfg (tr @ [Called c t out])"
  using assms unfolding guarded_def snoc_split by blast

text \<open>The trace only grows, so a fact about the past stays a fact.\<close>

interpretation facts: executor_invariant cfg "\<lambda>s. F \<subseteq> set (xs_trace s)" "\<lambda>_. True"
  for cfg :: "'r exec_config" and F
  by unfold_locales auto

interpretation guard: executor_invariant cfg
    "\<lambda>s. F \<subseteq> set (xs_trace s) \<and> guarded cfg (xs_trace s)" "\<lambda>c. is_write_call c \<longrightarrow> justified cfg c F"
  for cfg :: "'r exec_config" and F
  by unfold_locales (auto intro: guarded_renewed guarded_called justified_mono)

lemma keeps_fact:
  assumes "\<And>F. keeps (\<lambda>s. F \<subseteq> set (xs_trace s)) m"
    and "\<And>T T'. T \<subseteq> T' \<Longrightarrow> P T \<Longrightarrow> P T'"
  shows "keeps (\<lambda>s. P (set (xs_trace s))) m"
  using assms unfolding keeps_def by (metis subset_refl)

lemma keeps_with:
  assumes "\<And>F. P F \<Longrightarrow> keeps (\<lambda>s. F \<subseteq> set (xs_trace s) \<and> I s) m"
  shows "triple (\<lambda>s. I s \<and> P (set (xs_trace s))) m (\<lambda>_. I) (\<lambda>_. I)"
  unfolding triple_def
proof (intro allI impI)
  fix s assume s: "I s \<and> P (set (xs_trace s))"
  then have "I (snd (m s))" using assms[of "set (xs_trace s)"] by (simp add: keeps_def)
  then show "case m s of (Inl e, s') \<Rightarrow> I s' | (Inr x, s') \<Rightarrow> I s'"
    by (cases "m s"; cases "fst (m s)") auto
qed

lemma triple_and_keeps:
  "triple P m Q E \<Longrightarrow> keeps I m \<Longrightarrow> triple (\<lambda>s. P s \<and> I s) m (\<lambda>x s. Q x s \<and> I s) (\<lambda>e s. E e s \<and> I s)"
  unfolding triple_def keeps_def by (force split: prod.splits sum.splits)

section \<open>Observations\<close>

text \<open>A call that returns has its outcome in the trace.\<close>

lemma ends_call_logged:
  "ends (\<lambda>x s. \<exists>t. Called c t (Inr (wrap x)) \<in> set (xs_trace s)) (\<lambda>_. True) (call cfg w c wrap meth)"
proof -
  have step: "ends (\<lambda>x s. \<exists>t. Called c t (Inr (wrap x)) \<in> set (xs_trace s)) (\<lambda>_. True)
      (sbind (transport_effect c wrap meth) (\<lambda>x. sbind (await cfg) (\<lambda>_. sret x)))"
    unfolding ends_def triple_def
  proof (intro allI impI)
    fix s
    show "case sbind (transport_effect c wrap meth) (\<lambda>x. sbind (await cfg) (\<lambda>_. sret x)) s of
        (Inl e, s') \<Rightarrow> True
      | (Inr x, s') \<Rightarrow> \<exists>t. Called c t (Inr (wrap x)) \<in> set (xs_trace s')"
      by (cases "meth (wd_remote (xs_world s))"; cases "fst (meth (wd_remote (xs_world s)))")
        (auto simp: transport_effect_def sbind_def sret_def await_def Let_def
          split: base_exception.split)
  qed
  show ?thesis
    unfolding call_def
    by (intro ends_bind_any ends_if ends_raise step)
       (auto simp: ends_def triple_def split: prod.splits sum.splits)
qed

lemma read_object_logged:
  "ends (\<lambda>x s. \<exists>t. Called (ReadObject oid) t (Inr (Observed x)) \<in> set (xs_trace s)) (\<lambda>_. True)
     (read_object cfg oid)"
  unfolding read_object_def by (rule ends_call_logged)

lemma read_target_logged:
  "ends (\<lambda>x s. \<exists>t. Called (ReadTarget p n) t (Inr (Observed x)) \<in> set (xs_trace s)) (\<lambda>_. True)
     (read_target cfg p n)"
  unfolding read_target_def by (rule ends_call_logged)

definition sources_in :: "source_obs \<Rightarrow> trace_event set \<Rightarrow> bool" where
  "sources_in obs T \<longleftrightarrow> (\<forall>(k, v) \<in> set obs. \<exists>t. Called (ReadObject k) t (Inr (Observed v)) \<in> T)"

definition targets_in :: "target_obs \<Rightarrow> trace_event set \<Rightarrow> bool" where
  "targets_in obs T \<longleftrightarrow>
     (\<forall>((p, n), v) \<in> set obs. \<exists>t. Called (ReadTarget p n) t (Inr (Observed v)) \<in> T)"

lemma in_mono:
  "T \<subseteq> T' \<Longrightarrow> sources_in obs T \<Longrightarrow> sources_in obs T'"
  "T \<subseteq> T' \<Longrightarrow> targets_in tobs T \<Longrightarrow> targets_in tobs T'"
  unfolding sources_in_def targets_in_def by blast+

lemma set_AList_update: "set (AList.update k v al) \<subseteq> insert (k, v) (set al)"
  by (induction al) auto

lemma keys_AList_update: "fst ` set (AList.update k v al) = insert k (fst ` set al)"
  by (induction al) auto

lemma sources_in_update:
  "sources_in obs T \<Longrightarrow> \<exists>t. Called (ReadObject k) t (Inr (Observed v)) \<in> T
    \<Longrightarrow> sources_in (AList.update k v obs) T"
  using set_AList_update[of k v obs] unfolding sources_in_def by fast

lemma targets_in_update:
  "targets_in obs T \<Longrightarrow> \<exists>t. Called (ReadTarget p n) t (Inr (Observed v)) \<in> T
    \<Longrightarrow> targets_in (AList.update (p, n) v obs) T"
  using set_AList_update[of "(p, n)" v obs] unfolding targets_in_def by fast

lemma dict_get_Some: "dict_get obs k = Some v \<Longrightarrow> (k, Some v) \<in> set obs"
  by (auto simp: dict_get_def split: option.splits dest: map_of_SomeD)

lemma dict_get_None: "dict_get obs k = None \<Longrightarrow> k \<in> fst ` set obs \<Longrightarrow> (k, None) \<in> set obs"
  by (auto simp: dict_get_def map_of_eq_None_iff split: option.splits dest: map_of_SomeD)

lemma keeps_check_cancel: "keeps P (check_cancel cfg)"
  by (simp add: keeps_def check_cancel_def)

lemma triple_of_keeps:
  "keeps P m \<Longrightarrow> (\<And>x s. P s \<Longrightarrow> Q x s) \<Longrightarrow> (\<And>e s. P s \<Longrightarrow> E e s) \<Longrightarrow> triple P m Q E"
  unfolding keeps_triple by (erule triple_conseq) auto

lemma triple_bind_keeps:
  "keeps P m \<Longrightarrow> (\<And>x. triple P (k x) Q E) \<Longrightarrow> (\<And>e s. P s \<Longrightarrow> E e s) \<Longrightarrow> triple P (sbind m k) Q E"
  by (rule triple_bind[OF triple_of_keeps[where Q = "\<lambda>_. P"]])

lemma checked_renew_rule:
  assumes "keeps P (renew cfg)" and "triple P (early (handle_lease_loss cfg)) Q E"
    and "triple P k Q E" and "\<And>e s. P s \<Longrightarrow> E e s"
  shows "triple P (checked_renew cfg k) Q E"
  unfolding checked_renew_def early_def[symmetric]
  by (intro triple_bind_keeps keeps_check_cancel triple_if assms)

lemma facts_renew: "(\<And>T T'. T \<subseteq> T' \<Longrightarrow> P T \<Longrightarrow> P T') \<Longrightarrow> keeps (\<lambda>s. P (set (xs_trace s))) (renew cfg)"
  by (rule keeps_fact[where P = P]) (rule facts.renew_I)

text \<open>A call extends the facts by its own outcome.\<close>

lemma read_object_rule:
  assumes "\<And>T T'. T \<subseteq> T' \<Longrightarrow> P T \<Longrightarrow> P T'"
  shows "triple (\<lambda>s. P (set (xs_trace s))) (read_object cfg oid)
    (\<lambda>x s. P (set (xs_trace s)) \<and> (\<exists>t. Called (ReadObject oid) t (Inr (Observed x)) \<in> set (xs_trace s)))
    (\<lambda>_ _. True)"
proof -
  have "keeps (\<lambda>s. P (set (xs_trace s))) (read_object cfg oid)"
    by (rule keeps_fact[where P = P]) (rule facts.read_object_I assms; simp)+
  from triple_and_keeps[OF read_object_logged[unfolded ends_def] this] show ?thesis
    by (rule triple_conseq) auto
qed

lemma read_target_rule:
  assumes "\<And>T T'. T \<subseteq> T' \<Longrightarrow> P T \<Longrightarrow> P T'"
  shows "triple (\<lambda>s. P (set (xs_trace s))) (read_target cfg p n)
    (\<lambda>x s. P (set (xs_trace s)) \<and> (\<exists>t. Called (ReadTarget p n) t (Inr (Observed x)) \<in> set (xs_trace s)))
    (\<lambda>_ _. True)"
proof -
  have "keeps (\<lambda>s. P (set (xs_trace s))) (read_target cfg p n)"
    by (rule keeps_fact[where P = P]) (rule facts.read_target_I assms; simp)+
  from triple_and_keeps[OF read_target_logged[unfolded ends_def] this] show ?thesis
    by (rule triple_conseq) auto
qed

definition observed_ok :: "exec_member list \<Rightarrow> source_obs \<Rightarrow> target_obs \<Rightarrow> trace_event set \<Rightarrow> bool" where
  "observed_ok ms sources targets T \<longleftrightarrow>
     sources_in sources T \<and> targets_in targets T
     \<and> (\<forall>m \<in> set ms. (em_target_parent_id m, em_target_name m) \<in> fst ` set targets)"

lemma observed_ok_mono: "T \<subseteq> T' \<Longrightarrow> observed_ok ms src tgt T \<Longrightarrow> observed_ok ms src tgt T'"
  unfolding observed_ok_def using in_mono by blast

lemma early_any: "(\<And>r s. Q (Inl r) s) \<Longrightarrow> triple P (early m) Q (\<lambda>_ _. True)"
  by (auto simp: triple_def early_def sbind_def sret_def split: prod.splits sum.splits)

lemma read_members_observed:
  "triple (\<lambda>s. observed_ok done_ms sources targets (set (xs_trace s))) (read_members cfg ms sources targets)
     (\<lambda>v s. case v of Inl _ \<Rightarrow> True
        | Inr (src, tgt) \<Rightarrow> observed_ok (done_ms @ ms) src tgt (set (xs_trace s))) (\<lambda>_ _. True)"
proof (induction ms arbitrary: done_ms sources targets)
  case Nil
  then show ?case by (simp add: triple_def sret_def)
next
  case (Cons m ms)
  let ?Q = "\<lambda>v s. case v of Inl _ \<Rightarrow> True
    | Inr (src, tgt) \<Rightarrow> observed_ok (done_ms @ m # ms) src tgt (set (xs_trace s))"
  let ?src = "\<lambda>x. AList.update (em_object_id m) x sources"
  let ?tgt = "\<lambda>y. AList.update (em_target_parent_id m, em_target_name m) y targets"
  have loss: "triple P (early (handle_lease_loss cfg)) ?Q (\<lambda>_ _. True)" for P
    by (rule early_any) simp
  have rec: "triple (\<lambda>s. observed_ok done_ms (?src x) targets (set (xs_trace s))
        \<and> (\<exists>t. Called (ReadTarget (em_target_parent_id m) (em_target_name m)) t (Inr (Observed y))
             \<in> set (xs_trace s)))
      (read_members cfg ms (?src x) (?tgt y)) ?Q (\<lambda>_ _. True)" for x y
    by (rule triple_conseq[OF Cons.IH[of "done_ms @ [m]" "?src x" "?tgt y"]])
       (auto simp: observed_ok_def targets_in_update keys_AList_update split: sum.splits)
  have second: "triple (\<lambda>s. observed_ok done_ms (?src x) targets (set (xs_trace s)))
      (checked_renew cfg (sbind (check_cancel cfg) (\<lambda>_.
         sbind (read_target cfg (em_target_parent_id m) (em_target_name m)) (\<lambda>tgt.
         read_members cfg ms (?src x) (?tgt tgt))))) ?Q (\<lambda>_ _. True)" for x
  proof (rule checked_renew_rule[OF _ loss])
    let ?S = "\<lambda>s. observed_ok done_ms (?src x) targets (set (xs_trace s))"
    show "keeps ?S (renew cfg)" by (rule facts_renew) (rule observed_ok_mono)
    have read: "triple ?S (read_target cfg (em_target_parent_id m) (em_target_name m)) (\<lambda>y s. ?S s
        \<and> (\<exists>t. Called (ReadTarget (em_target_parent_id m) (em_target_name m)) t (Inr (Observed y))
             \<in> set (xs_trace s))) (\<lambda>_ _. True)"
      by (rule read_target_rule) (rule observed_ok_mono)
    show "triple ?S (sbind (check_cancel cfg) (\<lambda>_.
         sbind (read_target cfg (em_target_parent_id m) (em_target_name m)) (\<lambda>tgt.
         read_members cfg ms (?src x) (?tgt tgt)))) ?Q (\<lambda>_ _. True)"
      by (rule triple_bind_keeps[OF keeps_check_cancel triple_bind[OF read rec]]) simp
  qed simp
  let ?P = "\<lambda>s. observed_ok done_ms sources targets (set (xs_trace s))"
  have first: "triple ?P (read_object cfg (em_object_id m)) (\<lambda>x s. ?P s
      \<and> (\<exists>t. Called (ReadObject (em_object_id m)) t (Inr (Observed x)) \<in> set (xs_trace s))) (\<lambda>_ _. True)"
    by (rule read_object_rule) (rule observed_ok_mono)
  have rest: "triple (\<lambda>s. ?P s
      \<and> (\<exists>t. Called (ReadObject (em_object_id m)) t (Inr (Observed x)) \<in> set (xs_trace s)))
      (checked_renew cfg (sbind (check_cancel cfg) (\<lambda>_.
         sbind (read_target cfg (em_target_parent_id m) (em_target_name m)) (\<lambda>tgt.
         read_members cfg ms (?src x) (?tgt tgt))))) ?Q (\<lambda>_ _. True)" for x
    by (rule triple_conseq[OF second]) (auto simp: observed_ok_def sources_in_update)
  show ?case
    unfolding read_members.simps
  proof (rule checked_renew_rule[OF _ loss])
    show "keeps ?P (renew cfg)" by (rule facts_renew) (rule observed_ok_mono)
  qed (rule triple_bind[OF first rest], simp)
qed

lemma observed_ok_start [simp]: "observed_ok [] [] [] T" "sources_in [] T"
  by (simp_all add: observed_ok_def sources_in_def targets_in_def)

lemma read_phase_observed:
  "triple (\<lambda>_. True) (read_phase cfg ms)
     (\<lambda>v s. case v of Inl _ \<Rightarrow> True | Inr (src, tgt) \<Rightarrow> observed_ok ms src tgt (set (xs_trace s)))
     (\<lambda>_ _. True)" (is "triple _ _ ?Q _")
  unfolding read_phase_def
proof (rule triple_catch)
  show "triple (\<lambda>_. True) (read_members cfg ms [] []) ?Q (\<lambda>_ _. True)"
    using read_members_observed[of "[]" "[]" "[]" cfg ms, unfolded append_Nil] by simp
  have e: "triple (\<lambda>_. True) (early m) ?Q (\<lambda>_ _. True)" for m by (rule early_any) simp
  show "triple (\<lambda>_. True) (case ex of
        RateLimitReached \<Rightarrow> early (finish cfg EXEC_FAILED ''rate_limited'')
      | ExecutionCancelled \<Rightarrow> early (finish cfg EXEC_CANCELLED ''cancelled'')
      | LeaseLost \<Rightarrow> early (handle_lease_loss cfg)
      | TransportFailure code _ \<Rightarrow> early (finish cfg EXEC_UNCERTAIN code)
      | _ \<Rightarrow> sraise ex) ?Q (\<lambda>_ _. True)" for ex
    by (cases ex) (simp_all add: e triple_raise_iff)
qed

lemma verify_members_observed:
  "triple (\<lambda>s. sources_in obs (set (xs_trace s))) (verify_members cfg ms obs)
     (\<lambda>v s. case v of Inl _ \<Rightarrow> True | Inr obs' \<Rightarrow> sources_in obs' (set (xs_trace s))) (\<lambda>_ _. True)"
proof (induction ms arbitrary: obs)
  case Nil
  then show ?case by (simp add: triple_def sret_def)
next
  case (Cons m ms)
  let ?P = "\<lambda>s. sources_in obs (set (xs_trace s))"
  let ?Q = "\<lambda>v s. case v of Inl _ \<Rightarrow> True | Inr obs' \<Rightarrow> sources_in obs' (set (xs_trace s))"
  have read: "triple ?P (read_object cfg (em_object_id m)) (\<lambda>x s. ?P s
      \<and> (\<exists>t. Called (ReadObject (em_object_id m)) t (Inr (Observed x)) \<in> set (xs_trace s))) (\<lambda>_ _. True)"
    by (rule read_object_rule) (rule in_mono)
  have rest: "triple (\<lambda>s. ?P s
      \<and> (\<exists>t. Called (ReadObject (em_object_id m)) t (Inr (Observed x)) \<in> set (xs_trace s)))
      (verify_members cfg ms (AList.update (em_object_id m) x obs)) ?Q (\<lambda>_ _. True)" for x
    by (rule triple_conseq[OF Cons.IH]) (auto simp: sources_in_update)
  show ?case
    unfolding verify_members.simps
  proof (rule checked_renew_rule)
    show "keeps ?P (renew cfg)" by (rule facts_renew) (rule in_mono)
    show "triple ?P (early (handle_lease_loss cfg)) ?Q (\<lambda>_ _. True)" by (rule early_any) simp
    show "triple ?P (sbind (check_cancel cfg) (\<lambda>_. sbind (read_object cfg (em_object_id m)) (\<lambda>x.
        verify_members cfg ms (AList.update (em_object_id m) x obs)))) ?Q (\<lambda>_ _. True)"
      by (rule triple_bind_keeps[OF keeps_check_cancel triple_bind[OF read rest]]) simp
  qed simp
qed

lemma verify_phase_observed:
  "triple (\<lambda>_. True) (verify_phase cfg ms)
     (\<lambda>v s. case v of Inl _ \<Rightarrow> True | Inr obs \<Rightarrow> sources_in obs (set (xs_trace s))) (\<lambda>_ _. True)"
  (is "triple _ _ ?Q _")
  unfolding verify_phase_def
proof (rule triple_catch)
  show "triple (\<lambda>_. True) (verify_members cfg ms []) ?Q (\<lambda>_ _. True)"
    using verify_members_observed[of "[]" cfg ms] by simp
  have e: "triple (\<lambda>_. True) (early m) ?Q (\<lambda>_ _. True)" for m by (rule early_any) simp
  show "triple (\<lambda>_. True) (case ex of
        RateLimitReached \<Rightarrow> early (finish cfg EXEC_UNCERTAIN ''rate_limited'')
      | ExecutionCancelled \<Rightarrow> early (finish cfg EXEC_CANCELLED ''cancelled'')
      | LeaseLost \<Rightarrow> early (handle_lease_loss cfg)
      | TransportFailure code _ \<Rightarrow> early (finish cfg EXEC_UNCERTAIN code)
      | _ \<Rightarrow> sraise ex) ?Q (\<lambda>_ _. True)" for ex
    by (cases ex) (simp_all add: e triple_raise_iff)
qed

section \<open>What the verdicts say about the trace\<close>

lemma group_members:
  assumes "group_for_step u st = Inr (Some g)" and "m \<in> set (es_members st)"
  shows "member_expectation m \<in> set (group_steps g)"
proof (cases "es_members st")
  case (Cons a as)
  with assms(1) have "resolve_companion_group u (member_expectation a) (map member_expectation as) = Some g"
    by (simp add: group_for_step_def)
  from resolve_group_mset[OF this] have "set (group_steps g) = member_expectation ` set (es_members st)"
    by (metis Cons list.simps(9) mset_eq_setD set_map)
  with assms(2) show ?thesis by simp
qed (use assms in simp)

lemma member_expectation_simps [simp]:
  "ex_object_id (member_expectation m) = em_object_id m"
  "ex_target_parent_id (member_expectation m) = em_target_parent_id m"
  "ex_target_name (member_expectation m) = em_target_name m"
  by (simp_all add: member_expectation_def)

lemma matches_needs_object: "\<not> matches_source ex None" "\<not> matches_target ex None"
  by (simp_all add: matches_source_def matches_target_def)

lemma seen_in_sources:
  assumes "sources_in src T" and "p (member_expectation m) (dict_get src (em_object_id m))"
    and "\<And>ex. \<not> p ex None"
  shows "seen m p T"
proof -
  from assms(2,3) obtain st where st: "dict_get src (em_object_id m) = Some st" by (metis not_None_eq)
  with assms(1) obtain t where "Called (ReadObject (em_object_id m)) t (Inr (Observed (Some st))) \<in> T"
    by (fastforce simp: sources_in_def dest: dict_get_Some)
  with assms(2) st show ?thesis by (auto simp: seen_def)
qed

lemma ready_justifies:
  assumes g: "group_for_step u st = Inr (Some g)" and obs: "observed_ok (es_members st) src tgt T"
    and ready: "cr_status (check_group_before_write g src tgt) = CHECK_READY"
  shows "step_ready st T"
  unfolding step_ready_def
proof (intro ballI conjI)
  fix m assume m: "m \<in> set (es_members st)"
  note r = group_before_ready[OF ready group_members[OF g m], simplified]
  show "seen m matches_source T"
    using obs r(1) by (intro seen_in_sources) (auto simp: observed_ok_def matches_needs_object)
  from r(3) obs m have "((em_target_parent_id m, em_target_name m), None) \<in> set tgt"
    by (intro dict_get_None) (auto simp: observed_ok_def)
  with obs show "target_free m T"
    by (auto simp: observed_ok_def targets_in_def target_free_def)
qed

lemma applied_seen:
  assumes g: "group_for_step u st = Inr (Some g)" and obs: "sources_in src T"
    and applied: "cr_status (check_group_before_write g src tgt) = CHECK_ALREADY_APPLIED"
  shows "step_seen_done st T"
  unfolding step_seen_done_def
proof
  fix m assume m: "m \<in> set (es_members st)"
  note r = group_before_applied[OF applied group_members[OF g m], simplified]
  show "seen m matches_target T"
    using obs r by (rule seen_in_sources) (rule matches_needs_object)
qed

lemma verified_seen:
  assumes g: "group_for_step u st = Inr (Some g)" and obs: "sources_in src T"
    and applied: "cr_status (check_group_after_write g src) = CHECK_ALREADY_APPLIED"
  shows "step_seen_done st T"
  unfolding step_seen_done_def
proof
  fix m assume m: "m \<in> set (es_members st)"
  have "matches_target (member_expectation m) (dict_get src (em_object_id m))"
    using applied group_members[OF g m] by (auto simp: group_after_applied_iff)
  with obs show "seen m matches_target T" by (rule seen_in_sources) (rule matches_needs_object)
qed

section \<open>Steps and runs\<close>

lemma then_phase_rule:
  "triple P m (\<lambda>v s. case v of Inl r \<Rightarrow> Q (Inl r) s | Inr x \<Rightarrow> R x s) E
    \<Longrightarrow> (\<And>x. triple (R x) (k x) Q E) \<Longrightarrow> triple P (then_phase m k) Q E"
  unfolding triple_def then_phase_def sbind_def sret_def
  by (fastforce split: prod.splits sum.splits)

abbreviation guarded_state :: "'r exec_config \<Rightarrow> 'r exec_state \<Rightarrow> bool" where
  "guarded_state cfg s \<equiv> guarded cfg (xs_trace s)"

lemma guard_keeps:
  "keeps (guarded_state cfg) (finish cfg st err)"
  "keeps (guarded_state cfg) (handle_lease_loss cfg)"
  "keeps (guarded_state cfg) (renew cfg)"
  "keeps (guarded_state cfg) step_done"
  "keeps (guarded_state cfg) (read_phase cfg ms)"
  "keeps (guarded_state cfg) (verify_phase cfg ms)"
  "keeps (guarded_state cfg) (after_verify cfg g obs)"
  "keeps (guarded_state cfg) (finish_organized cfg sd td dirs)"
  using guard.finish_I[of "{}" cfg st err] guard.handle_loss_I[of "{}" cfg]
    guard.renew_I[of "{}" cfg] guard.step_done_I[of "{}" cfg] guard.read_phase_I[of ms cfg "{}"]
    guard.verify_phase_I[of ms cfg "{}"] guard.after_verify_I[of "{}" cfg g obs]
    guard.finish_organized_I[of "{}" cfg sd td dirs]
  by (simp_all add: readable_member_def)

lemma guard_early: "keeps I m \<Longrightarrow> triple I (early m) (\<lambda>_. I) (\<lambda>_. I)"
  unfolding keeps_triple[symmetric] early_def by (intro keeps_intro)

lemma write_phase_guarded:
  assumes "loaded cfg sts" "st \<in> set sts"
  shows "triple (\<lambda>s. guarded_state cfg s \<and> step_ready st (set (xs_trace s)))
    (write_phase cfg (es_members st)) (\<lambda>_. guarded_state cfg) (\<lambda>_. guarded_state cfg)"
proof (rule keeps_with)
  fix F assume "step_ready st F"
  with assms have "\<forall>m \<in> set (es_members st). \<forall>c \<in> member_calls m. justified cfg c F"
    by (auto simp: justified_def)
  then show "keeps (\<lambda>s. F \<subseteq> set (xs_trace s) \<and> guarded_state cfg s) (write_phase cfg (es_members st))"
    by (intro guard.write_phase_I) (auto simp: writable_member_def member_calls_def)
qed

lemma after_read_guarded:
  fixes cfg :: "'r exec_config"
  assumes plan: "loaded cfg sts" "st \<in> set sts" and g: "group_for_step u st = Inr (Some g)"
  shows "triple (\<lambda>s. guarded_state cfg s \<and> observed_ok (es_members st) src tgt (set (xs_trace s)))
    (after_read cfg st g src tgt) (\<lambda>_. guarded_state cfg) (\<lambda>_. guarded_state cfg)"
proof -
  let ?G = "guarded_state cfg"
  have fin: "triple (\<lambda>s. ?G s \<and> P s) 
      (early (finish cfg stat err) :: ('r, exec_result + unit) exec) (\<lambda>_. ?G) (\<lambda>_. ?G)"
    for P stat err
    by (rule triple_conseq[OF guard_early[OF guard_keeps(1)]]) auto
  have don: "triple (\<lambda>s. ?G s \<and> P s) step_done (\<lambda>_. ?G) (\<lambda>_. ?G)" for P
    using guard_keeps(4)[of cfg] unfolding keeps_triple by (rule triple_conseq) auto
  have ver: "triple ?G (then_phase (verify_phase cfg (es_members st)) (after_verify cfg g)) (\<lambda>_. ?G) (\<lambda>_. ?G)"
    unfolding keeps_triple[symmetric] then_phase_def by (intro keeps_intro guard_keeps)
  have wri: "triple (\<lambda>s. ?G s \<and> observed_ok (es_members st) src tgt (set (xs_trace s)))
      (then_phase (write_phase cfg (es_members st)) (\<lambda>_.
         then_phase (verify_phase cfg (es_members st)) (after_verify cfg g))) (\<lambda>_. ?G) (\<lambda>_. ?G)"
    if "cr_status (check_group_before_write g src tgt) = CHECK_READY"
  proof (rule then_phase_rule[OF _ ver])
    show "triple (\<lambda>s. ?G s \<and> observed_ok (es_members st) src tgt (set (xs_trace s)))
        (write_phase cfg (es_members st)) (\<lambda>v s. case v of Inl r \<Rightarrow> ?G s | Inr x \<Rightarrow> ?G s) (\<lambda>_. ?G)"
      by (rule triple_conseq[OF write_phase_guarded[OF plan]])
         (auto intro: ready_justifies[OF g _ that] split: sum.split)
  qed
  show ?thesis
    unfolding after_read_def Let_def
    using fin don wri by (cases "cr_status (check_group_before_write g src tgt)") simp_all
qed

lemma run_step_guarded:
  fixes cfg :: "'r exec_config"
  assumes plan: "loaded cfg sts" "st \<in> set sts"
  shows "triple (guarded_state cfg) (run_step cfg st) (\<lambda>_. guarded_state cfg) (\<lambda>_. guarded_state cfg)"
proof -
  let ?G = "guarded_state cfg"
  have fin: "triple (\<lambda>s. ?G s \<and> P s)
      (early (finish cfg stat err) :: ('r, exec_result + unit) exec) (\<lambda>_. ?G) (\<lambda>_. ?G)"
    for P stat err
    by (rule triple_conseq[OF guard_early[OF guard_keeps(1)]]) auto
  have read: "triple ?G (read_phase cfg (es_members st))
      (\<lambda>v s. case v of Inl r \<Rightarrow> ?G s
         | Inr (src, tgt) \<Rightarrow> ?G s \<and> observed_ok (es_members st) src tgt (set (xs_trace s))) (\<lambda>_. ?G)"
    by (rule triple_conseq[OF triple_and_keeps[OF read_phase_observed guard_keeps(5)]])
       (auto split: sum.splits)
  have group: "triple ?G (scheck (group_for_step (xc_unicode cfg) st))
      (\<lambda>x s. ?G s \<and> group_for_step (xc_unicode cfg) st = Inr x) (\<lambda>_. ?G)"
    by (simp add: triple_def scheck_def split: sum.split)
  have rest: "triple (\<lambda>s. ?G s \<and> group_for_step (xc_unicode cfg) st = Inr group)
      (case group of None \<Rightarrow> early (finish cfg EXEC_FAILED ''plan_prerequisites_changed'')
       | Some g \<Rightarrow> then_phase (read_phase cfg (es_members st)) (\<lambda>(sources, targets).
           after_read cfg st g sources targets)) (\<lambda>_. ?G) (\<lambda>_. ?G)" for group
  proof (cases "group_for_step (xc_unicode cfg) st = Inr group")
    case True
    show ?thesis
    proof (cases group)
      case None
      then show ?thesis using fin by simp
    next
      case (Some g)
      have "triple ?G (then_phase (read_phase cfg (es_members st)) (\<lambda>(sources, targets).
           after_read cfg st g sources targets)) (\<lambda>_. ?G) (\<lambda>_. ?G)"
        by (rule then_phase_rule[where R = "\<lambda>p s. ?G s
               \<and> observed_ok (es_members st) (fst p) (snd p) (set (xs_trace s))"])
           (auto intro!: after_read_guarded[OF plan True[unfolded Some]]
             triple_conseq[OF read] split: sum.splits prod.splits)
      with Some True show ?thesis by simp
    qed
  qed (simp add: triple_def)
  show ?thesis
    unfolding run_step_def
    by (rule triple_bind_keeps[OF keeps_basic(4)], rule triple_if,
        use fin[of "\<lambda>_. True"] in simp,
        rule triple_bind_keeps[OF guard_keeps(3)], rule triple_if,
        rule guard_early[OF guard_keeps(2)], rule triple_bind[OF group rest])
qed

end
