(* ===== verification/Executor_Outcome.thy ===== *)
theory Executor_Outcome
  imports Executor_Writes
begin

text \<open>
  What a result of the executor means: an organized result has seen every planned object at
  its target and stored the row and its dirty events together; a failed result that
  completed no step has confirmed no write.
\<close>

section \<open>Completed steps were seen\<close>

lemma step_done_rule: "triple (\<lambda>s. R (set (xs_trace s))) step_done
    (\<lambda>v s. case v of Inl _ \<Rightarrow> True | Inr _ \<Rightarrow> R (set (xs_trace s))) (\<lambda>_ _. True)"
  by (simp add: triple_def step_done_def sbind_def sret_def modify_ctx_def)

lemma after_verify_seen:
  fixes cfg :: "'r exec_config"
  assumes "group_for_step u st = Inr (Some g)"
  shows "triple (\<lambda>s. sources_in obs (set (xs_trace s))) (after_verify cfg g obs)
    (\<lambda>v s. case v of Inl _ \<Rightarrow> True | Inr _ \<Rightarrow> step_seen_done st (set (xs_trace s))) (\<lambda>_ _. True)"
proof -
  let ?Q = "\<lambda>v s. case v of Inl _ \<Rightarrow> True | Inr _ \<Rightarrow> step_seen_done st (set (xs_trace s))"
  have e: "triple P (early m :: ('r, exec_result + unit) exec) ?Q (\<lambda>_ _. True)" for P m
    by (rule early_any) simp
  have "triple (\<lambda>s. sources_in obs (set (xs_trace s))) (step_done :: ('r, exec_result + unit) exec) ?Q (\<lambda>_ _. True)"
    if "cr_status (check_group_after_write g obs) = CHECK_ALREADY_APPLIED"
    by (rule triple_conseq[OF step_done_rule[of "step_seen_done st"]])
       (auto intro: verified_seen[OF assms _ that])
  with e show ?thesis by (simp add: after_verify_def Let_def)
qed

lemma run_step_seen:
  fixes cfg :: "'r exec_config"
  shows "triple (\<lambda>_. True) (run_step cfg st)
    (\<lambda>v s. case v of Inl _ \<Rightarrow> True | Inr _ \<Rightarrow> step_seen_done st (set (xs_trace s))) (\<lambda>_ _. True)"
    (is "triple _ _ ?Q _")
proof -
  have e: "triple P (early m :: ('r, exec_result + unit) exec) ?Q (\<lambda>_ _. True)" for P m
    by (rule early_any) simp
  have top: "triple P m (\<lambda>_ _. True) (\<lambda>_ _. True)" for P and m :: "('r, 'b) exec"
    by (simp add: triple_def split: prod.split sum.split)
  have ver: "triple (\<lambda>_. True) (then_phase (verify_phase cfg (es_members st)) (after_verify cfg g))
      ?Q (\<lambda>_ _. True)" if "group_for_step (xc_unicode cfg) st = Inr (Some g)" for g
    by (rule then_phase_rule[OF _ after_verify_seen[OF that]])
       (rule triple_conseq[OF verify_phase_observed]; auto split: sum.splits)
  have don: "triple (\<lambda>s. sources_in src (set (xs_trace s))) (step_done :: ('r, exec_result + unit) exec)
      ?Q (\<lambda>_ _. True)"
    if "group_for_step (xc_unicode cfg) st = Inr (Some g)"
      "cr_status (check_group_before_write g src tgt) = CHECK_ALREADY_APPLIED" for g src tgt
    by (rule triple_conseq[OF step_done_rule[of "step_seen_done st"]])
       (auto intro: applied_seen[OF that(1) _ that(2)])
  have wri: "triple P (then_phase (write_phase cfg (es_members st)) (\<lambda>_.
         then_phase (verify_phase cfg (es_members st)) (after_verify cfg g))) ?Q (\<lambda>_ _. True)"
    if "group_for_step (xc_unicode cfg) st = Inr (Some g)" for g P
    by (rule then_phase_rule[OF _ ver[OF that]])
       (rule triple_conseq[OF top[of "\<lambda>_. True"]]; auto split: sum.splits)
  have aft: "triple (\<lambda>s. sources_in src (set (xs_trace s))) (after_read cfg st g src tgt) ?Q (\<lambda>_ _. True)"
    if "group_for_step (xc_unicode cfg) st = Inr (Some g)" for g src tgt
    unfolding after_read_def Let_def using e don[OF that] wri[OF that] by simp
  have rd: "triple (\<lambda>_. True) (then_phase (read_phase cfg (es_members st)) (\<lambda>(sources, targets).
           after_read cfg st g sources targets)) ?Q (\<lambda>_ _. True)"
    if "group_for_step (xc_unicode cfg) st = Inr (Some g)" for g
  proof (rule then_phase_rule[where R = "\<lambda>p s. sources_in (fst p) (set (xs_trace s))"])
    show "triple (\<lambda>s. sources_in (fst p) (set (xs_trace s)))
        ((\<lambda>(sources, targets). after_read cfg st g sources targets) p) ?Q (\<lambda>_ _. True)" for p
      using aft[OF that] by (cases p) simp
  qed (rule triple_conseq[OF read_phase_observed]; auto simp: observed_ok_def split: sum.splits)
  have group: "triple (\<lambda>_. True) (scheck (group_for_step (xc_unicode cfg) st))
      (\<lambda>x s. group_for_step (xc_unicode cfg) st = Inr x) (\<lambda>_ _. True)"
    by (simp add: triple_def scheck_def split: sum.split)
  have rest: "triple (\<lambda>_. group_for_step (xc_unicode cfg) st = Inr group)
      (case group of None \<Rightarrow> early (finish cfg EXEC_FAILED ''plan_prerequisites_changed'')
       | Some g \<Rightarrow> then_phase (read_phase cfg (es_members st)) (\<lambda>(sources, targets).
           after_read cfg st g sources targets)) ?Q (\<lambda>_ _. True)" for group
    using e rd by (cases "group_for_step (xc_unicode cfg) st = Inr group"; cases group)
      (simp_all add: triple_def[of "\<lambda>_. False"])
  show ?thesis
    unfolding run_step_def
    by (rule triple_bind_keeps[OF keeps_basic(4)], rule triple_if, rule e,
        rule triple_bind[OF top], rule triple_if, rule e, rule triple_bind[OF group rest]) simp
qed

definition all_seen_done :: "exec_step list \<Rightarrow> trace_event set \<Rightarrow> bool" where
  "all_seen_done sts T \<longleftrightarrow> (\<forall>st \<in> set sts. step_seen_done st T)"

lemma all_seen_mono: "T \<subseteq> T' \<Longrightarrow> all_seen_done sts T \<Longrightarrow> all_seen_done sts T'"
  unfolding all_seen_done_def step_seen_done_def using seen_mono by blast

lemma run_loop_seen:
  fixes cfg :: "'r exec_config"
  shows "triple (\<lambda>s. all_seen_done done_sts (set (xs_trace s))) (run_loop cfg sts)
    (\<lambda>v s. case v of Inl _ \<Rightarrow> True | Inr _ \<Rightarrow> all_seen_done (done_sts @ sts) (set (xs_trace s)))
    (\<lambda>_ _. True)"
proof (induction sts arbitrary: done_sts)
  case Nil
  then show ?case by (simp add: triple_def sret_def)
next
  case (Cons st sts)
  have "keeps (\<lambda>s. all_seen_done done_sts (set (xs_trace s))) (run_step cfg st)"
    by (rule keeps_fact, rule facts.run_step_I, simp add: readable_member_def writable_member_def)
       (rule all_seen_mono)
  note one = triple_and_keeps[OF run_step_seen this]
  show ?case
    unfolding run_loop.simps
    by (rule then_phase_rule[where R = "\<lambda>_ s. all_seen_done (done_sts @ [st]) (set (xs_trace s))"],
        rule triple_conseq[OF one])
       (use Cons.IH[of "done_sts @ [st]"] in \<open>auto simp: all_seen_done_def split: sum.splits\<close>)
qed

section \<open>Guarded runs\<close>

lemma run_steps_guarded:
  assumes "loaded cfg sts"
  shows "triple (guarded_state cfg) (run_steps cfg sts) (\<lambda>_. guarded_state cfg) (\<lambda>_. guarded_state cfg)"
proof -
  have loop: "triple (guarded_state cfg) (run_loop cfg rest) (\<lambda>_. guarded_state cfg)
      (\<lambda>_. guarded_state cfg)" if "set rest \<subseteq> set sts" for rest
    using that
  proof (induction rest)
    case Nil
    then show ?case by (simp add: triple_def sret_def)
  next
    case (Cons st rest)
    then show ?case
      unfolding run_loop.simps
      by (intro then_phase_rule[OF triple_conseq[OF run_step_guarded[OF assms]]])
         (auto split: sum.splits)
  qed
  have k: "keeps (guarded_state cfg) (run_loop cfg sts)"
    unfolding keeps_triple by (rule loop) simp
  show ?thesis
    unfolding keeps_triple[symmetric] run_steps_def by (intro keeps_intro k guard_keeps)
qed

lemma guarded_empty: "guarded cfg []"
  by (simp add: guarded_def)

lemma execute_guarded:
  "triple (\<lambda>s. xs_trace s = []) (execute cfg oid rv token)
     (\<lambda>_. guarded_state cfg) (\<lambda>_. guarded_state cfg)"
proof (rule execute_rule[where J = "\<lambda>s. xs_trace s = []" and K = "guarded_state cfg"
      and E' = "\<lambda>_. guarded_state cfg"])
  have fin: "triple (guarded_state cfg) (finish cfg st err) (\<lambda>_. guarded_state cfg) (\<lambda>_. guarded_state cfg)"
    for st err using guard_keeps(1) unfolding keeps_triple .
  show "triple (guarded_state cfg) (finish cfg EXEC_FAILED ''plan_prerequisites_changed'')
     (\<lambda>_. guarded_state cfg) (\<lambda>_. guarded_state cfg)"
    "triple (guarded_state cfg) (finish cfg EXEC_UNCERTAIN ''cancelled'')
     (\<lambda>_. guarded_state cfg) (\<lambda>_. guarded_state cfg)" by (rule fin)+
qed (simp_all add: guarded_empty run_steps_guarded)

section \<open>Organized\<close>

definition stored_organized :: "pystr \<Rightarrow> pystr list \<Rightarrow> store \<Rightarrow> bool" where
  "stored_organized oid dirs st \<longleftrightarrow>
     (\<exists>r. get_op oid st = Some r \<and> op_status r = OP_ORGANIZED)
     \<and> (\<forall>d \<in> set dirs. \<exists>e \<in> set (events st). event_key e = (oid, d, directory_dirty_kind))"

lemma stored_organized_reach:
  assumes "stored_organized oid dirs st" "db_reach st st'" "store_ok st"
  shows "stored_organized oid dirs st'"
proof -
  from assms(1) obtain r where r: "get_op oid st = Some r" "op_status r = OP_ORGANIZED"
    by (auto simp: stored_organized_def)
  obtain r' where r': "get_op oid st' = Some r'" "r' = r \<or> op_revision r < op_revision r'"
    using reach_get_op[OF assms(2,3) r(1)] by metis
  have inv: "op_invariant (ops st)" "op_invariant (ops st')"
    using assms(3) db_reach_ok[OF assms(2,3)] by (simp_all add: store_ok_def)
  have "r \<in> set (ops st')"
    using settled_reach[OF assms(2)] r get_op_iff[OF inv(1)] by blast
  then have "get_op oid st' = Some r"
    using r(1) get_op_iff[OF inv(1)] get_op_iff[OF inv(2)] by blast
  with assms(1) r events_grow[OF assms(2)] show ?thesis
    unfolding stored_organized_def by blast
qed

lemma complete_stored:
  assumes "complete_organized nid clk oid rv tok sd td (Some dirs) now st = (Inr sm, st')"
    and "store_ok st"
  shows "stored_organized oid dirs st'" and "store_ok st'"
proof -
  from complete_effect[OF assms(2,1)]
  obtain r where "sm_status sm = OP_ORGANIZED" "get_op oid st' = Some r" "sm = summary r"
    "\<forall>d \<in> set dirs. \<exists>!e. e \<in> set (events st') \<and> event_key e = (oid, d, directory_dirty_kind)"
    by auto
  then show "stored_organized oid dirs st'" by (auto simp: stored_organized_def summary_def)
  have "db_reach st st'"
    using commits_complete[of nid clk oid rv tok sd td "Some dirs" now] assms(1)
    unfolding commits_only_def by (metis snd_conv)
  then show "store_ok st'" using assms(2) by (rule db_reach_ok)
qed

lemma complete_call_stored:
  assumes "complete_call cfg sd td dirs s = (Inr sm, s')" and "db_env cfg" and "store_ok (xs_store s)"
  shows "xs_ctx s' = xs_ctx s" "xs_trace s' = xs_trace s"
    and "stored_organized (lease_operation_id (cx_lease (xs_ctx s))) dirs (xs_store s')"
proof -
  let ?l = "cx_lease (xs_ctx s)"
  let ?m = "\<lambda>clk n. complete_organized (xc_ids cfg n) clk (lease_operation_id ?l)
       (lease_revision ?l) (lease_token ?l) sd td (Some dirs) (xc_now cfg)"
  from assms(1) have srv: "service cfg ?m s = (Inr sm, s')"
    by (simp add: complete_call_def with_lease_def sbind_def sget_def)
  then show "xs_ctx s' = xs_ctx s" "xs_trace s' = xs_trace s"
    using keepsD[OF service_ctx] by blast+
  from srv obtain s1 s2 where s1: "s1 = snd (await cfg s)" and eff: "service_effect ?m s1 = (Inr sm, s2)"
    and s': "s' = snd (await cfg s2)" by (rule service_Inr)
  from eff have "?m (wd_clock (xs_world s1)) (xs_tick s1) (xs_store s1) = (Inr sm, xs_store s2)"
    by (auto simp: service_effect_def split: prod.splits sum.splits)
  moreover have "store_ok (xs_store s1)"
    unfolding s1 by (rule db_reach_ok[OF await_store[OF assms(2)] assms(3)])
  ultimately have "stored_organized (lease_operation_id ?l) dirs (xs_store s2)" "store_ok (xs_store s2)"
    by (rule complete_stored)+
  then show "stored_organized (lease_operation_id ?l) dirs (xs_store s')"
    unfolding s' by (intro stored_organized_reach[OF _ await_store[OF assms(2)]])
qed

definition organized_claim :: "'r exec_config \<Rightarrow> exec_step list \<Rightarrow> exec_result \<Rightarrow> 'r exec_state \<Rightarrow> bool" where
  "organized_claim cfg sts r s \<longleftrightarrow>
     all_seen_done sts (set (xs_trace s))
     \<and> stored_organized (xr_operation_id r) (xc_set_order cfg (scope_ids sts)) (xs_store s)"

lemma finish_organized_claim:
  assumes "finish_organized cfg sd td (xc_set_order cfg (scope_ids sts)) s = (Inr r, s')"
    and "xr_status r = EXEC_ORGANIZED" and "db_env cfg" and "store_ok (xs_store s)"
    and "all_seen_done sts (set (xs_trace s))"
  shows "organized_claim cfg sts r s'"
proof (cases "complete_call cfg sd td (xc_set_order cfg (scope_ids sts)) s")
  case (Pair out s1)
  show ?thesis
  proof (cases out)
    case (Inr sm)
    note c = complete_call_stored[OF Pair[unfolded Inr] assms(3,4)]
    from Pair Inr assms(1) have "xr_operation_id r = lease_operation_id (cx_lease (xs_ctx s1))" "s' = s1"
      by (auto simp: finish_organized_def scatch_def sbind_def result_of_def)
    with c assms(5) show ?thesis by (simp add: organized_claim_def)
  next
    case (Inl e)
    have "(\<exists>x. e = ServiceExn x) \<or> e = TaskCancelled"
      using ends_Inl[OF ends_with_lease] Pair Inl unfolding complete_call_def by blast
    moreover from Pair Inl assms(1) have "organized_failure cfg e s1 = (Inr r, s')"
      by (simp add: finish_organized_def scatch_def sbind_def)
    ultimately have "stops (\<lambda>_. True) r s'" by (intro ends_Inr[OF ends_organized_failure])
    with assms(2) show ?thesis by (simp add: stops_def)
  qed
qed

lemma run_steps_claim:
  fixes cfg :: "'r exec_config"
  assumes env: "db_env cfg"
  shows "triple (\<lambda>s. store_ok (xs_store s)) (run_steps cfg sts)
    (\<lambda>r s. xr_status r = EXEC_ORGANIZED \<longrightarrow> sts \<noteq> [] \<and> organized_claim cfg sts r s) (\<lambda>_ _. True)"
proof (rule tripleI)
  fix s r s'
  assume ok: "store_ok (xs_store s)" and run: "run_steps cfg sts s = (Inr r, s')"
  obtain v s1 where loop: "run_loop cfg sts s = (v, s1)" by fastforce
  have db: "db_reach (xs_store s) (xs_store s1)"
    using keepsD[OF db.run_loop_I[of sts cfg "xs_store s"] _ loop] env
    by (simp add: db_from_def readable_member_def writable_member_def)
  show "xr_status r = EXEC_ORGANIZED \<longrightarrow> sts \<noteq> [] \<and> organized_claim cfg sts r s'"
  proof (cases v)
    case (Inl e)
    with run loop show ?thesis by (simp add: run_steps_def sbind_def)
  next
    case (Inr w)
    show ?thesis
    proof (cases w)
      case (Inl r')
      with run loop Inr have "r = r'" by (simp add: run_steps_def sbind_def sret_def)
      moreover from ends_Inr[OF ends_run_loop loop[unfolded Inr Inl]] have "stops (\<lambda>_. True) r' s1"
        by (simp add: lifted_def)
      ultimately show ?thesis by (simp add: stops_def)
    next
      case (Inr u)
      have seen: "all_seen_done sts (set (xs_trace s1))"
        using triple_val[OF run_loop_seen[of "[]" cfg sts] _ loop[unfolded \<open>v = Inr w\<close> Inr]]
        by (simp add: all_seen_done_def)
      from run loop \<open>v = Inr w\<close> Inr obtain sd td where ne: "sts \<noteq> []"
        and fin: "finish_organized cfg sd td (xc_set_order cfg (scope_ids sts)) s1 = (Inr r, s')"
        by (auto simp: run_steps_def sbind_def sraise_def split: list.splits)
      show ?thesis
        using finish_organized_claim[OF fin _ env db_reach_ok[OF db ok] seen] ne by blast
    qed
  qed
qed simp

lemma execute_claim:
  fixes cfg :: "'r exec_config"
  assumes env: "db_env cfg"
  shows "triple (\<lambda>s. store_ok (xs_store s)) (execute cfg oid rv token)
    (\<lambda>r s. xr_status r = EXEC_ORGANIZED \<longrightarrow>
       (\<exists>sts. loaded cfg sts \<and> sts \<noteq> [] \<and> organized_claim cfg sts r s)) (\<lambda>_ _. True)"
proof (rule execute_rule[where J = "\<lambda>s. store_ok (xs_store s)" and K = "\<lambda>s. store_ok (xs_store s)"
      and E' = "\<lambda>_ _. True"])
  have fin: "triple P (finish cfg st err) (\<lambda>r s. xr_status r = EXEC_ORGANIZED \<longrightarrow> R r s) (\<lambda>_ _. True)"
    if "st \<noteq> EXEC_ORGANIZED" "err \<in> set valid_operation_error_codes" for P st err R
    using ends_finish[of st err "\<lambda>_. True" cfg] that unfolding ends_def
    by (auto elim: triple_conseq simp: stops_def)
  show "triple (\<lambda>s. store_ok (xs_store s)) (finish cfg EXEC_FAILED ''plan_prerequisites_changed'')
     (\<lambda>r s. xr_status r = EXEC_ORGANIZED \<longrightarrow>
       (\<exists>sts. loaded cfg sts \<and> sts \<noteq> [] \<and> organized_claim cfg sts r s)) (\<lambda>_ _. True)"
    by (rule fin) (simp_all add: valid_operation_error_codes_def)
  show "triple (\<lambda>_. True) (finish cfg EXEC_UNCERTAIN ''cancelled'') (\<lambda>_ _. True) (\<lambda>_ _. True)"
    by (simp add: triple_def split: prod.split sum.split)
  show "triple (\<lambda>s. store_ok (xs_store s)) (run_steps cfg sts) (\<lambda>r s. xr_status r = EXEC_ORGANIZED \<longrightarrow>
       (\<exists>sts. loaded cfg sts \<and> sts \<noteq> [] \<and> organized_claim cfg sts r s)) (\<lambda>_ _. True)"
    if "loaded cfg sts" for sts
    by (rule triple_conseq[OF run_steps_claim[OF env]]) (use that in auto)
qed (auto intro: db_reach_ok[OF await_store[OF env]])

section \<open>Failed\<close>

text \<open>A write confirmed by the transport, as \<open>check_write_result\<close> reads its result.\<close>

fun confirmed_write :: "trace_event \<Rightarrow> bool" where
  "confirmed_write (Called (Move _ _) _ (Inr (Wrote res))) =
     (check_write_result res TRANSPORT_MOVE = Inr ())"
| "confirmed_write (Called (Rename _ _) _ (Inr (Wrote res))) =
     (check_write_result res TRANSPORT_RENAME = Inr ())"
| "confirmed_write _ = False"

definition none_confirmed :: "'r exec_state \<Rightarrow> bool" where
  "none_confirmed s \<longleftrightarrow> (\<forall>e \<in> set (xs_trace s). \<not> confirmed_write e)"

definition confirmed_known :: "'r exec_state \<Rightarrow> bool" where
  "confirmed_known s \<longleftrightarrow> none_confirmed s \<or> cx_write_confirmed (xs_ctx s)"

definition confirmed_done :: "'r exec_state \<Rightarrow> bool" where
  "confirmed_done s \<longleftrightarrow> confirmed_known s \<and> (none_confirmed s \<or> 0 < cx_completed_steps (xs_ctx s))"

lemma confirmed_simps [simp]:
  "none_confirmed (renewed s l) = none_confirmed s" "none_confirmed (with_store s st) = none_confirmed s"
  "none_confirmed (at_mono s n) = none_confirmed s"
  "none_confirmed (snd (await cfg s)) = none_confirmed s"
  "none_confirmed (s\<lparr>xs_ctx := x\<rparr>) = none_confirmed s"
  "cx_write_confirmed (xs_ctx (called cfg c s)) = cx_write_confirmed (xs_ctx s)"
  by (auto simp: none_confirmed_def called_def Let_def)

lemma none_confirmed_read:
  assumes "\<not> is_write_call c"
  shows "none_confirmed (called cfg c s) = none_confirmed s"
  using assms by (cases c) (auto simp: none_confirmed_def)

interpretation none: executor_invariant cfg none_confirmed "\<lambda>c. \<not> is_write_call c"
  for cfg :: "'r exec_config"
  by unfold_locales (simp_all add: none_confirmed_read)

interpretation known: executor_invariant cfg confirmed_known "\<lambda>c. \<not> is_write_call c"
  for cfg :: "'r exec_config"
  by unfold_locales (auto simp: confirmed_known_def none_confirmed_read)

lemma reads_not_writes [simp]: "readable_member (\<lambda>c. \<not> is_write_call c) m"
  by (simp add: readable_member_def)

text \<open>
  A call adds at most its own event: no confirmed write unless it returns one, and nothing
  at all in the context's flags.
\<close>

definition same_confirmed :: "bool \<Rightarrow> bool \<Rightarrow> nat \<Rightarrow> 'r exec_state \<Rightarrow> bool" where
  "same_confirmed a b k s \<longleftrightarrow>
     none_confirmed s = a \<and> cx_write_confirmed (xs_ctx s) = b \<and> cx_completed_steps (xs_ctx s) = k"

lemma same_confirmed_quiet:
  "keeps (same_confirmed a b k) (pace cfg)" "keeps (same_confirmed a b k) (renew cfg)"
  "keeps (same_confirmed a b k) (await cfg)" "keeps (same_confirmed a b k) (mark_call w)"
proof -
  show "keeps (same_confirmed a b k) (pace cfg)"
    by (rule triple_keeps[OF pace_rule[where I = "same_confirmed a b k"]])
       (auto simp: same_confirmed_def)
  show "keeps (same_confirmed a b k) (renew cfg)"
    by (rule renew_keeps) (auto simp: same_confirmed_def)
qed (auto simp: keeps_def same_confirmed_def mark_call_def modify_ctx_def)

lemma call_confirmed:
  fixes cfg :: "'r exec_config" and wrap :: "'b \<Rightarrow> call_value"
  shows "triple (same_confirmed a b k) (call cfg w c wrap meth)
    (\<lambda>x s. same_confirmed (a \<and> \<not> confirmed_write (Called c 0 (Inr (wrap x)))) b k s)
    (\<lambda>e s. e = TaskCancelled \<or> same_confirmed a b k s)"
proof -
  have time: "confirmed_write (Called c t out) = confirmed_write (Called c 0 out)" for t out
    by (cases c; cases out) (auto split: call_value.splits elim!: confirmed_write.elims)
  let ?E = "\<lambda>e s. e = TaskCancelled \<or> same_confirmed a b k s"
  have eff: "triple (same_confirmed a b k) (transport_effect c wrap meth :: ('r, 'b) exec)
    (\<lambda>x. same_confirmed (a \<and> \<not> confirmed_write (Called c 0 (Inr (wrap x)))) b k) ?E"
    unfolding triple_def
  proof (intro allI impI)
    fix s :: "'r exec_state" assume s: "same_confirmed a b k s"
    have none: "\<not> confirmed_write (Called c t (Inl e))" for t e by (cases c) auto
    show "case transport_effect c wrap meth s of (Inl e, s') \<Rightarrow> ?E e s'
      | (Inr x, s') \<Rightarrow> same_confirmed (a \<and> \<not> confirmed_write (Called c 0 (Inr (wrap x)))) b k s'"
      using s none time
      by (cases "meth (wd_remote (xs_world s))"; cases "fst (meth (wd_remote (xs_world s)))")
        (auto simp: transport_effect_def same_confirmed_def none_confirmed_def
          split: base_exception.split)
  qed
  have wait: "triple (same_confirmed a' b k) (sbind (await cfg) (\<lambda>_. sret x))
      (\<lambda>y s. y = x \<and> same_confirmed a' b k s) ?E" for a' and x :: 'b
  proof (rule triple_bind[where R = "\<lambda>_. same_confirmed a' b k"])
    have "ends (\<lambda>_ _. True) (\<lambda>e. e = TaskCancelled) (await cfg)" by (rule ends_await) simp
    then show "triple (same_confirmed a' b k) (await cfg) (\<lambda>_. same_confirmed a' b k) ?E"
      using same_confirmed_quiet(3)[of a' b k cfg] unfolding ends_def keeps_triple triple_def
      by (fastforce split: prod.splits sum.splits)
  qed (simp add: triple_def sret_def)
  show ?thesis
    unfolding call_def
    by (rule triple_bind_keeps[OF keeps_basic(4)], rule triple_if, simp add: triple_raise_iff,
        rule triple_bind_keeps[OF same_confirmed_quiet(1)],
        rule triple_bind_keeps[OF keeps_check_cancel],
        rule triple_bind_keeps[OF same_confirmed_quiet(2)], rule triple_if,
        simp add: triple_raise_iff,
        rule triple_bind_keeps[OF keeps_check_cancel],
        rule triple_bind_keeps[OF same_confirmed_quiet(4)],
        rule triple_bind[OF eff], rule triple_conseq[OF wait]) simp_all
qed

interpretation completed: executor_invariant cfg confirmed_done "\<lambda>c. \<not> is_write_call c"
  for cfg :: "'r exec_config"
  by unfold_locales (auto simp: confirmed_done_def confirmed_known_def none_confirmed_read)

lemma write_members_known:
  fixes cfg :: "'r exec_config"
  shows "triple confirmed_known (write_members cfg ms)
    (\<lambda>_. confirmed_known) (\<lambda>e s. e = TaskCancelled \<or> confirmed_known s)"
proof (induction ms)
  case Nil
  then show ?case by (simp add: triple_def sret_def)
next
  case (Cons m ms)
  let ?E = "\<lambda>e s. e = TaskCancelled \<or> confirmed_known s"
  have loss: "triple confirmed_known (early (handle_lease_loss cfg) :: ('r, exec_result + unit) exec)
      (\<lambda>_. confirmed_known) ?E"
    by (rule triple_conseq[OF guard_early[OF known.handle_loss_I]]) auto
  have after: "triple (\<lambda>s. confirmed_known s \<or> P) (sbind (modify_ctx (\<lambda>c. c\<lparr>cx_write_confirmed := True\<rparr>)) (\<lambda>_. k))
      (\<lambda>_. confirmed_known) ?E"
    if "triple confirmed_known k (\<lambda>_. confirmed_known) ?E" for P and k :: "('r, exec_result + unit) exec"
  proof (rule triple_bind[OF _ that])
    show "triple (\<lambda>s. confirmed_known s \<or> P) (modify_ctx (\<lambda>c. c\<lparr>cx_write_confirmed := True\<rparr>))
        (\<lambda>_. confirmed_known) ?E"
      by (simp add: triple_def modify_ctx_def confirmed_known_def)
  qed
  have known: "triple confirmed_known m Q ?E"
    if "\<And>a b n. triple (same_confirmed a b n) m (\<lambda>x s. P a x b n s)
          (\<lambda>e s. e = TaskCancelled \<or> same_confirmed a b n s)"
      and "\<And>a b n x s. a \<or> b \<Longrightarrow> P a x b n s \<Longrightarrow> Q x s"
    for m :: "('r, 'c) exec" and P Q
    unfolding triple_def
  proof (intro allI impI)
    fix s :: "'r exec_state" assume s: "confirmed_known s"
    let ?a = "none_confirmed s" and ?b = "cx_write_confirmed (xs_ctx s)"
      and ?n = "cx_completed_steps (xs_ctx s)"
    have "same_confirmed ?a ?b ?n s" by (simp add: same_confirmed_def)
    with that(1)[of ?a ?b ?n] that(2)[of ?a ?b _ ?n] s
    show "case m s of (Inl e, s') \<Rightarrow> ?E e s' | (Inr x, s') \<Rightarrow> Q x s'"
      unfolding triple_def confirmed_known_def same_confirmed_def
      by (fastforce split: prod.splits sum.splits)
  qed
  have mv: "triple confirmed_known (move cfg (em_object_id m) (em_target_parent_id m))
      (\<lambda>res s. confirmed_known s \<or> check_write_result res TRANSPORT_MOVE = Inr ()) ?E"
    unfolding move_def
    by (rule known, rule call_confirmed) (auto simp: same_confirmed_def confirmed_known_def)
  have rn: "triple confirmed_known (rename cfg (em_object_id m) (em_target_name m))
      (\<lambda>res s. confirmed_known s \<or> check_write_result res TRANSPORT_RENAME = Inr ()) ?E"
    unfolding rename_def
    by (rule known, rule call_confirmed) (auto simp: same_confirmed_def confirmed_known_def)
  have chk: "triple (\<lambda>s. confirmed_known s \<or> check_write_result res op = Inr ())
      (sbind (scheck (check_write_result res op)) (\<lambda>_. k)) (\<lambda>_. confirmed_known) ?E"
    if "\<And>P. triple (\<lambda>s. confirmed_known s \<or> P) k (\<lambda>_. confirmed_known) ?E"
    for res op and k :: "('r, exec_result + unit) exec"
    by (rule triple_bind[OF _ that[of "check_write_result res op = Inr ()"]])
       (auto simp: triple_def scheck_def split: sum.split)
  have second: "triple confirmed_known (checked_renew cfg (
      sbind (check_cancel cfg) (\<lambda>_.
      sbind (rename cfg (em_object_id m) (em_target_name m)) (\<lambda>renamed.
      sbind (scheck (check_write_result renamed TRANSPORT_RENAME)) (\<lambda>_.
      sbind (modify_ctx (\<lambda>c. c\<lparr>cx_write_confirmed := True\<rparr>)) (\<lambda>_. write_members cfg ms))))))
      (\<lambda>_. confirmed_known) ?E"
    by (rule checked_renew_rule[OF known.renew_I loss], rule triple_bind_keeps[OF keeps_check_cancel],
        rule triple_bind[OF rn], rule chk, rule after, rule Cons.IH) simp_all
  show ?case
    unfolding write_members.simps
    by (rule checked_renew_rule[OF known.renew_I loss], rule triple_bind_keeps[OF keeps_check_cancel],
        rule triple_bind[OF mv], rule chk, rule after, rule second) simp_all
qed

text \<open>A failed result that is clean: nothing was confirmed, or steps were completed before.\<close>

definition clean :: "exec_result \<Rightarrow> 'r exec_state \<Rightarrow> bool" where
  "clean r s \<longleftrightarrow>
     (xr_status r = EXEC_FAILED \<and> xr_error_code r \<noteq> Some ''local_failure''
      \<and> (xr_completed_steps r = 0 \<or> xr_error_code r = Some ''remote_write_failed'')
      \<longrightarrow> none_confirmed s)"

definition clean_or :: "('a \<Rightarrow> 'r exec_state \<Rightarrow> bool) \<Rightarrow> exec_result + 'a \<Rightarrow> 'r exec_state \<Rightarrow> bool" where
  "clean_or R v s = (case v of Inl r \<Rightarrow> clean r s | Inr x \<Rightarrow> R x s)"

lemma stops_clean:
  "stops F r s \<Longrightarrow> \<not> F ''remote_write_failed'' \<Longrightarrow> confirmed_done s \<Longrightarrow> clean r s"
  by (auto simp: stops_def reported_def clean_def confirmed_done_def)

lemma stops_never: "stops (\<lambda>_. False) r s \<Longrightarrow> clean r s"
  by (auto simp: stops_def clean_def)

lemma triple_with_ends:
  "triple P m Q E \<Longrightarrow> ends R E' m \<Longrightarrow> triple P m (\<lambda>x s. Q x s \<and> R x s) (\<lambda>e s. E e s \<and> E' e)"
  unfolding triple_def ends_def by (fastforce split: prod.splits sum.splits)

lemma clean_phase:
  assumes "keeps confirmed_done m" "ends (lifted (stops F)) E m" "\<not> F ''remote_write_failed''"
  shows "triple confirmed_done m (clean_or (\<lambda>_. confirmed_done)) (\<lambda>_ _. True)"
  by (rule triple_conseq[OF triple_with_ends[OF assms(1)[unfolded keeps_triple] assms(2)]])
     (use assms(3) in \<open>auto simp: clean_or_def lifted_def stops_clean[where F = F] split: sum.splits\<close>)

lemma never_phase:
  assumes "keeps confirmed_known m" "ends (lifted (stops (\<lambda>_. False))) E m"
  shows "triple confirmed_known m (clean_or (\<lambda>_. confirmed_known)) (\<lambda>_ _. True)"
  by (rule triple_conseq[OF triple_with_ends[OF assms(1)[unfolded keeps_triple] assms(2)]])
     (auto simp: clean_or_def lifted_def stops_never split: sum.splits)

lemma clean_finish:
  fixes cfg :: "'r exec_config"
  assumes "st \<noteq> EXEC_ORGANIZED" "err \<in> set valid_operation_error_codes" "err \<noteq> ''remote_write_failed''"
  shows "triple confirmed_done (early (finish cfg st err) :: ('r, exec_result + 'a) exec)
    (clean_or (\<lambda>_. confirmed_done)) (\<lambda>_ _. True)"
  by (rule clean_phase[where F = "\<lambda>c. c = err"], rule completed.early_I[OF completed.finish_I],
      rule ends_early[OF ends_finish]) (use assms in simp_all)

lemma never_early:
  assumes "ends (stops (\<lambda>_. False)) E m"
  shows "triple P (early m) (clean_or R) (\<lambda>_ _. True)"
  unfolding triple_def
proof (intro allI impI)
  fix s
  show "case early m s of (Inl e, s') \<Rightarrow> True | (Inr x, s') \<Rightarrow> clean_or R x s'"
    using ends_Inr[OF assms, of s]
    by (auto simp: early_def sbind_def sret_def clean_or_def stops_never split: prod.splits sum.splits)
qed

lemma never_finish:
  "st \<notin> {EXEC_ORGANIZED, EXEC_FAILED} \<Longrightarrow> err \<in> set valid_operation_error_codes
    \<Longrightarrow> triple P (early (finish cfg st err)) (clean_or R) (\<lambda>_ _. True)"
  by (rule never_early[OF ends_finish]) auto

lemma never_loss: "triple P (early (handle_lease_loss cfg)) (clean_or R) (\<lambda>_ _. True)"
  by (rule never_early[OF ends_handle_loss])

lemma write_phase_clean:
  fixes cfg :: "'r exec_config"
  shows "triple confirmed_known (write_phase cfg ms) (clean_or (\<lambda>_. confirmed_known)) (\<lambda>_ _. True)"
  unfolding write_phase_def
proof (rule triple_catch)
  have "triple confirmed_known (write_members cfg ms)
      (\<lambda>v s. confirmed_known s \<and> lifted (stops (\<lambda>_. False)) v s)
      (\<lambda>e s. (e = TaskCancelled \<or> confirmed_known s) \<and> phase_exn e)"
    by (rule triple_with_ends[OF write_members_known ends_members(2)])
  then show "triple confirmed_known (write_members cfg ms) (clean_or (\<lambda>_. confirmed_known))
      (\<lambda>e s. (e = TaskCancelled \<or> confirmed_known s) \<and> phase_exn e)"
    by (rule triple_conseq) (auto simp: clean_or_def lifted_def stops_never split: sum.splits)
  fix e
  let ?h = "\<lambda>code uncertain. sbind sget (\<lambda>s. early (finish cfg
      (if uncertain \<or> cx_write_confirmed (xs_ctx s) then EXEC_UNCERTAIN else EXEC_FAILED) code))
      :: ('r, exec_result + unit) exec"
  have codes: "''rate_limited'' \<in> set valid_operation_error_codes"
    "''cancelled'' \<in> set valid_operation_error_codes"
    by (simp_all add: valid_operation_error_codes_def)
  have h: "triple confirmed_known (?h code unc) (clean_or (\<lambda>_. confirmed_known)) (\<lambda>_ _. True)"
    if "phase_exn (TransportFailure code unc)" for code unc
    unfolding triple_def
  proof (intro allI impI)
    fix s :: "'r exec_state" assume s: "confirmed_known s"
    let ?st = "if unc \<or> cx_write_confirmed (xs_ctx s) then EXEC_UNCERTAIN else EXEC_FAILED"
    have code: "code \<in> set valid_operation_error_codes"
      using that by (auto simp: valid_operation_error_codes_def)
    have "triple (\<lambda>r. r = s) (early (finish cfg ?st code) :: ('r, exec_result + unit) exec)
        (clean_or (\<lambda>_. confirmed_known)) (\<lambda>_ _. True)"
    proof (cases "?st = EXEC_FAILED")
      case True
      then have "none_confirmed s" using s by (auto simp: confirmed_known_def split: if_splits)
      then show ?thesis
        by (intro triple_conseq[OF triple_with_ends[OF guard_early[OF none.finish_I]
                ends_early[OF ends_finish[where F = "\<lambda>_. True"]]]])
           (use True code in \<open>auto simp: clean_or_def clean_def confirmed_known_def split: sum.split\<close>)
    next
      case False
      then show ?thesis using code by (intro never_finish) (auto split: if_splits)
    qed
    then show "case ?h code unc s of (Inl e, s') \<Rightarrow> True
        | (Inr x, s') \<Rightarrow> clean_or (\<lambda>_. confirmed_known) x s'"
      by (simp add: triple_def sbind_def sget_def)
  qed
  show "triple (\<lambda>s. (e = TaskCancelled \<or> confirmed_known s) \<and> phase_exn e) (case e of
      RateLimitReached \<Rightarrow> early (finish cfg EXEC_UNCERTAIN ''rate_limited'')
    | ExecutionCancelled \<Rightarrow> early (finish cfg EXEC_CANCELLED ''cancelled'')
    | LeaseLost \<Rightarrow> early (handle_lease_loss cfg)
    | TransportFailure code uncertain \<Rightarrow> ?h code uncertain
    | _ \<Rightarrow> sraise e) (clean_or (\<lambda>_. confirmed_known)) (\<lambda>_ _. True)"
  proof (cases e)
    case (TransportFailure code unc)
    show ?thesis
    proof (cases "phase_exn e")
      case True
      with TransportFailure h show ?thesis by simp
    qed (simp add: triple_def)
  qed (auto simp: triple_raise_iff intro!: never_finish never_loss codes)
qed

lemma after_read_clean:
  fixes cfg :: "'r exec_config"
  shows "triple confirmed_done (after_read cfg st g src tgt) (clean_or (\<lambda>_. confirmed_done)) (\<lambda>_ _. True)"
proof -
  have codes: "''plan_prerequisites_changed'' \<in> set valid_operation_error_codes"
    "''outcome_unknown'' \<in> set valid_operation_error_codes"
    "''postcondition_mismatch'' \<in> set valid_operation_error_codes"
    by (simp_all add: valid_operation_error_codes_def)
  have fail: "triple confirmed_done (early (finish cfg EXEC_FAILED ''plan_prerequisites_changed'')
      :: ('r, exec_result + unit) exec) (clean_or (\<lambda>_. confirmed_done)) (\<lambda>_ _. True)"
    by (rule clean_finish) (simp_all add: codes)
  have unc: "triple P (early (finish cfg EXEC_UNCERTAIN c) :: ('r, exec_result + unit) exec)
      (clean_or (\<lambda>_. confirmed_done)) (\<lambda>_ _. True)"
    if "c \<in> set valid_operation_error_codes" for P c
    by (rule never_finish) (use that in simp_all)
  have don: "triple confirmed_known (step_done :: ('r, exec_result + unit) exec)
      (clean_or (\<lambda>_. confirmed_done)) (\<lambda>_ _. True)"
    by (simp add: triple_def step_done_def sbind_def sret_def modify_ctx_def clean_or_def
        confirmed_done_def confirmed_known_def)
  have ver: "triple confirmed_known (then_phase (verify_phase cfg (es_members st)) (after_verify cfg g))
      (clean_or (\<lambda>_. confirmed_done)) (\<lambda>_ _. True)"
  proof (rule then_phase_rule[where R = "\<lambda>_. confirmed_known"])
    show "triple confirmed_known (verify_phase cfg (es_members st))
        (\<lambda>v s. case v of Inl r \<Rightarrow> clean_or (\<lambda>_. confirmed_done) (Inl r) s | Inr x \<Rightarrow> confirmed_known s)
        (\<lambda>_ _. True)"
      by (rule triple_conseq[OF never_phase[OF known.verify_phase_I ends_phases(3)]])
         (auto simp: clean_or_def split: sum.splits)
    show "triple confirmed_known (after_verify cfg g obs) (clean_or (\<lambda>_. confirmed_done)) (\<lambda>_ _. True)" for obs
      using unc don codes by (simp add: after_verify_def Let_def)
  qed
  have wri: "triple confirmed_done (then_phase (write_phase cfg (es_members st)) (\<lambda>_.
         then_phase (verify_phase cfg (es_members st)) (after_verify cfg g)))
      (clean_or (\<lambda>_. confirmed_done)) (\<lambda>_ _. True)"
    by (rule then_phase_rule[OF _ ver], rule triple_conseq[OF write_phase_clean])
       (auto simp: clean_or_def confirmed_done_def split: sum.splits)
  have don': "triple confirmed_done (step_done :: ('r, exec_result + unit) exec)
      (clean_or (\<lambda>_. confirmed_done)) (\<lambda>_ _. True)"
    by (rule triple_conseq[OF don]) (auto simp: confirmed_done_def)
  show ?thesis
    unfolding after_read_def Let_def using fail unc don' wri codes by simp
qed

lemma run_step_clean:
  fixes cfg :: "'r exec_config"
  shows "triple confirmed_done (run_step cfg st) (clean_or (\<lambda>_. confirmed_done)) (\<lambda>_ _. True)"
proof -
  have codes: "''plan_prerequisites_changed'' \<in> set valid_operation_error_codes"
    "''cancelled'' \<in> set valid_operation_error_codes"
    by (simp_all add: valid_operation_error_codes_def)
  have fail: "triple confirmed_done (early (finish cfg EXEC_FAILED ''plan_prerequisites_changed'')
      :: ('r, exec_result + unit) exec) (clean_or (\<lambda>_. confirmed_done)) (\<lambda>_ _. True)"
    by (rule clean_finish) (simp_all add: codes)
  have stop: "triple confirmed_done (early (finish cfg EXEC_CANCELLED ''cancelled'')
      :: ('r, exec_result + unit) exec) (clean_or (\<lambda>_. confirmed_done)) (\<lambda>_ _. True)"
    by (rule never_finish) (simp_all add: codes)
  have read: "triple confirmed_done (read_phase cfg (es_members st)) (clean_or (\<lambda>_. confirmed_done)) (\<lambda>_ _. True)"
    by (rule clean_phase[OF completed.read_phase_I ends_phases(1)[where F = "\<lambda>c. c = ''rate_limited''"]])
       simp_all
  have thn: "triple confirmed_done (then_phase (read_phase cfg (es_members st)) (\<lambda>(sources, targets).
      after_read cfg st g sources targets)) (clean_or (\<lambda>_. confirmed_done)) (\<lambda>_ _. True)" for g
  proof (rule then_phase_rule[where R = "\<lambda>_. confirmed_done"])
    show "triple confirmed_done ((\<lambda>(sources, targets). after_read cfg st g sources targets) p)
        (clean_or (\<lambda>_. confirmed_done)) (\<lambda>_ _. True)" for p
      using after_read_clean by (cases p) simp
  qed (rule triple_conseq[OF read]; auto simp: clean_or_def split: sum.splits)
  have rest: "triple confirmed_done (case group of
      None \<Rightarrow> early (finish cfg EXEC_FAILED ''plan_prerequisites_changed'')
    | Some g \<Rightarrow> then_phase (read_phase cfg (es_members st)) (\<lambda>(sources, targets).
        after_read cfg st g sources targets)) (clean_or (\<lambda>_. confirmed_done)) (\<lambda>_ _. True)" for group
    using fail thn by (cases group) simp_all
  show ?thesis
    unfolding run_step_def
    by (rule triple_bind_keeps[OF keeps_basic(4)], rule triple_if, rule stop,
        rule triple_bind_keeps[OF completed.renew_I], rule triple_if, rule never_loss,
        rule triple_bind_keeps[OF keeps_basic(3) rest]) simp_all
qed

lemma run_loop_clean:
  "triple confirmed_done (run_loop cfg sts) (clean_or (\<lambda>_. confirmed_done)) (\<lambda>_ _. True)"
proof (induction sts)
  case (Cons st sts)
  show ?case
    unfolding run_loop.simps
    by (rule then_phase_rule[OF _ Cons.IH], rule triple_conseq[OF run_step_clean])
       (auto simp: clean_or_def split: sum.splits)
qed (simp add: triple_def sret_def clean_or_def)

text \<open>Completing can only fail as \<open>local_failure\<close>.\<close>

lemma finish_organized_clean: "triple P (finish_organized cfg sd td dirs) clean (\<lambda>_ _. True)"
proof -
  have "ends clean (\<lambda>_. True) (finish_organized cfg sd td dirs)"
    unfolding finish_organized_def
  proof (rule ends_catch)
    show "ends clean (\<lambda>e. (\<exists>x. e = ServiceExn x) \<or> e = TaskCancelled)
        (sbind (complete_call cfg sd td dirs) (\<lambda>_. result_of EXEC_ORGANIZED None))"
      unfolding complete_call_def
      by (intro ends_bind_any ends_with_lease)
         (simp add: ends_def triple_def result_of_def clean_def)
    show "ends clean (\<lambda>_. True) (organized_failure cfg e)"
      if "(\<exists>x. e = ServiceExn x) \<or> e = TaskCancelled" for e
      by (rule ends_weaken[OF ends_organized_failure[OF that, where F = "\<lambda>_. False"]])
         (simp_all add: stops_never)
  qed
  then show ?thesis unfolding ends_def by (rule triple_conseq) simp_all
qed

lemma run_steps_clean: "triple confirmed_done (run_steps cfg sts) clean (\<lambda>_ _. True)"
  unfolding run_steps_def
proof (rule triple_bind[OF run_loop_clean])
  fix v
  show "triple (clean_or (\<lambda>_. confirmed_done) v) (case v of Inl r \<Rightarrow> sret r
     | Inr _ \<Rightarrow> (case sts of [] \<Rightarrow> sraise IndexErr
        | st # _ \<Rightarrow> (case es_members st of [] \<Rightarrow> sraise IndexErr
           | m # _ \<Rightarrow> finish_organized cfg (em_source_parent_id m) (em_target_parent_id m)
                       (xc_set_order cfg (scope_ids sts))))) clean (\<lambda>_ _. True)"
    using finish_organized_clean
    by (cases v) (auto simp: clean_or_def triple_raise_iff triple_def[of _ "sret _"] sret_def
        split: list.split)
qed

lemma execute_clean:
  fixes cfg :: "'r exec_config"
  shows "triple (\<lambda>s. xs_trace s = []) (execute cfg oid rv token) clean (\<lambda>_ _. True)"
proof (rule execute_rule[where J = "\<lambda>s. xs_trace s = []"
      and K = "\<lambda>s. confirmed_done s \<and> none_confirmed s" and E' = "\<lambda>_ _. True"])
  show "triple (\<lambda>s. confirmed_done s \<and> none_confirmed s)
      (finish cfg EXEC_FAILED ''plan_prerequisites_changed'') clean (\<lambda>_ _. True)"
    by (rule triple_conseq[OF none.finish_I[unfolded keeps_triple]]) (simp_all add: clean_def)
  show "triple (\<lambda>_. True) (finish cfg EXEC_UNCERTAIN ''cancelled'') (\<lambda>_ _. True) (\<lambda>_ _. True)"
    by (simp add: triple_def split: prod.split sum.split)
  show "triple (\<lambda>s. confirmed_done s \<and> none_confirmed s) (run_steps cfg sts) clean (\<lambda>_ _. True)" for sts
    by (rule triple_conseq[OF run_steps_clean]) simp_all
qed (simp_all add: confirmed_done_def confirmed_known_def none_confirmed_def)

end
