(* ===== verification/Executor_Theorems.thy ===== *)
theory Executor_Theorems
  imports Executor_Outcome
begin

text \<open>
  The properties of one execution, from an empty trace to its result, for every
  environment, transport and plan.  Those about the plan itself come first in a general form,
  over every plan the loader can give; \<open>Executor_Plan\<close> sharpens them to the plan of the run.
\<close>

lemma started [simp]:
  "xs_trace s = [] \<Longrightarrow> xs_trace (snd (await cfg s)) = []"
  by simp

lemma calls_within_budget:
  assumes "execute cfg oid rv token s = (out, s')" and "xs_trace s = []"
  shows "xs_trace s' = [] \<or> within_budget cfg s'" and "out = Inr r \<Longrightarrow> within_budget cfg s'"
proof -
  let ?J = "\<lambda>s. xs_trace s = []"
  have start: "?J s \<Longrightarrow> within_budget cfg (s\<lparr>xs_ctx := fresh_context cfg oid rv token\<rparr>)" for s
    by (simp add: within_budget_def)
  show "xs_trace s' = [] \<or> within_budget cfg s'" and "out = Inr r \<Longrightarrow> within_budget cfg s'"
    using budget.execute_end[where J = ?J, OF _ start _ assms(2,1)]
    by (auto simp: readable_member_def writable_member_def)
qed

text \<open>
  C36. The executor makes at most \<open>max_transport_calls\<close> transport calls, on every exit and
  whatever the transport does, and its result reports exactly the calls it made.
\<close>

theorem execute_within_budget:
  assumes "execute cfg oid rv token s = (out, s')" and "xs_trace s = []"
    and "valid_budget (xc_max_calls cfg) (xc_min_interval cfg)"
  shows "int (n_calls (xs_trace s')) \<le> xc_max_calls cfg
    \<and> (\<forall>r. out = Inr r \<longrightarrow> xr_transport_calls r = n_calls (xs_trace s'))"
proof -
  note calls_within_budget[OF assms(1,2)]
  moreover have "\<forall>r. out = Inr r \<longrightarrow> reported r s'"
    using ends_Inr[OF ends_execute] assms(1) by blast
  ultimately show ?thesis
    using assms(3) by (auto simp: within_budget_def reported_def valid_budget_def n_calls_def)
qed

text \<open>
  C25. Every transport call directly follows a successful renewal of the lease, and the
  renewals number the operation's revisions consecutively from the one that was claimed: no
  call is made on a lease the service has not confirmed.
\<close>

theorem execute_renews_before_calls:
  assumes "execute cfg oid rv token s = (out, s')" and "xs_trace s = []"
  shows "disciplined \<lparr>lease_operation_id = oid, lease_revision = rv, lease_token = token,
      lease_expires_at = map_option as_utc (xc_now cfg)\<rparr> False (xs_trace s')"
proof -
  let ?J = "\<lambda>s. xs_trace s = []"
  let ?l = "\<lparr>lease_operation_id = oid, lease_revision = rv, lease_token = token,
      lease_expires_at = map_option as_utc (xc_now cfg)\<rparr>"
  have start: "?J s \<Longrightarrow> lease_discipline ?l (s\<lparr>xs_ctx := fresh_context cfg oid rv token\<rparr>)" for s
    by (simp add: lease_discipline_def fresh_context_def)
  have "?J s' \<or> lease_discipline ?l s'"
    using discipline.execute_end[where J = ?J, OF _ start _ assms(2,1)]
    by (auto simp: readable_member_def writable_member_def)
  then show ?thesis by (auto simp: lease_discipline_def)
qed

text \<open>The four properties that speak of a plan, for any plan the loader may give.\<close>

lemma stays_loaded:
  assumes "execute cfg oid rv token s = (out, s')" and "xs_trace s = []"
    and "Called c t res \<in> set (xs_trace s')"
  shows "planned_call cfg c"
proof -
  let ?J = "\<lambda>s. xs_trace s = []"
  have start: "?J s \<Longrightarrow> in_scope cfg (s\<lparr>xs_ctx := fresh_context cfg oid rv token\<rparr>)" for s
    by (simp add: in_scope_def)
  have members: "readable_member (planned_call cfg) m \<and> writable_member (planned_call cfg) m"
    if "loaded cfg sts" "st \<in> set sts" "m \<in> set (es_members st)" for sts st m
    using that by (intro planned_member_calls) (auto simp: planned_member_def)
  have "?J s' \<or> in_scope cfg s'"
    using scope.execute_end[where J = ?J, OF _ start members assms(2,1)] by simp
  with assms(3) show ?thesis by (auto simp: in_scope_def)
qed

lemma observes_loaded:
  assumes "execute cfg oid rv token s = (out, s')" and "xs_trace s = []"
    and "xs_trace s' = before @ Called c t res # after" and "is_write_call c"
  shows "\<exists>sts st m. loaded cfg sts \<and> st \<in> set sts \<and> m \<in> set (es_members st)
    \<and> c \<in> member_calls m \<and> step_ready st (set before)"
proof -
  have "guarded_state cfg s'"
    using execute_guarded[of cfg oid rv token] assms(1,2) by (cases out) (auto simp: triple_def)
  with assms(3,4) show ?thesis unfolding guarded_def justified_def by blast
qed

lemma organized_loaded:
  assumes "execute cfg oid rv token s = (Inr r, s')" and "xr_status r = EXEC_ORGANIZED"
    and "db_env cfg" and "store_ok (xs_store s)"
    and "\<And>ds. set (xc_set_order cfg ds) = set ds"
  shows "\<exists>sts. loaded cfg sts \<and> sts \<noteq> []
    \<and> (\<forall>st \<in> set sts. \<forall>m \<in> set (es_members st).
         seen m matches_target (set (xs_trace s'))
         \<and> (\<forall>d \<in> {em_source_parent_id m, em_target_parent_id m}.
              \<exists>e \<in> set (events (xs_store s')). event_key e = (xr_operation_id r, d, directory_dirty_kind)))
    \<and> (\<exists>row. get_op (xr_operation_id r) (xs_store s') = Some row \<and> op_status row = OP_ORGANIZED)"
proof -
  obtain sts where sts: "loaded cfg sts" "sts \<noteq> []" "organized_claim cfg sts r s'"
    using triple_val[OF execute_claim[OF assms(3)] assms(4,1)] assms(2) by blast
  have "em_source_parent_id m \<in> set (scope_ids sts)" "em_target_parent_id m \<in> set (scope_ids sts)"
    if "st \<in> set sts" "m \<in> set (es_members st)" for st m
    using that by (force simp: scope_ids_def)+
  with sts assms(5) show ?thesis
    by (intro exI[of _ sts])
       (auto simp: organized_claim_def stored_organized_def all_seen_done_def step_seen_done_def)
qed

text \<open>
  A failed result may be retried: when it completed no step, or its code is
  \<open>remote_write_failed\<close>, no write of this run was confirmed by the transport.  (The code
  \<open>local_failure\<close> is the exception: all writes may be done and only the record failed.)
\<close>

theorem execute_failed_clean:
  assumes "execute cfg oid rv token s = (Inr r, s')" and "xs_trace s = []"
    and "xr_status r = EXEC_FAILED" and "xr_error_code r \<noteq> Some ''local_failure''"
    and "xr_completed_steps r = 0 \<or> xr_error_code r = Some ''remote_write_failed''"
    and "e \<in> set (xs_trace s')"
  shows "\<not> confirmed_write e"
  using triple_val[OF execute_clean assms(2,1)] assms(3-)
  by (auto simp: clean_def none_confirmed_def)

text \<open>
  C39. The executor ends in one of the ways it declares: a result that reports its context
  with a code the operation service accepts (none exactly when organized), the task's
  cancellation, an error of the service other than a lost lease, or an \<open>IndexError\<close>; its
  own control-flow exceptions never escape.
\<close>

theorem execute_outcome:
  assumes "execute cfg oid rv token s = (out, s')"
  shows "case out of
      Inl e \<Rightarrow> outer_exn e
    | Inr r \<Rightarrow> reported r s'"
proof (cases out)
  case (Inl e)
  with assms show ?thesis by (simp add: ends_Inl[OF ends_execute])
next
  case (Inr r)
  with assms show ?thesis by (simp add: ends_Inr[OF ends_execute])
qed

text \<open>
  Rate limiting: with a clock that does not go back, successive transport calls are at
  least \<open>min_call_interval\<close> apart.
\<close>

theorem execute_paces_calls:
  assumes "execute cfg oid rv token s = (out, s')" and "xs_trace s = []"
    and "valid_budget (xc_max_calls cfg) (xc_min_interval cfg)" and "mono_env cfg"
  shows "sorted_wrt (\<lambda>t t'. t + xc_min_interval cfg \<le> t') (call_times (xs_trace s'))"
proof -
  let ?J = "\<lambda>s. xs_trace s = []"
  have start: "?J s \<Longrightarrow> spaced cfg (s\<lparr>xs_ctx := fresh_context cfg oid rv token\<rparr>)" for s
    by (simp add: spaced_def)
  have "?J s' \<or> spaced cfg s'"
    using spacing.execute_end[where J = ?J, OF _ start _ assms(2,1)]
    by (auto simp: readable_member_def writable_member_def)
  then show ?thesis using assms(3,4) by (auto simp: spaced_def valid_budget_def)
qed

text \<open>
  Once the cancel event is set and stays set, the executor makes no transport call.
\<close>

theorem execute_cancelled_makes_no_call:
  assumes "execute cfg oid rv token s = (out, s')" and "xs_trace s = []"
    and "wd_cancel (xs_world s)" and "sticky_cancel cfg"
  shows "n_calls (xs_trace s') = 0"
proof -
  let ?J = "\<lambda>s. xs_trace s = [] \<and> wd_cancel (xs_world s)"
  have start: "?J s \<Longrightarrow> stopped cfg (s\<lparr>xs_ctx := fresh_context cfg oid rv token\<rparr>)" for s
    by (simp add: stopped_def)
  have "?J s' \<or> stopped cfg s'"
    using stop.execute_end[where J = ?J, OF _ start _ _ assms(1)] assms(2-4)
    by (auto simp: readable_member_def writable_member_def await_cancel)
  then show ?thesis using assms(4) by (auto simp: stopped_def)
qed

text \<open>
  C40. The executor only commits through the service: whatever it does, the database moves
  by the service's atomic commits and keeps the table invariant.
\<close>

theorem execute_keeps_database:
  assumes "execute cfg oid rv token s = (out, s')" and "db_env cfg" and "store_ok (xs_store s)"
  shows "db_reach (xs_store s) (xs_store s') \<and> store_ok (xs_store s')"
proof -
  let ?J = "db_from cfg (xs_store s)"
  have "?J s" by (simp add: db_from_def)
  have start: "?J r \<Longrightarrow> db_from cfg (xs_store s) (r\<lparr>xs_ctx := fresh_context cfg oid rv token\<rparr>)" for r
    by (simp add: db_from_def)
  have "?J s' \<or> ?J s'"
    using db.execute_end[where J = ?J, OF db.keep_await start _ \<open>?J s\<close> assms(1)]
    by (simp add: readable_member_def writable_member_def)
  then show ?thesis using assms(2,3) by (auto simp: db_from_def intro: db_reach_ok)
qed

lemma touches_loaded:
  assumes "execute cfg oid rv token s = (out, s')" and "xs_trace s = []"
    and "xc_transport cfg = offline_transport u" and "remote_env cfg"
    and "\<And>m. planned_member cfg m \<Longrightarrow> em_object_id m \<noteq> x"
  shows "offline_object_at (wd_remote (xs_world s')) x = offline_object_at (wd_remote (xs_world s)) x"
proof -
  let ?r0 = "wd_remote (xs_world s)"
  let ?J = "others_untouched u cfg ?r0"
  have "?J s" by (simp add: others_untouched_def)
  have start: "?J r \<Longrightarrow> ?J (r\<lparr>xs_ctx := fresh_context cfg oid rv token\<rparr>)" for r
    by (simp add: others_untouched_def)
  have members: "readable_member (planned_call cfg) m \<and> writable_member (planned_call cfg) m"
    if "loaded cfg sts" "st \<in> set sts" "m \<in> set (es_members st)" for sts st m
    using that by (intro planned_member_calls) (auto simp: planned_member_def)
  have "?J s' \<or> ?J s'"
    using untouched.execute_end[where J = ?J, OF untouched.keep_await start members \<open>?J s\<close> assms(1)]
    by simp
  with assms(3-5) show ?thesis by (auto simp: others_untouched_def)
qed

end
