(* ===== verification/Executor_Plan.thy ===== *)
theory Executor_Plan
  imports Executor_Theorems
begin

text \<open>
  The plan of a run.  An execution reads the plan once, at its third await; \<open>run_plan\<close> is what
  it gets there.  Nothing else of the run depends on the loader, so a run is a run of the
  constant plan \<open>run_plan\<close>, and the properties of this theory speak about that plan.
\<close>

section \<open>Only one step depends on the loader\<close>

definition with_plan :: "exec_step list option \<Rightarrow> 'r exec_config \<Rightarrow> 'r exec_config" where
  "with_plan p cfg = cfg\<lparr>xc_loader := \<lambda>_ _ _. p\<rparr>"

named_theorems same_run \<open>operations that do not read the plan\<close>

lemma with_plan_fields [same_run]:
  "xc_transport (with_plan p cfg) = xc_transport cfg" "xc_max_calls (with_plan p cfg) = xc_max_calls cfg"
  "xc_min_interval (with_plan p cfg) = xc_min_interval cfg"
  "xc_cancel_event (with_plan p cfg) = xc_cancel_event cfg" "xc_now (with_plan p cfg) = xc_now cfg"
  "xc_unicode (with_plan p cfg) = xc_unicode cfg" "xc_env (with_plan p cfg) = xc_env cfg"
  "xc_ids (with_plan p cfg) = xc_ids cfg" "xc_set_order (with_plan p cfg) = xc_set_order cfg"
  by (simp_all add: with_plan_def)

lemma await_same [same_run]: "await (with_plan p cfg) = await cfg"
  by (simp add: await_def same_run fun_eq_iff)

lemma service_same [same_run]: "service (with_plan p cfg) = service cfg"
  by (simp add: service_def same_run fun_eq_iff)

lemma check_cancel_same [same_run]: "check_cancel (with_plan p cfg) = check_cancel cfg"
  by (simp add: check_cancel_def same_run fun_eq_iff)

lemma with_lease_same [same_run]: "with_lease (with_plan p cfg) = with_lease cfg"
  by (simp add: with_lease_def same_run fun_eq_iff)

lemma renew_same [same_run]: "renew (with_plan p cfg) = renew cfg"
  unfolding renew_def same_run ..

lemma loss_same [same_run]:
  "persist_lease_loss (with_plan p cfg) = persist_lease_loss cfg"
  "handle_lease_loss (with_plan p cfg) = handle_lease_loss cfg"
  unfolding handle_lease_loss_def persist_lease_loss_def same_run by (rule refl)+

lemma finish_same [same_run]:
  "finish_not_organized (with_plan p cfg) = finish_not_organized cfg"
  "finish (with_plan p cfg) = finish cfg"
  "complete_call (with_plan p cfg) = complete_call cfg"
  "organized_failure (with_plan p cfg) = organized_failure cfg"
  "finish_organized (with_plan p cfg) = finish_organized cfg"
  unfolding finish_organized_def[abs_def] organized_failure_def[abs_def] complete_call_def[abs_def]
    finish_def[abs_def] finish_not_organized_def[abs_def] same_run
  by (rule refl)+

lemma call_same [same_run]: "call (with_plan p cfg) = call cfg"
  unfolding call_def[abs_def] pace_def sleep_def[abs_def] same_run ..

lemma calls_same [same_run]:
  "read_object (with_plan p cfg) = read_object cfg" "read_target (with_plan p cfg) = read_target cfg"
  "move (with_plan p cfg) = move cfg" "rename (with_plan p cfg) = rename cfg"
  unfolding read_object_def[abs_def] read_target_def[abs_def] move_def[abs_def] rename_def[abs_def] same_run
  by (rule refl)+

lemma checked_renew_same [same_run]: "checked_renew (with_plan p cfg) = checked_renew cfg"
  unfolding checked_renew_def[abs_def] same_run ..

lemma members_same [same_run]:
  "read_members (with_plan p cfg) ms sources targets = read_members cfg ms sources targets"
  "write_members (with_plan p cfg) ms = write_members cfg ms"
  "verify_members (with_plan p cfg) ms observed = verify_members cfg ms observed"
  by (induction ms arbitrary: sources targets observed) (simp_all add: same_run)

lemma phases_same [same_run]:
  "read_phase (with_plan p cfg) = read_phase cfg"
  "write_phase (with_plan p cfg) = write_phase cfg"
  "verify_phase (with_plan p cfg) = verify_phase cfg"
  unfolding read_phase_def[abs_def] write_phase_def[abs_def] verify_phase_def[abs_def] same_run
  by (rule refl)+

lemma step_same [same_run]:
  "after_verify (with_plan p cfg) = after_verify cfg"
  "after_read (with_plan p cfg) = after_read cfg"
  "run_step (with_plan p cfg) = run_step cfg"
  unfolding run_step_def[abs_def] after_read_def[abs_def] after_verify_def[abs_def] same_run
  by (rule refl)+

lemma run_loop_same [same_run]: "run_loop (with_plan p cfg) sts = run_loop cfg sts"
  by (induction sts) (simp_all add: same_run)

lemma run_steps_same [same_run]: "run_steps (with_plan p cfg) = run_steps cfg"
  unfolding run_steps_def[abs_def] same_run ..

lemma fresh_context_same [same_run]: "fresh_context (with_plan p cfg) = fresh_context cfg"
  unfolding fresh_context_def[abs_def] same_run ..

section \<open>The plan of a run\<close>

definition run_plan :: "'r exec_config \<Rightarrow> pystr \<Rightarrow> 'r exec_state \<Rightarrow> exec_step list option" where
  "run_plan cfg oid s =
     (let n = xs_tick s;
          w1 = xc_env cfg n (xs_world s);
          w3 = xc_env cfg (n + 2) (xc_env cfg (n + 1) w1)
      in case get_op oid (wd_store w1) of
           None \<Rightarrow> None
         | Some r \<Rightarrow> xc_loader cfg (wd_store w3) (wd_clock w3) (op_plan_id r))"

lemma get_operation_Inr: "get_operation oid st = (Inr sm, st') \<Longrightarrow> st' = st
    \<and> (\<exists>r. get_op oid st = Some r \<and> sm = summary r)"
  by (auto simp: get_operation_def read_summary_def monad_defs split: option.splits sum.splits)

lemma load_steps_at:
  assumes "service cfg (\<lambda>_ _. get_operation oid) s = (Inr sm, s1)"
  shows "load_steps (with_plan (run_plan cfg oid s) cfg) (sm_plan_id sm) s1
    = load_steps cfg (sm_plan_id sm) s1"
proof -
  from assms obtain r where r: "get_op oid (wd_store (xc_env cfg (xs_tick s) (xs_world s))) = Some r"
      "sm = summary r"
      "xs_world s1 = xc_env cfg (xs_tick s + 1) (xc_env cfg (xs_tick s) (xs_world s))"
      "xs_tick s1 = xs_tick s + 2"
    by (auto simp: service_def sbind_def sret_def await_def service_effect_def Let_def
        split: prod.split_asm sum.split_asm if_split_asm dest!: get_operation_Inr)
  then show ?thesis
    by (simp add: load_steps_def service_def sbind_def await_def service_effect_def Let_def
        with_plan_def run_plan_def summary_def)
qed

theorem execute_with_run_plan:
  "execute cfg oid rv token s = execute (with_plan (run_plan cfg oid s) cfg) oid rv token s"
proof (cases "service cfg (\<lambda>_ _. get_operation oid) s")
  case (Pair out s1)
  show ?thesis
  proof (cases out)
    case (Inl e)
    with Pair show ?thesis by (simp add: execute_def same_run sbind_def)
  next
    case (Inr sm)
    note load = load_steps_at[OF Pair[unfolded Inr]]
    show ?thesis
      unfolding execute_def same_run sbind_Inr[of "service cfg (\<lambda>_ _. get_operation oid)", OF Pair[unfolded Inr]]
      using load by (simp add: sbind_def)
  qed
qed

lemma loaded_with_plan [simp]: "loaded (with_plan p cfg) sts \<longleftrightarrow> p = Some sts"
  by (simp add: loaded_def with_plan_def)

text \<open>What a plan names.\<close>

definition plan_member :: "exec_step list option \<Rightarrow> exec_member \<Rightarrow> bool" where
  "plan_member p m \<longleftrightarrow> (\<exists>sts. p = Some sts \<and> (\<exists>st \<in> set sts. m \<in> set (es_members st)))"

lemma planned_with_plan [simp]:
  "planned_member (with_plan p cfg) m \<longleftrightarrow> plan_member p m"
  "planned_call (with_plan p cfg) c \<longleftrightarrow> (\<exists>m. plan_member p m \<and> c \<in> member_calls m)"
  by (simp_all add: planned_member_def planned_call_def plan_member_def)

section \<open>Properties of a run and its plan\<close>

lemma execute_planned:
  "execute cfg oid rv token s = (out, s')
    \<Longrightarrow> execute (with_plan (run_plan cfg oid s) cfg) oid rv token s = (out, s')"
  using execute_with_run_plan[of cfg oid rv token s] by simp

text \<open>
  C35. The executor stays inside its plan: every object it reads or writes, every target it
  reads and every name it gives is one that a step of the plan it loaded names.
\<close>

theorem execute_stays_in_plan:
  assumes "execute cfg oid rv token s = (out, s')" and "xs_trace s = []"
    and "Called c t res \<in> set (xs_trace s')"
  shows "\<exists>m. plan_member (run_plan cfg oid s) m \<and> c \<in> member_calls m"
  using stays_loaded[OF execute_planned[OF assms(1)] assms(2,3)] by simp

text \<open>
  C3. No blind write: before the first and every later write to a member of a step, all
  members of that step were observed at their planned source and all their target slots
  were observed empty.
\<close>

theorem execute_observes_before_writes:
  assumes "execute cfg oid rv token s = (out, s')" and "xs_trace s = []"
    and "xs_trace s' = before @ Called c t res # after" and "is_write_call c"
  shows "\<exists>sts st m. run_plan cfg oid s = Some sts \<and> st \<in> set sts \<and> m \<in> set (es_members st)
    \<and> c \<in> member_calls m \<and> step_ready st (set before)"
  using observes_loaded[OF execute_planned[OF assms(1)] assms(2-4)] by simp

text \<open>
  C4. An organized result is the truth: every member of every step of the plan was observed at
  its planned target, the operation's row is organized, and every directory of the plan has a
  dirty event of this operation.
\<close>

theorem execute_organized:
  assumes "execute cfg oid rv token s = (Inr r, s')" and "xr_status r = EXEC_ORGANIZED"
    and "db_env cfg" and "store_ok (xs_store s)"
    and "\<And>ds. set (xc_set_order cfg ds) = set ds"
  shows "\<exists>sts. run_plan cfg oid s = Some sts \<and> sts \<noteq> []
    \<and> (\<forall>st \<in> set sts. \<forall>m \<in> set (es_members st).
         seen m matches_target (set (xs_trace s'))
         \<and> (\<forall>d \<in> {em_source_parent_id m, em_target_parent_id m}.
              \<exists>e \<in> set (events (xs_store s')). event_key e = (xr_operation_id r, d, directory_dirty_kind)))
    \<and> (\<exists>row. get_op (xr_operation_id r) (xs_store s') = Some row \<and> op_status row = OP_ORGANIZED)"
proof -
  have env: "db_env (with_plan (run_plan cfg oid s) cfg)"
    using assms(3) by (simp add: db_env_def same_run)
  have order: "set (xc_set_order (with_plan (run_plan cfg oid s) cfg) ds) = set ds" for ds
    using assms(5) by (simp add: same_run)
  from organized_loaded[OF execute_planned[OF assms(1)] assms(2) env assms(4) order]
  show ?thesis unfolding loaded_with_plan .
qed

text \<open>
  Over the offline transport, an object the plan does not name is untouched: where it is
  and what it is called are the same after the run, when nobody else moves it.
\<close>

theorem execute_touches_planned_only:
  assumes "execute cfg oid rv token s = (out, s')" and "xs_trace s = []"
    and "xc_transport cfg = offline_transport u"
    and "\<And>n w x. (\<And>m. plan_member (run_plan cfg oid s) m \<Longrightarrow> em_object_id m \<noteq> x)
      \<Longrightarrow> offline_object_at (wd_remote (xc_env cfg n w)) x = offline_object_at (wd_remote w) x"
    and "\<And>m. plan_member (run_plan cfg oid s) m \<Longrightarrow> em_object_id m \<noteq> x"
  shows "offline_object_at (wd_remote (xs_world s')) x = offline_object_at (wd_remote (xs_world s)) x"
  by (rule touches_loaded[OF execute_planned[OF assms(1)] assms(2)])
     (simp_all add: same_run assms(3-5) remote_env_def)

end
