(* ===== verification/Executor_Demo.thy ===== *)
theory Executor_Demo
  imports Executor_Plan
begin

text \<open>
  A concrete execution: one claimed operation whose plan moves and renames one object, over
  the offline transport, in an environment that leaves everything alone.  It is evaluated in
  the kernel and instantiates the properties of the executor.
\<close>

definition demo_unicode :: unicode where
  "demo_unicode = \<lparr>uni_digit = (\<lambda>c. c < 10), uni_fold = (\<lambda>c. [c]),
     uni_decimal = (\<lambda>c. Some c), uni_space = (\<lambda>_. False),
     uni_alpha = (\<lambda>_. False)\<rparr>"

definition demo_token :: pystr where
  "demo_token = replicate 32 1"

definition demo_member :: exec_member where
  "demo_member = \<lparr>em_object_type = [], em_object_id = [1, 1],
     em_source_parent_id = [1], em_source_path = [3], em_source_name = [3],
     em_source_version = [], em_target_parent_id = [2], em_target_name = [4]\<rparr>"

definition demo_steps :: "exec_step list" where
  "demo_steps = [\<lparr>es_order = 0, es_kind = [],
     es_scope_directory_ids = [[1], [2]], es_members = [demo_member]\<rparr>]"

definition demo_row :: op_row where
  "demo_row = \<lparr>op_id = [5], op_plan_id = [6], op_plan_revision = 1,
     op_idempotency_key = [7], op_status = OP_ORGANIZING, op_revision = 2, op_attempts = 1,
     op_lease_token = Some demo_token, op_lease_expires_at = Some 1000, op_error_code = None,
     op_created_at = 0, op_updated_at = 0, op_finished_at = None\<rparr>"

definition demo_store :: store where
  "demo_store = \<lparr>ops = [demo_row], plans = [], libraries = [], runs = [], scan_entries = [], events = [], checkpoints = [], diffs = [], ledger = [],
     inventory_events = [], media_identities = []\<rparr>"

definition demo_remote :: offline where
  "demo_remote =
     \<lparr>of_intents = [([1, 1], \<lparr>oi_object_id = [1, 1], oi_source_parent_id = [1],
        oi_source_name = [3], oi_target_parent_id = [2], oi_target_name = [4]\<rparr>)],
      of_targets = [([2], [4])], of_managed = [[1], [2]],
      of_scope_confirmed = True,
      of_states = [([1, 1], \<lparr>rs_object_id = [1, 1], rs_parent_id = [1], rs_name = [3]\<rparr>)],
      of_outcomes = [], of_calls = []\<rparr>"

definition demo_config :: "offline exec_config" where
  "demo_config =
     \<lparr>xc_transport = offline_transport demo_unicode, xc_max_calls = 128, xc_min_interval = 0,
      xc_cancel_event = True, xc_now = None, xc_loader = (\<lambda>_ _ _. Some demo_steps),
      xc_unicode = demo_unicode, xc_env = (\<lambda>_ w. w), xc_ids = (\<lambda>n k. [n, k]),
      xc_set_order = remdups\<rparr>"

definition demo_start :: "offline exec_state" where
  "demo_start =
     \<lparr>xs_world = \<lparr>wd_store = demo_store, wd_remote = demo_remote, wd_clock = 0, wd_mono = 0,
                  wd_cancel = False, wd_abort = False\<rparr>,
      xs_tick = 0, xs_ctx = fresh_context demo_config [5] 2 demo_token, xs_trace = []\<rparr>"

definition demo_run :: "(exec_exn + exec_result) \<times> offline exec_state" where
  "demo_run = execute demo_config [5] 2 demo_token demo_start"

lemma demo_organized:
  "fst demo_run = Inr \<lparr>xr_operation_id = [5], xr_status = EXEC_ORGANIZED, xr_error_code = None,
     xr_completed_steps = 1, xr_transport_calls = 5\<rparr>"
  by code_simp

lemma demo_executes: "execute demo_config [5] 2 demo_token demo_start = (fst demo_run, snd demo_run)"
  by (simp add: demo_run_def)

lemma demo_facts [simp]:
  "xc_env demo_config n x = x"
  "xs_trace demo_start = []" "xs_store demo_start = demo_store"
  "xc_max_calls demo_config = 128" "xc_min_interval demo_config = 0"
  "xc_transport demo_config = offline_transport demo_unicode" "xc_set_order demo_config = remdups"
  "mono_env demo_config" "db_env demo_config" "sticky_cancel demo_config" "remote_env demo_config"
  "loaded demo_config sts = (sts = demo_steps)"
  by (auto simp: demo_start_def demo_config_def mono_env_def db_env_def sticky_cancel_def
      remote_env_def loaded_def)

lemma demo_store_ok [simp]: "store_ok demo_store"
  by (simp add: store_ok_def demo_store_def op_invariant_def row_ok_def demo_row_def unique_ops_def
      unique_events_def)

text \<open>The same plan when the drive refuses the move.\<close>

definition demo_refused_start :: "offline exec_state" where
  "demo_refused_start = demo_start\<lparr>xs_world := (xs_world demo_start)\<lparr>wd_remote :=
     demo_remote\<lparr>of_outcomes := [((METHOD_MOVE, [1, 1]), OutResult \<lparr>tr_operation = TRANSPORT_MOVE,
       tr_status = TRANSPORT_FAILED, tr_error_code = None\<rparr>)]\<rparr>\<rparr>\<rparr>"

definition demo_refused :: "(exec_exn + exec_result) \<times> offline exec_state" where
  "demo_refused = execute demo_config [5] 2 demo_token demo_refused_start"

lemma demo_refused_failed:
  "fst demo_refused = Inr \<lparr>xr_operation_id = [5], xr_status = EXEC_FAILED,
     xr_error_code = Some ''remote_write_failed'', xr_completed_steps = 0, xr_transport_calls = 3\<rparr>"
  by code_simp

lemma demo_pair: "fst p = Inr x \<Longrightarrow> p = (Inr x, snd p)"
  by (cases p) simp

section \<open>Witnesses\<close>

theorem execute_within_budget_witness:
  "int (n_calls (xs_trace (snd demo_run))) \<le> 128 \<and> n_calls (xs_trace (snd demo_run)) = 5"
  using execute_within_budget[OF demo_executes]
  by (simp add: valid_budget_def demo_organized)

theorem execute_renews_before_calls_witness:
  "disciplined \<lparr>lease_operation_id = [5], lease_revision = 2, lease_token = demo_token,
      lease_expires_at = map_option as_utc (xc_now demo_config)\<rparr> False (xs_trace (snd demo_run))"
  using execute_renews_before_calls[OF demo_executes] by simp

lemma demo_trace_move:
  "\<exists>before t after. xs_trace (snd demo_run) = before @ Called (Move [1, 1] [2]) t
     (Inr (Wrote (transport_success TRANSPORT_MOVE))) # after"
proof -
  have "list_ex (\<lambda>e. case e of Called c t out \<Rightarrow> c = Move [1, 1] [2]
      \<and> out = Inr (Wrote (transport_success TRANSPORT_MOVE)) | _ \<Rightarrow> False) (xs_trace (snd demo_run))"
    by code_simp
  then obtain e where e: "e \<in> set (xs_trace (snd demo_run))"
    "case e of Called c t out \<Rightarrow> c = Move [1, 1] [2]
      \<and> out = Inr (Wrote (transport_success TRANSPORT_MOVE)) | _ \<Rightarrow> False"
    unfolding list_ex_iff by blast
  show ?thesis
  proof (cases e)
    case (Called c t out)
    with e show ?thesis using split_list[OF e(1)] by auto
  qed (use e in simp)
qed

lemma demo_plan [simp]: "run_plan demo_config [5] demo_start = Some demo_steps"
  by (simp add: run_plan_def demo_config_def demo_start_def demo_store_def get_op_def demo_row_def)

lemma demo_planned [simp]: "plan_member (Some demo_steps) m \<longleftrightarrow> m = demo_member"
  by (auto simp: plan_member_def demo_steps_def)

theorem execute_stays_in_plan_witness: "Move [1, 1] [2] \<in> member_calls demo_member"
proof -
  obtain t where "Called (Move [1, 1] [2]) t (Inr (Wrote (transport_success TRANSPORT_MOVE)))
      \<in> set (xs_trace (snd demo_run))"
    using demo_trace_move by fastforce
  from execute_stays_in_plan[OF demo_executes _ this] show ?thesis by simp
qed

theorem execute_observes_before_writes_witness:
  "\<exists>st \<in> set demo_steps. step_ready st (set (xs_trace (snd demo_run)))"
proof -
  obtain before t after where tr: "xs_trace (snd demo_run) = before @ Called (Move [1, 1] [2]) t
     (Inr (Wrote (transport_success TRANSPORT_MOVE))) # after"
    using demo_trace_move by blast
  from execute_observes_before_writes[OF demo_executes _ tr]
  obtain st where "st \<in> set demo_steps" "step_ready st (set before)" by auto
  then show ?thesis using step_ready_mono[of "set before" "set (xs_trace (snd demo_run))"] tr by auto
qed

theorem execute_organized_witness:
  "(\<exists>row. get_op [5] (xs_store (snd demo_run)) = Some row \<and> op_status row = OP_ORGANIZED)
   \<and> seen demo_member matches_target (set (xs_trace (snd demo_run)))"
  using execute_organized[OF demo_pair[OF demo_organized, unfolded demo_run_def]]
  by (simp add: demo_steps_def demo_run_def)

theorem execute_failed_clean_witness:
  "filter confirmed_write (xs_trace (snd demo_refused)) = []"
proof -
  have "\<not> confirmed_write e" if "e \<in> set (xs_trace (snd demo_refused))" for e
    using that
    by (rule execute_failed_clean[OF demo_pair[OF demo_refused_failed, unfolded demo_refused_def]
          _ _ _ _ _, unfolded demo_refused_def[symmetric], rotated -1])
       (simp_all add: demo_refused_start_def)
  then show ?thesis by (simp add: filter_empty_conv)
qed

theorem execute_outcome_witness:
  "case fst demo_run of Inl e \<Rightarrow> outer_exn e | Inr r \<Rightarrow> reported r (snd demo_run)"
  using execute_outcome[OF demo_executes] .

theorem execute_paces_calls_witness:
  "sorted_wrt (\<lambda>t t'. t + 0 \<le> t') (call_times (xs_trace (snd demo_run)))"
  using execute_paces_calls[OF demo_executes] by (simp add: valid_budget_def)

theorem execute_cancelled_makes_no_call_witness:
  "n_calls (xs_trace (snd (execute demo_config [5] 2 demo_token
     (demo_start\<lparr>xs_world := (xs_world demo_start)\<lparr>wd_cancel := True\<rparr>\<rparr>)))) = 0"
  by (rule execute_cancelled_makes_no_call[OF surjective_pairing]) simp_all

theorem execute_keeps_database_witness: "store_ok (xs_store (snd demo_run))"
  using execute_keeps_database[OF demo_executes] by simp

theorem execute_touches_planned_only_witness:
  "offline_object_at (wd_remote (xs_world (snd demo_run))) [9]
     = offline_object_at (wd_remote (xs_world demo_start)) [9]"
  using execute_touches_planned_only[OF demo_executes, of demo_unicode "[9]"]
  by (simp add: demo_member_def)

end
