(* ===== verification/Operation_Demo.thy ===== *)
theory Operation_Demo
  imports Operation_Props
begin

text \<open>
  A concrete store with one current plan and the operations it goes through: created, claimed,
  completed.  Evaluated in the kernel, it instantiates the properties of the operation service.
\<close>

definition sample_token :: pystr where
  "sample_token = replicate 32 1"

definition sample_library :: library_row where
  "sample_library = \<lparr>lib_id = [1], lib_root_directory_id = [2], lib_scope_verified = True,
     lib_enabled = True, lib_revision = 3\<rparr>"

definition sample_run :: run_row where
  "sample_run = \<lparr>run_id = [3], run_library_id = [1], run_root_directory_id = [2],
     run_state = SCAN_COMPLETED, run_complete = True, run_snapshot_revision = Some 7,
     run_idempotency_key = [1], run_expected_page_count = Some 1, run_expected_total = None,
     run_pages_read = 1, run_items_seen = 1, run_added_count = 1, run_changed_count = 0,
     run_removed_count = 0, run_error_code = None, run_created_at = 0, run_updated_at = 0\<rparr>"

definition sample_snapshot :: json where
  "sample_snapshot = JObj (zip library_snapshot_keys [JStr [1], JInt 3, JBool True, JBool True, JStr [2]])"

definition sample_plan :: plan_row where
  "sample_plan = \<lparr>plan_id = [4], plan_library_id = [1], plan_source_scan_run_id = [3],
     plan_source_snapshot_revision = 7,
     plan_source_snapshot = None, plan_target_root = [], plan_actions = None,
     plan_preconditions = Some (JObj [(lit ''library'', sample_snapshot)]),
     plan_rule_version = [], plan_parser_version = [], plan_matcher_version = [],
     plan_status = PLAN_PLANNED, plan_revision = 1, plan_expires_at = 1000000, plan_hash = [9],
     plan_basis = None, plan_alias = None, plan_created_at = 0\<rparr>"

definition sample_store :: store where
  "sample_store = \<lparr>ops = [], plans = [sample_plan], libraries = [sample_library],
     runs = [sample_run], scan_entries = [], events = [], checkpoints = [], diffs = [], ledger = [],
     inventory_events = [], media_identities = []\<rparr>"

definition sample_created :: "(op_error + op_summary) \<times> store" where
  "sample_created = create_operation (\<lambda>s. s) 10 [5] [4] [6] None sample_store"

definition sample_claimed :: "(op_error + op_lease) \<times> store" where
  "sample_claimed = claim (\<lambda>s. s) 20 sample_token [5] 1 1000000 None (snd sample_created)"

definition sample_next :: "(op_error + op_lease option) \<times> store" where
  "sample_next = claim_next (\<lambda>s. s) (\<lambda>s. s) 20 sample_token 1000000 None (snd sample_created)"

definition sample_completed :: "(op_error + op_summary) \<times> store" where
  "sample_completed = complete_organized (\<lambda>n. [n]) 30 [5] 2 sample_token [11] [12] None None
     (snd sample_claimed)"

lemma sample_created_value:
  "sample_created = (Inr \<lparr>sm_operation_id = [5], sm_plan_id = [4], sm_status = OP_PLANNED, sm_revision = 1,
     sm_attempts = 0, sm_error_code = None\<rparr>, snd sample_created)"
  by code_simp

lemma sample_claimed_value:
  "sample_claimed = (Inr \<lparr>lease_operation_id = [5], lease_revision = 2, lease_token = sample_token,
     lease_expires_at = Some 1000020\<rparr>, snd sample_claimed)"
  by code_simp

lemma sample_next_value:
  "sample_next = (Inr (Some \<lparr>lease_operation_id = [5], lease_revision = 2, lease_token = sample_token,
     lease_expires_at = Some 1000020\<rparr>), snd sample_next)"
  by code_simp

lemma sample_completed_value:
  "sample_completed = (Inr \<lparr>sm_operation_id = [5], sm_plan_id = [4], sm_status = OP_ORGANIZED, sm_revision = 3,
     sm_attempts = 1, sm_error_code = None\<rparr>, snd sample_completed)"
  by code_simp

text \<open>The same values as equations of the calls.\<close>

lemmas sample_created_call = trans[OF sample_created_def[symmetric] sample_created_value]
lemmas sample_claimed_call = trans[OF sample_claimed_def[symmetric] sample_claimed_value]
lemmas sample_next_call = trans[OF sample_next_def[symmetric] sample_next_value]
lemmas sample_completed_call = trans[OF sample_completed_def[symmetric] sample_completed_value]

definition sample_row :: op_row where
  "sample_row = \<lparr>op_id = [5], op_plan_id = [4], op_plan_revision = 1, op_idempotency_key = [6],
     op_status = OP_PLANNED, op_revision = 1, op_attempts = 0, op_lease_token = None,
     op_lease_expires_at = None, op_error_code = None, op_created_at = 10, op_updated_at = 10,
     op_finished_at = None\<rparr>"

lemma sample_rows:
  "get_op [5] (snd sample_created) = Some sample_row"
  "get_op [5] (snd sample_claimed) = Some (claim_set sample_token 1000020 20 1 sample_row)"
  by code_simp+

lemma sample_ok [simp]: "store_ok sample_store"
  by (simp add: store_ok_def sample_store_def op_invariant_def unique_ops_def unique_events_def)

lemma sample_reach:
  "db_reach sample_store (snd sample_created)"
  "db_reach (snd sample_created) (snd sample_claimed)"
  using commits_create[of "\<lambda>s. s"] commits_claim[of "\<lambda>s. s"]
  by (simp_all add: commits_only_def sample_created_def sample_claimed_def)

lemma sample_states_ok [simp]: "store_ok (snd sample_created)" "store_ok (snd sample_claimed)"
  using db_reach_ok[OF sample_reach(1)] db_reach_ok[OF sample_reach(2)] by simp_all

section \<open>Witnesses\<close>

theorem service_run_invariant_witness:
  "store_ok (fold run_call [CallCreate 10 [5] [4] [6] None, CallClaim 20 sample_token [5] 1 1000000 None]
     sample_store)"
  by (rule service_run_invariant) simp

theorem operation_history_witness:
  "\<exists>r'. get_op [5] (snd sample_claimed) = Some r' \<and> same_identity sample_row r'
    \<and> op_transition\<^sup>*\<^sup>* OP_PLANNED (op_status r')"
  using operation_history[OF sample_reach(2) _ sample_rows(1)] by (auto simp: sample_row_def)

theorem claim_sound_witness:
  "\<exists>r p. get_op [5] (snd sample_created) = Some r \<and> get_plan (op_plan_id r) (snd sample_created) = Some p
    \<and> plan_is_current 20 (snd sample_created) p"
  using claim_sound[OF sample_claimed_call] by auto

theorem claim_respects_live_lease_witness:
  "\<exists>e s'. claim (\<lambda>s. s) 30 sample_token [5] 2 1000000 None (snd sample_claimed) = (Inl e, s')
    \<and> ops s' = ops (snd sample_claimed)"
proof (rule claim_respects_live_lease)
  show "get_op [5] (snd sample_claimed) = Some (claim_set sample_token 1000020 20 1 sample_row)"
    by (rule sample_rows)
  show "op_status (claim_set sample_token 1000020 20 1 sample_row) = OP_ORGANIZING"
    by (simp add: claim_set_def)
  show "lease_live (resolve_now 30 None) (claim_set sample_token 1000020 20 1 sample_row)"
    by (simp add: claim_set_def lease_live_def)
qed

theorem claim_race_witness:
  "\<exists>e. fst (claim (\<lambda>_. snd sample_claimed) 21 sample_token [5] 1 2000000 None (snd sample_created)) = Inl e"
  using claim_race[OF sample_claimed_call sample_states_ok(1),
      of 21 sample_token 2000000 None]
  by (metis sample_claimed_def prod.collapse)

text \<open>The claimed store after an unrelated commit, where the lease still renews.\<close>

definition sample_later :: store where
  "sample_later = (snd sample_claimed)\<lparr>plans := []\<rparr>"

lemma sample_renews:
  "succeeds (renew_lease 30 [5] 2 sample_token 1000000 None sample_later)"
  by code_simp

theorem lease_fencing_witness: "get_op [5] sample_later = get_op [5] (snd sample_claimed)"
proof (rule lease_fencing)
  show "claim (\<lambda>s. s) 20 sample_token [5] 1 1000000 None (snd sample_created)
    = (Inr \<lparr>lease_operation_id = [5], lease_revision = 2, lease_token = sample_token,
         lease_expires_at = Some 1000020\<rparr>, snd sample_claimed)"
    by (rule sample_claimed_call)
  show "db_reach (snd sample_claimed) sample_later"
    by (rule r_into_rtranclp) (rule dw_other, simp_all add: sample_later_def)
  show "lease_accepted \<lparr>lease_operation_id = [5], lease_revision = 2, lease_token = sample_token,
         lease_expires_at = Some 1000020\<rparr> sample_later"
    unfolding lease_accepted_def using sample_renews by auto
qed simp_all

definition sample_again :: "(op_error + op_summary) \<times> store" where
  "sample_again = create_operation (\<lambda>s. s) 40 [8] [4] [6] None (snd sample_claimed)"

lemma sample_again_value:
  "sample_again = (Inr \<lparr>sm_operation_id = [5], sm_plan_id = [4], sm_status = OP_ORGANIZING, sm_revision = 2,
     sm_attempts = 1, sm_error_code = None\<rparr>, snd sample_again)"
  by code_simp

theorem create_idempotent_witness: "ops (snd sample_again) = ops (snd sample_claimed)"
  using create_idempotent[OF sample_created_call
      sample_states_ok(1) sample_reach(2) trans[OF sample_again_def[symmetric] sample_again_value]]
  by simp

theorem complete_atomic_witness:
  "set (events (snd sample_claimed)) \<subseteq> set (events (snd sample_completed))
    \<and> (\<exists>!e. e \<in> set (events (snd sample_completed)) \<and> event_key e = ([5], [11], directory_dirty_kind))
    \<and> (\<exists>!e. e \<in> set (events (snd sample_completed)) \<and> event_key e = ([5], [12], directory_dirty_kind))"
  using complete_atomic[OF sample_states_ok(2) sample_completed_call]
  by (simp add: sample_completed_def)

theorem claim_next_oldest_witness:
  "\<exists>r \<in> set (ops (snd sample_created)). op_id r = [5] \<and> op_status r = OP_PLANNED"
  using claim_next_oldest[OF sample_next_call] by auto

end
