(* ===== verification/Workflow.thy ===== *)
theory Workflow
  imports Prelude "HOL-Library.Product_Lexorder"
begin

text \<open>
  \<^verbatim>\<open>services/workflows.py\<close>: the workflow aggregate.  A workflow owns seven stages; a stage
  changes by a patch, by an approval, by a cancellation or by its child task, and every
  change recomputes the workflow's status from all its stages.  A method is a function on
  the two tables: it returns its exception, with nothing committed, or the committed tables;
  \<open>respond\<close> is the response every write method builds from the refreshed workflow.
\<close>

section \<open>Names and states\<close>

datatype media_type = MEDIA_MOVIE | MEDIA_TV

datatype stage_name =
    STAGE_DISCOVERY | STAGE_INSPECTION | STAGE_APPROVAL | STAGE_PUSH | STAGE_AVAILABILITY
  | STAGE_ORGANIZATION | STAGE_STRM

datatype stage_status =
    ST_PENDING | ST_RUNNING | ST_WAITING_CONFIRMATION | ST_WAITING_EXTERNAL | ST_SUCCEEDED
  | ST_SKIPPED | ST_FAILED | ST_UNCERTAIN | ST_CANCELLED

datatype workflow_status =
    WF_IN_PROGRESS | WF_WAITING_USER_CONFIRMATION | WF_WAITING_EXTERNAL | WF_PARTIAL
  | WF_COMPLETED | WF_CANCELLED | WF_FAILED | WF_RESULT_PENDING_CONFIRMATION

definition stage_order :: "stage_name list" where
  "stage_order =
     [STAGE_DISCOVERY, STAGE_INSPECTION, STAGE_APPROVAL, STAGE_PUSH, STAGE_AVAILABILITY,
      STAGE_ORGANIZATION, STAGE_STRM]"

fun stage_index :: "stage_name \<Rightarrow> nat" where
  "stage_index STAGE_DISCOVERY = 0"
| "stage_index STAGE_INSPECTION = 1"
| "stage_index STAGE_APPROVAL = 2"
| "stage_index STAGE_PUSH = 3"
| "stage_index STAGE_AVAILABILITY = 4"
| "stage_index STAGE_ORGANIZATION = 5"
| "stage_index STAGE_STRM = 6"

fun stage_value :: "stage_name \<Rightarrow> string" where
  "stage_value STAGE_DISCOVERY = ''discovery''"
| "stage_value STAGE_INSPECTION = ''inspection''"
| "stage_value STAGE_APPROVAL = ''approval''"
| "stage_value STAGE_PUSH = ''push''"
| "stage_value STAGE_AVAILABILITY = ''availability''"
| "stage_value STAGE_ORGANIZATION = ''organization''"
| "stage_value STAGE_STRM = ''strm''"

lemma stage_index_inject [simp]: "stage_index a = stage_index b \<longleftrightarrow> a = b"
  by (cases a; cases b) simp_all

lemma stage_order_index: "i < length stage_order \<Longrightarrow> stage_index (stage_order ! i) = i"
  by (auto simp: stage_order_def less_Suc_eq numeral_eq_Suc)

instantiation stage_name :: linorder
begin

definition less_eq_stage_name :: "stage_name \<Rightarrow> stage_name \<Rightarrow> bool" where
  "less_eq_stage_name a b \<longleftrightarrow> stage_index a \<le> stage_index b"

definition less_stage_name :: "stage_name \<Rightarrow> stage_name \<Rightarrow> bool" where
  "less_stage_name a b \<longleftrightarrow> stage_index a < stage_index b"

instance
  by standard (auto simp: less_eq_stage_name_def less_stage_name_def)

end

definition terminal_stage_statuses :: "stage_status set" where
  "terminal_stage_statuses = {ST_SUCCEEDED, ST_SKIPPED, ST_FAILED, ST_UNCERTAIN, ST_CANCELLED}"

text \<open>The statuses a rejection or a cancellation may overwrite.\<close>

definition unstarted_statuses :: "stage_status set" where
  "unstarted_statuses = {ST_PENDING, ST_WAITING_CONFIRMATION, ST_WAITING_EXTERNAL}"

text \<open>The labels shown to the user, as their UTF-8 bytes.\<close>

fun workflow_label :: "workflow_status \<Rightarrow> string" where
  "workflow_label WF_IN_PROGRESS =
     [CHR 0xE8, CHR 0xBF, CHR 0x9B, CHR 0xE8, CHR 0xA1, CHR 0x8C,
      CHR 0xE4, CHR 0xB8, CHR 0xAD]"
| "workflow_label WF_WAITING_USER_CONFIRMATION =
     [CHR 0xE7, CHR 0xAD, CHR 0x89, CHR 0xE5, CHR 0xBE, CHR 0x85,
      CHR 0xE7, CHR 0x94, CHR 0xA8, CHR 0xE6, CHR 0x88, CHR 0xB7,
      CHR 0xE7, CHR 0xA1, CHR 0xAE, CHR 0xE8, CHR 0xAE, CHR 0xA4]"
| "workflow_label WF_WAITING_EXTERNAL =
     [CHR 0xE7, CHR 0xAD, CHR 0x89, CHR 0xE5, CHR 0xBE, CHR 0x85,
      CHR 0xE5, CHR 0xA4, CHR 0x96, CHR 0xE9, CHR 0x83, CHR 0xA8,
      CHR 0xE6, CHR 0x9C, CHR 0x8D, CHR 0xE5, CHR 0x8A, CHR 0xA1]"
| "workflow_label WF_PARTIAL =
     [CHR 0xE9, CHR 0x83, CHR 0xA8, CHR 0xE5, CHR 0x88, CHR 0x86,
      CHR 0xE5, CHR 0xAE, CHR 0x8C, CHR 0xE6, CHR 0x88, CHR 0x90]"
| "workflow_label WF_COMPLETED =
     [CHR 0xE5, CHR 0xB7, CHR 0xB2, CHR 0xE5, CHR 0xAE, CHR 0x8C,
      CHR 0xE6, CHR 0x88, CHR 0x90]"
| "workflow_label WF_CANCELLED =
     [CHR 0xE5, CHR 0xB7, CHR 0xB2, CHR 0xE5, CHR 0x8F, CHR 0x96,
      CHR 0xE6, CHR 0xB6, CHR 0x88]"
| "workflow_label WF_FAILED =
     [CHR 0xE5, CHR 0xB7, CHR 0xB2, CHR 0xE5, CHR 0xA4, CHR 0xB1,
      CHR 0xE8, CHR 0xB4, CHR 0xA5]"
| "workflow_label WF_RESULT_PENDING_CONFIRMATION =
     [CHR 0xE7, CHR 0xBB, CHR 0x93, CHR 0xE6, CHR 0x9E, CHR 0x9C,
      CHR 0xE5, CHR 0xBE, CHR 0x85, CHR 0xE7, CHR 0xA1, CHR 0xAE,
      CHR 0xE8, CHR 0xAE, CHR 0xA4]"

fun stage_label :: "stage_status \<Rightarrow> string" where
  "stage_label ST_PENDING =
     [CHR 0xE5, CHR 0xBE, CHR 0x85, CHR 0xE5, CHR 0xBC, CHR 0x80,
      CHR 0xE5, CHR 0xA7, CHR 0x8B]"
| "stage_label ST_RUNNING =
     [CHR 0xE8, CHR 0xBF, CHR 0x9B, CHR 0xE8, CHR 0xA1, CHR 0x8C,
      CHR 0xE4, CHR 0xB8, CHR 0xAD]"
| "stage_label ST_WAITING_CONFIRMATION =
     [CHR 0xE7, CHR 0xAD, CHR 0x89, CHR 0xE5, CHR 0xBE, CHR 0x85,
      CHR 0xE7, CHR 0xA1, CHR 0xAE, CHR 0xE8, CHR 0xAE, CHR 0xA4]"
| "stage_label ST_WAITING_EXTERNAL =
     [CHR 0xE7, CHR 0xAD, CHR 0x89, CHR 0xE5, CHR 0xBE, CHR 0x85,
      CHR 0xE5, CHR 0xA4, CHR 0x96, CHR 0xE9, CHR 0x83, CHR 0xA8,
      CHR 0xE6, CHR 0x9C, CHR 0x8D, CHR 0xE5, CHR 0x8A, CHR 0xA1]"
| "stage_label ST_SUCCEEDED =
     [CHR 0xE5, CHR 0xB7, CHR 0xB2, CHR 0xE5, CHR 0xAE, CHR 0x8C,
      CHR 0xE6, CHR 0x88, CHR 0x90]"
| "stage_label ST_SKIPPED =
     [CHR 0xE5, CHR 0xB7, CHR 0xB2, CHR 0xE8, CHR 0xB7, CHR 0xB3,
      CHR 0xE8, CHR 0xBF, CHR 0x87]"
| "stage_label ST_FAILED =
     [CHR 0xE5, CHR 0xB7, CHR 0xB2, CHR 0xE5, CHR 0xA4, CHR 0xB1,
      CHR 0xE8, CHR 0xB4, CHR 0xA5]"
| "stage_label ST_UNCERTAIN =
     [CHR 0xE7, CHR 0xBB, CHR 0x93, CHR 0xE6, CHR 0x9E, CHR 0x9C,
      CHR 0xE5, CHR 0xBE, CHR 0x85, CHR 0xE7, CHR 0xA1, CHR 0xAE,
      CHR 0xE8, CHR 0xAE, CHR 0xA4]"
| "stage_label ST_CANCELLED =
     [CHR 0xE5, CHR 0xB7, CHR 0xB2, CHR 0xE5, CHR 0x8F, CHR 0x96,
      CHR 0xE6, CHR 0xB6, CHR 0x88]"

section \<open>Tables\<close>

record workflow_row =
  wf_id :: pystr
  wf_correlation_id :: pystr
  wf_media_type :: "media_type option"
  wf_tmdb_id :: "int option"
  wf_subscription_id :: "pystr option"
  wf_status :: workflow_status
  wf_state_reason :: "string option"
  wf_created_at :: time
  wf_updated_at :: time

record stage_row =
  stg_id :: pystr
  stg_workflow_id :: pystr
  stg_stage :: stage_name
  stg_status :: stage_status
  stg_reason :: "pystr option"
  stg_error_code :: "pystr option"
  stg_child_type :: "pystr option"
  stg_child_id :: "pystr option"
  stg_started_at :: "time option"
  stg_completed_at :: "time option"
  stg_updated_at :: time

record workflow_db =
  workflows :: "workflow_row list"
  stages :: "stage_row list"

datatype workflow_error = WorkflowNotFound pystr | WorkflowConflict string

definition get_workflow :: "pystr \<Rightarrow> workflow_db \<Rightarrow> workflow_row option" where
  "get_workflow wid db = row_of wf_id wid (workflows db)"

definition stages_of :: "pystr \<Rightarrow> workflow_db \<Rightarrow> stage_row list" where
  "stages_of wid db = filter (\<lambda>r. stg_workflow_id r = wid) (stages db)"

definition find_stage :: "pystr \<Rightarrow> stage_name \<Rightarrow> workflow_db \<Rightarrow> stage_row option" where
  "find_stage wid name db = find (\<lambda>r. stg_workflow_id r = wid \<and> stg_stage r = name) (stages db)"

definition update_stages ::
  "pystr \<Rightarrow> (stage_row \<Rightarrow> bool) \<Rightarrow> (stage_row \<Rightarrow> stage_row) \<Rightarrow> workflow_db \<Rightarrow> workflow_db" where
  "update_stages wid p f db =
     db\<lparr>stages := update_where (\<lambda>r. stg_workflow_id r = wid \<and> p r) f (stages db)\<rparr>"

section \<open>The derived status\<close>

definition derive_status :: "stage_row list \<Rightarrow> workflow_status \<times> string option" where
  "derive_status rows =
     (let statuses = set (map stg_status rows)
      in if ST_UNCERTAIN \<in> statuses then (WF_RESULT_PENDING_CONFIRMATION, Some ''stage_uncertain'')
         else if ST_WAITING_CONFIRMATION \<in> statuses
           then (WF_WAITING_USER_CONFIRMATION, Some ''waiting_confirmation'')
         else if ST_WAITING_EXTERNAL \<in> statuses then (WF_WAITING_EXTERNAL, Some ''waiting_external'')
         else if ST_RUNNING \<in> statuses \<or> ST_PENDING \<in> statuses then
           (if ST_FAILED \<in> statuses then (WF_PARTIAL, Some ''stage_failed_with_pending_work'')
            else (WF_IN_PROGRESS, Some ''stage_in_progress''))
         else if ST_FAILED \<in> statuses then
           (if ST_SUCCEEDED \<in> statuses then (WF_PARTIAL, Some ''stage_failed'')
            else (WF_FAILED, Some ''stage_failed''))
         else if rows \<noteq> [] \<and> list_all (\<lambda>r. stg_status r = ST_CANCELLED) rows
           then (WF_CANCELLED, Some ''workflow_cancelled'')
         else if ST_CANCELLED \<in> statuses then (WF_PARTIAL, Some ''workflow_cancelled'')
         else (WF_COMPLETED, Some ''all_stages_terminal''))"

text \<open>\<open>workflow.status, workflow.state_reason = _derive_status(stages)\<close>\<close>

definition rederive :: "pystr \<Rightarrow> time \<Rightarrow> workflow_db \<Rightarrow> workflow_db" where
  "rederive wid now db =
     (let d = derive_status (stages_of wid db)
      in db\<lparr>workflows := update_where (\<lambda>w. wf_id w = wid)
           (\<lambda>w. w\<lparr>wf_status := fst d, wf_state_reason := snd d, wf_updated_at := now\<rparr>)
           (workflows db)\<rparr>)"

section \<open>Responses\<close>

record stage_response =
  sr_id :: pystr
  sr_stage :: stage_name
  sr_status :: stage_status
  sr_status_zh :: string
  sr_reason :: "pystr option"
  sr_error_code :: "pystr option"
  sr_child_type :: "pystr option"
  sr_child_id :: "pystr option"
  sr_started_at :: "time option"
  sr_completed_at :: "time option"
  sr_updated_at :: time

record workflow_response =
  wr_id :: pystr
  wr_correlation_id :: pystr
  wr_media_type :: "media_type option"
  wr_tmdb_id :: "int option"
  wr_subscription_id :: "pystr option"
  wr_status :: workflow_status
  wr_status_zh :: string
  wr_state_reason :: "string option"
  wr_created_at :: time
  wr_updated_at :: time
  wr_stages :: "stage_response list"

definition stage_view :: "stage_row \<Rightarrow> stage_response" where
  "stage_view r =
     \<lparr>sr_id = stg_id r, sr_stage = stg_stage r, sr_status = stg_status r,
      sr_status_zh = stage_label (stg_status r), sr_reason = stg_reason r,
      sr_error_code = stg_error_code r, sr_child_type = stg_child_type r,
      sr_child_id = stg_child_id r, sr_started_at = stg_started_at r,
      sr_completed_at = stg_completed_at r, sr_updated_at = stg_updated_at r\<rparr>"

definition response :: "workflow_row \<Rightarrow> stage_row list \<Rightarrow> workflow_response" where
  "response w rows =
     \<lparr>wr_id = wf_id w, wr_correlation_id = wf_correlation_id w, wr_media_type = wf_media_type w,
      wr_tmdb_id = wf_tmdb_id w, wr_subscription_id = wf_subscription_id w,
      wr_status = wf_status w, wr_status_zh = workflow_label (wf_status w),
      wr_state_reason = wf_state_reason w, wr_created_at = wf_created_at w,
      wr_updated_at = wf_updated_at w,
      wr_stages = map stage_view (sort_key stg_stage rows)\<rparr>"

definition respond :: "pystr \<Rightarrow> workflow_db \<Rightarrow> workflow_response option" where
  "respond wid db =
     map_option (\<lambda>w. response w (stages_of wid db)) (get_workflow wid db)"

section \<open>Methods of the service\<close>

type_synonym 'a workflow_result = "workflow_error + 'a"

text \<open>Python's \<open>or\<close> on optional strings: the empty string is falsy.\<close>

definition str_or :: "pystr option \<Rightarrow> pystr option \<Rightarrow> pystr option" where
  "str_or a b = (case a of None \<Rightarrow> b | Some s \<Rightarrow> if s = [] then b else Some s)"

record workflow_request =
  wq_media_type :: "media_type option"
  wq_tmdb_id :: "int option"
  wq_subscription_id :: "pystr option"

record stage_patch =
  sp_status :: stage_status
  sp_reason :: "pystr option"
  sp_error_code :: "pystr option"
  sp_child_type :: "pystr option"
  sp_child_id :: "pystr option"

definition new_stage :: "pystr \<Rightarrow> time \<Rightarrow> stage_name \<Rightarrow> stage_row" where
  "new_stage wid now name =
     \<lparr>stg_id = wid @ lit ''_'' @ lit (stage_value name), stg_workflow_id = wid, stg_stage = name,
      stg_status = ST_PENDING, stg_reason = None, stg_error_code = None, stg_child_type = None,
      stg_child_id = None, stg_started_at = None, stg_completed_at = None, stg_updated_at = now\<rparr>"

text \<open>\<open>uuid\<close> is the hexadecimal \<open>uuid4\<close> of the workflow, \<open>corr\<close> that of the correlation id.\<close>

definition create_workflow ::
  "time \<Rightarrow> pystr \<Rightarrow> pystr \<Rightarrow> workflow_request \<Rightarrow> workflow_db \<Rightarrow> workflow_response \<times> workflow_db" where
  "create_workflow now uuid corr q db =
     (let wid = lit ''wf_'' @ uuid;
          w = \<lparr>wf_id = wid, wf_correlation_id = lit ''corr_'' @ corr,
               wf_media_type = wq_media_type q, wf_tmdb_id = wq_tmdb_id q,
               wf_subscription_id = wq_subscription_id q, wf_status = WF_IN_PROGRESS,
               wf_state_reason = Some ''workflow_created'', wf_created_at = now,
               wf_updated_at = now\<rparr>;
          rows = map (new_stage wid now) stage_order
      in (response w rows, db\<lparr>workflows := workflows db @ [w], stages := stages db @ rows\<rparr>))"

definition read_workflow :: "pystr \<Rightarrow> workflow_db \<Rightarrow> workflow_response workflow_result" where
  "read_workflow wid db =
     (case respond wid db of None \<Rightarrow> Inl (WorkflowNotFound wid) | Some r \<Rightarrow> Inr r)"

record workflow_filter =
  fl_status :: "workflow_status option"
  fl_media_type :: "media_type option"
  fl_subscription_id :: "pystr option"
  fl_stage :: "stage_name option"
  fl_stage_status :: "stage_status option"

definition eq_filter :: "'a option \<Rightarrow> 'a option \<Rightarrow> bool" where
  "eq_filter wanted actual = (wanted = None \<or> actual = wanted)"

definition matches_filter :: "workflow_filter \<Rightarrow> workflow_db \<Rightarrow> workflow_row \<Rightarrow> bool" where
  "matches_filter f db w =
     (eq_filter (fl_status f) (Some (wf_status w))
      \<and> eq_filter (fl_media_type f) (wf_media_type w)
      \<and> eq_filter (fl_subscription_id f) (wf_subscription_id w)
      \<and> (case (fl_stage f, fl_stage_status f) of
           (Some n, Some st) \<Rightarrow>
             list_ex (\<lambda>r. stg_stage r = n \<and> stg_status r = st) (stages_of (wf_id w) db)
         | (Some n, None) \<Rightarrow> list_ex (\<lambda>r. stg_stage r = n) (stages_of (wf_id w) db)
         | (None, Some st) \<Rightarrow> list_ex (\<lambda>r. stg_status r = st) (stages_of (wf_id w) db)
         | (None, None) \<Rightarrow> True))"

text \<open>Newest first; rows with the same time keep their table order.\<close>

definition list_workflows ::
  "workflow_filter \<Rightarrow> nat \<Rightarrow> nat \<Rightarrow> workflow_db \<Rightarrow> workflow_response list \<times> nat" where
  "list_workflows f page page_size db =
     (let rows = filter (matches_filter f db) (workflows db)
      in (map (\<lambda>w. response w (stages_of (wf_id w) db))
            (take page_size (drop ((page - 1) * page_size)
               (sort_key (\<lambda>w. - wf_updated_at w) rows))), length rows))"

text \<open>The lookups every write starts with: the workflow, then the stage.\<close>

definition with_stage ::
  "pystr \<Rightarrow> stage_name \<Rightarrow> workflow_db \<Rightarrow> (stage_row \<Rightarrow> 'a workflow_result) \<Rightarrow> 'a workflow_result" where
  "with_stage wid name db k =
     (if get_workflow wid db = None then Inl (WorkflowNotFound wid)
      else case find_stage wid name db of
          None \<Rightarrow> Inl (WorkflowNotFound (wid @ lit '':'' @ lit (stage_value name)))
        | Some r \<Rightarrow> k r)"

definition set_stage ::
  "pystr \<Rightarrow> stage_name \<Rightarrow> (stage_row \<Rightarrow> stage_row) \<Rightarrow> time \<Rightarrow> workflow_db \<Rightarrow> workflow_db" where
  "set_stage wid name f now db =
     rederive wid now (update_stages wid (\<lambda>r. stg_stage r = name) f db)"

definition start_and_complete :: "stage_status \<Rightarrow> time \<Rightarrow> stage_row \<Rightarrow> stage_row" where
  "start_and_complete st now r =
     r\<lparr>stg_started_at := (if st = ST_RUNNING \<and> stg_started_at r = None then Some now
                          else stg_started_at r),
       stg_completed_at := (if st \<in> terminal_stage_statuses then Some now else stg_completed_at r)\<rparr>"

definition patched :: "stage_patch \<Rightarrow> time \<Rightarrow> stage_row \<Rightarrow> stage_row" where
  "patched p now r =
     start_and_complete (sp_status p) now
       (r\<lparr>stg_status := sp_status p, stg_reason := sp_reason p, stg_error_code := sp_error_code p,
          stg_child_type := str_or (sp_child_type p) (stg_child_type r),
          stg_child_id := str_or (sp_child_id p) (stg_child_id r), stg_updated_at := now\<rparr>)"

definition patch_stage ::
  "pystr \<Rightarrow> stage_name \<Rightarrow> stage_patch \<Rightarrow> time \<Rightarrow> workflow_db \<Rightarrow> workflow_db workflow_result" where
  "patch_stage wid name p now db =
     with_stage wid name db (\<lambda>_. Inr (set_stage wid name (patched p now) now db))"

definition cancelled_row :: "pystr \<Rightarrow> time \<Rightarrow> stage_row \<Rightarrow> stage_row" where
  "cancelled_row reason now r =
     r\<lparr>stg_status := ST_CANCELLED, stg_reason := Some reason, stg_updated_at := now,
       stg_completed_at := Some now\<rparr>"

definition decided :: "bool \<Rightarrow> pystr option \<Rightarrow> time \<Rightarrow> stage_row \<Rightarrow> stage_row" where
  "decided approved reason now r =
     r\<lparr>stg_status := (if approved then ST_SUCCEEDED else ST_CANCELLED),
       stg_reason := str_or reason (Some (lit (if approved then ''approved'' else ''rejected''))),
       stg_error_code := None, stg_updated_at := now, stg_completed_at := Some now\<rparr>"

text \<open>A rejection cancels only work that has not started.\<close>

definition decide_approval ::
  "pystr \<Rightarrow> bool \<Rightarrow> pystr option \<Rightarrow> time \<Rightarrow> workflow_db \<Rightarrow> workflow_db workflow_result" where
  "decide_approval wid approved reason now db =
     with_stage wid STAGE_APPROVAL db (\<lambda>r.
       if stg_status r \<noteq> ST_WAITING_CONFIRMATION
         then Inl (WorkflowConflict ''workflow_not_awaiting_confirmation'')
       else
         (let db1 = update_stages wid (\<lambda>r. stg_stage r = STAGE_APPROVAL)
                      (decided approved reason now) db;
              db2 = (if approved then db1
                     else update_stages wid
                       (\<lambda>r. stg_stage r \<noteq> STAGE_APPROVAL \<and> stg_status r \<in> unstarted_statuses)
                       (cancelled_row (lit ''approval_rejected'') now) db1)
          in Inr (rederive wid now db2)))"

definition cancel_workflow ::
  "pystr \<Rightarrow> pystr option \<Rightarrow> time \<Rightarrow> workflow_db \<Rightarrow> workflow_db workflow_result" where
  "cancel_workflow wid reason now db =
     (case get_workflow wid db of
        None \<Rightarrow> Inl (WorkflowNotFound wid)
      | Some w \<Rightarrow>
          if wf_status w \<in> {WF_COMPLETED, WF_CANCELLED, WF_FAILED}
             \<or> list_ex (\<lambda>r. stg_status r \<in> {ST_RUNNING, ST_UNCERTAIN}) (stages_of wid db)
             \<or> \<not> list_ex (\<lambda>r. stg_status r \<in> unstarted_statuses) (stages_of wid db)
            then Inl (WorkflowConflict ''workflow_not_cancellable'')
          else Inr (rederive wid now
            (update_stages wid (\<lambda>r. stg_status r \<in> unstarted_statuses)
               (cancelled_row (the (str_or reason (Some (lit ''workflow_cancelled'')))) now) db)))"

section \<open>Child operations\<close>

definition linked :: "pystr \<Rightarrow> pystr \<Rightarrow> time \<Rightarrow> stage_row \<Rightarrow> stage_row" where
  "linked child_type child_id now r =
     r\<lparr>stg_child_type := Some child_type, stg_child_id := Some child_id,
       stg_status := ST_RUNNING,
       stg_started_at := (case stg_started_at r of None \<Rightarrow> Some now | Some t \<Rightarrow> Some t),
       stg_completed_at := None, stg_reason := Some (lit ''child_started''),
       stg_error_code := None, stg_updated_at := now\<rparr>"

definition link_child ::
  "pystr \<Rightarrow> stage_name \<Rightarrow> pystr \<Rightarrow> pystr \<Rightarrow> time \<Rightarrow> workflow_db \<Rightarrow> workflow_db workflow_result" where
  "link_child wid name child_type child_id now db =
     with_stage wid name db (\<lambda>_. Inr (set_stage wid name (linked child_type child_id now) now db))"

record child_sync =
  cs_child_type :: pystr
  cs_child_id :: pystr
  cs_status :: stage_status
  cs_reason :: "pystr option"
  cs_error_code :: "pystr option"

definition synced :: "child_sync \<Rightarrow> time \<Rightarrow> stage_row \<Rightarrow> stage_row" where
  "synced c now r =
     start_and_complete (cs_status c) now
       (r\<lparr>stg_child_type := Some (cs_child_type c), stg_child_id := Some (cs_child_id c),
          stg_status := cs_status c, stg_reason := cs_reason c, stg_error_code := cs_error_code c,
          stg_updated_at := now\<rparr>)"

definition sync_child_stage ::
  "pystr \<Rightarrow> stage_name \<Rightarrow> child_sync \<Rightarrow> time \<Rightarrow> workflow_db \<Rightarrow> workflow_db workflow_result" where
  "sync_child_stage wid name c now db =
     with_stage wid name db (\<lambda>_. Inr (set_stage wid name (synced c now) now db))"

end
