(* ===== verification/Workflow_Props.thy ===== *)
theory Workflow_Props
  imports Workflow
begin

text \<open>
  Properties of the workflow aggregate.  The five operations that write stages share the
  contract of the locale \<open>stage_write\<close>: they rewrite rows of one workflow in place and
  recompute its status.  From it follow the table invariant and the isolation of workflows.
\<close>

section \<open>Invariant\<close>

definition stamped :: "stage_row \<Rightarrow> bool" where
  "stamped r \<longleftrightarrow> (stg_status r \<in> terminal_stage_statuses \<longrightarrow> stg_completed_at r \<noteq> None)"

definition same_slot :: "stage_row \<Rightarrow> stage_row \<Rightarrow> bool" where
  "same_slot r r' \<longleftrightarrow>
     stg_id r' = stg_id r \<and> stg_workflow_id r' = stg_workflow_id r \<and> stg_stage r' = stg_stage r"

definition workflow_ok :: "workflow_db \<Rightarrow> bool" where
  "workflow_ok db \<longleftrightarrow>
     distinct (map wf_id (workflows db))
     \<and> (\<forall>r \<in> set (stages db). stamped r \<and> stg_workflow_id r \<in> wf_id ` set (workflows db))
     \<and> (\<forall>w \<in> set (workflows db).
          wf_status w = fst (derive_status (stages_of (wf_id w) db))
          \<and> map stg_stage (stages_of (wf_id w) db) = stage_order)"

lemma get_workflow_rederive:
  "get_workflow wid' (rederive wid now db)
    = map_option (\<lambda>w. if wid' = wid then w\<lparr>wf_status := fst (derive_status (stages_of wid db)),
         wf_state_reason := snd (derive_status (stages_of wid db)), wf_updated_at := now\<rparr> else w)
       (get_workflow wid' db)"
proof -
  have upd: "row_of wf_id wid' (update_where (\<lambda>w. wf_id w = wid) f rows)
      = map_option (\<lambda>w. if wid' = wid then f w else w) (row_of wf_id wid' rows)"
    if "\<And>w. wf_id (f w) = wf_id w" for f and rows :: "workflow_row list"
    using that by (induction rows) (auto simp: update_where_def)
  show ?thesis by (simp add: get_workflow_def rederive_def Let_def upd)
qed

lemma get_workflow_other:
  "wid' \<noteq> wid \<Longrightarrow> get_workflow wid' (rederive wid now db) = get_workflow wid' db"
  by (simp add: get_workflow_rederive map_option.identity)

lemma rederive_simps [simp]:
  "stages (rederive wid now db) = stages db"
  "stages_of wid' (rederive wid now db) = stages_of wid' db"
  "map wf_id (workflows (rederive wid now db)) = map wf_id (workflows db)"
  by (simp_all add: rederive_def Let_def stages_of_def map_key_update)

lemma update_stages_simps [simp]:
  "workflows (update_stages wid p f db) = workflows db"
  by (simp add: update_stages_def)

text \<open>A row-wise rewrite of one workflow's stages.\<close>

definition rewritten :: "pystr \<Rightarrow> (stage_row \<Rightarrow> stage_row) \<Rightarrow> workflow_db \<Rightarrow> workflow_db \<Rightarrow> bool" where
  "rewritten wid g db db' \<longleftrightarrow>
     (\<forall>r. same_slot r (g r) \<and> (stg_workflow_id r \<noteq> wid \<longrightarrow> g r = r) \<and> (stamped r \<longrightarrow> stamped (g r)))
     \<and> stages db' = map g (stages db)"

lemma rewritten_update:
  assumes "\<And>r. same_slot r (f r)" "\<And>r. stamped r \<Longrightarrow> stamped (f r)"
  shows "rewritten wid (\<lambda>r. if stg_workflow_id r = wid \<and> p r then f r else r) db (update_stages wid p f db)"
  using assms by (auto simp: rewritten_def update_stages_def update_where_def same_slot_def)

lemma rewritten_trans:
  "rewritten wid g db db1 \<Longrightarrow> rewritten wid h db1 db2 \<Longrightarrow> rewritten wid (h \<circ> g) db db2"
  by (auto simp: rewritten_def same_slot_def)

lemma rewritten_stages_of:
  assumes "rewritten wid g db db'"
  shows "stages_of wid' db' = map g (stages_of wid' db)"
  using assms by (auto simp: rewritten_def stages_of_def same_slot_def filter_map comp_def)

locale stage_write =
  fixes op :: "time \<Rightarrow> workflow_db \<Rightarrow> workflow_db workflow_result" and wid :: pystr
  assumes op_writes: "op now db = Inr db' \<Longrightarrow> \<exists>g mid. rewritten wid g db mid
    \<and> workflows mid = workflows db \<and> db' = rederive wid now mid"
begin

lemma write_stages:
  assumes "op now db = Inr db'"
  obtains g where "rewritten wid g db db'"
proof -
  obtain g mid where "rewritten wid g db mid" "db' = rederive wid now mid"
    using op_writes[OF assms] by blast
  then show thesis by (intro that[of g]) (simp add: rewritten_def)
qed

text \<open>Other workflows are untouched, row and stages.\<close>

lemma write_isolated:
  assumes "op now db = Inr db'" and "wid' \<noteq> wid"
  shows "get_workflow wid' db' = get_workflow wid' db" and "stages_of wid' db' = stages_of wid' db"
proof -
  obtain g mid where w: "rewritten wid g db mid" "workflows mid = workflows db" "db' = rederive wid now mid"
    using op_writes[OF assms(1)] by blast
  show "get_workflow wid' db' = get_workflow wid' db"
    using w assms(2) by (simp add: get_workflow_other) (simp add: get_workflow_def)
  have "map g (stages_of wid' db) = stages_of wid' db"
    using w(1) assms(2) by (intro map_idI) (auto simp: rewritten_def stages_of_def)
  then show "stages_of wid' db' = stages_of wid' db"
    using rewritten_stages_of[OF w(1)] w(3) by simp
qed

lemma write_ok:
  assumes "op now db = Inr db'" and "workflow_ok db"
  shows "workflow_ok db'"
proof -
  obtain g mid where w: "rewritten wid g db mid" "workflows mid = workflows db" "db' = rederive wid now mid"
    using op_writes[OF assms(1)] by blast
  have ids: "map wf_id (workflows db') = map wf_id (workflows db)" using w by simp
  have rows: "stamped r \<and> stg_workflow_id r \<in> wf_id ` set (workflows db')" if "r \<in> set (stages db')" for r
  proof -
    from that w obtain q where q: "q \<in> set (stages db)" "r = g q"
      by (auto simp: rewritten_def)
    have "stamped q" "stg_workflow_id q \<in> set (map wf_id (workflows db))"
      using assms(2) q(1) by (auto simp: workflow_ok_def)
    moreover have "stamped q \<longrightarrow> stamped r" "stg_workflow_id r = stg_workflow_id q"
      using w(1) q(2) unfolding rewritten_def same_slot_def by blast+
    ultimately show ?thesis using ids by (metis list.set_map)
  qed
  have names: "map stg_stage (stages_of wid' db') = map stg_stage (stages_of wid' db)" for wid'
    using rewritten_stages_of[OF w(1)] w(1,3) by (auto simp: rewritten_def same_slot_def)
  have st: "wf_status v = fst (derive_status (stages_of (wf_id v) db'))
      \<and> map stg_stage (stages_of (wf_id v) db') = stage_order" if v: "v \<in> set (workflows db')" for v
  proof -
    have dist: "distinct (map wf_id (workflows db'))" using assms(2) ids by (simp add: workflow_ok_def)
    then have v': "get_workflow (wf_id v) db' = Some v"
      using row_of_unique[OF _ v] by (simp add: get_workflow_def)
    then obtain u where u: "get_workflow (wf_id v) db = Some u"
      and eq: "v = (if wf_id v = wid then u\<lparr>wf_status := fst (derive_status (stages_of wid mid)),
         wf_state_reason := snd (derive_status (stages_of wid mid)), wf_updated_at := now\<rparr> else u)"
      using w(2,3) by (auto simp: get_workflow_rederive get_workflow_def[of _ mid]
          get_workflow_def[of _ db, symmetric])
    then have uin: "u \<in> set (workflows db)" "wf_id u = wf_id v"
      by (auto simp: get_workflow_def dest: row_of_Some)
    have ok: "wf_status u = fst (derive_status (stages_of (wf_id v) db))"
      "map stg_stage (stages_of (wf_id v) db) = stage_order"
      using assms(2) uin by (force simp: workflow_ok_def)+
    show ?thesis
    proof (cases "wf_id v = wid")
      case True
      then have "wf_status v = fst (derive_status (stages_of wid mid))"
        by (subst eq) simp
      with True w(3) ok names show ?thesis by simp
    next
      case False
      with eq ok names[of "wf_id v"] write_isolated(2)[OF assms(1) False] show ?thesis by simp
    qed
  qed
  show ?thesis
    using assms(2) ids rows st unfolding workflow_ok_def by (auto simp del: map_map)
qed

end

section \<open>The operations that write stages\<close>

lemma same_slot_simps [simp]:
  "same_slot r (patched p now r)" "same_slot r (cancelled_row reason now r)"
  "same_slot r (decided a rsn now r)" "same_slot r (linked ct ci now r)"
  "same_slot r (synced c now r)"
  by (simp_all add: same_slot_def patched_def cancelled_row_def decided_def linked_def synced_def
      start_and_complete_def)

lemma stamped_simps [simp]:
  "stamped r \<Longrightarrow> stamped (patched p now r)" "stamped (cancelled_row reason now r)"
  "stamped (decided a rsn now r)" "stamped (linked ct ci now r)"
  "stamped r \<Longrightarrow> stamped (synced c now r)"
  by (simp_all add: stamped_def patched_def cancelled_row_def decided_def linked_def synced_def
      start_and_complete_def terminal_stage_statuses_def)

lemma rewritten_ex:
  "rewritten wid g db mid \<Longrightarrow> workflows mid = workflows db \<Longrightarrow> db' = rederive wid now mid
    \<Longrightarrow> \<exists>g mid. rewritten wid g db mid \<and> workflows mid = workflows db \<and> db' = rederive wid now mid"
  by blast

lemma set_stage_writes:
  assumes "\<And>r. same_slot r (f r)" "\<And>r. stamped r \<Longrightarrow> stamped (f r)"
  shows "\<exists>g mid. rewritten wid g db mid \<and> workflows mid = workflows db
    \<and> set_stage wid name f now db = rederive wid now mid"
  by (rule rewritten_ex[OF rewritten_update[OF assms]]) (simp_all add: set_stage_def)

lemma with_stage_Inr:
  "with_stage wid name db k = Inr x \<Longrightarrow> \<exists>w r. get_workflow wid db = Some w
    \<and> find_stage wid name db = Some r \<and> k r = Inr x"
  by (auto simp: with_stage_def split: if_splits option.splits)

interpretation patch: stage_write "\<lambda>now. patch_stage wid name p now" wid for wid name p
proof
  fix now db db' assume "patch_stage wid name p now db = Inr db'"
  then have "db' = set_stage wid name (patched p now) now db"
    by (auto simp: patch_stage_def dest: with_stage_Inr)
  then show "\<exists>g mid. rewritten wid g db mid \<and> workflows mid = workflows db \<and> db' = rederive wid now mid"
    using set_stage_writes[of "patched p now" wid db name now] by simp
qed

interpretation link: stage_write "\<lambda>now. link_child wid name ct ci now" wid for wid name ct ci
proof
  fix now db db' assume "link_child wid name ct ci now db = Inr db'"
  then have "db' = set_stage wid name (linked ct ci now) now db"
    by (auto simp: link_child_def dest: with_stage_Inr)
  then show "\<exists>g mid. rewritten wid g db mid \<and> workflows mid = workflows db \<and> db' = rederive wid now mid"
    using set_stage_writes[of "linked ct ci now" wid db name now] by simp
qed

interpretation sync: stage_write "\<lambda>now. sync_child_stage wid name c now" wid for wid name c
proof
  fix now db db' assume "sync_child_stage wid name c now db = Inr db'"
  then have "db' = set_stage wid name (synced c now) now db"
    by (auto simp: sync_child_stage_def dest: with_stage_Inr)
  then show "\<exists>g mid. rewritten wid g db mid \<and> workflows mid = workflows db \<and> db' = rederive wid now mid"
    using set_stage_writes[of "synced c now" wid db name now] by simp
qed

interpretation cancel: stage_write "\<lambda>now. cancel_workflow wid reason now" wid for wid reason
proof
  fix now db db' assume "cancel_workflow wid reason now db = Inr db'"
  then have "db' = rederive wid now (update_stages wid (\<lambda>r. stg_status r \<in> unstarted_statuses)
      (cancelled_row (the (str_or reason (Some (lit ''workflow_cancelled'')))) now) db)"
    by (simp add: cancel_workflow_def split: option.splits if_splits)
  then show "\<exists>g mid. rewritten wid g db mid \<and> workflows mid = workflows db \<and> db' = rederive wid now mid"
    by (intro rewritten_ex[OF rewritten_update]) simp_all
qed

interpretation decide: stage_write "\<lambda>now. decide_approval wid approved reason now" wid
  for wid approved reason
proof
  fix now db db' assume "decide_approval wid approved reason now db = Inr db'"
  then have db': "db' = rederive wid now (if approved
      then update_stages wid (\<lambda>r. stg_stage r = STAGE_APPROVAL) (decided approved reason now) db
      else update_stages wid
        (\<lambda>r. stg_stage r \<noteq> STAGE_APPROVAL \<and> stg_status r \<in> unstarted_statuses)
        (cancelled_row (lit ''approval_rejected'') now)
        (update_stages wid (\<lambda>r. stg_stage r = STAGE_APPROVAL) (decided approved reason now) db))"
    by (auto simp: decide_approval_def Let_def dest!: with_stage_Inr split: if_splits)
  show "\<exists>g mid. rewritten wid g db mid \<and> workflows mid = workflows db \<and> db' = rederive wid now mid"
  proof (cases approved)
    case True
    with db' show ?thesis by (intro rewritten_ex[OF rewritten_update]) simp_all
  next
    case False
    with db' show ?thesis
      by (intro rewritten_ex[OF rewritten_trans[OF rewritten_update rewritten_update]]) simp_all
  qed
qed

section \<open>Runs\<close>

text \<open>
  The commits on the workflow tables.  A workflow is created with a fresh identifier: its
  primary key is a \<open>uuid4\<close>, and a clash is refused by the database.
\<close>

inductive workflow_step :: "workflow_db \<Rightarrow> workflow_db \<Rightarrow> bool" where
  step_create: "lit ''wf_'' @ uuid \<notin> wf_id ` set (workflows db)
    \<Longrightarrow> workflow_step db (snd (create_workflow now uuid corr q db))"
| step_patch: "patch_stage wid name p now db = Inr db' \<Longrightarrow> workflow_step db db'"
| step_decide: "decide_approval wid approved reason now db = Inr db' \<Longrightarrow> workflow_step db db'"
| step_cancel: "cancel_workflow wid reason now db = Inr db' \<Longrightarrow> workflow_step db db'"
| step_link: "link_child wid name ct ci now db = Inr db' \<Longrightarrow> workflow_step db db'"
| step_sync: "sync_child_stage wid name c now db = Inr db' \<Longrightarrow> workflow_step db db'"

lemma create_ok:
  assumes "lit ''wf_'' @ uuid \<notin> wf_id ` set (workflows db)" and ok: "workflow_ok db"
  shows "workflow_ok (snd (create_workflow now uuid corr q db))"
proof -
  define wid where "wid = lit ''wf_'' @ uuid"
  define rows where "rows = map (new_stage wid now) stage_order"
  define db' where "db' = snd (create_workflow now uuid corr q db)"
  obtain w0 where wf: "workflows db' = workflows db @ [w0]" "wf_id w0 = wid" "wf_status w0 = WF_IN_PROGRESS"
    by (simp add: db'_def create_workflow_def Let_def wid_def)
  have stg: "stages db' = stages db @ rows"
    by (simp add: db'_def create_workflow_def Let_def wid_def rows_def)
  have fresh: "wid \<notin> wf_id ` set (workflows db)" using assms(1) by (simp add: wid_def)
  have new: "map stg_stage rows = stage_order"
    "\<And>r. r \<in> set rows \<Longrightarrow> stg_workflow_id r = wid \<and> stg_status r = ST_PENDING"
    by (auto simp: rows_def new_stage_def comp_def)
  have old: "stages_of wid db = []"
    using fresh ok by (force simp: stages_of_def filter_empty_conv workflow_ok_def)
  have own: "stages_of wid db' = rows"
    using old new(2) by (simp add: stg stages_of_def filter_id_conv)
  have other: "stages_of w db' = stages_of w db" if "w \<noteq> wid" for w
    using that new(2) by (auto simp: stg stages_of_def filter_empty_conv)
  have st: "fst (derive_status rows) = WF_IN_PROGRESS"
    by (simp add: rows_def stage_order_def new_stage_def derive_status_def Let_def)
  have ok': "wf_status w = fst (derive_status (stages_of (wf_id w) db'))
      \<and> map stg_stage (stages_of (wf_id w) db') = stage_order" if "w \<in> set (workflows db')" for w
  proof (cases "w \<in> set (workflows db)")
    case True
    then have "wf_id w \<noteq> wid" using fresh by force
    with True ok show ?thesis by (simp add: other workflow_ok_def)
  next
    case False
    with that wf have "wf_id w = wid" "wf_status w = WF_IN_PROGRESS" by auto
    then show ?thesis using own st new(1) by simp
  qed
  have rows_ok: "stamped r \<and> stg_workflow_id r \<in> wf_id ` set (workflows db')" if "r \<in> set (stages db')" for r
  proof (cases "r \<in> set rows")
    case True
    with new(2) wf show ?thesis by (auto simp: stamped_def terminal_stage_statuses_def)
  next
    case False
    with that stg ok wf show ?thesis by (auto simp: workflow_ok_def)
  qed
  have "distinct (map wf_id (workflows db'))" using fresh ok wf by (simp add: workflow_ok_def)
  then show ?thesis using ok' rows_ok unfolding workflow_ok_def db'_def[symmetric] by blast
qed

lemma workflow_step_ok:
  assumes "workflow_step db db'" and "workflow_ok db"
  shows "workflow_ok db'"
  using assms
  by (induction rule: workflow_step.induct)
     (auto intro: create_ok patch.write_ok decide.write_ok cancel.write_ok link.write_ok sync.write_ok)

section \<open>Properties\<close>

text \<open>
  C37. After any sequence of workflow commits from empty tables, every workflow has exactly the
  seven stages in their order, its stored status is the one derived from them, and every
  stage in a terminal status carries its completion time.
\<close>

theorem workflow_run_invariant:
  assumes "workflow_step\<^sup>*\<^sup>* \<lparr>workflows = [], stages = []\<rparr> db" and "w \<in> set (workflows db)"
  shows "map stg_stage (stages_of (wf_id w) db) = stage_order
    \<and> wf_status w = fst (derive_status (stages_of (wf_id w) db))
    \<and> (\<forall>r \<in> set (stages_of (wf_id w) db).
         stg_status r \<in> terminal_stage_statuses \<longrightarrow> stg_completed_at r \<noteq> None)"
proof -
  from assms(1) have "workflow_ok db"
    by (induction rule: rtranclp_induct) (auto simp: workflow_ok_def[of "\<lparr>workflows = [], stages = []\<rparr>"]
        intro: workflow_step_ok)
  with assms(2) show ?thesis by (auto simp: workflow_ok_def stages_of_def stamped_def)
qed

text \<open>
  The derived status is faithful to the stages: completed means that every stage succeeded
  or was skipped; a workflow that counts as over has no stage that is open or uncertain; and
  an uncertain stage always shows.
\<close>

theorem derive_status_faithful:
  "(fst (derive_status rows) = WF_COMPLETED
      \<longleftrightarrow> (\<forall>r \<in> set rows. stg_status r \<in> {ST_SUCCEEDED, ST_SKIPPED}))
   \<and> (fst (derive_status rows) \<in> {WF_COMPLETED, WF_CANCELLED, WF_FAILED}
      \<longrightarrow> (\<forall>r \<in> set rows. stg_status r \<in> {ST_SUCCEEDED, ST_SKIPPED, ST_FAILED, ST_CANCELLED}))
   \<and> (fst (derive_status rows) = WF_RESULT_PENDING_CONFIRMATION
      \<longleftrightarrow> (\<exists>r \<in> set rows. stg_status r = ST_UNCERTAIN))"
proof (intro conjI)
  have mem: "st \<in> set (map stg_status rows) \<longleftrightarrow> (\<exists>r \<in> set rows. stg_status r = st)" for st by auto
  have open_all: "(\<forall>r \<in> set rows. stg_status r \<in> {ST_SUCCEEDED, ST_SKIPPED, ST_FAILED, ST_CANCELLED})
      \<longleftrightarrow> \<not> (\<exists>st \<in> {ST_UNCERTAIN, ST_WAITING_CONFIRMATION, ST_WAITING_EXTERNAL, ST_RUNNING, ST_PENDING}.
            \<exists>r \<in> set rows. stg_status r = st)"
  proof -
    have "st \<in> {ST_SUCCEEDED, ST_SKIPPED, ST_FAILED, ST_CANCELLED}
        \<longleftrightarrow> st \<notin> {ST_UNCERTAIN, ST_WAITING_CONFIRMATION, ST_WAITING_EXTERNAL, ST_RUNNING, ST_PENDING}" for st
      by (cases st) simp_all
    then show ?thesis by blast
  qed
  show "fst (derive_status rows) \<in> {WF_COMPLETED, WF_CANCELLED, WF_FAILED}
      \<longrightarrow> (\<forall>r \<in> set rows. stg_status r \<in> {ST_SUCCEEDED, ST_SKIPPED, ST_FAILED, ST_CANCELLED})"
    unfolding open_all derive_status_def Let_def mem by (simp split: if_splits)
  have done_all: "(\<forall>r \<in> set rows. stg_status r \<in> {ST_SUCCEEDED, ST_SKIPPED})
      \<longleftrightarrow> (\<forall>r \<in> set rows. stg_status r \<in> {ST_SUCCEEDED, ST_SKIPPED, ST_FAILED, ST_CANCELLED})
        \<and> \<not> (\<exists>r \<in> set rows. stg_status r = ST_FAILED) \<and> \<not> (\<exists>r \<in> set rows. stg_status r = ST_CANCELLED)"
    by auto
  show "fst (derive_status rows) = WF_COMPLETED
      \<longleftrightarrow> (\<forall>r \<in> set rows. stg_status r \<in> {ST_SUCCEEDED, ST_SKIPPED})"
    unfolding done_all open_all derive_status_def Let_def mem
    by (auto simp: list_all_iff neq_Nil_conv)
  show "fst (derive_status rows) = WF_RESULT_PENDING_CONFIRMATION
      \<longleftrightarrow> (\<exists>r \<in> set rows. stg_status r = ST_UNCERTAIN)"
    unfolding derive_status_def Let_def mem by simp
qed

lemma derive_closed:
  assumes "\<And>r. r \<in> set rows \<Longrightarrow> stg_status r \<in> {ST_SUCCEEDED, ST_SKIPPED, ST_FAILED, ST_CANCELLED}"
    and "\<exists>r \<in> set rows. stg_status r = ST_CANCELLED"
  shows "fst (derive_status rows) \<in> {WF_CANCELLED, WF_PARTIAL, WF_FAILED}"
proof -
  have "st \<notin> set (map stg_status rows)"
    if "st \<in> {ST_UNCERTAIN, ST_WAITING_CONFIRMATION, ST_WAITING_EXTERNAL, ST_RUNNING, ST_PENDING}" for st
    using assms(1) that by fastforce
  moreover have "ST_CANCELLED \<in> set (map stg_status rows)" using assms(2) by force
  ultimately show ?thesis by (simp add: derive_status_def Let_def)
qed

lemma stages_of_update:
  assumes "\<And>r. stg_workflow_id (f r) = stg_workflow_id r"
  shows "stages_of wid (update_stages wid p f db) = map (\<lambda>r. if p r then f r else r) (stages_of wid db)"
proof -
  have "filter (\<lambda>r. stg_workflow_id r = wid) (update_where (\<lambda>r. stg_workflow_id r = wid \<and> p r) f rows)
      = map (\<lambda>r. if p r then f r else r) (filter (\<lambda>r. stg_workflow_id r = wid) rows)" for rows
    using assms by (induction rows) (auto simp: update_where_def)
  then show ?thesis by (simp add: stages_of_def update_stages_def)
qed

text \<open>
  Cancelling a workflow overwrites exactly the stages that had not started, is refused
  while a stage runs or is uncertain, and leaves no open stage: the workflow ends cancelled,
  partial or failed.
\<close>

theorem cancel_workflow_effect:
  assumes "cancel_workflow wid reason now db = Inr db'"
  shows "(\<exists>why. stages_of wid db' = map (\<lambda>r. if stg_status r \<in> unstarted_statuses
            then cancelled_row why now r else r) (stages_of wid db))
    \<and> (\<forall>r \<in> set (stages_of wid db). stg_status r \<notin> {ST_RUNNING, ST_UNCERTAIN})
    \<and> (\<exists>w. get_workflow wid db' = Some w \<and> wf_status w \<in> {WF_CANCELLED, WF_PARTIAL, WF_FAILED})"
proof -
  let ?why = "the (str_or reason (Some (lit ''workflow_cancelled'')))"
  let ?up = "update_stages wid (\<lambda>r. stg_status r \<in> unstarted_statuses) (cancelled_row ?why now) db"
  from assms obtain w where w: "get_workflow wid db = Some w" "db' = rederive wid now ?up"
    and idle: "\<forall>r \<in> set (stages_of wid db). stg_status r \<notin> {ST_RUNNING, ST_UNCERTAIN}"
    and some: "\<exists>r \<in> set (stages_of wid db). stg_status r \<in> unstarted_statuses"
    by (auto simp: cancel_workflow_def list_ex_iff split: option.splits if_splits)
  have rows: "stages_of wid ?up = map (\<lambda>r. if stg_status r \<in> unstarted_statuses
      then cancelled_row ?why now r else r) (stages_of wid db)"
    by (rule stages_of_update) (simp add: cancelled_row_def)
  have closed: "stg_status r \<in> {ST_SUCCEEDED, ST_SKIPPED, ST_FAILED, ST_CANCELLED}"
    if "r \<in> set (stages_of wid ?up)" for r
    using that idle unfolding rows
    by (auto simp: cancelled_row_def unstarted_statuses_def split: if_splits)
       (metis stage_status.exhaust)
  have cancelled: "\<exists>r \<in> set (stages_of wid ?up). stg_status r = ST_CANCELLED"
  proof -
    from some obtain r where r: "r \<in> set (stages_of wid db)" "stg_status r \<in> unstarted_statuses" by blast
    then have "cancelled_row ?why now r \<in> set (stages_of wid ?up)"
      unfolding rows set_map by (intro image_eqI[of _ _ r]) simp_all
    then show ?thesis by (rule bexI[rotated]) (simp add: cancelled_row_def)
  qed
  have "fst (derive_status (stages_of wid ?up)) \<in> {WF_CANCELLED, WF_PARTIAL, WF_FAILED}"
    by (rule derive_closed[OF _ cancelled]) (rule closed)
  moreover have "get_workflow wid ?up = Some w" using w(1) by (simp add: get_workflow_def)
  ultimately show ?thesis
    using w(2) idle rows by (auto simp: get_workflow_rederive)
qed

text \<open>
  Rejecting an approval never rewrites work that has started: every other stage that was
  running, uncertain or finished keeps its row, the rest is cancelled, and so is the
  approval.
\<close>

theorem rejection_keeps_started_work:
  assumes "decide_approval wid False reason now db = Inr db'"
  shows "\<exists>app why. stages_of wid db' = map (\<lambda>r.
      if stg_stage r = STAGE_APPROVAL then decided False app now r
      else if stg_status r \<in> unstarted_statuses then cancelled_row why now r
      else r) (stages_of wid db)"
proof -
  let ?a = "update_stages wid (\<lambda>r. stg_stage r = STAGE_APPROVAL) (decided False reason now) db"
  have db': "db' = rederive wid now (update_stages wid
      (\<lambda>r. stg_stage r \<noteq> STAGE_APPROVAL \<and> stg_status r \<in> unstarted_statuses)
      (cancelled_row (lit ''approval_rejected'') now) ?a)"
    using assms by (auto simp: decide_approval_def Let_def dest!: with_stage_Inr split: if_splits)
  have a: "stages_of wid ?a = map (\<lambda>r. if stg_stage r = STAGE_APPROVAL then decided False reason now r
      else r) (stages_of wid db)"
    by (rule stages_of_update) (simp add: decided_def)
  have "stages_of wid db' = map (\<lambda>r. if stg_stage r \<noteq> STAGE_APPROVAL \<and> stg_status r \<in> unstarted_statuses
      then cancelled_row (lit ''approval_rejected'') now r else r) (stages_of wid ?a)"
    unfolding db' rederive_simps by (rule stages_of_update) (simp add: cancelled_row_def)
  also have "\<dots> = map (\<lambda>r.
      if stg_stage r = STAGE_APPROVAL then decided False reason now r
      else if stg_status r \<in> unstarted_statuses then cancelled_row (lit ''approval_rejected'') now r
      else r) (stages_of wid db)"
    unfolding a map_map by (rule map_cong) (auto simp: decided_def)
  finally show ?thesis by blast
qed

text \<open>
  A child task only touches its own workflow: synchronising a stage leaves the row and the
  stages of every other workflow as they were.
\<close>

theorem sync_child_isolated:
  assumes "sync_child_stage wid name c now db = Inr db'" and "wid' \<noteq> wid"
  shows "get_workflow wid' db' = get_workflow wid' db \<and> stages_of wid' db' = stages_of wid' db"
  using sync.write_isolated[OF assms] by simp

text \<open>The stages of a response come in the order of the enumeration.\<close>

lemma response_order: "sorted (map sr_stage (wr_stages (response w rows)))"
proof -
  have "sr_stage \<circ> stage_view = stg_stage" by (simp add: stage_view_def fun_eq_iff)
  then show ?thesis by (simp add: response_def)
qed

end
