(* ===== verification/Workflow_Demo.thy ===== *)
theory Workflow_Demo
  imports Workflow_Props
begin

text \<open>
  Two concrete workflows: one is created, waits for its approval, is rejected or cancelled, the
  other has a child task.  Evaluated in the kernel, they instantiate the workflow properties.
\<close>

definition no_workflows :: workflow_db where
  "no_workflows = \<lparr>workflows = [], stages = []\<rparr>"

definition film_request :: workflow_request where
  "film_request = \<lparr>wq_media_type = Some MEDIA_MOVIE, wq_tmdb_id = Some 7, wq_subscription_id = None\<rparr>"

definition first_id :: pystr where
  "first_id = lit ''wf_'' @ [1]"

definition second_id :: pystr where
  "second_id = lit ''wf_'' @ [2]"

definition created_db :: workflow_db where
  "created_db = snd (create_workflow 1 [1] [1] film_request no_workflows)"

definition waiting_patch :: stage_patch where
  "waiting_patch = \<lparr>sp_status = ST_WAITING_CONFIRMATION, sp_reason = None, sp_error_code = None,
     sp_child_type = None, sp_child_id = None\<rparr>"

definition db_of :: "workflow_db workflow_result \<Rightarrow> workflow_db" where
  "db_of r = (case r of Inl _ \<Rightarrow> no_workflows | Inr db \<Rightarrow> db)"

definition waiting_db :: workflow_db where
  "waiting_db = db_of (patch_stage first_id STAGE_APPROVAL waiting_patch 2 created_db)"

definition rejected_db :: workflow_db where
  "rejected_db = db_of (decide_approval first_id False None 3 waiting_db)"

definition cancelled_db :: workflow_db where
  "cancelled_db = db_of (cancel_workflow first_id None 3 created_db)"

definition two_db :: workflow_db where
  "two_db = snd (create_workflow 4 [2] [2] film_request created_db)"

definition task_sync :: child_sync where
  "task_sync = \<lparr>cs_child_type = [3], cs_child_id = [4], cs_status = ST_RUNNING, cs_reason = None,
     cs_error_code = None\<rparr>"

definition synced_db :: workflow_db where
  "synced_db = db_of (sync_child_stage second_id STAGE_PUSH task_sync 5 two_db)"

lemma workflow_calls:
  "patch_stage first_id STAGE_APPROVAL waiting_patch 2 created_db = Inr waiting_db"
  "sync_child_stage second_id STAGE_PUSH task_sync 5 two_db = Inr synced_db"
  by code_simp+

lemma workflow_reject: "decide_approval first_id False None 3 waiting_db = Inr rejected_db"
  by code_simp

lemma workflow_cancel: "cancel_workflow first_id None 3 created_db = Inr cancelled_db"
  by code_simp

lemma workflow_demo_run: "workflow_step\<^sup>*\<^sup>* no_workflows rejected_db"
proof -
  have "workflow_step no_workflows created_db"
    unfolding created_db_def by (rule step_create) (simp add: no_workflows_def)
  moreover have "workflow_step created_db waiting_db" by (rule step_patch[OF workflow_calls(1)])
  moreover have "workflow_step waiting_db rejected_db" by (rule step_decide[OF workflow_reject])
  ultimately show ?thesis by (meson rtranclp.rtrancl_refl rtranclp.rtrancl_into_rtrancl)
qed

section \<open>Witnesses\<close>

theorem workflow_run_invariant_witness:
  "\<exists>w \<in> set (workflows rejected_db). map stg_stage (stages_of (wf_id w) rejected_db) = stage_order
    \<and> wf_status w = fst (derive_status (stages_of (wf_id w) rejected_db))"
proof -
  have "length (workflows rejected_db) = 1" by code_simp
  then obtain w where "w \<in> set (workflows rejected_db)" by (cases "workflows rejected_db") simp_all
  with workflow_run_invariant[OF workflow_demo_run[unfolded no_workflows_def] this] show ?thesis by blast
qed

theorem derive_status_faithful_witness:
  "fst (derive_status (stages_of first_id cancelled_db)) \<noteq> WF_COMPLETED"
proof -
  have "list_ex (\<lambda>r. stg_status r = ST_CANCELLED) (stages_of first_id cancelled_db)"
    by code_simp
  then have "\<exists>r \<in> set (stages_of first_id cancelled_db). stg_status r = ST_CANCELLED"
    by (simp add: list_ex_iff)
  then show ?thesis
    using derive_status_faithful[of "stages_of first_id cancelled_db"] by auto
qed

theorem cancel_workflow_effect_witness:
  "\<exists>w. get_workflow first_id cancelled_db = Some w
    \<and> wf_status w \<in> {WF_CANCELLED, WF_PARTIAL, WF_FAILED}"
  using cancel_workflow_effect[OF workflow_cancel] by blast

theorem rejection_keeps_started_work_witness:
  "\<exists>app why. stages_of first_id rejected_db = map (\<lambda>r.
      if stg_stage r = STAGE_APPROVAL then decided False app 3 r
      else if stg_status r \<in> unstarted_statuses then cancelled_row why 3 r
      else r) (stages_of first_id waiting_db)"
  by (rule rejection_keeps_started_work[OF workflow_reject])

theorem sync_child_isolated_witness:
  "get_workflow first_id synced_db = get_workflow first_id two_db
    \<and> stages_of first_id synced_db = stages_of first_id two_db"
proof (rule sync_child_isolated[OF workflow_calls(2)])
  show "first_id \<noteq> second_id" by (simp add: first_id_def second_id_def)
qed

end
