(* ===== verification/Task_Queue.thy ===== *)
theory Task_Queue
  imports Workflow_Props
begin

text \<open>
  \<^verbatim>\<open>services/tasks.py\<close> and \<^verbatim>\<open>worker.py\<close>: the queue of push tasks and the worker that submits
  them.  Each method is one database transaction (the worker's claim and outcome are two); an
  exception inside it rolls the transaction back.  The remote adapter, the decryption of the
  stored link and the inventory guard are parameters that return or raise.
\<close>

section \<open>Tables\<close>

datatype task_action = OFFLINE_DOWNLOAD | SAVE_SHARE

datatype task_state =
    TASK_QUEUED | TASK_SUBMITTING | TASK_ACCEPTED | TASK_NEEDS_AUTH | TASK_FAILED | TASK_UNCERTAIN

datatype remote_status = REMOTE_ACCEPTED | REMOTE_NEEDS_AUTH | REMOTE_FAILED | REMOTE_UNCERTAIN

text \<open>\<open>TaskState(remote_status.value)\<close>: the two enumerations share these values.\<close>

fun state_of_remote :: "remote_status \<Rightarrow> task_state" where
  "state_of_remote REMOTE_ACCEPTED = TASK_ACCEPTED"
| "state_of_remote REMOTE_NEEDS_AUTH = TASK_NEEDS_AUTH"
| "state_of_remote REMOTE_FAILED = TASK_FAILED"
| "state_of_remote REMOTE_UNCERTAIN = TASK_UNCERTAIN"

fun state_value :: "task_state \<Rightarrow> string" where
  "state_value TASK_QUEUED = ''queued''"
| "state_value TASK_SUBMITTING = ''submitting''"
| "state_value TASK_ACCEPTED = ''accepted''"
| "state_value TASK_NEEDS_AUTH = ''needs_auth''"
| "state_value TASK_FAILED = ''failed''"
| "state_value TASK_UNCERTAIN = ''uncertain''"

record task_row =
  tk_id :: pystr
  tk_workflow_id :: "pystr option"
  tk_resource_id :: "pystr option"
  tk_action :: task_action
  tk_url_snapshot :: pystr
  tk_password_snapshot :: "pystr option"
  tk_state :: task_state
  tk_attempts :: int
  tk_remote_ref :: "pystr option"
  tk_error_code :: "pystr option"
  tk_error_message :: "pystr option"
  tk_lease_owner :: "pystr option"
  tk_lease_expires_at :: "time option"
  tk_created_at :: time
  tk_updated_at :: time
  tk_submitted_at :: "time option"

record resource_row =
  rsc_id :: pystr
  rsc_kind :: string
  rsc_encrypted_url :: pystr
  rsc_encrypted_password :: "pystr option"

record task_db =
  tasks :: "task_row list"
  resources :: "resource_row list"
  wdb :: workflow_db

datatype task_error =
    ResourceNotFound pystr
  | InvalidRetryState
  | PushKindUnsupported
  | WorkflowFailure workflow_error

type_synonym 'a task_result = "task_error + 'a"

definition get_task :: "pystr \<Rightarrow> task_db \<Rightarrow> task_row option" where
  "get_task tid db = row_of tk_id tid (tasks db)"

definition set_task :: "pystr \<Rightarrow> (task_row \<Rightarrow> task_row) \<Rightarrow> task_db \<Rightarrow> task_db" where
  "set_task tid f db = db\<lparr>tasks := update_where (\<lambda>t. tk_id t = tid) f (tasks db)\<rparr>"

text \<open>A workflow write inside the task's transaction.\<close>

definition in_workflow ::
  "(workflow_db \<Rightarrow> workflow_db workflow_result) \<Rightarrow> task_db \<Rightarrow> task_db task_result" where
  "in_workflow w db =
     (case w (wdb db) of Inl e \<Rightarrow> Inl (WorkflowFailure e) | Inr w' \<Rightarrow> Inr (db\<lparr>wdb := w'\<rparr>))"

section \<open>Task service\<close>

definition reusable_states :: "task_state set" where
  "reusable_states = {TASK_QUEUED, TASK_SUBMITTING, TASK_ACCEPTED}"

definition recover_after_restart :: "time \<Rightarrow> remote_status option \<Rightarrow> task_row \<Rightarrow> task_row" where
  "recover_after_restart now remote t =
     t\<lparr>tk_lease_owner := None, tk_lease_expires_at := None, tk_updated_at := now,
       tk_state := (case remote of None \<Rightarrow> TASK_UNCERTAIN | Some r \<Rightarrow> state_of_remote r)\<rparr>"

definition day :: int where
  "day = 86400000000"

definition choose_existing_task :: "time \<Rightarrow> task_row list \<Rightarrow> pystr \<Rightarrow> task_row option" where
  "choose_existing_task now ts resource_id =
     first_max tk_created_at
       (filter (\<lambda>t. tk_resource_id t = Some resource_id \<and> tk_state t \<in> reusable_states
                  \<and> tk_created_at t \<ge> now - day) ts)"

definition prepare_manual_retry :: "time \<Rightarrow> task_row \<Rightarrow> task_row task_result" where
  "prepare_manual_retry now t =
     (if tk_state t \<notin> {TASK_FAILED, TASK_NEEDS_AUTH, TASK_UNCERTAIN} then Inl InvalidRetryState
      else Inr (t\<lparr>tk_state := TASK_QUEUED, tk_remote_ref := None, tk_error_code := None,
                  tk_error_message := None, tk_lease_owner := None,
                  tk_lease_expires_at := None, tk_updated_at := now\<rparr>))"

definition action_of :: "resource_row \<Rightarrow> task_action" where
  "action_of r = (if rsc_kind r = ''magnet'' then OFFLINE_DOWNLOAD else SAVE_SHARE)"

definition not_allowed :: "task_action set option \<Rightarrow> task_action \<Rightarrow> bool" where
  "not_allowed allowed a = (case allowed of None \<Rightarrow> False | Some as \<Rightarrow> a \<notin> as)"

definition new_task :: "time \<Rightarrow> pystr \<Rightarrow> pystr option \<Rightarrow> resource_row \<Rightarrow> task_row" where
  "new_task now uuid wid r =
     \<lparr>tk_id = lit ''task_'' @ uuid, tk_workflow_id = wid, tk_resource_id = Some (rsc_id r),
      tk_action = action_of r, tk_url_snapshot = rsc_encrypted_url r,
      tk_password_snapshot = rsc_encrypted_password r, tk_state = TASK_QUEUED, tk_attempts = 0,
      tk_remote_ref = None, tk_error_code = None, tk_error_message = None, tk_lease_owner = None,
      tk_lease_expires_at = None, tk_created_at = now, tk_updated_at = now,
      tk_submitted_at = None\<rparr>"

definition link_push :: "pystr option \<Rightarrow> pystr \<Rightarrow> time \<Rightarrow> task_db \<Rightarrow> task_db task_result" where
  "link_push wid tid now db =
     (case wid of
        None \<Rightarrow> Inr db
      | Some w \<Rightarrow> in_workflow (link_child w STAGE_PUSH (lit ''task'') tid now) db)"

text \<open>\<open>create\<close> returns the task and whether it is an existing one.\<close>

definition create_task ::
  "time \<Rightarrow> pystr \<Rightarrow> pystr \<Rightarrow> bool \<Rightarrow> task_action set option \<Rightarrow> pystr option \<Rightarrow> task_db
    \<Rightarrow> ((pystr \<times> bool) \<times> task_db) task_result" where
  "create_task now uuid resource_id force allowed workflow_id db =
     (case row_of rsc_id resource_id (resources db) of
        None \<Rightarrow> Inl (ResourceNotFound resource_id)
      | Some r \<Rightarrow>
          if not_allowed allowed (action_of r) then Inl PushKindUnsupported
          else
            (case (if force then None else choose_existing_task now (tasks db) resource_id) of
               Some t \<Rightarrow>
                 if workflow_id \<noteq> None \<and> tk_workflow_id t = None
                 then (case link_push workflow_id (tk_id t) now
                              (set_task (tk_id t) (\<lambda>t. t\<lparr>tk_workflow_id := workflow_id\<rparr>) db) of
                         Inl e \<Rightarrow> Inl e | Inr db' \<Rightarrow> Inr ((tk_id t, True), db'))
                 else Inr ((tk_id t, True), db)
             | None \<Rightarrow>
                 (let t = new_task now uuid workflow_id r
                  in case link_push workflow_id (tk_id t) now (db\<lparr>tasks := tasks db @ [t]\<rparr>) of
                       Inl e \<Rightarrow> Inl e | Inr db' \<Rightarrow> Inr ((tk_id t, False), db'))))"

definition list_recent :: "int \<Rightarrow> int \<Rightarrow> task_db \<Rightarrow> task_row list" where
  "list_recent limit offset db =
     take (nat (max 1 (min limit 101)))
       (drop (nat (max 0 offset)) (sort_key (\<lambda>t. - tk_created_at t) (tasks db)))"

definition sync_push ::
  "task_row \<Rightarrow> stage_status \<Rightarrow> string \<Rightarrow> pystr option \<Rightarrow> time \<Rightarrow> task_db \<Rightarrow> task_db task_result" where
  "sync_push t st reason err now db =
     (case tk_workflow_id t of
        None \<Rightarrow> Inr db
      | Some w \<Rightarrow> in_workflow (sync_child_stage w STAGE_PUSH
          \<lparr>cs_child_type = lit ''task'', cs_child_id = tk_id t, cs_status = st,
           cs_reason = Some (lit reason), cs_error_code = err\<rparr> now) db)"

definition retry_task ::
  "time \<Rightarrow> pystr \<Rightarrow> task_action set option \<Rightarrow> task_db \<Rightarrow> task_db task_result" where
  "retry_task now tid allowed db =
     (case get_task tid db of
        None \<Rightarrow> Inl (ResourceNotFound tid)
      | Some t \<Rightarrow>
          if not_allowed allowed (tk_action t) then Inl PushKindUnsupported
          else (case prepare_manual_retry now t of
                  Inl e \<Rightarrow> Inl e
                | Inr t' \<Rightarrow> sync_push t ST_RUNNING ''task_retry'' None now (set_task tid (\<lambda>_. t') db)))"

section \<open>Worker\<close>

record submission =
  sub_status :: remote_status
  sub_remote_ref :: "pystr option"
  sub_error_code :: "pystr option"
  sub_error_message :: "pystr option"

record gate =
  gate_allowed :: bool
  gate_code :: pystr

text \<open>What the worker is constructed with; \<open>None\<close> is a raised exception.\<close>

record task_worker =
  tw_owner :: pystr
  tw_lease_seconds :: int
  tw_guard :: "(pystr option \<Rightarrow> gate option) option"
  tw_decrypt :: "pystr \<Rightarrow> pystr option"
  tw_submit :: "pystr \<Rightarrow> submission option"
  tw_status :: "pystr \<Rightarrow> remote_status option"

fun workflow_stage_status :: "task_state \<Rightarrow> stage_status" where
  "workflow_stage_status TASK_ACCEPTED = ST_SUCCEEDED"
| "workflow_stage_status TASK_NEEDS_AUTH = ST_WAITING_CONFIRMATION"
| "workflow_stage_status TASK_UNCERTAIN = ST_UNCERTAIN"
| "workflow_stage_status TASK_FAILED = ST_FAILED"
| "workflow_stage_status _ = ST_RUNNING"

definition rejected :: "string \<Rightarrow> string \<Rightarrow> submission" where
  "rejected code message =
     \<lparr>sub_status = REMOTE_FAILED, sub_remote_ref = None, sub_error_code = Some (lit code),
      sub_error_message = Some (lit message)\<rparr>"

definition claimed_row :: "task_worker \<Rightarrow> time \<Rightarrow> task_row \<Rightarrow> task_row" where
  "claimed_row w now t =
     t\<lparr>tk_state := TASK_SUBMITTING, tk_attempts := tk_attempts t + 1,
       tk_lease_owner := Some (tw_owner w),
       tk_lease_expires_at := Some (now + tw_lease_seconds w * 1000000), tk_updated_at := now\<rparr>"

definition claim_one :: "task_worker \<Rightarrow> time \<Rightarrow> task_db \<Rightarrow> (pystr \<times> task_db) option" where
  "claim_one w now db =
     (case sort_key tk_created_at
             (filter (\<lambda>t. tk_state t = TASK_QUEUED
                \<and> (case tk_lease_expires_at t of None \<Rightarrow> True | Some e \<Rightarrow> e < now)) (tasks db)) of
        [] \<Rightarrow> None
      | t # _ \<Rightarrow> Some (tk_id t, set_task (tk_id t) (claimed_row w now) db))"

text \<open>
  The outcome of one claimed task, and the link handed to the adapter, if any: the checks
  that come first fail closed, only a raised submission is uncertain.
\<close>

definition submission_of :: "task_worker \<Rightarrow> task_row \<Rightarrow> submission \<times> pystr option" where
  "submission_of w t =
     (if tk_action t \<noteq> OFFLINE_DOWNLOAD
        then (rejected ''push_kind_unsupported'' ''share push is not supported'', None)
      else
        (case (case tw_guard w of
                 None \<Rightarrow> None
               | Some guard \<Rightarrow>
                  (case guard (tk_resource_id t) of
                     None \<Rightarrow> Some (lit ''inventory_check_failed'')
                   | Some g \<Rightarrow> if gate_allowed g then None else Some (gate_code g))) of
           Some code \<Rightarrow>
             (\<lparr>sub_status = REMOTE_FAILED, sub_remote_ref = None, sub_error_code = Some code,
               sub_error_message = Some (lit ''inventory preflight blocked remote submission'')\<rparr>, None)
         | None \<Rightarrow>
             (case tw_decrypt w (tk_url_snapshot t) of
                None \<Rightarrow> (rejected ''local_decryption_failed''
                           ''stored submission data could not be decrypted'', None)
              | Some url \<Rightarrow>
                  (case tw_submit w url of
                     None \<Rightarrow> (\<lparr>sub_status = REMOTE_UNCERTAIN, sub_remote_ref = None,
                        sub_error_code = Some (lit ''adapter_error''),
                        sub_error_message = Some (lit ''submission outcome is uncertain'')\<rparr>, Some url)
                   | Some res \<Rightarrow> (res, Some url)))))"

definition settled :: "submission \<Rightarrow> time \<Rightarrow> task_row \<Rightarrow> task_row" where
  "settled res now t =
     t\<lparr>tk_state := state_of_remote (sub_status res), tk_remote_ref := sub_remote_ref res,
       tk_error_code := sub_error_code res, tk_error_message := sub_error_message res,
       tk_submitted_at := (if sub_status res = REMOTE_ACCEPTED then Some now else None),
       tk_lease_owner := None, tk_lease_expires_at := None, tk_updated_at := now\<rparr>"

text \<open>
  \<open>run_once\<close>: the value, the links submitted, and the database; an exception of the outcome
  transaction leaves the claim committed.
\<close>

definition run_once ::
  "task_worker \<Rightarrow> time \<Rightarrow> time \<Rightarrow> task_db \<Rightarrow> bool task_result \<times> pystr list \<times> task_db" where
  "run_once w claimed_at now db =
     (case claim_one w claimed_at db of
        None \<Rightarrow> (Inr False, [], db)
      | Some (tid, db1) \<Rightarrow>
         (case get_task tid db1 of
            None \<Rightarrow> (Inr False, [], db1)
          | Some t \<Rightarrow>
             (let (res, url) = submission_of w t;
                  sent = (case url of None \<Rightarrow> [] | Some u \<Rightarrow> [u]);
                  st = state_of_remote (sub_status res)
              in case sync_push t (workflow_stage_status st) (''task_'' @ state_value st)
                        (sub_error_code res) now (set_task tid (settled res now) db1) of
                   Inl e \<Rightarrow> (Inl e, sent, db1)
                 | Inr db2 \<Rightarrow> (Inr True, sent, db2))))"

definition lease_ran_out :: "time \<Rightarrow> task_row \<Rightarrow> bool" where
  "lease_ran_out now t =
     (tk_state t = TASK_SUBMITTING
      \<and> (case tk_lease_expires_at t of None \<Rightarrow> False | Some e \<Rightarrow> e < now))"

definition recovered :: "task_worker \<Rightarrow> time \<Rightarrow> task_row \<Rightarrow> task_row" where
  "recovered w now t =
     (if tk_action t \<noteq> OFFLINE_DOWNLOAD then
        t\<lparr>tk_state := TASK_FAILED, tk_remote_ref := None,
          tk_error_code := Some (lit ''push_kind_unsupported''),
          tk_error_message := Some (lit ''share push is not supported''),
          tk_lease_owner := None, tk_lease_expires_at := None, tk_updated_at := now\<rparr>
      else recover_after_restart now
        (case tk_remote_ref t of
           None \<Rightarrow> None
         | Some ref \<Rightarrow> if ref = [] then None else tw_status w ref) t)"

fun recover_tasks :: "task_worker \<Rightarrow> time \<Rightarrow> task_row list \<Rightarrow> task_db \<Rightarrow> task_db task_result" where
  "recover_tasks w now [] db = Inr db"
| "recover_tasks w now (t # ts) db =
     (let t' = recovered w now t
      in case sync_push t (workflow_stage_status (tk_state t')) (''task_'' @ state_value (tk_state t'))
                (tk_error_code t') now (set_task (tk_id t) (\<lambda>_. t') db) of
           Inl e \<Rightarrow> Inl e
         | Inr db' \<Rightarrow> recover_tasks w now ts db')"

definition recover_expired :: "task_worker \<Rightarrow> time \<Rightarrow> task_db \<Rightarrow> (nat \<times> task_db) task_result" where
  "recover_expired w now db =
     (let ts = filter (lease_ran_out now) (tasks db)
      in case recover_tasks w now ts db of Inl e \<Rightarrow> Inl e | Inr db' \<Rightarrow> Inr (length ts, db'))"

end
