(* ===== verification/Task_Props.thy ===== *)
theory Task_Props
  imports Task_Queue
begin

text \<open>
  Properties of the push queue: what each transaction does to the task table, the bound on
  claims over every interleaving of the service and the worker, and the contract of one
  worker pass.
\<close>

section \<open>Row effects\<close>

lemma in_workflow_tasks:
  "in_workflow w db = Inr db' \<Longrightarrow> tasks db' = tasks db \<and> resources db' = resources db"
  by (auto simp: in_workflow_def split: sum.splits)

lemma sync_push_tasks:
  "sync_push t st reason err now db = Inr db' \<Longrightarrow> tasks db' = tasks db \<and> resources db' = resources db"
  by (auto simp: sync_push_def split: option.splits dest: in_workflow_tasks)

lemma link_push_tasks:
  "link_push wid tid now db = Inr db' \<Longrightarrow> tasks db' = tasks db \<and> resources db' = resources db"
  by (auto simp: link_push_def split: option.splits dest: in_workflow_tasks)

lemma set_task_simps [simp]:
  "tasks (set_task tid f db) = update_where (\<lambda>t. tk_id t = tid) f (tasks db)"
  "resources (set_task tid f db) = resources db"
  "wdb (set_task tid f db) = wdb db"
  by (simp_all add: set_task_def)

lemma get_task_update:
  assumes "\<And>t. tk_id t = tid \<Longrightarrow> tk_id (f t) = tid"
  shows "row_of tk_id k (update_where (\<lambda>t. tk_id t = tid) f rows)
    = map_option (\<lambda>t. if k = tid then f t else t) (row_of tk_id k rows)"
  using assms by (induction rows) (auto simp: update_where_def)

lemma map_ids_update:
  assumes "\<And>t. tk_id t = tid \<Longrightarrow> tk_id (f t) = tid"
  shows "map tk_id (update_where (\<lambda>t. tk_id t = tid) f rows) = map tk_id rows"
  using assms by (induction rows) (auto simp: update_where_def)

lemma row_effects [simp]:
  "tk_id (settled res now t) = tk_id t" "tk_id (recovered w now t) = tk_id t"
  "tk_workflow_id (settled res now t) = tk_workflow_id t"
  "tk_state (settled res now t) = state_of_remote (sub_status res)"
  "tk_lease_owner (settled res now t) = None" "tk_lease_expires_at (settled res now t) = None"
  "tk_id (claimed_row w now t) = tk_id t" "tk_workflow_id (claimed_row w now t) = tk_workflow_id t"
  "tk_state (claimed_row w now t) = TASK_SUBMITTING" "tk_lease_expires_at (claimed_row w now t) = Some (now + tw_lease_seconds w * 1000000)"
  "tk_action (claimed_row w now t) = tk_action t"
  "tk_resource_id (claimed_row w now t) = tk_resource_id t"
  "tk_url_snapshot (claimed_row w now t) = tk_url_snapshot t"
  "tk_lease_owner (recovered w now t) = None" "tk_lease_expires_at (recovered w now t) = None"
  by (simp_all add: settled_def recovered_def recover_after_restart_def claimed_row_def)

text \<open>The states a finished or recovered task can have.\<close>

definition final_states :: "task_state set" where
  "final_states = {TASK_ACCEPTED, TASK_NEEDS_AUTH, TASK_FAILED, TASK_UNCERTAIN}"

lemma state_of_remote_final [simp]: "state_of_remote r \<in> final_states"
  by (cases r) (simp_all add: final_states_def)

lemma recovered_final [simp]: "tk_state (recovered w now t) \<in> final_states"
proof (cases "tk_action t = OFFLINE_DOWNLOAD")
  case True
  then show ?thesis
    by (simp add: recovered_def recover_after_restart_def split: option.split)
       (simp add: final_states_def)
next
  case False
  then show ?thesis by (simp add: recovered_def final_states_def)
qed

lemma prepare_manual_retry_Inr:
  "prepare_manual_retry now t = Inr t' \<Longrightarrow> tk_id t' = tk_id t \<and> tk_state t' = TASK_QUEUED
    \<and> tk_lease_expires_at t' = None \<and> tk_state t \<in> {TASK_FAILED, TASK_NEEDS_AUTH, TASK_UNCERTAIN}"
  by (auto simp: prepare_manual_retry_def split: if_splits)

lemma set_sort_key_first: "sort_key k xs = y # ys \<Longrightarrow> y \<in> set xs \<and> (\<forall>x \<in> set xs. k y \<le> k x)"
proof -
  assume a: "sort_key k xs = y # ys"
  have "set xs = insert y (set ys)" using arg_cong[OF a, of set] by simp
  moreover have "sorted (map k (y # ys))" using sorted_sort_key[of k xs] a by simp
  ultimately show ?thesis by auto
qed

lemma claim_one_Some:
  assumes "claim_one w now db = Some (tid, db')"
  obtains t where "t \<in> set (tasks db)" "tk_id t = tid" "tk_state t = TASK_QUEUED"
    "\<And>u. u \<in> set (tasks db) \<Longrightarrow> tk_state u = TASK_QUEUED \<Longrightarrow> tk_lease_expires_at u = None
      \<Longrightarrow> tk_created_at t \<le> tk_created_at u"
    "db' = set_task tid (claimed_row w now) db"
proof -
  let ?q = "filter (\<lambda>t. tk_state t = TASK_QUEUED
                \<and> (case tk_lease_expires_at t of None \<Rightarrow> True | Some e \<Rightarrow> e < now)) (tasks db)"
  from assms obtain t ts where s: "sort_key tk_created_at ?q = t # ts" and tid: "tid = tk_id t"
    and db': "db' = set_task tid (claimed_row w now) db"
    by (auto simp: claim_one_def split: list.splits)
  from set_sort_key_first[OF s] have first: "t \<in> set ?q" "\<And>u. u \<in> set ?q \<Longrightarrow> tk_created_at t \<le> tk_created_at u"
    by auto
  show thesis
    by (rule that[of t]) (use first tid db' in auto)
qed

text \<open>Recovery rewrites exactly the selected rows.\<close>

lemma recover_tasks_rows:
  assumes "recover_tasks w now ts db = Inr db'" and "distinct (map tk_id ts)"
  shows "tasks db' = map (\<lambda>r. case row_of tk_id (tk_id r) ts of None \<Rightarrow> r | Some t \<Rightarrow> recovered w now t)
      (tasks db) \<and> resources db' = resources db"
  using assms
proof (induction ts arbitrary: db)
  case Nil
  then show ?case by simp
next
  case (Cons t ts)
  let ?u = "recovered w now t"
  from Cons.prems obtain db1 where sync: "sync_push t (workflow_stage_status (tk_state ?u))
        (''task_'' @ state_value (tk_state ?u)) (tk_error_code ?u) now (set_task (tk_id t) (\<lambda>_. ?u) db) = Inr db1"
    and rest: "recover_tasks w now ts db1 = Inr db'"
    by (auto simp: Let_def split: sum.splits)
  have tl: "tk_id t \<notin> tk_id ` set ts" "distinct (map tk_id ts)" using Cons.prems(2) by auto
  have rows: "tasks db1 = update_where (\<lambda>r. tk_id r = tk_id t) (\<lambda>_. ?u) (tasks db)"
    "resources db1 = resources db"
    using sync_push_tasks[OF sync] by auto
  have none: "row_of tk_id (tk_id t) ts = None" using tl(1) by (simp add: row_of_None)
  show ?case
    using Cons.IH[OF rest tl(2)] rows none by (auto simp: update_where_def)
qed

lemma recover_expired_rows:
  assumes "recover_expired w now db = Inr (k, db')" and "distinct (map tk_id (tasks db))"
  shows "tasks db' = map (\<lambda>r. if lease_ran_out now r then recovered w now r else r) (tasks db)"
    and "k = row_count (lease_ran_out now) (tasks db)"
proof -
  let ?ts = "filter (lease_ran_out now) (tasks db)"
  from assms(1) have run: "recover_tasks w now ?ts db = Inr db'" and k: "k = length ?ts"
    by (auto simp: recover_expired_def Let_def split: sum.splits)
  have dist: "distinct (map tk_id ?ts)" using assms(2) by (rule distinct_map_filter)
  have "row_of tk_id (tk_id r) ?ts = (if lease_ran_out now r then Some r else None)"
    if r: "r \<in> set (tasks db)" for r
  proof (cases "lease_ran_out now r")
    case True
    with r have "r \<in> set ?ts" by simp
    from row_of_unique[OF dist this] True show ?thesis by simp
  next
    case False
    have "tk_id r \<notin> tk_id ` set ?ts"
      using r False assms(2) by (auto simp: distinct_map dest: inj_onD)
    with False show ?thesis by (simp add: row_of_None)
  qed
  then show "tasks db' = map (\<lambda>r. if lease_ran_out now r then recovered w now r else r) (tasks db)"
    using recover_tasks_rows[OF run dist] by simp
  show "k = row_count (lease_ran_out now) (tasks db)" using k by (simp add: row_count_def)
qed

section \<open>Runs\<close>

text \<open>
  The commits on the task table, with the tasks claimed and the tasks manually retried so far.
  The claim and the outcome of a worker pass are separate commits: between them anything may
  happen, a crash included, and the outcome then finds the row in any state; an \<open>UPDATE\<close>
  writes the changed columns only, so all that is known of the row it leaves is its state.
\<close>

inductive task_run :: "task_db \<Rightarrow> pystr list \<Rightarrow> pystr list \<Rightarrow> bool" where
  run_start: "tasks db = [] \<Longrightarrow> task_run db [] []"
| run_create: "task_run db cs rs \<Longrightarrow> lit ''task_'' @ uuid \<notin> tk_id ` set (tasks db)
    \<Longrightarrow> create_task now uuid rid force allowed wid db = Inr (out, db') \<Longrightarrow> task_run db' cs rs"
| run_retry: "task_run db cs rs \<Longrightarrow> retry_task now tid allowed db = Inr db'
    \<Longrightarrow> task_run db' cs (tid # rs)"
| run_claim: "task_run db cs rs \<Longrightarrow> claim_one w now db = Some (tid, db') \<Longrightarrow> task_run db' (tid # cs) rs"
| run_settle: "task_run db cs rs \<Longrightarrow> (\<And>t. tk_id (f t) = tk_id t)
    \<Longrightarrow> (\<And>t. tk_state (f t) = state_of_remote r)
    \<Longrightarrow> tasks db' = tasks (set_task tid f db) \<Longrightarrow> task_run db' cs rs"
| run_recover: "task_run db cs rs \<Longrightarrow> recover_expired w now db = Inr (k, db') \<Longrightarrow> task_run db' cs rs"
| run_other: "task_run db cs rs \<Longrightarrow> tasks db' = tasks db \<Longrightarrow> task_run db' cs rs"

text \<open>
  Every task has been claimed at most once more often than it was retried, and exactly as
  many claims are left as retries while it is queued.
\<close>

definition allowance :: "task_row \<Rightarrow> nat" where
  "allowance t = (if tk_state t = TASK_QUEUED then 0 else 1)"

definition queue_ok :: "task_row list \<Rightarrow> pystr list \<Rightarrow> pystr list \<Rightarrow> bool" where
  "queue_ok ts cs rs \<longleftrightarrow>
     distinct (map tk_id ts)
     \<and> (\<forall>t \<in> set ts. count_list cs (tk_id t) \<le> count_list rs (tk_id t) + allowance t
          \<and> (tk_state t = TASK_SUBMITTING \<longrightarrow> tk_lease_expires_at t \<noteq> None)
          \<and> (tk_state t = TASK_QUEUED \<longrightarrow> tk_lease_expires_at t = None))
     \<and> (\<forall>tid. tid \<notin> tk_id ` set ts \<longrightarrow> tid \<notin> set cs)"

definition same_lease :: "task_row \<Rightarrow> task_row \<Rightarrow> bool" where
  "same_lease t t' \<longleftrightarrow> tk_state t' = tk_state t \<and> tk_lease_expires_at t' = tk_lease_expires_at t"

lemma queue_ok_map:
  assumes "queue_ok ts cs rs" and ids: "\<And>t. t \<in> set ts \<Longrightarrow> tk_id (g t) = tk_id t"
    and "\<And>t. t \<in> set ts \<Longrightarrow> count_list cs (tk_id t) \<le> count_list rs (tk_id t) + allowance t
      \<Longrightarrow> count_list cs' (tk_id t) \<le> count_list rs' (tk_id t) + allowance (g t)"
    and "\<And>t. t \<in> set ts \<Longrightarrow> same_lease t (g t) \<or> (tk_state (g t) = TASK_SUBMITTING \<longrightarrow> tk_lease_expires_at (g t) \<noteq> None)
       \<and> (tk_state (g t) = TASK_QUEUED \<longrightarrow> tk_lease_expires_at (g t) = None)"
    and "\<And>tid. tid \<in> set cs' \<Longrightarrow> tid \<in> set cs \<or> tid \<in> tk_id ` set ts"
  shows "queue_ok (map g ts) cs' rs'"
proof -
  have same: "map tk_id (map g ts) = map tk_id ts" using ids by simp
  then have keys: "tk_id ` set (map g ts) = tk_id ` set ts" by (metis list.set_map)
  show ?thesis
    unfolding queue_ok_def keys same
  proof (intro conjI ballI allI impI)
    show "distinct (map tk_id ts)" using assms(1) by (simp add: queue_ok_def)
    show "tid \<notin> set cs'" if "tid \<notin> tk_id ` set ts" for tid
      using that assms(1,5) unfolding queue_ok_def by blast
    fix t' assume "t' \<in> set (map g ts)"
    then obtain t where t: "t \<in> set ts" "t' = g t" by auto
    then have old: "count_list cs (tk_id t) \<le> count_list rs (tk_id t) + allowance t"
      "tk_state t = TASK_SUBMITTING \<longrightarrow> tk_lease_expires_at t \<noteq> None"
      "tk_state t = TASK_QUEUED \<longrightarrow> tk_lease_expires_at t = None"
      using assms(1) unfolding queue_ok_def by blast+
    show "count_list cs' (tk_id t') \<le> count_list rs' (tk_id t') + allowance t'"
      using assms(3)[OF t(1) old(1)] ids[OF t(1)] t(2) by simp
    show "tk_lease_expires_at t' \<noteq> None" if "tk_state t' = TASK_SUBMITTING"
      using assms(4)[OF t(1)] old(2) t(2) that by (auto simp: same_lease_def)
    show "tk_lease_expires_at t' = None" if "tk_state t' = TASK_QUEUED"
      using assms(4)[OF t(1)] old(3) t(2) that by (auto simp: same_lease_def)
  qed
qed

lemma queue_ok_quiet:
  assumes ok: "queue_ok ts cs rs" and ids: "\<And>t. t \<in> set ts \<Longrightarrow> tk_id (g t) = tk_id t"
    and quiet: "\<And>t. t \<in> set ts \<Longrightarrow> same_lease t (g t) \<or> tk_state (g t) \<in> final_states"
  shows "queue_ok (map g ts) cs rs"
proof (rule queue_ok_map[OF ok ids])
  fix t assume t: "t \<in> set ts"
  show "count_list cs (tk_id t) \<le> count_list rs (tk_id t) + allowance (g t)"
    if "count_list cs (tk_id t) \<le> count_list rs (tk_id t) + allowance t"
    using quiet[OF t] that by (auto simp: same_lease_def allowance_def final_states_def split: if_splits)
  show "same_lease t (g t) \<or> (tk_state (g t) = TASK_SUBMITTING \<longrightarrow> tk_lease_expires_at (g t) \<noteq> None)
       \<and> (tk_state (g t) = TASK_QUEUED \<longrightarrow> tk_lease_expires_at (g t) = None)"
    using quiet[OF t] by (auto simp: final_states_def)
qed simp_all

lemma queue_ok_update:
  assumes ok: "queue_ok ts cs rs" and ids: "\<And>t. t \<in> set ts \<Longrightarrow> tk_id t = tid \<Longrightarrow> tk_id (f t) = tid"
    and quiet: "\<And>t. t \<in> set ts \<Longrightarrow> tk_id t = tid \<Longrightarrow> same_lease t (f t) \<or> tk_state (f t) \<in> final_states"
  shows "queue_ok (update_where (\<lambda>t. tk_id t = tid) f ts) cs rs"
  unfolding update_where_def
  by (rule queue_ok_quiet[OF ok]) (use ids quiet in \<open>auto simp: same_lease_def\<close>)

text \<open>Distinct identifiers: the row found by key is the only one with it.\<close>

lemma queue_ok_row:
  assumes "queue_ok ts cs rs" and "t \<in> set ts" and "u \<in> set ts" and "tk_id t = tk_id u"
  shows "t = u"
  using assms by (auto simp: queue_ok_def distinct_map dest: inj_onD)

lemma queue_ok_retry:
  assumes ok: "queue_ok ts cs rs" and t: "row_of tk_id tid ts = Some t" and t': "prepare_manual_retry now t = Inr t'"
  shows "queue_ok (update_where (\<lambda>t. tk_id t = tid) (\<lambda>_. t') ts) cs (tid # rs)"
proof -
  note r = row_of_Some[OF t] and p = prepare_manual_retry_Inr[OF t']
  have only: "u = t" if "u \<in> set ts" "tk_id u = tid" for u
    using queue_ok_row[OF ok that(1)] r that(2) by simp
  show ?thesis
    unfolding update_where_def
    by (rule queue_ok_map[OF ok]) (use only r p in \<open>auto simp: allowance_def same_lease_def\<close>)
qed

lemma queue_ok_claim:
  assumes ok: "queue_ok (tasks db) cs rs" and c: "claim_one w now db = Some (tid, db')"
  shows "queue_ok (tasks db') (tid # cs) rs"
proof -
  from claim_one_Some[OF c] obtain t where t: "t \<in> set (tasks db)" "tk_id t = tid" "tk_state t = TASK_QUEUED"
    and db': "db' = set_task tid (claimed_row w now) db" .
  have only: "u = t" if "u \<in> set (tasks db)" "tk_id u = tid" for u
    using queue_ok_row[OF ok that(1) t(1)] t(2) that(2) by simp
  show ?thesis
    unfolding db' set_task_simps update_where_def
  proof (rule queue_ok_map[OF ok], goal_cases)
    case (2 u)
    show ?case
    proof (cases "tk_id u = tid")
      case True
      with only 2(1) have "u = t" by blast
      with 2(2) t(2,3) show ?thesis by (simp add: allowance_def)
    next
      case False
      with 2(2) show ?thesis by (simp add: allowance_def)
    qed
  next
    case (3 u)
    then show ?case by (simp add: same_lease_def)
  next
    case (4 k)
    then show ?case using t(1,2) by auto
  qed simp
qed

lemma create_task_rows:
  assumes "create_task now uuid rid force allowed wid db = Inr ((tid, existed), db')"
  shows "if existed then \<exists>t. choose_existing_task now (tasks db) rid = Some t \<and> tid = tk_id t \<and> \<not> force
           \<and> tasks db' = (if wid \<noteq> None \<and> tk_workflow_id t = None
               then update_where (\<lambda>u. tk_id u = tid) (\<lambda>u. u\<lparr>tk_workflow_id := wid\<rparr>) (tasks db) else tasks db)
         else (\<exists>r. row_of rsc_id rid (resources db) = Some r \<and> tid = lit ''task_'' @ uuid
           \<and> tasks db' = tasks db @ [new_task now uuid wid r])"
proof -
  from assms obtain r where r: "row_of rsc_id rid (resources db) = Some r"
    and ok: "\<not> not_allowed allowed (action_of r)"
    by (auto simp: create_task_def split: option.splits if_splits)
  show ?thesis
  proof (cases "if force then None else choose_existing_task now (tasks db) rid")
    case None
    with assms r ok obtain "tid = lit ''task_'' @ uuid" "\<not> existed"
      "link_push wid tid now (db\<lparr>tasks := tasks db @ [new_task now uuid wid r]\<rparr>) = Inr db'"
      by (auto simp: create_task_def Let_def new_task_def split: sum.splits)
    with r show ?thesis by (auto dest: link_push_tasks)
  next
    case (Some t)
    then have f: "\<not> force" "choose_existing_task now (tasks db) rid = Some t" by (auto split: if_splits)
    show ?thesis
    proof (cases "wid \<noteq> None \<and> tk_workflow_id t = None")
      case True
      with assms r ok Some obtain "tid = tk_id t" existed
        "link_push wid tid now (set_task tid (\<lambda>t. t\<lparr>tk_workflow_id := wid\<rparr>) db) = Inr db'"
        by (auto simp: create_task_def split: sum.splits)
      with f True show ?thesis by (auto dest: link_push_tasks)
    next
      case False
      with assms r ok Some have "tid = tk_id t" existed "db' = db"
        by (auto simp: create_task_def split: sum.splits if_splits)
      with f False show ?thesis by auto
    qed
  qed
qed

lemma new_task_simps [simp]:
  "tk_id (new_task now uuid wid r) = lit ''task_'' @ uuid"
  "tk_state (new_task now uuid wid r) = TASK_QUEUED"
  "tk_lease_expires_at (new_task now uuid wid r) = None"
  "tk_resource_id (new_task now uuid wid r) = Some (rsc_id r)"
  by (simp_all add: new_task_def)

lemma queue_ok_add:
  assumes ok: "queue_ok ts cs rs" and "tk_id t \<notin> tk_id ` set ts" and "tk_state t = TASK_QUEUED"
    and "tk_lease_expires_at t = None"
  shows "queue_ok (ts @ [t]) cs rs"
proof -
  have "tk_id t \<notin> set cs" using ok assms(2) by (auto simp: queue_ok_def)
  then have "count_list cs (tk_id t) = 0" by (simp add: count_list_0_iff)
  with assms show ?thesis by (auto simp: queue_ok_def)
qed

lemma queue_ok_create:
  assumes ok: "queue_ok (tasks db) cs rs" and fresh: "lit ''task_'' @ uuid \<notin> tk_id ` set (tasks db)"
    and c: "create_task now uuid rid force allowed wid db = Inr (out, db')"
  shows "queue_ok (tasks db') cs rs"
proof -
  obtain tid existed where out: "out = (tid, existed)" by (cases out)
  note rows = create_task_rows[OF c[unfolded out]]
  show ?thesis
  proof (cases existed)
    case True
    have "queue_ok (update_where (\<lambda>u. tk_id u = tid) (\<lambda>u. u\<lparr>tk_workflow_id := wid\<rparr>) (tasks db)) cs rs"
      by (rule queue_ok_update[OF ok]) (auto simp: same_lease_def)
    with rows True ok show ?thesis by (auto split: if_splits)
  next
    case False
    with rows obtain r where "tasks db' = tasks db @ [new_task now uuid wid r]" by auto
    with queue_ok_add[OF ok, of "new_task now uuid wid r"] fresh show ?thesis by simp
  qed
qed

lemma retry_task_rows:
  assumes "retry_task now tid allowed db = Inr db'"
  obtains t t' where "row_of tk_id tid (tasks db) = Some t" "prepare_manual_retry now t = Inr t'"
    "tasks db' = update_where (\<lambda>t. tk_id t = tid) (\<lambda>_. t') (tasks db)"
proof -
  from assms obtain t t' where "row_of tk_id tid (tasks db) = Some t" "prepare_manual_retry now t = Inr t'"
    "sync_push t ST_RUNNING ''task_retry'' None now (set_task tid (\<lambda>_. t') db) = Inr db'"
    by (auto simp: retry_task_def get_task_def split: option.splits if_splits sum.splits)
  with that[of t t'] show thesis by (simp add: sync_push_tasks)
qed

lemma task_run_ok:
  assumes "task_run db cs rs"
  shows "queue_ok (tasks db) cs rs"
  using assms
proof (induction rule: task_run.induct)
  case (run_start db)
  then show ?case by (simp add: queue_ok_def)
next
  case (run_create db cs rs uuid now rid force allowed wid out db')
  then show ?case using queue_ok_create by blast
next
  case (run_retry db cs rs now tid allowed db')
  from retry_task_rows[OF run_retry.hyps(2)] obtain t t' where
    "row_of tk_id tid (tasks db) = Some t" "prepare_manual_retry now t = Inr t'"
    "tasks db' = update_where (\<lambda>t. tk_id t = tid) (\<lambda>_. t') (tasks db)" .
  with queue_ok_retry[OF run_retry.IH] show ?case by simp
next
  case (run_claim db cs rs w now tid db')
  then show ?case using queue_ok_claim by blast
next
  case (run_settle db cs rs f r db' tid)
  have "queue_ok (update_where (\<lambda>t. tk_id t = tid) f (tasks db)) cs rs"
    by (rule queue_ok_update[OF run_settle.IH]) (use run_settle.hyps(2,3) in auto)
  with run_settle.hyps(4) show ?case by simp
next
  case (run_recover db cs rs w now k db')
  have dist: "distinct (map tk_id (tasks db))" using run_recover.IH by (simp add: queue_ok_def)
  show ?case
    unfolding recover_expired_rows(1)[OF run_recover.hyps(2) dist]
    by (rule queue_ok_quiet[OF run_recover.IH]) (auto simp: same_lease_def)
next
  case (run_other db cs rs db')
  then show ?case by simp
qed

lemma find_stage_update:
  assumes "\<And>r. same_slot r (f r)"
  shows "find_stage wid name (update_stages wid (\<lambda>r. stg_stage r = name) f db)
    = map_option f (find_stage wid name db)"
proof -
  have "find (\<lambda>r. stg_workflow_id r = wid \<and> stg_stage r = name)
      (update_where (\<lambda>r. stg_workflow_id r = wid \<and> stg_stage r = name) f rows)
    = map_option f (find (\<lambda>r. stg_workflow_id r = wid \<and> stg_stage r = name) rows)" for rows
    using assms by (induction rows) (auto simp: update_where_def same_slot_def)
  then show ?thesis by (simp add: find_stage_def update_stages_def)
qed

lemma sync_child_stage_stage:
  assumes "sync_child_stage wid name c now db = Inr db'"
  shows "\<exists>r. find_stage wid name db = Some r \<and> find_stage wid name db' = Some (synced c now r)"
proof -
  from assms obtain r where r: "find_stage wid name db = Some r"
    "db' = set_stage wid name (synced c now) now db"
    by (auto simp: sync_child_stage_def dest: with_stage_Inr)
  have "find_stage wid name db' = find_stage wid name (update_stages wid (\<lambda>r. stg_stage r = name) (synced c now) db)"
    by (simp add: r(2) set_stage_def find_stage_def)
  with r show ?thesis by (simp add: find_stage_update)
qed

lemma sync_push_stage:
  assumes "sync_push t st reason err now db = Inr db'" and "tk_workflow_id t = Some w"
  shows "\<exists>r c. find_stage w STAGE_PUSH (wdb db) = Some r \<and> cs_status c = st \<and> cs_child_id c = tk_id t
    \<and> find_stage w STAGE_PUSH (wdb db') = Some (synced c now r)"
proof -
  define c where "c = \<lparr>cs_child_type = lit ''task'', cs_child_id = tk_id t, cs_status = st,
           cs_reason = Some (lit reason), cs_error_code = err\<rparr>"
  from assms obtain db2 where "sync_child_stage w STAGE_PUSH c now (wdb db) = Inr db2" "wdb db' = db2"
    by (auto simp: sync_push_def in_workflow_def c_def split: sum.splits)
  then have "\<exists>r. find_stage w STAGE_PUSH (wdb db) = Some r
      \<and> find_stage w STAGE_PUSH (wdb db') = Some (synced c now r)"
    by (auto dest: sync_child_stage_stage)
  moreover have "cs_status c = st" "cs_child_id c = tk_id t" by (simp_all add: c_def)
  ultimately show ?thesis by blast
qed

lemma synced_simps [simp]:
  "stg_status (synced c now r) = cs_status c" "stg_child_id (synced c now r) = Some (cs_child_id c)"
  "stg_completed_at (synced c now r)
    = (if cs_status c \<in> terminal_stage_statuses then Some now else stg_completed_at r)"
  by (simp_all add: synced_def start_and_complete_def)

lemma submission_sent:
  assumes "submission_of w t = (res, Some url)"
  shows "tk_action t = OFFLINE_DOWNLOAD" "tw_decrypt w (tk_url_snapshot t) = Some url"
    "\<forall>guard. tw_guard w = Some guard \<longrightarrow> (\<exists>g. guard (tk_resource_id t) = Some g \<and> gate_allowed g)"
  using assms by (auto simp: submission_of_def split: if_splits option.splits)

lemma submission_status:
  assumes "submission_of w t = (res, url)"
  shows "state_of_remote (sub_status res) = (case url of None \<Rightarrow> TASK_FAILED
        | Some url \<Rightarrow> (case tw_submit w url of None \<Rightarrow> TASK_UNCERTAIN
            | Some res \<Rightarrow> state_of_remote (sub_status res)))"
  using assms by (auto simp: submission_of_def rejected_def split: if_splits option.splits)

text \<open>What one worker pass does, in one statement the properties share.\<close>

lemma run_once_cases:
  assumes run: "run_once w claimed_at now db = (out, sent, db')" and d: "distinct (map tk_id (tasks db))"
    and claimed: "out \<noteq> Inr False"
  obtains t db1 res url where "t \<in> set (tasks db)" "tk_state t = TASK_QUEUED"
    "\<forall>u \<in> set (tasks db). tk_state u = TASK_QUEUED \<longrightarrow> tk_lease_expires_at u = None
      \<longrightarrow> tk_created_at t \<le> tk_created_at u"
    "db1 = set_task (tk_id t) (claimed_row w claimed_at) db"
    "get_task (tk_id t) db = Some t"
    "submission_of w (claimed_row w claimed_at t) = (res, url)"
    "sent = (case url of None \<Rightarrow> [] | Some u \<Rightarrow> [u])"
    "out \<in> range Inr \<longrightarrow> sync_push (claimed_row w claimed_at t)
          (workflow_stage_status (state_of_remote (sub_status res)))
          (''task_'' @ state_value (state_of_remote (sub_status res)))
          (sub_error_code res) now (set_task (tk_id t) (settled res now) db1) = Inr db'"
proof -
  have "claim_one w claimed_at db \<noteq> None"
  proof
    assume "claim_one w claimed_at db = None"
    with run claimed show False by (simp add: run_once_def)
  qed
  then obtain tid db1 where c: "claim_one w claimed_at db = Some (tid, db1)" by force
  obtain t where t: "t \<in> set (tasks db)" "tk_id t = tid"
    "tk_state t = TASK_QUEUED"
    and first: "\<forall>u \<in> set (tasks db). tk_state u = TASK_QUEUED \<longrightarrow> tk_lease_expires_at u = None
      \<longrightarrow> tk_created_at t \<le> tk_created_at u"
    and db1: "db1 = set_task tid (claimed_row w claimed_at) db"
    by (rule claim_one_Some[OF c]) blast
  have g0: "get_task tid db = Some t" using row_of_unique[OF d t(1)] t(2) by (simp add: get_task_def)
  then have g: "get_task tid db1 = Some (claimed_row w claimed_at t)"
    by (simp add: get_task_def db1 get_task_update)
  obtain res url where sub: "submission_of w (claimed_row w claimed_at t) = (res, url)" by force
  let ?sync = "sync_push (claimed_row w claimed_at t)
          (workflow_stage_status (state_of_remote (sub_status res)))
          (''task_'' @ state_value (state_of_remote (sub_status res)))
          (sub_error_code res) now (set_task tid (settled res now) db1)"
  have r: "(out, sent, db') = (case ?sync of Inl e \<Rightarrow> (Inl e, case url of None \<Rightarrow> [] | Some u \<Rightarrow> [u], db1)
      | Inr db2 \<Rightarrow> (Inr True, case url of None \<Rightarrow> [] | Some u \<Rightarrow> [u], db2))"
    using run unfolding run_once_def c option.case prod.case g sub Let_def by (rule sym)
  show thesis
    by (rule that[OF t(1,3) first])
       (use g0 db1 t(2) sub r in \<open>auto split: sum.splits\<close>)
qed

section \<open>Properties\<close>

text \<open>
  C14. A push is never repeated without the user asking for it: over every interleaving of
  task creation, retries, worker claims, crashes between claim and outcome, late outcomes
  and recovery, a task is claimed at most once more often than it was manually retried, and
  only claimed tasks are submitted.
\<close>

theorem claims_bounded_by_retries:
  assumes "task_run db claims retries"
  shows "count_list claims tid \<le> count_list retries tid + 1"
proof (cases "tid \<in> tk_id ` set (tasks db)")
  case True
  then obtain t where "t \<in> set (tasks db)" "tk_id t = tid" by blast
  with task_run_ok[OF assms] have "count_list claims tid \<le> count_list retries tid + allowance t"
    by (auto simp: queue_ok_def)
  then show ?thesis by (simp add: allowance_def split: if_splits)
next
  case False
  with task_run_ok[OF assms] have "tid \<notin> set claims" by (simp add: queue_ok_def)
  then have "count_list claims tid = 0" by (simp add: count_list_0_iff)
  then show ?thesis by simp
qed

text \<open>
  Recovery settles every interrupted push and re-queues none: once all leases have run out,
  a completed recovery leaves no task submitting, ends each interrupted one accepted, waiting
  for authorisation, failed or uncertain, changes no other row, and reports how many it
  settled.
\<close>

theorem recovery_settles_interrupted:
  assumes "task_run db claims retries" and "recover_expired w now db = Inr (k, db')"
    and "\<And>t e. t \<in> set (tasks db) \<Longrightarrow> tk_lease_expires_at t = Some e \<Longrightarrow> e < now"
  shows "tasks db' = map (\<lambda>t. if tk_state t = TASK_SUBMITTING then recovered w now t else t) (tasks db)
    \<and> (\<forall>t \<in> set (tasks db'). tk_state t \<noteq> TASK_SUBMITTING)
    \<and> k = row_count (\<lambda>t. tk_state t = TASK_SUBMITTING) (tasks db)"
proof -
  note ok = task_run_ok[OF assms(1), unfolded queue_ok_def]
  have eq: "lease_ran_out now t \<longleftrightarrow> tk_state t = TASK_SUBMITTING" if "t \<in> set (tasks db)" for t
    using ok that assms(3) by (force simp: lease_ran_out_def split: option.splits)
  have dist: "distinct (map tk_id (tasks db))" using ok by blast
  note r = recover_expired_rows[OF assms(2) dist]
  have rows: "tasks db' = map (\<lambda>t. if tk_state t = TASK_SUBMITTING then recovered w now t else t) (tasks db)"
    unfolding r(1) by (rule map_cong) (simp_all add: eq)
  moreover have "tk_state (recovered w now t) \<noteq> TASK_SUBMITTING" for t
    using recovered_final[of w now t] by (auto simp: final_states_def)
  moreover have "k = row_count (\<lambda>t. tk_state t = TASK_SUBMITTING) (tasks db)"
    unfolding r(2) row_count_def using eq by (metis (mono_tags, lifting) filter_cong)
  ultimately show ?thesis by auto
qed

text \<open>
  Creating a task for a resource that already has a queued, submitting or accepted task
  of the last 24 hours adds no task, unless the call forces one: it returns such a task.
\<close>

theorem create_reuses_recent_task:
  assumes "create_task now uuid rid False allowed wid db = Inr ((tid, existed), db')"
    and "t \<in> set (tasks db)" "tk_resource_id t = Some rid" "tk_state t \<in> reusable_states"
      "now - day \<le> tk_created_at t"
  shows "existed \<and> map tk_id (tasks db') = map tk_id (tasks db)
    \<and> (\<exists>u \<in> set (tasks db). tk_id u = tid \<and> tk_resource_id u = Some rid
        \<and> tk_state u \<in> reusable_states \<and> tk_created_at t \<le> tk_created_at u)"
proof -
  let ?c = "filter (\<lambda>t. tk_resource_id t = Some rid \<and> tk_state t \<in> reusable_states
                  \<and> tk_created_at t \<ge> now - day) (tasks db)"
  have "t \<in> set ?c" using assms(2-5) by simp
  moreover from this have "first_max tk_created_at ?c \<noteq> None" unfolding first_max_None by force
  ultimately obtain u where u: "choose_existing_task now (tasks db) rid = Some u"
    "u \<in> set ?c" "tk_created_at t \<le> tk_created_at u"
    unfolding choose_existing_task_def using first_max_Some by fastforce
  from create_task_rows[OF assms(1)] have existed
  proof (rule_tac ccontr)
    assume "\<not> existed"
    with assms(1) u(1) show False
      by (auto simp: create_task_def split: option.splits if_splits sum.splits)
  qed
  with create_task_rows[OF assms(1)] u show ?thesis
    by (auto simp: map_ids_update)
qed

text \<open>
  C19. A worker pass submits at most one link, and only behind every check: the oldest queued
  task, an offline download that the inventory guard let pass, with a link that decrypts.
\<close>

theorem push_fails_closed:
  assumes "task_run db claims retries" and "run_once w claimed_at now db = (out, sent, db')"
    and "sent \<noteq> []"
  shows "\<exists>t url. sent = [url] \<and> t \<in> set (tasks db) \<and> tk_state t = TASK_QUEUED
    \<and> (\<forall>u \<in> set (tasks db). tk_state u = TASK_QUEUED \<longrightarrow> tk_created_at t \<le> tk_created_at u)
    \<and> tk_action t = OFFLINE_DOWNLOAD \<and> tw_decrypt w (tk_url_snapshot t) = Some url
    \<and> (\<forall>guard. tw_guard w = Some guard
        \<longrightarrow> (\<exists>g. guard (tk_resource_id t) = Some g \<and> gate_allowed g))"
proof -
  note ok = task_run_ok[OF assms(1), unfolded queue_ok_def]
  have dist: "distinct (map tk_id (tasks db))" using ok by blast
  have claimed: "out \<noteq> Inr False"
    using assms(2,3) by (auto simp: run_once_def Let_def split: option.splits prod.splits sum.splits)
  from run_once_cases[OF assms(2) dist claimed] obtain t db1 res url' where
    t: "t \<in> set (tasks db)" "tk_state t = TASK_QUEUED"
    and first: "\<forall>u \<in> set (tasks db). tk_state u = TASK_QUEUED \<longrightarrow> tk_lease_expires_at u = None
      \<longrightarrow> tk_created_at t \<le> tk_created_at u"
    and db1: "db1 = set_task (tk_id t) (claimed_row w claimed_at) db" and g: "get_task (tk_id t) db = Some t"
    and sub: "submission_of w (claimed_row w claimed_at t) = (res, url')"
    and sent: "sent = (case url' of None \<Rightarrow> [] | Some u \<Rightarrow> [u])"
    and sync: "out \<in> range Inr \<longrightarrow> sync_push (claimed_row w claimed_at t)
          (workflow_stage_status (state_of_remote (sub_status res)))
          (''task_'' @ state_value (state_of_remote (sub_status res)))
          (sub_error_code res) now (set_task (tk_id t) (settled res now) db1) = Inr db'"
    .
  from sent assms(3) obtain url where url: "url' = Some url" "sent = [url]"
    by (auto split: option.splits)
  have sub': "submission_of w (claimed_row w claimed_at t) = (res, Some url)" using sub url(1) by simp
  have "tk_action t = OFFLINE_DOWNLOAD" "tw_decrypt w (tk_url_snapshot t) = Some url"
    "\<forall>guard. tw_guard w = Some guard \<longrightarrow> (\<exists>g. guard (tk_resource_id t) = Some g \<and> gate_allowed g)"
    using submission_sent[OF sub'] by simp_all
  moreover have "\<forall>u \<in> set (tasks db). tk_state u = TASK_QUEUED \<longrightarrow> tk_created_at t \<le> tk_created_at u"
    using ok first by blast
  ultimately show ?thesis using t url(2) by blast
qed

text \<open>
  C20. A completed pass records what happened and nothing better: the task it claimed has no
  lease and ends failed when nothing was submitted, uncertain when the submission raised,
  with the adapter's status otherwise; the other tasks keep their rows; and the workflow's
  push stage carries the status of the task's state.
\<close>

theorem push_outcome:
  assumes "task_run db claims retries" and "run_once w claimed_at now db = (Inr True, sent, db')"
  shows "\<exists>t t'. t \<in> set (tasks db) \<and> tk_state t = TASK_QUEUED \<and> get_task (tk_id t) db' = Some t'
    \<and> tk_lease_owner t' = None
    \<and> tk_state t' = (case sent of [] \<Rightarrow> TASK_FAILED
        | url # _ \<Rightarrow> (case tw_submit w url of None \<Rightarrow> TASK_UNCERTAIN
            | Some res \<Rightarrow> state_of_remote (sub_status res)))
    \<and> (\<forall>tid. tid \<noteq> tk_id t \<longrightarrow> get_task tid db' = get_task tid db)
    \<and> (\<forall>wid. tk_workflow_id t = Some wid \<longrightarrow> (\<exists>r. find_stage wid STAGE_PUSH (wdb db') = Some r
        \<and> stg_status r = workflow_stage_status (tk_state t') \<and> stg_child_id r = Some (tk_id t)))"
proof -
  have dist: "distinct (map tk_id (tasks db))" using task_run_ok[OF assms(1)] by (simp add: queue_ok_def)
  have claimed: "(Inr True :: bool task_result) \<noteq> Inr False" by simp
  from run_once_cases[OF assms(2) dist claimed] obtain t db1 res url where
    t: "t \<in> set (tasks db)" "tk_state t = TASK_QUEUED"
    and first: "\<forall>u \<in> set (tasks db). tk_state u = TASK_QUEUED \<longrightarrow> tk_lease_expires_at u = None
      \<longrightarrow> tk_created_at t \<le> tk_created_at u"
    and db1: "db1 = set_task (tk_id t) (claimed_row w claimed_at) db" and g: "get_task (tk_id t) db = Some t"
    and sub: "submission_of w (claimed_row w claimed_at t) = (res, url)"
    and sent: "sent = (case url of None \<Rightarrow> [] | Some u \<Rightarrow> [u])"
    and sync: "(Inr True :: bool task_result) \<in> range Inr \<longrightarrow> sync_push (claimed_row w claimed_at t)
          (workflow_stage_status (state_of_remote (sub_status res)))
          (''task_'' @ state_value (state_of_remote (sub_status res)))
          (sub_error_code res) now (set_task (tk_id t) (settled res now) db1) = Inr db'"
    .
  let ?t' = "settled res now (claimed_row w claimed_at t)"
  have rows: "tasks db' = update_where (\<lambda>u. tk_id u = tk_id t) (settled res now) (tasks db1)"
    using sync_push_tasks[OF sync[rule_format, OF rangeI]] by simp
  have t': "get_task (tk_id t) db' = Some ?t'"
    using g by (simp add: get_task_def rows db1 get_task_update)
  have other: "\<forall>tid. tid \<noteq> tk_id t \<longrightarrow> get_task tid db' = get_task tid db"
    by (simp add: get_task_def rows db1 get_task_update map_option.identity)
  have st: "state_of_remote (sub_status res) = (case sent of [] \<Rightarrow> TASK_FAILED
        | url # _ \<Rightarrow> (case tw_submit w url of None \<Rightarrow> TASK_UNCERTAIN
            | Some res \<Rightarrow> state_of_remote (sub_status res)))"
    using submission_status[OF sub] unfolding sent by (cases url) simp_all
  have stage: "\<exists>r. find_stage wid STAGE_PUSH (wdb db') = Some r
        \<and> stg_status r = workflow_stage_status (state_of_remote (sub_status res))
        \<and> stg_child_id r = Some (tk_id t)" if "tk_workflow_id t = Some wid" for wid
    using sync_push_stage[OF sync[rule_format, OF rangeI], of wid] that by auto
  show ?thesis
    by (rule exI[of _ t], rule exI[of _ ?t'])
       (use t t' other stage st in simp)
qed

text \<open>
  A retry is taken only from a failed, unauthorised or uncertain task: it puts that task
  back in the queue without its old outcome, shows the push stage running, and changes no
  other task.
\<close>

theorem retry_requeues_finished_only:
  assumes "retry_task now tid allowed db = Inr db'"
  shows "\<exists>t t'. get_task tid db = Some t \<and> tk_state t \<in> {TASK_FAILED, TASK_NEEDS_AUTH, TASK_UNCERTAIN}
    \<and> get_task tid db' = Some t' \<and> tk_state t' = TASK_QUEUED \<and> tk_remote_ref t' = None
    \<and> tk_error_code t' = None \<and> tk_attempts t' = tk_attempts t
    \<and> (\<forall>k. k \<noteq> tid \<longrightarrow> get_task k db' = get_task k db)
    \<and> (\<forall>wid. tk_workflow_id t = Some wid \<longrightarrow> (\<exists>r. find_stage wid STAGE_PUSH (wdb db') = Some r
        \<and> stg_status r = ST_RUNNING \<and> stg_child_id r = Some tid))"
proof -
  from assms obtain t t' where t: "get_task tid db = Some t" and p: "prepare_manual_retry now t = Inr t'"
    and sync: "sync_push t ST_RUNNING ''task_retry'' None now (set_task tid (\<lambda>_. t') db) = Inr db'"
    by (auto simp: retry_task_def split: option.splits if_splits sum.splits)
  have id: "tk_id t = tid" using t by (auto simp: get_task_def dest: row_of_Some)
  have t': "tk_id t' = tid" "tk_state t' = TASK_QUEUED" "tk_remote_ref t' = None" "tk_error_code t' = None"
    "tk_attempts t' = tk_attempts t" and from_st: "tk_state t \<in> {TASK_FAILED, TASK_NEEDS_AUTH, TASK_UNCERTAIN}"
    using p id by (auto simp: prepare_manual_retry_def split: if_splits)
  have rows: "tasks db' = update_where (\<lambda>u. tk_id u = tid) (\<lambda>_. t') (tasks db)"
    using sync_push_tasks[OF sync] by simp
  have new: "get_task tid db' = Some t'" "\<And>k. k \<noteq> tid \<Longrightarrow> get_task k db' = get_task k db"
    using t t' by (simp_all add: get_task_def rows get_task_update map_option.identity)
  have "\<exists>r. find_stage wid STAGE_PUSH (wdb db') = Some r \<and> stg_status r = ST_RUNNING
      \<and> stg_child_id r = Some tid" if "tk_workflow_id t = Some wid" for wid
    using sync_push_stage[OF sync that] id by auto
  with t t' new from_st show ?thesis by blast
qed

text \<open>
  The stage shown running after a retry still carries the completion time of the failed
  attempt: \<open>sync_child_stage\<close> does not clear it, unlike \<open>link_child\<close>.
\<close>

theorem retry_keeps_completion_time:
  assumes "retry_task now tid allowed db = Inr db'" and "get_task tid db = Some t"
    and "tk_workflow_id t = Some wid" and "find_stage wid STAGE_PUSH (wdb db) = Some r"
  shows "\<exists>r'. find_stage wid STAGE_PUSH (wdb db') = Some r' \<and> stg_status r' = ST_RUNNING
    \<and> stg_completed_at r' = stg_completed_at r"
proof -
  from assms(1,2) obtain t' where
    "sync_push t ST_RUNNING ''task_retry'' None now (set_task tid (\<lambda>_. t') db) = Inr db'"
    by (auto simp: retry_task_def split: option.splits if_splits sum.splits)
  from sync_push_stage[OF this assms(3)] assms(4) show ?thesis
    by (auto simp: terminal_stage_statuses_def)
qed

end
