(* ===== verification/Task_Demo.thy ===== *)
theory Task_Demo
  imports Task_Props
begin

text \<open>
  A concrete push queue: two resources, a task that is created, claimed by a worker that crashes,
  recovered and retried, and a pass that submits.  Evaluated in the kernel, it instantiates
  the properties of the queue.
\<close>

definition magnet_resource :: resource_row where
  "magnet_resource = \<lparr>rsc_id = [1], rsc_kind = ''magnet'', rsc_encrypted_url = [9], rsc_encrypted_password = None\<rparr>"

definition push_workflow :: workflow_db where
  "push_workflow = snd (create_workflow 1 [1] [1]
     \<lparr>wq_media_type = None, wq_tmdb_id = None, wq_subscription_id = None\<rparr> \<lparr>workflows = [], stages = []\<rparr>)"

definition push_id :: pystr where
  "push_id = lit ''wf_'' @ [1]"

definition the_task :: pystr where
  "the_task = lit ''task_'' @ [2]"

definition empty_queue :: task_db where
  "empty_queue = \<lparr>tasks = [], resources = [magnet_resource], wdb = push_workflow\<rparr>"

definition push_worker :: task_worker where
  "push_worker = \<lparr>tw_owner = [8], tw_lease_seconds = 60,
     tw_guard = Some (\<lambda>_. Some \<lparr>gate_allowed = True, gate_code = []\<rparr>),
     tw_decrypt = (\<lambda>s. Some (5 # s)), tw_submit = (\<lambda>_. None), tw_status = (\<lambda>_. None)\<rparr>"

definition db_after :: "'a + task_db \<Rightarrow> task_db" where
  "db_after r = (case r of Inl _ \<Rightarrow> empty_queue | Inr db \<Rightarrow> db)"

definition queued_db :: task_db where
  "queued_db = (case create_task 10 [2] [1] False None (Some push_id) empty_queue of
     Inl _ \<Rightarrow> empty_queue | Inr (_, db) \<Rightarrow> db)"

definition claimed_db :: task_db where
  "claimed_db = (case claim_one push_worker 20 queued_db of None \<Rightarrow> empty_queue | Some (_, db) \<Rightarrow> db)"

definition recovered_db :: task_db where
  "recovered_db = (case recover_expired push_worker 100000000 claimed_db of
     Inl _ \<Rightarrow> empty_queue | Inr (_, db) \<Rightarrow> db)"

definition retried_db :: task_db where
  "retried_db = db_after (retry_task 100000001 the_task None recovered_db)"

definition pushed :: "bool task_result \<times> pystr list \<times> task_db" where
  "pushed = run_once push_worker 100000002 100000003 retried_db"

lemma queue_calls:
  "create_task 10 [2] [1] False None (Some push_id) empty_queue = Inr ((the_task, False), queued_db)"
  "claim_one push_worker 20 queued_db = Some (the_task, claimed_db)"
  "recover_expired push_worker 100000000 claimed_db = Inr (1, recovered_db)"
  "retry_task 100000001 the_task None recovered_db = Inr retried_db"
  "run_once push_worker 100000002 100000003 retried_db = (Inr True, [[5, 9]], snd (snd pushed))"
  by code_simp+

lemma queue_run:
  "task_run queued_db [] []" "task_run claimed_db [the_task] []"
  "task_run recovered_db [the_task] []" "task_run retried_db [the_task] [the_task]"
proof -
  have "task_run empty_queue [] []" by (rule run_start) (simp add: empty_queue_def)
  then show q: "task_run queued_db [] []"
    by (rule run_create[OF _ _ queue_calls(1)]) (simp add: empty_queue_def)
  from q queue_calls(2) show c: "task_run claimed_db [the_task] []" by (rule run_claim)
  from c queue_calls(3) show r: "task_run recovered_db [the_task] []" by (rule run_recover)
  from r queue_calls(4) show "task_run retried_db [the_task] [the_task]" by (rule run_retry)
qed

lemma queue_rows:
  "\<exists>t \<in> set (tasks queued_db). tk_resource_id t = Some [1] \<and> tk_state t \<in> reusable_states
    \<and> 30 - day \<le> tk_created_at t"
  "\<forall>t \<in> set (tasks claimed_db). \<forall>e. tk_lease_expires_at t = Some e \<longrightarrow> e < 100000000"
proof -
  show "\<exists>t \<in> set (tasks queued_db). tk_resource_id t = Some [1] \<and> tk_state t \<in> reusable_states
    \<and> 30 - day \<le> tk_created_at t" by code_simp
  have "\<forall>t \<in> set (tasks claimed_db). tk_lease_expires_at t = Some 60000020" by code_simp
  then show "\<forall>t \<in> set (tasks claimed_db). \<forall>e. tk_lease_expires_at t = Some e \<longrightarrow> e < 100000000"
    by simp
qed

section \<open>Witnesses\<close>

theorem claims_bounded_by_retries_witness:
  "count_list [the_task] the_task \<le> count_list [the_task] the_task + 1"
  by (rule claims_bounded_by_retries[OF queue_run(4)])

theorem recovery_settles_interrupted_witness:
  "TASK_SUBMITTING \<notin> tk_state ` set (tasks recovered_db)"
proof -
  have "\<forall>t \<in> set (tasks recovered_db). tk_state t \<noteq> TASK_SUBMITTING"
    using recovery_settles_interrupted[OF queue_run(2) queue_calls(3)] queue_rows(2) by blast
  then show ?thesis by (metis image_iff)
qed

definition reused :: "((pystr \<times> bool) \<times> task_db) task_result" where
  "reused = create_task 30 [3] [1] False None None queued_db"

lemma reused_call: "reused = Inr ((the_task, True), queued_db)"
  by code_simp

theorem create_reuses_recent_task_witness:
  "\<exists>u \<in> set (tasks queued_db). tk_id u = the_task \<and> tk_state u \<in> reusable_states"
proof -
  obtain t where "t \<in> set (tasks queued_db)" "tk_resource_id t = Some [1]"
    "tk_state t \<in> reusable_states" "30 - day \<le> tk_created_at t"
    using queue_rows(1) by blast
  from create_reuses_recent_task[OF reused_call[unfolded reused_def] this] show ?thesis by blast
qed

theorem push_fails_closed_witness:
  "\<exists>t url. [[5, 9]] = [url] \<and> t \<in> set (tasks retried_db)
    \<and> tw_decrypt push_worker (tk_url_snapshot t) = Some url"
  using push_fails_closed[OF queue_run(4) queue_calls(5)] by blast

theorem push_outcome_witness:
  "\<exists>t t'. t \<in> set (tasks retried_db) \<and> get_task (tk_id t) (snd (snd pushed)) = Some t'
    \<and> tk_state t' = TASK_UNCERTAIN"
proof -
  have "tw_submit push_worker [5, 9] = None" by (simp add: push_worker_def)
  with push_outcome[OF queue_run(4) queue_calls(5)] show ?thesis by auto
qed

theorem retry_requeues_finished_only_witness:
  "\<exists>t'. get_task the_task retried_db = Some t' \<and> tk_state t' = TASK_QUEUED"
  using retry_requeues_finished_only[OF queue_calls(4)] by blast

theorem retry_keeps_completion_time_witness:
  "\<exists>r'. find_stage push_id STAGE_PUSH (wdb retried_db) = Some r' \<and> stg_status r' = ST_RUNNING
    \<and> stg_completed_at r' = Some 100000000"
proof -
  have "case get_task the_task recovered_db of None \<Rightarrow> False
      | Some t \<Rightarrow> tk_workflow_id t = Some push_id" by code_simp
  then obtain t where t: "get_task the_task recovered_db = Some t" "tk_workflow_id t = Some push_id"
    by (auto split: option.splits)
  have "case find_stage push_id STAGE_PUSH (wdb recovered_db) of None \<Rightarrow> False
      | Some r \<Rightarrow> stg_completed_at r = Some 100000000" by code_simp
  then obtain r where "find_stage push_id STAGE_PUSH (wdb recovered_db) = Some r"
    "stg_completed_at r = Some 100000000"
    by (auto split: option.splits)
  with retry_keeps_completion_time[OF queue_calls(4) t] show ?thesis by auto
qed

end
