(* ===== verification/Isolation.thy ===== *)
theory Isolation
  imports Companion_Group
begin

text \<open>
  \<^verbatim>\<open>services/organization_isolation_contract.py\<close>: local preconditions for moving an
  object into a managed isolation directory and for restoring it.  The last section states
  the contract that this module and the execution contract share as a locale and
  interprets it on both.
\<close>

datatype isolation_action = ISOLATE | RESTORE

record isolation_intent =
  ii_action :: isolation_action
  ii_object_id :: pystr
  ii_source_parent_id :: pystr
  ii_source_name :: pystr
  ii_isolation_parent_id :: pystr
  ii_isolation_name :: pystr
  ii_target_parent_id :: pystr
  ii_target_name :: pystr
  ii_rule_version :: pystr
  ii_managed_directory_ids :: "pystr list"

text \<open>
  \<open>__post_init__\<close> as a predicate, and \<open>resolve_isolation_intent\<close>, which turns its
  exceptions into \<open>None\<close>.  The frozen set of managed directories is the list of its elements.
\<close>

definition isolation_intent_ok :: "isolation_intent \<Rightarrow> bool" where
  "isolation_intent_ok i =
     (list_all safe_identity
        [ii_object_id i, ii_source_parent_id i, ii_isolation_parent_id i,
         ii_target_parent_id i, ii_rule_version i]
      \<and> list_all safe_name [ii_source_name i, ii_isolation_name i, ii_target_name i]
      \<and> list_all safe_identity (ii_managed_directory_ids i)
      \<and> list_all (\<lambda>d. d \<in> set (ii_managed_directory_ids i))
          [ii_source_parent_id i, ii_isolation_parent_id i, ii_target_parent_id i])"

definition resolve_isolation_intent ::
  "isolation_action \<Rightarrow> pystr \<Rightarrow> pystr \<Rightarrow> pystr \<Rightarrow> pystr \<Rightarrow> pystr \<Rightarrow> pystr \<Rightarrow> pystr \<Rightarrow> pystr
    \<Rightarrow> pystr list \<Rightarrow> isolation_intent option" where
  "resolve_isolation_intent action object_id source_parent source_name isolation_parent
     isolation_name target_parent target_name rule_version managed =
     (let i = \<lparr>ii_action = action, ii_object_id = object_id,
               ii_source_parent_id = source_parent, ii_source_name = source_name,
               ii_isolation_parent_id = isolation_parent, ii_isolation_name = isolation_name,
               ii_target_parent_id = target_parent, ii_target_name = target_name,
               ii_rule_version = rule_version, ii_managed_directory_ids = remdups managed\<rparr>
      in if isolation_intent_ok i then Some i else None)"

definition intent_expectation :: "isolation_intent \<Rightarrow> step_expectation" where
  "intent_expectation i =
     (case ii_action i of
        ISOLATE \<Rightarrow>
          \<lparr>ex_object_id = ii_object_id i,
           ex_source_parent_id = ii_source_parent_id i, ex_source_name = ii_source_name i,
           ex_target_parent_id = ii_isolation_parent_id i,
           ex_target_name = ii_isolation_name i\<rparr>
      | RESTORE \<Rightarrow>
          \<lparr>ex_object_id = ii_object_id i,
           ex_source_parent_id = ii_isolation_parent_id i, ex_source_name = ii_isolation_name i,
           ex_target_parent_id = ii_target_parent_id i, ex_target_name = ii_target_name i\<rparr>)"

definition valid_observation :: "remote_state option \<Rightarrow> bool" where
  "valid_observation v = (case v of None \<Rightarrow> True | Some rs \<Rightarrow> valid_state rs)"

definition isolation_before_write ::
  "isolation_intent \<Rightarrow> remote_state option \<Rightarrow> remote_state option \<Rightarrow> bool \<Rightarrow> check_result" where
  "isolation_before_write i source target timed_out =
     (if timed_out then verdict_code CHECK_UNCERTAIN ''timeout''
      else if \<not> valid_observation source \<or> \<not> valid_observation target
        then verdict_code CHECK_UNCERTAIN ''precondition_unverified''
      else if source = None then verdict_code CHECK_UNCERTAIN ''source_not_observed''
      else let ex = intent_expectation i
        in if matches_target ex source then
             (if target = None \<or> matches_target ex target then verdict CHECK_ALREADY_APPLIED
              else verdict_code CHECK_CONFLICT ''partial_state'')
           else if \<not> matches_source ex source
             then verdict_code CHECK_CONFLICT ''source_precondition_changed''
           else (case target of
               None \<Rightarrow> verdict CHECK_READY
             | Some rs \<Rightarrow>
                 if rs_object_id rs = ex_object_id ex
                 then verdict_code CHECK_CONFLICT ''partial_state''
                 else verdict_code CHECK_CONFLICT ''target_already_exists''))"

definition isolation_after_write ::
  "isolation_intent \<Rightarrow> remote_state option \<Rightarrow> check_result" where
  "isolation_after_write i observed =
     (if \<not> valid_observation observed
      then verdict_code CHECK_UNCERTAIN ''postcondition_unverified''
      else check_after_write (intent_expectation i) observed)"

definition isolation_after_timeout ::
  "isolation_intent \<Rightarrow> remote_state option \<Rightarrow> check_result" where
  "isolation_after_timeout i observed =
     (if \<not> valid_observation observed
      then verdict_code CHECK_UNCERTAIN ''postcondition_unverified''
      else check_after_timeout (intent_expectation i) observed)"

section \<open>Lemmas\<close>

lemma valid_observation_None [simp]: "valid_observation None"
  by (simp add: valid_observation_def)

lemma isolation_ready_iff:
  "cr_status (isolation_before_write i source target timed_out) = CHECK_READY
    \<longleftrightarrow> \<not> timed_out \<and> valid_observation source \<and> target = None
      \<and> matches_source (intent_expectation i) source
      \<and> \<not> matches_target (intent_expectation i) source"
  by (cases source; cases target) (auto simp: isolation_before_write_def Let_def)

lemma isolation_applied_iff:
  "cr_status (isolation_before_write i source target timed_out) = CHECK_ALREADY_APPLIED
    \<longleftrightarrow> \<not> timed_out \<and> valid_observation source \<and> valid_observation target
      \<and> matches_target (intent_expectation i) source
      \<and> (target = None \<or> matches_target (intent_expectation i) target)"
  by (cases source; cases target) (auto simp: isolation_before_write_def Let_def)

lemma isolation_after_applied_iff:
  "cr_status (isolation_after_write i observed) = CHECK_ALREADY_APPLIED
    \<longleftrightarrow> valid_observation observed \<and> matches_target (intent_expectation i) observed"
  by (auto simp: isolation_after_write_def after_applied_iff)

lemma isolation_timeout_status:
  "cr_status (isolation_after_timeout i observed)
    = (if valid_observation observed \<and> matches_target (intent_expectation i) observed
       then CHECK_ALREADY_APPLIED else CHECK_UNCERTAIN)"
  by (auto simp: isolation_after_timeout_def timeout_status)

lemma resolve_isolation_Some:
  assumes "resolve_isolation_intent a obj sp sn ip isn tp tn rv managed = Some i"
  shows "isolation_intent_ok i" "ii_action i = a"
    "{sp, ip, tp} \<subseteq> set managed"
    "intent_expectation i =
       (case a of
          ISOLATE \<Rightarrow> \<lparr>ex_object_id = obj, ex_source_parent_id = sp, ex_source_name = sn,
                      ex_target_parent_id = ip, ex_target_name = isn\<rparr>
        | RESTORE \<Rightarrow> \<lparr>ex_object_id = obj, ex_source_parent_id = ip, ex_source_name = isn,
                      ex_target_parent_id = tp, ex_target_name = tn\<rparr>)"
  using assms
  by (auto simp: resolve_isolation_intent_def Let_def isolation_intent_ok_def intent_expectation_def
      split: if_splits isolation_action.splits)

text \<open>Where an isolation ends is where the restore of the same object starts.\<close>

lemma isolate_then_restore:
  assumes "ii_action i = ISOLATE" and "j = i\<lparr>ii_action := RESTORE\<rparr>"
  shows "matches_target (intent_expectation i) observed = matches_source (intent_expectation j) observed"
  using assms
  by (cases observed) (simp_all add: intent_expectation_def matches_source_def matches_target_def)

section \<open>The contract both verifiers share\<close>

text \<open>
  A verifier judges an intent before and after a write.  Its client, a retry loop, needs
  three laws only: a ready verdict is about an untouched source and a free target, an
  applied verdict is about the exact target, on either side of the write.
\<close>

locale step_verifier =
  fixes expect :: "'i \<Rightarrow> step_expectation"
    and before :: "'i \<Rightarrow> remote_state option \<Rightarrow> remote_state option \<Rightarrow> check_result"
    and after :: "'i \<Rightarrow> remote_state option \<Rightarrow> check_result"
  assumes before_ready:
      "cr_status (before i source target) = CHECK_READY \<Longrightarrow>
        matches_source (expect i) source \<and> \<not> matches_target (expect i) source \<and> target = None"
    and before_applied:
      "cr_status (before i source target) = CHECK_ALREADY_APPLIED \<Longrightarrow>
        matches_target (expect i) source"
    and after_applied:
      "cr_status (after i observed) = CHECK_ALREADY_APPLIED \<Longrightarrow> matches_target (expect i) observed"
begin

text \<open>A step whose write was verified is never written again.\<close>

lemma verified_not_rewritten:
  "cr_status (after i observed) = CHECK_ALREADY_APPLIED
    \<Longrightarrow> cr_status (before i observed target) \<noteq> CHECK_READY"
  using after_applied before_ready by blast

text \<open>Two intents that are both ready on one observation agree on what they will move.\<close>

lemma ready_same_source:
  assumes "cr_status (before i source t) = CHECK_READY"
    and "cr_status (before j source t') = CHECK_READY"
  shows "ex_object_id (expect i) = ex_object_id (expect j)
    \<and> ex_source_parent_id (expect i) = ex_source_parent_id (expect j)
    \<and> ex_source_name (expect i) = ex_source_name (expect j)"
  using before_ready[OF assms(1)] before_ready[OF assms(2)]
  by (cases source) (simp_all add: matches_source_def)

text \<open>An intent that would not move anything is never ready.\<close>

lemma no_op_not_ready:
  assumes "ex_source_parent_id (expect i) = ex_target_parent_id (expect i)"
    and "ex_source_name (expect i) = ex_target_name (expect i)"
  shows "cr_status (before i source target) \<noteq> CHECK_READY"
proof
  assume "cr_status (before i source target) = CHECK_READY"
  from before_ready[OF this] assms show False
    by (cases source) (auto simp: matches_source_def matches_target_def)
qed

end

interpretation plain_step: step_verifier "\<lambda>ex. ex" check_before_write check_after_write
  by unfold_locales (auto simp: check_iffs)

interpretation isolation_step: step_verifier intent_expectation
  "\<lambda>i source target. isolation_before_write i source target False" isolation_after_write
  by unfold_locales (auto simp: isolation_ready_iff isolation_applied_iff isolation_after_applied_iff)

end
