(* ===== verification/Json.thy ===== *)
theory Json
  imports Store
begin

text \<open>
  How Python code looks at decoded JSON: \<open>==\<close>, \<open>dict.get\<close>, \<open>isinstance\<close>.  Every function is
  total, as the code that meets untrusted documents is.
\<close>

section \<open>Python equality and lookup on decoded JSON\<close>

fun json_number :: "json \<Rightarrow> rat option" where
  "json_number (JBool b) = Some (of_bool b)"
| "json_number (JInt n) = Some (of_int n)"
| "json_number (JReal r) = Some r"
| "json_number _ = None"

text \<open>
  \<open>==\<close> on two separately decoded values: numbers compare across their types, a NaN equals
  nothing, objects compare as maps.
\<close>

function (sequential) json_eq :: "json \<Rightarrow> json \<Rightarrow> bool" where
  "json_eq (JList xs) (JList ys) =
     (length xs = length ys \<and> list_all (\<lambda>(x, y). json_eq x y) (zip xs ys))"
| "json_eq (JObj kvs) (JObj lvs) =
     (length kvs = length lvs
      \<and> list_all (\<lambda>(k, v). case map_of lvs k of None \<Rightarrow> False | Some w \<Rightarrow> json_eq v w) kvs)"
| "json_eq (JStr a) (JStr b) = (a = b)"
| "json_eq JNull JNull = True"
| "json_eq (JNonFinite a) (JNonFinite b) = (a = b \<and> a \<noteq> ''NaN'')"
| "json_eq a b =
     (case (json_number a, json_number b) of (Some x, Some y) \<Rightarrow> x = y | _ \<Rightarrow> False)"
  by pat_completeness auto

lemma json_obj_size:
  "(k, v) \<in> set kvs \<Longrightarrow> size v < Suc (size_list (size_prod (\<lambda>_. 0) size) kvs)"
  by (induction kvs) (auto simp: less_Suc_eq)

termination json_eq
proof (relation "measure (size \<circ> fst)", goal_cases)
  case (2 xs ys z x y)
  then have "x \<in> set xs" by (auto dest: set_zip_leftD)
  then show ?case by (simp add: less_Suc_eq_le size_list_estimation')
next
  case (3 kvs lvs z k v w)
  then show ?case by (auto dest: json_obj_size)
qed simp

text \<open>\<open>dict.get\<close> with its default.\<close>

fun jget_or :: "json \<Rightarrow> json \<Rightarrow> string \<Rightarrow> json" where
  "jget_or d (JObj kvs) k = (case map_of kvs (lit k) of None \<Rightarrow> d | Some v \<Rightarrow> v)"
| "jget_or d _ k = d"

definition jget :: "json \<Rightarrow> string \<Rightarrow> json" where
  "jget j k = jget_or JNull j k"

fun is_obj :: "json \<Rightarrow> bool" where
  "is_obj (JObj _) = True"
| "is_obj _ = False"

fun as_list :: "json \<Rightarrow> json list option" where
  "as_list (JList xs) = Some xs"
| "as_list _ = None"

fun as_str :: "json \<Rightarrow> pystr option" where
  "as_str (JStr s) = Some s"
| "as_str _ = None"

fun as_int :: "json \<Rightarrow> int option" where
  "as_int (JInt n) = Some n"
| "as_int _ = None"

definition json_of_opt :: "pystr option \<Rightarrow> json" where
  "json_of_opt v = (case v of None \<Rightarrow> JNull | Some s \<Rightarrow> JStr s)"

definition load_json_object :: "json option \<Rightarrow> json" where
  "load_json_object v =
     (case v of Some (JObj kvs) \<Rightarrow> JObj kvs | _ \<Rightarrow> JObj [])"

definition load_json_list :: "json option \<Rightarrow> json list" where
  "load_json_list v = (case v of Some (JList xs) \<Rightarrow> xs | _ \<Rightarrow> [])"

end
