(* ===== verification/Plan_Loader.thy ===== *)
theory Plan_Loader
  imports Executor Json "HOL-Library.Option_ord"
begin

text \<open>
  \<^verbatim>\<open>services/organization_plan.py\<close>, the part that executes: \<open>load_executable_steps\<close> parses a
  stored plan and validates it against the library, the latest complete scan and the plan's
  own digest before the executor gets any step.  The plan is untrusted JSON; every function
  here is total on it.  The digest of the canonical JSON (\<open>hashlib\<close> over \<open>json.dumps\<close>) is the
  parameter \<open>digest\<close>.
\<close>

section \<open>Values a plan may contain\<close>

definition str_where :: "(pystr \<Rightarrow> bool) \<Rightarrow> json \<Rightarrow> bool" where
  "str_where p j = (case as_str j of None \<Rightarrow> False | Some s \<Rightarrow> p s)"

fun split_on :: "nat \<Rightarrow> pystr \<Rightarrow> pystr list" where
  "split_on c [] = [[]]"
| "split_on c (x # xs) =
     (if x = c then [] # split_on c xs
      else (case split_on c xs of [] \<Rightarrow> [[x]] | p # ps \<Rightarrow> (x # p) # ps))"

definition join_with :: "nat \<Rightarrow> pystr list \<Rightarrow> pystr" where
  "join_with c ps = (case ps of [] \<Rightarrow> [] | q # qs \<Rightarrow> q @ concat (map (\<lambda>r. c # r) qs))"

text \<open>\<open>_safe_identity\<close>\<close>

definition plan_identity :: "pystr \<Rightarrow> bool" where
  "plan_identity s =
     (s \<noteq> [] \<and> length s \<le> 128 \<and> 0 \<notin> set s \<and> 47 \<notin> set s \<and> 92 \<notin> set s
      \<and> \<not> occurs_in (lit ''://'') s)"

definition version_markers :: "pystr list" where
  "version_markers =
     [lit ''pickcode'', lit ''cookie'', lit ''token'', lit ''password'', lit ''secret'']"

definition valid_source_version :: "unicode \<Rightarrow> pystr \<Rightarrow> bool" where
  "valid_source_version u s =
     (plan_identity s \<and> \<not> list_ex (\<lambda>m. occurs_in m (py_casefold u s)) version_markers)"

definition valid_source_path :: "pystr \<Rightarrow> bool" where
  "valid_source_path s =
     (s \<noteq> [] \<and> length s \<le> 4096 \<and> 0 \<notin> set s \<and> 92 \<notin> set s \<and> \<not> occurs_in (lit ''://'') s
      \<and> (let parts = (if take 1 s = [47] then drop 1 (split_on 47 s) else split_on 47 s)
         in parts \<noteq> [] \<and> list_all (\<lambda>p. p \<notin> {[], lit ''.'', lit ''..''}) parts))"

definition valid_target_name :: "pystr \<Rightarrow> bool" where
  "valid_target_name s =
     (s \<noteq> [] \<and> length s \<le> 4096 \<and> s \<notin> {lit ''.'', lit ''..''}
      \<and> 0 \<notin> set s \<and> 47 \<notin> set s \<and> 92 \<notin> set s)"

definition ascii_letter :: "nat \<Rightarrow> bool" where
  "ascii_letter c = (65 \<le> c \<and> c \<le> 90 \<or> 97 \<le> c \<and> c \<le> 122)"

text \<open>\<open>_validate_version\<close>: the pattern leaves no room for the white space checked before it.\<close>

definition valid_version :: "pystr \<Rightarrow> bool" where
  "valid_version s =
     (s \<noteq> [] \<and> length s \<le> 64
      \<and> list_all (\<lambda>c. ascii_letter c \<or> 48 \<le> c \<and> c \<le> 57 \<or> c \<in> {46, 95, 45}) s)"

text \<open>\<open>PurePosixPath(value).parts\<close> of a relative path: empty parts and \<open>.\<close> disappear.\<close>

definition posix_parts :: "pystr \<Rightarrow> pystr list" where
  "posix_parts s = filter (\<lambda>p. p \<notin> {[], lit ''.''}) (split_on 47 s)"

definition validate_relative_path :: "bool \<Rightarrow> pystr \<Rightarrow> pystr option" where
  "validate_relative_path allow_empty s =
     (if 0 \<in> set s \<or> length s > 4096 then None
      else if s = [] \<and> allow_empty then Some []
      else if s = [] \<or> take 1 s \<in> {[47], [92]}
           \<or> (2 \<le> length s \<and> ascii_letter (s ! 0) \<and> s ! 1 = 58)
           \<or> occurs_in (lit ''://'') s \<or> 92 \<in> set s then None
      else let parts = posix_parts s
        in if parts = [] \<or> lit ''..'' \<in> set parts then None else Some (join_with 47 parts))"

definition posix_name :: "pystr \<Rightarrow> pystr" where
  "posix_name s = (case rev (posix_parts s) of [] \<Rightarrow> [] | p # _ \<Rightarrow> p)"

definition posix_parent :: "pystr \<Rightarrow> pystr" where
  "posix_parent s =
     (case butlast (posix_parts s) of [] \<Rightarrow> lit ''.'' | ps \<Rightarrow> join_with 47 ps)"

definition strip_slashes :: "pystr \<Rightarrow> pystr" where
  "strip_slashes s = rev (dropWhile (\<lambda>c. c = 47) (rev (dropWhile (\<lambda>c. c = 47) s)))"

definition index_path :: "pystr \<Rightarrow> pystr" where
  "index_path s = map (\<lambda>c. if c = 92 then 47 else c) (strip_slashes s)"

section \<open>Parsing the steps\<close>

definition parse_member :: "unicode \<Rightarrow> json \<Rightarrow> exec_member option" where
  "parse_member u j =
     (if \<not> is_obj j then None
      else
        (case (as_str (jget j ''object_type''), as_str (jget j ''object_id''),
               as_str (jget j ''source_parent_id''), as_str (jget j ''source_path''),
               as_str (jget j ''source_name''), as_str (jget j ''source_version''),
               as_str (jget j ''target_parent_id''), as_str (jget j ''target_name'')) of
           (Some ot, Some oid, Some sp, Some path, Some sn, Some ver, Some tp, Some tn) \<Rightarrow>
             if plan_identity ot \<and> plan_identity oid \<and> plan_identity sp \<and> valid_source_path path
                \<and> valid_target_name sn \<and> valid_source_version u ver \<and> plan_identity tp
                \<and> valid_target_name tn
             then Some \<lparr>em_object_type = ot, em_object_id = oid, em_source_parent_id = sp,
                        em_source_path = path, em_source_name = sn, em_source_version = ver,
                        em_target_parent_id = tp, em_target_name = tn\<rparr>
             else None
         | _ \<Rightarrow> None))"

definition member_key :: "exec_member \<Rightarrow> pystr \<times> pystr" where
  "member_key m = (em_object_type m, em_object_id m)"

text \<open>The members seen so far run through all steps of the plan.\<close>

fun parse_members ::
  "unicode \<Rightarrow> (pystr \<times> pystr) list \<Rightarrow> json list \<Rightarrow> (exec_member list \<times> (pystr \<times> pystr) list) option" where
  "parse_members u seen [] = Some ([], seen)"
| "parse_members u seen (j # js) =
     (case parse_member u j of
        None \<Rightarrow> None
      | Some m \<Rightarrow>
          if member_key m \<in> set seen then None
          else (case parse_members u (member_key m # seen) js of
                  None \<Rightarrow> None
                | Some (ms, seen') \<Rightarrow> Some (m # ms, seen')))"

definition member_parents :: "exec_member list \<Rightarrow> pystr set" where
  "member_parents ms = em_source_parent_id ` set ms \<union> em_target_parent_id ` set ms"

text \<open>A list of distinct safe identities in sorted order.\<close>

definition parse_scope :: "json \<Rightarrow> pystr list option" where
  "parse_scope j =
     (case as_list j of
        None \<Rightarrow> None
      | Some js \<Rightarrow>
          if js = [] \<or> \<not> list_all (str_where plan_identity) js then None
          else let ids = map (the \<circ> as_str) js
            in if distinct ids \<and> sorted ids then Some ids else None)"

definition parse_action ::
  "unicode \<Rightarrow> int \<Rightarrow> (pystr \<times> pystr) list \<Rightarrow> json \<Rightarrow> (exec_step \<times> (pystr \<times> pystr) list) option" where
  "parse_action u n seen action =
     (let ex = jget action ''execution'' in
      if \<not> is_obj action \<or> jget action ''kind'' \<noteq> JStr (lit ''move'') \<or> \<not> is_obj ex then None
      else if as_int (jget ex ''order'') \<noteq> Some n \<or> jget ex ''kind'' \<noteq> JStr (lit ''move'') then None
      else
        (case (parse_scope (jget ex ''scope_directory_ids''), as_list (jget ex ''members'')) of
           (Some scope, Some (j # js)) \<Rightarrow>
             (case parse_members u seen (j # js) of
                Some (m # ms, seen') \<Rightarrow>
                  if json_eq_int (jget action ''order'') n
                     \<and> json_eq_str (jget action ''object_type'') (em_object_type m)
                     \<and> json_eq_str (jget action ''object_id'') (em_object_id m)
                     \<and> member_parents (m # ms) \<subseteq> set scope
                  then Some (\<lparr>es_order = n, es_kind = lit ''move'', es_scope_directory_ids = scope,
                              es_members = m # ms\<rparr>, seen')
                  else None
              | _ \<Rightarrow> None)
         | _ \<Rightarrow> None))"

fun parse_actions :: "unicode \<Rightarrow> int \<Rightarrow> (pystr \<times> pystr) list \<Rightarrow> json list \<Rightarrow> exec_step list option" where
  "parse_actions u n seen [] = Some []"
| "parse_actions u n seen (a # as) =
     (case parse_action u n seen a of
        None \<Rightarrow> None
      | Some (st, seen') \<Rightarrow>
          (case parse_actions u (n + 1) seen' as of None \<Rightarrow> None | Some sts \<Rightarrow> Some (st # sts)))"

definition parse_executable_steps :: "unicode \<Rightarrow> plan_row \<Rightarrow> exec_step list option" where
  "parse_executable_steps u p =
     (if plan_status p \<noteq> PLAN_PLANNED \<or> load_json_list (plan_actions p) = [] then None
      else parse_actions u 0 [] (load_json_list (plan_actions p)))"

section \<open>The stored source snapshot\<close>

definition snapshot_key :: "json \<Rightarrow> json \<times> json" where
  "snapshot_key j = (jget j ''object_type'', jget j ''object_id'')"

text \<open>The columns a snapshot item and each of its companions must carry.\<close>

definition snapshot_columns :: "unicode \<Rightarrow> json \<Rightarrow> bool" where
  "snapshot_columns u j =
     (is_obj j
      \<and> str_where plan_identity (jget j ''object_type'')
      \<and> str_where plan_identity (jget j ''object_id'')
      \<and> str_where plan_identity (jget j ''parent_id'')
      \<and> str_where valid_source_path (jget j ''path'')
      \<and> str_where (valid_source_version u) (jget j ''remote_version'')
      \<and> jget j ''is_directory'' = JBool False
      \<and> str_where valid_target_name (jget j ''name''))"

definition snapshot_item_ok :: "unicode \<Rightarrow> json \<Rightarrow> bool" where
  "snapshot_item_ok u j =
     (snapshot_columns u j
      \<and> (case as_list (jget_or (JList []) j ''companions'') of
           None \<Rightarrow> False
         | Some cs \<Rightarrow>
             list_all (snapshot_columns u) cs
             \<and> distinct (snapshot_key j # map snapshot_key cs)))"

text \<open>\<open>_load_source_snapshot\<close> with \<open>require_name\<close>\<close>

definition load_source_snapshot :: "unicode \<Rightarrow> json option \<Rightarrow> json list option" where
  "load_source_snapshot u v =
     (case load_json_list v of
        [] \<Rightarrow> None
      | js \<Rightarrow> if list_all (snapshot_item_ok u) js then Some js else None)"

section \<open>Validation against the scan\<close>

definition entry_key :: "scan_entry \<Rightarrow> pystr \<times> pystr" where
  "entry_key e = (se_object_type e, se_object_id e)"

definition find_entry :: "pystr \<times> pystr \<Rightarrow> scan_entry list \<Rightarrow> scan_entry option" where
  "find_entry k rows = row_of entry_key k rows"

definition directories :: "pystr \<Rightarrow> scan_entry list \<Rightarrow> scan_entry list" where
  "directories did rows = filter (\<lambda>e. se_is_directory e \<and> se_object_id e = did) rows"

definition managed_directory :: "pystr \<Rightarrow> scan_entry list \<Rightarrow> pystr \<Rightarrow> bool" where
  "managed_directory rt rows did = (did = rt \<or> length (directories did rows) = 1)"

definition target_directory_matches :: "pystr \<Rightarrow> pystr \<Rightarrow> scan_entry list \<Rightarrow> pystr \<Rightarrow> bool" where
  "target_directory_matches target target_parent rows rt =
     (if posix_parent target = lit ''.'' then target_parent = rt
      else (case directories target_parent rows of
              [d] \<Rightarrow> (case se_path d of
                        None \<Rightarrow> False
                      | Some path \<Rightarrow> index_path path = index_path (posix_parent target))
            | _ \<Rightarrow> False))"

text \<open>One member against its item of the source snapshot, and against its row of the scan.\<close>

definition member_in_snapshot :: "json \<Rightarrow> exec_member \<Rightarrow> bool" where
  "member_in_snapshot item m =
     (is_obj item
      \<and> json_eq_str (jget item ''object_type'') (em_object_type m)
      \<and> json_eq_str (jget item ''object_id'') (em_object_id m)
      \<and> json_eq_str (jget item ''parent_id'') (em_source_parent_id m)
      \<and> json_eq_str (jget item ''path'') (em_source_path m)
      \<and> json_eq_str (jget item ''name'') (em_source_name m)
      \<and> json_eq_str (jget item ''remote_version'') (em_source_version m)
      \<and> jget item ''is_directory'' = JBool False)"

definition member_in_scan :: "pystr \<Rightarrow> scan_entry list \<Rightarrow> pystr \<Rightarrow> exec_member \<Rightarrow> bool" where
  "member_in_scan rt rows target_parent m =
     (case find_entry (member_key m) rows of
        None \<Rightarrow> False
      | Some e \<Rightarrow>
          \<not> se_is_directory e
          \<and> se_parent_id e = Some (em_source_parent_id m)
          \<and> se_path e = Some (em_source_path m)
          \<and> se_name e = em_source_name m
          \<and> managed_directory rt rows (em_source_parent_id m)
          \<and> em_target_parent_id m = target_parent
          \<and> valid_target_name (em_target_name m))"

definition primary_matches :: "json \<Rightarrow> pystr \<Rightarrow> exec_member \<Rightarrow> bool" where
  "primary_matches action target m =
     (json_eq_str (jget action ''object_type'') (em_object_type m)
      \<and> json_eq_str (jget action ''object_id'') (em_object_id m)
      \<and> json_eq_str (jget action ''source_parent_id'') (em_source_parent_id m)
      \<and> json_eq_str (jget action ''source_path'') (em_source_path m)
      \<and> json_eq_str (jget action ''source_name'') (em_source_name m)
      \<and> json_eq_str (jget action ''source_version'') (em_source_version m)
      \<and> json_eq_str (jget action ''target_parent_id'') (em_target_parent_id m)
      \<and> json_eq_str (jget action ''target_name'') (em_target_name m)
      \<and> em_target_name m = posix_name target)"

definition validate_persisted_step ::
  "pystr \<Rightarrow> scan_entry list \<Rightarrow> json \<Rightarrow> exec_step \<Rightarrow> json \<Rightarrow> bool" where
  "validate_persisted_step rt rows action st snapshot =
     (case (as_str (jget action ''target''), es_members st,
            as_list (jget_or (JList []) snapshot ''companions'')) of
        (Some target, m # ms, Some companions) \<Rightarrow>
          validate_relative_path False target \<noteq> None
          \<and> primary_matches action target m
          \<and> target_directory_matches target (em_target_parent_id m) rows rt
          \<and> length (snapshot # companions) = length (m # ms)
          \<and> list_all (\<lambda>(item, x). member_in_snapshot item x) (zip (snapshot # companions) (m # ms))
          \<and> set (es_scope_directory_ids st) = insert rt (member_parents (m # ms))
          \<and> list_all (managed_directory rt rows) (es_scope_directory_ids st)
          \<and> list_all (member_in_scan rt rows (em_target_parent_id m)) (m # ms)
      | _ \<Rightarrow> False)"

text \<open>The comparisons of one action with its precondition, its snapshot item and its row.\<close>

definition same_field :: "json \<Rightarrow> string \<Rightarrow> json \<Rightarrow> string \<Rightarrow> bool" where
  "same_field a k b l = json_eq (jget a k) (jget b l)"

definition action_consistent ::
  "plan_row \<Rightarrow> int \<Rightarrow> json \<Rightarrow> json \<Rightarrow> exec_step \<Rightarrow> json \<Rightarrow> scan_entry \<Rightarrow> bool" where
  "action_consistent p n action pre st snapshot row =
     (json_eq_int (jget pre ''source_index'') n
      \<and> same_field pre ''object_type'' action ''object_type''
      \<and> same_field pre ''object_id'' action ''object_id''
      \<and> same_field pre ''parent_id'' snapshot ''parent_id''
      \<and> same_field pre ''source_path'' snapshot ''path''
      \<and> same_field pre ''remote_version'' snapshot ''remote_version''
      \<and> same_field action ''source_parent_id'' snapshot ''parent_id''
      \<and> same_field action ''source_path'' snapshot ''path''
      \<and> same_field action ''source_name'' snapshot ''name''
      \<and> same_field action ''source_version'' snapshot ''remote_version''
      \<and> json_eq_int (jget pre ''source_snapshot_revision'') (plan_source_snapshot_revision p)
      \<and> same_field pre ''target'' action ''target''
      \<and> same_field pre ''parent_id'' action ''source_parent_id''
      \<and> same_field pre ''source_path'' action ''source_path''
      \<and> same_field pre ''source_name'' action ''source_name''
      \<and> same_field pre ''remote_version'' action ''source_version''
      \<and> same_field pre ''target_parent_id'' action ''target_parent_id''
      \<and> same_field pre ''target_name'' action ''target_name''
      \<and> json_eq_str (jget pre ''rule_version'') (plan_rule_version p)
      \<and> json_eq_str (jget pre ''parser_version'') (plan_parser_version p)
      \<and> json_eq_str (jget pre ''matcher_version'') (plan_matcher_version p)
      \<and> jget pre ''target_conflict'' = JBool False
      \<and> same_field pre ''execution'' action ''execution''
      \<and> is_obj (jget action ''execution'')
      \<and> json_eq_str (jget action ''kind'') (lit ''move'')
      \<and> json_eq_int (jget action ''order'') n
      \<and> es_order st = n
      \<and> json_eq_str (jget snapshot ''name'') (se_name row)
      \<and> json_eq (jget snapshot ''parent_id'') (json_of_opt (se_parent_id row))
      \<and> json_eq (jget snapshot ''path'') (json_of_opt (se_path row))
      \<and> \<not> se_is_directory row)"

text \<open>The lookup of an action's row: only strings can be the key of a row.\<close>

definition action_row :: "json \<Rightarrow> scan_entry list \<Rightarrow> scan_entry option" where
  "action_row action rows =
     (case snapshot_key action of
        (JStr ot, JStr oid) \<Rightarrow> find_entry (ot, oid) rows | _ \<Rightarrow> None)"

definition action_ok ::
  "plan_row \<Rightarrow> pystr \<Rightarrow> scan_entry list \<Rightarrow> json list \<Rightarrow> int \<Rightarrow> json \<Rightarrow> json \<Rightarrow> exec_step \<Rightarrow> bool" where
  "action_ok p rt rows source n action pre st =
     (is_obj action \<and> is_obj pre
      \<and> (case (row_of snapshot_key (snapshot_key action) source, action_row action rows) of
           (Some snapshot, Some row) \<Rightarrow>
             action_consistent p n action pre st snapshot row
             \<and> validate_persisted_step rt rows action st snapshot
         | _ \<Rightarrow> False))"

fun actions_ok ::
  "plan_row \<Rightarrow> pystr \<Rightarrow> scan_entry list \<Rightarrow> json list \<Rightarrow> int \<Rightarrow> json list \<Rightarrow> json list \<Rightarrow> exec_step list
    \<Rightarrow> bool" where
  "actions_ok p rt rows source n (a # as) (pre # pres) (st # sts) =
     (action_ok p rt rows source n a pre st \<and> actions_ok p rt rows source (n + 1) as pres sts)"
| "actions_ok p rt rows source n [] [] [] = True"
| "actions_ok p rt rows source n _ _ _ = False"

definition validate_persisted_execution ::
  "plan_row \<Rightarrow> library_row \<Rightarrow> run_row \<Rightarrow> json list \<Rightarrow> json list \<Rightarrow> json list \<Rightarrow> exec_step list
    \<Rightarrow> scan_entry list \<Rightarrow> bool" where
  "validate_persisted_execution p lib run source actions pres sts rows =
     (length source = length actions \<and> length sts = length actions
      \<and> distinct (map snapshot_key source)
      \<and> validate_relative_path True (plan_target_root p) \<noteq> None
      \<and> valid_version (plan_rule_version p) \<and> valid_version (plan_parser_version p)
      \<and> valid_version (plan_matcher_version p)
      \<and> actions_ok p (lib_root_directory_id lib) rows source 0 actions pres sts
      \<and> run_snapshot_revision run = Some (plan_source_snapshot_revision p))"

section \<open>The loader\<close>

definition scan_rows :: "pystr \<Rightarrow> store \<Rightarrow> scan_entry list" where
  "scan_rows rid s = filter (\<lambda>e. se_scan_run_id e = rid) (scan_entries s)"

definition latest_run :: "library_row \<Rightarrow> store \<Rightarrow> run_row option" where
  "latest_run lib s =
     first_max run_snapshot_revision
       (filter (\<lambda>r. run_library_id r = lib_id lib \<and> run_root_directory_id r = lib_root_directory_id lib
                  \<and> run_state r = SCAN_COMPLETED \<and> run_complete r) (runs s))"

definition library_snapshot :: "library_row \<Rightarrow> json" where
  "library_snapshot lib =
     JObj (zip library_snapshot_keys
       [JStr (lib_id lib), JInt (lib_revision lib), JBool (lib_enabled lib),
        JBool (lib_scope_verified lib), JStr (lib_root_directory_id lib)])"

text \<open>The value the digest is taken of.\<close>

definition canonical_plan :: "plan_row \<Rightarrow> library_row \<Rightarrow> json list \<Rightarrow> json" where
  "canonical_plan p lib source =
     JObj [(lit ''library_id'', JStr (plan_library_id p)),
       (lit ''library_snapshot'', library_snapshot lib),
       (lit ''source_snapshot'', JList source),
       (lit ''target_root'', JStr (plan_target_root p)),
       (lit ''actions'', JList (load_json_list (plan_actions p))),
       (lit ''preconditions'', load_json_object (plan_preconditions p)),
       (lit ''rule_version'', JStr (plan_rule_version p)),
       (lit ''parser_version'', JStr (plan_parser_version p)),
       (lit ''matcher_version'', JStr (plan_matcher_version p))]"

definition plan_context :: "store \<Rightarrow> time \<Rightarrow> plan_row \<Rightarrow> (library_row \<times> run_row) option" where
  "plan_context s clk p =
     (case (row_of lib_id (plan_library_id p) (libraries s),
            row_of run_id (plan_source_scan_run_id p) (runs s)) of
        (Some lib, Some run) \<Rightarrow>
          if lib_enabled lib \<and> lib_scope_verified lib \<and> run_library_id run = plan_library_id p
             \<and> run_root_directory_id run = lib_root_directory_id lib
             \<and> run_state run = SCAN_COMPLETED \<and> run_complete run
             \<and> run_snapshot_revision run = Some (plan_source_snapshot_revision p)
             \<and> plan_expires_at p > clk
             \<and> map_option run_id (latest_run lib s) = Some (run_id run)
          then Some (lib, run) else None
      | _ \<Rightarrow> None)"

definition load_executable_steps ::
  "unicode \<Rightarrow> (json \<Rightarrow> pystr) \<Rightarrow> store \<Rightarrow> time \<Rightarrow> pystr \<Rightarrow> exec_step list option" where
  "load_executable_steps u digest s clk pid =
     (if \<not> plan_identity pid then None
      else
        (case get_plan pid s of
           None \<Rightarrow> None
         | Some p \<Rightarrow>
             if plan_status p \<noteq> PLAN_PLANNED then None
             else
               (case plan_context s clk p of
                  None \<Rightarrow> None
                | Some (lib, run) \<Rightarrow>
                    (let actions = load_json_list (plan_actions p);
                         pre = load_json_object (plan_preconditions p)
                     in
                       (case (load_source_snapshot u (plan_source_snapshot p),
                              as_list (jget pre ''items''), parse_executable_steps u p) of
                          (Some source, Some items, Some sts) \<Rightarrow>
                            if actions \<noteq> [] \<and> json_matches_library (jget pre ''library'') lib
                               \<and> length items = length actions
                               \<and> validate_persisted_execution p lib run source actions items sts
                                   (scan_rows (run_id run) s)
                               \<and> plan_hash p = digest (canonical_plan p lib source)
                            then Some sts else None
                        | _ \<Rightarrow> None)))))"

end
