(* ===== verification/Live_Response.thy ===== *)
theory Live_Response
  imports Json Offline_Transport
begin

text \<open>
  \<^verbatim>\<open>adapters/p115_c03_live_transport.py\<close>, the part that reduces a response of the remote
  drive to the program's own values.  The response is untrusted JSON: every function is total,
  and the two Python exceptions it can provoke (a number that \<open>int\<close> refuses, an unhashable
  value in a set test) are errors of the sums.
\<close>

section \<open>Exceptions of the client\<close>

text \<open>
  What the code asks an exception for: its class as far as the handlers tell classes apart,
  and the attributes \<open>status\<close>, \<open>status_code\<close>, \<open>code\<close>, \<open>errno\<close>, \<open>args\<close> and
  \<open>response.status_code\<close>, null when absent.
\<close>

record client_exn =
  ce_kind :: base_exception
  ce_status :: json
  ce_status_code :: json
  ce_code :: json
  ce_response_status_code :: json
  ce_errno :: json
  ce_args :: "json list"

definition plain_exn :: "base_exception \<Rightarrow> client_exn" where
  "plain_exn k =
     \<lparr>ce_kind = k, ce_status = JNull, ce_status_code = JNull, ce_code = JNull,
      ce_response_status_code = JNull, ce_errno = JNull, ce_args = []\<rparr>"

section \<open>Fields\<close>

fun jhas :: "json \<Rightarrow> string \<Rightarrow> bool" where
  "jhas (JObj kvs) k = (lit k \<in> set (map fst kvs))"
| "jhas _ k = False"

text \<open>
  The loops of \<open>_single_id\<close>, \<open>_single_text\<close> and \<open>_directory_marker\<close>: the fields present
  are read in order, each by its own reader; one unreadable field is no answer, and so are
  none and two different values.
\<close>

fun field_values :: "json \<Rightarrow> ((json \<Rightarrow> 'a option) \<times> string) list \<Rightarrow> 'a list option" where
  "field_values j [] = Some []"
| "field_values j ((p, n) # fs) =
     (if \<not> jhas j n then field_values j fs
      else
        (case p (jget j n) of
           None \<Rightarrow> None
         | Some v \<Rightarrow> map_option (Cons v) (field_values j fs)))"

definition single_field :: "json \<Rightarrow> ((json \<Rightarrow> 'a option) \<times> string) list \<Rightarrow> 'a option" where
  "single_field j fs =
     (case field_values j fs of
        Some (v # vs) \<Rightarrow> if list_all (\<lambda>w. w = v) vs then Some v else None
      | _ \<Rightarrow> None)"

definition int_text :: "int \<Rightarrow> pystr" where
  "int_text n = (if n < 0 then 45 # decimal (nat (- n)) else decimal (nat n))"

definition id_value :: "unicode \<Rightarrow> json \<Rightarrow> pystr option" where
  "id_value u v =
     (case v of
        JInt n \<Rightarrow> if stable_id u (int_text n) then Some (int_text n) else None
      | JStr s \<Rightarrow> if stable_id u s then Some s else None
      | _ \<Rightarrow> None)"

definition text_value :: "json \<Rightarrow> pystr option" where
  "text_value v = (case v of JStr s \<Rightarrow> if s = [] \<or> 0 \<in> set s then None else Some s | _ \<Rightarrow> None)"

definition bool_value :: "json \<Rightarrow> bool option" where
  "bool_value v = (case v of JBool b \<Rightarrow> Some b | _ \<Rightarrow> None)"

text \<open>A file category: 0 is a directory, 1 a file, as number or text.\<close>

definition category_value :: "json \<Rightarrow> bool option" where
  "category_value v =
     (case v of
        JBool b \<Rightarrow> None
      | _ \<Rightarrow> if json_eq v (JInt 0) \<or> v = JStr (lit ''0'') then Some True
             else if json_eq v (JInt 1) \<or> v = JStr (lit ''1'') then Some False
             else None)"

definition single_id :: "unicode \<Rightarrow> json \<Rightarrow> string list \<Rightarrow> pystr option" where
  "single_id u j names = single_field j (map (Pair (id_value u)) names)"

definition single_text :: "json \<Rightarrow> string list \<Rightarrow> pystr option" where
  "single_text j names = single_field j (map (Pair text_value) names)"

definition directory_marker :: "json \<Rightarrow> bool option" where
  "directory_marker j =
     single_field j [(bool_value, ''is_dir''), (bool_value, ''is_directory''),
                     (category_value, ''fc''), (category_value, ''file_category'')]"

text \<open>\<open>int\<close> of a text: every digit needs a decimal value, and the length is limited.\<close>

definition int_of_text :: "unicode \<Rightarrow> pystr \<Rightarrow> client_exn + int" where
  "int_of_text u s =
     (if int (length s) > 4300 \<or> list_ex (\<lambda>c. uni_decimal u c = None) s
      then Inl (plain_exn OtherExn)
      else Inr (int (foldl (\<lambda>n c. 10 * n + the (uni_decimal u c)) 0 s)))"

definition integer_value :: "unicode \<Rightarrow> json \<Rightarrow> client_exn + int option" where
  "integer_value u v =
     (case v of
        JInt n \<Rightarrow> Inr (Some n)
      | JStr s \<Rightarrow> if py_isdigit u s then map_sum id Some (int_of_text u s) else Inr None
      | _ \<Rightarrow> Inr None)"

section \<open>Success\<close>

definition zero_code :: "unicode \<Rightarrow> json \<Rightarrow> bool" where
  "zero_code u v =
     (case v of
        JBool b \<Rightarrow> \<not> b
      | JInt n \<Rightarrow> n = 0 \<or> n = 200
      | JStr s \<Rightarrow> py_strip u s = lit ''0'' \<or> py_strip u s = lit ''200''
      | _ \<Rightarrow> False)"

definition errno_success :: "unicode \<Rightarrow> json \<Rightarrow> bool" where
  "errno_success u v =
     (zero_code u v \<or> (case v of JStr s \<Rightarrow> py_strip u s = [] | _ \<Rightarrow> False))"

definition response_success :: "unicode \<Rightarrow> json \<Rightarrow> bool" where
  "response_success u r =
     (if jget r ''state'' \<noteq> JBool True then False
      else if jhas r ''success'' \<and> jget r ''success'' \<noteq> JBool True then False
      else if jhas r ''code'' \<and> \<not> zero_code u (jget r ''code'') then False
      else \<not> jhas r ''errno'' \<or> errno_success u (jget r ''errno''))"

text \<open>Membership in \<open>{405, "405"}\<close>: a list or an object is unhashable, a \<open>TypeError\<close>.\<close>

definition in_405 :: "json \<Rightarrow> client_exn + bool" where
  "in_405 v =
     (case v of
        JList _ \<Rightarrow> Inl (plain_exn OtherExn)
      | JObj _ \<Rightarrow> Inl (plain_exn OtherExn)
      | _ \<Rightarrow> Inr (json_eq v (JInt 405) \<or> v = JStr (lit ''405'')))"

definition structured_405 :: "json \<Rightarrow> client_exn + bool" where
  "structured_405 r =
     (if \<not> is_obj r then Inr False
      else rbind (in_405 (jget r ''status_code'')) (\<lambda>b.
        if b then Inr True else in_405 (jget r ''http_status'')))"

definition method_not_allowed :: "client_exn \<Rightarrow> client_exn + bool" where
  "method_not_allowed e =
     (if list_ex (\<lambda>v. json_eq v (JInt 405) \<or> v = JStr (lit ''405''))
           [ce_status e, ce_status_code e, ce_code e]
      then Inr True
      else in_405 (ce_response_status_code e))"

definition busy_errno :: "json \<Rightarrow> bool" where
  "busy_errno v = json_eq v (JInt 990009)"

definition has_busy_errno :: "client_exn \<Rightarrow> bool" where
  "has_busy_errno e =
     (busy_errno (ce_errno e)
      \<or> list_ex (\<lambda>a. is_obj a \<and> busy_errno (jget a ''errno'')) (ce_args e))"

section \<open>Receipts, entries and pages\<close>

record write_receipt =
  rc_status :: write_status
  rc_file_id :: "pystr option"

record remote_entry =
  en_file_id :: pystr
  en_parent_id :: pystr
  en_name :: pystr
  en_is_directory :: bool

definition detail_of :: "json \<Rightarrow> json" where
  "detail_of r = (if is_obj (jget r ''data'') then jget r ''data'' else r)"

definition normalize_write_response :: "unicode \<Rightarrow> write_operation \<Rightarrow> json \<Rightarrow> write_receipt" where
  "normalize_write_response u op r =
     (if \<not> is_obj r \<or> \<not> response_success u r
        then \<lparr>rc_status = WRITE_UNCERTAIN, rc_file_id = None\<rparr>
      else if op \<noteq> WRITE_MKDIR then \<lparr>rc_status = WRITE_SUCCESS, rc_file_id = None\<rparr>
      else
        (case single_id u (detail_of r) [''cid'', ''directory_id'', ''fid'', ''file_id''] of
           None \<Rightarrow> \<lparr>rc_status = WRITE_UNCERTAIN, rc_file_id = None\<rparr>
         | Some i \<Rightarrow> \<lparr>rc_status = WRITE_SUCCESS, rc_file_id = Some i\<rparr>))"

definition name_fields :: "string list" where
  "name_fields = [''name'', ''n'', ''fn'', ''file_name'', ''category_name'']"

definition directory_id_fields :: "string list" where
  "directory_id_fields = [''file_id'', ''fid'', ''directory_id'', ''category_id'', ''cid'']"

definition normalize_info_response :: "unicode \<Rightarrow> pystr \<Rightarrow> json \<Rightarrow> remote_entry option" where
  "normalize_info_response u requested r =
     (if \<not> is_obj r \<or> \<not> response_success u r then None
      else let d = detail_of r in
        if directory_marker d \<noteq> Some True then None
        else
          (case (single_text d name_fields, single_id u d [''parent_id'', ''pid''],
                 single_id u d directory_id_fields) of
             (Some nm, Some parent, Some i) \<Rightarrow>
               if i \<noteq> requested then None
               else Some \<lparr>en_file_id = requested, en_parent_id = parent, en_name = nm,
                          en_is_directory = True\<rparr>
           | _ \<Rightarrow> None))"

definition normalize_list_entry :: "unicode \<Rightarrow> pystr \<Rightarrow> json \<Rightarrow> remote_entry option" where
  "normalize_list_entry u parent j =
     (case directory_marker j of
        None \<Rightarrow> None
      | Some dir \<Rightarrow>
          (case (single_id u j (if dir then directory_id_fields else [''file_id'', ''fid'']),
                 single_id u j (if dir then [''parent_id'', ''pid''] else [''parent_id'', ''pid'', ''cid'']),
                 single_text j name_fields) of
             (Some i, Some p, Some nm) \<Rightarrow>
               if p \<noteq> parent then None
               else Some \<lparr>en_file_id = i, en_parent_id = parent, en_name = nm, en_is_directory = dir\<rparr>
           | _ \<Rightarrow> None))"

definition page_records :: "json \<Rightarrow> json list option" where
  "page_records r =
     (let d = jget r ''data'';
          v = (if is_obj d then jget_or (jget d ''items'') d ''list'' else d)
      in case as_list v of
           None \<Rightarrow> None
         | Some xs \<Rightarrow> if list_all is_obj xs then Some xs else None)"

fun all_some :: "'a option list \<Rightarrow> 'a list option" where
  "all_some [] = Some []"
| "all_some (x # xs) =
     (case x of None \<Rightarrow> None | Some v \<Rightarrow> map_option (Cons v) (all_some xs))"

definition page_size :: int where
  "page_size = 1"

text \<open>The conditions on the numbers of a page, then its entries.\<close>

definition page_entries ::
  "unicode \<Rightarrow> pystr \<Rightarrow> int \<Rightarrow> int option \<Rightarrow> int option \<Rightarrow> int \<Rightarrow> json list \<Rightarrow> remote_entry list option" where
  "page_entries u parent expected offset limit amount records =
     (if offset \<noteq> Some expected \<or> limit \<noteq> Some page_size \<or> amount < 0
         \<or> int (length records) > page_size \<or> expected > amount
         \<or> expected + int (length records) > amount
         \<or> int (length records) \<noteq> min page_size (amount - expected)
         \<or> (records = [] \<and> amount > expected)
      then None
      else all_some (map (normalize_list_entry u parent) records))"

definition normalize_files_page ::
  "unicode \<Rightarrow> pystr \<Rightarrow> int \<Rightarrow> json \<Rightarrow> client_exn + (remote_entry list \<times> int) option" where
  "normalize_files_page u parent expected r =
     (if \<not> is_obj r \<or> \<not> response_success u r then Inr None
      else
        rbind (integer_value u (jget r ''offset'')) (\<lambda>offset.
        rbind (integer_value u (jget r ''limit'')) (\<lambda>limit.
        rbind (integer_value u (jget r ''count'')) (\<lambda>count.
        Inr (case (count, page_records r) of
               (Some amount, Some records) \<Rightarrow>
                 map_option (\<lambda>es. (es, amount))
                   (page_entries u parent expected offset limit amount records)
             | _ \<Rightarrow> None)))))"

section \<open>Lemmas\<close>

lemma all_some_Some: "all_some xs = Some ys \<longleftrightarrow> xs = map Some ys"
  by (induction xs arbitrary: ys) (auto split: option.splits)

lemma list_entry_parent: "normalize_list_entry u parent j = Some e \<Longrightarrow> en_parent_id e = parent"
  by (auto simp: normalize_list_entry_def split: option.splits if_splits)

text \<open>What an accepted page is: the one entry at the requested offset of a directory of
  \<open>amount\<close> entries, or nothing when the offset is the end.\<close>

lemma page_entries_Some:
  assumes "page_entries u parent off offset limit amount records = Some es"
  shows "int (length es) = min 1 (amount - off)" "off \<le> amount" "\<forall>e \<in> set es. en_parent_id e = parent"
proof -
  from assms have rs: "map (normalize_list_entry u parent) records = map Some es"
    and c: "int (length records) = min 1 (amount - off)" "off \<le> amount"
    by (auto simp: page_entries_def all_some_Some page_size_def split: if_splits)
  from arg_cong[OF rs, of length] c show "int (length es) = min 1 (amount - off)" "off \<le> amount"
    by simp_all
  have "Some ` set es = normalize_list_entry u parent ` set records"
    using arg_cong[OF rs, of set] by simp
  then show "\<forall>e \<in> set es. en_parent_id e = parent"
    by (metis image_iff list_entry_parent)
qed

lemma files_page_Some:
  assumes "normalize_files_page u parent off r = Inr (Some (es, amount))"
  shows "int (length es) = min 1 (amount - off)" "off \<le> amount" "\<forall>e \<in> set es. en_parent_id e = parent"
proof -
  from assms obtain offset limit records
    where "page_entries u parent off offset limit amount records = Some es"
    by (cases "page_records r"; cases "integer_value u (jget r ''count'')"; cases "projr (integer_value u (jget r ''count''))")
       (auto simp: normalize_files_page_def rbind_Inr split: if_split_asm)
  note p = page_entries_Some[OF this]
  show "int (length es) = min 1 (amount - off)" "off \<le> amount" "\<forall>e \<in> set es. en_parent_id e = parent"
    by (fact p)+
qed

end
