(* ===== verification/Live_Transport.thy ===== *)
theory Live_Transport
  imports Live_Response
begin

text \<open>
  The live transport: \<^verbatim>\<open>adapters/p115_c03_live_transport.py\<close> (calls of the client, paged
  listings, writes) and \<open>LiveP115OrganizationTransport\<close> of
  \<^verbatim>\<open>adapters/p115_organization_transport.py\<close> over it.  The client of the remote drive, its
  HTTP library and the clock are the parameter \<open>provider\<close>, over a state of any type.
\<close>

section \<open>Provider\<close>

datatype client_method =
    FS_MKDIR | FS_MOVE | FS_RENAME | FS_DELETE | FS_INFO | FS_FILES | FS_INFO_APP | FS_FILES_APP

type_synonym payload = "(pystr \<times> json) list"

text \<open>
  \<open>pv_callable\<close> says which optional methods the client has, \<open>pv_monotonic\<close> reads the
  monotonic clock in microseconds, \<open>pv_timeout_transport\<close> whether the HTTP library with
  timeouts can be imported.
\<close>

record 'r provider =
  pv_call :: "client_method \<Rightarrow> payload \<Rightarrow> int \<Rightarrow> 'r \<Rightarrow> (client_exn + json) \<times> 'r"
  pv_callable :: "client_method \<Rightarrow> bool"
  pv_monotonic :: "'r \<Rightarrow> int \<times> 'r"
  pv_sleep :: "int \<Rightarrow> 'r \<Rightarrow> 'r"
  pv_timeout_transport :: bool

type_synonym ('r, 'a) client_act = "('r, client_exn, 'a) act"
type_synonym 'r caller = "client_method \<Rightarrow> payload \<Rightarrow> int \<Rightarrow> ('r, json) client_act"

definition busy_delay :: int where
  "busy_delay = 3000000"

definition pause_for :: "'r provider \<Rightarrow> int \<Rightarrow> ('r, unit) client_act" where
  "pause_for pv d r = (Inr (), pv_sleep pv d r)"

text \<open>\<open>p115_c03_timeout_executor\<close>: a busy drive is asked once more.\<close>

definition timeout_call :: "'r provider \<Rightarrow> 'r caller" where
  "timeout_call pv m p timeout =
     (if timeout \<le> 0 then sraise (plain_exn OtherExn)
      else if \<not> pv_timeout_transport pv then sraise (plain_exn OtherExn)
      else
        scatch (pv_call pv m p timeout)
          (\<lambda>e. if ce_kind e = CancelledError \<or> \<not> has_busy_errno e then sraise e
               else sbind (pause_for pv busy_delay) (\<lambda>_. pv_call pv m p timeout)))"

text \<open>
  \<open>_call_read_with_405_fallback\<close>; the fallback stands inside the \<open>try\<close>, so its own 405
  asks it again.
\<close>

definition call_with_fallback ::
  "'r caller \<Rightarrow> client_method \<Rightarrow> client_method option \<Rightarrow> payload \<Rightarrow> int \<Rightarrow> ('r, json) client_act" where
  "call_with_fallback call primary fallback p timeout =
     scatch
       (sbind (call primary p timeout) (\<lambda>resp.
        sbind (scheck (structured_405 resp)) (\<lambda>refused.
          if \<not> refused then sret resp
          else (case fallback of None \<Rightarrow> sret resp | Some m \<Rightarrow> call m p timeout))))
       (\<lambda>e. if ce_kind e = CancelledError then sraise e
            else
              sbind (scheck (method_not_allowed e)) (\<lambda>refused.
                if \<not> refused then sraise e
                else (case fallback of None \<Rightarrow> sraise e | Some m \<Rightarrow> call m p timeout)))"

section \<open>The narrow transport\<close>

text \<open>
  \<open>P115C03LiveTransport\<close>: the executor of calls, if one was given, the optional methods of
  the client and the clock.
\<close>

record 'r c03_transport =
  c3_call :: "'r caller option"
  c3_callable :: "client_method \<Rightarrow> bool"
  c3_monotonic :: "'r \<Rightarrow> int \<times> 'r"

definition c03_over :: "'r provider \<Rightarrow> 'r c03_transport" where
  "c03_over pv =
     \<lparr>c3_call = Some (timeout_call pv), c3_callable = pv_callable pv, c3_monotonic = pv_monotonic pv\<rparr>"

definition with_caller :: "'r c03_transport \<Rightarrow> ('r caller \<Rightarrow> ('r, 'a) client_act) \<Rightarrow> ('r, 'a) client_act" where
  "with_caller c k =
     (case c3_call c of None \<Rightarrow> sraise (plain_exn OtherExn) | Some call \<Rightarrow> k call)"

definition app_method :: "'r c03_transport \<Rightarrow> client_method \<Rightarrow> client_method option" where
  "app_method c m = (if c3_callable c m then Some m else None)"

fun write_method :: "write_operation \<Rightarrow> client_method option" where
  "write_method WRITE_MKDIR = Some FS_MKDIR"
| "write_method WRITE_MOVE = Some FS_MOVE"
| "write_method WRITE_RENAME = Some FS_RENAME"
| "write_method WRITE_RECYCLE = Some FS_DELETE"
| "write_method _ = None"

definition payload_text :: "(string \<times> pystr) list \<Rightarrow> string \<Rightarrow> json" where
  "payload_text p k = (case map_of p k of None \<Rightarrow> JNull | Some s \<Rightarrow> JStr s)"

definition client_payload :: "prepared_write \<Rightarrow> payload option" where
  "client_payload w =
     (let p = pw_payload w; fields = set (map fst p) in
      case pw_operation w of
        WRITE_MKDIR \<Rightarrow>
          if fields \<noteq> {''pid'', ''file_name''} then None
          else Some [(lit ''pid'', payload_text p ''pid''), (lit ''cname'', payload_text p ''file_name'')]
      | WRITE_MOVE \<Rightarrow>
          if fields \<noteq> {''file_ids'', ''to_cid''} then None
          else Some [(lit ''fid'', payload_text p ''file_ids''), (lit ''pid'', payload_text p ''to_cid'')]
      | WRITE_RENAME \<Rightarrow>
          if fields \<noteq> {''file_id'', ''file_name''} then None
          else Some [(lit ''files_new_name['' @ (case map_of p ''file_id'' of None \<Rightarrow> [] | Some s \<Rightarrow> s) @ lit '']'',
                      payload_text p ''file_name'')]
      | WRITE_RECYCLE \<Rightarrow>
          if fields \<noteq> {''file_id''} then None
          else Some [(lit ''fid'', payload_text p ''file_id'')]
      | _ \<Rightarrow> None)"

definition c03_execute ::
  "unicode \<Rightarrow> 'r c03_transport \<Rightarrow> prepared_write \<Rightarrow> int \<Rightarrow> ('r, write_receipt) client_act" where
  "c03_execute u c w timeout =
     with_caller c (\<lambda>call.
       case (write_method (pw_operation w), client_payload w) of
         (Some m, Some p) \<Rightarrow>
           sbind (call m p timeout) (\<lambda>resp. sret (normalize_write_response u (pw_operation w) resp))
       | _ \<Rightarrow> sret \<lparr>rc_status = WRITE_UNCERTAIN, rc_file_id = None\<rparr>)"

definition c03_read ::
  "unicode \<Rightarrow> 'r c03_transport \<Rightarrow> pystr \<Rightarrow> int \<Rightarrow> ('r, remote_entry option) client_act" where
  "c03_read u c file_id timeout =
     with_caller c (\<lambda>call.
     sbind (call_with_fallback call FS_INFO (app_method c FS_INFO_APP)
              [(lit ''cid'', JStr file_id)] timeout) (\<lambda>resp.
     sret (normalize_info_response u file_id resp)))"

section \<open>Listing a directory\<close>

record listing =
  ls_entries :: "remote_entry list"
  ls_complete :: bool
  ls_page_calls :: int

definition max_page_calls :: nat where
  "max_page_calls = 4"

definition new_listing :: "remote_entry list \<Rightarrow> bool \<Rightarrow> int \<Rightarrow> client_exn + listing" where
  "new_listing es whole calls =
     (if calls < 1 \<or> calls > int max_page_calls then Inl (plain_exn OtherExn)
      else Inr \<lparr>ls_entries = es, ls_complete = whole, ls_page_calls = calls\<rparr>)"

definition monotonic :: "'r c03_transport \<Rightarrow> ('r, int) client_act" where
  "monotonic c r = apfst Inr (c3_monotonic c r)"

definition files_payload :: "pystr \<Rightarrow> int \<Rightarrow> payload" where
  "files_payload parent offset =
     [(lit ''cid'', JStr parent), (lit ''limit'', JInt page_size), (lit ''offset'', JInt offset),
      (lit ''record_open_time'', JInt 0), (lit ''show_dir'', JInt 1)]"

definition fetch_page ::
  "'r c03_transport \<Rightarrow> 'r caller \<Rightarrow> pystr \<Rightarrow> int \<Rightarrow> int \<Rightarrow> ('r, json option) client_act" where
  "fetch_page c call parent offset remaining =
     scatch
       (sbind (call_with_fallback call FS_FILES (app_method c FS_FILES_APP)
                 (files_payload parent offset) remaining) (\<lambda>resp. sret (Some resp)))
       (\<lambda>e. if ce_kind e = CancelledError then sraise e else sret None)"

text \<open>The loop over the pages: \<open>left\<close> iterations are left, \<open>calls\<close> numbers the current one.\<close>

fun list_pages ::
  "unicode \<Rightarrow> 'r c03_transport \<Rightarrow> 'r caller \<Rightarrow> int \<Rightarrow> pystr \<Rightarrow> nat \<Rightarrow> int \<Rightarrow> int \<Rightarrow> remote_entry list
    \<Rightarrow> ('r, listing) client_act" where
  "list_pages u c call deadline parent 0 calls offset entries =
     scheck (new_listing entries False (int max_page_calls))"
| "list_pages u c call deadline parent (Suc left) calls offset entries =
     sbind (monotonic c) (\<lambda>now.
     if deadline - now \<le> 0 then scheck (new_listing entries False (calls - 1))
     else
       sbind (fetch_page c call parent offset (deadline - now)) (\<lambda>resp.
       case resp of
         None \<Rightarrow> scheck (new_listing entries False calls)
       | Some r \<Rightarrow>
           sbind (scheck (normalize_files_page u parent offset r)) (\<lambda>page.
           case page of
             None \<Rightarrow> scheck (new_listing entries False calls)
           | Some (es, amount) \<Rightarrow>
               if list_ex (\<lambda>e. en_file_id e \<in> en_file_id ` set entries) es
                 then scheck (new_listing entries False calls)
               else if offset + int (length es) = amount
                 then scheck (new_listing (entries @ es) True calls)
               else if es = [] then scheck (new_listing (entries @ es) False calls)
               else list_pages u c call deadline parent left (calls + 1)
                      (offset + int (length es)) (entries @ es))))"

definition list_children ::
  "unicode \<Rightarrow> 'r c03_transport \<Rightarrow> pystr \<Rightarrow> int \<Rightarrow> ('r, listing) client_act" where
  "list_children u c parent timeout =
     with_caller c (\<lambda>call.
     sbind (monotonic c) (\<lambda>start.
     list_pages u c call (start + timeout) parent max_page_calls 1 0 []))"

section \<open>The organization transport\<close>

record 'r live_transport =
  lt_c03 :: "'r c03_transport"
  lt_intents :: "(pystr \<times> object_intent) list"
  lt_targets :: "(pystr \<times> pystr) list"
  lt_managed :: "pystr list"
  lt_scope_confirmed :: bool
  lt_timeout :: int

record 'r live =
  lv_remote :: 'r
  lv_receipts :: "transport_result list"

type_synonym ('r, 'a) live_act = "('r live, transport_error, 'a) act"

definition validate_live_scope :: "unicode \<Rightarrow> object_intent list \<Rightarrow> pystr list \<Rightarrow> bool \<Rightarrow> bool" where
  "validate_live_scope u intents managed scope_confirmed =
     (\<not> (intents = [] \<or> \<not> distinct (map oi_object_id intents)
         \<or> managed = [] \<or> \<not> list_all (stable_id u) managed
         \<or> \<not> scope_confirmed
         \<or> list_ex (\<lambda>i. oi_source_parent_id i \<notin> set managed
                        \<or> oi_target_parent_id i \<notin> set managed) intents
         \<or> \<not> distinct (map (\<lambda>i. (oi_target_parent_id i, oi_target_name i)) intents)))"

text \<open>The constructor, with a client at hand; \<open>Inl\<close> is its exception's code.\<close>

definition make_live ::
  "unicode \<Rightarrow> 'r provider \<Rightarrow> object_intent list \<Rightarrow> pystr list \<Rightarrow> bool \<Rightarrow> int \<Rightarrow> bool
    \<Rightarrow> string + 'r live_transport" where
  "make_live u pv intents managed scope_confirmed timeout live_enabled =
     (if \<not> live_enabled then Inl ''live_transport_disabled''
      else if timeout \<le> 0 then Inl ''invalid_timeout''
      else if \<not> validate_live_scope u intents managed scope_confirmed
        then Inl ''invalid_organization_scope''
      else Inr \<lparr>lt_c03 = c03_over pv, lt_intents = map (\<lambda>i. (oi_object_id i, i)) intents,
                lt_targets = map (\<lambda>i. (oi_target_parent_id i, oi_target_name i)) intents,
                lt_managed = managed, lt_scope_confirmed = scope_confirmed, lt_timeout = timeout\<rparr>)"

definition live_intent :: "unicode \<Rightarrow> 'r live_transport \<Rightarrow> pystr \<Rightarrow> ('r, object_intent) live_act" where
  "live_intent u lt object_id =
     (if \<not> lt_scope_confirmed lt then sraise (TransportError ''scope_unverified'')
      else
        (case map_of (lt_intents lt) object_id of
           Some i \<Rightarrow> if stable_id u object_id then sret i
                     else sraise (TransportError ''scope_unverified'')
         | None \<Rightarrow> sraise (TransportError ''scope_unverified'')))"

text \<open>A call of the narrow transport: its exceptions pass unchanged.\<close>

definition over_c03 :: "('r, 'a) client_act \<Rightarrow> ('r, 'a) live_act" where
  "over_c03 m s =
     (case m (lv_remote s) of
        (out, r) \<Rightarrow> (map_sum (\<lambda>e. Reraised (ce_kind e)) id out, s\<lparr>lv_remote := r\<rparr>))"

definition entry_state :: "remote_entry \<Rightarrow> remote_state" where
  "entry_state e =
     \<lparr>rs_object_id = en_file_id e, rs_parent_id = en_parent_id e, rs_name = en_name e\<rparr>"

fun live_observe ::
  "unicode \<Rightarrow> 'r live_transport \<Rightarrow> pystr \<Rightarrow> pystr list \<Rightarrow> remote_state list
    \<Rightarrow> ('r, remote_state list) live_act" where
  "live_observe u lt object_id [] observed = sret observed"
| "live_observe u lt object_id (p # ps) observed =
     sbind (over_c03 (list_children u (lt_c03 lt) p (lt_timeout lt))) (\<lambda>l.
     if \<not> ls_complete l then sraise (TransportError ''observation_unverified'')
     else live_observe u lt object_id ps
            (observed @ map entry_state (filter (\<lambda>e. en_file_id e = object_id) (ls_entries l))))"

definition live_read_object ::
  "unicode \<Rightarrow> 'r live_transport \<Rightarrow> pystr \<Rightarrow> ('r, remote_state option) live_act" where
  "live_read_object u lt object_id =
     sbind (live_intent u lt object_id) (\<lambda>i.
     sbind (live_observe u lt object_id
              (oi_source_parent_id i
               # (if oi_target_parent_id i \<noteq> oi_source_parent_id i then [oi_target_parent_id i] else []))
              []) (\<lambda>observed.
     case observed of
       [] \<Rightarrow> sret None
     | [st] \<Rightarrow> if intent_observation (lt_managed lt) i st then sret (Some st)
               else sraise (TransportError ''observation_unverified'')
     | _ \<Rightarrow> sraise (TransportError ''observation_unverified'')))"

definition live_read_target ::
  "unicode \<Rightarrow> 'r live_transport \<Rightarrow> pystr \<Rightarrow> pystr \<Rightarrow> ('r, remote_state option) live_act" where
  "live_read_target u lt parent_id name =
     (if \<not> lt_scope_confirmed lt then sraise (TransportError ''scope_unverified'')
      else if (parent_id, name) \<notin> set (lt_targets lt)
        then sraise (TransportError ''scope_unverified'')
      else
        sbind (over_c03 (list_children u (lt_c03 lt) parent_id (lt_timeout lt))) (\<lambda>l.
        if \<not> ls_complete l then sraise (TransportError ''observation_unverified'')
        else
          (case map entry_state (filter (\<lambda>e. en_name e = name) (ls_entries l)) of
             [] \<Rightarrow> sret None
           | [st] \<Rightarrow> sret (Some st)
           | _ \<Rightarrow> sraise (TransportError ''observation_unverified''))))"

definition organization_result :: "transport_operation \<Rightarrow> write_status \<Rightarrow> transport_result" where
  "organization_result op st =
     (case st of
        WRITE_SUCCESS \<Rightarrow> transport_success op
      | WRITE_FAILED \<Rightarrow>
          \<lparr>tr_operation = op, tr_status = TRANSPORT_FAILED, tr_error_code = Some ''remote_failed''\<rparr>
      | WRITE_UNCERTAIN \<Rightarrow> transport_uncertain op ''outcome_unknown'')"

definition add_receipt :: "transport_result \<Rightarrow> ('r, transport_result) live_act" where
  "add_receipt res s = (Inr res, s\<lparr>lv_receipts := lv_receipts s @ [res]\<rparr>)"

definition live_write ::
  "unicode \<Rightarrow> 'r live_transport \<Rightarrow> transport_operation \<Rightarrow> payload_error + prepared_write
    \<Rightarrow> ('r, transport_result) live_act" where
  "live_write u lt op request =
     (case request of
        Inl _ \<Rightarrow> sraise (Reraised OtherExn)
      | Inr w \<Rightarrow>
          sbind (over_c03 (c03_execute u (lt_c03 lt) w (lt_timeout lt))) (\<lambda>receipt.
          add_receipt (organization_result op (rc_status receipt))))"

definition live_move ::
  "unicode \<Rightarrow> 'r live_transport \<Rightarrow> pystr \<Rightarrow> pystr \<Rightarrow> ('r, transport_result) live_act" where
  "live_move u lt object_id target_parent =
     sbind (live_intent u lt object_id) (\<lambda>i.
     if target_parent \<noteq> oi_target_parent_id i then sraise (TransportError ''scope_unverified'')
     else live_write u lt TRANSPORT_MOVE (prepare_move (AnyStr object_id) (AnyStr target_parent)))"

definition live_rename ::
  "unicode \<Rightarrow> 'r live_transport \<Rightarrow> pystr \<Rightarrow> pystr \<Rightarrow> ('r, transport_result) live_act" where
  "live_rename u lt object_id target_name =
     sbind (live_intent u lt object_id) (\<lambda>i.
     if target_name \<noteq> oi_target_name i then sraise (TransportError ''scope_unverified'')
     else live_write u lt TRANSPORT_RENAME (prepare_rename (AnyStr object_id) (AnyStr target_name)))"

definition live_seam :: "unicode \<Rightarrow> 'r live_transport \<Rightarrow> 'r live transport" where
  "live_seam u lt =
     \<lparr>t_read_object = (\<lambda>oid. at_seam (live_read_object u lt oid)),
      t_read_target = (\<lambda>p n. at_seam (live_read_target u lt p n)),
      t_move = (\<lambda>oid p. at_seam (live_move u lt oid p)),
      t_rename = (\<lambda>oid n. at_seam (live_rename u lt oid n))\<rparr>"

end
