(* ===== verification/Org_Worker.thy ===== *)
theory Org_Worker
  imports Plan_Loader Live_Transport
begin

text \<open>
  \<^verbatim>\<open>services/organization_worker.py\<close>: the worker claims the oldest approved operation, checks
  that its plan lies in the production root, builds the live transport from the plan's members
  and hands over to the executor.  It is a coroutine like the executor and uses the same state
  and environment.  Credentials and client construction (\<open>_cookie_provider\<close>,
  \<open>_client_factory\<close>) are parameters.
\<close>

section \<open>Worker\<close>

text \<open>
  \<open>ow_exec\<close> holds the surroundings; its transport and limits are replaced per run.  At a tick,
  \<open>ow_cookie\<close> loads the cookie, \<open>ow_factory\<close> makes a client, \<open>ow_token\<close> is the lease token
  drawn, \<open>ow_interf\<close> what other sessions commit between two statements of a claim.
  \<open>ow_close_awaits\<close> says whether closing the client suspends.
\<close>

record 'r org_worker =
  ow_root :: pystr
  ow_exec :: "'r live exec_config"
  ow_cookie :: "nat \<Rightarrow> base_exception + pystr"
  ow_factory :: "nat \<Rightarrow> pystr \<Rightarrow> base_exception + 'r provider"
  ow_token :: "nat \<Rightarrow> pystr"
  ow_interf :: "nat \<Rightarrow> bool \<Rightarrow> store \<Rightarrow> store"
  ow_close_awaits :: bool

text \<open>The checks of the constructor; \<open>Some\<close> is its \<open>ValueError\<close>.\<close>

definition worker_refused :: "unicode \<Rightarrow> pystr \<Rightarrow> bool \<Rightarrow> int \<Rightarrow> string option" where
  "worker_refused u production_root_id live_enabled poll_interval =
     (if \<not> stable_id u production_root_id then Some ''invalid_production_root_id''
      else if \<not> live_enabled then Some ''organization_worker_requires_explicit_enablement''
      else if poll_interval \<le> 0 then Some ''invalid_poll_interval''
      else None)"

definition max_transport_calls :: int where
  "max_transport_calls = 128"

definition min_call_interval :: int where
  "min_call_interval = 250000"

definition transport_timeout :: int where
  "transport_timeout = 30000000"

definition execution_config :: "'r org_worker \<Rightarrow> 'r live_transport \<Rightarrow> 'r live exec_config" where
  "execution_config w lt =
     (ow_exec w)\<lparr>xc_transport := live_seam (xc_unicode (ow_exec w)) lt,
       xc_max_calls := max_transport_calls, xc_min_interval := min_call_interval,
       xc_cancel_event := True, xc_now := None\<rparr>"

section \<open>Reading the plan again\<close>

definition find_operation :: "'r exec_config \<Rightarrow> pystr \<Rightarrow> ('r, op_row option) exec" where
  "find_operation cfg oid = service cfg (\<lambda>_ _ st. (Inr (get_op oid st), st))"

definition load_execution_steps :: "'r exec_config \<Rightarrow> pystr \<Rightarrow> ('r, exec_step list option) exec" where
  "load_execution_steps cfg oid =
     sbind (find_operation cfg oid) (\<lambda>operation.
     case operation of None \<Rightarrow> sret None | Some r \<Rightarrow> load_steps cfg (op_plan_id r))"

text \<open>A frozen set of directories is a list without repetitions.\<close>

definition plan_execution_scope :: "'r exec_config \<Rightarrow> pystr \<Rightarrow> ('r, pystr list option) exec" where
  "plan_execution_scope cfg oid =
     sbind (find_operation cfg oid) (\<lambda>operation.
     case operation of
       None \<Rightarrow> sret None
     | Some r \<Rightarrow>
         sbind (load_steps cfg (op_plan_id r)) (\<lambda>steps.
         sret (case steps of
                 None \<Rightarrow> None
               | Some [] \<Rightarrow> None
               | Some sts \<Rightarrow> Some (remdups (concat (map es_scope_directory_ids sts))))))"

section \<open>One pass\<close>

definition member_intent :: "exec_member \<Rightarrow> object_intent" where
  "member_intent m =
     \<lparr>oi_object_id = em_object_id m, oi_source_parent_id = em_source_parent_id m,
      oi_source_name = em_source_name m, oi_target_parent_id = em_target_parent_id m,
      oi_target_name = em_target_name m\<rparr>"

definition plan_intents :: "exec_step list \<Rightarrow> object_intent list" where
  "plan_intents sts = map member_intent (concat (map es_members sts))"

text \<open>\<open>except Exception\<close>: everything but the cancellation of the task.\<close>

definition swallow :: "('r, unit) exec \<Rightarrow> ('r, unit) exec" where
  "swallow m = scatch m (\<lambda>e. if e = TaskCancelled then sraise e else sret ())"

definition record_uncertain :: "'r exec_config \<Rightarrow> op_lease \<Rightarrow> ('r, unit) exec" where
  "record_uncertain cfg l =
     swallow (sbind (service cfg (\<lambda>clk _. finish_after_lease_loss clk (lease_operation_id l)
                (lease_revision l) (lease_token l) None)) (\<lambda>_. sret ()))"

definition finish_failed :: "'r exec_config \<Rightarrow> op_lease \<Rightarrow> string \<Rightarrow> ('r, bool) exec" where
  "finish_failed cfg l err =
     sbind
       (scatch
          (sbind (service cfg (\<lambda>clk n. finish_operation (xc_ids cfg n) clk (lease_operation_id l)
             (lease_revision l) (lease_token l) OP_FAILED (Some err) None None None)) (\<lambda>_. sret ()))
          (\<lambda>e. if e = TaskCancelled then sraise e else record_uncertain cfg l))
       (\<lambda>_. sret True)"

definition raised_in_thread :: "base_exception \<Rightarrow> ('r, 'a option) exec" where
  "raised_in_thread e = (if e = CancelledError then sraise TaskCancelled else sret None)"

definition build_client :: "'r org_worker \<Rightarrow> ('r live, 'r provider option) exec" where
  "build_client w =
     sbind (await (ow_exec w)) (\<lambda>_.
     sbind sget (\<lambda>s.
     case ow_cookie w (xs_tick s) of
       Inl e \<Rightarrow> raised_in_thread e
     | Inr cookie \<Rightarrow>
         if cookie = [] then sret None
         else
           sbind (await (ow_exec w)) (\<lambda>_.
           sbind sget (\<lambda>s'.
           case ow_factory w (xs_tick s') cookie of
             Inl e \<Rightarrow> raised_in_thread e
           | Inr pv \<Rightarrow> sret (Some pv)))))"

definition close_client :: "'r org_worker \<Rightarrow> ('r live, unit) exec" where
  "close_client w = (if ow_close_awaits w then await (ow_exec w) else sret ())"

text \<open>\<open>try .. finally\<close>\<close>

definition sfinally :: "('s, 'e, 'a) act \<Rightarrow> ('s, 'e, unit) act \<Rightarrow> ('s, 'e, 'a) act" where
  "sfinally m f s =
     (case m s of
        (out, s1) \<Rightarrow> (case f s1 of (Inl e, s2) \<Rightarrow> (Inl e, s2) | (Inr _, s2) \<Rightarrow> (out, s2)))"

text \<open>A transport starts without receipts.\<close>

definition fresh_receipts :: "('r live, unit) exec" where
  "fresh_receipts s =
     (Inr (), s\<lparr>xs_world := (xs_world s)\<lparr>wd_remote := (wd_remote (xs_world s))\<lparr>lv_receipts := []\<rparr>\<rparr>\<rparr>)"

definition run_execution ::
  "'r org_worker \<Rightarrow> op_lease \<Rightarrow> pystr list \<Rightarrow> object_intent list \<Rightarrow> 'r provider \<Rightarrow> ('r live, unit) exec" where
  "run_execution w l scope intents pv =
     (case make_live (xc_unicode (ow_exec w)) pv intents scope True transport_timeout True of
        Inl err \<Rightarrow> sraise (ServiceExn (ValueErr err))
      | Inr lt \<Rightarrow>
          sbind fresh_receipts (\<lambda>_.
          sbind (execute (execution_config w lt) (lease_operation_id l) (lease_revision l)
                   (lease_token l)) (\<lambda>_. sret ())))"

definition execute_claimed ::
  "'r org_worker \<Rightarrow> op_lease \<Rightarrow> pystr list \<Rightarrow> object_intent list \<Rightarrow> 'r provider \<Rightarrow> ('r live, bool) exec" where
  "execute_claimed w l scope intents pv =
     sfinally
       (sbind
          (scatch (run_execution w l scope intents pv)
             (\<lambda>e. case e of
                 TaskCancelled \<Rightarrow> sraise e
               | ServiceExn (StateError _) \<Rightarrow> sret ()
               | _ \<Rightarrow> record_uncertain (ow_exec w) l))
          (\<lambda>_. sret True))
       (close_client w)"

definition run_claimed :: "'r org_worker \<Rightarrow> op_lease \<Rightarrow> ('r live, bool) exec" where
  "run_claimed w l =
     sbind (plan_execution_scope (ow_exec w) (lease_operation_id l)) (\<lambda>scope.
     case scope of
       None \<Rightarrow> finish_failed (ow_exec w) l ''plan_prerequisites_changed''
     | Some dirs \<Rightarrow>
         if ow_root w \<notin> set dirs
           then finish_failed (ow_exec w) l ''plan_prerequisites_changed''
         else
           sbind (load_execution_steps (ow_exec w) (lease_operation_id l)) (\<lambda>steps.
           case steps of
             None \<Rightarrow> finish_failed (ow_exec w) l ''plan_prerequisites_changed''
           | Some sts \<Rightarrow>
               if sts = [] then finish_failed (ow_exec w) l ''plan_prerequisites_changed''
               else if \<not> list_all (object_intent_ok (xc_unicode (ow_exec w))) (plan_intents sts)
                 then sraise (ServiceExn (ValueErr ''invalid_organization_intent''))
               else if \<not> distinct (map oi_object_id (plan_intents sts))
                 then finish_failed (ow_exec w) l ''plan_prerequisites_changed''
               else
                 sbind (build_client w) (\<lambda>client.
                 case client of
                   None \<Rightarrow> finish_failed (ow_exec w) l ''remote_write_failed''
                 | Some pv \<Rightarrow> execute_claimed w l dirs (plan_intents sts) pv)))"

definition claim_oldest :: "'r org_worker \<Rightarrow> ('r live, op_lease option) exec" where
  "claim_oldest w =
     service (ow_exec w) (\<lambda>clk n. claim_next (ow_interf w n False) (ow_interf w n True) clk
       (ow_token w n) default_lease_duration None)"

definition org_run_once :: "'r org_worker \<Rightarrow> ('r live, bool) exec" where
  "org_run_once w =
     sbind (claim_oldest w) (\<lambda>lease.
     case lease of None \<Rightarrow> sret False | Some l \<Rightarrow> run_claimed w l)"

section \<open>The loop\<close>

text \<open>
  \<open>run_forever\<close>, at most \<open>fuel\<close> rounds; the result says whether the stop event ended it.
  \<open>stop\<close> reads the stop event, which is not the event the executor is given.  Waiting for it
  with a timeout is one await.
\<close>

fun org_run_forever :: "nat \<Rightarrow> ('r live world \<Rightarrow> bool) \<Rightarrow> 'r org_worker \<Rightarrow> ('r live, bool) exec" where
  "org_run_forever 0 stop w = sret False"
| "org_run_forever (Suc fuel) stop w =
     sbind sget (\<lambda>s.
     if stop (xs_world s) then sret True
     else
       sbind
         (scatch (org_run_once w) (\<lambda>e. if e = TaskCancelled then sraise e else sret True))
         (\<lambda>claimed.
           if claimed then org_run_forever fuel stop w
           else sbind (await (ow_exec w)) (\<lambda>_. org_run_forever fuel stop w)))"

end
