(* ===== verification/Plan_Loader_Props.thy ===== *)
theory Plan_Loader_Props
  imports Plan_Loader
begin

text \<open>
  What the loader guarantees: the steps it returns describe files of the latest complete scan,
  no object twice, inside directories the scan knows; it is at least as strict as the
  check of the operation service; and the digest a user confirms fixes the steps.
\<close>

section \<open>Parsing\<close>

lemma parse_members_distinct:
  assumes "parse_members u seen js = Some (ms, seen')"
  shows "distinct (map member_key ms) \<and> member_key ` set ms \<inter> set seen = {}
    \<and> set seen' = set seen \<union> member_key ` set ms"
  using assms
proof (induction u seen js arbitrary: ms seen' rule: parse_members.induct)
  case (1 u seen)
  then show ?case by simp
next
  case (2 u seen j js)
  from "2.prems" obtain m ms0 where m: "parse_member u j = Some m" "member_key m \<notin> set seen"
    and rest: "parse_members u (member_key m # seen) js = Some (ms0, seen')" and ms: "ms = m # ms0"
    by (auto split: option.splits if_splits)
  from "2.IH"[OF m rest] m(2) show ?case by (auto simp: ms)
qed

lemma parse_action_Some:
  assumes "parse_action u n seen a = Some (st, seen')"
  obtains js where "parse_members u seen js = Some (es_members st, seen')" "es_members st \<noteq> []"
    "es_order st = n" "member_parents (es_members st) \<subseteq> set (es_scope_directory_ids st)"
proof -
  from assms obtain j js scope where "parse_members u seen (j # js) = Some (es_members st, seen')"
    "es_members st \<noteq> []" "es_order st = n" "member_parents (es_members st) \<subseteq> set scope"
    "es_scope_directory_ids st = scope"
    by (auto simp: parse_action_def Let_def simp del: parse_members.simps
        split: if_splits option.splits list.splits prod.splits)
  with that show thesis by blast
qed

lemma parse_actions_distinct:
  assumes "parse_actions u n seen as = Some sts"
  shows "distinct (map member_key (concat (map es_members sts)))
    \<and> member_key ` set (concat (map es_members sts)) \<inter> set seen = {}
    \<and> map es_order sts = map (\<lambda>i. n + int i) [0..<length as]"
  using assms
proof (induction u n seen as arbitrary: sts rule: parse_actions.induct)
  case (1 u n seen)
  then show ?case by simp
next
  case (2 u n seen a as)
  from "2.prems" obtain st seen' sts0 where st: "parse_action u n seen a = Some (st, seen')"
    and rest: "parse_actions u (n + 1) seen' as = Some sts0" and sts: "sts = st # sts0"
    by (auto split: option.splits prod.splits)
  obtain js where js: "parse_members u seen js = Some (es_members st, seen')" and o: "es_order st = n"
    by (rule parse_action_Some[OF st])
  note m = parse_members_distinct[OF js]
  note ih = "2.IH"[OF st refl rest]
  have "map (\<lambda>i. n + int i) [0..<length (a # as)] = n # map (\<lambda>i. n + 1 + int i) [0..<length as]"
    by (simp add: upt_conv_Cons map_Suc_upt[symmetric] comp_def del: upt_Suc)
  moreover have "member_key ` set (es_members st) \<inter> member_key ` set (concat (map es_members sts0)) = {}"
    "member_key ` set (concat (map es_members sts0)) \<inter> set seen = {}"
    using m ih by blast+
  ultimately show ?case using m ih o by (simp add: sts Int_Un_distrib2 image_Un del: set_concat)
qed

section \<open>Validation\<close>

lemma actions_ok_step:
  assumes "actions_ok p rt rows source n as pres sts" and "st \<in> set sts"
  shows "\<exists>k a pre. action_ok p rt rows source k a pre st"
  using assms
  by (induction p rt rows source n as pres sts rule: actions_ok.induct) auto

lemma find_entry_Some:
  "find_entry k rows = Some e \<Longrightarrow> e \<in> set rows \<and> (se_object_type e, se_object_id e) = k"
  unfolding find_entry_def by (drule row_of_Some) (simp add: entry_key_def)

text \<open>A member as the scan has it: a file at the planned source.\<close>

definition scanned_file :: "scan_entry list \<Rightarrow> exec_member \<Rightarrow> bool" where
  "scanned_file rows m \<longleftrightarrow>
     (\<exists>e \<in> set rows. se_object_type e = em_object_type m \<and> se_object_id e = em_object_id m
        \<and> \<not> se_is_directory e \<and> se_parent_id e = Some (em_source_parent_id m)
        \<and> se_path e = Some (em_source_path m) \<and> se_name e = em_source_name m)"

definition step_within :: "pystr \<Rightarrow> scan_entry list \<Rightarrow> exec_step \<Rightarrow> bool" where
  "step_within rt rows st \<longleftrightarrow>
     es_members st \<noteq> []
     \<and> (\<forall>m \<in> set (es_members st). scanned_file rows m \<and> valid_target_name (em_target_name m)
          \<and> managed_directory rt rows (em_source_parent_id m)
          \<and> managed_directory rt rows (em_target_parent_id m))
     \<and> set (es_scope_directory_ids st) = insert rt (member_parents (es_members st))"

lemma member_in_scan_file:
  "member_in_scan rt rows tp m \<Longrightarrow> scanned_file rows m \<and> valid_target_name (em_target_name m)
    \<and> em_target_parent_id m = tp"
  by (auto simp: member_in_scan_def scanned_file_def member_key_def split: option.splits
      dest!: find_entry_Some)

lemma validate_step_within:
  assumes "validate_persisted_step rt rows action st snapshot"
  shows "step_within rt rows st"
proof -
  from assms obtain m ms where m: "es_members st = m # ms"
    and scan: "\<forall>x \<in> set (m # ms). member_in_scan rt rows (em_target_parent_id m) x"
    and scope: "set (es_scope_directory_ids st) = insert rt (member_parents (m # ms))"
    and managed: "\<forall>d \<in> set (es_scope_directory_ids st). managed_directory rt rows d"
    by (auto simp: validate_persisted_step_def list_all_iff split: option.splits list.splits)
  have dirs: "managed_directory rt rows (em_source_parent_id x)
      \<and> managed_directory rt rows (em_target_parent_id x)" if "x \<in> set (m # ms)" for x
  proof -
    have "em_source_parent_id x \<in> set (es_scope_directory_ids st)"
      "em_target_parent_id x \<in> set (es_scope_directory_ids st)"
      using that unfolding scope member_parents_def by blast+
    with managed show ?thesis by blast
  qed
  have "scanned_file rows x \<and> valid_target_name (em_target_name x)" if "x \<in> set (m # ms)" for x
    using scan that member_in_scan_file by blast
  with dirs scope show ?thesis
    unfolding step_within_def m by simp
qed

lemma load_Some:
  assumes "load_executable_steps u dg s clk pid = Some sts"
  obtains p lib run source items where
    "get_plan pid s = Some p" "plan_status p = PLAN_PLANNED"
    "plan_context s clk p = Some (lib, run)"
    "parse_executable_steps u p = Some sts"
    "load_source_snapshot u (plan_source_snapshot p) = Some source"
    "json_matches_library (jget (load_json_object (plan_preconditions p)) ''library'') lib"
    "validate_persisted_execution p lib run source (load_json_list (plan_actions p)) items sts
       (scan_rows (run_id run) s)"
    "plan_hash p = dg (canonical_plan p lib source)"
  using assms
  by (auto simp: load_executable_steps_def Let_def split: if_splits option.splits prod.splits)

lemma plan_context_Some:
  assumes "plan_context s clk p = Some (lib, run)"
  shows "row_of lib_id (plan_library_id p) (libraries s) = Some lib"
    and "row_of run_id (plan_source_scan_run_id p) (runs s) = Some run"
    and "lib_enabled lib" "lib_scope_verified lib" "run_library_id run = plan_library_id p"
    and "run_root_directory_id run = lib_root_directory_id lib"
    and "run_state run = SCAN_COMPLETED" "run_complete run"
    and "run_snapshot_revision run = Some (plan_source_snapshot_revision p)"
    and "clk < plan_expires_at p" and "map_option run_id (latest_run lib s) = Some (run_id run)"
  using assms by (auto simp: plan_context_def split: option.splits if_splits)

lemma load_json_object_cases [case_names obj other]:
  obtains kvs where "v = Some (JObj kvs)" | "load_json_object v = JObj []" "\<And>kvs. v \<noteq> Some (JObj kvs)"
proof (cases "\<exists>kvs. v = Some (JObj kvs)")
  case False
  then have "load_json_object v = JObj []"
    by (simp add: load_json_object_def split: option.splits json.splits)
  with False that show thesis by blast
qed (use that in blast)

lemma load_steps_nonempty:
  assumes "parse_executable_steps u p = Some sts"
  shows "sts \<noteq> []"
  using assms
  by (auto simp: parse_executable_steps_def neq_Nil_conv split: if_splits option.splits prod.splits)

text \<open>The canonical value whose digest the loader compares with the stored one.\<close>

definition loaded_canonical :: "unicode \<Rightarrow> store \<Rightarrow> time \<Rightarrow> plan_row \<Rightarrow> json option" where
  "loaded_canonical u s clk p =
     (case (plan_context s clk p, load_source_snapshot u (plan_source_snapshot p)) of
        (Some (lib, run), Some source) \<Rightarrow> Some (canonical_plan p lib source)
      | _ \<Rightarrow> None)"

lemma load_canonical:
  assumes "load_executable_steps u dg s clk pid = Some sts" and "get_plan pid s = Some p"
  obtains c where "loaded_canonical u s clk p = Some c" "plan_hash p = dg c"
    "parse_executable_steps u p = Some sts"
proof -
  from load_Some[OF assms(1)] assms(2) obtain lib run source where
    "plan_context s clk p = Some (lib, run)" "load_source_snapshot u (plan_source_snapshot p) = Some source"
    "plan_hash p = dg (canonical_plan p lib source)" "parse_executable_steps u p = Some sts"
    by (metis option.inject)
  then show thesis
    by (intro that[of "canonical_plan p lib source"]) (simp_all add: loaded_canonical_def)
qed

lemma loaded_canonical_actions:
  "loaded_canonical u s clk p = Some c \<Longrightarrow> loaded_canonical u s' clk' p' = Some c
    \<Longrightarrow> load_json_list (plan_actions p) = load_json_list (plan_actions p')"
  by (auto simp: loaded_canonical_def canonical_plan_def split: option.splits)

text \<open>Operations and events are no part of what the loader reads.\<close>

lemma read_frame [simp]:
  "get_plan pid (s\<lparr>ops := x, events := y\<rparr>) = get_plan pid s"
  "scan_rows rid (s\<lparr>ops := x, events := y\<rparr>) = scan_rows rid s"
  "plan_context (s\<lparr>ops := x, events := y\<rparr>) clk p = plan_context s clk p"
proof -
  have "latest_run lib (s\<lparr>ops := x, events := y\<rparr>) = latest_run lib s" for lib
    by (simp add: latest_run_def)
  then show "plan_context (s\<lparr>ops := x, events := y\<rparr>) clk p = plan_context s clk p"
    by (simp add: plan_context_def split: option.split)
qed (simp_all add: get_plan_def scan_rows_def)

text \<open>Two states of the database with the same libraries, scan runs and scan entries.\<close>

definition same_scan :: "store \<Rightarrow> store \<Rightarrow> bool" where
  "same_scan s s' \<longleftrightarrow>
     libraries s' = libraries s \<and> runs s' = runs s \<and> scan_entries s' = scan_entries s"

lemma same_scan_trans: "same_scan a b \<Longrightarrow> same_scan b c \<Longrightarrow> same_scan a c"
  by (simp add: same_scan_def)

lemma same_scan_context: "same_scan s s' \<Longrightarrow> plan_context s' clk p = plan_context s clk p"
proof -
  assume "same_scan s s'"
  then have "latest_run lib s' = latest_run lib s" for lib by (simp add: same_scan_def latest_run_def)
  with \<open>same_scan s s'\<close> show ?thesis by (simp add: same_scan_def plan_context_def split: option.split)
qed

lemma load_frame:
  "load_executable_steps u dg (s\<lparr>ops := x, events := y\<rparr>) clk pid = load_executable_steps u dg s clk pid"
  by (simp only: load_executable_steps_def read_frame)

lemma loaded_context:
  assumes "load_executable_steps u dg s clk pid = Some sts"
  obtains p lib run where "get_plan pid s = Some p" "plan_status p = PLAN_PLANNED"
    "plan_context s clk p = Some (lib, run)" "run_id run = plan_source_scan_run_id p" "sts \<noteq> []"
    "\<And>st. st \<in> set sts \<Longrightarrow> step_within (lib_root_directory_id lib) (scan_rows (run_id run) s) st"
proof -
  from load_Some[OF assms] obtain p lib run source items where
    p: "get_plan pid s = Some p" "plan_status p = PLAN_PLANNED"
    and ctx: "plan_context s clk p = Some (lib, run)"
    and parsed: "parse_executable_steps u p = Some sts"
    and v: "validate_persisted_execution p lib run source (load_json_list (plan_actions p)) items sts
       (scan_rows (run_id run) s)" by metis
  have rid: "run_id run = plan_source_scan_run_id p"
    using row_of_Some[OF plan_context_Some(2)[OF ctx]] by simp
  have within: "step_within (lib_root_directory_id lib) (scan_rows (run_id run) s) st" if "st \<in> set sts" for st
  proof -
    have "actions_ok p (lib_root_directory_id lib) (scan_rows (run_id run) s) source 0
        (load_json_list (plan_actions p)) items sts"
      using v by (simp add: validate_persisted_execution_def)
    from actions_ok_step[OF this that] obtain a snapshot where
      "validate_persisted_step (lib_root_directory_id lib) (scan_rows (run_id run) s) a st snapshot"
      by (auto simp: action_ok_def split: option.splits)
    then show ?thesis by (rule validate_step_within)
  qed
  from that[OF p ctx rid load_steps_nonempty[OF parsed] within] show thesis by blast
qed

section \<open>Properties\<close>

text \<open>
  C11. The loader only returns steps the current scan supports: the plan is planned and has not
  expired, its library is enabled and verified, its scan is the latest complete one of that
  root, and every member of every step is a file of that scan at its planned source, going to
  a plain name in a directory the scan knows.
\<close>

theorem loaded_steps_scanned:
  assumes "load_executable_steps u dg s clk pid = Some sts"
  shows "sts \<noteq> [] \<and> (\<exists>p lib run. get_plan pid s = Some p \<and> plan_status p = PLAN_PLANNED
    \<and> clk < plan_expires_at p
    \<and> row_of lib_id (plan_library_id p) (libraries s) = Some lib \<and> lib_enabled lib
    \<and> lib_scope_verified lib
    \<and> map_option run_id (latest_run lib s) = Some (plan_source_scan_run_id p)
    \<and> (\<forall>st \<in> set sts. step_within (lib_root_directory_id lib)
          (scan_rows (plan_source_scan_run_id p) s) st))"
proof -
  from loaded_context[OF assms] obtain p lib run where
    p: "get_plan pid s = Some p" "plan_status p = PLAN_PLANNED" "sts \<noteq> []"
    and ctx: "plan_context s clk p = Some (lib, run)"
    and within: "run_id run = plan_source_scan_run_id p"
      "\<And>st. st \<in> set sts \<Longrightarrow> step_within (lib_root_directory_id lib) (scan_rows (run_id run) s) st"
    by metis
  with plan_context_Some[OF ctx] show ?thesis by auto
qed

text \<open>
  No object is planned twice, and the steps come in the order of the plan: over all steps the
  members are distinct and the order numbers count from zero.
\<close>

theorem loaded_members_distinct:
  assumes "load_executable_steps u dg s clk pid = Some sts"
  shows "distinct (map member_key (concat (map es_members sts)))
    \<and> map es_order sts = map int [0..<length sts]"
proof -
  from load_Some[OF assms] obtain p where "parse_executable_steps u p = Some sts" by metis
  then have "parse_actions u 0 [] (load_json_list (plan_actions p)) = Some sts"
    by (simp add: parse_executable_steps_def split: if_splits)
  note d = parse_actions_distinct[OF this]
  have "length sts = length (load_json_list (plan_actions p))"
    using arg_cong[OF conjunct2[OF conjunct2[OF d]], of length] by simp
  with d show ?thesis by simp
qed

text \<open>
  The loader is at least as strict as the operation service: a plan whose steps load passes
  the check under which the service creates and claims operations.
\<close>

theorem loaded_plan_is_current:
  assumes "load_executable_steps u dg s clk pid = Some sts"
  shows "\<exists>p. get_plan pid s = Some p \<and> plan_status p = PLAN_PLANNED \<and> plan_is_current clk s p"
proof -
  from load_Some[OF assms] obtain p lib run where
    p: "get_plan pid s = Some p" "plan_status p = PLAN_PLANNED"
    and ctx: "plan_context s clk p = Some (lib, run)"
    and lib: "json_matches_library (jget (load_json_object (plan_preconditions p)) ''library'') lib"
    by metis
  note c = plan_context_Some[OF ctx]
  have null: "\<not> json_matches_library JNull lib" by (simp add: json_matches_library_def)
  have "plan_library_snapshot_matches p lib"
    using lib null
    by (cases "plan_preconditions p" rule: load_json_object_cases)
       (auto simp: plan_library_snapshot_matches_def load_json_object_def jget_def split: option.splits)
  then have "plan_is_current clk s p" using c by (simp add: plan_is_current_def)
  with p show ?thesis by blast
qed

text \<open>
  The digest a user confirms fixes what is executed: unless the hash collides on the two
  values compared, two plans with the same stored digest that both load, in whatever state of
  the database and at whatever time, load the same steps.
\<close>

theorem digest_fixes_steps:
  assumes "load_executable_steps u dg s clk pid = Some sts" and "get_plan pid s = Some p"
    and "load_executable_steps u dg s' clk' pid' = Some sts'" and "get_plan pid' s' = Some p'"
    and "plan_hash p = plan_hash p'"
    and "\<And>a b. loaded_canonical u s clk p = Some a \<Longrightarrow> loaded_canonical u s' clk' p' = Some b
      \<Longrightarrow> dg a = dg b \<Longrightarrow> a = b"
  shows "sts = sts'"
proof -
  obtain c where a: "loaded_canonical u s clk p = Some c" "plan_hash p = dg c"
    "parse_executable_steps u p = Some sts" by (rule load_canonical[OF assms(1,2)])
  obtain c' where b: "loaded_canonical u s' clk' p' = Some c'" "plan_hash p' = dg c'"
    "parse_executable_steps u p' = Some sts'" by (rule load_canonical[OF assms(3,4)])
  have "c = c'" using assms(5,6) a(1,2) b(1,2) by simp
  with a(1) b(1) have "load_json_list (plan_actions p) = load_json_list (plan_actions p')"
    by (blast intro: loaded_canonical_actions)
  with a(3) b(3) show ?thesis
    by (simp add: parse_executable_steps_def split: if_splits)
qed

end
