(* ===== verification/Live_Calls.thy ===== *)
theory Live_Calls
  imports Live_Transport Executor_Plan
begin

text \<open>
  Which calls the live transport makes.  \<open>appends\<close> bounds what a handler adds to a log; it
  composes along the monad, so a bound for a whole transport call is the sum of the bounds of
  its parts.  The locale \<open>call_log\<close> states what a log of the client's calls is; it holds for
  every provider with a recorder in front.
\<close>

section \<open>Bounds on what is appended\<close>

definition appends :: "('s \<Rightarrow> 'c list) \<Rightarrow> nat \<Rightarrow> ('c \<Rightarrow> bool) \<Rightarrow> ('s, 'e, 'a) act \<Rightarrow> bool" where
  "appends lg k P m \<longleftrightarrow>
     (\<forall>s. \<exists>cs. lg (snd (m s)) = lg s @ cs \<and> length cs \<le> k \<and> (\<forall>c \<in> set cs. P c))"

lemma appends_mono: "appends lg j Q m \<Longrightarrow> j \<le> k \<Longrightarrow> (\<And>c. Q c \<Longrightarrow> P c) \<Longrightarrow> appends lg k P m"
  unfolding appends_def by (meson order_trans)

lemma appends_basic:
  "appends lg k P (sret x)" "appends lg k P (sraise e)" "appends lg k P (scheck v)"
  "appends lg k P sget"
  by (simp_all add: appends_def monad_defs)

lemma appends_seq:
  assumes "appends lg j P m" and "\<And>x. appends lg k P (f x)"
  shows "\<exists>cs. lg (snd (f x (snd (m s)))) = lg s @ cs \<and> length cs \<le> j + k \<and> (\<forall>c \<in> set cs. P c)"
proof -
  obtain as where as: "lg (snd (m s)) = lg s @ as" "length as \<le> j" "\<forall>c \<in> set as. P c"
    using assms(1) by (auto simp: appends_def)
  obtain bs where bs: "lg (snd (f x (snd (m s)))) = lg (snd (m s)) @ bs" "length bs \<le> k"
    "\<forall>c \<in> set bs. P c" using assms(2)[of x] by (auto simp: appends_def)
  show ?thesis by (rule exI[of _ "as @ bs"]) (use as bs in auto)
qed

lemma appends_here:
  assumes "appends lg j P m"
  shows "\<exists>cs. lg (snd (m s)) = lg s @ cs \<and> length cs \<le> j + k \<and> (\<forall>c \<in> set cs. P c)"
  using assms unfolding appends_def by (meson trans_le_add1)

lemma appends_bind:
  assumes "appends lg j P m" and "\<And>x. appends lg k P (f x)"
  shows "appends lg (j + k) P (sbind m f)"
  unfolding appends_def
proof
  fix s
  show "\<exists>cs. lg (snd (sbind m f s)) = lg s @ cs \<and> length cs \<le> j + k \<and> (\<forall>c \<in> set cs. P c)"
  proof (cases "m s")
    case (Pair out s')
    with appends_seq[OF assms, where s = s] appends_here[OF assms(1), of s k] show ?thesis
      by (cases out) (simp_all add: sbind_def)
  qed
qed

lemma appends_catch:
  assumes "appends lg j P m" and "\<And>e. appends lg k P (h e)"
  shows "appends lg (j + k) P (scatch m h)"
  unfolding appends_def
proof
  fix s
  show "\<exists>cs. lg (snd (scatch m h s)) = lg s @ cs \<and> length cs \<le> j + k \<and> (\<forall>c \<in> set cs. P c)"
  proof (cases "m s")
    case (Pair out s')
    with appends_seq[OF assms, where s = s] appends_here[OF assms(1), of s k] show ?thesis
      by (cases out) (simp_all add: scatch_def)
  qed
qed

lemma appends_if: "appends lg k P m \<Longrightarrow> appends lg k P n \<Longrightarrow> appends lg k P (if b then m else n)"
  by simp

lemma appends_option:
  "appends lg k P m \<Longrightarrow> (\<And>x. appends lg k P (f x)) \<Longrightarrow> appends lg k P (case v of None \<Rightarrow> m | Some x \<Rightarrow> f x)"
  by (simp split: option.split)

lemma appends_pair: "(\<And>x y. appends lg k P (f x y)) \<Longrightarrow> appends lg k P (case v of (x, y) \<Rightarrow> f x y)"
  by (simp split: prod.split)

text \<open>The forms with a prescribed bound.\<close>

lemma appends_bind_le:
  "appends lg j P m \<Longrightarrow> (\<And>x. appends lg k P (f x)) \<Longrightarrow> j + k \<le> n \<Longrightarrow> appends lg n P (sbind m f)"
  by (rule appends_mono[OF appends_bind])

lemma appends_catch_le:
  "appends lg j P m \<Longrightarrow> (\<And>e. appends lg k P (h e)) \<Longrightarrow> j + k \<le> n \<Longrightarrow> appends lg n P (scatch m h)"
  by (rule appends_mono[OF appends_catch])

lemma appends_free_bind:
  "appends lg 0 P m \<Longrightarrow> (\<And>x. appends lg k P (f x)) \<Longrightarrow> appends lg k P (sbind m f)"
  by (rule appends_bind_le[where j = 0 and k = k]) simp_all

lemmas appends_cases = appends_basic appends_if appends_option appends_pair

section \<open>A log of the client's calls\<close>

type_synonym client_call = "client_method \<times> payload"

definition one_of :: "client_method \<Rightarrow> client_method option \<Rightarrow> payload \<Rightarrow> client_call \<Rightarrow> bool" where
  "one_of primary fallback p c \<longleftrightarrow> snd c = p \<and> (fst c = primary \<or> fallback = Some (fst c))"

definition lists_dir :: "pystr \<Rightarrow> client_call \<Rightarrow> bool" where
  "lists_dir parent c \<longleftrightarrow>
     fst c \<in> {FS_FILES, FS_FILES_APP} \<and> (\<exists>offset. snd c = files_payload parent offset)"

text \<open>What the client is asked to do for a write of the transport.\<close>

fun provider_write :: "transport_call \<Rightarrow> client_call option" where
  "provider_write (Move oid parent) =
     Some (FS_MOVE, [(lit ''fid'', JStr oid), (lit ''pid'', JStr parent)])"
| "provider_write (Rename oid name) =
     Some (FS_RENAME, [(lit ''files_new_name['' @ oid @ lit '']'', JStr name)])"
| "provider_write _ = None"

lemma prepare_move_Inr:
  "prepare_move (AnyStr oid) (AnyStr parent) = Inr w \<Longrightarrow>
     write_method (pw_operation w) = Some FS_MOVE
     \<and> client_payload w = Some [(lit ''fid'', JStr oid), (lit ''pid'', JStr parent)]"
  by (auto simp: prepare_move_def rbind_def client_payload_def payload_text_def split: if_splits)

lemma prepare_rename_Inr:
  "prepare_rename (AnyStr oid) (AnyStr name) = Inr w \<Longrightarrow>
     write_method (pw_operation w) = Some FS_RENAME
     \<and> client_payload w = Some [(lit ''files_new_name['' @ oid @ lit '']'', JStr name)]"
  by (auto simp: prepare_rename_def rbind_def client_payload_def payload_text_def split: if_splits)

locale call_log =
  fixes pv :: "'r provider"
    and lg :: "'r \<Rightarrow> client_call list"
  assumes log_call: "lg (snd (pv_call pv m p t r)) = lg r @ [(m, p)]"
    and log_clock: "lg (snd (pv_monotonic pv r)) = lg r"
    and log_sleep: "lg (pv_sleep pv d r) = lg r"
begin

lemma one_call: "appends lg 1 (\<lambda>c. c = (m, p)) (pv_call pv m p t)"
  by (simp add: appends_def log_call)

lemma timed: "appends lg 2 (\<lambda>c. c = (m, p)) (timeout_call pv m p t)"
proof -
  have pause: "appends lg 0 P (pause_for pv d)" for P d
    by (simp add: appends_def pause_for_def log_sleep)
  show ?thesis
    unfolding timeout_call_def
    by (rule appends_if, rule appends_basic, rule appends_if, rule appends_basic,
        rule appends_catch_le[OF one_call], rule appends_if, rule appends_basic,
        rule appends_free_bind[OF pause], rule one_call) simp
qed

lemma timed_one_of:
  "m = primary \<or> fallback = Some m \<Longrightarrow> appends lg 2 (one_of primary fallback p) (timeout_call pv m p t)"
  by (rule appends_mono[OF timed]) (auto simp: one_of_def)

lemma with_fallback:
  "appends lg 6 (one_of primary fallback p) (call_with_fallback (timeout_call pv) primary fallback p t)"
proof -
  let ?P = "one_of primary fallback p"
  have alt: "appends lg 2 ?P (case fallback of None \<Rightarrow> k | Some m \<Rightarrow> timeout_call pv m p t)"
    if "\<And>n. appends lg n ?P k" for k
    using that timed_one_of by (cases fallback) simp_all
  have body: "appends lg 2 ?P (sbind (scheck b)
      (\<lambda>refused. if \<not> refused then k else
         case fallback of None \<Rightarrow> k | Some m \<Rightarrow> timeout_call pv m p t))"
    if "\<And>n. appends lg n ?P k" for b k
    by (rule appends_free_bind[OF appends_basic(3)]) (intro appends_if alt that)
  show ?thesis
    unfolding call_with_fallback_def
    by (rule appends_catch_le[where j = 4 and k = 2],
        rule appends_bind_le[OF timed_one_of, where k = 2])
       (auto intro!: body appends_if appends_basic)
qed

lemma page: "appends lg 6 (lists_dir parent) (fetch_page (c03_over pv) (timeout_call pv) parent off t)"
proof -
  have "appends lg 6 (lists_dir parent)
      (call_with_fallback (timeout_call pv) FS_FILES (app_method (c03_over pv) FS_FILES_APP)
        (files_payload parent off) t)"
    by (rule appends_mono[OF with_fallback])
       (auto simp: one_of_def lists_dir_def app_method_def split: if_splits)
  then show ?thesis
    unfolding fetch_page_def
    by (intro appends_catch_le[where j = 6 and k = 0] appends_bind_le[where j = 6 and k = 0]
        appends_cases) auto
qed

lemma clock: "appends lg 0 P (monotonic (c03_over pv))"
  by (simp add: appends_def monotonic_def c03_over_def log_clock)

lemma pages:
  "appends lg (6 * left) (lists_dir parent)
     (list_pages u (c03_over pv) (timeout_call pv) deadline parent left calls off entries)"
proof (induction left arbitrary: calls off entries)
  case 0
  show ?case by (simp add: appends_basic)
next
  case (Suc left)
  show ?case
    unfolding list_pages.simps
    by (intro appends_free_bind[OF clock] appends_cases
        appends_bind_le[OF page, where k = "6 * left"] appends_free_bind[OF appends_basic(3)]
        Suc.IH) simp
qed

lemma children: "appends lg 24 (lists_dir parent) (list_children u (c03_over pv) parent t)"
proof -
  have "appends lg 24 (lists_dir parent)
      (list_pages u (c03_over pv) (timeout_call pv) d parent max_page_calls 1 0 [])" for d
    using pages[of max_page_calls parent u d 1 0 "[]"] by (simp add: max_page_calls_def)
  then show ?thesis
    unfolding list_children_def with_caller_def
    by (simp add: c03_over_def[THEN arg_cong, of c3_call] appends_free_bind[OF clock])
qed

text \<open>The calls of the organization transport.\<close>

abbreviation live_log :: "'r live \<Rightarrow> client_call list" where
  "live_log s \<equiv> lg (lv_remote s)"

lemma over: "appends lg k P m \<Longrightarrow> appends live_log k P (over_c03 m)"
  by (simp add: appends_def over_c03_def split: prod.split) (metis snd_conv)

lemma observe:
  assumes "lt_c03 lt = c03_over pv"
  shows "appends live_log (24 * length ps) (\<lambda>c. \<exists>p \<in> set ps. lists_dir p c) (live_observe u lt oid ps obs)"
proof (induction ps arbitrary: obs)
  case Nil
  show ?case by (simp add: appends_basic)
next
  case (Cons p ps)
  let ?P = "\<lambda>c. \<exists>q \<in> set (p # ps). lists_dir q c"
  have "appends live_log 24 ?P (over_c03 (list_children u (lt_c03 lt) p (lt_timeout lt)))"
    unfolding assms by (rule appends_mono[OF over[OF children]]) auto
  moreover have "appends live_log (24 * length ps) ?P (live_observe u lt oid ps obs')" for obs'
    by (rule appends_mono[OF Cons.IH]) auto
  ultimately show ?case
    unfolding live_observe.simps
    by (intro appends_bind_le[where j = 24 and k = "24 * length ps"] appends_if appends_basic) simp_all
qed

lemma intent: "appends live_log 0 P (live_intent u lt oid)"
  by (auto simp: live_intent_def appends_basic split: option.split)

lemma read_object:
  assumes "lt_c03 lt = c03_over pv"
  shows "appends live_log 48 (\<lambda>c. \<exists>p. lists_dir p c) (live_read_object u lt oid)"
proof -
  have "appends live_log 48 (\<lambda>c. \<exists>p. lists_dir p c) (live_observe u lt oid (p # ps) [])"
    if "length ps \<le> 1" for p ps
    by (rule appends_mono[OF observe[OF assms]]) (use that in auto)
  then show ?thesis
    unfolding live_read_object_def
    by (intro appends_free_bind[OF intent] appends_bind_le[where j = 48 and k = 0])
       (auto simp: appends_basic split: list.split)
qed

lemma read_target:
  assumes "lt_c03 lt = c03_over pv"
  shows "appends live_log 24 (\<lambda>c. \<exists>p. lists_dir p c) (live_read_target u lt p n)"
proof -
  have "appends live_log 24 (\<lambda>c. \<exists>p. lists_dir p c)
      (over_c03 (list_children u (lt_c03 lt) p (lt_timeout lt)))"
    unfolding assms by (rule appends_mono[OF over[OF children]]) auto
  then show ?thesis
    unfolding live_read_target_def
    by (intro appends_if appends_basic appends_bind_le[where j = 24 and k = 0])
       (auto simp: appends_basic split: list.split)
qed

lemma execute_write:
  assumes "write_method (pw_operation w) = Some m" and "client_payload w = Some p"
  shows "appends lg 2 (\<lambda>c. c = (m, p)) (c03_execute u (c03_over pv) w t)"
proof -
  have "c3_call (c03_over pv) = Some (timeout_call pv)" by (simp add: c03_over_def)
  then show ?thesis
    unfolding c03_execute_def with_caller_def
    by (simp add: assms appends_bind_le[OF timed appends_basic(1)])
qed

lemma write_call:
  assumes "lt_c03 lt = c03_over pv"
    and "\<And>w. request = Inr w \<Longrightarrow> write_method (pw_operation w) = Some m \<and> client_payload w = Some p"
  shows "appends live_log 2 (\<lambda>c. c = (m, p)) (live_write u lt op request)"
proof (cases request)
  case (Inr w)
  have "appends live_log 0 P (add_receipt res)" for P res
    by (simp add: appends_def add_receipt_def)
  with Inr assms show ?thesis
    unfolding live_write_def
    by (auto intro!: appends_bind_le[OF over[OF execute_write], where k = 0])
qed (simp add: live_write_def appends_basic)

end

end
