(* ===== verification/Live_Props.thy ===== *)
theory Live_Props
  imports Live_Calls
begin

text \<open>
  What the live transport guarantees about the remote drive: which calls an execution makes,
  when a listing counts as complete, and what its observations are worth.
\<close>

section \<open>Calls of an execution\<close>

definition n_writes :: "trace_event list \<Rightarrow> nat" where
  "n_writes tr = length (filter (\<lambda>e. case e of Called c t out \<Rightarrow> is_write_call c | _ \<Rightarrow> False) tr)"

lemma n_writes_simps [simp]:
  "n_writes [] = 0" "n_writes (tr @ [Renewed l]) = n_writes tr"
  "n_writes (tr @ [Called c t out]) = (if is_write_call c then Suc (n_writes tr) else n_writes tr)"
  by (simp_all add: n_writes_def)

definition listing_call :: "client_call \<Rightarrow> bool" where
  "listing_call c \<longleftrightarrow> (\<exists>p. lists_dir p c)"

definition accounted :: "trace_event list \<Rightarrow> client_call \<Rightarrow> bool" where
  "accounted tr c \<longleftrightarrow>
     listing_call c \<or> (\<exists>tc t out. Called tc t out \<in> set tr \<and> provider_write tc = Some c)"

lemma accounted_append: "accounted tr c \<Longrightarrow> accounted (tr @ tr') c"
  by (auto simp: accounted_def)

lemma write_not_listing: "provider_write tc = Some c \<Longrightarrow> \<not> listing_call c"
  by (cases tc) (auto simp: listing_call_def lists_dir_def)

text \<open>A request that moves or renames a member as its plan says.\<close>

definition write_of :: "exec_member \<Rightarrow> client_call \<Rightarrow> bool" where
  "write_of m c \<longleftrightarrow>
     provider_write (Move (em_object_id m) (em_target_parent_id m)) = Some c
     \<or> provider_write (Rename (em_object_id m) (em_target_name m)) = Some c"

lemma write_of_member: "tc \<in> member_calls m \<Longrightarrow> provider_write tc = Some c \<Longrightarrow> write_of m c"
  by (auto simp: member_calls_def write_of_def)

context call_log
begin

lemma seam:
  "appends live_log k P m \<Longrightarrow> \<exists>cs. live_log (snd (at_seam m s)) = live_log s @ cs
     \<and> length cs \<le> k \<and> (\<forall>c \<in> set cs. P c)"
  unfolding appends_def at_seam_def
  by (cases "m s"; cases "fst (m s)") (auto, metis snd_conv, metis snd_conv)

lemma perform:
  assumes "lt_c03 lt = c03_over pv"
  shows "\<exists>cs. live_log (snd (perform_call (live_seam u lt) tc s)) = live_log s @ cs
    \<and> length cs \<le> (if is_write_call tc then 2 else 48)
    \<and> (\<forall>c \<in> set cs. if is_write_call tc then provider_write tc = Some c else listing_call c)"
proof (cases tc)
  case (ReadObject oid)
  from seam[OF read_object[OF assms], of u oid s] show ?thesis
    by (simp add: ReadObject perform_call_def live_seam_def listing_call_def)
next
  case (ReadTarget p n)
  have "appends live_log 48 (\<lambda>c. \<exists>p. lists_dir p c) (live_read_target u lt p n)"
    by (rule appends_mono[OF read_target[OF assms]]) auto
  from seam[OF this, of s] show ?thesis
    by (simp add: ReadTarget perform_call_def live_seam_def listing_call_def)
next
  case (Move oid p)
  have "appends live_log 2 (\<lambda>c. provider_write tc = Some c) (live_move u lt oid p)"
    unfolding live_move_def
    by (intro appends_free_bind[OF intent] appends_if appends_basic,
        rule appends_mono[OF write_call[OF assms prepare_move_Inr]]) (auto simp: Move)
  from seam[OF this, of s] show ?thesis
    by (simp add: Move perform_call_def live_seam_def)
next
  case (Rename oid n)
  have "appends live_log 2 (\<lambda>c. provider_write tc = Some c) (live_rename u lt oid n)"
    unfolding live_rename_def
    by (intro appends_free_bind[OF intent] appends_if appends_basic,
        rule appends_mono[OF write_call[OF assms prepare_rename_Inr]]) (auto simp: Rename)
  from seam[OF this, of s] show ?thesis
    by (simp add: Rename perform_call_def live_seam_def)
qed

end

abbreviation client_log :: "('r \<Rightarrow> client_call list) \<Rightarrow> 'r live exec_state \<Rightarrow> client_call list" where
  "client_log lg s \<equiv> lg (lv_remote (wd_remote (xs_world s)))"

text \<open>The environment of the run makes no calls of its own.\<close>

definition client_idle :: "('r \<Rightarrow> client_call list) \<Rightarrow> 'r live exec_config \<Rightarrow> bool" where
  "client_idle lg cfg \<longleftrightarrow>
     (\<forall>n w. lg (lv_remote (wd_remote (xc_env cfg n w))) = lg (lv_remote (wd_remote w)))"

definition live_over :: "('r \<Rightarrow> client_call list) \<Rightarrow> 'r live exec_config \<Rightarrow> bool" where
  "live_over lg cfg \<longleftrightarrow>
     (\<exists>u lt pv. xc_transport cfg = live_seam u lt \<and> lt_c03 lt = c03_over pv \<and> call_log pv lg)"

definition client_calls_ok ::
  "('r \<Rightarrow> client_call list) \<Rightarrow> 'r live exec_config \<Rightarrow> client_call list \<Rightarrow> 'r live exec_state \<Rightarrow> bool" where
  "client_calls_ok lg cfg l0 s \<longleftrightarrow>
     (live_over lg cfg \<and> client_idle lg cfg \<longrightarrow>
       (\<exists>cs. client_log lg s = l0 @ cs
         \<and> length cs \<le> 48 * n_calls (xs_trace s)
         \<and> length (filter (\<lambda>c. \<not> listing_call c) cs) \<le> 2 * n_writes (xs_trace s)
         \<and> (\<forall>c \<in> set cs. accounted (xs_trace s) c)))"

lemma client_call_step:
  fixes s :: "'r live exec_state"
  assumes "live_over lg cfg" and "client_log lg s = l0 @ cs"
    and "length cs \<le> 48 * n_calls (xs_trace s)"
    and "length (filter (\<lambda>c. \<not> listing_call c) cs) \<le> 2 * n_writes (xs_trace s)"
    and "\<forall>c \<in> set cs. accounted (xs_trace s) c"
  shows "\<exists>cs'. client_log lg (called cfg tc s) = l0 @ cs'
    \<and> length cs' \<le> 48 * n_calls (xs_trace (called cfg tc s))
    \<and> length (filter (\<lambda>c. \<not> listing_call c) cs') \<le> 2 * n_writes (xs_trace (called cfg tc s))
    \<and> (\<forall>c \<in> set cs'. accounted (xs_trace (called cfg tc s)) c)"
proof -
  obtain u lt and pv :: "'r provider" where tr: "xc_transport cfg = live_seam u lt" "lt_c03 lt = c03_over pv"
    and log: "call_log pv lg" using assms(1) by (auto simp: live_over_def)
  obtain ds where ds: "client_log lg (called cfg tc s) = client_log lg s @ ds"
      "length ds \<le> (if is_write_call tc then 2 else 48)"
      "\<forall>c \<in> set ds. if is_write_call tc then provider_write tc = Some c else listing_call c"
    using call_log.perform[OF log tr(2), of u tc "wd_remote (xs_world s)"] by (auto simp: tr(1))
  have "filter (\<lambda>c. \<not> listing_call c) ds = (if is_write_call tc then ds else [])"
    using ds(3) write_not_listing by (auto simp: filter_id_conv filter_empty_conv)
  then have w: "length (filter (\<lambda>c. \<not> listing_call c) ds) \<le> (if is_write_call tc then 2 else 0)"
    using ds(2) by auto
  have acc: "accounted (xs_trace (called cfg tc s)) c" if "c \<in> set ds" for c
    using ds(3) that by (auto simp: accounted_def split: if_splits)
  show ?thesis
  proof (intro exI[of _ "cs @ ds"] conjI)
    show "client_log lg (called cfg tc s) = l0 @ cs @ ds" using ds(1) assms(2) by simp
    show "length (cs @ ds) \<le> 48 * n_calls (xs_trace (called cfg tc s))"
      using ds(2) assms(3) by (auto split: if_splits)
    show "length (filter (\<lambda>c. \<not> listing_call c) (cs @ ds)) \<le> 2 * n_writes (xs_trace (called cfg tc s))"
      using w assms(4) by (auto split: if_splits)
    show "\<forall>c \<in> set (cs @ ds). accounted (xs_trace (called cfg tc s)) c"
      using acc assms(5) by (auto intro: accounted_append)
  qed
qed

lemma accounted_renewed: "accounted (tr @ [Renewed l]) c = accounted tr c"
  by (auto simp: accounted_def)

interpretation client: executor_invariant cfg "client_calls_ok lg cfg l0" "\<lambda>_. True"
  for lg and cfg :: "'r live exec_config" and l0
proof unfold_locales
  fix s :: "'r live exec_state" and c
  assume ok: "client_calls_ok lg cfg l0 s"
  show "client_calls_ok lg cfg l0 (snd (await cfg s))"
    using ok by (simp add: client_calls_ok_def client_idle_def await_def Let_def)
  show "client_calls_ok lg cfg l0 (called cfg c s)"
    using ok client_call_step unfolding client_calls_ok_def by blast
qed (auto simp: client_calls_ok_def accounted_renewed)

text \<open>A recorder in front of any provider.\<close>

definition recorded :: "'r provider \<Rightarrow> ('r \<times> client_call list) provider" where
  "recorded pv =
     \<lparr>pv_call = (\<lambda>m p t (r, log). apsnd (\<lambda>r'. (r', log @ [(m, p)])) (pv_call pv m p t r)),
      pv_callable = pv_callable pv,
      pv_monotonic = (\<lambda>(r, log). apsnd (\<lambda>r'. (r', log)) (pv_monotonic pv r)),
      pv_sleep = (\<lambda>d (r, log). (pv_sleep pv d r, log)),
      pv_timeout_transport = pv_timeout_transport pv\<rparr>"

interpretation recorder: call_log "recorded pv" snd for pv :: "'r provider"
  by unfold_locales (auto simp: recorded_def split: prod.split)

text \<open>
  Over the live transport an execution asks the remote drive for nothing but pages of
  directory listings and the moves and renames its trace reports: every other call is the move
  or rename of a planned member to its planned target.  It makes at most 48 requests per
  transport call, and at most two for a write (the second only when the drive was busy).
\<close>

theorem execute_client_calls:
  assumes "execute cfg oid rv token s = (out, s')" and "xs_trace s = []"
    and "xc_transport cfg = live_seam u lt" and "lt_c03 lt = c03_over (recorded pv)"
    and "client_idle snd cfg"
  shows "\<exists>cs. client_log snd s' = client_log snd s @ cs
    \<and> length cs \<le> 48 * n_calls (xs_trace s')
    \<and> length (filter (\<lambda>c. \<not> listing_call c) cs) \<le> 2 * n_writes (xs_trace s')
    \<and> (\<forall>c \<in> set cs. \<not> listing_call c \<longrightarrow>
         (\<exists>m. plan_member (run_plan cfg oid s) m \<and> write_of m c))"
proof -
  let ?l0 = "client_log snd s"
  let ?J = "\<lambda>r. xs_trace r = [] \<and> client_log snd r = ?l0"
  have live: "live_over snd cfg"
    using assms(3,4) recorder.call_log_axioms by (auto simp: live_over_def)
  have aw: "?J r \<Longrightarrow> ?J (snd (await cfg r))" for r
    using assms(5) by (simp add: client_idle_def await_def Let_def)
  have start: "?J r \<Longrightarrow> client_calls_ok snd cfg ?l0 (r\<lparr>xs_ctx := fresh_context cfg oid rv token\<rparr>)" for r
    by (simp add: client_calls_ok_def)
  have any: "readable_member (\<lambda>_. True) m \<and> writable_member (\<lambda>_. True) m" for m
    by (simp add: readable_member_def writable_member_def)
  have "?J s" using assms(2) by simp
  have "?J s' \<or> client_calls_ok snd cfg ?l0 s'"
    by (rule client.execute_end(1)[where J = ?J, OF aw start any \<open>?J s\<close> assms(1)])
  then have "client_calls_ok snd cfg ?l0 s'" by (auto simp: client_calls_ok_def)
  then obtain cs where cs: "client_log snd s' = ?l0 @ cs" "length cs \<le> 48 * n_calls (xs_trace s')"
      "length (filter (\<lambda>c. \<not> listing_call c) cs) \<le> 2 * n_writes (xs_trace s')"
      "\<forall>c \<in> set cs. accounted (xs_trace s') c"
    using live assms(5) unfolding client_calls_ok_def by blast
  have "\<exists>m. plan_member (run_plan cfg oid s) m \<and> write_of m c"
    if "c \<in> set cs" "\<not> listing_call c" for c
  proof -
    from cs(4) that obtain tc t o' where "Called tc t o' \<in> set (xs_trace s')" "provider_write tc = Some c"
      unfolding accounted_def by blast
    with stays_loaded[OF execute_planned[OF assms(1)] assms(2)] show ?thesis
      unfolding planned_with_plan by (metis write_of_member)
  qed
  with cs show ?thesis by (intro exI[of _ cs]) simp
qed

section \<open>Listings\<close>

lemma new_listing_Inr:
  "new_listing es whole calls = Inr l \<longleftrightarrow> 1 \<le> calls \<and> calls \<le> 4
     \<and> l = \<lparr>ls_entries = es, ls_complete = whole, ls_page_calls = calls\<rparr>"
  by (auto simp: new_listing_def max_page_calls_def)

text \<open>What the loop has gathered: one entry per page, all different, all of the directory.\<close>

definition gathered :: "pystr \<Rightarrow> int \<Rightarrow> int \<Rightarrow> remote_entry list \<Rightarrow> bool" where
  "gathered parent calls offset entries \<longleftrightarrow>
     offset = int (length entries) \<and> calls = offset + 1
     \<and> distinct (map en_file_id entries) \<and> (\<forall>e \<in> set entries. en_parent_id e = parent)"

lemma gathered_page:
  assumes "gathered parent calls offset entries"
    and "normalize_files_page u parent offset r = Inr (Some (es, amount))"
    and "\<not> list_ex (\<lambda>e. en_file_id e \<in> en_file_id ` set entries) es"
  shows "distinct (map en_file_id (entries @ es))" "\<forall>e \<in> set (entries @ es). en_parent_id e = parent"
    "int (length (entries @ es)) \<le> calls"
    "es \<noteq> [] \<Longrightarrow> gathered parent (calls + 1) (offset + int (length es)) (entries @ es)"
proof -
  note p = files_page_Some[OF assms(2)]
  note g = assms(1)[unfolded gathered_def]
  have len: "length es \<le> 1" using p(1,2) by linarith
  then have d: "distinct (map en_file_id es)" by (cases es) auto
  have "en_file_id ` set es \<subseteq> - (en_file_id ` set entries)"
    using assms(3) by (simp add: list_ex_iff image_subset_iff)
  then have "en_file_id ` set entries \<inter> en_file_id ` set es = {}" by blast
  with d g show dist: "distinct (map en_file_id (entries @ es))" by simp
  show par: "\<forall>e \<in> set (entries @ es). en_parent_id e = parent"
    using g p(3) by (simp add: ball_Un)
  show "int (length (entries @ es)) \<le> calls" using g len by simp
  assume "es \<noteq> []"
  with len have "length es = 1" by (cases es) auto
  then show "gathered parent (calls + 1) (offset + int (length es)) (entries @ es)"
    unfolding gathered_def using g dist par by simp
qed

lemma list_pages_step:
  assumes "list_pages u c ask deadline parent (Suc left) calls offset entries r = (Inr l, r')"
    and "ls_complete l"
  obtains
    (final) resp es amount where
      "normalize_files_page u parent offset resp = Inr (Some (es, amount))"
      "\<not> list_ex (\<lambda>e. en_file_id e \<in> en_file_id ` set entries) es"
      "l = \<lparr>ls_entries = entries @ es, ls_complete = True, ls_page_calls = calls\<rparr>" "calls \<le> 4"
  | (more) resp es amount r1 where
      "normalize_files_page u parent offset resp = Inr (Some (es, amount))"
      "\<not> list_ex (\<lambda>e. en_file_id e \<in> en_file_id ` set entries) es" "es \<noteq> []"
      "list_pages u c ask deadline parent left (calls + 1) (offset + int (length es)) (entries @ es) r1
         = (Inr l, r')"
  using assms
  by (auto simp: scheck_def sbind_def new_listing_Inr
      split: prod.split_asm sum.split_asm option.split_asm if_split_asm)

lemma list_pages_complete:
  assumes "list_pages u c ask deadline parent left calls offset entries r = (Inr l, r')"
    and "ls_complete l" and "gathered parent calls offset entries"
  shows "distinct (map en_file_id (ls_entries l)) \<and> (\<forall>e \<in> set (ls_entries l). en_parent_id e = parent)
    \<and> int (length (ls_entries l)) \<le> ls_page_calls l \<and> ls_page_calls l \<le> 4"
  using assms
proof (induction left arbitrary: calls offset entries r)
  case 0
  then show ?case by (auto simp: scheck_def new_listing_Inr)
next
  case (Suc left)
  from Suc.prems(1,2) show ?case
  proof (cases rule: list_pages_step)
    case (final resp es amount)
    with gathered_page[OF Suc.prems(3) final(1,2)] show ?thesis by simp
  next
    case (more resp es amount r1)
    with gathered_page(4)[OF Suc.prems(3) more(1-3)] Suc show ?thesis by blast
  qed
qed

text \<open>
  A listing counts as complete only when it is: its entries all lie in the directory that
  was asked for, none occurs twice, and there are at most four of them, one per page call.
\<close>

theorem complete_listing_bound:
  assumes "list_children u c parent timeout r = (Inr l, r')" and "ls_complete l"
  shows "distinct (map en_file_id (ls_entries l)) \<and> (\<forall>e \<in> set (ls_entries l). en_parent_id e = parent)
    \<and> int (length (ls_entries l)) \<le> ls_page_calls l \<and> ls_page_calls l \<le> 4"
proof -
  obtain ask deadline r0
    where "list_pages u c ask deadline parent max_page_calls 1 0 [] r0 = (Inr l, r')"
    using assms(1)
    by (auto simp: list_children_def with_caller_def monad_defs split: option.splits prod.splits sum.splits)
  then show ?thesis by (rule list_pages_complete[OF _ assms(2)]) (simp add: gathered_def)
qed

section \<open>An honest drive\<close>

text \<open>
  A drive that holds the entries \<open>dir p\<close> in directory \<open>p\<close>, answers every page correctly and
  in time.
\<close>

definition serves :: "unicode \<Rightarrow> 'r caller \<Rightarrow> pystr \<Rightarrow> remote_entry list \<Rightarrow> bool" where
  "serves u ask p es \<longleftrightarrow>
     (\<forall>k t r. k \<le> length es \<and> t > 0 \<longrightarrow>
        (\<exists>resp. fst (ask FS_FILES (files_payload p (int k)) t r) = Inr resp
           \<and> structured_405 resp = Inr False
           \<and> normalize_files_page u p (int k) resp = Inr (Some (take 1 (drop k es), int (length es)))))"

definition honest_drive :: "unicode \<Rightarrow> 'r live_transport \<Rightarrow> (pystr \<Rightarrow> remote_entry list) \<Rightarrow> bool" where
  "honest_drive u lt dir \<longleftrightarrow>
     (\<exists>ask. c3_call (lt_c03 lt) = Some ask \<and> (\<forall>p. serves u ask p (dir p)))
     \<and> (\<forall>p. distinct (map en_file_id (dir p)))
     \<and> (\<forall>r r'. fst (c3_monotonic (lt_c03 lt) r') < fst (c3_monotonic (lt_c03 lt) r) + lt_timeout lt)"

definition honest_listing :: "remote_entry list \<Rightarrow> listing" where
  "honest_listing es =
     \<lparr>ls_entries = take 4 es, ls_complete = (length es \<le> 4),
      ls_page_calls = max 1 (min 4 (int (length es)))\<rparr>"

lemma fetch_honest:
  assumes "fst (ask FS_FILES (files_payload p off) t r) = Inr resp" and "structured_405 resp = Inr False"
  shows "\<exists>r'. fetch_page c ask p off t r = (Inr (Some resp), r')"
  using assms
  by (cases "ask FS_FILES (files_payload p off) t r")
     (simp add: fetch_page_def call_with_fallback_def monad_defs)

lemma list_pages_honest:
  assumes ask: "serves u ask p es"
    and dist: "distinct (map en_file_id es)"
    and clock: "\<And>r. fst (c3_monotonic c r) < deadline"
    and "k < length es \<or> es = [] \<and> k = 0" and "k + left = 4"
  shows "\<exists>r'. list_pages u c ask deadline p left (int k + 1) (int k) (take k es) r
    = (Inr (honest_listing es), r')"
  using assms(4,5)
proof (induction left arbitrary: k r)
  case 0
  then show ?case by (simp add: scheck_def honest_listing_def new_listing_def max_page_calls_def)
next
  case (Suc left)
  obtain now r1 where now: "c3_monotonic c r = (now, r1)" "now < deadline"
    using clock[of r] by (cases "c3_monotonic c r") auto
  have "k \<le> length es" "0 < deadline - now" using Suc.prems(1) now(2) by auto
  then obtain resp where resp:
    "fst (ask FS_FILES (files_payload p (int k)) (deadline - now) r1) = Inr resp"
    "structured_405 resp = Inr False"
    "normalize_files_page u p (int k) resp = Inr (Some (take 1 (drop k es), int (length es)))"
    using ask unfolding serves_def by blast
  obtain r2 where fetched: "fetch_page c ask p (int k) (deadline - now) r1 = (Inr (Some resp), r2)"
    using fetch_honest[of ask p "int k" "deadline - now" r1 resp c] resp(1,2) by blast
  let ?e = "take 1 (drop k es)"
  have fresh: "\<not> list_ex (\<lambda>e. en_file_id e \<in> en_file_id ` set (take k es)) ?e"
  proof (cases "k < length es")
    case True
    then have one: "?e = [es ! k]" by (simp add: Cons_nth_drop_Suc[symmetric])
    have "distinct (map en_file_id (take (Suc k) es))"
      using distinct_take[OF dist, of "Suc k"] by (simp add: take_map)
    with True show ?thesis unfolding one by (simp add: take_Suc_conv_app_nth)
  qed (use Suc.prems in auto)
  have body: "list_pages u c ask deadline p (Suc left) (int k + 1) (int k) (take k es) r =
    (if int k + int (length ?e) = int (length es)
       then scheck (new_listing (take k es @ ?e) True (int k + 1)) r2
     else if ?e = [] then scheck (new_listing (take k es @ ?e) False (int k + 1)) r2
     else list_pages u c ask deadline p left (int k + 1 + 1) (int k + int (length ?e)) (take k es @ ?e) r2)"
    using now fetched resp(3) fresh by (simp add: monotonic_def monad_defs)
  show ?case
  proof (cases "Suc k < length es")
    case True
    have "take k es @ ?e = take (Suc k) es" "length ?e = 1"
      using True by (simp_all add: take_add[symmetric])
    moreover from Suc.IH[of "Suc k" r2] True Suc.prems(2)
    obtain r' where "list_pages u c ask deadline p left (int k + 1 + 1) (int k + 1) (take (Suc k) es) r2
        = (Inr (honest_listing es), r')" by (auto simp: algebra_simps)
    ultimately show ?thesis using True unfolding body by auto
  next
    case False
    with Suc.prems have "int k + int (length ?e) = int (length es)" "take k es @ ?e = es"
      "length es \<le> 4" "int k + 1 = max 1 (min 4 (int (length es)))" "k \<le> 3"
      by (auto simp: take_add[symmetric])
    then show ?thesis
      unfolding body by (simp add: scheck_def honest_listing_def new_listing_def max_page_calls_def)
  qed
qed

lemma list_children_honest:
  assumes "honest_drive u lt dir"
  shows "\<exists>r'. list_children u (lt_c03 lt) p (lt_timeout lt) r = (Inr (honest_listing (dir p)), r')"
proof -
  obtain ask where ask: "c3_call (lt_c03 lt) = Some ask"
    and pages: "serves u ask p (dir p)"
    and dist: "distinct (map en_file_id (dir p))"
    and clock: "\<And>r r'. fst (c3_monotonic (lt_c03 lt) r') < fst (c3_monotonic (lt_c03 lt) r) + lt_timeout lt"
    using assms unfolding honest_drive_def by metis
  obtain start r1 where start: "c3_monotonic (lt_c03 lt) r = (start, r1)" by fastforce
  have deadline: "fst (c3_monotonic (lt_c03 lt) r') < start + lt_timeout lt" for r'
    using clock[of r' r] start by simp
  have "\<exists>r'. list_pages u (lt_c03 lt) ask (start + lt_timeout lt) p 4 (int 0 + 1) (int 0) (take 0 (dir p)) r1
      = (Inr (honest_listing (dir p)), r')"
    using list_pages_honest[OF pages dist deadline, of 0 4 r1] by auto
  then show ?thesis
    by (simp add: list_children_def with_caller_def ask sbind_def monotonic_def start max_page_calls_def)
qed

definition single_match :: "remote_entry list \<Rightarrow> transport_error + remote_state option" where
  "single_match es =
     (case es of
        [] \<Rightarrow> Inr None
      | [e] \<Rightarrow> Inr (Some (entry_state e))
      | _ \<Rightarrow> Inl (TransportError ''observation_unverified''))"

lemma over_honest:
  assumes "honest_drive u lt dir"
  shows "\<exists>s'. over_c03 (list_children u (lt_c03 lt) p (lt_timeout lt)) s = (Inr (honest_listing (dir p)), s')"
  using list_children_honest[OF assms, of p "lv_remote s"] by (auto simp: over_c03_def)

text \<open>
  On an honest drive the check of a target slot says exactly what the directory holds
  under that name, as long as the directory has at most four entries.  From five on no
  listing is ever complete and the check always fails: the transport cannot work in a
  directory of usual size.
\<close>

theorem live_read_target_exact:
  assumes "honest_drive u lt dir" and "lt_scope_confirmed lt" and "(p, n) \<in> set (lt_targets lt)"
  shows "fst (live_read_target u lt p n s) =
    (if length (dir p) \<le> 4 then single_match (filter (\<lambda>e. en_name e = n) (dir p))
     else Inl (TransportError ''observation_unverified''))"
proof -
  obtain s' where "over_c03 (list_children u (lt_c03 lt) p (lt_timeout lt)) s
      = (Inr (honest_listing (dir p)), s')" using over_honest[OF assms(1)] by blast
  then show ?thesis
    using assms(2,3)
    by (auto simp: live_read_target_def monad_defs honest_listing_def single_match_def
        split: list.split)
qed

lemma live_observe_honest:
  assumes "honest_drive u lt dir"
  shows "fst (live_observe u lt oid ps obs s) =
    (if \<forall>p \<in> set ps. length (dir p) \<le> 4
     then Inr (obs @ map entry_state (filter (\<lambda>e. en_file_id e = oid) (concat (map dir ps))))
     else Inl (TransportError ''observation_unverified''))"
proof (induction ps arbitrary: obs s)
  case Nil
  show ?case by (simp add: sret_def)
next
  case (Cons p ps)
  obtain s' where "over_c03 (list_children u (lt_c03 lt) p (lt_timeout lt)) s
      = (Inr (honest_listing (dir p)), s')" using over_honest[OF assms(1)] by blast
  then show ?case using Cons.IH[of _ s'] by (simp add: sbind_def sraise_def honest_listing_def)
qed

text \<open>
  On an honest drive an object is observed exactly: the transport answers with the one
  entry of the object's identifier in its planned source and target directories when name and
  place are those of the plan, with nothing when there is none, and refuses everything else.
\<close>

theorem live_read_object_exact:
  assumes "honest_drive u lt dir" and "live_intent u lt oid s = (Inr i, s)"
    and "oi_source_parent_id i \<noteq> oi_target_parent_id i"
    and "length (dir (oi_source_parent_id i)) \<le> 4" and "length (dir (oi_target_parent_id i)) \<le> 4"
  shows "fst (live_read_object u lt oid s) =
    (case single_match (filter (\<lambda>e. en_file_id e = oid)
            (dir (oi_source_parent_id i) @ dir (oi_target_parent_id i))) of
       Inr (Some st) \<Rightarrow> if intent_observation (lt_managed lt) i st then Inr (Some st)
                        else Inl (TransportError ''observation_unverified'')
     | other \<Rightarrow> other)"
proof -
  define ms where "ms = filter (\<lambda>e. en_file_id e = oid)
    (dir (oi_source_parent_id i) @ dir (oi_target_parent_id i))"
  let ?ps = "oi_source_parent_id i # (if oi_target_parent_id i \<noteq> oi_source_parent_id i
    then [oi_target_parent_id i] else [])"
  have "fst (live_observe u lt oid ?ps [] s) = Inr (map entry_state ms)"
    unfolding live_observe_honest[OF assms(1)] using assms(3-5) by (auto simp: ms_def)
  then obtain s' where obs: "live_observe u lt oid ?ps [] s = (Inr (map entry_state ms), s')"
    by (metis prod.collapse)
  have "live_read_object u lt oid s =
      (case map entry_state ms of
         [] \<Rightarrow> sret None
       | [st] \<Rightarrow> if intent_observation (lt_managed lt) i st then sret (Some st)
                 else sraise (TransportError ''observation_unverified'')
       | _ \<Rightarrow> sraise (TransportError ''observation_unverified'')) s'"
    unfolding live_read_object_def
      sbind_Inr[of "live_intent u lt oid" s, OF assms(2)]
      sbind_Inr[of "live_observe u lt oid ?ps []" s, OF obs] ..
  then show ?thesis
    unfolding ms_def[symmetric]
    by (cases ms rule: remdups_adj.cases) (simp_all add: single_match_def sret_def sraise_def)
qed

section \<open>Directories of usual size\<close>

text \<open>Every outcome in a trace is an outcome of the transport.\<close>

definition genuine :: "'r exec_config \<Rightarrow> 'r exec_state \<Rightarrow> bool" where
  "genuine cfg s \<longleftrightarrow>
     (\<forall>c t res. Called c t res \<in> set (xs_trace s) \<longrightarrow>
        (\<exists>r. res = fst (perform_call (xc_transport cfg) c r)))"

interpretation genuine: executor_invariant cfg "genuine cfg" "\<lambda>_. True" for cfg :: "'r exec_config"
  by unfold_locales (auto simp: genuine_def)

lemma execute_genuine:
  assumes "execute cfg oid rv token s = (out, s')" and "xs_trace s = []"
  shows "genuine cfg s'"
proof -
  let ?J = "\<lambda>r. xs_trace r = []"
  have "?J s' \<or> genuine cfg s'"
    by (rule genuine.execute_end(1)[where J = ?J, OF _ _ _ assms(2,1)])
       (auto simp: genuine_def readable_member_def writable_member_def)
  then show ?thesis by (auto simp: genuine_def)
qed

text \<open>
  Whatever page of a directory the client accepts, the drive says in it that the directory has
  \<open>n\<close> entries or more.  Contents, order and the time an answer takes may change from page to page.
\<close>

definition counts_at_least :: "unicode \<Rightarrow> 'r live_transport \<Rightarrow> pystr \<Rightarrow> int \<Rightarrow> bool" where
  "counts_at_least u lt p n \<longleftrightarrow>
     (\<forall>ask m off t r resp es amount.
        c3_call (lt_c03 lt) = Some ask \<and> (m = FS_FILES \<or> app_method (lt_c03 lt) FS_FILES_APP = Some m)
        \<and> fst (ask m (files_payload p off) t r) = Inr resp
        \<and> normalize_files_page u p off resp = Inr (Some (es, amount)) \<longrightarrow> n \<le> amount)"

lemma fetch_page_asks:
  assumes "fetch_page c ask p off t r = (Inr (Some resp), r')"
  obtains m r0 where "m = FS_FILES \<or> app_method c FS_FILES_APP = Some m"
    "fst (ask m (files_payload p off) t r0) = Inr resp"
proof -
  have "\<exists>m r0. (m = FS_FILES \<or> app_method c FS_FILES_APP = Some m)
      \<and> fst (ask m (files_payload p off) t r0) = Inr resp"
    using assms unfolding fetch_page_def call_with_fallback_def monad_defs
    by (auto split: prod.split_asm sum.split_asm if_split_asm option.split_asm) (metis fst_conv)+
  with that show thesis by blast
qed

lemma list_pages_never_complete:
  assumes "counts_at_least u lt p 5" and "c3_call (lt_c03 lt) = Some ask"
    and "list_pages u (lt_c03 lt) ask deadline p left calls off es r = (Inr l, r')" and "off + int left \<le> 4"
  shows "\<not> ls_complete l"
  using assms(3,4)
proof (induction left arbitrary: calls off es r)
  case 0
  then show ?case by (auto simp: scheck_def new_listing_Inr)
next
  case (Suc left)
  show ?case
  proof
    assume whole: "ls_complete l"
    obtain now r1 where now: "c3_monotonic (lt_c03 lt) r = (now, r1)" by fastforce
    from Suc.prems(1) whole obtain resp r2 pe amount where
      fetched: "fetch_page (lt_c03 lt) ask p off (deadline - now) r1 = (Inr (Some resp), r2)"
      and page: "normalize_files_page u p off resp = Inr (Some (pe, amount))"
      and rest: "off + int (length pe) = amount
        \<or> list_pages u (lt_c03 lt) ask deadline p left (calls + 1) (off + int (length pe)) (es @ pe) r2 = (Inr l, r')"
      by (auto simp: now monotonic_def scheck_def sbind_def new_listing_Inr
          split: prod.split_asm sum.split_asm option.split_asm if_split_asm)
    from fetched obtain m r0 where "m = FS_FILES \<or> app_method (lt_c03 lt) FS_FILES_APP = Some m"
      "fst (ask m (files_payload p off) (deadline - now) r0) = Inr resp" by (rule fetch_page_asks)
    with assms(1,2) page have "5 \<le> amount" unfolding counts_at_least_def by blast
    moreover have one: "int (length pe) \<le> 1" using files_page_Some(1)[OF page] by linarith
    ultimately have "off + int (length pe) \<noteq> amount" using Suc.prems(2) by auto
    with rest Suc.IH one Suc.prems(2) whole show False by fastforce
  qed
qed

lemma large_directory_unlisted:
  assumes "counts_at_least u lt p 5" and "list_children u (lt_c03 lt) p timeout r = (Inr l, r')"
  shows "\<not> ls_complete l"
proof -
  from assms(2) obtain ask start r1 where "c3_call (lt_c03 lt) = Some ask"
    "list_pages u (lt_c03 lt) ask (start + timeout) p max_page_calls 1 0 [] r1 = (Inr l, r')"
    by (auto simp: list_children_def with_caller_def monad_defs split: option.splits prod.splits sum.splits)
  with list_pages_never_complete[OF assms(1)] show ?thesis by (simp add: max_page_calls_def)
qed

lemma large_directory_unobserved:
  assumes "counts_at_least u lt p 5"
  shows "\<exists>e s'. live_observe u lt oid (p # ps) obs s = (Inl e, s')"
proof -
  obtain out s1 where o: "over_c03 (list_children u (lt_c03 lt) p (lt_timeout lt)) s = (out, s1)" by fastforce
  show ?thesis
  proof (cases out)
    case (Inr l)
    obtain x r' where x: "list_children u (lt_c03 lt) p (lt_timeout lt) (lv_remote s) = (x, r')" by fastforce
    with o Inr have "x = Inr l" by (cases x) (auto simp: over_c03_def)
    from large_directory_unlisted[OF assms x[unfolded this]] o Inr show ?thesis by (simp add: sbind_def sraise_def)
  qed (use o in \<open>simp add: sbind_def\<close>)
qed

lemma large_directory_unreadable:
  assumes "\<forall>i. (oid, i) \<in> set (lt_intents lt) \<longrightarrow> counts_at_least u lt (oi_source_parent_id i) 5"
  shows "\<exists>e. fst (perform_call (live_seam u lt) (ReadObject oid) r) = Inl e"
proof (cases "live_intent u lt oid r")
  case (Pair out r1)
  show ?thesis
  proof (cases out)
    case (Inl e)
    with Pair show ?thesis
      by (simp add: perform_call_def live_seam_def at_seam_def live_read_object_def sbind_Inl)
  next
    case (Inr i)
    with Pair have i: "r1 = r" "(oid, i) \<in> set (lt_intents lt)"
      by (auto simp: live_intent_def monad_defs split: if_splits option.splits dest: map_of_SomeD)
    let ?ps = "oi_source_parent_id i # (if oi_target_parent_id i \<noteq> oi_source_parent_id i
      then [oi_target_parent_id i] else [])"
    from assms i(2) have "counts_at_least u lt (oi_source_parent_id i) 5" by blast
    then obtain e s' where obs: "live_observe u lt oid ?ps [] r = (Inl e, s')"
      using large_directory_unobserved by blast
    have "live_intent u lt oid r = (Inr i, r)" using Pair Inr i(1) by simp
    then have "live_read_object u lt oid r = (Inl e, s')"
      unfolding live_read_object_def
      by (simp only: sbind_Inr[of "live_intent u lt oid"] sbind_Inl[of "live_observe u lt oid ?ps []" r, OF obs])
    then show ?thesis by (simp add: perform_call_def live_seam_def at_seam_def)
  qed
qed

text \<open>
  C27. Over the live transport, plans in directories of usual size cannot be carried out.  A listing
  takes one entry per page and at most four pages, and the transport trusts complete listings only.
  When for every planned source directory the drive reports five entries or more in each page that
  the client accepts, the executor writes nothing, whatever else the drive and other sessions do.
\<close>

theorem large_directory_stalls:
  assumes "execute cfg oid rv token s = (out, s')" and "xs_trace s = []"
    and "xc_transport cfg = live_seam u lt"
    and "\<forall>(x, i) \<in> set (lt_intents lt). counts_at_least u lt (oi_source_parent_id i) 5"
  shows "n_writes (xs_trace s') = 0"
proof (rule ccontr)
  assume "n_writes (xs_trace s') \<noteq> 0"
  then obtain e where e: "e \<in> set (xs_trace s')"
    "case e of Called c t out \<Rightarrow> is_write_call c | _ \<Rightarrow> False"
    unfolding n_writes_def length_0_conv filter_empty_conv by blast
  obtain c t res where "Called c t res \<in> set (xs_trace s')" and w: "is_write_call c"
    using e(2) by (cases e) (use e(1) in auto)
  then obtain before after where tr: "xs_trace s' = before @ Called c t res # after"
    by (meson split_list)
  from observes_loaded[OF assms(1,2) tr w] obtain st m
    where m: "m \<in> set (es_members st)" "step_ready st (set before)" by blast
  then obtain t' o' where "Called (ReadObject (em_object_id m)) t' (Inr o') \<in> set (xs_trace s')"
    using tr by (fastforce simp: step_ready_def seen_def)
  then obtain r where "Inr o' = fst (perform_call (live_seam u lt) (ReadObject (em_object_id m)) r)"
    using execute_genuine[OF assms(1,2)] assms(3) unfolding genuine_def by metis
  moreover obtain e where "fst (perform_call (live_seam u lt) (ReadObject (em_object_id m)) r) = Inl e"
    using large_directory_unreadable[of "em_object_id m" lt u] assms(4) by fast
  ultimately show False by simp
qed

end
