(* ===== verification/Org_Worker_Props.thy ===== *)
theory Org_Worker_Props
  imports Org_Worker Plan_Loader_Props Live_Props
begin

text \<open>
  The worker as a whole: what it may ask of the remote drive, what it does to the database,
  and what it does when the oldest operation cannot be claimed.
\<close>

section \<open>What a pass is based on\<close>

text \<open>
  Two states of the database with the same scans, in which every plan has the same actions and
  every operation the same plan.  States and revisions may differ.
\<close>

definition same_basis :: "store \<Rightarrow> store \<Rightarrow> bool" where
  "same_basis a b \<longleftrightarrow> same_scan a b
     \<and> (\<forall>pid. map_option plan_actions (get_plan pid b) = map_option plan_actions (get_plan pid a))
     \<and> (\<forall>oid. map_option op_plan_id (get_op oid b) = map_option op_plan_id (get_op oid a))"

lemma same_basis_refl [simp]: "same_basis s s"
  by (simp add: same_basis_def same_scan_def)

lemma same_basis_trans: "same_basis a b \<Longrightarrow> same_basis b c \<Longrightarrow> same_basis a c"
  unfolding same_basis_def by (auto intro: same_scan_trans)

text \<open>The steps that the plan of an operation spells out.\<close>

definition planned_steps :: "unicode \<Rightarrow> store \<Rightarrow> pystr \<Rightarrow> exec_step list option" where
  "planned_steps u st oid =
     (case map_option op_plan_id (get_op oid st) of
        None \<Rightarrow> None
      | Some pid \<Rightarrow>
          (case map_option plan_actions (get_plan pid st) of
             None \<Rightarrow> None | Some actions \<Rightarrow> parse_actions u 0 [] (load_json_list actions)))"

lemma same_basis_steps: "same_basis a b \<Longrightarrow> planned_steps u b oid = planned_steps u a oid"
  unfolding same_basis_def planned_steps_def by (elim conjE) (simp only:)

lemma same_basis_update:
  assumes "op_update oid q f s = Some s'" and "\<And>r. op_id (f r) = op_id r" and "\<And>r. op_plan_id (f r) = op_plan_id r"
  shows "same_basis s s'"
proof -
  have "map_option op_plan_id (get_op i s') = map_option op_plan_id (get_op i s)" for i
    using op_update_Some(1)[OF assms(1)] assms(2,3)
    by (cases "get_op i s") (auto simp: get_op_def row_of_update)
  then show ?thesis
    using op_update_frame[OF assms(1)] assms(1)
    by (auto simp: same_basis_def same_scan_def get_plan_def op_update_def)
qed

text \<open>No method of the operation service that the worker calls writes any of this.\<close>

definition scan_kept :: "(store, 'e, 'a) act \<Rightarrow> bool" where
  "scan_kept m \<longleftrightarrow> (\<forall>s. same_basis s (snd (m s)))"

named_theorems scan_intro \<open>composition of handlers that leave the scan tables alone\<close>

lemma scan_basic [scan_intro]:
  "scan_kept (sret x)" "scan_kept (sraise e)" "scan_kept (scheck v)" "scan_kept sget"
  by (simp_all add: scan_kept_def monad_defs)

lemma scan_kept_keeps: "scan_kept m \<longleftrightarrow> (\<forall>s0. keeps (same_basis s0) m)"
  unfolding scan_kept_def keeps_def by (metis same_basis_refl same_basis_trans)

lemma scan_bind [scan_intro]:
  "scan_kept m \<Longrightarrow> (\<And>x. scan_kept (k x)) \<Longrightarrow> scan_kept (sbind m k)"
  unfolding scan_kept_keeps by (blast intro: keeps_bind)

lemma scan_catch [scan_intro]:
  "scan_kept m \<Longrightarrow> (\<And>e. scan_kept (h e)) \<Longrightarrow> scan_kept (scatch m h)"
  unfolding scan_kept_keeps by (blast intro: keeps_catch)

lemma scan_if [scan_intro]: "scan_kept m \<Longrightarrow> scan_kept n \<Longrightarrow> scan_kept (if b then m else n)"
  by simp

lemma scan_option [scan_intro]:
  "scan_kept m \<Longrightarrow> (\<And>x. scan_kept (k x)) \<Longrightarrow> scan_kept (case v of None \<Rightarrow> m | Some x \<Rightarrow> k x)"
  by (simp split: option.splits)

lemma scan_let [scan_intro]: "scan_kept (k v) \<Longrightarrow> scan_kept (let x = v in k x)"
  by simp

lemma scan_update:
  assumes "\<And>r. op_id (f r) = op_id r" and "\<And>r. op_plan_id (f r) = op_plan_id r"
  shows "scan_kept (op_write (op_update oid q f) e)"
  using same_basis_update[OF _ assms] by (auto simp: scan_kept_def op_write_def split: option.splits)

lemma scan_writes [scan_intro]:
  "scan_kept (op_write (op_update oid q (claim_set tok e t rv)) x)"
  "scan_kept (op_write (op_update oid q (finish_set st err t rv)) x)"
  by (rule scan_update; simp add: claim_set_def finish_set_def)+

lemma scan_methods [scan_intro]:
  "scan_kept (read_summary oid)" "scan_kept (load_operation oid rv)"
  "scan_kept (finish_after_lease_loss clk oid rv tok now)"
  unfolding read_summary_def load_operation_def finish_after_lease_loss_def by (intro scan_intro)+

lemma scan_finish_failed: "scan_kept (finish_operation new_id clk oid rv tok OP_FAILED err sd td now)"
  unfolding finish_operation_def by (simp, intro scan_intro)

lemma scan_ensure [scan_intro]: "scan_kept (ensure_planned_and_current clk p)"
proof -
  have "map_option plan_actions (get_plan pid (invalidate_plan q s)) = map_option plan_actions (get_plan pid s)"
    for pid q s by (cases "get_plan pid s") (auto simp: invalidate_plan_def get_plan_def row_of_update)
  then have "same_basis s (invalidate_plan q s)" for q s
    by (simp add: same_basis_def same_scan_def invalidate_plan_def get_op_def)
  then show ?thesis by (auto simp: scan_kept_def ensure_planned_and_current_def split: option.splits)
qed

lemma scan_interleave: "(\<And>s. same_basis s (interf s)) \<Longrightarrow> scan_kept (interleave interf)"
  by (simp add: scan_kept_def interleave_def)

lemma scan_claim_next:
  assumes "\<And>s. same_basis s (i1 s)" and "\<And>s. same_basis s (i2 s)"
  shows "scan_kept (claim_next i1 i2 clk tok d now)"
proof -
  have "scan_kept (claim i2 clk tok oid rv d now)" for oid rv
    unfolding claim_def by (intro scan_intro scan_interleave assms)
  then show ?thesis
    unfolding claim_next_def
    by (intro scan_intro scan_interleave assms) (auto split: op_error.splits intro: scan_intro)
qed

section \<open>Invariants of service calls\<close>

text \<open>A plan loaded on the database of a moment when \<open>I\<close> held, and a scope frozen from one.\<close>

definition loaded_when :: "('r exec_state \<Rightarrow> bool) \<Rightarrow> 'r exec_config \<Rightarrow> exec_step list \<Rightarrow> bool" where
  "loaded_when I cfg sts \<longleftrightarrow>
     (\<exists>r pid. I r \<and> xc_loader cfg (xs_store r) (wd_clock (xs_world r)) pid = Some sts)"

definition scope_loaded :: "('r exec_state \<Rightarrow> bool) \<Rightarrow> 'r exec_config \<Rightarrow> pystr list option \<Rightarrow> bool" where
  "scope_loaded I cfg scope \<longleftrightarrow>
     (\<forall>dirs. scope = Some dirs \<longrightarrow>
        (\<exists>sts. loaded_when I cfg sts \<and> set dirs = (\<Union>st \<in> set sts. set (es_scope_directory_ids st))))"

text \<open>
  What a handler that only awaits and calls the operation service keeps: an invariant of the
  awaits and of the commits \<open>R\<close> it may see.  The executor's invariants are of this kind.
\<close>

locale service_invariant =
  fixes cfg :: "'r exec_config"
    and I :: "'r exec_state \<Rightarrow> bool"
    and R :: "store \<Rightarrow> store \<Rightarrow> bool"
  assumes await_keeps: "I s \<Longrightarrow> I (snd (await cfg s))"
    and store_keeps: "I s \<Longrightarrow> R (xs_store s) st \<Longrightarrow> I (with_store s st)"
    and own_commits: "db_reach a b \<Longrightarrow> same_basis a b \<Longrightarrow> R a b"
begin

lemma await_kept: "keeps I (await cfg)"
  by (rule keeps_await) (rule await_keeps)

lemma effect_kept: "(\<And>clk n st. R st (snd (m clk n st))) \<Longrightarrow> keeps I (service_effect m)"
  unfolding keeps_def service_effect_def
  using store_keeps by (auto simp: with_store_def split: prod.split) (metis snd_conv)

lemma service_kept: "(\<And>clk n st. R st (snd (m clk n st))) \<Longrightarrow> keeps I (service cfg m)"
  unfolding service_def by (intro keeps_intro await_kept effect_kept)

lemma own_kept: "(\<And>clk n. commits_only (m clk n)) \<Longrightarrow> (\<And>clk n. scan_kept (m clk n)) \<Longrightarrow> keeps I (service cfg m)"
  by (intro service_kept own_commits) (simp_all add: commits_only_def scan_kept_def)

lemma find_operation_kept: "keeps I (find_operation cfg oid)"
  unfolding find_operation_def by (rule own_kept) (simp_all add: commits_only_def scan_kept_def)

lemma load_steps_kept: "keeps I (load_steps cfg pid)"
  unfolding load_steps_def by (rule own_kept) (simp_all add: commits_only_def scan_kept_def)

lemma load_execution_steps_kept: "keeps I (load_execution_steps cfg oid)"
  unfolding load_execution_steps_def
  by (intro keeps_intro find_operation_kept load_steps_kept)

lemma swallow_kept: "keeps I m \<Longrightarrow> keeps I (swallow m)"
  unfolding swallow_def by (intro keeps_intro)

lemma record_uncertain_kept: "keeps I (record_uncertain cfg l)"
  unfolding record_uncertain_def
  by (intro swallow_kept keeps_intro own_kept commits_lease_loss scan_intro)

lemma finish_failed_kept: "keeps I (finish_failed cfg l err)"
  unfolding finish_failed_def
  by (intro keeps_intro own_kept commits_finish scan_finish_failed record_uncertain_kept)

lemma load_steps_rule:
  "triple I (load_steps cfg pid)
     (\<lambda>steps s. I s \<and> (steps = None \<or> (\<exists>sts. steps = Some sts \<and> loaded_when I cfg sts))) (\<lambda>_. I)"
proof (rule tripleI)
  have kept: "I s \<Longrightarrow> load_steps cfg pid s = (out, s') \<Longrightarrow> I s'" for s out s'
    using load_steps_kept by (rule keepsD)
  show "I s \<Longrightarrow> load_steps cfg pid s = (Inl e, s') \<Longrightarrow> I s'" for s e s' by (rule kept)
  fix s steps s' assume "I s" and l: "load_steps cfg pid s = (Inr steps, s')"
  from l obtain r r' where r: "r = snd (await cfg s)"
    "service_effect (\<lambda>clk _ st. (Inr (xc_loader cfg st clk pid), st)) r = (Inr steps, r')"
    unfolding load_steps_def by (rule service_Inr) blast
  then have "steps = xc_loader cfg (xs_store r) (wd_clock (xs_world r)) pid"
    by (auto simp: service_effect_def)
  moreover have "I r" using await_keeps[OF \<open>I s\<close>] r(1) by simp
  ultimately have "steps = None \<or> (\<exists>sts. steps = Some sts \<and> loaded_when I cfg sts)"
    unfolding loaded_when_def by (metis not_None_eq)
  with kept[OF \<open>I s\<close> l]
  show "I s' \<and> (steps = None \<or> (\<exists>sts. steps = Some sts \<and> loaded_when I cfg sts))" by blast
qed

lemma plan_execution_scope_rule:
  "triple I (plan_execution_scope cfg oid) (\<lambda>scope s. I s \<and> scope_loaded I cfg scope) (\<lambda>_. I)"
proof -
  have found: "triple I (find_operation cfg oid) (\<lambda>_. I) (\<lambda>_. I)"
    using find_operation_kept by (simp add: keeps_triple)
  have frozen: "scope_loaded I cfg (case steps of None \<Rightarrow> None | Some [] \<Rightarrow> None
      | Some sts \<Rightarrow> Some (remdups (concat (map es_scope_directory_ids sts))))"
    if "steps = None \<or> (\<exists>sts. steps = Some sts \<and> loaded_when I cfg sts)" for steps
  proof (cases steps)
    case (Some sts)
    with that have "loaded_when I cfg sts" by simp
    then show ?thesis
      unfolding Some scope_loaded_def by (cases sts) (auto intro!: exI[of _ sts])
  qed (simp add: scope_loaded_def)
  show ?thesis
    unfolding plan_execution_scope_def
  proof (rule triple_bind[OF found])
    fix operation
    show "triple I (case operation of None \<Rightarrow> sret None
      | Some r \<Rightarrow> sbind (load_steps cfg (op_plan_id r)) (\<lambda>steps. sret (case steps of None \<Rightarrow> None
          | Some [] \<Rightarrow> None | Some sts \<Rightarrow> Some (remdups (concat (map es_scope_directory_ids sts))))))
      (\<lambda>scope s. I s \<and> scope_loaded I cfg scope) (\<lambda>_. I)"
    proof (cases operation)
      case None
      then show ?thesis by (simp add: triple_def sret_def scope_loaded_def)
    next
      case (Some r)
      show ?thesis
        unfolding Some option.case
        by (rule triple_bind[OF load_steps_rule]) (use frozen in \<open>auto simp: triple_def sret_def\<close>)
    qed
  qed
qed

end

sublocale executor_invariant \<subseteq> service_invariant cfg I db_reach
  by unfold_locales (fact keep_await, fact keep_store)

section \<open>The worker's own steps\<close>

locale worker_invariant = service_invariant "ow_exec w" I R
  for w :: "'r org_worker" and I :: "'r live exec_state \<Rightarrow> bool" and R
begin

lemma build_client_kept: "keeps I (build_client w)"
  unfolding build_client_def raised_in_thread_def by (intro keeps_intro await_kept)

lemma close_client_kept: "keeps I (close_client w)"
  unfolding close_client_def by (intro keeps_intro await_kept)

lemma claim_oldest_kept:
  "(\<And>clk n st. R st (snd (claim_next (ow_interf w n False) (ow_interf w n True) clk
      (ow_token w n) default_lease_duration None st))) \<Longrightarrow> keeps I (claim_oldest w)"
  unfolding claim_oldest_def by (rule service_kept)

text \<open>Any run of a claimed operation, from what is known of the execution proper.\<close>

lemma triple_finally:
  assumes "triple P m (\<lambda>_. I) (\<lambda>_. I)"
  shows "triple P (sfinally m (close_client w)) (\<lambda>_. I) (\<lambda>_. I)"
  unfolding triple_def
proof (intro allI impI)
  fix s assume "P s"
  obtain out s1 where m: "m s = (out, s1)" by fastforce
  have "I s1" using assms \<open>P s\<close> m by (cases out) (force simp: triple_def)+
  then have "I (snd (close_client w s1))" using close_client_kept by (simp add: keeps_def)
  then show "case sfinally m (close_client w) s of (Inl e, s') \<Rightarrow> I s' | (Inr x, s') \<Rightarrow> I s'"
    by (cases out; cases "close_client w s1"; cases "fst (close_client w s1)")
       (auto simp: sfinally_def m)
qed

lemma execute_claimed_rule:
  assumes "triple P (run_execution w l scope intents pv) (\<lambda>_. I) (\<lambda>_. I)"
  shows "triple P (execute_claimed w l scope intents pv) (\<lambda>_. I) (\<lambda>_. I)"
proof -
  have handler: "triple I (case e of TaskCancelled \<Rightarrow> sraise e | ServiceExn (StateError _) \<Rightarrow> sret ()
      | _ \<Rightarrow> record_uncertain (ow_exec w) l) (\<lambda>_. I) (\<lambda>_. I)" for e
  proof -
    have "keeps I (case e of TaskCancelled \<Rightarrow> sraise e | ServiceExn (StateError _) \<Rightarrow> sret ()
      | _ \<Rightarrow> record_uncertain (ow_exec w) l)"
      by (intro keeps_intro record_uncertain_kept)
    then show ?thesis by (simp add: keeps_triple)
  qed
  have ended: "triple I (sret True) (\<lambda>_. I) (\<lambda>_. I)" by (simp add: triple_def sret_def)
  show ?thesis
    unfolding execute_claimed_def
    by (intro triple_finally triple_bind[OF triple_catch[OF assms handler] ended])
qed

lemma build_client_rule:
  "triple I (build_client w)
     (\<lambda>client s. I s \<and> (\<forall>pv. client = Some pv \<longrightarrow> (\<exists>n c. ow_factory w n c = Inr pv))) (\<lambda>_. I)"
proof (rule tripleI)
  have kept: "I s \<Longrightarrow> build_client w s = (out, s') \<Longrightarrow> I s'" for s out s'
    using build_client_kept by (rule keepsD)
  show "I s \<Longrightarrow> build_client w s = (Inl e, s') \<Longrightarrow> I s'" for s e s' by (rule kept)
  fix s client s' assume "I s" and b: "build_client w s = (Inr client, s')"
  moreover from b have "\<exists>n c. ow_factory w n c = Inr pv" if "client = Some pv" for pv
    using that by (auto simp: build_client_def raised_in_thread_def monad_defs
        split: prod.split_asm sum.split_asm if_split_asm)
  ultimately show "I s' \<and> (\<forall>pv. client = Some pv \<longrightarrow> (\<exists>n c. ow_factory w n c = Inr pv))"
    using kept by blast
qed

end

text \<open>
  A pass: \<open>J\<close> holds until the executor starts, \<open>I\<close> from then on.  The execution is reached
  only with the scope of a loaded plan that contains the production root.
\<close>

lemma keeps_weaken: "keeps J m \<Longrightarrow> (\<And>s. J s \<Longrightarrow> I s) \<Longrightarrow> triple J m (\<lambda>_. I) (\<lambda>_. I)"
  unfolding keeps_triple by (erule triple_conseq) auto

lemma triple_pure: "(V \<Longrightarrow> triple P m Q E) \<Longrightarrow> triple (\<lambda>s. P s \<and> V) m Q E"
  by (cases V) (simp_all add: triple_def)

lemma run_claimed_rule:
  assumes J: "worker_invariant w J R" and I: "worker_invariant w I S" and JI: "\<And>s. J s \<Longrightarrow> I s"
    and run: "\<And>dirs intents pv n c. scope_loaded J (ow_exec w) (Some dirs) \<Longrightarrow> ow_root w \<in> set dirs
      \<Longrightarrow> ow_factory w n c = Inr pv \<Longrightarrow> triple J (run_execution w l dirs intents pv) (\<lambda>_. I) (\<lambda>_. I)"
  shows "triple J (run_claimed w l) (\<lambda>_. I) (\<lambda>_. I)"
proof -
  note service = worker_invariant.axioms[OF J]
  have refuse: "triple J (finish_failed (ow_exec w) l err) (\<lambda>_. I) (\<lambda>_. I)" for err
    by (rule keeps_weaken[OF service_invariant.finish_failed_kept[OF service] JI])
  have invalid: "triple J (sraise e) (\<lambda>_. I) (\<lambda>_. I)" for e
    by (rule keeps_weaken[OF keeps_basic(2) JI])
  have client: "triple J (sbind (build_client w) (\<lambda>client. case client of
      None \<Rightarrow> finish_failed (ow_exec w) l ''remote_write_failed''
    | Some pv \<Rightarrow> execute_claimed w l dirs intents pv)) (\<lambda>_. I) (\<lambda>_. I)"
    if "scope_loaded J (ow_exec w) (Some dirs)" "ow_root w \<in> set dirs" for dirs intents
  proof (rule triple_bind2[OF worker_invariant.build_client_rule[OF J]])
    fix client
    show "triple (\<lambda>s. J s \<and> (\<forall>pv. client = Some pv \<longrightarrow> (\<exists>n c. ow_factory w n c = Inr pv)))
      (case client of None \<Rightarrow> finish_failed (ow_exec w) l ''remote_write_failed''
       | Some pv \<Rightarrow> execute_claimed w l dirs intents pv) (\<lambda>_. I) (\<lambda>_. I)"
    proof (rule triple_pure[where P = J and V = "\<forall>pv. client = Some pv \<longrightarrow> (\<exists>n c. ow_factory w n c = Inr pv)"])
      assume made: "\<forall>pv. client = Some pv \<longrightarrow> (\<exists>n c. ow_factory w n c = Inr pv)"
      show "triple J (case client of None \<Rightarrow> finish_failed (ow_exec w) l ''remote_write_failed''
         | Some pv \<Rightarrow> execute_claimed w l dirs intents pv) (\<lambda>_. I) (\<lambda>_. I)"
      proof (cases client)
        case (Some pv)
        with made obtain n c where "ow_factory w n c = Inr pv" by blast
        from worker_invariant.execute_claimed_rule[OF I run[OF that this]] Some show ?thesis by simp
      qed (use refuse in simp)
    qed
  qed (use JI in auto)
  have load: "triple J (load_execution_steps (ow_exec w) oid) (\<lambda>_. J) (\<lambda>_. I)" for oid
    by (rule triple_conseq[OF service_invariant.load_execution_steps_kept[OF service,
            unfolded keeps_triple]]) (auto intro: JI)
  let ?after = "\<lambda>dirs steps. case steps of
      None \<Rightarrow> finish_failed (ow_exec w) l ''plan_prerequisites_changed''
    | Some sts \<Rightarrow>
        if sts = [] then finish_failed (ow_exec w) l ''plan_prerequisites_changed''
        else if \<not> list_all (object_intent_ok (xc_unicode (ow_exec w))) (plan_intents sts)
          then sraise (ServiceExn (ValueErr ''invalid_organization_intent''))
        else if \<not> distinct (map oi_object_id (plan_intents sts))
          then finish_failed (ow_exec w) l ''plan_prerequisites_changed''
        else
          sbind (build_client w) (\<lambda>client.
          case client of
            None \<Rightarrow> finish_failed (ow_exec w) l ''remote_write_failed''
          | Some pv \<Rightarrow> execute_claimed w l dirs (plan_intents sts) pv)"
  show ?thesis
    unfolding run_claimed_def
  proof (rule triple_bind2[OF service_invariant.plan_execution_scope_rule[OF service]])
    fix scope
    show "triple (\<lambda>s. J s \<and> scope_loaded J (ow_exec w) scope)
      (case scope of None \<Rightarrow> finish_failed (ow_exec w) l ''plan_prerequisites_changed''
       | Some dirs \<Rightarrow>
         if ow_root w \<notin> set dirs
           then finish_failed (ow_exec w) l ''plan_prerequisites_changed''
         else
           sbind (load_execution_steps (ow_exec w) (lease_operation_id l)) (?after dirs))
      (\<lambda>_. I) (\<lambda>_. I)"
    proof (rule triple_pure[where P = J and V = "scope_loaded J (ow_exec w) scope"])
      assume "scope_loaded J (ow_exec w) scope"
      then show "triple J (case scope of None \<Rightarrow> finish_failed (ow_exec w) l ''plan_prerequisites_changed''
         | Some dirs \<Rightarrow>
           if ow_root w \<notin> set dirs
             then finish_failed (ow_exec w) l ''plan_prerequisites_changed''
           else
             sbind (load_execution_steps (ow_exec w) (lease_operation_id l)) (?after dirs))
        (\<lambda>_. I) (\<lambda>_. I)"
        by (auto split: option.split intro!: refuse triple_bind[OF load] invalid client)
    qed
  qed (use JI in auto)
qed

lemma org_run_once_rule:
  assumes J: "worker_invariant w J R" and I: "worker_invariant w I S" and JI: "\<And>s. J s \<Longrightarrow> I s"
    and claim: "\<And>clk n st. R st (snd (claim_next (ow_interf w n False) (ow_interf w n True) clk
      (ow_token w n) default_lease_duration None st))"
    and run: "\<And>l dirs intents pv n c. scope_loaded J (ow_exec w) (Some dirs) \<Longrightarrow> ow_root w \<in> set dirs
      \<Longrightarrow> ow_factory w n c = Inr pv \<Longrightarrow> triple J (run_execution w l dirs intents pv) (\<lambda>_. I) (\<lambda>_. I)"
  shows "triple J (org_run_once w) (\<lambda>_. I) (\<lambda>_. I)"
proof -
  have claimed: "triple J (claim_oldest w) (\<lambda>_. J) (\<lambda>_. I)"
    by (rule triple_conseq[OF worker_invariant.claim_oldest_kept[OF J claim, unfolded keeps_triple]])
       (auto intro: JI)
  have idle: "triple J (sret False) (\<lambda>_. I) (\<lambda>_. I)" by (rule keeps_weaken[OF keeps_basic(1) JI])
  have "triple J (run_claimed w l) (\<lambda>_. I) (\<lambda>_. I)" for l
    by (rule run_claimed_rule[OF J I JI run])
  with idle show ?thesis
    unfolding org_run_once_def by (auto intro!: triple_bind[OF claimed] split: option.split)
qed

section \<open>Requests to the remote drive\<close>

definition recorded_factory :: "('r \<times> client_call list) org_worker \<Rightarrow> bool" where
  "recorded_factory w \<longleftrightarrow> (\<forall>n c pv. ow_factory w n c = Inr pv \<longrightarrow> (\<exists>pv0. pv = recorded pv0))"

text \<open>Meanwhile nobody else uses the worker's client, and no other session
  writes what the pass is based on.\<close>

definition undisturbed :: "('r \<times> client_call list) org_worker \<Rightarrow> bool" where
  "undisturbed w \<longleftrightarrow> client_idle snd (ow_exec w)
     \<and> (\<forall>n x. same_basis (wd_store x) (wd_store (xc_env (ow_exec w) n x)))"

text \<open>What the scan of a library in use says of a member and of a directory.\<close>

definition scanned_in :: "store \<Rightarrow> library_row \<Rightarrow> pystr \<Rightarrow> bool" where
  "scanned_in st lib rid \<longleftrightarrow>
     lib \<in> set (libraries st) \<and> lib_enabled lib \<and> lib_scope_verified lib
     \<and> map_option run_id (latest_run lib st) = Some rid"

definition managed_in :: "store \<Rightarrow> pystr \<Rightarrow> bool" where
  "managed_in st d \<longleftrightarrow>
     (\<exists>lib rid. scanned_in st lib rid
        \<and> managed_directory (lib_root_directory_id lib) (scan_rows rid st) d)"

definition scanned_member :: "store \<Rightarrow> exec_member \<Rightarrow> bool" where
  "scanned_member st m \<longleftrightarrow>
     valid_target_name (em_target_name m)
     \<and> (\<exists>lib rid. scanned_in st lib rid \<and> scanned_file (scan_rows rid st) m
          \<and> managed_directory (lib_root_directory_id lib) (scan_rows rid st) (em_source_parent_id m)
          \<and> managed_directory (lib_root_directory_id lib) (scan_rows rid st) (em_target_parent_id m))"

lemma same_scan_views:
  assumes "same_basis a b"
  shows "scanned_member b m = scanned_member a m" "managed_in b d = managed_in a d"
proof -
  have "scanned_in b = scanned_in a" "scan_rows rid b = scan_rows rid a" for rid
    using assms by (simp_all add: scanned_in_def fun_eq_iff latest_run_def scan_rows_def same_basis_def same_scan_def)
  then show "scanned_member b m = scanned_member a m" "managed_in b d = managed_in a d"
    by (simp_all add: scanned_member_def managed_in_def)
qed

lemma loaded_scanned:
  assumes "load_executable_steps u dg st clk pid = Some sts" and "step \<in> set sts"
  shows "m \<in> set (es_members step) \<Longrightarrow> scanned_member st m"
    and "d \<in> set (es_scope_directory_ids step) \<Longrightarrow> managed_in st d"
proof -
  from loaded_context[OF assms(1)] obtain p lib run where
    ctx: "plan_context st clk p = Some (lib, run)"
    and within: "run_id run = plan_source_scan_run_id p"
      "\<And>step. step \<in> set sts \<Longrightarrow> step_within (lib_root_directory_id lib) (scan_rows (run_id run) st) step"
    by metis
  let ?rid = "run_id run"
  have lib: "scanned_in st lib ?rid"
    using plan_context_Some[OF ctx] within(1) by (auto simp: scanned_in_def dest!: row_of_Some)
  note within = within(2)[OF assms(2)]
  show "m \<in> set (es_members step) \<Longrightarrow> scanned_member st m"
    using lib within unfolding scanned_member_def step_within_def by blast
  show "d \<in> set (es_scope_directory_ids step) \<Longrightarrow> managed_in st d"
    using lib within unfolding managed_in_def step_within_def
    by (auto simp: managed_directory_def member_parents_def)
qed

text \<open>A write that the plan of the operation names, of a file that the scan holds.\<close>

definition planned_write :: "unicode \<Rightarrow> store \<Rightarrow> pystr \<Rightarrow> client_call \<Rightarrow> bool" where
  "planned_write u st oid c \<longleftrightarrow>
     (\<exists>sts step m. planned_steps u st oid = Some sts \<and> step \<in> set sts \<and> m \<in> set (es_members step)
        \<and> scanned_member st m \<and> write_of m c)"

definition not_started :: "('r \<times> client_call list) live exec_state
    \<Rightarrow> ('r \<times> client_call list) org_worker \<Rightarrow> ('r \<times> client_call list) live exec_state \<Rightarrow> bool" where
  "not_started s0 w s \<longleftrightarrow>
     (undisturbed w \<longrightarrow> xs_trace s = [] \<and> client_log snd s = client_log snd s0
        \<and> same_basis (xs_store s0) (xs_store s))"

definition requests_ok :: "unicode \<Rightarrow> ('r \<times> client_call list) live exec_state
    \<Rightarrow> ('r \<times> client_call list) org_worker \<Rightarrow> ('r \<times> client_call list) live exec_state \<Rightarrow> bool" where
  "requests_ok u s0 w s \<longleftrightarrow>
     (undisturbed w \<and> recorded_factory w \<and> (\<exists>dg. xc_loader (ow_exec w) = load_executable_steps u dg) \<longrightarrow>
       (\<exists>cs oid. client_log snd s = client_log snd s0 @ cs \<and> length cs \<le> 48 * 128
          \<and> (cs \<noteq> [] \<longrightarrow> managed_in (xs_store s0) (ow_root w))
          \<and> (\<forall>c \<in> set cs. \<not> listing_call c \<longrightarrow> planned_write u (xs_store s0) oid c)))"

lemma await_idle:
  "client_idle snd cfg \<Longrightarrow> client_log snd (snd (await cfg s)) = client_log snd s"
  by (simp add: await_def Let_def client_idle_def)

lemma await_scan:
  "\<forall>n x. same_basis (wd_store x) (wd_store (xc_env cfg n x)) \<Longrightarrow> same_basis (xs_store s) (xs_store (snd (await cfg s)))"
  by (simp add: await_def Let_def)

interpretation before: worker_invariant w "not_started s0 w" same_basis
  for s0 and w :: "('r \<times> client_call list) org_worker"
  by unfold_locales
    (auto simp: not_started_def undisturbed_def await_idle intro: same_basis_trans await_scan)

interpretation after: worker_invariant w "requests_ok u s0 w" "\<lambda>_ _. True"
  for u s0 and w :: "('r \<times> client_call list) org_worker"
  by unfold_locales (auto simp: requests_ok_def undisturbed_def await_idle)

lemma execution_config_simps [simp]:
  "xc_transport (execution_config w lt) = live_seam (xc_unicode (ow_exec w)) lt"
  "xc_max_calls (execution_config w lt) = 128" "xc_min_interval (execution_config w lt) = 250000"
  "xc_env (execution_config w lt) = xc_env (ow_exec w)"
  "xc_loader (execution_config w lt) = xc_loader (ow_exec w)"
  "client_idle lg (execution_config w lt) = client_idle lg (ow_exec w)"
  "db_env (execution_config w lt) = db_env (ow_exec w)"
  by (auto simp: execution_config_def client_idle_def db_env_def max_transport_calls_def
      min_call_interval_def)

lemma make_live_Inr: "make_live u pv intents scope ok t live = Inr lt \<Longrightarrow> lt_c03 lt = c03_over pv"
  by (auto simp: make_live_def split: if_splits)

lemma run_plan_scanned:
  assumes env: "\<forall>n x. same_basis (wd_store x) (wd_store (xc_env cfg n x))"
    and loader: "xc_loader cfg = load_executable_steps u dg"
    and "plan_member (run_plan cfg oid s) m" and "write_of m c"
  shows "planned_write u (xs_store s) oid c"
proof -
  let ?w = "\<lambda>n x. xc_env cfg (xs_tick s + n) x"
  let ?st1 = "wd_store (?w 0 (xs_world s))" and ?st = "wd_store (?w 2 (?w 1 (?w 0 (xs_world s))))"
  from assms(3) obtain sts step where sts: "run_plan cfg oid s = Some sts" "step \<in> set sts"
    "m \<in> set (es_members step)" unfolding plan_member_def by blast
  from sts(1) obtain clk r where r: "get_op oid ?st1 = Some r"
    and loaded: "load_executable_steps u dg ?st clk (op_plan_id r) = Some sts"
    by (auto simp: run_plan_def Let_def loader split: option.split_asm)
  obtain p where "get_plan (op_plan_id r) ?st = Some p" "parse_executable_steps u p = Some sts"
    using load_Some[OF loaded] by metis
  moreover have "same_basis (xs_store s) ?st" "same_basis ?st1 ?st" using env by (meson same_basis_trans)+
  ultimately have "planned_steps u (xs_store s) oid = Some sts"
    using r same_basis_steps[of "xs_store s" ?st u oid]
    by (auto simp: same_basis_def planned_steps_def parse_executable_steps_def split: if_splits)
  moreover have "scanned_member (xs_store s) m"
    using loaded_scanned(1)[OF loaded sts(2,3)] \<open>same_basis (xs_store s) ?st\<close> by (simp add: same_scan_views)
  ultimately show ?thesis using sts(2,3) assms(4) unfolding planned_write_def by blast
qed

lemma run_execution_requests:
  assumes scope: "scope_loaded (not_started s0 w) (ow_exec w) (Some dirs)" "ow_root w \<in> set dirs"
    and factory: "ow_factory w n c = Inr pv"
  shows "triple (not_started s0 w) (run_execution w l dirs intents pv) (\<lambda>_. requests_ok u s0 w)
    (\<lambda>_. requests_ok u s0 w)"
proof -
  have JI: "not_started s0 w s \<Longrightarrow> requests_ok u s0 w s" for s
    by (auto simp: not_started_def requests_ok_def)
  have root: "managed_in (xs_store s0) (ow_root w)"
    if "undisturbed w" and loader: "xc_loader (ow_exec w) = load_executable_steps u dg" for dg
  proof -
    from scope obtain sts step where sts: "loaded_when (not_started s0 w) (ow_exec w) sts" "step \<in> set sts"
      "ow_root w \<in> set (es_scope_directory_ids step)" unfolding scope_loaded_def by auto
    from sts(1) obtain r pid where r: "not_started s0 w r"
      "load_executable_steps u dg (xs_store r) (wd_clock (xs_world r)) pid = Some sts"
      unfolding loaded_when_def loader by blast
    from r(1) that(1) have same: "same_basis (xs_store s0) (xs_store r)" by (simp add: not_started_def)
    show ?thesis using loaded_scanned(2)[OF r(2) sts(2,3)] same_scan_views(2)[OF same] by simp
  qed
  have run: "triple (not_started s0 w) (execute (execution_config w lt) oid rv token)
      (\<lambda>_. requests_ok u s0 w) (\<lambda>_. requests_ok u s0 w)"
    if lt: "lt_c03 lt = c03_over pv" for lt oid rv token
  proof -
    have "requests_ok u s0 w s'"
      if s: "not_started s0 w s" and ex: "execute (execution_config w lt) oid rv token s = (out, s')" for s out s'
      unfolding requests_ok_def
    proof
      assume env: "undisturbed w \<and> recorded_factory w
        \<and> (\<exists>dg. xc_loader (ow_exec w) = load_executable_steps u dg)"
      then obtain dg where loader: "xc_loader (ow_exec w) = load_executable_steps u dg" by blast
      from env s have tr: "xs_trace s = []" "client_log snd s = client_log snd s0"
        "same_basis (xs_store s0) (xs_store s)" by (simp_all add: not_started_def)
      from env factory obtain pv0 where "pv = recorded pv0" unfolding recorded_factory_def by blast
      with lt have c03: "lt_c03 lt = c03_over (recorded pv0)" by simp
      from env have idle: "client_idle snd (execution_config w lt)"
        and scans: "\<forall>n x. same_basis (wd_store x) (wd_store (xc_env (execution_config w lt) n x))"
        by (simp_all add: undisturbed_def)
      from execute_client_calls[OF ex tr(1) execution_config_simps(1) c03 idle]
      obtain cs where cs: "client_log snd s' = client_log snd s @ cs"
        "length cs \<le> 48 * n_calls (xs_trace s')"
        "\<forall>c \<in> set cs. \<not> listing_call c \<longrightarrow>
          (\<exists>m. plan_member (run_plan (execution_config w lt) oid s) m \<and> write_of m c)"
        by blast
      have written: "planned_write u (xs_store s0) oid c" if c: "c \<in> set cs" "\<not> listing_call c" for c
      proof -
        from cs(3) c obtain m where m: "plan_member (run_plan (execution_config w lt) oid s) m" "write_of m c"
          by blast
        have "planned_write u (xs_store s) oid c"
          by (rule run_plan_scanned[OF scans _ m]) (simp add: loader)
        then show ?thesis
          by (simp add: planned_write_def same_scan_views(1)[OF tr(3)] same_basis_steps[OF tr(3)])
      qed
      have "n_calls (xs_trace s') \<le> 128"
        using calls_within_budget(1)[OF ex tr(1)] by (auto simp: within_budget_def n_calls_def)
      with cs(1,2) tr(2) written root[OF _ loader] env
      show "\<exists>cs oid. client_log snd s' = client_log snd s0 @ cs
          \<and> length cs \<le> 48 * 128 \<and> (cs \<noteq> [] \<longrightarrow> managed_in (xs_store s0) (ow_root w))
          \<and> (\<forall>c \<in> set cs. \<not> listing_call c \<longrightarrow> planned_write u (xs_store s0) oid c)"
        by (intro exI[of _ cs] exI[of _ oid]) auto
    qed
    then show ?thesis by (auto simp: triple_def split: prod.split sum.split)
  qed
  have fresh: "triple (not_started s0 w) fresh_receipts (\<lambda>_. not_started s0 w) (\<lambda>_. requests_ok u s0 w)"
    by (simp add: triple_def fresh_receipts_def not_started_def)
  show ?thesis
  proof (cases "make_live (xc_unicode (ow_exec w)) pv intents dirs True transport_timeout True")
    case (Inl err)
    then show ?thesis using JI by (simp add: run_execution_def triple_def sraise_def)
  next
    case (Inr lt)
    have "triple (requests_ok u s0 w) (sret ()) (\<lambda>_. requests_ok u s0 w) (\<lambda>_. requests_ok u s0 w)"
      by (simp add: triple_def sret_def)
    then show ?thesis
      unfolding run_execution_def Inr sum.case
      by (intro triple_bind[OF fresh triple_bind[OF run[OF make_live_Inr[OF Inr]]]])
  qed
qed

text \<open>
  C1. End to end: the worker asks of the remote drive only what a plan says.  When, during one pass,
  nobody else uses the worker's client and no other session scans or rewrites plans or operations,
  the drive sees at most 6144 requests.  Apart from directory listings each is the move of a file to
  the very directory, or its renaming to the very name, that the stored plan of one operation, the
  same for the whole pass, gives for this file; and the latest complete scan of an enabled, verified
  library holds the file at its planned source, between managed directories of the library.  Nothing
  is requested unless the production root is itself a managed directory of such a scan.
\<close>

theorem worker_requests_planned:
  assumes "org_run_once w s = (out, s')" and "xs_trace s = []"
    and "undisturbed w" and "recorded_factory w"
    and "\<And>n b st. same_basis st (ow_interf w n b st)"
    and "xc_loader (ow_exec w) = load_executable_steps u dg"
  shows "\<exists>cs oid. client_log snd s' = client_log snd s @ cs \<and> length cs \<le> 6144
    \<and> (cs \<noteq> [] \<longrightarrow> managed_in (xs_store s) (ow_root w))
    \<and> (\<forall>c \<in> set cs. \<not> listing_call c \<longrightarrow>
         (\<exists>sts step m. planned_steps u (xs_store s) oid = Some sts \<and> step \<in> set sts
            \<and> m \<in> set (es_members step) \<and> scanned_member (xs_store s) m \<and> write_of m c))"
proof -
  have JI: "not_started s w r \<Longrightarrow> requests_ok u s w r" for r
    by (auto simp: not_started_def requests_ok_def)
  have claim: "same_basis st (snd (claim_next (ow_interf w n False) (ow_interf w n True) clk
      (ow_token w n) default_lease_duration None st))" for clk n st
    using scan_claim_next[OF assms(5,5)] by (simp add: scan_kept_def)
  have "triple (not_started s w) (org_run_once w) (\<lambda>_. requests_ok u s w) (\<lambda>_. requests_ok u s w)"
    by (rule org_run_once_rule[OF before.worker_invariant_axioms after.worker_invariant_axioms JI
          claim run_execution_requests])
  moreover have "not_started s w s" using assms(2) by (simp add: not_started_def)
  ultimately have "requests_ok u s w s'"
    using assms(1) by (cases out) (force simp: triple_def)+
  then show ?thesis using assms(3,4,6) unfolding requests_ok_def planned_write_def by auto
qed

section \<open>Database\<close>

definition db_since :: "store \<Rightarrow> 'r org_worker \<Rightarrow> 'r live exec_state \<Rightarrow> bool" where
  "db_since st0 w s \<longleftrightarrow> db_from (ow_exec w) st0 s"

interpretation worker_db: worker_invariant w "db_since st0 w" db_reach for st0 and w :: "'r org_worker"
  by unfold_locales (auto simp: db_since_def intro: db.keep_await db.keep_store)

lemma run_execution_db:
  "triple (db_since st0 w) (run_execution w l dirs intents pv) (\<lambda>_. db_since st0 w) (\<lambda>_. db_since st0 w)"
proof -
  have fresh: "triple (db_since st0 w) fresh_receipts (\<lambda>_. db_since st0 w) (\<lambda>_. db_since st0 w)"
    by (simp add: triple_def fresh_receipts_def db_since_def db_from_def)
  have run: "triple (db_since st0 w) (execute (execution_config w lt) oid rv token)
      (\<lambda>_. db_since st0 w) (\<lambda>_. db_since st0 w)" for lt oid rv token
  proof -
    have "db_since st0 w s'"
      if "db_since st0 w s" "execute (execution_config w lt) oid rv token s = (out, s')" for s out s'
    proof -
      let ?J = "db_from (execution_config w lt) st0"
      have "?J s" using that(1) by (simp add: db_since_def db_from_def)
      have "?J s' \<or> ?J s'"
        by (rule db.execute_end(1)[where J = ?J, OF db.keep_await _ _ \<open>?J s\<close> that(2)])
           (auto simp: db_from_def readable_member_def writable_member_def)
      then show ?thesis by (simp add: db_since_def db_from_def)
    qed
    then show ?thesis by (auto simp: triple_def split: prod.split sum.split)
  qed
  have ended: "triple (db_since st0 w) (sret ()) (\<lambda>_. db_since st0 w) (\<lambda>_. db_since st0 w)"
    by (simp add: triple_def sret_def)
  show ?thesis
    unfolding run_execution_def
    by (auto split: sum.split intro!: triple_bind[OF fresh triple_bind[OF run ended]])
       (simp add: triple_def sraise_def)
qed

text \<open>
  C38. A pass of the worker changes the database only through the service's atomic commits and
  keeps the table invariant, however it ends.
\<close>

theorem worker_keeps_database:
  assumes "org_run_once w s = (out, s')" and "db_env (ow_exec w)"
    and "\<And>n b st. db_reach st (ow_interf w n b st)" and "store_ok (xs_store s)"
  shows "db_reach (xs_store s) (xs_store s') \<and> store_ok (xs_store s')"
proof -
  let ?I = "db_since (xs_store s) w"
  have claim: "db_reach st (snd (claim_next (ow_interf w n False) (ow_interf w n True) clk
      (ow_token w n) default_lease_duration None st))" for clk n st
    using commits_claim_next[OF assms(3,3)] by (simp add: commits_only_def)
  have "triple ?I (org_run_once w) (\<lambda>_. ?I) (\<lambda>_. ?I)"
    by (rule org_run_once_rule[OF worker_db.worker_invariant_axioms worker_db.worker_invariant_axioms
          _ claim run_execution_db])
  moreover have "?I s" by (simp add: db_since_def db_from_def)
  ultimately have "?I s'" using assms(1) by (cases out) (force simp: triple_def)+
  then show ?thesis using assms(2,4) by (auto simp: db_since_def db_from_def intro: db_reach_ok)
qed

section \<open>A plan that is no longer current\<close>

text \<open>The oldest approved operation belongs to a plan the service refuses.\<close>

definition stale_head :: "time \<Rightarrow> store \<Rightarrow> op_row \<Rightarrow> bool" where
  "stale_head clk st r \<longleftrightarrow>
     oldest_planned st = Some r \<and> get_op (op_id r) st = Some r
     \<and> validate_identifier (op_id r) ''invalid_operation_id'' 40 = Inr ()
     \<and> (case get_plan (op_plan_id r) st of
          None \<Rightarrow> True | Some p \<Rightarrow> plan_status p \<noteq> PLAN_PLANNED \<or> \<not> plan_is_current clk st p)"

text \<open>
  Other sessions may do what they like, except what would take the operation out of the way: cancel
  it, approve an older one, make its plan current again, or cancel the worker's task.
\<close>

definition leaves_head :: "'r org_worker \<Rightarrow> op_row \<Rightarrow> bool" where
  "leaves_head w r \<longleftrightarrow>
     (\<forall>n b clk st. stale_head clk st r \<longrightarrow> stale_head clk (ow_interf w n b st) r)
     \<and> (\<forall>n x. stale_head (wd_clock x) (wd_store x) r \<longrightarrow>
          stale_head (wd_clock (xc_env (ow_exec w) n x)) (wd_store (xc_env (ow_exec w) n x)) r)
     \<and> (\<forall>n x. \<not> wd_abort (xc_env (ow_exec w) n x))"

lemma stale_later: "stale_head clk st r \<Longrightarrow> clk \<le> clk' \<Longrightarrow> stale_head clk' st r"
  unfolding stale_head_def
  by (fastforce simp: plan_is_current_def split: option.splits)

lemma stale_claim:
  assumes stale: "stale_head clk st r"
  obtains e st' where "claim i2 clk tok (op_id r) (op_revision r) default_lease_duration None st
      = (Inl (PrerequisiteError e), st')" and "stale_head clk st' r"
proof -
  have r: "get_op (op_id r) st = Some r" "validate_identifier (op_id r) ''invalid_operation_id'' 40 = Inr ()"
    and p: "case get_plan (op_plan_id r) st of None \<Rightarrow> True
      | Some p \<Rightarrow> plan_status p \<noteq> PLAN_PLANNED \<or> \<not> plan_is_current clk st p"
    using stale by (simp_all add: stale_head_def)
  obtain e st' where e: "ensure_planned_and_current clk (get_plan (op_plan_id r) st) st
      = (Inl (PrerequisiteError e), st')"
    and kept: "stale_head clk st' r"
  proof (cases "get_plan (op_plan_id r) st")
    case None
    then show ?thesis using stale by (intro that) (auto simp: ensure_planned_and_current_def)
  next
    case (Some q)
    show ?thesis
    proof (cases "plan_status q = PLAN_PLANNED")
      case False
      then show ?thesis using Some stale by (intro that) (auto simp: ensure_planned_and_current_def)
    next
      case True
      let ?st = "invalidate_plan q st"
      have ops: "ops ?st = ops st" by (simp add: invalidate_plan_def)
      have "get_plan (op_plan_id r) ?st
          = Some (q\<lparr>plan_status := PLAN_INVALIDATED, plan_revision := plan_revision q + 1\<rparr>)"
        using Some row_of_Some[OF Some[unfolded get_plan_def]]
        by (simp add: get_plan_def invalidate_plan_def row_of_update)
      with stale ops have "stale_head clk ?st r"
        unfolding stale_head_def by (simp add: oldest_planned_def get_op_def)
      with True Some p show ?thesis by (intro that) (auto simp: ensure_planned_and_current_def)
    qed
  qed
  then have "claim i2 clk tok (op_id r) (op_revision r) default_lease_duration None st
      = (Inl (PrerequisiteError e), st')"
    using r by (simp add: claim_def load_operation_def monad_defs Let_def
        validate_lease_duration_def default_lease_duration_def)
  then show thesis by (rule that) (fact kept)
qed

lemma stale_refused:
  assumes "stale_head clk st r" and "stale_head clk (i1 st) r"
  obtains e st' where "claim_next i1 i2 clk tok default_lease_duration None st
      = (Inl (PrerequisiteError e), st')" and "stale_head clk st' r"
proof -
  from assms(2) obtain e st' where "claim i2 clk tok (op_id r) (op_revision r) default_lease_duration None (i1 st)
      = (Inl (PrerequisiteError e), st')" and kept: "stale_head clk st' r" by (rule stale_claim)
  with assms(1) have "claim_next i1 i2 clk tok default_lease_duration None st = (Inl (PrerequisiteError e), st')"
    by (simp add: claim_next_def stale_head_def monad_defs interleave_def)
  then show thesis by (rule that) (fact kept)
qed

lemma stale_pass:
  assumes "leaves_head w r" and "stale_head (wd_clock (xs_world s)) (xs_store s) r"
  obtains e s' where "org_run_once w s = (Inl (ServiceExn (PrerequisiteError e)), s')"
    and "xs_trace s' = xs_trace s" and "xs_tick s' = Suc (xs_tick s)"
    and "stale_head (wd_clock (xs_world s')) (xs_store s') r"
proof -
  let ?x = "xc_env (ow_exec w) (xs_tick s) (xs_world s)" and ?n = "Suc (xs_tick s)"
  from assms have env: "stale_head (wd_clock ?x) (wd_store ?x) r" "\<not> wd_abort ?x"
    by (simp_all add: leaves_head_def)
  with assms(1) have "stale_head (wd_clock ?x) (ow_interf w ?n False (wd_store ?x)) r"
    by (simp add: leaves_head_def)
  with env(1) obtain e st' where st: "claim_next (ow_interf w ?n False) (ow_interf w ?n True) (wd_clock ?x)
      (ow_token w ?n) default_lease_duration None (wd_store ?x) = (Inl (PrerequisiteError e), st')"
    "stale_head (wd_clock ?x) st' r" by (rule stale_refused)
  show thesis
    by (rule that[of e "s\<lparr>xs_world := ?x\<lparr>wd_store := st'\<rparr>, xs_tick := ?n\<rparr>"])
       (use st env(2) in \<open>simp_all add: org_run_once_def claim_oldest_def service_def sbind_def await_def
          service_effect_def Let_def\<close>)
qed

text \<open>
  C26. One stale plan stops the worker.  Suppose the oldest approved operation's plan is missing,
  already invalidated, expired or otherwise not current; nobody else cancels the operation, approves
  an older one or revives its plan, nobody cancels the worker's task, and the stop event stays
  unset.  Then after any number of passes of \<open>run_forever\<close> the operation is still approved and the
  oldest, no transport call was made, so nothing behind it was executed; each pass took one
  await, never the wait for the poll interval; and the next pass too is refused with a prerequisite
  error.
\<close>

theorem worker_blocked_by_stale_head:
  assumes "stale_head (wd_clock (xs_world s)) (xs_store s) r" and "leaves_head w r"
    and "\<And>x. \<not> stop x"
  shows "\<exists>s' e. org_run_forever k stop w s = (Inr False, s')
    \<and> oldest_planned (xs_store s') = Some r
    \<and> xs_trace s' = xs_trace s \<and> xs_tick s' = xs_tick s + k
    \<and> fst (org_run_once w s') = Inl (ServiceExn (PrerequisiteError e))"
  using assms(1)
proof (induction k arbitrary: s)
  case 0
  from stale_pass[OF assms(2) 0] obtain e s1 where
    "org_run_once w s = (Inl (ServiceExn (PrerequisiteError e)), s1)" by metis
  with 0 show ?case by (auto simp: sret_def stale_head_def)
next
  case (Suc k)
  from stale_pass[OF assms(2) Suc.prems] obtain e s1 where
    s1: "org_run_once w s = (Inl (ServiceExn (PrerequisiteError e)), s1)"
      "xs_trace s1 = xs_trace s" "xs_tick s1 = Suc (xs_tick s)"
    and stale: "stale_head (wd_clock (xs_world s1)) (xs_store s1) r" .
  from s1(1) have "org_run_forever (Suc k) stop w s = org_run_forever k stop w s1"
    by (simp add: assms(3) monad_defs)
  with Suc.IH[OF stale] s1(2-) show ?case by auto
qed

end
