(* ===== verification/Plan_Loader_Demo.thy ===== *)
theory Plan_Loader_Demo
  imports Plan_Loader_Props "HOL-Library.Code_Target_Nat"
begin

text \<open>
  A concrete plan with one renaming, the scan it was made from, and its library.  Evaluated in
  the kernel, it instantiates the properties of the loader.
\<close>

definition jobj :: "(string \<times> json) list \<Rightarrow> json" where
  "jobj kvs = JObj (map (\<lambda>(k, v). (lit k, v)) kvs)"

definition saga_snapshot :: json where
  "saga_snapshot = jobj [(''object_type'', JStr [1]), (''object_id'', JStr (lit ''5'')), (''parent_id'', JStr (lit ''9'')),
     (''path'', JStr [3]), (''name'', JStr (lit ''a'')), (''remote_version'', JStr [4]), (''is_directory'', JBool False)]"

definition saga_execution :: json where
  "saga_execution = jobj [(''order'', JInt 0), (''kind'', JStr (lit ''move'')),
     (''scope_directory_ids'', JList [JStr (lit ''9'')]),
     (''members'', JList [jobj [(''object_type'', JStr [1]), (''object_id'', JStr (lit ''5'')),
        (''source_parent_id'', JStr (lit ''9'')), (''source_path'', JStr [3]), (''source_name'', JStr (lit ''a'')),
        (''source_version'', JStr [4]), (''target_parent_id'', JStr (lit ''9'')), (''target_name'', JStr (lit ''b''))]])]"

definition saga_action :: json where
  "saga_action = jobj [(''kind'', JStr (lit ''move'')), (''order'', JInt 0), (''object_type'', JStr [1]),
     (''object_id'', JStr (lit ''5'')), (''source_parent_id'', JStr (lit ''9'')), (''source_path'', JStr [3]),
     (''source_name'', JStr (lit ''a'')), (''source_version'', JStr [4]), (''target'', JStr (lit ''b'')),
     (''target_parent_id'', JStr (lit ''9'')), (''target_name'', JStr (lit ''b'')), (''execution'', saga_execution)]"

definition saga_precondition :: json where
  "saga_precondition = jobj [(''source_index'', JInt 0), (''object_type'', JStr [1]),
     (''object_id'', JStr (lit ''5'')), (''parent_id'', JStr (lit ''9'')), (''source_path'', JStr [3]),
     (''source_name'', JStr (lit ''a'')), (''remote_version'', JStr [4]), (''source_snapshot_revision'', JInt 7),
     (''target'', JStr (lit ''b'')), (''target_parent_id'', JStr (lit ''9'')), (''target_name'', JStr (lit ''b'')),
     (''rule_version'', JStr [65]), (''parser_version'', JStr [65]), (''matcher_version'', JStr [65]),
     (''target_conflict'', JBool False), (''execution'', saga_execution)]"

definition saga_library :: library_row where
  "saga_library = \<lparr>lib_id = [8], lib_root_directory_id = lit ''9'', lib_scope_verified = True,
     lib_enabled = True, lib_revision = 3\<rparr>"

definition saga_run :: run_row where
  "saga_run = \<lparr>run_id = [7], run_library_id = [8], run_root_directory_id = lit ''9'',
     run_state = SCAN_COMPLETED, run_complete = True, run_snapshot_revision = Some 7,
     run_idempotency_key = [1], run_expected_page_count = Some 1, run_expected_total = None,
     run_pages_read = 1, run_items_seen = 1, run_added_count = 1, run_changed_count = 0,
     run_removed_count = 0, run_error_code = None, run_created_at = 0, run_updated_at = 0\<rparr>"

definition saga_entry :: scan_entry where
  "saga_entry = \<lparr>se_scan_run_id = [7], se_object_type = [1], se_object_id = lit ''5'', se_parent_id = Some (lit ''9''),
     se_name = lit ''a'', se_path = Some [3], se_is_directory = False,
     se_size_bytes = None, se_modified_at = None\<rparr>"

definition saga_plan :: plan_row where
  "saga_plan = \<lparr>plan_id = [6], plan_library_id = [8], plan_source_scan_run_id = [7],
     plan_source_snapshot_revision = 7, plan_source_snapshot = Some (JList [saga_snapshot]),
     plan_target_root = [], plan_actions = Some (JList [saga_action]),
     plan_preconditions = Some (jobj [(''library'', library_snapshot saga_library),
       (''items'', JList [saga_precondition])]),
     plan_rule_version = [65], plan_parser_version = [65], plan_matcher_version = [65],
     plan_status = PLAN_PLANNED, plan_revision = 1, plan_expires_at = 1000000, plan_hash = [2],
     plan_basis = None, plan_alias = None, plan_created_at = 0\<rparr>"

definition saga_store :: store where
  "saga_store = \<lparr>ops = [], plans = [saga_plan], libraries = [saga_library], runs = [saga_run],
     scan_entries = [saga_entry], events = [], checkpoints = [], diffs = [], ledger = [],
     inventory_events = [], media_identities = []\<rparr>"

definition plain_digest :: "json \<Rightarrow> pystr" where
  "plain_digest j = [2]"

definition saga_steps :: "exec_step list" where
  "saga_steps = [\<lparr>es_order = 0, es_kind = lit ''move'', es_scope_directory_ids = [lit ''9''],
     es_members = [\<lparr>em_object_type = [1], em_object_id = lit ''5'', em_source_parent_id = lit ''9'',
       em_source_path = [3], em_source_name = lit ''a'', em_source_version = [4],
       em_target_parent_id = lit ''9'', em_target_name = lit ''b''\<rparr>]\<rparr>]"

lemma saga_loads:
  "load_executable_steps ascii_unicode plain_digest saga_store 10 [6] = Some saga_steps"
  by code_simp

lemma saga_get_plan: "get_plan [6] saga_store = Some saga_plan"
  by (simp add: get_plan_def saga_store_def saga_plan_def)

section \<open>Witnesses\<close>

theorem loaded_steps_scanned_witness:
  "\<exists>p lib. get_plan [6] saga_store = Some p \<and> plan_status p = PLAN_PLANNED
    \<and> 10 < plan_expires_at p \<and> map_option run_id (latest_run lib saga_store) = Some (plan_source_scan_run_id p)"
proof -
  from loaded_steps_scanned[OF saga_loads] obtain p lib where
    "get_plan [6] saga_store = Some p" "plan_status p = PLAN_PLANNED" "10 < plan_expires_at p"
    "map_option run_id (latest_run lib saga_store) = Some (plan_source_scan_run_id p)" by auto
  then show ?thesis by (intro exI conjI)
qed

theorem loaded_members_distinct_witness:
  "distinct (map member_key (concat (map es_members saga_steps)))
    \<and> map es_order saga_steps = map int [0..<length saga_steps]"
  by (rule loaded_members_distinct[OF saga_loads])

theorem loaded_plan_is_current_witness:
  "\<exists>p. get_plan [6] saga_store = Some p \<and> plan_is_current 10 saga_store p"
  using loaded_plan_is_current[OF saga_loads] by blast

text \<open>The same plan read again while one of its operations runs.\<close>

definition saga_op :: op_row where
  "saga_op = \<lparr>op_id = [4], op_plan_id = [6], op_plan_revision = 1, op_idempotency_key = [1],
     op_status = OP_PLANNED, op_revision = 1, op_attempts = 0, op_lease_token = None,
     op_lease_expires_at = None, op_error_code = None, op_created_at = 1, op_updated_at = 1,
     op_finished_at = None\<rparr>"

definition saga_later :: store where
  "saga_later = saga_store\<lparr>ops := [saga_op], events := []\<rparr>"

lemma saga_later_loads:
  "load_executable_steps ascii_unicode plain_digest saga_later 10 [6] = Some saga_steps"
  unfolding saga_later_def load_frame by (rule saga_loads)

theorem digest_fixes_steps_witness:
  "the (load_executable_steps ascii_unicode plain_digest saga_later 10 [6]) = saga_steps"
proof -
  have plan: "get_plan [6] saga_later = Some saga_plan"
    using saga_get_plan by (simp add: saga_later_def)
  have same: "loaded_canonical ascii_unicode saga_later 10 p = loaded_canonical ascii_unicode saga_store 10 p" for p
    by (simp add: loaded_canonical_def saga_later_def)
  have "saga_steps = the (load_executable_steps ascii_unicode plain_digest saga_later 10 [6])"
    unfolding saga_later_loads option.sel
    by (rule digest_fixes_steps[OF saga_loads saga_get_plan saga_later_loads plan refl]) (simp add: same)
  then show ?thesis by simp
qed

end
