(* ===== verification/Live_Demo.thy ===== *)
theory Live_Demo
  imports Live_Props "HOL-Library.Code_Target_Nat"
begin

text \<open>
  Concrete drives: one that holds files and carries out moves and renames, with an execution
  of a plan over it, and one with fixed contents that answers every listing honestly.  They
  instantiate the properties of the live transport.
\<close>

section \<open>Responses\<close>

definition entry_json :: "remote_entry \<Rightarrow> json" where
  "entry_json e =
     JObj [(lit ''fid'', JStr (en_file_id e)), (lit ''pid'', JStr (en_parent_id e)),
           (lit ''n'', JStr (en_name e)), (lit ''is_dir'', JBool False)]"

definition page_json :: "int \<Rightarrow> remote_entry list \<Rightarrow> json" where
  "page_json k es =
     JObj [(lit ''state'', JBool True), (lit ''offset'', JInt k), (lit ''limit'', JInt 1),
           (lit ''count'', JInt (int (length es))),
           (lit ''data'', JList (map entry_json (take 1 (drop (nat k) es))))]"

definition done_json :: json where
  "done_json = JObj [(lit ''state'', JBool True)]"

definition arg :: "payload \<Rightarrow> string \<Rightarrow> pystr" where
  "arg p k = (case jget (JObj p) k of JStr s \<Rightarrow> s | _ \<Rightarrow> [])"

text \<open>A drive is the list of its files; a rename names its file in the key.\<close>

fun drive_call :: "client_method \<Rightarrow> payload \<Rightarrow> int \<Rightarrow> remote_entry list
    \<Rightarrow> (client_exn + json) \<times> remote_entry list" where
  "drive_call FS_FILES p t es =
     (Inr (page_json (case jget (JObj p) ''offset'' of JInt k \<Rightarrow> k | _ \<Rightarrow> 0)
             (filter (\<lambda>e. en_parent_id e = arg p ''cid'') es)), es)"
| "drive_call FS_MOVE p t es =
     (Inr done_json, map (\<lambda>e. if en_file_id e = arg p ''fid'' then e\<lparr>en_parent_id := arg p ''pid''\<rparr> else e) es)"
| "drive_call FS_RENAME p t es =
     (Inr done_json,
      (case p of
         [(key, JStr name)] \<Rightarrow>
           map (\<lambda>e. if key = lit ''files_new_name['' @ en_file_id e @ lit '']'' then e\<lparr>en_name := name\<rparr>
                    else e) es
       | _ \<Rightarrow> es))"
| "drive_call _ p t es = (Inl (plain_exn OtherExn), es)"

definition drive :: "remote_entry list provider" where
  "drive = \<lparr>pv_call = drive_call, pv_callable = (\<lambda>_. False), pv_monotonic = Pair 0,
            pv_sleep = (\<lambda>_ r. r), pv_timeout_transport = True\<rparr>"

section \<open>An execution over a drive\<close>

definition film :: remote_entry where
  "film = \<lparr>en_file_id = lit ''7'', en_parent_id = lit ''1'', en_name = lit ''a'', en_is_directory = False\<rparr>"

definition film_intent :: object_intent where
  "film_intent = \<lparr>oi_object_id = lit ''7'', oi_source_parent_id = lit ''1'', oi_source_name = lit ''a'',
     oi_target_parent_id = lit ''2'', oi_target_name = lit ''b''\<rparr>"

definition film_transport :: "(remote_entry list \<times> client_call list) live_transport" where
  "film_transport = projr (make_live ascii_unicode (recorded drive) [film_intent] [lit ''1'', lit ''2'']
     True 30000000 True)"

definition film_steps :: "exec_step list" where
  "film_steps = [\<lparr>es_order = 0, es_kind = [], es_scope_directory_ids = [lit ''1'', lit ''2''],
     es_members = [\<lparr>em_object_type = [], em_object_id = lit ''7'', em_source_parent_id = lit ''1'',
       em_source_path = [], em_source_name = lit ''a'', em_source_version = [],
       em_target_parent_id = lit ''2'', em_target_name = lit ''b''\<rparr>]\<rparr>]"

definition film_token :: pystr where
  "film_token = replicate 32 1"

definition film_store :: store where
  "film_store = \<lparr>ops = [\<lparr>op_id = [5], op_plan_id = [6], op_plan_revision = 1,
       op_idempotency_key = [7], op_status = OP_ORGANIZING, op_revision = 2, op_attempts = 1,
       op_lease_token = Some film_token, op_lease_expires_at = Some 1000, op_error_code = None,
       op_created_at = 0, op_updated_at = 0, op_finished_at = None\<rparr>],
     plans = [], libraries = [], runs = [], scan_entries = [], events = [], checkpoints = [], diffs = [], ledger = [],
     inventory_events = [], media_identities = []\<rparr>"

definition film_config :: "(remote_entry list \<times> client_call list) live exec_config" where
  "film_config =
     \<lparr>xc_transport = live_seam ascii_unicode film_transport, xc_max_calls = 128, xc_min_interval = 0,
      xc_cancel_event = True, xc_now = None, xc_loader = (\<lambda>_ _ _. Some film_steps),
      xc_unicode = ascii_unicode, xc_env = (\<lambda>_ w. w), xc_ids = (\<lambda>n k. [n, k]),
      xc_set_order = remdups\<rparr>"

definition film_start :: "(remote_entry list \<times> client_call list) live exec_state" where
  "film_start =
     \<lparr>xs_world = \<lparr>wd_store = film_store, wd_remote = \<lparr>lv_remote = ([film], []), lv_receipts = []\<rparr>,
                  wd_clock = 0, wd_mono = 0, wd_cancel = False, wd_abort = False\<rparr>,
      xs_tick = 0, xs_ctx = fresh_context film_config [5] 2 film_token, xs_trace = []\<rparr>"

definition film_run where
  "film_run = execute film_config [5] 2 film_token film_start"

lemma film_organized:
  "map_sum id xr_status (fst film_run) = Inr EXEC_ORGANIZED
   \<and> fst (lv_remote (wd_remote (xs_world (snd film_run))))
     = [film\<lparr>en_parent_id := lit ''2'', en_name := lit ''b''\<rparr>]
   \<and> map fst (client_log snd (snd film_run))
     = [FS_FILES, FS_FILES, FS_FILES, FS_MOVE, FS_RENAME, FS_FILES, FS_FILES]"
  by code_simp

lemma film_facts [simp]:
  "xs_trace film_start = []" "xc_transport film_config = live_seam ascii_unicode film_transport"
  "client_idle snd film_config" "client_log snd film_start = []"
  by (simp_all add: film_start_def film_config_def client_idle_def)

lemma film_transport_c03 [simp]: "lt_c03 film_transport = c03_over (recorded drive)"
proof -
  have "validate_live_scope ascii_unicode [film_intent] [lit ''1'', lit ''2''] True" by code_simp
  then show ?thesis by (simp add: film_transport_def make_live_def)
qed

lemma film_executes: "execute film_config [5] 2 film_token film_start = (fst film_run, snd film_run)"
  by (simp add: film_run_def)

theorem execute_client_calls_witness:
  "length (client_log snd (snd film_run)) \<le> 48 * n_calls (xs_trace (snd film_run))
   \<and> map fst (client_log snd (snd film_run))
     = [FS_FILES, FS_FILES, FS_FILES, FS_MOVE, FS_RENAME, FS_FILES, FS_FILES]"
proof -
  obtain cs where "client_log snd (snd film_run) = cs" "length cs \<le> 48 * n_calls (xs_trace (snd film_run))"
    using execute_client_calls[OF film_executes film_facts(1,2) film_transport_c03 film_facts(3)] by auto
  then show ?thesis using film_organized by simp
qed

lemma film_listing:
  "list_children ascii_unicode (c03_over drive) (lit ''1'') 30000000 [film]
     = (Inr \<lparr>ls_entries = [film], ls_complete = True, ls_page_calls = 1\<rparr>, [film])"
  by code_simp

theorem complete_listing_bound_witness: "distinct (map en_file_id [film]) \<and> length [film] \<le> 1"
  using complete_listing_bound[OF film_listing] by simp

section \<open>A drive with fixed contents\<close>

definition fixed_dir :: "remote_entry list \<Rightarrow> pystr \<Rightarrow> remote_entry list" where
  "fixed_dir es p = filter (\<lambda>e. en_parent_id e = p) es"

definition fixed_drive :: "remote_entry list \<Rightarrow> unit provider" where
  "fixed_drive es =
     \<lparr>pv_call = (\<lambda>m p t r. (fst (drive_call m p t es), r)), pv_callable = (\<lambda>_. False),
      pv_monotonic = Pair 0, pv_sleep = (\<lambda>_ r. r), pv_timeout_transport = True\<rparr>"

definition plain_file :: "remote_entry \<Rightarrow> bool" where
  "plain_file e \<longleftrightarrow> stable_id ascii_unicode (en_file_id e) \<and> stable_id ascii_unicode (en_parent_id e)
     \<and> en_name e \<noteq> [] \<and> 0 \<notin> set (en_name e) \<and> \<not> en_is_directory e"

lemma entry_json_normal:
  assumes "plain_file e"
  shows "normalize_list_entry ascii_unicode (en_parent_id e) (entry_json e) = Some e"
  using assms
  by (simp add: plain_file_def normalize_list_entry_def entry_json_def directory_marker_def
      single_field_def single_id_def single_text_def jget_def lit_eq id_value_def text_value_def
      bool_value_def name_fields_def del: lit_simps)

lemma page_json_normal:
  assumes "k \<le> length es" and "\<forall>e \<in> set es. plain_file e \<and> en_parent_id e = p"
  shows "normalize_files_page ascii_unicode p (int k) (page_json (int k) es)
    = Inr (Some (take 1 (drop k es), int (length es)))"
proof -
  let ?one = "take 1 (drop k es)"
  have records: "page_records (page_json (int k) es) = Some (map entry_json ?one)"
    by (simp add: page_records_def page_json_def jget_def lit_eq list_all_iff entry_json_def
        del: lit_simps)
  have "map (normalize_list_entry ascii_unicode p) (map entry_json ?one) = map Some ?one"
    using assms(2) by (auto simp: entry_json_normal dest!: in_set_takeD in_set_dropD)
  then have "all_some (map (normalize_list_entry ascii_unicode p) (map entry_json ?one)) = Some ?one"
    by (simp only: all_some_Some)
  moreover have "int (length ?one) = min 1 (int (length es) - int k)" using assms(1) by auto
  ultimately have "page_entries ascii_unicode p (int k) (Some (int k)) (Some 1) (int (length es))
      (map entry_json ?one) = Some ?one"
    using assms(1) by (auto simp: page_entries_def page_size_def)
  with records show ?thesis
    by (simp add: normalize_files_page_def rbind_def page_json_def response_success_def jget_def
        lit_eq integer_value_def page_size_def del: lit_simps)
qed

definition fixed_transport :: "remote_entry list \<Rightarrow> unit live_transport" where
  "fixed_transport es =
     \<lparr>lt_c03 = c03_over (fixed_drive es), lt_intents = [(lit ''7'', film_intent)],
      lt_targets = [(lit ''2'', lit ''b'')], lt_managed = [lit ''1'', lit ''2''],
      lt_scope_confirmed = True, lt_timeout = 30000000\<rparr>"

lemma fixed_serves:
  assumes "\<forall>e \<in> set es. plain_file e"
  shows "serves ascii_unicode (timeout_call (fixed_drive es)) p (fixed_dir es p)"
  unfolding serves_def
proof (intro allI impI)
  fix k :: nat and t :: int and r :: unit
  assume k: "k \<le> length (fixed_dir es p) \<and> 0 < t"
  let ?page = "page_json (int k) (fixed_dir es p)"
  have "fst (timeout_call (fixed_drive es) FS_FILES (files_payload p (int k)) t r) = Inr ?page"
    using k by (simp add: timeout_call_def fixed_drive_def scatch_def files_payload_def jget_def arg_def
        fixed_dir_def lit_eq del: lit_simps)
  moreover have "structured_405 ?page = Inr False"
    by (simp add: structured_405_def page_json_def jget_def lit_eq in_405_def rbind_def
        del: lit_simps)
  moreover have "normalize_files_page ascii_unicode p (int k) ?page
      = Inr (Some (take 1 (drop k (fixed_dir es p)), int (length (fixed_dir es p))))"
    by (rule page_json_normal) (use k assms in \<open>auto simp: fixed_dir_def\<close>)
  ultimately show "\<exists>resp. fst (timeout_call (fixed_drive es) FS_FILES (files_payload p (int k)) t r) = Inr resp
      \<and> structured_405 resp = Inr False
      \<and> normalize_files_page ascii_unicode p (int k) resp
          = Inr (Some (take 1 (drop k (fixed_dir es p)), int (length (fixed_dir es p))))"
    by blast
qed

lemma fixed_honest:
  assumes "\<forall>e \<in> set es. plain_file e" and "distinct (map en_file_id es)"
  shows "honest_drive ascii_unicode (fixed_transport es) (fixed_dir es)"
  unfolding honest_drive_def
proof (intro conjI allI)
  show "\<exists>ask. c3_call (lt_c03 (fixed_transport es)) = Some ask
      \<and> (\<forall>p. serves ascii_unicode ask p (fixed_dir es p))"
    using fixed_serves[OF assms(1)] by (simp add: fixed_transport_def c03_over_def)
  show "distinct (map en_file_id (fixed_dir es p))" for p
    using assms(2) by (simp add: fixed_dir_def distinct_map_filter)
  show "fst (c3_monotonic (lt_c03 (fixed_transport es)) r')
      < fst (c3_monotonic (lt_c03 (fixed_transport es)) r) + lt_timeout (fixed_transport es)" for r r'
    by (simp add: fixed_transport_def c03_over_def fixed_drive_def)
qed

lemma film_plain: "plain_file film"
  by code_simp

lemma film_honest: "honest_drive ascii_unicode (fixed_transport [film]) (fixed_dir [film])"
  by (rule fixed_honest) (simp_all add: film_plain)

definition fixed_start :: "unit live" where
  "fixed_start = \<lparr>lv_remote = (), lv_receipts = []\<rparr>"

theorem live_read_target_exact_witness:
  "fst (live_read_target ascii_unicode (fixed_transport [film]) (lit ''2'') (lit ''b'') fixed_start)
     = Inr None"
  by (subst live_read_target_exact[OF film_honest])
     (simp_all add: fixed_transport_def fixed_dir_def film_def lit_eq single_match_def del: lit_simps)

theorem live_read_object_exact_witness:
  "fst (live_read_object ascii_unicode (fixed_transport [film]) (lit ''7'') fixed_start)
     = Inr (Some (entry_state film))"
proof -
  have i: "live_intent ascii_unicode (fixed_transport [film]) (lit ''7'') fixed_start
      = (Inr film_intent, fixed_start)" by code_simp
  show ?thesis
    by (subst live_read_object_exact[OF film_honest i])
       (simp_all add: film_intent_def fixed_transport_def fixed_dir_def film_def lit_eq
         single_match_def entry_state_def intent_observation_def del: lit_simps)
qed

text \<open>Five files in the source directory.\<close>

definition crowd :: "remote_entry list" where
  "crowd = map (\<lambda>c. \<lparr>en_file_id = [c], en_parent_id = lit ''1'', en_name = [97, c],
                      en_is_directory = False\<rparr>) [51, 52, 53, 54, 55]"

definition crowd_config :: "unit live exec_config" where
  "crowd_config =
     \<lparr>xc_transport = live_seam ascii_unicode (fixed_transport crowd), xc_max_calls = 128,
      xc_min_interval = 0, xc_cancel_event = True, xc_now = None,
      xc_loader = (\<lambda>_ _ _. Some film_steps), xc_unicode = ascii_unicode, xc_env = (\<lambda>_ w. w),
      xc_ids = (\<lambda>n k. [n, k]), xc_set_order = remdups\<rparr>"

definition crowd_start :: "unit live exec_state" where
  "crowd_start =
     \<lparr>xs_world = \<lparr>wd_store = film_store, wd_remote = fixed_start, wd_clock = 0, wd_mono = 0,
                  wd_cancel = False, wd_abort = False\<rparr>,
      xs_tick = 0, xs_ctx = fresh_context crowd_config [5] 2 film_token, xs_trace = []\<rparr>"

lemma page_json_count:
  "normalize_files_page u p off (page_json k es) = Inr (Some (xs, amount)) \<Longrightarrow> amount = int (length es)"
  by (auto simp: normalize_files_page_def rbind_Inr page_json_def jget_def lit_eq integer_value_def
      split: if_splits option.splits)

lemma crowd_counts: "counts_at_least ascii_unicode (fixed_transport crowd) (lit ''1'') 5"
  unfolding counts_at_least_def
proof (intro allI impI, elim conjE)
  fix ask m off t r resp es amount
  assume "c3_call (lt_c03 (fixed_transport crowd)) = Some ask"
    and m: "m = FS_FILES \<or> app_method (lt_c03 (fixed_transport crowd)) FS_FILES_APP = Some m"
    and resp: "fst (ask m (files_payload (lit ''1'') off) t r) = Inr resp"
    and page: "normalize_files_page ascii_unicode (lit ''1'') off resp = Inr (Some (es, amount))"
  then have ask: "ask = timeout_call (fixed_drive crowd)" "m = FS_FILES"
    by (auto simp: fixed_transport_def c03_over_def fixed_drive_def app_method_def split: if_splits)
  have "length (fixed_dir crowd (lit ''1'')) = 5" by (simp add: fixed_dir_def crowd_def)
  moreover have "resp = page_json off (fixed_dir crowd (lit ''1''))"
    using resp by (simp add: ask timeout_call_def fixed_drive_def scatch_def files_payload_def jget_def arg_def
        fixed_dir_def lit_eq sraise_def split: if_splits del: lit_simps)
  ultimately show "5 \<le> amount" using page page_json_count by fastforce
qed

theorem large_directory_stalls_witness:
  "n_writes (xs_trace (snd (execute crowd_config [5] 2 film_token crowd_start))) = 0"
proof (rule large_directory_stalls[OF surjective_pairing])
  have "lt_intents (fixed_transport crowd) = [(lit ''7'', film_intent)]" "oi_source_parent_id film_intent = lit ''1''"
    by (simp_all add: fixed_transport_def film_intent_def)
  with crowd_counts show "\<forall>(x, i) \<in> set (lt_intents (fixed_transport crowd)).
      counts_at_least ascii_unicode (fixed_transport crowd) (oi_source_parent_id i) 5"
    by (simp del: lit_simps)
qed (simp_all add: crowd_start_def crowd_config_def)

end
