(* ===== verification/Org_Worker_Demo.thy ===== *)
theory Org_Worker_Demo
  imports Org_Worker_Props Plan_Loader_Demo Live_Demo
begin

text \<open>
  A pass of the worker from the claim to the stored result: the plan of the loader's example is
  approved, its file lies on a drive, and the worker renames it there.  The same store with an
  expired plan shows the loop that gets nowhere.
\<close>

type_synonym demo_drive = "remote_entry list \<times> client_call list"

definition saga_file :: remote_entry where
  "saga_file = \<lparr>en_file_id = lit ''5'', en_parent_id = lit ''9'', en_name = lit ''a'',
     en_is_directory = False\<rparr>"

definition saga_exec :: "demo_drive live exec_config" where
  "saga_exec =
     \<lparr>xc_transport = live_seam ascii_unicode film_transport, xc_max_calls = 0, xc_min_interval = 0,
      xc_cancel_event = True, xc_now = None,
      xc_loader = load_executable_steps ascii_unicode plain_digest,
      xc_unicode = ascii_unicode, xc_env = (\<lambda>_ x. x\<lparr>wd_abort := False\<rparr>), xc_ids = (\<lambda>n k. [n, k]),
      xc_set_order = remdups\<rparr>"

definition saga_worker :: "demo_drive org_worker" where
  "saga_worker =
     \<lparr>ow_root = lit ''9'', ow_exec = saga_exec, ow_cookie = (\<lambda>_. Inr [99]),
      ow_factory = (\<lambda>_ _. Inr (recorded drive)), ow_token = (\<lambda>_. film_token),
      ow_interf = (\<lambda>_ _ st. st), ow_close_awaits = True\<rparr>"

definition saga_start :: "demo_drive live exec_state" where
  "saga_start =
     \<lparr>xs_world = \<lparr>wd_store = saga_later, wd_remote = \<lparr>lv_remote = ([saga_file], []), lv_receipts = []\<rparr>,
                  wd_clock = 10, wd_mono = 0, wd_cancel = False, wd_abort = False\<rparr>,
      xs_tick = 0, xs_ctx = fresh_context saga_exec [] 0 [], xs_trace = []\<rparr>"

definition saga_pass :: "(exec_exn + bool) \<times> demo_drive live exec_state" where
  "saga_pass = org_run_once saga_worker saga_start"

lemma saga_evaluated:
  "(case saga_pass of (out, s) \<Rightarrow>
      out = Inr True
      \<and> fst (lv_remote (wd_remote (xs_world s))) = [saga_file\<lparr>en_name := lit ''b''\<rparr>]
      \<and> map op_status (ops (xs_store s)) = [OP_ORGANIZED]
      \<and> map fst (client_log snd s) = [FS_FILES, FS_FILES, FS_MOVE, FS_RENAME, FS_FILES])"
  by code_simp

lemma saga_renamed:
  "fst saga_pass = Inr True"
  "fst (lv_remote (wd_remote (xs_world (snd saga_pass)))) = [saga_file\<lparr>en_name := lit ''b''\<rparr>]"
  "map op_status (ops (xs_store (snd saga_pass))) = [OP_ORGANIZED]"
  "map fst (client_log snd (snd saga_pass)) = [FS_FILES, FS_FILES, FS_MOVE, FS_RENAME, FS_FILES]"
  using saga_evaluated unfolding split_beta by blast+

lemma saga_passes: "org_run_once saga_worker saga_start = (fst saga_pass, snd saga_pass)"
  by (simp add: saga_pass_def)

lemma saga_facts [simp]:
  "xs_trace saga_start = []" "xs_store saga_start = saga_later" "client_log snd saga_start = []"
  "undisturbed saga_worker" "recorded_factory saga_worker" "ow_root saga_worker = lit ''9''"
  "ow_interf saga_worker n b st = st" "db_env (ow_exec saga_worker)"
  "xc_loader (ow_exec saga_worker) = load_executable_steps ascii_unicode plain_digest"
  by (simp_all add: saga_start_def saga_worker_def saga_exec_def undisturbed_def client_idle_def
      recorded_factory_def db_env_def exI[of _ drive])

lemma saga_store_ok: "store_ok saga_later"
  by (simp add: store_ok_def saga_later_def saga_store_def saga_op_def op_invariant_def row_ok_def
      unique_ops_def unique_events_def)

section \<open>Witnesses\<close>

theorem worker_requests_planned_witness:
  "managed_in saga_later (lit ''9'') \<and> length (client_log snd (snd saga_pass)) = 5
   \<and> (\<exists>m c oid sts step. c \<in> set (client_log snd (snd saga_pass)) \<and> fst c = FS_RENAME
        \<and> planned_steps ascii_unicode saga_later oid = Some sts \<and> step \<in> set sts
        \<and> m \<in> set (es_members step) \<and> scanned_member saga_later m \<and> write_of m c)"
proof -
  from worker_requests_planned[OF saga_passes saga_facts(1,4,5) _ saga_facts(9)] obtain oid where
    log: "client_log snd (snd saga_pass) \<noteq> [] \<longrightarrow> managed_in saga_later (lit ''9'')"
      "\<forall>c \<in> set (client_log snd (snd saga_pass)). \<not> listing_call c \<longrightarrow>
         (\<exists>sts step m. planned_steps ascii_unicode saga_later oid = Some sts \<and> step \<in> set sts
            \<and> m \<in> set (es_members step) \<and> scanned_member saga_later m \<and> write_of m c)"
    by auto
  have "FS_RENAME \<in> set (map fst (client_log snd (snd saga_pass)))"
    unfolding saga_renamed(4) by simp
  then obtain c where c: "c \<in> set (client_log snd (snd saga_pass))" "fst c = FS_RENAME" by auto
  from c(2) have "\<not> listing_call c" by (auto simp: listing_call_def lists_dir_def)
  with log(2) c obtain sts step m where m: "planned_steps ascii_unicode saga_later oid = Some sts"
    "step \<in> set sts" "m \<in> set (es_members step)" "scanned_member saga_later m" "write_of m c" by blast
  have "length (client_log snd (snd saga_pass)) = 5"
    using arg_cong[OF saga_renamed(4), of length] by simp
  moreover from this log(1) have "managed_in saga_later (lit ''9'')" by force
  ultimately show ?thesis using c m by blast
qed

theorem worker_keeps_database_witness: "store_ok (xs_store (snd saga_pass))"
  using worker_keeps_database[OF saga_passes] saga_store_ok by simp

text \<open>The same approval after the plan has expired.\<close>

definition expired_start :: "demo_drive live exec_state" where
  "expired_start = saga_start\<lparr>xs_world := (xs_world saga_start)\<lparr>wd_clock := 1000000\<rparr>\<rparr>"

lemma expired_head: "stale_head (wd_clock (xs_world expired_start)) (xs_store expired_start) saga_op"
proof -
  have "oldest_planned saga_later = Some saga_op \<and> get_op (op_id saga_op) saga_later = Some saga_op
    \<and> validate_identifier (op_id saga_op) ''invalid_operation_id'' 40 = Inr ()
    \<and> get_plan (op_plan_id saga_op) saga_later = Some saga_plan
    \<and> \<not> plan_is_current 1000000 saga_later saga_plan"
    by code_simp
  then show ?thesis by (simp add: stale_head_def expired_start_def)
qed

theorem worker_blocked_by_stale_head_witness:
  "fst (org_run_forever 1000 (\<lambda>_. False) saga_worker expired_start) = Inr False
   \<and> oldest_planned (xs_store (snd (org_run_forever 1000 (\<lambda>_. False) saga_worker expired_start))) = Some saga_op
   \<and> xs_trace (snd (org_run_forever 1000 (\<lambda>_. False) saga_worker expired_start)) = []"
proof -
  have "leaves_head saga_worker saga_op"
    by (simp add: leaves_head_def saga_worker_def saga_exec_def)
  from worker_blocked_by_stale_head[OF expired_head this, of "\<lambda>_. False" 1000]
  show ?thesis by (auto simp: expired_start_def saga_start_def)
qed

end
