(* ===== verification/Plan_Builder.thy ===== *)
theory Plan_Builder
  imports Plan_Loader
begin

text \<open>
  \<^verbatim>\<open>services/organization_plan.py\<close>, the part that makes a plan: the checks of what a caller
  asks for, and \<open>_build_payload\<close>, which turns items and scan rows into the four JSON columns of
  a plan.  What the loader reads back is what \<open>dumped\<close> says of these columns.
\<close>

section \<open>What a caller asks for\<close>

record plan_source =
  psrc_object_type :: pystr
  psrc_object_id :: pystr
  psrc_parent_id :: pystr
  psrc_path :: pystr
  psrc_remote_version :: pystr
  psrc_is_directory :: bool

record plan_companion =
  pc_source :: plan_source
  pc_target_parent_id :: "pystr option"
  pc_target_name :: "pystr option"

datatype classification_status = CLS_PLANNED | CLS_REVIEW_REQUIRED | CLS_CONFLICT | CLS_UNSUPPORTED

datatype match_status =
    MATCH_ACCEPTED | MATCH_NEEDS_REVIEW | MATCH_NO_CANDIDATES | MATCH_RATE_LIMITED | MATCH_TIMEOUT
  | MATCH_MALFORMED_RESPONSE | MATCH_UNAVAILABLE

datatype match_confidence = CONFIDENCE_HIGH | CONFIDENCE_MEDIUM | CONFIDENCE_LOW

text \<open>The fields a plan reads of the naming plan and of the match decision.\<close>

record naming_plan =
  np_status :: classification_status
  np_target_path :: "pystr option"
  np_reasons :: "pystr list"
  np_rule_version :: pystr

record match_decision =
  md_status :: match_status
  md_selected :: bool
  md_confidence :: "match_confidence option"

record plan_item =
  pi_source :: plan_source
  pi_naming_plan :: naming_plan
  pi_decision :: match_decision
  pi_target_parent_id :: "pystr option"
  pi_target_name :: "pystr option"
  pi_companions :: "plan_companion list"

fun classification_value :: "classification_status \<Rightarrow> string" where
  "classification_value CLS_PLANNED = ''planned''"
| "classification_value CLS_REVIEW_REQUIRED = ''review_required''"
| "classification_value CLS_CONFLICT = ''conflict''"
| "classification_value CLS_UNSUPPORTED = ''unsupported''"

fun match_status_value :: "match_status \<Rightarrow> string" where
  "match_status_value MATCH_ACCEPTED = ''accepted''"
| "match_status_value MATCH_NEEDS_REVIEW = ''needs_review''"
| "match_status_value MATCH_NO_CANDIDATES = ''no_candidates''"
| "match_status_value MATCH_RATE_LIMITED = ''rate_limited''"
| "match_status_value MATCH_TIMEOUT = ''timeout''"
| "match_status_value MATCH_MALFORMED_RESPONSE = ''malformed_response''"
| "match_status_value MATCH_UNAVAILABLE = ''unavailable''"

fun confidence_value :: "match_confidence \<Rightarrow> string" where
  "confidence_value CONFIDENCE_HIGH = ''high''"
| "confidence_value CONFIDENCE_MEDIUM = ''medium''"
| "confidence_value CONFIDENCE_LOW = ''low''"

section \<open>Validation of the items\<close>

datatype plan_error = PlanErr string | PlanTypeErr | PlanJsonErr

definition source_key :: "plan_source \<Rightarrow> pystr \<times> pystr" where
  "source_key s = (psrc_object_type s, psrc_object_id s)"

definition validate_identity :: "pystr \<Rightarrow> string \<Rightarrow> plan_error + pystr" where
  "validate_identity s code = (if plan_identity s then Inr s else Inl (PlanErr code))"

definition validate_version :: "pystr \<Rightarrow> plan_error + pystr" where
  "validate_version s = (if valid_version s then Inr s else Inl (PlanErr ''invalid_version''))"

definition checked_path :: "bool \<Rightarrow> pystr \<Rightarrow> plan_error + pystr" where
  "checked_path allow_empty s =
     (case validate_relative_path allow_empty s of
        None \<Rightarrow> Inl (PlanErr ''invalid_target_path'') | Some t \<Rightarrow> Inr t)"

text \<open>
  \<open>_validate_items\<close>, item by item; \<open>Some\<close> is the code of the error it raises.  Arguments of a
  wrong Python type are not values of the model.
\<close>

definition item_refused :: "unicode \<Rightarrow> (pystr \<times> pystr) list \<Rightarrow> plan_item \<Rightarrow> string option" where
  "item_refused u seen item =
     (let src = pi_source item in
      if \<not> plan_identity (psrc_object_type src) then Some ''invalid_source_identity''
      else if \<not> plan_identity (psrc_object_id src) then Some ''invalid_source_identity''
      else if \<not> plan_identity (psrc_parent_id src) then Some ''invalid_source_parent''
      else if psrc_path src = [] \<or> 0 \<in> set (psrc_path src) \<or> length (psrc_path src) > 4096
           \<or> psrc_remote_version src = [] \<or> length (psrc_remote_version src) > 128
           \<or> \<not> valid_source_version u (psrc_remote_version src)
        then Some ''invalid_source_snapshot''
      else if psrc_is_directory src then Some ''source_not_file''
      else if source_key src \<in> set seen then Some ''duplicate_source''
      else None)"

fun items_refused :: "unicode \<Rightarrow> (pystr \<times> pystr) list \<Rightarrow> plan_item list \<Rightarrow> string option" where
  "items_refused u seen [] = None"
| "items_refused u seen (item # items) =
     (case item_refused u seen item of
        Some e \<Rightarrow> Some e
      | None \<Rightarrow> items_refused u (source_key (pi_source item) # seen) items)"

definition item_key :: "plan_item \<Rightarrow> pystr \<times> pystr" where
  "item_key item = source_key (pi_source item)"

definition validate_items :: "unicode \<Rightarrow> plan_item list \<Rightarrow> plan_error + plan_item list" where
  "validate_items u items =
     (if items = [] then Inl (PlanErr ''invalid_plan_items'')
      else (case items_refused u [] items of
              Some e \<Rightarrow> Inl (PlanErr e) | None \<Rightarrow> Inr (sort_key item_key items)))"

section \<open>The execution of an item\<close>

definition target_path :: "pystr \<Rightarrow> pystr option \<Rightarrow> plan_error + pystr option" where
  "target_path rt path =
     (case path of
        None \<Rightarrow> Inr None
      | Some p \<Rightarrow>
          (case checked_path False p of
             Inl e \<Rightarrow> Inl e
           | Inr normalized \<Rightarrow>
               if rt = [] then Inr (Some normalized)
               else map_sum id Some (checked_path False (rt @ [47] @ normalized))))"

text \<open>A member with where it goes; \<open>None\<close> makes the whole execution \<open>None\<close>.\<close>

definition payload_member ::
  "unicode \<Rightarrow> scan_entry list \<Rightarrow> pystr \<Rightarrow> pystr \<Rightarrow> (pystr \<times> pystr) list
    \<Rightarrow> plan_source \<times> pystr option \<times> pystr option \<Rightarrow> exec_member option" where
  "payload_member u rows rt target_parent seen x =
     (case x of (src, member_parent, member_name) \<Rightarrow>
        (case (find_entry (source_key src) rows, member_parent, member_name) of
           (Some row, Some mp, Some mn) \<Rightarrow>
             if source_key src \<in> set seen \<or> se_is_directory row
                \<or> \<not> plan_identity (psrc_object_type src) \<or> \<not> plan_identity (psrc_object_id src)
                \<or> \<not> plan_identity (psrc_parent_id src)
                \<or> \<not> valid_source_version u (psrc_remote_version src)
                \<or> \<not> plan_identity mp \<or> \<not> valid_target_name mn \<or> mp \<noteq> target_parent
                \<or> \<not> valid_source_path (psrc_path src) \<or> \<not> valid_target_name (se_name row)
                \<or> (case se_path row of None \<Rightarrow> True | Some p \<Rightarrow> \<not> valid_source_path p)
                \<or> se_parent_id row \<noteq> Some (psrc_parent_id src)
                \<or> se_path row \<noteq> Some (psrc_path src)
             then None
             else if \<not> managed_directory rt rows (psrc_parent_id src) then None
             else Some \<lparr>em_object_type = psrc_object_type src, em_object_id = psrc_object_id src,
                        em_source_parent_id = psrc_parent_id src, em_source_path = psrc_path src,
                        em_source_name = se_name row, em_source_version = psrc_remote_version src,
                        em_target_parent_id = mp, em_target_name = mn\<rparr>
         | _ \<Rightarrow> None))"

fun payload_members ::
  "unicode \<Rightarrow> scan_entry list \<Rightarrow> pystr \<Rightarrow> pystr \<Rightarrow> (pystr \<times> pystr) list
    \<Rightarrow> (plan_source \<times> pystr option \<times> pystr option) list \<Rightarrow> exec_member list option" where
  "payload_members u rows rt target_parent seen [] = Some []"
| "payload_members u rows rt target_parent seen (x # xs) =
     (case payload_member u rows rt target_parent seen x of
        None \<Rightarrow> None
      | Some m \<Rightarrow>
          (case payload_members u rows rt target_parent (member_key m # seen) xs of
             None \<Rightarrow> None | Some ms \<Rightarrow> Some (m # ms)))"

definition all_sources :: "plan_item \<Rightarrow> (plan_source \<times> pystr option \<times> pystr option) list" where
  "all_sources item =
     (pi_source item, pi_target_parent_id item, pi_target_name item)
     # map (\<lambda>c. (pc_source c, pc_target_parent_id c, pc_target_name c)) (pi_companions item)"

definition execution_payload ::
  "unicode \<Rightarrow> plan_item \<Rightarrow> scan_entry list \<Rightarrow> pystr \<Rightarrow> pystr option \<Rightarrow> int \<Rightarrow> exec_step option" where
  "execution_payload u item rows rt target order =
     (case (target, pi_target_parent_id item, pi_target_name item) of
        (Some t, Some tp, Some tn) \<Rightarrow>
          if \<not> plan_identity rt \<or> \<not> valid_target_name tn \<or> \<not> plan_identity tp then None
          else if tn \<noteq> posix_name t then None
          else if \<not> target_directory_matches t tp rows rt then None
          else
            (case payload_members u rows rt tp [] (all_sources item) of
               None \<Rightarrow> None
             | Some ms \<Rightarrow>
                 Some \<lparr>es_order = order, es_kind = lit ''move'',
                       es_scope_directory_ids =
                         sort (remdups (rt # map em_source_parent_id ms @ map em_target_parent_id ms)),
                       es_members = ms\<rparr>)
      | _ \<Rightarrow> None)"

section \<open>JSON columns\<close>

definition jobject :: "(string \<times> json) list \<Rightarrow> json" where
  "jobject kvs = JObj (map (\<lambda>(k, v). (lit k, v)) kvs)"

definition member_json :: "exec_member \<Rightarrow> json" where
  "member_json m = jobject
     [(''object_type'', JStr (em_object_type m)), (''object_id'', JStr (em_object_id m)),
      (''source_parent_id'', JStr (em_source_parent_id m)), (''source_path'', JStr (em_source_path m)),
      (''source_name'', JStr (em_source_name m)), (''source_version'', JStr (em_source_version m)),
      (''target_parent_id'', JStr (em_target_parent_id m)), (''target_name'', JStr (em_target_name m))]"

definition execution_json :: "exec_step option \<Rightarrow> json" where
  "execution_json e =
     (case e of
        None \<Rightarrow> JNull
      | Some st \<Rightarrow> jobject
          [(''order'', JInt (es_order st)), (''kind'', JStr (es_kind st)),
           (''scope_directory_ids'', JList (map JStr (es_scope_directory_ids st))),
           (''members'', JList (map member_json (es_members st)))])"

text \<open>What the loop of \<open>_build_payload\<close> knows of one item.\<close>

record plan_draft =
  pd_index :: int
  pd_item :: plan_item
  pd_name :: pystr
  pd_target :: "pystr option"
  pd_execution :: "exec_step option"

definition draft_item ::
  "unicode \<Rightarrow> scan_entry list \<Rightarrow> pystr \<Rightarrow> pystr \<Rightarrow> int \<Rightarrow> plan_item \<Rightarrow> plan_error + plan_draft" where
  "draft_item u rows rt target_root n item =
     (case find_entry (item_key item) rows of
        None \<Rightarrow> Inl (PlanErr ''source_snapshot_mismatch'')
      | Some row \<Rightarrow>
          (case target_path target_root (np_target_path (pi_naming_plan item)) of
             Inl e \<Rightarrow> Inl e
           | Inr target \<Rightarrow>
               Inr \<lparr>pd_index = n, pd_item = item, pd_name = se_name row, pd_target = target,
                    pd_execution = execution_payload u item rows rt target n\<rparr>))"

fun draft_items ::
  "unicode \<Rightarrow> scan_entry list \<Rightarrow> pystr \<Rightarrow> pystr \<Rightarrow> int \<Rightarrow> plan_item list
    \<Rightarrow> plan_error + plan_draft list" where
  "draft_items u rows rt target_root n [] = Inr []"
| "draft_items u rows rt target_root n (item # items) =
     (case draft_item u rows rt target_root n item of
        Inl e \<Rightarrow> Inl e
      | Inr d \<Rightarrow> map_sum id (\<lambda>ds. d # ds) (draft_items u rows rt target_root (n + 1) items))"

definition accepted :: "plan_draft \<Rightarrow> bool" where
  "accepted d =
     (np_status (pi_naming_plan (pd_item d)) = CLS_PLANNED
      \<and> md_status (pi_decision (pd_item d)) = MATCH_ACCEPTED
      \<and> md_confidence (pi_decision (pd_item d)) = Some CONFIDENCE_HIGH
      \<and> md_selected (pi_decision (pd_item d))
      \<and> pd_target d \<noteq> None \<and> pd_execution d \<noteq> None)"

text \<open>\<open>_normalize_target\<close>; \<open>targets\<close> is the multiset the loop counts.\<close>

definition draft_targets :: "unicode \<Rightarrow> plan_draft list \<Rightarrow> pystr list" where
  "draft_targets u ds = concat (map (\<lambda>d. case pd_target d of None \<Rightarrow> [] | Some t \<Rightarrow> [py_casefold u t]) ds)"

definition conflict_keys :: "pystr list \<Rightarrow> pystr list \<Rightarrow> pystr set" where
  "conflict_keys conflicts targets = set conflicts \<union> {k \<in> set targets. count_list targets k > 1}"

definition is_conflict :: "unicode \<Rightarrow> pystr list \<Rightarrow> pystr list \<Rightarrow> plan_draft \<Rightarrow> bool" where
  "is_conflict u conflicts targets d =
     (case pd_target d of
        None \<Rightarrow> False | Some t \<Rightarrow> py_casefold u t \<in> conflict_keys conflicts targets)"

definition action_kind :: "bool \<Rightarrow> plan_draft \<Rightarrow> string" where
  "action_kind conflict d =
     (if conflict \<or> \<not> accepted d then ''review''
      else if pd_target d \<noteq> None then ''move'' else ''review'')"

definition companion_json :: "exec_member \<Rightarrow> json" where
  "companion_json m = jobject
     [(''object_type'', JStr (em_object_type m)), (''object_id'', JStr (em_object_id m)),
      (''parent_id'', JStr (em_source_parent_id m)), (''path'', JStr (em_source_path m)),
      (''name'', JStr (em_source_name m)), (''remote_version'', JStr (em_source_version m)),
      (''is_directory'', JBool False)]"

definition snapshot_json :: "plan_draft \<Rightarrow> json" where
  "snapshot_json d =
     (let src = pi_source (pd_item d) in jobject
        ([(''object_type'', JStr (psrc_object_type src)), (''object_id'', JStr (psrc_object_id src)),
          (''parent_id'', JStr (psrc_parent_id src)), (''path'', JStr (psrc_path src)),
          (''name'', JStr (pd_name d)), (''remote_version'', JStr (psrc_remote_version src)),
          (''is_directory'', JBool (psrc_is_directory src))]
         @ (case pd_execution d of
              None \<Rightarrow> []
            | Some e \<Rightarrow> [(''companions'', JList (map companion_json (drop 1 (es_members e))))])))"

definition action_json :: "bool \<Rightarrow> plan_draft \<Rightarrow> json" where
  "action_json conflict d =
     (let src = pi_source (pd_item d) in jobject
        [(''order'', JInt (pd_index d)), (''kind'', JStr (lit (action_kind conflict d))),
         (''object_type'', JStr (psrc_object_type src)), (''object_id'', JStr (psrc_object_id src)),
         (''source_parent_id'', JStr (psrc_parent_id src)), (''source_path'', JStr (psrc_path src)),
         (''source_name'', JStr (pd_name d)), (''source_version'', JStr (psrc_remote_version src)),
         (''target_parent_id'', json_of_opt (pi_target_parent_id (pd_item d))),
         (''target_name'', json_of_opt (pi_target_name (pd_item d))),
         (''target'', json_of_opt (pd_target d)), (''execution'', execution_json (pd_execution d))])"

definition json_of_int :: "int option \<Rightarrow> json" where
  "json_of_int v = (case v of None \<Rightarrow> JNull | Some n \<Rightarrow> JInt n)"

definition precondition_json ::
  "int option \<Rightarrow> pystr \<Rightarrow> pystr \<Rightarrow> bool \<Rightarrow> plan_draft \<Rightarrow> json" where
  "precondition_json revision parser_version matcher_version conflict d =
     (let src = pi_source (pd_item d) in jobject
        [(''source_index'', JInt (pd_index d)),
         (''object_type'', JStr (psrc_object_type src)), (''object_id'', JStr (psrc_object_id src)),
         (''parent_id'', JStr (psrc_parent_id src)), (''source_path'', JStr (psrc_path src)),
         (''source_name'', JStr (pd_name d)), (''remote_version'', JStr (psrc_remote_version src)),
         (''source_snapshot_revision'', json_of_int revision),
         (''target'', json_of_opt (pd_target d)),
         (''target_parent_id'', json_of_opt (pi_target_parent_id (pd_item d))),
         (''target_name'', json_of_opt (pi_target_name (pd_item d))),
         (''rule_version'', JStr (np_rule_version (pi_naming_plan (pd_item d)))),
         (''parser_version'', JStr parser_version), (''matcher_version'', JStr matcher_version),
         (''execution'', execution_json (pd_execution d)), (''target_conflict'', JBool conflict)])"

definition safe_reason :: "pystr \<Rightarrow> pystr" where
  "safe_reason s = (if valid_version s then s else lit ''reason_redacted'')"

text \<open>An entry of the basis, whose reasons are a tuple.\<close>

record basis_row =
  bs_index :: int
  bs_classification :: classification_status
  bs_match :: match_status
  bs_confidence :: "match_confidence option"
  bs_accepted :: bool
  bs_reasons :: "pystr list"

definition basis_of :: "plan_draft \<Rightarrow> basis_row" where
  "basis_of d =
     \<lparr>bs_index = pd_index d, bs_classification = np_status (pi_naming_plan (pd_item d)),
      bs_match = md_status (pi_decision (pd_item d)),
      bs_confidence = md_confidence (pi_decision (pd_item d)), bs_accepted = accepted d,
      bs_reasons = map safe_reason (np_reasons (pi_naming_plan (pd_item d)))\<rparr>"

definition basis_json :: "basis_row \<Rightarrow> json" where
  "basis_json b = jobject
     [(''source_index'', JInt (bs_index b)),
      (''classification_status'', JStr (lit (classification_value (bs_classification b)))),
      (''match_status'', JStr (lit (match_status_value (bs_match b)))),
      (''match_confidence'', (case bs_confidence b of None \<Rightarrow> JNull
                              | Some c \<Rightarrow> JStr (lit (confidence_value c)))),
      (''accepted'', JBool (bs_accepted b)), (''reasons'', JList (map JStr (bs_reasons b)))]"

section \<open>The payload\<close>

record plan_payload =
  pp_source_snapshot :: "json list"
  pp_actions :: "json list"
  pp_preconditions :: "json list"
  pp_basis :: "basis_row list"
  pp_status :: plan_status

fun checked_conflicts :: "unicode \<Rightarrow> pystr list \<Rightarrow> plan_error + pystr list" where
  "checked_conflicts u [] = Inr []"
| "checked_conflicts u (c # cs) =
     (case checked_path False c of
        Inl e \<Rightarrow> Inl e
      | Inr t \<Rightarrow> map_sum id (\<lambda>ts. py_casefold u t # ts) (checked_conflicts u cs))"

definition payload_status :: "unicode \<Rightarrow> pystr list \<Rightarrow> plan_draft list \<Rightarrow> plan_status" where
  "payload_status u conflicts ds =
     (let targets = draft_targets u ds in
      if list_all accepted ds \<and> \<not> list_ex (\<lambda>t. count_list targets t > 1) targets
         \<and> set conflicts \<inter> set targets = {}
      then PLAN_PLANNED else PLAN_NEEDS_REVIEW)"

text \<open>
  The snapshot is sorted by its keys; the other three lists are built in the order of the
  index their sort reads, so that sort changes nothing.
\<close>

definition payload_of ::
  "unicode \<Rightarrow> pystr list \<Rightarrow> int option \<Rightarrow> pystr \<Rightarrow> pystr \<Rightarrow> plan_draft list \<Rightarrow> plan_payload" where
  "payload_of u conflicts revision parser_version matcher_version ds =
     (let conflict = is_conflict u conflicts (draft_targets u ds) in
      \<lparr>pp_source_snapshot = map snapshot_json (sort_key (item_key \<circ> pd_item) ds),
       pp_actions = map (\<lambda>d. action_json (conflict d) d) ds,
       pp_preconditions =
         map (\<lambda>d. precondition_json revision parser_version matcher_version (conflict d) d) ds,
       pp_basis = map basis_of ds,
       pp_status = payload_status u conflicts ds\<rparr>)"

definition build_payload ::
  "unicode \<Rightarrow> plan_item list \<Rightarrow> scan_entry list \<Rightarrow> pystr \<Rightarrow> pystr \<Rightarrow> pystr list \<Rightarrow> int option
    \<Rightarrow> pystr \<Rightarrow> pystr \<Rightarrow> plan_error + plan_payload" where
  "build_payload u items rows rt target_root target_conflicts revision parser_version matcher_version =
     (case checked_conflicts u target_conflicts of
        Inl e \<Rightarrow> Inl e
      | Inr conflicts \<Rightarrow>
          map_sum id (payload_of u conflicts revision parser_version matcher_version)
            (draft_items u rows rt target_root 0 items))"

section \<open>Text columns\<close>

text \<open>
  What \<open>json.loads\<close> returns for the text of \<open>json.dumps(.., sort_keys=True)\<close>: the same value with
  the items of every object in the order of their keys.
\<close>

function dumped :: "json \<Rightarrow> json" where
  "dumped (JList js) = JList (map dumped js)"
| "dumped (JObj kvs) = JObj (sort_key fst (map (\<lambda>(k, v). (k, dumped v)) kvs))"
| "dumped JNull = JNull"
| "dumped (JBool b) = JBool b"
| "dumped (JInt n) = JInt n"
| "dumped (JReal r) = JReal r"
| "dumped (JNonFinite s) = JNonFinite s"
| "dumped (JStr s) = JStr s"
  by pat_completeness auto

termination dumped
proof (relation "measure size", goal_cases)
  case (3 kvs x k v)
  then show ?case using json_obj_size[of k v kvs] by simp
qed (simp_all add: less_Suc_eq_le size_list_estimation')

definition json_column :: "json \<Rightarrow> json option" where
  "json_column v = Some (dumped v)"

end
