(* ===== verification/Plan_Service.thy ===== *)
theory Plan_Service
  imports Plan_Builder
begin

text \<open>
  \<^verbatim>\<open>services/organization_plan.py\<close>, \<open>OrganizationPlanService\<close>: creating, refreshing, reviewing
  and listing plans.  A method reads, may see another session commit (\<open>interf\<close>), and writes.
  The digest of the canonical JSON is the parameter \<open>digest\<close>, as in \<open>Plan_Loader\<close>.
\<close>

type_synonym 'a plan_act = "(store, plan_error, 'a) act"

section \<open>Views\<close>

record plan_view =
  pv_plan_id :: pystr
  pv_plan_hash :: pystr
  pv_status :: plan_status
  pv_revision :: int
  pv_expires_at :: time
  pv_source_count :: nat
  pv_action_count :: nat
  pv_precondition_count :: nat
  pv_alias :: "pystr option"

text \<open>\<open>_load_source_snapshot\<close> without \<open>require_name\<close>: only the companions need a name.\<close>

definition unnamed_columns :: "unicode \<Rightarrow> json \<Rightarrow> bool" where
  "unnamed_columns u j =
     (is_obj j
      \<and> str_where plan_identity (jget j ''object_type'')
      \<and> str_where plan_identity (jget j ''object_id'')
      \<and> str_where plan_identity (jget j ''parent_id'')
      \<and> str_where valid_source_path (jget j ''path'')
      \<and> str_where (valid_source_version u) (jget j ''remote_version'')
      \<and> jget j ''is_directory'' = JBool False)"

definition unnamed_item_ok :: "unicode \<Rightarrow> json \<Rightarrow> bool" where
  "unnamed_item_ok u j =
     (unnamed_columns u j
      \<and> (case as_list (jget_or (JList []) j ''companions'') of
           None \<Rightarrow> False
         | Some cs \<Rightarrow>
             list_all (snapshot_columns u) cs
             \<and> distinct (snapshot_key j # map snapshot_key cs)))"

definition load_unnamed_snapshot :: "unicode \<Rightarrow> json option \<Rightarrow> json list option" where
  "load_unnamed_snapshot u v =
     (case load_json_list v of
        [] \<Rightarrow> None
      | js \<Rightarrow> if list_all (unnamed_item_ok u) js then Some js else None)"

text \<open>\<open>len\<close> of a decoded value; \<open>None\<close> is the \<open>TypeError\<close>.\<close>

fun json_len :: "json \<Rightarrow> nat option" where
  "json_len (JList js) = Some (length js)"
| "json_len (JObj kvs) = Some (length kvs)"
| "json_len (JStr s) = Some (length s)"
| "json_len _ = None"

definition view_of :: "unicode \<Rightarrow> plan_row \<Rightarrow> plan_error + plan_view" where
  "view_of u p =
     (case json_len (jget_or (JList []) (load_json_object (plan_preconditions p)) ''items'') of
        None \<Rightarrow> Inl PlanTypeErr
      | Some n \<Rightarrow> Inr
          \<lparr>pv_plan_id = plan_id p, pv_plan_hash = plan_hash p, pv_status = plan_status p,
           pv_revision = plan_revision p, pv_expires_at = plan_expires_at p,
           pv_source_count = (case load_unnamed_snapshot u (plan_source_snapshot p) of
                                None \<Rightarrow> 0 | Some js \<Rightarrow> length js),
           pv_action_count = length (load_json_list (plan_actions p)),
           pv_precondition_count = n, pv_alias = plan_alias p\<rparr>)"

section \<open>Creation\<close>

definition verified_scan ::
  "store \<Rightarrow> pystr \<Rightarrow> pystr \<Rightarrow> plan_error + library_row \<times> run_row \<times> int" where
  "verified_scan s library_id scan_run_id =
     (case (row_of lib_id library_id (libraries s), row_of run_id scan_run_id (runs s)) of
        (Some lib, Some run) \<Rightarrow>
          (case run_snapshot_revision run of
             None \<Rightarrow> Inl (PlanErr ''scan_not_current'')
           | Some revision \<Rightarrow>
               if lib_enabled lib \<and> lib_scope_verified lib \<and> run_library_id run = library_id
                  \<and> run_root_directory_id run = lib_root_directory_id lib
                  \<and> run_state run = SCAN_COMPLETED \<and> run_complete run
                  \<and> map_option run_id (latest_run lib s) = Some (run_id run)
               then Inr (lib, run, revision) else Inl (PlanErr ''scan_not_current''))
      | _ \<Rightarrow> Inl (PlanErr ''scan_not_current''))"

definition source_row_ok :: "bool \<Rightarrow> scan_entry list \<Rightarrow> plan_item \<Rightarrow> bool" where
  "source_row_ok verify_snapshot rows item =
     (case find_entry (item_key item) rows of
        None \<Rightarrow> False
      | Some row \<Rightarrow>
          \<not> verify_snapshot
          \<or> (se_parent_id row = Some (psrc_parent_id (pi_source item))
              \<and> se_path row = Some (psrc_path (pi_source item))
              \<and> se_is_directory row = psrc_is_directory (pi_source item)))"

definition load_source_rows ::
  "bool \<Rightarrow> store \<Rightarrow> pystr \<Rightarrow> plan_item list \<Rightarrow> plan_error + scan_entry list" where
  "load_source_rows verify_snapshot s scan_run_id items =
     (let rows = scan_rows scan_run_id s in
      if list_all (source_row_ok verify_snapshot rows) items then Inr rows
      else Inl (PlanErr ''source_snapshot_mismatch''))"

record plan_request =
  pq_library_id :: pystr
  pq_scan_run_id :: pystr
  pq_items :: "plan_item list"
  pq_target_root :: pystr
  pq_parser_version :: pystr
  pq_matcher_version :: pystr
  pq_expires_at :: "py_datetime option"
  pq_now :: "py_datetime option"
  pq_target_conflicts :: "pystr list"

definition one_rule_version :: "plan_item list \<Rightarrow> plan_error + pystr" where
  "one_rule_version items =
     (case remdups (map (np_rule_version \<circ> pi_naming_plan) items) of
        [v] \<Rightarrow> validate_version v | _ \<Rightarrow> Inl (PlanErr ''rule_version_conflict''))"

definition preconditions_payload :: "library_row \<Rightarrow> plan_payload \<Rightarrow> json" where
  "preconditions_payload lib pp =
     jobject [(''library'', library_snapshot lib), (''items'', JList (pp_preconditions pp))]"

definition canonical_request ::
  "library_row \<Rightarrow> plan_payload \<Rightarrow> pystr \<Rightarrow> pystr \<Rightarrow> pystr \<Rightarrow> pystr \<Rightarrow> json" where
  "canonical_request lib pp target_root rule_version parser_version matcher_version = jobject
     [(''library_id'', JStr (lib_id lib)), (''library_snapshot'', library_snapshot lib),
      (''source_snapshot'', JList (pp_source_snapshot pp)), (''target_root'', JStr target_root),
      (''actions'', JList (pp_actions pp)), (''preconditions'', preconditions_payload lib pp),
      (''rule_version'', JStr rule_version), (''parser_version'', JStr parser_version),
      (''matcher_version'', JStr matcher_version)]"

text \<open>Everything \<open>create_plan\<close> computes before it looks for an existing plan: the row to add.\<close>

definition day :: int where
  "day = 86400000000"

definition plan_row_for ::
  "unicode \<Rightarrow> (json \<Rightarrow> pystr) \<Rightarrow> pystr \<Rightarrow> time \<Rightarrow> plan_request \<Rightarrow> store \<Rightarrow> plan_error + plan_row" where
  "plan_row_for u digest new_id clk q s =
     rbind (validate_identity (pq_library_id q) ''invalid_library'') (\<lambda>_.
     rbind (validate_identity (pq_scan_run_id q) ''invalid_scan_run'') (\<lambda>_.
     rbind (checked_path True (pq_target_root q)) (\<lambda>target_root.
     rbind (validate_version (pq_parser_version q)) (\<lambda>parser_version.
     rbind (validate_version (pq_matcher_version q)) (\<lambda>matcher_version.
     rbind (validate_items u (pq_items q)) (\<lambda>items.
     let now = resolve_now clk (pq_now q);
         expiry = (case pq_expires_at q of None \<Rightarrow> now + day | Some d \<Rightarrow> as_utc d) in
     if expiry \<le> now then Inl (PlanErr ''invalid_expiry'')
     else
       rbind (verified_scan s (pq_library_id q) (pq_scan_run_id q)) (\<lambda>(lib, run, revision).
       rbind (load_source_rows True s (run_id run) items) (\<lambda>rows.
       rbind (build_payload u items rows (lib_root_directory_id lib) target_root
                 (pq_target_conflicts q) (Some revision) parser_version matcher_version) (\<lambda>pp.
       rbind (one_rule_version items) (\<lambda>rule_version.
       Inr \<lparr>plan_id = new_id, plan_library_id = lib_id lib, plan_source_scan_run_id = run_id run,
            plan_source_snapshot_revision = revision,
            plan_source_snapshot = json_column (JList (pp_source_snapshot pp)),
            plan_target_root = target_root, plan_actions = json_column (JList (pp_actions pp)),
            plan_preconditions = json_column (preconditions_payload lib pp),
            plan_rule_version = rule_version, plan_parser_version = parser_version,
            plan_matcher_version = matcher_version, plan_status = pp_status pp,
            plan_revision = 1, plan_expires_at = expiry,
            plan_hash = digest (canonical_request lib pp target_root rule_version parser_version
                          matcher_version),
            plan_basis = json_column (JList (map basis_json (pp_basis pp))),
            plan_alias = None, plan_created_at = clk\<rparr>))))))))))"

definition existing_plan :: "plan_row \<Rightarrow> store \<Rightarrow> plan_row option" where
  "existing_plan p s =
     find (\<lambda>r. plan_hash r = plan_hash p \<and> plan_library_id r = plan_library_id p) (plans s)"

text \<open>
  An \<open>INSERT\<close> at commit; \<open>None\<close> is the \<open>IntegrityError\<close> of the primary key, the unique digest
  or a foreign key.
\<close>

definition insert_plan :: "plan_row \<Rightarrow> store \<Rightarrow> store option" where
  "insert_plan p s =
     (if plan_id p \<in> set (map plan_id (plans s)) \<or> plan_hash p \<in> set (map plan_hash (plans s))
         \<or> row_of lib_id (plan_library_id p) (libraries s) = None
         \<or> row_of run_id (plan_source_scan_run_id p) (runs s) = None then None
      else Some (s\<lparr>plans := plans s @ [p]\<rparr>))"

definition add_plan :: "plan_row \<Rightarrow> bool plan_act" where
  "add_plan p s = (case insert_plan p s of None \<Rightarrow> (Inr False, s) | Some s' \<Rightarrow> (Inr True, s'))"

definition create_plan ::
  "unicode \<Rightarrow> (json \<Rightarrow> pystr) \<Rightarrow> (store \<Rightarrow> store) \<Rightarrow> pystr \<Rightarrow> time \<Rightarrow> plan_request \<Rightarrow> plan_view plan_act" where
  "create_plan u digest interf new_id clk q =
     sbind sget (\<lambda>s.
     sbind (scheck (plan_row_for u digest new_id clk q s)) (\<lambda>p.
     case existing_plan p s of
       Some r \<Rightarrow> scheck (view_of u r)
     | None \<Rightarrow>
         sbind (sput (interf s)) (\<lambda>_.
         sbind (add_plan p) (\<lambda>added.
         if added then scheck (view_of u p)
         else
           sbind sget (\<lambda>s'.
           case existing_plan p s' of
             None \<Rightarrow> sraise (PlanErr ''plan_persistence_failed'')
           | Some r \<Rightarrow> scheck (view_of u r))))))"

section \<open>Refreshing\<close>

text \<open>The run whose snapshot is the latest complete one of the plan's library and root.\<close>

definition latest_of :: "pystr \<Rightarrow> pystr \<Rightarrow> store \<Rightarrow> run_row option" where
  "latest_of library_id rt s =
     first_max run_snapshot_revision
       (filter (\<lambda>r. run_library_id r = library_id \<and> run_root_directory_id r = rt
                  \<and> run_state r = SCAN_COMPLETED \<and> run_complete r) (runs s))"

definition scan_moved_on :: "store \<Rightarrow> plan_row \<Rightarrow> bool" where
  "scan_moved_on s p =
     (let run = row_of run_id (plan_source_scan_run_id p) (runs s);
          rt = (case run of None \<Rightarrow> [] | Some r \<Rightarrow> run_root_directory_id r)
      in case (run, latest_of (plan_library_id p) rt s) of
           (Some r, Some l) \<Rightarrow>
             run_id l \<noteq> run_id r
             \<or> run_snapshot_revision r \<noteq> Some (plan_source_snapshot_revision p)
         | _ \<Rightarrow> True)"

definition library_changed :: "store \<Rightarrow> plan_row \<Rightarrow> bool" where
  "library_changed s p =
     (case row_of lib_id (plan_library_id p) (libraries s) of
        None \<Rightarrow> True
      | Some lib \<Rightarrow>
          \<not> json_matches_library (jget (load_json_object (plan_preconditions p)) ''library'') lib)"

text \<open>
  \<open>==\<close> between a freshly built value and a decoded one.  The fresh basis holds its reasons as a
  tuple, and a tuple equals no decoded JSON value.
\<close>

definition tuple_eq :: "pystr list \<Rightarrow> json \<Rightarrow> bool" where
  "tuple_eq xs j = False"

definition basis_row_eq :: "basis_row \<Rightarrow> json \<Rightarrow> bool" where
  "basis_row_eq b j =
     (case j of
        JObj kvs \<Rightarrow>
          length kvs = 6
          \<and> json_eq_int (jget j ''source_index'') (bs_index b)
          \<and> json_eq_str (jget j ''classification_status'') (lit (classification_value (bs_classification b)))
          \<and> json_eq_str (jget j ''match_status'') (lit (match_status_value (bs_match b)))
          \<and> json_eq (jget j ''match_confidence'')
               (case bs_confidence b of None \<Rightarrow> JNull | Some c \<Rightarrow> JStr (lit (confidence_value c)))
          \<and> json_eq_bool (jget j ''accepted'') (bs_accepted b)
          \<and> tuple_eq (bs_reasons b) (jget j ''reasons'')
      | _ \<Rightarrow> False)"

definition basis_eq :: "basis_row list \<Rightarrow> json \<Rightarrow> bool" where
  "basis_eq bs j =
     (case j of
        JList js \<Rightarrow> length bs = length js \<and> list_all (\<lambda>(b, x). basis_row_eq b x) (zip bs js)
      | _ \<Rightarrow> False)"

text \<open>Whether the items a caller gives now differ from what the plan was made of.\<close>

definition source_changed ::
  "unicode \<Rightarrow> store \<Rightarrow> plan_row \<Rightarrow> json list \<Rightarrow> pystr list \<Rightarrow> plan_item list \<Rightarrow> plan_error + bool" where
  "source_changed u s p stored target_conflicts source_items =
     rbind (validate_items u source_items) (\<lambda>items.
     case row_of run_id (plan_source_scan_run_id p) (runs s) of
       None \<Rightarrow> Inr True
     | Some run \<Rightarrow>
         rbind (load_source_rows False s (run_id run) items) (\<lambda>rows.
         rbind (build_payload u items rows
                  (case row_of lib_id (plan_library_id p) (libraries s) of
                     None \<Rightarrow> [] | Some lib \<Rightarrow> lib_root_directory_id lib)
                  (plan_target_root p) target_conflicts (run_snapshot_revision run)
                  (plan_parser_version p) (plan_matcher_version p)) (\<lambda>pp.
         case plan_basis p of
           None \<Rightarrow> Inl PlanJsonErr
         | Some basis \<Rightarrow>
             Inr (\<not> json_eq (JList (pp_source_snapshot pp)) (JList stored)
                  \<or> \<not> basis_eq (pp_basis pp) basis))))"

definition target_set :: "unicode \<Rightarrow> plan_row \<Rightarrow> pystr set" where
  "target_set u p =
     set (concat (map (\<lambda>a. case jget a ''target'' of JStr t \<Rightarrow> [py_casefold u t] | _ \<Rightarrow> [])
       (filter is_obj (load_json_list (plan_actions p)))))"

record refresh_request =
  rq_source_items :: "plan_item list option"
  rq_rule_version :: "pystr option"
  rq_parser_version :: "pystr option"
  rq_matcher_version :: "pystr option"
  rq_target_conflicts :: "pystr list"
  rq_now :: "py_datetime option"

definition other_version :: "pystr option \<Rightarrow> pystr \<Rightarrow> bool" where
  "other_version v current = (case v of None \<Rightarrow> False | Some x \<Rightarrow> x \<noteq> current)"

definition validate_optional_version :: "pystr option \<Rightarrow> plan_error + unit" where
  "validate_optional_version v =
     (case v of None \<Rightarrow> Inr () | Some x \<Rightarrow> map_sum id (\<lambda>_. ()) (validate_version x))"

definition plan_stale ::
  "unicode \<Rightarrow> store \<Rightarrow> time \<Rightarrow> plan_row \<Rightarrow> json list \<Rightarrow> refresh_request \<Rightarrow> plan_error + bool" where
  "plan_stale u s now p stored q =
     rbind (case rq_source_items q of
              None \<Rightarrow> Inr False
            | Some items \<Rightarrow> source_changed u s p stored (rq_target_conflicts q) items) (\<lambda>changed.
     Inr (plan_expires_at p \<le> now \<or> library_changed s p \<or> scan_moved_on s p
          \<or> other_version (rq_parser_version q) (plan_parser_version p)
          \<or> other_version (rq_matcher_version q) (plan_matcher_version p)
          \<or> other_version (rq_rule_version q) (plan_rule_version p)
          \<or> changed
          \<or> list_ex (\<lambda>t. py_casefold u t \<in> target_set u p) (rq_target_conflicts q)))"

text \<open>
  The write of a loaded row: the changed columns are set, whatever another session made of them
  meanwhile.
\<close>

definition invalidated :: "plan_row \<Rightarrow> plan_row" where
  "invalidated p = p\<lparr>plan_status := PLAN_INVALIDATED, plan_revision := plan_revision p + 1\<rparr>"

definition write_invalidated :: "(store \<Rightarrow> store) \<Rightarrow> plan_row \<Rightarrow> unit plan_act" where
  "write_invalidated interf p s = (Inr (), invalidate_plan p (interf s))"

definition refresh_plan ::
  "unicode \<Rightarrow> (store \<Rightarrow> store) \<Rightarrow> time \<Rightarrow> pystr \<Rightarrow> refresh_request \<Rightarrow> plan_view plan_act" where
  "refresh_plan u interf clk pid q =
     sbind (scheck (validate_identity pid ''invalid_plan'')) (\<lambda>_.
     sbind (scheck (validate_optional_version (rq_rule_version q))) (\<lambda>_.
     sbind (scheck (validate_optional_version (rq_parser_version q))) (\<lambda>_.
     sbind (scheck (validate_optional_version (rq_matcher_version q))) (\<lambda>_.
     sbind sget (\<lambda>s.
     case get_plan pid s of
       None \<Rightarrow> sraise (PlanErr ''plan_not_found'')
     | Some p \<Rightarrow>
         (case load_unnamed_snapshot u (plan_source_snapshot p) of
            None \<Rightarrow> sbind (write_invalidated interf p) (\<lambda>_. scheck (view_of u (invalidated p)))
          | Some stored \<Rightarrow>
              if plan_status p = PLAN_IGNORED then scheck (view_of u p)
              else
                sbind (scheck (plan_stale u s (resolve_now clk (rq_now q)) p stored q)) (\<lambda>stale.
                if stale
                  then sbind (write_invalidated interf p) (\<lambda>_. scheck (view_of u (invalidated p)))
                else scheck (view_of u p))))))))"

section \<open>Review\<close>

definition plan_update ::
  "pystr \<Rightarrow> (plan_row \<Rightarrow> bool) \<Rightarrow> (plan_row \<Rightarrow> plan_row) \<Rightarrow> store \<Rightarrow> store option" where
  "plan_update pid guard f s =
     map_option (\<lambda>rows. s\<lparr>plans := rows\<rparr>) (update_one (\<lambda>p. plan_id p = pid \<and> guard p) f (plans s))"

text \<open>A conditional update and the view of the row as it was read, with its new columns.\<close>

definition commit_review ::
  "unicode \<Rightarrow> (store \<Rightarrow> store) \<Rightarrow> (plan_row \<Rightarrow> bool) \<Rightarrow> (plan_row \<Rightarrow> plan_row) \<Rightarrow> plan_row
    \<Rightarrow> plan_view plan_act" where
  "commit_review u interf guard f p s =
     (case plan_update (plan_id p) guard f (interf s) of
        None \<Rightarrow> (Inl (PlanErr ''stale_revision''), interf s)
      | Some s' \<Rightarrow> (view_of u (f p), s'))"

definition reviewed_plan :: "pystr \<Rightarrow> int \<Rightarrow> plan_row plan_act" where
  "reviewed_plan pid expected =
     (if expected < 0 then sraise (PlanErr ''invalid_revision'')
      else
        sbind sget (\<lambda>s.
        case get_plan pid s of
          None \<Rightarrow> sraise (PlanErr ''plan_not_found'')
        | Some p \<Rightarrow> if plan_revision p \<noteq> expected then sraise (PlanErr ''stale_revision'') else sret p))"

definition transition_set :: "plan_status \<Rightarrow> int \<Rightarrow> plan_row \<Rightarrow> plan_row" where
  "transition_set target expected p = p\<lparr>plan_status := target, plan_revision := expected + 1\<rparr>"

definition transition_plan ::
  "unicode \<Rightarrow> (store \<Rightarrow> store) \<Rightarrow> pystr \<Rightarrow> int \<Rightarrow> plan_status \<Rightarrow> plan_status set \<Rightarrow> plan_view plan_act" where
  "transition_plan u interf pid expected target allowed =
     sbind (scheck (validate_identity pid ''invalid_plan'')) (\<lambda>_.
     sbind (reviewed_plan pid expected) (\<lambda>p.
     if plan_status p = target then scheck (view_of u p)
     else if plan_status p \<notin> allowed then sraise (PlanErr ''plan_not_reviewable'')
     else commit_review u interf (\<lambda>r. plan_revision r = expected) (transition_set target expected) p))"

definition confirm_plan ::
  "unicode \<Rightarrow> (store \<Rightarrow> store) \<Rightarrow> pystr \<Rightarrow> int \<Rightarrow> plan_view plan_act" where
  "confirm_plan u interf pid expected =
     transition_plan u interf pid expected PLAN_PLANNED {PLAN_NEEDS_REVIEW, PLAN_PLANNED}"

definition ignore_plan ::
  "unicode \<Rightarrow> (store \<Rightarrow> store) \<Rightarrow> pystr \<Rightarrow> int \<Rightarrow> plan_view plan_act" where
  "ignore_plan u interf pid expected =
     transition_plan u interf pid expected PLAN_IGNORED
       {PLAN_NEEDS_REVIEW, PLAN_PLANNED, PLAN_INVALIDATED, PLAN_IGNORED}"

definition alias_markers :: "pystr list" where
  "alias_markers =
     [lit ''cookie'', lit ''pickcode'', lit ''token'', lit ''password'', lit ''secret'']"

definition validate_alias :: "unicode \<Rightarrow> pystr \<Rightarrow> plan_error + pystr" where
  "validate_alias u value =
     (let a = py_strip u value in
      if a = [] \<or> length a > 64 \<or> \<not> list_ex (uni_alpha u) a
         \<or> list_ex (\<lambda>c. uni_space u c \<and> c \<noteq> 32) a
         \<or> list_ex (\<lambda>c. c \<in> {47, 92, 0, 58}) a
         \<or> occurs_in (lit ''://'') a
         \<or> list_ex (\<lambda>m. occurs_in m (py_casefold u a)) alias_markers
         \<or> a \<in> {lit ''.'', lit ''..''}
      then Inl (PlanErr ''invalid_alias'') else Inr a)"

definition alias_set :: "pystr \<Rightarrow> int \<Rightarrow> plan_row \<Rightarrow> plan_row" where
  "alias_set a expected p = p\<lparr>plan_alias := Some a, plan_revision := expected + 1\<rparr>"

definition reviewable :: "plan_status set" where
  "reviewable = {PLAN_NEEDS_REVIEW, PLAN_PLANNED}"

definition alias_plan ::
  "unicode \<Rightarrow> (store \<Rightarrow> store) \<Rightarrow> pystr \<Rightarrow> pystr \<Rightarrow> int \<Rightarrow> plan_view plan_act" where
  "alias_plan u interf pid alias expected =
     sbind (scheck (validate_identity pid ''invalid_plan'')) (\<lambda>_.
     sbind (scheck (validate_alias u alias)) (\<lambda>a.
     sbind (reviewed_plan pid expected) (\<lambda>p.
     if plan_status p \<notin> reviewable then sraise (PlanErr ''plan_not_reviewable'')
     else if plan_alias p = Some a then scheck (view_of u p)
     else commit_review u interf (\<lambda>r. plan_revision r = expected \<and> plan_status r \<in> reviewable)
            (alias_set a expected) p)))"

section \<open>Reading\<close>

definition view_plan :: "unicode \<Rightarrow> pystr \<Rightarrow> plan_view plan_act" where
  "view_plan u pid =
     sbind (scheck (validate_identity pid ''invalid_plan'')) (\<lambda>_.
     sbind sget (\<lambda>s.
     case get_plan pid s of
       None \<Rightarrow> sraise (PlanErr ''plan_not_found'') | Some p \<Rightarrow> scheck (view_of u p)))"

definition plan_library :: "pystr \<Rightarrow> pystr plan_act" where
  "plan_library pid =
     sbind (scheck (validate_identity pid ''invalid_plan'')) (\<lambda>_.
     sbind sget (\<lambda>s.
     case get_plan pid s of
       None \<Rightarrow> sraise (PlanErr ''plan_not_found'') | Some p \<Rightarrow> sret (plan_library_id p)))"

fun all_right :: "('e + 'a) list \<Rightarrow> 'e + 'a list" where
  "all_right [] = Inr []"
| "all_right (v # vs) = rbind v (\<lambda>x. map_sum id (\<lambda>xs. x # xs) (all_right vs))"

text \<open>The plans of a status, oldest first.\<close>

definition listed_plans :: "plan_status option \<Rightarrow> store \<Rightarrow> plan_row list" where
  "listed_plans status s =
     sort_key (\<lambda>p. (plan_created_at p, plan_id p))
       (filter (\<lambda>p. case status of None \<Rightarrow> True | Some st \<Rightarrow> plan_status p = st) (plans s))"

definition list_plans ::
  "unicode \<Rightarrow> plan_status option \<Rightarrow> int \<Rightarrow> int \<Rightarrow> (plan_view list \<times> int option) plan_act" where
  "list_plans u status cursor limit =
     (if cursor < 0 \<or> limit < 1 \<or> limit > 100 then sraise (PlanErr ''invalid_pagination'')
      else
        sbind sget (\<lambda>s.
        let rows = take (nat limit + 1) (drop (nat cursor) (listed_plans status s));
            has_more = length rows > nat limit
        in scheck (map_sum id (\<lambda>views. (views, if has_more then Some (cursor + limit) else None))
                    (all_right (map (view_of u) (take (nat limit) rows))))))"

end
