(* ===== verification/Plan_Json.thy ===== *)
theory Plan_Json
  imports Plan_Service
begin

text \<open>
  Reading back what was written: lookups in a JSON column give what the builder put there, and
  comparing a value with itself succeeds.
\<close>

section \<open>Lookups after a round trip through text\<close>

lemma map_sum_Inr: "map_sum id f x = Inr y \<longleftrightarrow> (\<exists>z. x = Inr z \<and> y = f z)"
  by (cases x) auto

lemma distinct_sort_key: "distinct (map g (sort_key f xs)) = distinct (map g xs)"
  by (rule mset_eq_imp_distinct_iff) (simp only: mset_map mset_sort)

lemma map_of_sort_key:
  "distinct (map fst kvs) \<Longrightarrow> map_of (sort_key fst kvs) = map_of kvs"
  by (subst map_of_inject_set) (simp_all only: distinct_sort_key set_sort)

lemma distinct_lit: "distinct (map fst (map (\<lambda>(k, v). (lit k, f v)) kvs)) = distinct (map fst kvs)"
proof -
  have "map fst (map (\<lambda>(k, v). (lit k, f v)) kvs) = map lit (map fst kvs)"
    by (simp add: case_prod_unfold)
  then show ?thesis by (simp add: distinct_map inj_on_def lit_eq del: map_map)
qed

lemma keys_after_sort:
  "set (map fst (sort_key fst (map (\<lambda>(k, v). (lit k, f v)) kvs))) = set (map lit (map fst kvs))"
  by (force simp: case_prod_unfold)

lemma map_of_lit: "map_of (map (\<lambda>(k, v). (lit k, f v)) kvs) (lit k) = map_option f (map_of kvs k)"
  by (induction kvs) (auto simp: lit_eq)

lemma dumped_jobject:
  "dumped (jobject kvs) = JObj (sort_key fst (map (\<lambda>(k, v). (lit k, dumped v)) kvs))"
  by (simp add: jobject_def case_prod_unfold comp_def)

lemma jget_or_column:
  assumes "distinct (map fst kvs)"
  shows "jget_or d (dumped (jobject kvs)) k = (case map_of kvs k of None \<Rightarrow> d | Some v \<Rightarrow> dumped v)"
proof -
  have "map_of (sort_key fst (map (\<lambda>(k, v). (lit k, dumped v)) kvs)) (lit k) = map_option dumped (map_of kvs k)"
    using assms by (subst map_of_sort_key) (simp_all only: distinct_lit map_of_lit)
  then show ?thesis by (simp add: dumped_jobject split: option.split)
qed

lemma jget_column:
  "distinct (map fst kvs) \<Longrightarrow>
     jget (dumped (jobject kvs)) k = (case map_of kvs k of None \<Rightarrow> JNull | Some v \<Rightarrow> dumped v)"
  unfolding jget_def by (rule jget_or_column)

lemma is_obj_column [simp]: "is_obj (dumped (jobject kvs))"
  by (simp add: dumped_jobject)

lemma json_of_opt_simps [simp]: "json_of_opt None = JNull" "json_of_opt (Some x) = JStr x"
  by (simp_all add: json_of_opt_def)

lemma dumped_opt [simp]: "dumped (json_of_opt v) = json_of_opt v"
  by (simp add: json_of_opt_def split: option.split)

lemma dumped_JStrs [simp]: "dumped (JList (map JStr ss)) = JList (map JStr ss)"
  by simp

lemma dumped_idem [simp]: "dumped (dumped j) = dumped j"
proof (induction j rule: dumped.induct)
  case (2 kvs)
  let ?d = "\<lambda>(k, v). (k, dumped v)"
  let ?s = "sort_key fst (map ?d kvs)"
  have "(case x of (k, v) \<Rightarrow> (k, dumped v)) = x" if "x \<in> set ?s" for x
    using that 2 by (auto split: prod.split)
  then have "map ?d ?s = ?s" by (intro map_idI)
  then show ?case by (simp add: sort_key_id_if_sorted)
qed simp_all

section \<open>Python equality is reflexive on written values\<close>

function plain_json :: "json \<Rightarrow> bool" where
  "plain_json (JList js) = list_all plain_json js"
| "plain_json (JObj kvs) = (distinct (map fst kvs) \<and> list_all (\<lambda>(k, v). plain_json v) kvs)"
| "plain_json (JNonFinite s) = (s \<noteq> ''NaN'')"
| "plain_json JNull = True"
| "plain_json (JBool b) = True"
| "plain_json (JInt n) = True"
| "plain_json (JReal r) = True"
| "plain_json (JStr s) = True"
  by pat_completeness auto

termination plain_json
proof (relation "measure size", goal_cases)
  case (3 kvs x k v)
  then show ?case using json_obj_size[of k v kvs] by simp
qed (simp_all add: less_Suc_eq_le size_list_estimation')

lemma json_eq_refl: "plain_json j \<Longrightarrow> json_eq j j"
proof (induction j rule: plain_json.induct)
  case (1 js)
  then show ?case by (auto simp: list_all_iff in_set_zip)
next
  case (2 kvs)
  have "case map_of kvs k of None \<Rightarrow> False | Some w \<Rightarrow> json_eq v w" if "(k, v) \<in> set kvs" for k v
  proof -
    from that 2 have "map_of kvs k = Some v" by simp
    moreover have "json_eq v v" using 2 that by (auto simp: list_all_iff)
    ultimately show ?thesis by simp
  qed
  then show ?case by (auto simp: list_all_iff)
qed simp_all

lemma plain_dumped: "plain_json j \<Longrightarrow> plain_json (dumped j)"
proof (induction j rule: plain_json.induct)
  case (1 js)
  then show ?case by (simp add: list_all_iff)
next
  case (2 kvs)
  let ?kvs = "map (\<lambda>(k, v). (k, dumped v)) kvs"
  have "map fst ?kvs = map fst kvs" by (simp add: case_prod_unfold)
  with 2 have "distinct (map fst ?kvs)" by (simp only: plain_json.simps)
  then have "distinct (map fst (sort_key fst ?kvs))" by (simp only: distinct_sort_key)
  moreover have "plain_json (dumped v)" if "(k, v) \<in> set kvs" for k v
    using 2 that by (auto simp: list_all_iff)
  ultimately show ?case by (auto simp: list_all_iff)
qed simp_all

lemma plain_jobject:
  "distinct (map fst kvs) \<Longrightarrow> list_all (\<lambda>(k, v). plain_json v) kvs \<Longrightarrow> plain_json (jobject kvs)"
  using distinct_lit[of "\<lambda>v. v" kvs] by (auto simp: jobject_def list_all_iff)

lemma plain_opt [simp]: "plain_json (json_of_opt v)"
  by (simp add: json_of_opt_def split: option.split)

lemma plain_member [simp]: "plain_json (member_json m)"
  unfolding member_json_def by (rule plain_jobject) simp_all

lemma plain_execution [simp]: "plain_json (execution_json e)"
proof (cases e)
  case (Some st)
  show ?thesis
    unfolding Some execution_json_def option.case
    by (rule plain_jobject) (simp_all add: list_all_iff)
qed (simp add: execution_json_def)

lemma same_columns:
  "jget a k = v \<Longrightarrow> jget b l = v \<Longrightarrow> plain_json v \<Longrightarrow> same_field a k b l"
  by (simp add: same_field_def json_eq_refl)

end
