(* ===== verification/Plan_Roundtrip.thy ===== *)
theory Plan_Roundtrip
  imports Plan_Json Plan_Loader_Props
begin

text \<open>
  What is created is what loads.  The columns of a plan built without reservation parse back to
  the executions they were written from and pass every check of the loader, provided no object
  is planned twice and every target path is still valid when it is read again.
\<close>

section \<open>Columns\<close>

lemma member_columns [simp]:
  "jget (dumped (member_json m)) ''object_type'' = JStr (em_object_type m)"
  "jget (dumped (member_json m)) ''object_id'' = JStr (em_object_id m)"
  "jget (dumped (member_json m)) ''source_parent_id'' = JStr (em_source_parent_id m)"
  "jget (dumped (member_json m)) ''source_path'' = JStr (em_source_path m)"
  "jget (dumped (member_json m)) ''source_name'' = JStr (em_source_name m)"
  "jget (dumped (member_json m)) ''source_version'' = JStr (em_source_version m)"
  "jget (dumped (member_json m)) ''target_parent_id'' = JStr (em_target_parent_id m)"
  "jget (dumped (member_json m)) ''target_name'' = JStr (em_target_name m)"
  "is_obj (dumped (member_json m))"
  by (simp_all add: member_json_def jget_column)

lemma execution_columns [simp]:
  "jget (dumped (execution_json (Some e))) ''order'' = JInt (es_order e)"
  "jget (dumped (execution_json (Some e))) ''kind'' = JStr (es_kind e)"
  "jget (dumped (execution_json (Some e))) ''scope_directory_ids''
     = JList (map JStr (es_scope_directory_ids e))"
  "jget (dumped (execution_json (Some e))) ''members'' = JList (map (dumped \<circ> member_json) (es_members e))"
  "is_obj (dumped (execution_json (Some e)))"
  by (simp_all add: execution_json_def jget_column comp_def)

lemma companion_columns [simp]:
  "jget (dumped (companion_json m)) ''object_type'' = JStr (em_object_type m)"
  "jget (dumped (companion_json m)) ''object_id'' = JStr (em_object_id m)"
  "jget (dumped (companion_json m)) ''parent_id'' = JStr (em_source_parent_id m)"
  "jget (dumped (companion_json m)) ''path'' = JStr (em_source_path m)"
  "jget (dumped (companion_json m)) ''name'' = JStr (em_source_name m)"
  "jget (dumped (companion_json m)) ''remote_version'' = JStr (em_source_version m)"
  "jget (dumped (companion_json m)) ''is_directory'' = JBool False"
  "is_obj (dumped (companion_json m))"
  by (simp_all add: companion_json_def jget_column)

abbreviation source_of :: "plan_draft \<Rightarrow> plan_source" where
  "source_of d \<equiv> pi_source (pd_item d)"

lemma action_columns [simp]:
  "jget (dumped (action_json c d)) ''order'' = JInt (pd_index d)"
  "jget (dumped (action_json c d)) ''kind'' = JStr (lit (action_kind c d))"
  "jget (dumped (action_json c d)) ''object_type'' = JStr (psrc_object_type (source_of d))"
  "jget (dumped (action_json c d)) ''object_id'' = JStr (psrc_object_id (source_of d))"
  "jget (dumped (action_json c d)) ''source_parent_id'' = JStr (psrc_parent_id (source_of d))"
  "jget (dumped (action_json c d)) ''source_path'' = JStr (psrc_path (source_of d))"
  "jget (dumped (action_json c d)) ''source_name'' = JStr (pd_name d)"
  "jget (dumped (action_json c d)) ''source_version'' = JStr (psrc_remote_version (source_of d))"
  "jget (dumped (action_json c d)) ''target_parent_id'' = json_of_opt (pi_target_parent_id (pd_item d))"
  "jget (dumped (action_json c d)) ''target_name'' = json_of_opt (pi_target_name (pd_item d))"
  "jget (dumped (action_json c d)) ''target'' = json_of_opt (pd_target d)"
  "jget (dumped (action_json c d)) ''execution'' = dumped (execution_json (pd_execution d))"
  "is_obj (dumped (action_json c d))"
  by (simp_all add: action_json_def Let_def jget_column)

lemma precondition_columns [simp]:
  "jget (dumped (precondition_json r pv mv c d)) ''source_index'' = JInt (pd_index d)"
  "jget (dumped (precondition_json r pv mv c d)) ''object_type'' = JStr (psrc_object_type (source_of d))"
  "jget (dumped (precondition_json r pv mv c d)) ''object_id'' = JStr (psrc_object_id (source_of d))"
  "jget (dumped (precondition_json r pv mv c d)) ''parent_id'' = JStr (psrc_parent_id (source_of d))"
  "jget (dumped (precondition_json r pv mv c d)) ''source_path'' = JStr (psrc_path (source_of d))"
  "jget (dumped (precondition_json r pv mv c d)) ''source_name'' = JStr (pd_name d)"
  "jget (dumped (precondition_json r pv mv c d)) ''remote_version'' = JStr (psrc_remote_version (source_of d))"
  "jget (dumped (precondition_json r pv mv c d)) ''source_snapshot_revision'' = dumped (json_of_int r)"
  "jget (dumped (precondition_json r pv mv c d)) ''target'' = json_of_opt (pd_target d)"
  "jget (dumped (precondition_json r pv mv c d)) ''target_parent_id'' = json_of_opt (pi_target_parent_id (pd_item d))"
  "jget (dumped (precondition_json r pv mv c d)) ''target_name'' = json_of_opt (pi_target_name (pd_item d))"
  "jget (dumped (precondition_json r pv mv c d)) ''rule_version'' = JStr (np_rule_version (pi_naming_plan (pd_item d)))"
  "jget (dumped (precondition_json r pv mv c d)) ''parser_version'' = JStr pv"
  "jget (dumped (precondition_json r pv mv c d)) ''matcher_version'' = JStr mv"
  "jget (dumped (precondition_json r pv mv c d)) ''execution'' = dumped (execution_json (pd_execution d))"
  "jget (dumped (precondition_json r pv mv c d)) ''target_conflict'' = JBool c"
  "is_obj (dumped (precondition_json r pv mv c d))"
  by (simp_all add: precondition_json_def Let_def jget_column)

lemma snapshot_columns_of [simp]:
  "jget (dumped (snapshot_json d)) ''object_type'' = JStr (psrc_object_type (source_of d))"
  "jget (dumped (snapshot_json d)) ''object_id'' = JStr (psrc_object_id (source_of d))"
  "jget (dumped (snapshot_json d)) ''parent_id'' = JStr (psrc_parent_id (source_of d))"
  "jget (dumped (snapshot_json d)) ''path'' = JStr (psrc_path (source_of d))"
  "jget (dumped (snapshot_json d)) ''name'' = JStr (pd_name d)"
  "jget (dumped (snapshot_json d)) ''remote_version'' = JStr (psrc_remote_version (source_of d))"
  "jget (dumped (snapshot_json d)) ''is_directory'' = JBool (psrc_is_directory (source_of d))"
  "jget_or (JList []) (dumped (snapshot_json d)) ''companions''
     = JList (case pd_execution d of None \<Rightarrow> [] | Some e \<Rightarrow> map (dumped \<circ> companion_json) (drop 1 (es_members e)))"
  "is_obj (dumped (snapshot_json d))"
  by (cases "pd_execution d"; simp add: snapshot_json_def Let_def jget_column jget_or_column comp_def)+

section \<open>Members\<close>

definition good_member ::
  "unicode \<Rightarrow> scan_entry list \<Rightarrow> pystr \<Rightarrow> pystr \<Rightarrow> exec_member \<Rightarrow> bool" where
  "good_member u rows rt tp m \<longleftrightarrow>
     plan_identity (em_object_type m) \<and> plan_identity (em_object_id m)
     \<and> plan_identity (em_source_parent_id m) \<and> valid_source_path (em_source_path m)
     \<and> valid_target_name (em_source_name m) \<and> valid_source_version u (em_source_version m)
     \<and> plan_identity (em_target_parent_id m) \<and> valid_target_name (em_target_name m)
     \<and> member_in_scan rt rows tp m"

lemma parse_member_json:
  "good_member u rows rt tp m \<Longrightarrow> parse_member u (dumped (member_json m)) = Some m"
  by (simp add: parse_member_def good_member_def)

lemma parse_members_json:
  assumes "\<forall>m \<in> set ms. good_member u rows rt tp m"
  shows "parse_members u seen (map (dumped \<circ> member_json) ms)
    = (if distinct (map member_key ms) \<and> member_key ` set ms \<inter> set seen = {}
       then Some (ms, rev (map member_key ms) @ seen) else None)"
  using assms
proof (induction ms arbitrary: seen)
  case (Cons m ms)
  then have "parse_member u (dumped (member_json m)) = Some m" by (auto intro: parse_member_json)
  with Cons show ?case by auto
qed simp

text \<open>What an item asks for of each of its sources.\<close>

definition asked :: "plan_source \<times> pystr option \<times> pystr option
    \<Rightarrow> (pystr \<times> pystr) \<times> pystr \<times> pystr \<times> pystr \<times> pystr option \<times> pystr option" where
  "asked x = (case x of (src, tp, tn) \<Rightarrow>
     (source_key src, psrc_parent_id src, psrc_path src, psrc_remote_version src, tp, tn))"

definition planned :: "exec_member
    \<Rightarrow> (pystr \<times> pystr) \<times> pystr \<times> pystr \<times> pystr \<times> pystr option \<times> pystr option" where
  "planned m = (member_key m, em_source_parent_id m, em_source_path m, em_source_version m,
     Some (em_target_parent_id m), Some (em_target_name m))"

lemma payload_member_Some:
  assumes "payload_member u rows rt tp seen x = Some m"
  shows "good_member u rows rt tp m" and "planned m = asked x" and "member_key m \<notin> set seen"
    and "\<exists>row. find_entry (member_key m) rows = Some row \<and> em_source_name m = se_name row"
  using assms
  by (auto simp: payload_member_def good_member_def planned_def asked_def member_key_def source_key_def
      member_in_scan_def valid_source_version_def split: option.splits if_splits prod.splits)

lemma payload_members_Some:
  assumes "payload_members u rows rt tp seen xs = Some ms"
  shows "(\<forall>m \<in> set ms. good_member u rows rt tp m
            \<and> (\<exists>row. find_entry (member_key m) rows = Some row \<and> em_source_name m = se_name row))
    \<and> map planned ms = map asked xs
    \<and> distinct (map member_key ms) \<and> member_key ` set ms \<inter> set seen = {}"
  using assms
proof (induction xs arbitrary: seen ms)
  case (Cons x xs)
  from Cons.prems obtain m ms0 where m: "payload_member u rows rt tp seen x = Some m"
    and rest: "payload_members u rows rt tp (member_key m # seen) xs = Some ms0" and ms: "ms = m # ms0"
    by (auto split: option.splits)
  from Cons.IH[OF rest] payload_member_Some[OF m] show ?case by (auto simp: ms)
qed simp

section \<open>Drafts that can be executed\<close>

definition item_keys :: "plan_item \<Rightarrow> (pystr \<times> pystr) list" where
  "item_keys item = map (source_key \<circ> fst) (all_sources item)"

definition ready_draft :: "unicode \<Rightarrow> scan_entry list \<Rightarrow> pystr \<Rightarrow> plan_draft \<Rightarrow> bool" where
  "ready_draft u rows rt d \<longleftrightarrow>
     accepted d
     \<and> (\<exists>row. find_entry (item_key (pd_item d)) rows = Some row \<and> pd_name d = se_name row
          \<and> \<not> se_is_directory row)
     \<and> \<not> psrc_is_directory (source_of d)
     \<and> pd_execution d = execution_payload u (pd_item d) rows rt (pd_target d) (pd_index d)"

lemma good_managed:
  "good_member u rows rt tp m \<Longrightarrow> managed_directory rt rows (em_source_parent_id m) \<and> em_target_parent_id m = tp"
  by (auto simp: good_member_def member_in_scan_def split: option.splits)

lemma target_managed: "target_directory_matches t tp rows rt \<Longrightarrow> managed_directory rt rows tp"
  by (auto simp: target_directory_matches_def managed_directory_def split: if_splits list.splits)

lemma ready_execution:
  assumes "ready_draft u rows rt d"
  obtains t e tp tn m ms where "pd_target d = Some t" "pd_execution d = Some e"
    "pi_target_parent_id (pd_item d) = Some tp" "pi_target_name (pd_item d) = Some tn"
    "plan_identity rt" "plan_identity tp" "tn = posix_name t" "target_directory_matches t tp rows rt"
    "es_members e = m # ms" "\<forall>x \<in> set (m # ms). good_member u rows rt tp x"
    "map planned (m # ms) = map asked (all_sources (pd_item d))"
    "distinct (map member_key (m # ms))" "map member_key (m # ms) = item_keys (pd_item d)"
    "em_source_name m = pd_name d" "es_order e = pd_index d" "es_kind e = lit ''move''"
    "es_scope_directory_ids e = sort (remdups (rt # map em_source_parent_id (m # ms)
       @ map em_target_parent_id (m # ms)))"
proof -
  from assms obtain t e where te: "pd_target d = Some t" "pd_execution d = Some e"
    and ex: "execution_payload u (pd_item d) rows rt (Some t) (pd_index d) = Some e"
    by (auto simp: ready_draft_def accepted_def)
  from ex obtain tp tn ms where a: "pi_target_parent_id (pd_item d) = Some tp"
      "pi_target_name (pd_item d) = Some tn" "plan_identity rt" "plan_identity tp" "tn = posix_name t"
      "target_directory_matches t tp rows rt"
    and ms: "payload_members u rows rt tp [] (all_sources (pd_item d)) = Some ms"
    and e: "e = \<lparr>es_order = pd_index d, es_kind = lit ''move'', es_scope_directory_ids =
      sort (remdups (rt # map em_source_parent_id ms @ map em_target_parent_id ms)), es_members = ms\<rparr>"
    by (auto simp: execution_payload_def split: option.splits if_splits)
  note p = payload_members_Some[OF ms]
  obtain m ms0 where cons: "ms = m # ms0"
    using p by (cases ms) (auto simp: all_sources_def)
  have keys: "map member_key ms = item_keys (pd_item d)"
    using arg_cong[OF conjunct1[OF conjunct2[OF p]], of "map fst"]
    by (simp add: item_keys_def planned_def asked_def comp_def case_prod_unfold)
  have "member_key m = item_key (pd_item d)"
    using keys by (simp add: cons item_keys_def all_sources_def item_key_def)
  then have "em_source_name m = pd_name d"
    using p assms by (auto simp: cons ready_draft_def)
  with that[OF te a(1-6), of m ms0] p keys show thesis by (simp add: e cons)
qed

lemma parse_scope_json:
  assumes "L \<noteq> []" and "list_all plan_identity L"
  shows "parse_scope (JList (map JStr (sort (remdups L)))) = Some (sort (remdups L))"
proof -
  have "map (the \<circ> as_str) (map JStr (sort (remdups L))) = sort (remdups L)" by (simp add: comp_def)
  moreover have "sort (remdups L) \<noteq> []" using assms(1) by (metis set_empty set_remdups set_sort)
  ultimately show ?thesis
    using assms by (simp add: parse_scope_def list_all_iff str_where_def)
qed

lemma ready_parse:
  assumes "ready_draft u rows rt d"
  shows "parse_action u (pd_index d) seen (dumped (action_json False d))
    = (if set (item_keys (pd_item d)) \<inter> set seen = {}
       then Some (the (pd_execution d), rev (item_keys (pd_item d)) @ seen) else None)"
proof -
  from assms obtain t e tp tn m ms where e: "pd_target d = Some t" "pd_execution d = Some e"
    "pi_target_parent_id (pd_item d) = Some tp" "plan_identity rt"
    "es_members e = m # ms" "\<forall>x \<in> set (m # ms). good_member u rows rt tp x"
    "distinct (map member_key (m # ms))" "map member_key (m # ms) = item_keys (pd_item d)"
    "es_order e = pd_index d" "es_kind e = lit ''move''"
    and scope: "es_scope_directory_ids e = sort (remdups (rt # map em_source_parent_id (m # ms)
       @ map em_target_parent_id (m # ms)))"
    by (rule ready_execution)
  let ?L = "rt # map em_source_parent_id (m # ms) @ map em_target_parent_id (m # ms)"
  have "list_all plan_identity ?L"
    using e(4,6) by (auto simp: list_all_iff good_member_def)
  from parse_scope_json[OF _ this] have sc: "parse_scope (JList (map JStr (es_scope_directory_ids e)))
      = Some (es_scope_directory_ids e)" unfolding scope by simp
  have sub: "member_parents (m # ms) \<subseteq> set (es_scope_directory_ids e)"
    unfolding scope by (auto simp: member_parents_def)
  have kind: "action_kind False d = ''move''"
    using assms e(1) by (simp add: action_kind_def ready_draft_def)
  have first: "member_key m = item_key (pd_item d)"
    using e(8) by (simp add: item_keys_def all_sources_def item_key_def)
  have keys: "member_key ` set (m # ms) = set (item_keys (pd_item d))"
    using arg_cong[OF e(8), of set] by simp
  have members: "parse_members u seen (dumped (member_json m) # map (dumped \<circ> member_json) ms)
      = (if set (item_keys (pd_item d)) \<inter> set seen = {} then Some (m # ms, rev (item_keys (pd_item d)) @ seen) else None)"
    using parse_members_json[OF e(6), of seen] e(7) unfolding keys e(8) by simp
  have eq: "e = \<lparr>es_order = pd_index d, es_kind = lit ''move'',
      es_scope_directory_ids = es_scope_directory_ids e, es_members = m # ms\<rparr>"
    using e(5,9,10) by (cases e) simp
  show ?thesis
    using e(2) first sub sc kind
    by (auto simp: parse_action_def Let_def e(5,9,10) members member_key_def item_key_def source_key_def
        json_eq_str_def eq[symmetric] simp del: parse_members.simps)
qed

text \<open>The drafts of a plan are numbered from \<open>n\<close>.\<close>

fun numbered :: "int \<Rightarrow> plan_draft list \<Rightarrow> bool" where
  "numbered n [] = True"
| "numbered n (d # ds) = (pd_index d = n \<and> numbered (n + 1) ds)"

abbreviation drafts_keys :: "plan_draft list \<Rightarrow> (pystr \<times> pystr) list" where
  "drafts_keys ds \<equiv> concat (map (\<lambda>d. item_keys (pd_item d)) ds)"

lemma ready_distinct:
  assumes "ready_draft u rows rt d"
  shows "distinct (item_keys (pd_item d))"
  by (rule ready_execution[OF assms]) metis

lemma ready_parse_all:
  assumes "\<forall>d \<in> set ds. ready_draft u rows rt d" and "numbered n ds"
  shows "parse_actions u n seen (map (\<lambda>d. dumped (action_json False d)) ds)
    = (if distinct (drafts_keys ds) \<and> set (drafts_keys ds) \<inter> set seen = {}
       then Some (map (\<lambda>d. the (pd_execution d)) ds) else None)"
  using assms
proof (induction ds arbitrary: n seen)
  case (Cons d ds)
  from Cons.prems have d: "ready_draft u rows rt d" "pd_index d = n" by simp_all
  have ih: "parse_actions u (n + 1) seen' (map (\<lambda>d. dumped (action_json False d)) ds)
    = (if distinct (drafts_keys ds) \<and> set (drafts_keys ds) \<inter> set seen' = {}
       then Some (map (\<lambda>d. the (pd_execution d)) ds) else None)" for seen'
    by (rule Cons.IH) (use Cons.prems in simp_all)
  note one = ready_parse[OF d(1), of seen, unfolded d(2)]
  show ?case
  proof (cases "set (item_keys (pd_item d)) \<inter> set seen = {}")
    case True
    then show ?thesis
      using ready_distinct[OF d(1)] by (auto simp: one ih simp del: set_concat)
  next
    case False
    then show ?thesis by (auto simp: one)
  qed
qed simp

section \<open>Validation\<close>

lemma snapshot_key_columns [simp]:
  "snapshot_key (dumped (snapshot_json d)) = map_prod JStr JStr (item_key (pd_item d))"
  "snapshot_key (dumped (action_json c d)) = map_prod JStr JStr (item_key (pd_item d))"
  "snapshot_key (dumped (companion_json m)) = map_prod JStr JStr (member_key m)"
  by (simp_all add: snapshot_key_def item_key_def source_key_def member_key_def)

lemma inj_key: "map_prod JStr JStr k = map_prod JStr JStr l \<longleftrightarrow> k = l"
  by (cases k; cases l) simp

lemma first_source:
  assumes "ready_draft u rows rt d" and "pd_execution d = Some e" and "es_members e = m # ms"
  shows "em_object_type m = psrc_object_type (source_of d)" "em_object_id m = psrc_object_id (source_of d)"
    "em_source_parent_id m = psrc_parent_id (source_of d)" "em_source_path m = psrc_path (source_of d)"
    "em_source_version m = psrc_remote_version (source_of d)" "em_source_name m = pd_name d"
    "pi_target_parent_id (pd_item d) = Some (em_target_parent_id m)"
    "pi_target_name (pd_item d) = Some (em_target_name m)"
proof -
  obtain t e' tp tn m' ms' where e: "pd_execution d = Some e'" "es_members e' = m' # ms'"
    "map planned (m' # ms') = map asked (all_sources (pd_item d))" "em_source_name m' = pd_name d"
    by (rule ready_execution[OF assms(1)]) metis
  with assms(2,3) have "planned m = asked (source_of d, pi_target_parent_id (pd_item d), pi_target_name (pd_item d))"
    and "em_source_name m = pd_name d" by (auto simp: all_sources_def)
  then show "em_object_type m = psrc_object_type (source_of d)" "em_object_id m = psrc_object_id (source_of d)"
    "em_source_parent_id m = psrc_parent_id (source_of d)" "em_source_path m = psrc_path (source_of d)"
    "em_source_version m = psrc_remote_version (source_of d)" "em_source_name m = pd_name d"
    "pi_target_parent_id (pd_item d) = Some (em_target_parent_id m)"
    "pi_target_name (pd_item d) = Some (em_target_name m)"
    by (simp_all add: planned_def asked_def member_key_def source_key_def)
qed

lemma ready_snapshot:
  assumes "ready_draft u rows rt d"
  shows "snapshot_item_ok u (dumped (snapshot_json d))"
proof -
  obtain t e tp tn m ms where e: "pd_execution d = Some e" "es_members e = m # ms"
    "\<forall>x \<in> set (m # ms). good_member u rows rt tp x" "distinct (map member_key (m # ms))"
    by (rule ready_execution[OF assms]) metis
  note f = first_source[OF assms e(1,2)]
  have good: "good_member u rows rt tp m" using e(3) by simp
  have dir: "\<not> psrc_is_directory (source_of d)" using assms by (simp add: ready_draft_def)
  have key: "item_key (pd_item d) = member_key m"
    using f(1,2) by (simp add: item_key_def source_key_def member_key_def)
  have "snapshot_columns u (dumped (snapshot_json d))"
    using good dir by (simp add: snapshot_columns_def str_where_def good_member_def f)
  moreover have "snapshot_columns u (dumped (companion_json x))" if "x \<in> set ms" for x
    using e(3) that by (simp add: snapshot_columns_def str_where_def good_member_def)
  moreover have "distinct (snapshot_key (dumped (snapshot_json d)) # map (snapshot_key \<circ> dumped \<circ> companion_json) ms)"
  proof -
    have "snapshot_key (dumped (snapshot_json d)) # map (snapshot_key \<circ> dumped \<circ> companion_json) ms
        = map (map_prod JStr JStr) (map member_key (m # ms))"
      by (simp add: key comp_def)
    then show ?thesis using e(4) by (simp only: distinct_map) (auto simp: inj_on_def inj_key)
  qed
  ultimately show ?thesis
    by (simp add: snapshot_item_ok_def e(1,2) list_all_iff comp_def)
qed

lemma ready_step:
  assumes "ready_draft u rows rt d"
  shows "validate_persisted_step rt rows (dumped (action_json False d)) (the (pd_execution d))
      (dumped (snapshot_json d))
    = (validate_relative_path False (the (pd_target d)) \<noteq> None)"
proof -
  obtain t e tp tn m ms where e: "pd_target d = Some t" "pd_execution d = Some e"
    "pi_target_parent_id (pd_item d) = Some tp" "pi_target_name (pd_item d) = Some tn"
    "tn = posix_name t" "target_directory_matches t tp rows rt"
    "es_members e = m # ms" "\<forall>x \<in> set (m # ms). good_member u rows rt tp x"
    "es_scope_directory_ids e = sort (remdups (rt # map em_source_parent_id (m # ms)
       @ map em_target_parent_id (m # ms)))"
    by (rule ready_execution[OF assms]) metis
  note f = first_source[OF assms e(2,7)]
  have tp: "em_target_parent_id x = tp" if "x \<in> set (m # ms)" for x
    using e(8) good_managed that by blast
  have dir: "\<not> psrc_is_directory (source_of d)" using assms by (simp add: ready_draft_def)
  have scope: "set (es_scope_directory_ids e) = insert rt (member_parents (m # ms))"
    unfolding e(9) member_parents_def by auto
  have managed: "list_all (managed_directory rt rows) (es_scope_directory_ids e)"
  proof -
    have "managed_directory rt rows x" if "x \<in> insert rt (member_parents (m # ms))" for x
    proof -
      from that consider "x = rt" | y where "y \<in> set (m # ms)" "x = em_source_parent_id y \<or> x = em_target_parent_id y"
        by (auto simp: member_parents_def)
      then show ?thesis
      proof cases
        case 2
        with e(8) have "good_member u rows rt tp y" by blast
        with 2(2) show ?thesis using good_managed target_managed[OF e(6)] by metis
      qed (simp add: managed_directory_def)
    qed
    then show ?thesis unfolding list_all_iff scope by blast
  qed
  have scan: "list_all (member_in_scan rt rows (em_target_parent_id m)) (m # ms)"
    unfolding list_all_iff using e(8) tp by (auto simp: good_member_def)
  have primary: "primary_matches (dumped (action_json False d)) t m"
    using f e(3-5) by (simp add: primary_matches_def json_eq_str_def json_of_opt_def)
  have companions: "list_all (\<lambda>(item, x). member_in_snapshot item x)
      (zip (dumped (snapshot_json d) # map (dumped \<circ> companion_json) ms) (m # ms))"
  proof -
    have "member_in_snapshot (dumped (snapshot_json d)) m"
      using f dir by (simp add: member_in_snapshot_def json_eq_str_def)
    moreover have "member_in_snapshot (dumped (companion_json x)) x" for x
      by (simp add: member_in_snapshot_def json_eq_str_def)
    ultimately show ?thesis by (auto simp: list_all_iff set_zip)
  qed
  show ?thesis
    using tp[of m] e(6) scope managed scan primary companions
    by (auto simp: validate_persisted_step_def e(1,2,7) json_of_opt_def)
qed

lemma ready_row:
  assumes "ready_draft u rows rt d"
  obtains row where "find_entry (item_key (pd_item d)) rows = Some row" "\<not> se_is_directory row"
    "se_parent_id row = Some (psrc_parent_id (source_of d))" "se_path row = Some (psrc_path (source_of d))"
    "se_name row = pd_name d"
proof -
  obtain t e tp tn m ms where e: "pd_execution d = Some e" "es_members e = m # ms"
    "\<forall>x \<in> set (m # ms). good_member u rows rt tp x"
    by (rule ready_execution[OF assms]) metis
  note f = first_source[OF assms e(1,2)]
  from e(3) have "member_in_scan rt rows tp m" by (simp add: good_member_def)
  with f that show thesis
    by (auto simp: member_in_scan_def member_key_def item_key_def source_key_def split: option.splits)
qed

definition reread :: "plan_draft \<Rightarrow> bool" where
  "reread d \<longleftrightarrow> validate_relative_path False (the (pd_target d)) \<noteq> None"

lemma ready_action_ok:
  assumes "ready_draft u rows rt d" and "d \<in> set ds" and "distinct (map (\<lambda>d. item_key (pd_item d)) ds)"
    and "plan_rule_version p = np_rule_version (pi_naming_plan (pd_item d))"
  shows "action_ok p rt rows (map (\<lambda>d. dumped (snapshot_json d)) ds) (pd_index d)
      (dumped (action_json False d))
      (dumped (precondition_json (Some (plan_source_snapshot_revision p)) (plan_parser_version p)
         (plan_matcher_version p) False d))
      (the (pd_execution d))
    \<longleftrightarrow> reread d"
proof -
  let ?a = "dumped (action_json False d)" and ?s = "dumped (snapshot_json d)"
  let ?pre = "dumped (precondition_json (Some (plan_source_snapshot_revision p)) (plan_parser_version p)
         (plan_matcher_version p) False d)"
  obtain row where row: "find_entry (item_key (pd_item d)) rows = Some row" "\<not> se_is_directory row"
    "se_parent_id row = Some (psrc_parent_id (source_of d))" "se_path row = Some (psrc_path (source_of d))"
    "se_name row = pd_name d" by (rule ready_row[OF assms(1)])
  obtain t e where e: "pd_target d = Some t" "pd_execution d = Some e" "es_order e = pd_index d"
    by (rule ready_execution[OF assms(1)])
  have kind: "action_kind False d = ''move''"
    using assms(1) e(1) by (simp add: action_kind_def ready_draft_def)
  have "distinct (map snapshot_key (map (\<lambda>d. dumped (snapshot_json d)) ds))"
  proof -
    have "map snapshot_key (map (\<lambda>d. dumped (snapshot_json d)) ds)
        = map (map_prod JStr JStr) (map (\<lambda>d. item_key (pd_item d)) ds)" by simp
    then show ?thesis using assms(3) by (simp only: distinct_map) (auto simp: inj_on_def inj_key)
  qed
  then have source: "row_of snapshot_key (snapshot_key ?a) (map (\<lambda>d. dumped (snapshot_json d)) ds) = Some ?s"
    using assms(2) row_of_unique[of snapshot_key "map (\<lambda>d. dumped (snapshot_json d)) ds" ?s] by simp
  have arow: "action_row ?a rows = Some row"
    using row(1) by (simp add: action_row_def item_key_def source_key_def)
  have "plain_json (dumped (execution_json (pd_execution d)))" by (simp add: plain_dumped)
  then have "action_consistent p (pd_index d) ?a ?pre e ?s row"
    using e(2,3) row kind assms(4)
    by (simp add: action_consistent_def same_field_def json_eq_refl json_of_int_def
        json_eq_str_def)
  then show ?thesis
    using ready_step[OF assms(1)]
    by (simp add: action_ok_def source[unfolded snapshot_key_columns] arow e(2) reread_def)
qed

lemma ready_actions_ok:
  assumes "\<forall>d \<in> set ds. ready_draft u rows rt d" and "set ds \<subseteq> set ds0"
    and "distinct (map (\<lambda>d. item_key (pd_item d)) ds0)" and "numbered n ds"
    and "\<forall>d \<in> set ds. plan_rule_version p = np_rule_version (pi_naming_plan (pd_item d))"
  shows "actions_ok p rt rows (map (\<lambda>d. dumped (snapshot_json d)) ds0) n
      (map (\<lambda>d. dumped (action_json False d)) ds)
      (map (\<lambda>d. dumped (precondition_json (Some (plan_source_snapshot_revision p)) (plan_parser_version p)
         (plan_matcher_version p) False d)) ds)
      (map (\<lambda>d. the (pd_execution d)) ds)
    \<longleftrightarrow> (\<forall>d \<in> set ds. reread d)"
  using assms
proof (induction ds arbitrary: n)
  case (Cons d ds)
  from Cons.prems have d: "ready_draft u rows rt d" "d \<in> set ds0" "pd_index d = n"
    "plan_rule_version p = np_rule_version (pi_naming_plan (pd_item d))" by simp_all
  from ready_action_ok[OF d(1,2) Cons.prems(3) d(4), unfolded d(3)] Cons.IH[of "n + 1"] Cons.prems
  show ?case by simp
qed simp

section \<open>From a request to its drafts\<close>

lemma items_refused_None:
  "items_refused u seen items = None \<Longrightarrow>
     distinct (map item_key items) \<and> item_key ` set items \<inter> set seen = {}
     \<and> (\<forall>item \<in> set items. \<not> psrc_is_directory (pi_source item))"
proof (induction items arbitrary: seen)
  case (Cons item items)
  then have "item_refused u seen item = None"
    and "items_refused u (item_key item # seen) items = None"
    by (auto simp: item_key_def split: option.splits)
  with Cons.IH[of "item_key item # seen"] show ?case
    by (auto simp: item_refused_def Let_def item_key_def split: if_splits)
qed simp

lemma validate_items_Inr:
  assumes "validate_items u items = Inr its"
  shows "its = sort_key item_key items" "its \<noteq> []" "distinct (map item_key its)"
    "\<forall>item \<in> set its. \<not> psrc_is_directory (pi_source item)"
proof -
  from assms have "its = sort_key item_key items" "items \<noteq> []" "items_refused u [] items = None"
    by (auto simp: validate_items_def split: if_splits option.splits)
  with items_refused_None[of u "[]" items]
  show "its = sort_key item_key items" "its \<noteq> []" "distinct (map item_key its)"
    "\<forall>item \<in> set its. \<not> psrc_is_directory (pi_source item)"
    by (simp_all only: distinct_sort_key) (metis set_empty set_sort, simp)
qed

definition drafted ::
  "unicode \<Rightarrow> scan_entry list \<Rightarrow> pystr \<Rightarrow> pystr \<Rightarrow> plan_draft \<Rightarrow> bool" where
  "drafted u rows rt target_root d \<longleftrightarrow>
     (\<exists>row. find_entry (item_key (pd_item d)) rows = Some row \<and> pd_name d = se_name row)
     \<and> target_path target_root (np_target_path (pi_naming_plan (pd_item d))) = Inr (pd_target d)
     \<and> pd_execution d = execution_payload u (pd_item d) rows rt (pd_target d) (pd_index d)"

lemma draft_items_Inr:
  assumes "draft_items u rows rt target_root n items = Inr ds"
  shows "map pd_item ds = items \<and> numbered n ds \<and> (\<forall>d \<in> set ds. drafted u rows rt target_root d)"
  using assms
proof (induction items arbitrary: n ds)
  case (Cons item items)
  from Cons.prems obtain d ds0 where d: "draft_item u rows rt target_root n item = Inr d"
    and rest: "draft_items u rows rt target_root (n + 1) items = Inr ds0" and ds: "ds = d # ds0"
    by (auto simp: map_sum_Inr split: sum.splits)
  from d have "pd_item d = item" "pd_index d = n" "drafted u rows rt target_root d"
    by (auto simp: draft_item_def drafted_def split: option.splits sum.splits)
  with Cons.IH[OF rest] show ?case by (simp add: ds)
qed simp

lemma planned_drafts:
  assumes "payload_status u conflicts ds = PLAN_PLANNED" and "d \<in> set ds"
  shows "accepted d" and "\<not> is_conflict u conflicts (draft_targets u ds) d"
proof -
  let ?ts = "draft_targets u ds"
  from assms(1) have all: "list_all accepted ds" "\<not> list_ex (\<lambda>t. count_list ?ts t > 1) ?ts"
    "set conflicts \<inter> set ?ts = {}"
    by (auto simp: payload_status_def Let_def split: if_splits)
  from all(1) assms(2) show "accepted d" by (auto simp: list_all_iff)
  show "\<not> is_conflict u conflicts ?ts d"
  proof
    assume "is_conflict u conflicts ?ts d"
    then obtain t where t: "pd_target d = Some t" "py_casefold u t \<in> conflict_keys conflicts ?ts"
      by (auto simp: is_conflict_def split: option.splits)
    then have "py_casefold u t \<in> set ?ts"
      using assms(2) by (auto simp: draft_targets_def intro!: bexI[of _ d])
    with t(2) all(2,3) show False by (auto simp: conflict_keys_def list_ex_iff)
  qed
qed

section \<open>The stored row\<close>

text \<open>What the row of a new plan consists of.\<close>

lemma plan_row_for_Inr:
  assumes "plan_row_for u digest new_id clk q s = Inr p"
  obtains lib run rows conflicts ds where
    "verified_scan s (pq_library_id q) (pq_scan_run_id q) = Inr (lib, run, plan_source_snapshot_revision p)"
    "rows = scan_rows (run_id run) s"
    "map pd_item ds = sort_key item_key (pq_items q)" "ds \<noteq> []"
    "distinct (map (\<lambda>d. item_key (pd_item d)) ds)" "numbered 0 ds"
    "\<forall>d \<in> set ds. drafted u rows (lib_root_directory_id lib) (plan_target_root p) d
       \<and> source_row_ok True rows (pd_item d) \<and> \<not> psrc_is_directory (source_of d)
       \<and> np_rule_version (pi_naming_plan (pd_item d)) = plan_rule_version p"
    "plan_id p = new_id" "plan_library_id p = lib_id lib" "plan_source_scan_run_id p = run_id run"
    "validate_relative_path True (pq_target_root q) = Some (plan_target_root p)"
    "valid_version (plan_rule_version p)" "valid_version (plan_parser_version p)"
    "valid_version (plan_matcher_version p)" "plan_revision p = 1" "plan_alias p = None"
    "let pp = payload_of u conflicts (Some (plan_source_snapshot_revision p)) (plan_parser_version p)
                (plan_matcher_version p) ds
     in plan_source_snapshot p = json_column (JList (pp_source_snapshot pp))
        \<and> plan_actions p = json_column (JList (pp_actions pp))
        \<and> plan_preconditions p = json_column (preconditions_payload lib pp)
        \<and> plan_status p = pp_status pp
        \<and> plan_hash p = digest (canonical_request lib pp (plan_target_root p) (plan_rule_version p)
             (plan_parser_version p) (plan_matcher_version p))
        \<and> plan_basis p = json_column (JList (map basis_json (pp_basis pp)))"
proof -
  from assms obtain target_root pv mv items lib run revision rows pp rule where
    path: "checked_path True (pq_target_root q) = Inr target_root"
    and versions: "validate_version (pq_parser_version q) = Inr pv" "validate_version (pq_matcher_version q) = Inr mv"
    and items: "validate_items u (pq_items q) = Inr items"
    and scan: "verified_scan s (pq_library_id q) (pq_scan_run_id q) = Inr (lib, run, revision)"
    and rows: "load_source_rows True s (run_id run) items = Inr rows"
    and pp: "build_payload u items rows (lib_root_directory_id lib) target_root
                 (pq_target_conflicts q) (Some revision) pv mv = Inr pp"
    and rule: "one_rule_version items = Inr rule"
    and p: "p = \<lparr>plan_id = new_id, plan_library_id = lib_id lib, plan_source_scan_run_id = run_id run,
            plan_source_snapshot_revision = revision,
            plan_source_snapshot = json_column (JList (pp_source_snapshot pp)),
            plan_target_root = target_root, plan_actions = json_column (JList (pp_actions pp)),
            plan_preconditions = json_column (preconditions_payload lib pp),
            plan_rule_version = rule, plan_parser_version = pv,
            plan_matcher_version = mv, plan_status = pp_status pp,
            plan_revision = 1, plan_expires_at = plan_expires_at p,
            plan_hash = digest (canonical_request lib pp target_root rule pv mv),
            plan_basis = json_column (JList (map basis_json (pp_basis pp))),
            plan_alias = None, plan_created_at = clk\<rparr>"
    unfolding plan_row_for_def by (auto simp: rbind_Inr Let_def split: if_splits)
  from path have path': "validate_relative_path True (pq_target_root q) = Some target_root"
    by (auto simp: checked_path_def split: option.splits)
  from versions have v: "valid_version pv" "valid_version mv"
    by (auto simp: validate_version_def split: if_splits)
  note it = validate_items_Inr[OF items]
  from rows have rw: "rows = scan_rows (run_id run) s" "\<forall>item \<in> set items. source_row_ok True rows item"
    by (auto simp: load_source_rows_def Let_def list_all_iff split: if_splits)
  from pp obtain conflicts ds where ds: "draft_items u rows (lib_root_directory_id lib) target_root 0 items = Inr ds"
    and pp': "pp = payload_of u conflicts (Some revision) pv mv ds"
    by (auto simp: build_payload_def map_sum_Inr split: sum.splits)
  note d = draft_items_Inr[OF ds]
  from rule have same: "remdups (map (np_rule_version \<circ> pi_naming_plan) items) = [rule]" "valid_version rule"
    by (auto simp: one_rule_version_def validate_version_def split: list.splits if_splits)
  have "np_rule_version (pi_naming_plan item) = rule" if "item \<in> set items" for item
    using that arg_cong[OF same(1), of set] by force
  with d rw(2) it(4) have each: "\<forall>x \<in> set ds. drafted u rows (lib_root_directory_id lib) target_root x
       \<and> source_row_ok True rows (pd_item x) \<and> \<not> psrc_is_directory (source_of x)
       \<and> np_rule_version (pi_naming_plan (pd_item x)) = rule" by auto
  have fields: "plan_source_snapshot_revision p = revision" "plan_target_root p = target_root"
    "plan_rule_version p = rule" "plan_parser_version p = pv" "plan_matcher_version p = mv"
    "plan_id p = new_id" "plan_library_id p = lib_id lib" "plan_source_scan_run_id p = run_id run"
    "plan_revision p = 1" "plan_alias p = None"
    by (subst p, simp)+
  have columns: "plan_source_snapshot p = json_column (JList (pp_source_snapshot pp))"
    "plan_actions p = json_column (JList (pp_actions pp))"
    "plan_preconditions p = json_column (preconditions_payload lib pp)" "plan_status p = pp_status pp"
    "plan_hash p = digest (canonical_request lib pp target_root rule pv mv)"
    "plan_basis p = json_column (JList (map basis_json (pp_basis pp)))"
    by (subst p, simp)+
  have "map (\<lambda>x. item_key (pd_item x)) ds = map item_key items"
    using arg_cong[OF conjunct1[OF d], of "map item_key"] by (simp add: comp_def)
  with it(3) have dist: "distinct (map (\<lambda>x. item_key (pd_item x)) ds)" by simp
  have ne: "ds \<noteq> []" using d it(2) by auto
  show thesis
    by (rule that[of lib run rows ds conflicts])
       (use scan rw(1) d it(1) ne dist each path' v same(2) columns in
         \<open>simp_all add: fields Let_def pp'[symmetric]\<close>)
qed

lemma load_column_list: "load_json_list (json_column (JList js)) = map dumped js"
  by (simp add: json_column_def load_json_list_def)

lemma load_preconditions:
  "load_json_object (json_column (preconditions_payload lib pp)) = dumped (preconditions_payload lib pp)"
  by (simp add: json_column_def load_json_object_def preconditions_payload_def dumped_jobject)

lemma preconditions_columns [simp]:
  "jget (dumped (preconditions_payload lib pp)) ''library'' = dumped (library_snapshot lib)"
  "jget (dumped (preconditions_payload lib pp)) ''items'' = JList (map dumped (pp_preconditions pp))"
  by (simp_all add: preconditions_payload_def jget_column)

lemma library_matches: "json_matches_library (dumped (library_snapshot lib)) lib"
proof -
  let ?kvs = "[(''library_id'', JStr (lib_id lib)), (''revision'', JInt (lib_revision lib)),
    (''enabled'', JBool (lib_enabled lib)), (''scope_verified'', JBool (lib_scope_verified lib)),
    (''root_directory_id'', JStr (lib_root_directory_id lib))]"
  let ?js = "map (\<lambda>(k, v). (lit k, dumped v)) ?kvs"
  have keys: "library_snapshot_keys = map lit (map fst ?kvs)"
    by (simp add: library_snapshot_keys_def)
  have "library_snapshot lib = jobject ?kvs"
    by (simp add: library_snapshot_def library_snapshot_keys_def jobject_def)
  then obtain M where d: "dumped (library_snapshot lib) = JObj M" and M: "M = sort_key fst ?js"
    by (simp only: dumped_jobject)
  have "distinct (map fst ?kvs)" by simp
  then have at: "map_of M (lit k) = map_option dumped (map_of ?kvs k)" for k
    unfolding M by (subst map_of_sort_key) (simp_all only: distinct_lit map_of_lit)
  have "set (map fst M) = set library_snapshot_keys" unfolding M keys by (rule keys_after_sort)
  moreover have "map (map_of M) library_snapshot_keys
      = map (\<lambda>k. map_option dumped (map_of ?kvs k)) (map fst ?kvs)"
    unfolding keys map_map comp_def at ..
  ultimately show ?thesis
    unfolding json_matches_library_def d json.case by (simp add: json_eq_str_def json_eq_bool_def)
qed

lemma same_canonical:
  assumes "\<And>j. digest (dumped j) = digest j" and "plan_library_id p = lib_id lib"
    and "plan_actions p = json_column (JList (pp_actions pp))"
    and "plan_preconditions p = json_column (preconditions_payload lib pp)"
  shows "digest (canonical_plan p lib (map dumped (pp_source_snapshot pp)))
    = digest (canonical_request lib pp (plan_target_root p) (plan_rule_version p)
        (plan_parser_version p) (plan_matcher_version p))"
proof -
  have "canonical_plan p lib (map dumped (pp_source_snapshot pp)) = jobject
     [(''library_id'', JStr (lib_id lib)), (''library_snapshot'', library_snapshot lib),
      (''source_snapshot'', JList (map dumped (pp_source_snapshot pp))),
      (''target_root'', JStr (plan_target_root p)),
      (''actions'', JList (map dumped (pp_actions pp))),
      (''preconditions'', dumped (preconditions_payload lib pp)),
      (''rule_version'', JStr (plan_rule_version p)), (''parser_version'', JStr (plan_parser_version p)),
      (''matcher_version'', JStr (plan_matcher_version p))]"
    using assms(2-4) by (simp add: canonical_plan_def jobject_def load_column_list load_preconditions)
  then have "dumped (canonical_plan p lib (map dumped (pp_source_snapshot pp)))
    = dumped (canonical_request lib pp (plan_target_root p) (plan_rule_version p)
        (plan_parser_version p) (plan_matcher_version p))"
    by (simp only: canonical_request_def dumped_jobject) (simp add: comp_def)
  then show ?thesis using assms(1) by metis
qed

lemma verified_context:
  assumes "verified_scan s lid rid = Inr (lib, run, revision)" and "plan_library_id p = lib_id lib"
    and "plan_source_scan_run_id p = run_id run" and "plan_source_snapshot_revision p = revision"
    and "clk < plan_expires_at p"
  shows "plan_context s clk p = Some (lib, run)" "run_snapshot_revision run = Some revision"
proof -
  from assms(1) have v: "row_of lib_id lid (libraries s) = Some lib" "row_of run_id rid (runs s) = Some run"
    "run_snapshot_revision run = Some revision" "lib_enabled lib" "lib_scope_verified lib"
    "run_library_id run = lid" "run_root_directory_id run = lib_root_directory_id lib"
    "run_state run = SCAN_COMPLETED" "run_complete run"
    "map_option run_id (latest_run lib s) = Some (run_id run)"
    by (auto simp: verified_scan_def split: option.splits if_splits)
  moreover from v(1,2) have "lib_id lib = lid" "run_id run = rid" by (auto dest: row_of_Some)
  ultimately show "plan_context s clk p = Some (lib, run)" "run_snapshot_revision run = Some revision"
    using assms(2-5) by (simp_all add: plan_context_def)
qed

text \<open>What loads of a row that was just made.\<close>

lemma new_row_loads:
  assumes "plan_row_for u digest new_id clk q s = Inr p" and "plan_status p = PLAN_PLANNED"
    and "plan_identity new_id" and "\<And>j. digest (dumped j) = digest j"
    and "same_scan s s2" and "get_plan new_id s2 = Some p" and "clk2 < plan_expires_at p"
  obtains ds where "map pd_item ds = sort_key item_key (pq_items q)"
    "\<forall>d \<in> set ds. target_path (plan_target_root p) (np_target_path (pi_naming_plan (pd_item d))) = Inr (pd_target d)"
    "\<forall>d \<in> set ds. \<exists>u rows rt. ready_draft u rows rt d"
    "load_executable_steps u digest s2 clk2 new_id =
       (if distinct (drafts_keys ds) \<and> (\<forall>d \<in> set ds. reread d)
           \<and> validate_relative_path True (plan_target_root p) \<noteq> None
        then Some (map (\<lambda>d. the (pd_execution d)) ds) else None)"
proof -
  obtain lib run rows conflicts ds where
    scan: "verified_scan s (pq_library_id q) (pq_scan_run_id q) = Inr (lib, run, plan_source_snapshot_revision p)"
    and rows: "rows = scan_rows (run_id run) s"
    and items: "map pd_item ds = sort_key item_key (pq_items q)" and ne: "ds \<noteq> []"
    and dist: "distinct (map (\<lambda>d. item_key (pd_item d)) ds)" and num: "numbered 0 ds"
    and each: "\<forall>d \<in> set ds. drafted u rows (lib_root_directory_id lib) (plan_target_root p) d
       \<and> source_row_ok True rows (pd_item d) \<and> \<not> psrc_is_directory (source_of d)
       \<and> np_rule_version (pi_naming_plan (pd_item d)) = plan_rule_version p"
    and ids: "plan_library_id p = lib_id lib" "plan_source_scan_run_id p = run_id run"
    and versions: "valid_version (plan_rule_version p)" "valid_version (plan_parser_version p)"
    "valid_version (plan_matcher_version p)"
    and columns: "let pp = payload_of u conflicts (Some (plan_source_snapshot_revision p)) (plan_parser_version p)
                (plan_matcher_version p) ds
     in plan_source_snapshot p = json_column (JList (pp_source_snapshot pp))
        \<and> plan_actions p = json_column (JList (pp_actions pp))
        \<and> plan_preconditions p = json_column (preconditions_payload lib pp)
        \<and> plan_status p = pp_status pp
        \<and> plan_hash p = digest (canonical_request lib pp (plan_target_root p) (plan_rule_version p)
             (plan_parser_version p) (plan_matcher_version p))
        \<and> plan_basis p = json_column (JList (map basis_json (pp_basis pp)))"
    by (rule plan_row_for_Inr[OF assms(1)])
  let ?rt = "lib_root_directory_id lib"
  let ?pp = "payload_of u conflicts (Some (plan_source_snapshot_revision p)) (plan_parser_version p)
                (plan_matcher_version p) ds"
  from columns have col: "plan_source_snapshot p = json_column (JList (pp_source_snapshot ?pp))"
    "plan_actions p = json_column (JList (pp_actions ?pp))"
    "plan_preconditions p = json_column (preconditions_payload lib ?pp)" "plan_status p = pp_status ?pp"
    "plan_hash p = digest (canonical_request lib ?pp (plan_target_root p) (plan_rule_version p)
             (plan_parser_version p) (plan_matcher_version p))"
    by (simp_all add: Let_def)
  have "payload_status u conflicts ds = PLAN_PLANNED"
    using col(4) assms(2) by (simp add: payload_of_def Let_def)
  note planned = planned_drafts[OF this]
  have ready: "\<forall>d \<in> set ds. ready_draft u rows ?rt d"
    using each planned(1) by (fastforce simp: ready_draft_def drafted_def source_row_ok_def split: option.splits)
  have sorted: "sort_key (item_key \<circ> pd_item) ds = ds"
  proof (rule sort_key_id_if_sorted)
    have "map (item_key \<circ> pd_item) ds = map item_key (sort_key item_key (pq_items q))"
      using arg_cong[OF items, of "map item_key"] by simp
    then show "sorted (map (item_key \<circ> pd_item) ds)" by simp
  qed
  have pp: "pp_source_snapshot ?pp = map snapshot_json ds"
    "pp_actions ?pp = map (action_json False) ds"
    "pp_preconditions ?pp = map (precondition_json (Some (plan_source_snapshot_revision p))
       (plan_parser_version p) (plan_matcher_version p) False) ds"
    using planned(2) by (simp_all add: payload_of_def Let_def sorted)
  let ?source = "map (\<lambda>d. dumped (snapshot_json d)) ds"
  let ?actions = "map (\<lambda>d. dumped (action_json False d)) ds"
  let ?items = "map (\<lambda>d. dumped (precondition_json (Some (plan_source_snapshot_revision p))
       (plan_parser_version p) (plan_matcher_version p) False d)) ds"
  let ?sts = "map (\<lambda>d. the (pd_execution d)) ds"
  have actions: "load_json_list (plan_actions p) = ?actions"
    by (simp add: col(2) pp load_column_list comp_def)
  have source: "load_source_snapshot u (plan_source_snapshot p) = Some ?source"
  proof -
    have "load_json_list (plan_source_snapshot p) = ?source"
      by (simp add: col(1) pp load_column_list comp_def)
    moreover have "list_all (snapshot_item_ok u) ?source"
      using ready ready_snapshot by (auto simp: list_all_iff)
    ultimately show ?thesis using ne by (auto simp: load_source_snapshot_def split: list.split)
  qed
  have pre: "as_list (jget (load_json_object (plan_preconditions p)) ''items'') = Some ?items"
    "json_matches_library (jget (load_json_object (plan_preconditions p)) ''library'') lib"
    by (simp_all add: col(3) load_preconditions pp comp_def library_matches)
  have parsed: "parse_executable_steps u p = (if distinct (drafts_keys ds) then Some ?sts else None)"
    using ready_parse_all[OF ready num, of "[]"] ne
    by (simp add: parse_executable_steps_def assms(2) actions)
  have hash: "plan_hash p = digest (canonical_plan p lib ?source)"
    using same_canonical[of digest p lib ?pp, OF assms(4) ids(1) col(2,3)] by (simp add: col(5) pp comp_def)
  have ctx: "plan_context s2 clk2 p = Some (lib, run)" "run_snapshot_revision run = Some (plan_source_snapshot_revision p)"
    using verified_context[OF scan ids refl assms(7)] same_scan_context[OF assms(5)] by simp_all
  have rows2: "scan_rows (run_id run) s2 = rows"
    using assms(5) by (simp add: rows scan_rows_def same_scan_def)
  have dsource: "distinct (map snapshot_key ?source)"
  proof -
    have "map snapshot_key ?source = map (map_prod JStr JStr) (map (\<lambda>d. item_key (pd_item d)) ds)"
      by (simp add: comp_def)
    then show ?thesis using dist by (simp only: distinct_map) (auto simp: inj_on_def inj_key)
  qed
  have "actions_ok p ?rt rows ?source 0 ?actions ?items ?sts \<longleftrightarrow> (\<forall>d \<in> set ds. reread d)"
    by (rule ready_actions_ok[OF ready subset_refl dist num]) (use each in simp)
  then have valid: "validate_persisted_execution p lib run ?source ?actions ?items ?sts rows
      \<longleftrightarrow> (\<forall>d \<in> set ds. reread d) \<and> validate_relative_path True (plan_target_root p) \<noteq> None"
    using versions dsource ctx(2) by (auto simp: validate_persisted_execution_def)
  have "load_executable_steps u digest s2 clk2 new_id =
       (if distinct (drafts_keys ds) \<and> (\<forall>d \<in> set ds. reread d)
           \<and> validate_relative_path True (plan_target_root p) \<noteq> None
        then Some ?sts else None)"
    using ne pre(2)
    by (simp add: load_executable_steps_def assms(2,3,6) ctx(1) Let_def actions source pre(1) parsed
        rows2 valid hash[symmetric])
  moreover have "\<forall>d \<in> set ds. target_path (plan_target_root p) (np_target_path (pi_naming_plan (pd_item d)))
      = Inr (pd_target d)" using each by (simp add: drafted_def)
  ultimately show thesis using that items ready by blast
qed

section \<open>Creation\<close>

lemma created_row:
  assumes "create_plan u digest interf new_id clk q s = (Inr v, s')" and "pv_plan_id v = new_id"
    and "new_id \<notin> plan_id ` set (plans s)" and "new_id \<notin> plan_id ` set (plans (interf s))"
  obtains p where "plan_row_for u digest new_id clk q s = Inr p" "view_of u p = Inr v"
    "s' = (interf s)\<lparr>plans := plans (interf s) @ [p]\<rparr>" "get_plan new_id s' = Some p" "plan_id p = new_id"
proof -
  from assms(1) obtain p where p: "plan_row_for u digest new_id clk q s = Inr p"
    by (auto simp: create_plan_def monad_defs split: sum.splits)
  have id: "plan_id p = new_id" by (rule plan_row_for_Inr[OF p])
  have other: "r \<in> set (plans t) \<Longrightarrow> view_of u r = Inr v \<Longrightarrow> t \<in> {s, interf s} \<Longrightarrow> False" for r t
    using assms(2-4) by (auto simp: view_of_def split: option.splits)
  have found: "existing_plan p t = Some r \<Longrightarrow> r \<in> set (plans t)" for t r
    unfolding existing_plan_def find_Some_iff by (metis nth_mem)
  have view: "view_of u p = Inr v" and s': "insert_plan p (interf s) = Some s'"
    using assms(1) p other found
    by (auto simp: create_plan_def monad_defs add_plan_def split: option.splits)
  from s' have eq: "s' = (interf s)\<lparr>plans := plans (interf s) @ [p]\<rparr>"
    by (auto simp: insert_plan_def split: if_splits)
  have "row_of plan_id new_id (plans (interf s)) = None"
    using assms(4) by (simp add: row_of_None)
  then have "get_plan new_id s' = Some p"
    by (simp add: eq get_plan_def row_of_append id)
  with that p view eq id show thesis by blast
qed

lemma view_fields:
  "view_of u p = Inr v \<Longrightarrow> pv_status v = plan_status p \<and> pv_expires_at v = plan_expires_at p
     \<and> pv_plan_id v = plan_id p \<and> pv_revision v = plan_revision p"
  by (auto simp: view_of_def split: option.splits)

text \<open>No object is planned twice, and every path the request leads to is valid when read again.\<close>

definition loadable :: "plan_request \<Rightarrow> bool" where
  "loadable q \<longleftrightarrow>
     distinct (concat (map item_keys (pq_items q)))
     \<and> (case validate_relative_path True (pq_target_root q) of
          None \<Rightarrow> False
        | Some rt \<Rightarrow>
            validate_relative_path True rt \<noteq> None
            \<and> list_all (\<lambda>item.
                 case target_path rt (np_target_path (pi_naming_plan item)) of
                   Inr (Some t) \<Rightarrow> validate_relative_path False t \<noteq> None | _ \<Rightarrow> True) (pq_items q))"

lemma distinct_concat_sort: "distinct (concat (map f (sort_key k xs))) = distinct (concat (map f xs))"
proof (rule mset_eq_imp_distinct_iff)
  have *: "mset (concat (map f ys)) = sum_mset (image_mset (\<lambda>x. mset (f x)) (mset ys))" for ys
    by (induction ys) simp_all
  show "mset (concat (map f (sort_key k xs))) = mset (concat (map f xs))"
    unfolding * by simp
qed

text \<open>
  C6. What is created is what loads.  A plan created without reservation loads, until it expires
  and as long as the scan and the row stay, exactly when no object is planned twice and its
  paths are still valid when they are read again; and then its steps are the items of the
  request, member by member, source and target as asked.
\<close>

theorem created_plan_loads:
  assumes "create_plan u digest interf new_id clk q s = (Inr v, s')" and "pv_plan_id v = new_id"
    and "new_id \<notin> plan_id ` set (plans s)" and "new_id \<notin> plan_id ` set (plans (interf s))"
    and "pv_status v = PLAN_PLANNED" and "plan_identity new_id"
    and "\<And>j. digest (dumped j) = digest j"
    and "same_scan s s2" and "get_plan new_id s2 = get_plan new_id s'" and "clk2 < pv_expires_at v"
  shows "case load_executable_steps u digest s2 clk2 new_id of
      None \<Rightarrow> \<not> loadable q
    | Some sts \<Rightarrow> loadable q
        \<and> map (\<lambda>st. map planned (es_members st)) sts
          = map (\<lambda>item. map asked (all_sources item)) (sort_key item_key (pq_items q))"
proof -
  obtain p where p: "plan_row_for u digest new_id clk q s = Inr p" "view_of u p = Inr v"
    "get_plan new_id s' = Some p" by (rule created_row[OF assms(1-4)])
  note v = view_fields[OF p(2)]
  have planned: "plan_status p = PLAN_PLANNED" "clk2 < plan_expires_at p" "get_plan new_id s2 = Some p"
    using v assms(5,9,10) p(3) by simp_all
  obtain ds where ds: "map pd_item ds = sort_key item_key (pq_items q)"
    "\<forall>d \<in> set ds. target_path (plan_target_root p) (np_target_path (pi_naming_plan (pd_item d))) = Inr (pd_target d)"
    "\<forall>d \<in> set ds. \<exists>u rows rt. ready_draft u rows rt d"
    and load: "load_executable_steps u digest s2 clk2 new_id =
       (if distinct (drafts_keys ds) \<and> (\<forall>d \<in> set ds. reread d)
           \<and> validate_relative_path True (plan_target_root p) \<noteq> None
        then Some (map (\<lambda>d. the (pd_execution d)) ds) else None)"
    by (rule new_row_loads[OF p(1) planned(1) assms(6,7,8) planned(3,2)])
  have root: "validate_relative_path True (pq_target_root q) = Some (plan_target_root p)"
    by (rule plan_row_for_Inr[OF p(1)])
  have items: "set (pq_items q) = pd_item ` set ds"
    using arg_cong[OF ds(1), of set] by simp
  have target: "\<exists>t. pd_target d = Some t" if "d \<in> set ds" for d
    using ds(3) that by (auto simp: ready_draft_def accepted_def)
  have "reread d \<longleftrightarrow> (case target_path (plan_target_root p) (np_target_path (pi_naming_plan (pd_item d))) of
      Inr (Some t) \<Rightarrow> validate_relative_path False t \<noteq> None | _ \<Rightarrow> True)" if "d \<in> set ds" for d
    using ds(2) target[OF that] that by (auto simp: reread_def)
  moreover have "concat (map item_keys (sort_key item_key (pq_items q))) = drafts_keys ds"
    unfolding ds(1)[symmetric] by (simp add: comp_def)
  ultimately have ok: "loadable q \<longleftrightarrow> distinct (drafts_keys ds) \<and> (\<forall>d \<in> set ds. reread d)
      \<and> validate_relative_path True (plan_target_root p) \<noteq> None"
    by (auto simp: loadable_def root list_all_iff items distinct_concat_sort[of item_keys item_key, symmetric])
  have "map planned (es_members (the (pd_execution d))) = map asked (all_sources (pd_item d))"
    if "d \<in> set ds" for d
  proof -
    from ds(3) that obtain u' rows rt where "ready_draft u' rows rt d" by blast
    then show ?thesis by (rule ready_execution) simp
  qed
  then have "map (\<lambda>st. map planned (es_members st)) (map (\<lambda>d. the (pd_execution d)) ds)
      = map (\<lambda>item. map asked (all_sources item)) (sort_key item_key (pq_items q))"
    unfolding ds(1)[symmetric] by simp
  with ok show ?thesis unfolding load by (auto simp: comp_def)
qed

end
