(* ===== verification/Plan_History.thy ===== *)
theory Plan_History
  imports Plan_Roundtrip
begin

text \<open>
  The life of a plan under the service: what a plan says never changes, its revision counts its
  changes, and once it is invalidated or ignored it stays out of use.  This holds when calls
  follow one another; the last section shows what two overlapping calls can do.
\<close>

section \<open>Calls\<close>

datatype plan_call =
    PlanCreate pystr time plan_request
  | PlanRefresh time pystr refresh_request
  | PlanConfirm pystr int
  | PlanIgnore pystr int
  | PlanAlias pystr pystr int

fun run_plan_call :: "unicode \<Rightarrow> (json \<Rightarrow> pystr) \<Rightarrow> plan_call \<Rightarrow> store \<Rightarrow> (plan_error + plan_view) \<times> store" where
  "run_plan_call u digest (PlanCreate new_id clk q) = create_plan u digest (\<lambda>s. s) new_id clk q"
| "run_plan_call u digest (PlanRefresh clk pid q) = refresh_plan u (\<lambda>s. s) clk pid q"
| "run_plan_call u digest (PlanConfirm pid expected) = confirm_plan u (\<lambda>s. s) pid expected"
| "run_plan_call u digest (PlanIgnore pid expected) = ignore_plan u (\<lambda>s. s) pid expected"
| "run_plan_call u digest (PlanAlias pid a expected) = alias_plan u (\<lambda>s. s) pid a expected"

text \<open>
  A run: calls of this service, the check the operation service makes before it creates or
  claims an operation, and anything that leaves the plans alone.
\<close>

inductive plan_run :: "unicode \<Rightarrow> (json \<Rightarrow> pystr) \<Rightarrow> store \<Rightarrow> store \<Rightarrow> bool" for u digest where
  run_start: "plan_run u digest s s"
| run_call: "plan_run u digest s s1 \<Longrightarrow> run_plan_call u digest c s1 = (out, s2) \<Longrightarrow> plan_run u digest s s2"
| run_check: "plan_run u digest s s1
    \<Longrightarrow> ensure_planned_and_current clk (get_plan pid s1) s1 = (res, s2) \<Longrightarrow> plan_run u digest s s2"
| run_other: "plan_run u digest s s1 \<Longrightarrow> plans s2 = plans s1 \<Longrightarrow> plan_run u digest s s2"

section \<open>One plan over time\<close>

definition same_plan :: "plan_row \<Rightarrow> plan_row \<Rightarrow> bool" where
  "same_plan p p' \<longleftrightarrow>
     p' = p\<lparr>plan_status := plan_status p', plan_revision := plan_revision p', plan_alias := plan_alias p'\<rparr>"

lemma same_plan_actions: "same_plan p p' \<Longrightarrow> plan_actions p' = plan_actions p"
  by (cases p; cases p') (simp add: same_plan_def)

definition out_of_use :: "plan_row \<Rightarrow> bool" where
  "out_of_use p \<longleftrightarrow> plan_status p \<in> {PLAN_INVALIDATED, PLAN_IGNORED}"

definition plan_later :: "plan_row \<Rightarrow> plan_row \<Rightarrow> bool" where
  "plan_later p p' \<longleftrightarrow>
     same_plan p p' \<and> plan_revision p \<le> plan_revision p'
     \<and> (plan_revision p' = plan_revision p \<longrightarrow> p' = p) \<and> (out_of_use p \<longrightarrow> out_of_use p')"

lemma plan_later_refl [simp]: "plan_later p p"
  by (simp add: plan_later_def same_plan_def)

lemma plan_later_trans: "plan_later p q \<Longrightarrow> plan_later q r \<Longrightarrow> plan_later p r"
  unfolding plan_later_def same_plan_def by (auto, (cases p; cases q; cases r; simp)+)

lemma plan_later_writes:
  "plan_later p (invalidated p)"
  "\<not> out_of_use p \<or> st \<in> {PLAN_INVALIDATED, PLAN_IGNORED} \<Longrightarrow> plan_later p (transition_set st (plan_revision p) p)"
  "plan_later p (alias_set a (plan_revision p) p)"
  by (auto simp: plan_later_def same_plan_def invalidated_def transition_set_def alias_set_def out_of_use_def)

definition plans_later :: "store \<Rightarrow> store \<Rightarrow> bool" where
  "plans_later s s' \<longleftrightarrow>
     (\<forall>pid p. get_plan pid s = Some p \<longrightarrow> (\<exists>p'. get_plan pid s' = Some p' \<and> plan_later p p'))"

lemma plans_later_refl [simp]: "plans_later s s"
  by (auto simp: plans_later_def)

lemma plans_later_trans: "plans_later a b \<Longrightarrow> plans_later b c \<Longrightarrow> plans_later a c"
  unfolding plans_later_def by (meson plan_later_trans)

lemma plans_later_insert: "insert_plan p s = Some s' \<Longrightarrow> plans_later s s'"
  by (auto simp: plans_later_def insert_plan_def get_plan_def row_of_append split: if_splits)

lemma invalidate_plan_eq:
  "invalidate_plan p s = s\<lparr>plans := update_where (\<lambda>q. plan_id q = plan_id p)
     (\<lambda>q. q\<lparr>plan_status := PLAN_INVALIDATED, plan_revision := plan_revision p + 1\<rparr>) (plans s)\<rparr>"
  by (simp add: invalidate_plan_def)

lemma row_of_update_key:
  assumes "\<And>r. key (f r) = key r"
  shows "row_of key k (update_where (\<lambda>r. key r = k0 \<and> g r) f rows)
    = (if k = k0 then map_option (\<lambda>r. if g r then f r else r) (row_of key k rows) else row_of key k rows)"
  using assms by (induction rows) (auto simp: update_where_def)

lemma row_of_update_all:
  assumes "\<And>r. key (f r) = key r"
  shows "row_of key k (update_where (\<lambda>r. key r = k0) f rows)
    = (if k = k0 then map_option f (row_of key k rows) else row_of key k rows)"
  using assms by (induction rows) (auto simp: update_where_def)

lemma get_invalidated:
  "get_plan pid (invalidate_plan p s)
    = (if pid = plan_id p
       then map_option (\<lambda>r. r\<lparr>plan_status := PLAN_INVALIDATED, plan_revision := plan_revision p + 1\<rparr>) (get_plan pid s)
       else get_plan pid s)"
proof -
  let ?f = "\<lambda>q :: plan_row. q\<lparr>plan_status := PLAN_INVALIDATED, plan_revision := plan_revision p + 1\<rparr>"
  have "plan_id (?f r) = plan_id r" for r :: plan_row by simp
  from row_of_update_all[where key = plan_id and f = ?f, OF this]
  show ?thesis by (simp add: get_plan_def invalidate_plan_eq)
qed

lemma get_plan_id: "get_plan pid s = Some p \<Longrightarrow> plan_id p = pid"
  by (auto simp: get_plan_def dest: row_of_Some)

lemma plans_later_invalidate:
  assumes "get_plan pid s = Some p"
  shows "plans_later s (invalidate_plan p s)"
proof -
  note id = get_plan_id[OF assms]
  have "\<exists>r'. get_plan i (invalidate_plan p s) = Some r' \<and> plan_later r r'" if "get_plan i s = Some r" for i r
  proof (cases "i = pid")
    case True
    with that assms have "r = p" by simp
    with True assms id show ?thesis
      using plan_later_writes(1)[of p] by (simp add: get_invalidated invalidated_def)
  next
    case False
    with that id show ?thesis by (simp add: get_invalidated)
  qed
  then show ?thesis by (simp add: plans_later_def)
qed

lemma get_updated:
  assumes "plan_update pid guard f s = Some s'" and "\<And>p. plan_id (f p) = plan_id p"
  shows "get_plan pid' s' = (if pid' = pid
    then map_option (\<lambda>p. if guard p then f p else p) (get_plan pid' s) else get_plan pid' s)"
  using assms row_of_update_key[where key = plan_id and f = f, OF assms(2)]
  by (auto simp: plan_update_def update_one_def get_plan_def split: if_splits)

lemma plans_later_update:
  assumes "plan_update pid guard f s = Some s'" and "\<And>p. plan_id (f p) = plan_id p"
    and "get_plan pid s = Some p" and "plan_later p (f p)"
  shows "plans_later s s'"
  using assms(3,4) by (auto simp: plans_later_def get_updated[OF assms(1,2)])

section \<open>Calls and runs\<close>

lemma create_later:
  assumes "create_plan u digest (\<lambda>s. s) new_id clk q s = (out, s')"
  shows "plans_later s s'"
proof -
  have "s' = s \<or> (\<exists>p. insert_plan p s = Some s')"
    using assms by (auto simp: create_plan_def add_plan_def monad_defs split: sum.splits option.splits if_splits)
  then show ?thesis using plans_later_insert by auto
qed

lemma refresh_effect:
  assumes "refresh_plan u interf clk pid q s = (out, s')"
  shows "s' = s \<or> (\<exists>p. get_plan pid s = Some p \<and> s' = invalidate_plan p (interf s))"
  using assms
  by (auto simp: refresh_plan_def write_invalidated_def monad_defs
      split: sum.splits option.splits if_splits)

lemma refresh_returns:
  assumes "refresh_plan u interf clk pid q s = (Inr v, s')" and "get_plan pid s = Some p"
  shows "view_of u p = Inr v \<and> s' = s
    \<or> view_of u (invalidated p) = Inr v \<and> s' = invalidate_plan p (interf s)"
  using assms
  by (auto simp: refresh_plan_def write_invalidated_def monad_defs
      split: sum.splits option.splits if_splits)

lemma review_later:
  assumes "commit_review u (\<lambda>s. s) guard f p s = (out, s')" and "get_plan pid s = Some p"
    and "\<And>p. plan_id (f p) = plan_id p" and "plan_later p (f p)"
  shows "plans_later s s'"
proof -
  have id: "plan_id p = pid" using assms(2) by (rule get_plan_id)
  show ?thesis
  proof (cases "plan_update pid guard f s")
    case None
    with assms(1) show ?thesis by (simp add: commit_review_def id)
  next
    case (Some s1)
    with assms(1) have "s1 = s'" by (simp add: commit_review_def id)
    with Some plans_later_update[OF _ assms(3,2,4)] show ?thesis by blast
  qed
qed

lemma reviewed_Inr:
  "reviewed_plan pid expected s = (out, s1) \<Longrightarrow> s1 = s
    \<and> (\<forall>p. out = Inr p \<longrightarrow> get_plan pid s = Some p \<and> plan_revision p = expected)"
  by (auto simp: reviewed_plan_def monad_defs split: if_splits option.splits)

lemma transition_later:
  assumes "transition_plan u (\<lambda>s. s) pid expected target allowed s = (out, s')"
    and "target \<in> {PLAN_INVALIDATED, PLAN_IGNORED} \<or> allowed \<subseteq> reviewable"
  shows "plans_later s s'"
proof (cases "reviewed_plan pid expected s")
  case (Pair o1 s1)
  note r = reviewed_Inr[OF Pair]
  show ?thesis
  proof (cases "s' = s")
    case False
    then obtain p where p: "o1 = Inr p" "plan_status p \<in> allowed"
      and c: "commit_review u (\<lambda>s. s) (\<lambda>r. plan_revision r = expected) (transition_set target expected) p s = (out, s')"
      using assms(1) Pair r
      by (auto simp: transition_plan_def monad_defs split: sum.splits if_splits)
    have "plan_later p (transition_set target expected p)"
      using p r assms(2) plan_later_writes(2)[of p target]
      by (auto simp: out_of_use_def reviewable_def)
    with c p r show ?thesis by (intro review_later[OF c]) (auto simp: transition_set_def)
  qed simp
qed

lemma alias_later:
  assumes "alias_plan u (\<lambda>s. s) pid a expected s = (out, s')"
  shows "plans_later s s'"
proof (cases "reviewed_plan pid expected s")
  case (Pair o1 s1)
  note r = reviewed_Inr[OF Pair]
  show ?thesis
  proof (cases "s' = s")
    case False
    then obtain p b where p: "o1 = Inr p"
      and c: "commit_review u (\<lambda>s. s) (\<lambda>r. plan_revision r = expected \<and> plan_status r \<in> reviewable)
        (alias_set b expected) p s = (out, s')"
      using assms(1) Pair r
      by (auto simp: alias_plan_def monad_defs split: sum.splits if_splits)
    have "plan_later p (alias_set b expected p)" using p r plan_later_writes(3)[of p b] by auto
    with c p r show ?thesis by (intro review_later[OF c]) (auto simp: alias_set_def)
  qed simp
qed

lemma call_later: "run_plan_call u digest c s = (out, s') \<Longrightarrow> plans_later s s'"
proof (cases c)
  case (PlanRefresh clk pid q)
  moreover assume "run_plan_call u digest c s = (out, s')"
  ultimately show ?thesis using refresh_effect[of u "\<lambda>s. s"] plans_later_invalidate by fastforce
qed (auto simp: confirm_plan_def ignore_plan_def reviewable_def
    intro: create_later alias_later transition_later)

lemma check_later:
  "ensure_planned_and_current clk (get_plan pid s) s = (res, s') \<Longrightarrow> plans_later s s'"
  by (auto simp: ensure_planned_and_current_def plans_later_invalidate split: option.splits if_splits)

lemma run_later: "plan_run u digest s s' \<Longrightarrow> plans_later s s'"
proof (induction rule: plan_run.induct)
  case (run_other s s1 s2)
  then have "plans_later s1 s2" by (auto simp: plans_later_def get_plan_def)
  with run_other show ?case by (blast intro: plans_later_trans)
qed (blast intro: plans_later_trans call_later check_later plans_later_refl)+

text \<open>
  C17. The life of a plan.  Over any sequence of service calls that follow one another, each ended
  before the next begins, a plan stays in the table with the same scan, actions, preconditions,
  versions, expiry and digest; its revision never decreases and tells its states apart; and once it
  is invalidated or ignored it never becomes usable again.  For calls that overlap the last part
  can fail, as the lost invalidation below shows.
\<close>

theorem plan_lifecycle:
  assumes "plan_run u digest s s'" and "get_plan pid s = Some p"
  shows "\<exists>p'. get_plan pid s' = Some p'
    \<and> p' = p\<lparr>plan_status := plan_status p', plan_revision := plan_revision p', plan_alias := plan_alias p'\<rparr>
    \<and> plan_revision p \<le> plan_revision p' \<and> (plan_revision p' = plan_revision p \<longrightarrow> p' = p)
    \<and> (plan_status p \<in> {PLAN_INVALIDATED, PLAN_IGNORED}
        \<longrightarrow> plan_status p' \<in> {PLAN_INVALIDATED, PLAN_IGNORED})"
  using run_later[OF assms(1)] assms(2)
  unfolding plans_later_def plan_later_def same_plan_def out_of_use_def by blast

section \<open>A plan that needs review\<close>

lemma parse_actions_move:
  "parse_actions u n seen as = Some sts \<Longrightarrow> a \<in> set as \<Longrightarrow> jget a ''kind'' = JStr (lit ''move'')"
  by (induction u n seen as arbitrary: sts rule: parse_actions.induct)
     (auto simp: parse_action_def Let_def split: option.splits if_splits prod.splits)

lemma review_action:
  assumes "payload_status u conflicts ds = PLAN_NEEDS_REVIEW"
  shows "\<exists>d \<in> set ds. action_kind (is_conflict u conflicts (draft_targets u ds) d) d = ''review''"
proof -
  let ?ts = "draft_targets u ds"
  have of_target: "\<exists>d \<in> set ds. \<exists>t. pd_target d = Some t \<and> py_casefold u t = k" if "k \<in> set ?ts" for k
  proof -
    from that obtain d where d: "d \<in> set ds"
      "k \<in> set (case pd_target d of None \<Rightarrow> [] | Some t \<Rightarrow> [py_casefold u t])"
      by (auto simp: draft_targets_def)
    then show ?thesis by (cases "pd_target d") auto
  qed
  from assms consider d where "d \<in> set ds" "\<not> accepted d"
    | k where "k \<in> set ?ts" "k \<in> conflict_keys conflicts ?ts"
    by (auto simp: payload_status_def Let_def list_all_iff list_ex_iff conflict_keys_def split: if_splits)
  then show ?thesis
  proof cases
    case 1
    then show ?thesis by (auto simp: action_kind_def)
  next
    case 2
    with of_target obtain d t where "d \<in> set ds" "pd_target d = Some t" "py_casefold u t = k" by blast
    with 2(2) show ?thesis by (auto simp: action_kind_def is_conflict_def intro!: bexI[of _ d])
  qed
qed

lemma review_row_unparsable:
  assumes "plan_row_for u digest new_id clk q s = Inr p" and "plan_status p = PLAN_NEEDS_REVIEW"
    and "plan_actions p' = plan_actions p"
  shows "parse_executable_steps u p' = None"
proof -
  obtain lib conflicts ds where
    "let pp = payload_of u conflicts (Some (plan_source_snapshot_revision p)) (plan_parser_version p)
                (plan_matcher_version p) ds
     in plan_source_snapshot p = json_column (JList (pp_source_snapshot pp))
        \<and> plan_actions p = json_column (JList (pp_actions pp))
        \<and> plan_preconditions p = json_column (preconditions_payload lib pp)
        \<and> plan_status p = pp_status pp
        \<and> plan_hash p = digest (canonical_request lib pp (plan_target_root p) (plan_rule_version p)
             (plan_parser_version p) (plan_matcher_version p))
        \<and> plan_basis p = json_column (JList (map basis_json (pp_basis pp)))"
    by (rule plan_row_for_Inr[OF assms(1)])
  then have status: "payload_status u conflicts ds = PLAN_NEEDS_REVIEW"
    and actions: "load_json_list (plan_actions p')
      = map (\<lambda>d. dumped (action_json (is_conflict u conflicts (draft_targets u ds) d) d)) ds"
    using assms(2,3) by (simp_all add: Let_def payload_of_def load_column_list comp_def)
  from review_action[OF status] obtain d where d: "d \<in> set ds"
    "action_kind (is_conflict u conflicts (draft_targets u ds) d) d = ''review''" by blast
  let ?a = "dumped (action_json (is_conflict u conflicts (draft_targets u ds) d) d)"
  have "?a \<in> set (load_json_list (plan_actions p'))" using d(1) by (auto simp: actions)
  moreover have "jget ?a ''kind'' \<noteq> JStr (lit ''move'')" by (simp add: d(2))
  ultimately show ?thesis
    using parse_actions_move[of u 0 "[]" "load_json_list (plan_actions p')" _ ?a]
    by (cases "parse_actions u 0 [] (load_json_list (plan_actions p'))")
       (simp_all add: parse_executable_steps_def)
qed

text \<open>
  C18. A plan that needs review is never executed.  Whatever calls follow its creation, a
  confirmation included, and however often it is loaded, the loader refuses it: review is a dead
  end, and the operation a confirmation leads to can only fail.
\<close>

theorem review_plan_never_loads:
  assumes "create_plan u digest interf new_id clk q s = (Inr v, s')" and "pv_plan_id v = new_id"
    and "new_id \<notin> plan_id ` set (plans s)" and "new_id \<notin> plan_id ` set (plans (interf s))"
    and "pv_status v = PLAN_NEEDS_REVIEW" and "plan_run u digest s' s2"
  shows "load_executable_steps u digest s2 clk2 new_id = None"
proof -
  obtain p where p: "plan_row_for u digest new_id clk q s = Inr p" "view_of u p = Inr v"
    "get_plan new_id s' = Some p" by (rule created_row[OF assms(1-4)])
  have review: "plan_status p = PLAN_NEEDS_REVIEW" using view_fields[OF p(2)] assms(5) by simp
  from run_later[OF assms(6)] p(3) obtain p' where p': "get_plan new_id s2 = Some p'" "same_plan p p'"
    unfolding plans_later_def plan_later_def by blast
  then have "plan_actions p' = plan_actions p" by (intro same_plan_actions)
  from review_row_unparsable[OF p(1) review this] show ?thesis
    using load_Some[of u digest s2 clk2 new_id] p'(1) by (metis not_None_eq option.inject)
qed

section \<open>Refreshing with the items of the plan\<close>

lemma basis_never_equal: "bs \<noteq> [] \<Longrightarrow> \<not> basis_eq bs j"
proof
  assume "bs \<noteq> []" and eq: "basis_eq bs j"
  then obtain b bs0 where bs: "bs = b # bs0" by (cases bs) auto
  from eq obtain js where js: "j = JList js" "length bs = length js"
    "list_all (\<lambda>(b, x). basis_row_eq b x) (zip bs js)" by (auto simp: basis_eq_def split: json.splits)
  then obtain x xs where "js = x # xs" using bs by (cases js) auto
  with js(3) have "basis_row_eq b x" by (simp add: bs)
  then show False by (simp add: basis_row_eq_def tuple_eq_def split: json.splits)
qed

lemma source_always_changed:
  assumes "source_changed u s p stored conflicts items = Inr b"
  shows "b"
proof (rule ccontr)
  let ?rt = "case row_of lib_id (plan_library_id p) (libraries s) of
    None \<Rightarrow> [] | Some lib \<Rightarrow> lib_root_directory_id lib"
  assume "\<not> b"
  from assms obtain its where its: "validate_items u items = Inr its"
    and rest: "(case row_of run_id (plan_source_scan_run_id p) (runs s) of
       None \<Rightarrow> Inr True
     | Some run \<Rightarrow>
         rbind (load_source_rows False s (run_id run) its) (\<lambda>rows.
         rbind (build_payload u its rows ?rt (plan_target_root p) conflicts (run_snapshot_revision run)
                  (plan_parser_version p) (plan_matcher_version p)) (\<lambda>pp.
         case plan_basis p of
           None \<Rightarrow> Inl PlanJsonErr
         | Some basis \<Rightarrow>
             Inr (\<not> json_eq (JList (pp_source_snapshot pp)) (JList stored)
                  \<or> \<not> basis_eq (pp_basis pp) basis)))) = Inr b"
    unfolding source_changed_def rbind_Inr by blast
  from rest \<open>\<not> b\<close> obtain run where run: "row_of run_id (plan_source_scan_run_id p) (runs s) = Some run"
    by (cases "row_of run_id (plan_source_scan_run_id p) (runs s)") auto
  from rest[unfolded run option.case rbind_Inr] obtain rows pp where
    pp: "build_payload u its rows ?rt (plan_target_root p) conflicts (run_snapshot_revision run)
      (plan_parser_version p) (plan_matcher_version p) = Inr pp"
    and b: "(case plan_basis p of None \<Rightarrow> Inl PlanJsonErr
      | Some basis \<Rightarrow> Inr (\<not> json_eq (JList (pp_source_snapshot pp)) (JList stored)
                  \<or> \<not> basis_eq (pp_basis pp) basis)) = Inr b" by blast
  from b \<open>\<not> b\<close> obtain basis where eq: "basis_eq (pp_basis pp) basis"
    by (cases "plan_basis p") auto
  from pp obtain ds cs where "draft_items u rows ?rt (plan_target_root p) 0 its = Inr ds"
    "pp = payload_of u cs (run_snapshot_revision run) (plan_parser_version p) (plan_matcher_version p) ds"
    by (auto simp: build_payload_def map_sum_Inr split: sum.splits)
  then have "pp_basis pp \<noteq> []"
    using draft_items_Inr[of u rows ?rt _ 0 its ds] validate_items_Inr(2)[OF its]
    by (auto simp: payload_of_def Let_def)
  with eq basis_never_equal show False by blast
qed

text \<open>
  A refresh that names the items always invalidates.  The basis it builds holds its reasons
  in a tuple, which equals no decoded list, so even the very items a plan was made of count as
  changed: every such refresh that returns leaves the plan invalidated.
\<close>

theorem refresh_with_items_invalidates:
  assumes "refresh_plan u (\<lambda>s. s) clk pid q s = (Inr v, s')" and "rq_source_items q = Some items"
    and "get_plan pid s = Some p" and "plan_status p \<noteq> PLAN_IGNORED"
  shows "pv_status v = PLAN_INVALIDATED \<and> pv_revision v = plan_revision p + 1
    \<and> get_plan pid s' = Some (p\<lparr>plan_status := PLAN_INVALIDATED, plan_revision := plan_revision p + 1\<rparr>)"
proof -
  have id: "plan_id p = pid" using assms(3) by (rule get_plan_id)
  have changed: "plan_stale u s now p stored q = Inr b \<Longrightarrow> b" for now stored b
    using source_always_changed[of u s p stored "rq_target_conflicts q" items]
    by (auto simp: plan_stale_def assms(2) rbind_Inr)
  have "view_of u (invalidated p) = Inr v \<and> s' = invalidate_plan p s"
    using assms(1,3,4) changed
    by (auto simp: refresh_plan_def write_invalidated_def monad_defs
        split: sum.splits option.splits if_splits)
  then show ?thesis
    using assms(3) view_fields[of u "invalidated p" v] by (auto simp: get_invalidated id invalidated_def)
qed

section \<open>Overlapping calls\<close>

lemma alias_changed:
  assumes "alias_plan u (\<lambda>s. s) pid a expected s = (Inr v, s')" and "pv_revision v \<noteq> expected"
  obtains p b where "get_plan pid s = Some p" "plan_revision p = expected" "plan_identity pid" "0 \<le> expected"
    "plan_update pid (\<lambda>r. plan_revision r = expected \<and> plan_status r \<in> reviewable) (alias_set b expected) s = Some s'"
    "view_of u (alias_set b expected p) = Inr v" "plan_status p \<in> reviewable"
proof -
  obtain o1 s1 where r: "reviewed_plan pid expected s = (o1, s1)" by fastforce
  note rv = reviewed_Inr[OF r]
  from assms(1) r obtain p b where p: "o1 = Inr p" "plan_identity pid" "plan_status p \<in> reviewable"
    and c: "view_of u p = Inr v
      \<or> commit_review u (\<lambda>s. s) (\<lambda>r. plan_revision r = expected \<and> plan_status r \<in> reviewable)
           (alias_set b expected) p s = (Inr v, s')"
    using rv
    by (auto simp: alias_plan_def monad_defs validate_identity_def split: sum.splits if_splits)
  have g: "get_plan pid s = Some p" "plan_revision p = expected" using rv p(1) by auto
  have "view_of u p \<noteq> Inr v" using view_fields[of u p v] g(2) assms(2) by auto
  with c g(1) have "plan_update pid (\<lambda>r. plan_revision r = expected \<and> plan_status r \<in> reviewable)
      (alias_set b expected) s = Some s'" "view_of u (alias_set b expected p) = Inr v"
    by (auto simp: commit_review_def get_plan_id split: option.splits)
  moreover have "0 \<le> expected" using r p(1) by (auto simp: reviewed_plan_def monad_defs split: if_splits)
  ultimately show thesis using that g p(2,3) by blast
qed

lemma updated_ids:
  "plan_update pid guard f s = Some s' \<Longrightarrow> (\<And>p. plan_id (f p) = plan_id p)
    \<Longrightarrow> map plan_id (plans s') = map plan_id (plans s)"
  by (auto simp: plan_update_def update_one_def map_key_update split: if_splits)

lemma view_of_columns:
  "plan_preconditions p = plan_preconditions p' \<Longrightarrow> view_of u p = Inr v \<Longrightarrow> \<exists>v'. view_of u p' = Inr v'"
  by (auto simp: view_of_def split: option.splits)

text \<open>
  C30. An invalidation can be lost.  A refresh adds one to the revision it read, not to the
  revision in the table.  If an alias is set between its read and its write, the invalidated row
  carries the revision of the aliased one, and a confirmation that had read the aliased row then
  passes its revision check: the plan the refresh reported invalidated is planned again.
\<close>

theorem invalidation_lost:
  assumes "distinct (map plan_id (plans s))" and "get_plan pid s = Some p"
    and "plan_status p = PLAN_NEEDS_REVIEW"
    and "alias_plan u (\<lambda>s. s) pid a (plan_revision p) s = (Inr va, s1)"
    and "pv_revision va = plan_revision p + 1"
    and "refresh_plan u (\<lambda>s. snd (alias_plan u (\<lambda>s. s) pid a (plan_revision p) s)) clk pid q s = (Inr v, s2)"
    and "pv_status v = PLAN_INVALIDATED"
  shows "map_option plan_status (get_plan pid s2) = Some PLAN_INVALIDATED
    \<and> (\<exists>vc s3. confirm_plan u (\<lambda>_. s2) pid (plan_revision p + 1) s1 = (Inr vc, s3)
         \<and> map_option plan_status (get_plan pid s3) = Some PLAN_PLANNED)"
proof -
  let ?e = "plan_revision p"
  obtain p' b where b': "get_plan pid s = Some p'" "plan_identity pid" "0 \<le> ?e"
    "plan_update pid (\<lambda>r. plan_revision r = ?e \<and> plan_status r \<in> reviewable) (alias_set b ?e) s = Some s1"
    "view_of u (alias_set b ?e p') = Inr va"
  proof -
    have "pv_revision va \<noteq> ?e" using assms(5) by simp
    with assms(4) show thesis by (rule alias_changed) (rule that)
  qed
  then have "p' = p" using assms(2) by simp
  with b' have b: "plan_identity pid" "0 \<le> ?e"
    "plan_update pid (\<lambda>r. plan_revision r = ?e \<and> plan_status r \<in> reviewable) (alias_set b ?e) s = Some s1"
    "view_of u (alias_set b ?e p) = Inr va"
    by simp_all
  let ?p1 = "alias_set b ?e p"
  have aid: "plan_id (alias_set b ?e r) = plan_id r" for r by (simp add: alias_set_def)
  have s1: "get_plan pid s1 = Some ?p1"
    using get_updated[OF b(3) aid, of pid] assms(2,3) by (simp add: reviewable_def)
  have s2: "s2 = invalidate_plan p s1"
    using refresh_returns[OF assms(6,2)] view_fields[of u p v] assms(3,4,7) by auto
  have pid: "plan_id p = pid" using assms(2) by (rule get_plan_id)
  let ?inv = "?p1\<lparr>plan_status := PLAN_INVALIDATED, plan_revision := ?e + 1\<rparr>"
  have g2: "get_plan pid s2 = Some ?inv" by (simp add: s2 get_invalidated pid s1)
  have ids: "map plan_id (plans s2) = map plan_id (plans s)"
    using updated_ids[OF b(3) aid] by (simp add: s2 invalidate_plan_def map_key_update)
  have tid: "plan_id (transition_set PLAN_PLANNED (?e + 1) r) = plan_id r" for r
    by (simp add: transition_set_def)
  have row: "row_of plan_id pid (plans s2) = Some ?inv" using g2 by (simp add: get_plan_def)
  let ?s3 = "s2\<lparr>plans := update_where (\<lambda>r. plan_id r = pid \<and> plan_revision r = ?e + 1)
    (transition_set PLAN_PLANNED (?e + 1)) (plans s2)\<rparr>"
  have upd: "plan_update pid (\<lambda>r. plan_revision r = ?e + 1) (transition_set PLAN_PLANNED (?e + 1)) s2 = Some ?s3"
    unfolding plan_update_def using update_one_key[of plan_id "plans s2"] assms(1) ids row by simp
  obtain vc where vc: "view_of u (transition_set PLAN_PLANNED (?e + 1) ?p1) = Inr vc"
    using view_of_columns[OF _ b(4), of "transition_set PLAN_PLANNED (?e + 1) ?p1"]
    by (auto simp: transition_set_def)
  have "plan_status ?p1 = PLAN_NEEDS_REVIEW" "plan_revision ?p1 = ?e + 1" "plan_id ?p1 = pid"
    using assms(3) pid by (simp_all add: alias_set_def)
  then have "confirm_plan u (\<lambda>_. s2) pid (?e + 1) s1 = (Inr vc, ?s3)"
    using b(1,2) s1 upd vc
    by (simp add: confirm_plan_def transition_plan_def validate_identity_def reviewed_plan_def
        commit_review_def monad_defs)
  moreover have "map_option plan_status (get_plan pid ?s3) = Some PLAN_PLANNED"
    using get_updated[OF upd tid, of pid] g2 by (simp add: transition_set_def)
  ultimately show ?thesis using g2 by auto
qed

section \<open>Creating a plan again\<close>

lemma same_scan_checks:
  assumes "same_scan s s'"
  shows "verified_scan s' = verified_scan s" "load_source_rows b s' = load_source_rows b s"
proof -
  have "latest_run lib s' = latest_run lib s" for lib using assms by (simp add: same_scan_def latest_run_def)
  then show "verified_scan s' = verified_scan s"
    using assms by (simp add: fun_eq_iff verified_scan_def same_scan_def split: option.split)
  show "load_source_rows b s' = load_source_rows b s"
    using assms by (simp add: fun_eq_iff load_source_rows_def scan_rows_def same_scan_def)
qed

lemma same_request_same_hash:
  assumes "plan_row_for u digest i clk q s = Inr p"
    and "plan_row_for u digest i' clk' (q\<lparr>pq_now := n', pq_expires_at := x'\<rparr>) s' = Inr p'" and "same_scan s s'"
  shows "plan_hash p' = plan_hash p" "plan_library_id p' = plan_library_id p"
  using assms(1,2)
  by (auto simp: plan_row_for_def rbind_Inr Let_def same_scan_checks[OF assms(3)] split: if_splits)

text \<open>
  A plan is created once.  As long as the scan stays, asking for the same plan again changes
  nothing and returns the stored plan with its first expiry, at whatever time and with whatever
  expiry it is asked for: after the plan has expired or was ignored, the same request cannot
  give a usable plan until the library is scanned again.
\<close>

theorem create_again_returns_stored:
  assumes "create_plan u digest interf new_id clk q s = (Inr v, s')" and "pv_plan_id v = new_id"
    and "new_id \<notin> plan_id ` set (plans s)" and "new_id \<notin> plan_id ` set (plans (interf s))"
    and "plan_run u digest s' s2" and "same_scan s s2" and "distinct (map plan_hash (plans s2))"
    and "create_plan u digest interf2 id2 clk2 (q\<lparr>pq_now := n2, pq_expires_at := x2\<rparr>) s2 = (Inr v2, s3)"
  shows "s3 = s2 \<and> pv_plan_id v2 = new_id \<and> pv_expires_at v2 = pv_expires_at v
    \<and> Some (pv_status v2) = map_option plan_status (get_plan new_id s2)"
proof -
  obtain p where p: "plan_row_for u digest new_id clk q s = Inr p" "view_of u p = Inr v"
    "get_plan new_id s' = Some p" by (rule created_row[OF assms(1-4)])
  from run_later[OF assms(5)] p(3) obtain p' where p': "get_plan new_id s2 = Some p'" "same_plan p p'"
    unfolding plans_later_def plan_later_def by blast
  from assms(8) obtain p2 where p2: "plan_row_for u digest id2 clk2 (q\<lparr>pq_now := n2, pq_expires_at := x2\<rparr>) s2 = Inr p2"
    by (auto simp: create_plan_def monad_defs split: sum.splits)
  note same = same_request_same_hash[OF p(1) p2 assms(6)]
  have fixed: "plan_hash p' = plan_hash p" "plan_library_id p' = plan_library_id p"
    "plan_expires_at p' = plan_expires_at p"
    using p'(2) by (cases p; cases p'; simp add: same_plan_def)+
  have mem: "p' \<in> set (plans s2)" using row_of_Some p'(1) by (fastforce simp: get_plan_def)
  obtain r where r: "existing_plan p2 s2 = Some r"
    using mem same fixed by (cases "existing_plan p2 s2") (auto simp: existing_plan_def find_None_iff)
  then have "r \<in> set (plans s2)" "plan_hash r = plan_hash p2"
    unfolding existing_plan_def find_Some_iff by (metis nth_mem, blast)
  with mem assms(7) same fixed have "r = p'" by (metis distinct_map inj_onD)
  with assms(8) p2 r have "view_of u p' = Inr v2" "s3 = s2" by (simp_all add: create_plan_def monad_defs)
  with view_fields[of u p' v2] view_fields[OF p(2)] fixed get_plan_id[OF p'(1)] p'(1)
  show ?thesis by simp
qed

section \<open>Listing\<close>

text \<open>What a client gets that follows \<open>next_cursor\<close> to the end, asking at most \<open>n\<close> times.\<close>

fun follow_pages ::
  "unicode \<Rightarrow> plan_status option \<Rightarrow> int \<Rightarrow> store \<Rightarrow> nat \<Rightarrow> int \<Rightarrow> plan_view list option" where
  "follow_pages u status limit s 0 cursor = None"
| "follow_pages u status limit s (Suc n) cursor =
     (case fst (list_plans u status cursor limit s) of
        Inr (views, Some next_cursor) \<Rightarrow> map_option ((@) views) (follow_pages u status limit s n next_cursor)
      | Inr (views, None) \<Rightarrow> Some views
      | Inl _ \<Rightarrow> None)"

lemma all_right_append:
  "all_right (xs @ ys) = Inr zs
     \<longleftrightarrow> (\<exists>as bs. all_right xs = Inr as \<and> all_right ys = Inr bs \<and> zs = as @ bs)"
  by (induction xs arbitrary: zs) (fastforce simp: rbind_Inr map_sum_Inr)+

lemma all_right_map: "all_right (map f xs) = Inr ys \<Longrightarrow> map f xs = map Inr ys"
  by (induction xs arbitrary: ys) (auto simp: rbind_Inr map_sum_Inr)

lemma follow_pages_rest:
  assumes "1 \<le> limit" "limit \<le> 100"
    and "all_right (map (view_of u) (drop k (listed_plans status s))) = Inr views"
    and "length (drop k (listed_plans status s)) \<le> n * nat limit" "0 < n"
  shows "follow_pages u status limit s n (int k) = Some views"
  using assms(3-5)
proof (induction n arbitrary: k views)
  case (Suc n)
  let ?rows = "drop k (listed_plans status s)"
  have next_k: "int k + limit = int (k + nat limit)" using assms(1) by simp
  have "all_right (map (view_of u) (take (nat limit) ?rows @ drop (nat limit) ?rows)) = Inr views"
    unfolding append_take_drop_id by (rule Suc.prems(1))
  then obtain page rest where page: "all_right (map (view_of u) (take (nat limit) ?rows)) = Inr page"
    and rest: "all_right (map (view_of u) (drop (k + nat limit) (listed_plans status s))) = Inr rest"
    and views: "views = page @ rest"
    unfolding map_append all_right_append by (auto simp: add.commute)
  have list: "list_plans u status (int k) limit s
    = (Inr (page, if length ?rows > nat limit then Some (int (k + nat limit)) else None), s)"
    using assms(1,2) page next_k by (simp add: list_plans_def monad_defs Let_def take_map)
  show ?case
  proof (cases "length ?rows > nat limit")
    case True
    then have "0 < n" using Suc.prems(2) by (cases n) simp_all
    moreover have "length (drop (k + nat limit) (listed_plans status s)) \<le> n * nat limit"
      using Suc.prems(2) by simp
    ultimately have "follow_pages u status limit s n (int (k + nat limit)) = Some rest"
      by (intro Suc.IH[OF rest])
    with True show ?thesis by (simp only: follow_pages.simps list fst_conv) (simp add: views)
  next
    case False
    then have "rest = []" using rest by simp
    with False show ?thesis by (simp add: list views)
  qed
qed simp

text \<open>
  Following the pages lists every plan once.  With any page size the service accepts, asking
  for the next page until there is none ends after at most one request per plan, and the pages
  together are the views of all plans of the status, oldest first, none skipped and none twice.
\<close>

theorem plan_pages_complete:
  assumes "1 \<le> limit" "limit \<le> 100"
    and "list_all (\<lambda>p. \<exists>v. view_of u p = Inr v) (plans s)"
  shows "\<exists>views. follow_pages u status limit s (Suc (length (plans s))) 0 = Some views
    \<and> map Inr views = map (view_of u) (listed_plans status s)"
proof -
  have "\<exists>vs. all_right (map (view_of u) ps) = Inr vs" if "set ps \<subseteq> set (plans s)" for ps
    using that
  proof (induction ps)
    case (Cons p ps)
    then obtain v vs where "view_of u p = Inr v" "all_right (map (view_of u) ps) = Inr vs"
      using assms(3) by (auto simp: list_all_iff)
    then show ?case by (simp add: rbind_Inr)
  qed simp
  then obtain vs where vs: "all_right (map (view_of u) (listed_plans status s)) = Inr vs"
    by (metis (lifting) filter_is_subset listed_plans_def set_sort)
  have "length (listed_plans status s) \<le> length (plans s)"
    by (simp add: listed_plans_def)
  also have "\<dots> \<le> Suc (length (plans s)) * nat limit" using assms(1) by (simp add: Suc_le_eq trans_le_add2)
  finally have "follow_pages u status limit s (Suc (length (plans s))) (int 0) = Some vs"
    using vs by (intro follow_pages_rest[OF assms(1,2)]) simp_all
  with all_right_map[OF vs] show ?thesis by auto
qed

end
