(* ===== verification/Plan_Demo.thy ===== *)
theory Plan_Demo
  imports Plan_History Plan_Loader_Demo "HOL-Library.Code_Target_Nat"
begin

text \<open>
  One file of a scanned library is planned, once with a certain match and once with a doubtful
  one.  Evaluated in the kernel, the calls instantiate the properties of the plan service.
\<close>

definition sky_item :: plan_item where
  "sky_item = \<lparr>pi_source = \<lparr>psrc_object_type = [1], psrc_object_id = lit ''5'', psrc_parent_id = lit ''9'',
       psrc_path = [3], psrc_remote_version = [4], psrc_is_directory = False\<rparr>,
     pi_naming_plan = \<lparr>np_status = CLS_PLANNED, np_target_path = Some (lit ''b''), np_reasons = [],
       np_rule_version = [65]\<rparr>,
     pi_decision = \<lparr>md_status = MATCH_ACCEPTED, md_selected = True, md_confidence = Some CONFIDENCE_HIGH\<rparr>,
     pi_target_parent_id = Some (lit ''9''), pi_target_name = Some (lit ''b''), pi_companions = []\<rparr>"

definition doubtful_item :: plan_item where
  "doubtful_item = sky_item\<lparr>pi_decision :=
     \<lparr>md_status = MATCH_NEEDS_REVIEW, md_selected = True, md_confidence = Some CONFIDENCE_MEDIUM\<rparr>\<rparr>"

definition sky_request :: "plan_item \<Rightarrow> plan_request" where
  "sky_request item = \<lparr>pq_library_id = [8], pq_scan_run_id = [7], pq_items = [item], pq_target_root = [],
     pq_parser_version = [65], pq_matcher_version = [65], pq_expires_at = None, pq_now = None,
     pq_target_conflicts = []\<rparr>"

definition sky_store :: store where
  "sky_store = saga_store\<lparr>plans := []\<rparr>"

definition sky_created :: "plan_item \<Rightarrow> (plan_error + plan_view) \<times> store" where
  "sky_created item =
     create_plan ascii_unicode plain_digest (\<lambda>s. s) [6] 10 (sky_request item) sky_store"

definition sky_view :: "plan_status \<Rightarrow> plan_view" where
  "sky_view st = \<lparr>pv_plan_id = [6], pv_plan_hash = [2], pv_status = st, pv_revision = 1,
     pv_expires_at = 10 + day, pv_source_count = 1, pv_action_count = 1, pv_precondition_count = 1,
     pv_alias = None\<rparr>"

lemma sky_views:
  "fst (sky_created sky_item) = Inr (sky_view PLAN_PLANNED)"
  "fst (sky_created doubtful_item) = Inr (sky_view PLAN_NEEDS_REVIEW)"
  by code_simp+

definition sky_planned :: store where
  "sky_planned = snd (sky_created sky_item)"

definition sky_review :: store where
  "sky_review = snd (sky_created doubtful_item)"

lemma sky_creates:
  "create_plan ascii_unicode plain_digest (\<lambda>s. s) [6] 10 (sky_request sky_item) sky_store
     = (Inr (sky_view PLAN_PLANNED), sky_planned)"
  "create_plan ascii_unicode plain_digest (\<lambda>s. s) [6] 10 (sky_request doubtful_item) sky_store
     = (Inr (sky_view PLAN_NEEDS_REVIEW), sky_review)"
  using sky_views
  by (simp_all add: sky_planned_def sky_review_def sky_created_def prod_eq_iff)

lemma sky_no_plans [simp]: "plans sky_store = []" by (simp add: sky_store_def)

section \<open>Witnesses\<close>

theorem created_plan_loads_witness:
  "load_executable_steps ascii_unicode plain_digest sky_planned 20 [6] \<noteq> None"
proof -
  have "loadable (sky_request sky_item)" by code_simp
  moreover have "same_scan sky_store sky_planned"
    by (simp add: same_scan_def) code_simp
  ultimately show ?thesis
    using created_plan_loads[OF sky_creates(1), of sky_planned 20]
    by (auto simp: sky_view_def plain_digest_def day_def plan_identity_def split: option.splits)
qed

theorem review_plan_never_loads_witness:
  "load_executable_steps ascii_unicode plain_digest sky_review 20 [6] = None"
  by (rule review_plan_never_loads[OF sky_creates(2) _ _ _ _ run_start]) (simp_all add: sky_view_def)

theorem plan_lifecycle_witness:
  "\<exists>p'. get_plan [6] (snd (ignore_plan ascii_unicode (\<lambda>s. s) [6] 1 saga_store)) = Some p'
    \<and> plan_actions p' = plan_actions saga_plan \<and> plan_revision saga_plan \<le> plan_revision p'"
proof -
  obtain out s' where r: "ignore_plan ascii_unicode (\<lambda>s. s) [6] 1 saga_store = (out, s')" by fastforce
  then have "plan_run ascii_unicode plain_digest saga_store s'"
    using run_call[OF run_start, of _ _ "PlanIgnore [6] 1" saga_store out s'] by simp
  from plan_lifecycle[OF this saga_get_plan] obtain p' where
    "get_plan [6] s' = Some p'" "plan_revision saga_plan \<le> plan_revision p'"
    "p' = saga_plan\<lparr>plan_status := plan_status p', plan_revision := plan_revision p', plan_alias := plan_alias p'\<rparr>"
    by blast
  moreover from this(3) have "plan_actions p' = plan_actions saga_plan"
    by (cases p'; simp add: saga_plan_def)
  ultimately show ?thesis using r by simp
qed

definition sky_refresh :: refresh_request where
  "sky_refresh = \<lparr>rq_source_items = Some [sky_item], rq_rule_version = None, rq_parser_version = None,
     rq_matcher_version = None, rq_target_conflicts = [], rq_now = None\<rparr>"

definition sky_refreshed :: "(plan_error + plan_view) \<times> store" where
  "sky_refreshed = refresh_plan ascii_unicode (\<lambda>s. s) 20 [6] sky_refresh sky_planned"

theorem refresh_with_items_invalidates_witness:
  "map_option plan_status (get_plan [6] (snd sky_refreshed)) = Some PLAN_INVALIDATED"
proof -
  have "fst sky_refreshed = Inr (sky_view PLAN_INVALIDATED\<lparr>pv_revision := 2\<rparr>)"
    "map_option plan_status (get_plan [6] sky_planned) = Some PLAN_PLANNED"
    by code_simp+
  then obtain p where p: "get_plan [6] sky_planned = Some p" "plan_status p = PLAN_PLANNED"
    and r: "refresh_plan ascii_unicode (\<lambda>s. s) 20 [6] sky_refresh sky_planned
      = (Inr (sky_view PLAN_INVALIDATED\<lparr>pv_revision := 2\<rparr>), snd sky_refreshed)"
    by (auto simp: sky_refreshed_def prod_eq_iff)
  show ?thesis using refresh_with_items_invalidates[OF r _ p(1), of "[sky_item]"] p(2)
    by (simp add: sky_refresh_def)
qed

definition sky_alias :: pystr where
  "sky_alias = lit ''Sky''"

definition sky_late :: refresh_request where
  "sky_late = sky_refresh\<lparr>rq_source_items := None, rq_rule_version := Some [66]\<rparr>"

theorem invalidation_lost_witness:
  "\<exists>s2 vc s3. map_option plan_status (get_plan [6] s2) = Some PLAN_INVALIDATED
    \<and> confirm_plan ascii_unicode (\<lambda>_. s2) [6] 2
        (snd (alias_plan ascii_unicode (\<lambda>s. s) [6] sky_alias 1 sky_review)) = (Inr vc, s3)
    \<and> map_option plan_status (get_plan [6] s3) = Some PLAN_PLANNED"
proof -
  let ?renamed = "alias_plan ascii_unicode (\<lambda>s. s) [6] sky_alias 1 sky_review"
  let ?refresh = "refresh_plan ascii_unicode (\<lambda>s. snd (alias_plan ascii_unicode (\<lambda>s. s) [6] sky_alias 1 s))
    20 [6] sky_late sky_review"
  have "map_option (\<lambda>p. (plan_status p, plan_revision p)) (get_plan [6] sky_review)
      = Some (PLAN_NEEDS_REVIEW, 1)"
    "map plan_id (plans sky_review) = [[6]]"
    "map_sum id (\<lambda>v. pv_revision v) (fst ?renamed) = Inr 2"
    "map_sum id (\<lambda>v. pv_status v) (fst ?refresh) = Inr PLAN_INVALIDATED"
    by code_simp+
  then obtain p va v where p: "get_plan [6] sky_review = Some p" "plan_status p = PLAN_NEEDS_REVIEW"
      "plan_revision p = 1" "distinct (map plan_id (plans sky_review))"
    and a: "fst ?renamed = Inr va" "pv_revision va = 2"
    and r: "fst ?refresh = Inr v" "pv_status v = PLAN_INVALIDATED"
    by (auto simp: map_sum_Inr)
  from a have a': "alias_plan ascii_unicode (\<lambda>s. s) [6] sky_alias (plan_revision p) sky_review
      = (Inr va, snd ?renamed)" by (simp add: p prod_eq_iff)
  from r have r': "refresh_plan ascii_unicode
      (\<lambda>s. snd (alias_plan ascii_unicode (\<lambda>s. s) [6] sky_alias (plan_revision p) s)) 20 [6] sky_late sky_review
      = (Inr v, snd ?refresh)" by (simp add: p prod_eq_iff)
  have two: "pv_revision va = plan_revision p + 1" using a(2) p(3) by simp
  have "(1::int) + 1 = 2" by simp
  with invalidation_lost[OF p(4,1,2) a' two r' r(2)] show ?thesis unfolding p(3) by metis
qed

theorem create_again_returns_stored_witness:
  "\<exists>v2. create_plan ascii_unicode plain_digest (\<lambda>s. s) [5] 30
        (sky_request sky_item\<lparr>pq_now := None, pq_expires_at := None\<rparr>) sky_planned = (Inr v2, sky_planned)
     \<and> pv_plan_id v2 = [6] \<and> pv_expires_at v2 = 10 + day"
proof -
  let ?again = "create_plan ascii_unicode plain_digest (\<lambda>s. s) [5] 30
    (sky_request sky_item\<lparr>pq_now := None, pq_expires_at := None\<rparr>) sky_planned"
  have scan: "same_scan sky_store sky_planned" by (simp add: same_scan_def) code_simp
  have "map_sum id (\<lambda>v. pv_status v) (fst ?again) = Inr PLAN_PLANNED" "map plan_hash (plans sky_planned) = [[2]]"
    by code_simp+
  then obtain v2 s3 where r: "?again = (Inr v2, s3)" and d: "distinct (map plan_hash (plans sky_planned))"
    by (cases "?again") (auto simp: map_sum_Inr)
  from create_again_returns_stored[OF sky_creates(1) _ _ _ run_start scan d r] r
  show ?thesis by (simp add: sky_view_def)
qed

theorem plan_pages_complete_witness:
  "\<exists>views. follow_pages ascii_unicode None 1 saga_store 2 0 = Some views \<and> length views = 1"
proof -
  have "list_all (\<lambda>p. case view_of ascii_unicode p of Inr v \<Rightarrow> True | Inl e \<Rightarrow> False) (plans saga_store)"
    by code_simp
  then have "list_all (\<lambda>p. \<exists>v. view_of ascii_unicode p = Inr v) (plans saga_store)"
    by (rule list.pred_mono_strong) (simp split: sum.splits)
  from plan_pages_complete[OF _ _ this, of 1 None] obtain views where
    "follow_pages ascii_unicode None 1 saga_store (Suc (length (plans saga_store))) 0 = Some views"
    "map Inr views = map (view_of ascii_unicode) (listed_plans None saga_store)" by auto
  moreover have "length (plans saga_store) = 1" by (simp add: saga_store_def)
  moreover from this have "length (listed_plans None saga_store) = 1" by (simp add: listed_plans_def)
  moreover have "length views = length (listed_plans None saga_store)"
    using \<open>map Inr views = _\<close> by (metis length_map)
  ultimately show ?thesis by (simp add: numeral_2_eq_2)
qed

end
