(* ===== verification/Library_Pages.thy ===== *)
theory Library_Pages
  imports Live_Response Plan_Loader
begin

text \<open>
  \<^verbatim>\<open>adapters/p115_library.py\<close>: the values a read-only gateway exchanges, the parsing of a
  response into them, and \<open>scan_directory\<close>, which reads pages until a directory is complete.
  A gateway is a parameter: a function from the directory, the page and the page size that
  may change the world it reads.
\<close>

section \<open>Values\<close>

datatype page_state = PAGE_COMPLETE | PAGE_PARTIAL | PAGE_CANCELLED

record lib_entry =
  le_directory_id :: "pystr option"
  le_file_id :: "pystr option"
  le_parent_id :: "pystr option"
  le_name :: pystr
  le_is_directory :: bool
  le_size_bytes :: "int option"
  le_modified_at :: "time option"
  le_pickcode :: "pystr option"
  le_path :: "pystr option"

record dir_page =
  dp_items :: "lib_entry list"
  dp_page :: int
  dp_page_count :: "int option"
  dp_total :: "int option"
  dp_scan_complete :: "bool option"
  dp_state :: page_state
  dp_error_code :: "pystr option"
  dp_has_more :: "bool option"
  dp_next_page :: "int option"
  dp_terminal :: "bool option"

datatype contract_error = ContractErr string | OverflowErr

text \<open>\<open>DirectoryPage.__post_init__\<close>.\<close>

definition below :: "int \<Rightarrow> int option \<Rightarrow> bool" where
  "below n v = (case v of None \<Rightarrow> False | Some k \<Rightarrow> k < n)"

definition checked_page :: "dir_page \<Rightarrow> contract_error + dir_page" where
  "checked_page p =
     (if dp_page p < 1 then Inl (ContractErr ''invalid_page'')
      else if below 1 (dp_page_count p) then Inl (ContractErr ''invalid_page_count'')
      else if below 0 (dp_total p) then Inl (ContractErr ''invalid_total'')
      else if dp_state p = PAGE_COMPLETE \<and> dp_scan_complete p = Some False
        then Inl (ContractErr ''invalid_scan_state'')
      else if dp_state p \<noteq> PAGE_COMPLETE \<and> dp_scan_complete p = Some True
        then Inl (ContractErr ''invalid_scan_state'')
      else if below 1 (dp_next_page p) then Inl (ContractErr ''invalid_next_page'')
      else Inr p)"

section \<open>Parsing a response\<close>

text \<open>\<open>_value\<close>: the first of the names that is present.\<close>

fun first_value :: "json \<Rightarrow> string list \<Rightarrow> json" where
  "first_value j [] = JNull"
| "first_value j (n # ns) = (if jhas j n then jget j n else first_value j ns)"

definition normalized_id :: "unicode \<Rightarrow> pystr \<Rightarrow> contract_error + pystr option" where
  "normalized_id u s =
     (let t = py_strip u s in
      if t = [] \<or> (hd t = 45 \<and> py_isdigit u (tl t)) then Inl (ContractErr ''invalid_id'')
      else Inr (Some t))"

definition optional_id :: "unicode \<Rightarrow> json \<Rightarrow> contract_error + pystr option" where
  "optional_id u v =
     (case v of
        JNull \<Rightarrow> Inr None
      | JInt n \<Rightarrow> normalized_id u (int_text n)
      | JStr s \<Rightarrow> normalized_id u s
      | _ \<Rightarrow> Inl (ContractErr ''invalid_id''))"

definition size_value :: "json \<Rightarrow> contract_error + int option" where
  "size_value v =
     (case v of
        JNull \<Rightarrow> Inr None
      | JInt n \<Rightarrow> if n < 0 then Inl (ContractErr ''invalid_size'') else Inr (Some n)
      | _ \<Rightarrow> Inl (ContractErr ''invalid_size''))"

text \<open>
  \<open>datetime.fromisoformat\<close> is the parameter \<open>from_iso\<close>; \<open>None\<close> is its \<open>ValueError\<close>.  A datetime
  lies between the years 1 and 9999, and \<open>astimezone\<close> raises when the instant does not.
\<close>

definition first_instant :: time where
  "first_instant = -62135596800000000"

definition last_instant :: time where
  "last_instant = 253402300799999999"

definition timestamp_value :: "(pystr \<Rightarrow> py_datetime option) \<Rightarrow> json \<Rightarrow> contract_error + time option" where
  "timestamp_value from_iso v =
     (case v of
        JNull \<Rightarrow> Inr None
      | JInt n \<Rightarrow>
          if first_instant \<le> 1000000 * n \<and> 1000000 * n \<le> last_instant then Inr (Some (1000000 * n))
          else Inl (ContractErr ''invalid_timestamp'')
      | JStr s \<Rightarrow>
          (case from_iso s of
             None \<Rightarrow> Inl (ContractErr ''invalid_timestamp'')
           | Some (Naive t) \<Rightarrow> Inl (ContractErr ''invalid_timestamp'')
           | Some (Aware t offset) \<Rightarrow>
               if first_instant \<le> t - offset \<and> t - offset \<le> last_instant then Inr (Some (t - offset))
               else Inl OverflowErr)
      | _ \<Rightarrow> Inl (ContractErr ''invalid_timestamp''))"

definition pickcode_value :: "unicode \<Rightarrow> json \<Rightarrow> contract_error + pystr option" where
  "pickcode_value u v =
     (case v of
        JNull \<Rightarrow> Inr None
      | JStr s \<Rightarrow> if py_strip u s = [] then Inl (ContractErr ''invalid_pickcode'') else Inr (Some s)
      | _ \<Rightarrow> Inl (ContractErr ''invalid_pickcode''))"

definition path_value :: "json \<Rightarrow> contract_error + pystr option" where
  "path_value v =
     (case v of
        JNull \<Rightarrow> Inr None | JStr s \<Rightarrow> Inr (Some s) | _ \<Rightarrow> Inl (ContractErr ''invalid_path''))"

definition parse_library_entry ::
  "unicode \<Rightarrow> (pystr \<Rightarrow> py_datetime option) \<Rightarrow> json \<Rightarrow> contract_error + lib_entry" where
  "parse_library_entry u from_iso raw =
     (if \<not> is_obj raw then Inl (ContractErr ''invalid_entry'')
      else
        (case first_value raw [''is_directory'', ''is_dir''] of
           JBool is_directory \<Rightarrow>
             (case first_value raw [''name'', ''file_name''] of
                JStr name \<Rightarrow>
                  if py_strip u name = [] then Inl (ContractErr ''invalid_name'')
                  else
                    rbind (optional_id u (first_value raw [''directory_id'', ''cid''])) (\<lambda>did.
                    rbind (optional_id u (first_value raw [''file_id'', ''fid''])) (\<lambda>fid.
                    if \<not> is_directory \<and> fid = None then Inl (ContractErr ''missing_file_id'')
                    else
                      rbind (optional_id u (first_value raw [''parent_id'', ''pid''])) (\<lambda>parent_id.
                      rbind (pickcode_value u (first_value raw [''pickcode'', ''pick_code''])) (\<lambda>pickcode.
                      rbind (path_value (first_value raw [''path''])) (\<lambda>path.
                      rbind (size_value (first_value raw [''size_bytes'', ''size''])) (\<lambda>size_bytes.
                      rbind (timestamp_value from_iso (first_value raw [''modified_at'', ''user_utime''])) (\<lambda>modified_at.
                      Inr \<lparr>le_directory_id = (if is_directory \<and> did = None then fid else did),
                           le_file_id = fid, le_parent_id = parent_id, le_name = name,
                           le_is_directory = is_directory, le_size_bytes = size_bytes,
                           le_modified_at = modified_at, le_pickcode = pickcode, le_path = path\<rparr>)))))))
              | _ \<Rightarrow> Inl (ContractErr ''invalid_name''))
         | _ \<Rightarrow> Inl (ContractErr ''invalid_entry'')))"

fun parse_entries ::
  "unicode \<Rightarrow> (pystr \<Rightarrow> py_datetime option) \<Rightarrow> json list \<Rightarrow> contract_error + lib_entry list" where
  "parse_entries u from_iso [] = Inr []"
| "parse_entries u from_iso (r # rs) =
     rbind (parse_library_entry u from_iso r) (\<lambda>e. map_sum id (Cons e) (parse_entries u from_iso rs))"

definition optional_int :: "string \<Rightarrow> json \<Rightarrow> contract_error + int option" where
  "optional_int code v =
     (case v of JNull \<Rightarrow> Inr None | JInt n \<Rightarrow> Inr (Some n) | _ \<Rightarrow> Inl (ContractErr code))"

definition optional_bool :: "string \<Rightarrow> json \<Rightarrow> contract_error + bool option" where
  "optional_bool code v =
     (case v of JNull \<Rightarrow> Inr None | JBool b \<Rightarrow> Inr (Some b) | _ \<Rightarrow> Inl (ContractErr code))"

fun json_truth :: "json \<Rightarrow> bool" where
  "json_truth JNull = False"
| "json_truth (JBool b) = b"
| "json_truth (JInt n) = (n \<noteq> 0)"
| "json_truth (JReal r) = (r \<noteq> 0)"
| "json_truth (JNonFinite s) = True"
| "json_truth (JStr s) = (s \<noteq> [])"
| "json_truth (JList xs) = (xs \<noteq> [])"
| "json_truth (JObj kvs) = (kvs \<noteq> [])"

definition page_state_value :: "json \<Rightarrow> bool option \<Rightarrow> contract_error + page_state" where
  "page_state_value v scan_complete =
     (if \<not> json_truth v
        then Inr (if scan_complete = Some False then PAGE_PARTIAL else PAGE_COMPLETE)
      else if v = JStr (lit ''complete'') then Inr PAGE_COMPLETE
      else if v = JStr (lit ''partial'') then Inr PAGE_PARTIAL
      else if v = JStr (lit ''cancelled'') then Inr PAGE_CANCELLED
      else Inl (ContractErr ''invalid_scan_state''))"

definition parse_directory_page ::
  "unicode \<Rightarrow> (pystr \<Rightarrow> py_datetime option) \<Rightarrow> json \<Rightarrow> contract_error + dir_page" where
  "parse_directory_page u from_iso raw =
     (if \<not> is_obj raw then Inl (ContractErr ''invalid_page'')
      else
        (let body = jget_or raw raw ''data'' in
         if \<not> is_obj body then Inl (ContractErr ''invalid_page'')
         else if \<not> jhas body ''list'' \<and> \<not> jhas body ''items'' then Inl (ContractErr ''missing_items'')
         else
           (case as_list (jget body (if jhas body ''list'' then ''list'' else ''items'')) of
              None \<Rightarrow> Inl (ContractErr ''invalid_items'')
            | Some raw_items \<Rightarrow>
                rbind (parse_entries u from_iso raw_items) (\<lambda>entries.
                case first_value body [''page'', ''page_no''] of
                  JInt page \<Rightarrow>
                    rbind (optional_int ''invalid_page_count''
                             (first_value body [''page_count'', ''pagecount'', ''pages''])) (\<lambda>page_count.
                    rbind (optional_int ''invalid_total'' (first_value body [''total'', ''count''])) (\<lambda>page_total.
                    rbind (optional_bool ''invalid_scan_state'' (jget body ''scan_complete'')) (\<lambda>scan_complete.
                    rbind (page_state_value (first_value body [''state'', ''scan_state'']) scan_complete) (\<lambda>state.
                    rbind (optional_bool ''invalid_pagination'' (jget body ''has_more'')) (\<lambda>has_more.
                    rbind (optional_int ''invalid_next_page'' (jget body ''next_page'')) (\<lambda>next_page.
                    if below 1 next_page then Inl (ContractErr ''invalid_next_page'')
                    else
                      rbind (optional_bool ''invalid_pagination'' (jget body ''terminal'')) (\<lambda>terminal.
                      checked_page
                        \<lparr>dp_items = entries, dp_page = page, dp_page_count = page_count, dp_total = page_total,
                         dp_scan_complete = scan_complete, dp_state = state,
                         dp_error_code = (if state = PAGE_PARTIAL then Some (lit ''partial_page'') else None),
                         dp_has_more = has_more, dp_next_page = next_page, dp_terminal = terminal\<rparr>)))))))
                | _ \<Rightarrow> Inl (ContractErr ''invalid_page'')))))"

definition parse_file_detail ::
  "unicode \<Rightarrow> (pystr \<Rightarrow> py_datetime option) \<Rightarrow> json \<Rightarrow> contract_error + lib_entry" where
  "parse_file_detail u from_iso raw =
     rbind (parse_library_entry u from_iso raw) (\<lambda>e.
     if le_is_directory e \<or> le_file_id e = None then Inl (ContractErr ''invalid_file_detail'') else Inr e)"

definition parse_directory_detail ::
  "unicode \<Rightarrow> (pystr \<Rightarrow> py_datetime option) \<Rightarrow> json \<Rightarrow> contract_error + lib_entry" where
  "parse_directory_detail u from_iso raw =
     rbind (parse_library_entry u from_iso raw) (\<lambda>e.
     if \<not> le_is_directory e \<or> le_directory_id e = None then Inl (ContractErr ''invalid_directory_detail'')
     else Inr e)"

section \<open>Reading a directory\<close>

datatype gw_reply = GwPage dir_page | GwError | GwCancelled

type_synonym 'w gateway = "pystr \<Rightarrow> int \<Rightarrow> int \<Rightarrow> 'w \<Rightarrow> gw_reply \<times> 'w"

record scan_result =
  sr_items :: "lib_entry list"
  sr_pages_read :: int
  sr_page_count :: "int option"
  sr_total :: "int option"
  sr_complete :: bool
  sr_state :: page_state
  sr_error_code :: "pystr option"

text \<open>The local variables of the loop.\<close>

record scan_acc =
  sa_items :: "lib_entry list"
  sa_seen_pages :: "int list"
  sa_seen_entries :: "(pystr option \<times> pystr option) list"
  sa_expected :: "int option"
  sa_page_count_seen :: bool
  sa_total :: "int option"
  sa_total_seen :: bool
  sa_pages_read :: int
  sa_page_number :: int

definition scan_start :: scan_acc where
  "scan_start = \<lparr>sa_items = [], sa_seen_pages = [], sa_seen_entries = [], sa_expected = None,
     sa_page_count_seen = False, sa_total = None, sa_total_seen = False, sa_pages_read = 0,
     sa_page_number = 1\<rparr>"

definition partial_result :: "scan_acc \<Rightarrow> page_state \<Rightarrow> pystr \<Rightarrow> scan_result" where
  "partial_result a st code =
     \<lparr>sr_items = sa_items a, sr_pages_read = sa_pages_read a, sr_page_count = sa_expected a,
      sr_total = sa_total a, sr_complete = False, sr_state = st, sr_error_code = Some code\<rparr>"

definition entry_pair :: "lib_entry \<Rightarrow> pystr option \<times> pystr option" where
  "entry_pair e = (le_directory_id e, le_file_id e)"

text \<open>The entries up to the first one seen before, and whether there was one.\<close>

fun take_new :: "lib_entry list \<Rightarrow> scan_acc \<Rightarrow> scan_acc \<times> bool" where
  "take_new [] a = (a, False)"
| "take_new (e # es) a =
     (if entry_pair e \<in> set (sa_seen_entries a) then (a, True)
      else take_new es (a\<lparr>sa_items := sa_items a @ [e], sa_seen_entries := entry_pair e # sa_seen_entries a\<rparr>))"

text \<open>The pagination signals of a page contradict each other or the expected number of pages.\<close>

definition signals_conflict :: "dir_page \<Rightarrow> int \<Rightarrow> int option \<Rightarrow> bool" where
  "signals_conflict p n expected =
     (let by_count = expected = Some n; continues = \<not> below (n + 1) expected \<and> expected \<noteq> None in
      dp_terminal p = Some True \<and> dp_has_more p = Some True
      \<or> dp_terminal p = Some True \<and> dp_next_page p \<noteq> None
      \<or> dp_has_more p = Some False \<and> dp_next_page p \<noteq> None
      \<or> dp_terminal p = Some False \<and> dp_has_more p = Some False
      \<or> (dp_next_page p \<noteq> None \<and> dp_next_page p \<noteq> Some (n + 1))
      \<or> by_count \<and> (dp_terminal p = Some False \<or> dp_has_more p = Some True \<or> dp_next_page p \<noteq> None)
      \<or> continues \<and> (dp_terminal p = Some True \<or> dp_has_more p = Some False))"

definition scan_first :: "dir_page \<Rightarrow> scan_acc \<Rightarrow> scan_acc" where
  "scan_first p a =
     a\<lparr>sa_seen_pages := dp_page p # sa_seen_pages a, sa_pages_read := sa_pages_read a + 1,
       sa_expected := (if sa_page_count_seen a then sa_expected a else dp_page_count p),
       sa_page_count_seen := True\<rparr>"

definition counted :: "dir_page \<Rightarrow> scan_acc \<Rightarrow> scan_acc" where
  "counted p a =
     (let a1 = scan_first p a in
      a1\<lparr>sa_total := (if sa_total_seen a1 then sa_total a1 else dp_total p), sa_total_seen := True\<rparr>)"

definition page_ends :: "dir_page \<Rightarrow> int \<Rightarrow> int option \<Rightarrow> bool" where
  "page_ends p n expected =
     (expected = Some n \<or> dp_terminal p = Some True \<or> dp_has_more p = Some False)"

definition empty_unexplained :: "dir_page \<Rightarrow> int \<Rightarrow> int option \<Rightarrow> bool" where
  "empty_unexplained p n expected =
     (dp_items p = []
      \<and> (expected = None \<or> \<not> below (n + 1) expected \<or> dp_total p \<notin> {None, Some 0})
      \<and> dp_terminal p \<noteq> Some True \<and> dp_has_more p \<noteq> Some False)"

text \<open>The entries of a page and the way on.\<close>

definition scan_items :: "dir_page \<Rightarrow> scan_acc \<Rightarrow> scan_result + scan_acc" where
  "scan_items p a =
     (let n = sa_page_number a; expected = sa_expected a in
      case take_new (dp_items p) a of
        (b, True) \<Rightarrow> Inl (partial_result b PAGE_PARTIAL (lit ''repeated_entry''))
      | (b, False) \<Rightarrow>
          if page_ends p n expected
          then
            (if sa_total b \<noteq> None \<and> sa_total b \<noteq> Some (int (length (sa_items b)))
             then Inl (partial_result b PAGE_PARTIAL (lit ''total_mismatch''))
             else Inl \<lparr>sr_items = sa_items b, sr_pages_read = sa_pages_read b,
                       sr_page_count = expected, sr_total = sa_total b, sr_complete = True,
                       sr_state = PAGE_COMPLETE, sr_error_code = None\<rparr>)
          else if expected = None \<and> dp_has_more p \<noteq> Some True \<and> dp_next_page p = None
            then Inl (partial_result b PAGE_PARTIAL (lit ''pagination_unverified''))
          else
            (let next_page = (case dp_next_page p of None \<Rightarrow> n + 1 | Some k \<Rightarrow> k) in
             if next_page \<le> n \<or> next_page \<in> set (sa_seen_pages b)
             then Inl (partial_result b PAGE_PARTIAL (lit ''pagination_unverified''))
             else Inr (b\<lparr>sa_page_number := next_page\<rparr>)))"

definition scan_counted :: "dir_page \<Rightarrow> scan_acc \<Rightarrow> scan_result + scan_acc" where
  "scan_counted p a =
     (let n = sa_page_number a; expected = sa_expected a in
      if dp_state p \<noteq> PAGE_COMPLETE \<or> dp_scan_complete p = Some False
        then Inl (partial_result a (dp_state p)
                    (case dp_error_code p of None \<Rightarrow> lit ''partial_page''
                       | Some c \<Rightarrow> if c = [] then lit ''partial_page'' else c))
      else if signals_conflict p n expected \<or> below n expected
        then Inl (partial_result a PAGE_PARTIAL (lit ''pagination_unverified''))
      else if empty_unexplained p n expected
        then Inl (partial_result a PAGE_PARTIAL
                    (if expected = None \<and> dp_has_more p = None \<and> dp_next_page p = None
                        \<and> dp_terminal p = None
                     then lit ''pagination_unverified'' else lit ''empty_page''))
      else scan_items p a)"

text \<open>One turn of the loop after the page arrived: a result, or the state of the next turn.\<close>

definition scan_page :: "dir_page \<Rightarrow> scan_acc \<Rightarrow> scan_result + scan_acc" where
  "scan_page p a =
     (if dp_page p \<noteq> sa_page_number a \<or> dp_page p \<in> set (sa_seen_pages a)
        then Inl (partial_result a PAGE_PARTIAL (lit ''repeated_page''))
      else if sa_page_count_seen a \<and> dp_page_count p \<noteq> sa_expected a
        then Inl (partial_result ((scan_first p a)\<lparr>sa_expected := dp_page_count p, sa_total := dp_total p\<rparr>)
                    PAGE_PARTIAL (lit ''page_count_changed''))
      else if sa_total_seen a \<and> dp_total p \<noteq> sa_total a
        then Inl (partial_result ((scan_first p a)\<lparr>sa_total := dp_total p\<rparr>)
                    PAGE_PARTIAL (lit ''total_changed''))
      else scan_counted p (counted p a))"

datatype scan_raise = RaiseValueError string | RaiseCancelled

text \<open>
  The loop with at most \<open>fuel\<close> turns: \<open>None\<close> when it has not ended by then.  A cancellation
  is raised on, so it is the left value.
\<close>

fun scan_directory_loop ::
  "'w gateway \<Rightarrow> pystr \<Rightarrow> int \<Rightarrow> nat \<Rightarrow> scan_acc \<Rightarrow> 'w \<Rightarrow> ((scan_raise + scan_result) \<times> 'w) option" where
  "scan_directory_loop gw d psize 0 a w = None"
| "scan_directory_loop gw d psize (Suc fuel) a w =
     (case gw d (sa_page_number a) psize w of
        (GwCancelled, w') \<Rightarrow> Some (Inl RaiseCancelled, w')
      | (GwError, w') \<Rightarrow> Some (Inr (partial_result a PAGE_PARTIAL (lit ''gateway_error'')), w')
      | (GwPage p, w') \<Rightarrow>
          (case scan_page p a of
             Inl r \<Rightarrow> Some (Inr r, w')
           | Inr a' \<Rightarrow> scan_directory_loop gw d psize fuel a' w'))"

definition scan_directory ::
  "'w gateway \<Rightarrow> pystr \<Rightarrow> int \<Rightarrow> nat \<Rightarrow> 'w \<Rightarrow> ((scan_raise + scan_result) \<times> 'w) option" where
  "scan_directory gw d psize fuel w =
     (if psize < 1 \<or> psize > 1000 then Some (Inl (RaiseValueError ''invalid_page_size''), w)
      else scan_directory_loop gw d psize fuel scan_start w)"

end
