(* ===== verification/Library_Index.thy ===== *)
theory Library_Index
  imports Library_Pages
begin

text \<open>
  \<^verbatim>\<open>services/library_index.py\<close>: the scan of one managed directory into the database.  A scan is
  named by its idempotency key; it stores page after page with a checkpoint, and once the last
  page is in, compares the snapshot with the previous one and brings the ledger of the library
  up to date.  Each session of the code is one transaction on \<open>store\<close>, as it is when no
  other session writes meanwhile; \<^verbatim>\<open>Index_Sessions\<close> takes the sessions apart into statements.  While
  a gateway call is waited for, other sessions may commit, so the gateway acts on the whole world.
  A cancellation comes at the gateway here and at every \<^verbatim>\<open>await\<close> in \<^verbatim>\<open>Index_Cancellation\<close>.
\<close>

datatype index_error = IndexErr pystr | IndexIntegrityErr | IndexStorageErr

abbreviation index_error_of :: "string \<Rightarrow> index_error" where
  "index_error_of c \<equiv> IndexErr (lit c)"

type_synonym 'a index_act = "(store, index_error, 'a) act"

section \<open>The service\<close>

text \<open>\<open>ic_refuses\<close> tells which rows the database refuses to store, such as too wide integers.\<close>

record index_config =
  ic_library_id :: pystr
  ic_root :: pystr
  ic_page_size :: int
  ic_max_changes :: int
  ic_refuses :: "scan_entry \<Rightarrow> bool"

definition index_identity :: "pystr \<Rightarrow> bool" where
  "index_identity v =
     (v \<noteq> [] \<and> length v \<le> 128 \<and> 0 \<notin> set v \<and> 47 \<notin> set v \<and> 92 \<notin> set v
      \<and> \<not> occurs_in (lit ''://'') v)"

definition index_key :: "pystr \<Rightarrow> bool" where
  "index_key v = (v \<noteq> [] \<and> length v \<le> 128 \<and> 0 \<notin> set v \<and> 47 \<notin> set v \<and> 92 \<notin> set v)"

definition new_index ::
  "pystr \<Rightarrow> pystr \<Rightarrow> int \<Rightarrow> int \<Rightarrow> (scan_entry \<Rightarrow> bool) \<Rightarrow> index_error + index_config" where
  "new_index library_id rt psize max_changes refuses =
     (if \<not> index_identity library_id \<or> \<not> index_identity rt then Inl (index_error_of ''invalid_identity'')
      else if psize < 1 \<or> psize > 1000 then Inl (index_error_of ''invalid_page_size'')
      else if max_changes < 0 \<or> max_changes > 1000 then Inl (index_error_of ''invalid_change_limit'')
      else Inr \<lparr>ic_library_id = library_id, ic_root = rt, ic_page_size = psize,
                ic_max_changes = max_changes, ic_refuses = refuses\<rparr>)"

section \<open>Sessions\<close>

definition verify_index_scope :: "index_config \<Rightarrow> unit index_act" where
  "verify_index_scope cfg s =
     (case row_of lib_id (ic_library_id cfg) (libraries s) of
        Some lib \<Rightarrow>
          if lib_enabled lib \<and> lib_scope_verified lib \<and> lib_root_directory_id lib = ic_root cfg
          then (Inr (), s) else (Inl (index_error_of ''library_scope_unverified''), s)
      | None \<Rightarrow> (Inl (index_error_of ''library_scope_unverified''), s))"

definition keyed_run :: "index_config \<Rightarrow> pystr \<Rightarrow> store \<Rightarrow> run_row option" where
  "keyed_run cfg key s =
     find (\<lambda>r. run_library_id r = ic_library_id cfg \<and> run_idempotency_key r = key) (runs s)"

definition fresh_run :: "index_config \<Rightarrow> pystr \<Rightarrow> pystr \<Rightarrow> time \<Rightarrow> run_row" where
  "fresh_run cfg key rid clk =
     \<lparr>run_id = rid, run_library_id = ic_library_id cfg, run_root_directory_id = ic_root cfg,
      run_state = SCAN_QUEUED, run_complete = False, run_snapshot_revision = None,
      run_idempotency_key = key, run_expected_page_count = None, run_expected_total = None,
      run_pages_read = 0, run_items_seen = 0, run_added_count = 0, run_changed_count = 0,
      run_removed_count = 0, run_error_code = None, run_created_at = clk, run_updated_at = clk\<rparr>"

text \<open>The insert of the run is flushed outside the handler of \<open>IntegrityError\<close>.\<close>

definition get_or_create_run :: "index_config \<Rightarrow> pystr \<Rightarrow> pystr \<Rightarrow> time \<Rightarrow> run_row index_act" where
  "get_or_create_run cfg key new_id clk s =
     (case keyed_run cfg key s of
        Some r \<Rightarrow>
          if run_root_directory_id r \<noteq> ic_root cfg
          then (Inl (index_error_of ''library_scope_unverified''), s) else (Inr r, s)
      | None \<Rightarrow>
          if new_id \<in> set (map run_id (runs s)) \<or> row_of lib_id (ic_library_id cfg) (libraries s) = None
          then (Inl IndexIntegrityErr, s)
          else
            (Inr (fresh_run cfg key new_id clk),
             s\<lparr>runs := runs s @ [fresh_run cfg key new_id clk],
               checkpoints := checkpoints s @ [\<lparr>cp_scan_run_id = new_id, cp_page = 0, cp_items_seen = 0\<rparr>]\<rparr>))"

text \<open>An \<open>UPDATE\<close> is written, with the new time, only when a column changed.\<close>

definition touched :: "time \<Rightarrow> run_row \<Rightarrow> run_row \<Rightarrow> run_row" where
  "touched clk r r' = (if r' = r then r else r'\<lparr>run_updated_at := clk\<rparr>)"

definition put_run :: "time \<Rightarrow> (run_row \<Rightarrow> run_row) \<Rightarrow> pystr \<Rightarrow> store \<Rightarrow> store" where
  "put_run clk f rid s =
     s\<lparr>runs := update_where (\<lambda>r. run_id r = rid) (\<lambda>r. touched clk r (f r)) (runs s)\<rparr>"

definition update_run :: "time \<Rightarrow> (run_row \<Rightarrow> run_row) \<Rightarrow> pystr \<Rightarrow> unit index_act" where
  "update_run clk f rid s =
     (case row_of run_id rid (runs s) of
        None \<Rightarrow> (Inl (index_error_of ''scan_run_missing''), s)
      | Some _ \<Rightarrow> (Inr (), put_run clk f rid s))"

definition mark_running :: "time \<Rightarrow> pystr \<Rightarrow> unit index_act" where
  "mark_running clk = update_run clk (\<lambda>r. r\<lparr>run_state := SCAN_RUNNING, run_error_code := None\<rparr>)"

definition checkpoint_for_run :: "pystr \<Rightarrow> checkpoint_row index_act" where
  "checkpoint_for_run rid s =
     (case row_of cp_scan_run_id rid (checkpoints s) of
        None \<Rightarrow> (Inl (index_error_of ''checkpoint_missing''), s) | Some c \<Rightarrow> (Inr c, s))"

definition finish_incomplete :: "time \<Rightarrow> pystr \<Rightarrow> scan_run_state \<Rightarrow> pystr \<Rightarrow> unit index_act" where
  "finish_incomplete clk rid st code =
     update_run clk (\<lambda>r. r\<lparr>run_state := st, run_complete := False, run_error_code := Some code\<rparr>) rid"

section \<open>A page\<close>

definition entry_identity :: "lib_entry \<Rightarrow> index_error + pystr \<times> pystr" where
  "entry_identity e =
     (if le_parent_id e = None then Inl (index_error_of ''entry_scope_unverified'')
      else if le_is_directory e then
        (case le_directory_id e of
           None \<Rightarrow> Inl (index_error_of ''missing_directory_id'') | Some i \<Rightarrow> Inr (lit ''directory'', i))
      else
        (case le_file_id e of
           None \<Rightarrow> Inl (index_error_of ''missing_file_id'') | Some i \<Rightarrow> Inr (lit ''file'', i)))"

fun entries_in_scope :: "pystr \<Rightarrow> lib_entry list \<Rightarrow> index_error + unit" where
  "entries_in_scope rt [] = Inr ()"
| "entries_in_scope rt (e # es) =
     (if le_parent_id e \<noteq> Some rt then Inl (index_error_of ''entry_out_of_scope'')
      else rbind (entry_identity e) (\<lambda>_. entries_in_scope rt es))"

text \<open>\<open>_validate_page\<close>: the expected counts from now on, and whether this is the last page.\<close>

definition validate_page ::
  "pystr \<Rightarrow> dir_page \<Rightarrow> int \<Rightarrow> int option \<Rightarrow> int option
    \<Rightarrow> index_error + int option \<times> int option \<times> bool" where
  "validate_page rt p n expected_count expected_total =
     (if dp_page p \<noteq> n \<or> dp_page p < 1 then Inl (index_error_of ''repeated_page'')
      else if dp_page_count p \<noteq> None \<and> (below 1 (dp_page_count p) \<or> below n (dp_page_count p))
        then Inl (index_error_of ''pagination_unverified'')
      else if dp_page_count p \<noteq> None \<and> expected_count \<noteq> None \<and> dp_page_count p \<noteq> expected_count
        then Inl (index_error_of ''page_count_changed'')
      else
        (let expected = (if dp_page_count p = None then expected_count else dp_page_count p) in
         if expected_total \<noteq> None \<and> dp_total p \<noteq> expected_total
           then Inl (index_error_of ''total_changed'')
         else
           (let total' = (if expected_total = None then dp_total p else expected_total);
                by_count = (expected = Some n);
                continues = (expected \<noteq> None \<and> \<not> below (n + 1) expected);
                ends = (by_count \<or> dp_terminal p = Some True \<or> dp_has_more p = Some False) in
            if dp_state p \<noteq> PAGE_COMPLETE \<or> dp_scan_complete p = Some False
              then Inl (if dp_state p = PAGE_CANCELLED then index_error_of ''cancelled''
                        else (case dp_error_code p of None \<Rightarrow> index_error_of ''partial_page''
                                | Some c \<Rightarrow> if c = [] then index_error_of ''partial_page'' else IndexErr c))
            else if signals_conflict p n expected then Inl (index_error_of ''pagination_unverified'')
            else if dp_items p = [] \<and> \<not> ends then Inl (index_error_of ''empty_page'')
            else
              rbind (entries_in_scope rt (dp_items p)) (\<lambda>_.
              if ends \<and> below 0 total' then Inl (index_error_of ''invalid_total'')
              else if \<not> ends \<and> \<not> (continues \<or> dp_has_more p = Some True \<or> dp_next_page p \<noteq> None)
                then Inl (index_error_of ''pagination_unverified'')
              else Inr (expected, total', ends)))))"

definition se_key :: "scan_entry \<Rightarrow> pystr \<times> pystr" where
  "se_key e = (se_object_type e, se_object_id e)"

definition run_entries :: "pystr \<Rightarrow> store \<Rightarrow> scan_entry list" where
  "run_entries rid s = filter (\<lambda>e. se_scan_run_id e = rid) (scan_entries s)"

definition scan_entry_of :: "pystr \<Rightarrow> pystr \<times> pystr \<Rightarrow> lib_entry \<Rightarrow> scan_entry" where
  "scan_entry_of rid k e =
     \<lparr>se_scan_run_id = rid, se_object_type = fst k, se_object_id = snd k,
      se_parent_id = le_parent_id e, se_name = le_name e, se_path = le_path e,
      se_is_directory = le_is_directory e, se_size_bytes = le_size_bytes e,
      se_modified_at = le_modified_at e\<rparr>"

text \<open>
  The rows a page adds.  \<open>session.get\<close> flushes the row added last before it reads, so a row the
  database refuses is found out at the next entry, after the check of its identity in the page.
\<close>

fun page_rows ::
  "(scan_entry \<Rightarrow> bool) \<Rightarrow> pystr \<Rightarrow> (pystr \<times> pystr) list \<Rightarrow> (pystr \<times> pystr) list \<Rightarrow> bool
    \<Rightarrow> lib_entry list \<Rightarrow> index_error + scan_entry list" where
  "page_rows refuses rid old seen refused [] = (if refused then Inl IndexStorageErr else Inr [])"
| "page_rows refuses rid old seen refused (e # es) =
     rbind (entry_identity e) (\<lambda>k.
     if k \<in> set seen then Inl (index_error_of ''repeated_entry'')
     else if refused then Inl IndexStorageErr
     else if k \<in> set old then Inl (index_error_of ''repeated_entry'')
     else map_sum id (Cons (scan_entry_of rid k e))
            (page_rows refuses rid old (k # seen) (refuses (scan_entry_of rid k e)) es))"

definition persist_page ::
  "index_config \<Rightarrow> time \<Rightarrow> pystr \<Rightarrow> dir_page \<Rightarrow> int option \<Rightarrow> int option \<Rightarrow> unit index_act" where
  "persist_page cfg clk rid p expected_count expected_total s =
     (case (row_of run_id rid (runs s), row_of cp_scan_run_id rid (checkpoints s)) of
        (Some r, Some c) \<Rightarrow>
          (case page_rows (ic_refuses cfg) rid (map se_key (run_entries rid s)) [] False (dp_items p) of
             Inl e \<Rightarrow> (Inl e, s)
           | Inr rows \<Rightarrow>
                 (let seen = cp_items_seen c + int (length (dp_items p)) in
                  (Inr (),
                   (put_run clk (\<lambda>r. r\<lparr>run_expected_page_count := expected_count,
                                      run_expected_total := expected_total,
                                      run_pages_read := dp_page p, run_items_seen := seen\<rparr>) rid s)
                     \<lparr>scan_entries := scan_entries s @ rows,
                      checkpoints := update_where (\<lambda>c. cp_scan_run_id c = rid)
                        (\<lambda>c. c\<lparr>cp_page := dp_page p, cp_items_seen := seen\<rparr>) (checkpoints s)\<rparr>)))
      | _ \<Rightarrow> (Inl (index_error_of ''scan_run_missing''), s))"

section \<open>The ledger\<close>

definition ledger_key :: "ledger_row \<Rightarrow> pystr \<times> pystr \<times> pystr" where
  "ledger_key l = (lg_library_id l, lg_object_type l, lg_object_id l)"

definition dedupe_key :: "pystr \<Rightarrow> scan_entry \<Rightarrow> string \<Rightarrow> pystr" where
  "dedupe_key rid e kind =
     rid @ [58] @ se_object_type e @ [58] @ se_object_id e @ [58] @ lit kind"

definition record_inventory_event ::
  "pystr \<Rightarrow> pystr \<Rightarrow> scan_entry \<Rightarrow> string \<Rightarrow> string option \<Rightarrow> store \<Rightarrow> store" where
  "record_inventory_event library_id rid e kind previous s =
     (if dedupe_key rid e kind \<in> set (map ie_dedupe_key (inventory_events s)) then s
      else s\<lparr>inventory_events := inventory_events s @
        [\<lparr>ie_library_id = library_id, ie_scan_run_id = rid, ie_object_type = se_object_type e,
          ie_object_id = se_object_id e, ie_event_kind = kind, ie_previous_status = previous,
          ie_dedupe_key = dedupe_key rid e kind\<rparr>]\<rparr>)"

definition new_ledger_row ::
  "pystr \<Rightarrow> pystr \<Rightarrow> time \<Rightarrow> scan_entry \<Rightarrow> string \<Rightarrow> time option \<Rightarrow> ledger_row" where
  "new_ledger_row library_id rid clk e status missing_since =
     \<lparr>lg_library_id = library_id, lg_object_type = se_object_type e, lg_object_id = se_object_id e,
      lg_parent_id = se_parent_id e, lg_name = se_name e, lg_path = se_path e,
      lg_is_directory = se_is_directory e, lg_size_bytes = se_size_bytes e,
      lg_modified_at = se_modified_at e, lg_status = status, lg_first_seen_at = clk,
      lg_last_seen_at = clk, lg_missing_since = missing_since, lg_last_scan_run_id = Some rid,
      lg_revision = 1\<rparr>"

definition observed_row :: "pystr \<Rightarrow> time \<Rightarrow> scan_entry \<Rightarrow> ledger_row \<Rightarrow> ledger_row" where
  "observed_row rid clk e l =
     l\<lparr>lg_parent_id := se_parent_id e, lg_name := se_name e, lg_path := se_path e,
       lg_is_directory := se_is_directory e, lg_size_bytes := se_size_bytes e,
       lg_modified_at := se_modified_at e, lg_last_seen_at := clk, lg_last_scan_run_id := Some rid,
       lg_revision := lg_revision l + 1,
       lg_status := (if lg_status l = ''missing'' then ''active'' else lg_status l),
       lg_missing_since := (if lg_status l = ''missing'' then None else lg_missing_since l)\<rparr>"

definition removed_row :: "pystr \<Rightarrow> time \<Rightarrow> ledger_row \<Rightarrow> ledger_row" where
  "removed_row rid clk l =
     l\<lparr>lg_status := ''missing'',
       lg_missing_since := (case lg_missing_since l of None \<Rightarrow> Some clk | Some t \<Rightarrow> Some t),
       lg_last_scan_run_id := Some rid, lg_revision := lg_revision l + 1\<rparr>"

definition put_ledger ::
  "pystr \<times> pystr \<times> pystr \<Rightarrow> (ledger_row \<Rightarrow> ledger_row) \<Rightarrow> store \<Rightarrow> store" where
  "put_ledger k f s = s\<lparr>ledger := update_where (\<lambda>l. ledger_key l = k) f (ledger s)\<rparr>"

definition record_observation ::
  "pystr \<Rightarrow> pystr \<Rightarrow> time \<Rightarrow> string \<Rightarrow> scan_entry \<Rightarrow> store \<Rightarrow> store" where
  "record_observation library_id rid clk kind e s =
     (let k = (library_id, se_key e) in
      case row_of ledger_key k (ledger s) of
        None \<Rightarrow>
          record_inventory_event library_id rid e ''added'' None
            (s\<lparr>ledger := ledger s @ [new_ledger_row library_id rid clk e ''active'' None]\<rparr>)
      | Some l \<Rightarrow>
          (let s' = put_ledger k (observed_row rid clk e) s in
           if lg_status l = ''missing''
             then record_inventory_event library_id rid e ''restored'' (Some (lg_status l)) s'
           else if kind = ''changed''
             then record_inventory_event library_id rid e ''changed'' (Some (lg_status l)) s'
           else s'))"

definition record_removal ::
  "pystr \<Rightarrow> pystr \<Rightarrow> time \<Rightarrow> scan_entry \<Rightarrow> store \<Rightarrow> store" where
  "record_removal library_id rid clk e s =
     (let k = (library_id, se_key e); l = row_of ledger_key k (ledger s);
          s' = (case l of
                  None \<Rightarrow> s\<lparr>ledger := ledger s @ [new_ledger_row library_id rid clk e ''missing'' (Some clk)]\<rparr>
                | Some _ \<Rightarrow> put_ledger k (removed_row rid clk) s)
      in if map_option lg_status l \<noteq> Some ''missing''
         then record_inventory_event library_id rid e ''removed'' (map_option lg_status l) s' else s')"

section \<open>Completion\<close>

definition entry_changed :: "scan_entry \<Rightarrow> scan_entry \<Rightarrow> bool" where
  "entry_changed old e =
     (se_parent_id old \<noteq> se_parent_id e \<or> se_name old \<noteq> se_name e \<or> se_path old \<noteq> se_path e
      \<or> se_is_directory old \<noteq> se_is_directory e \<or> se_size_bytes old \<noteq> se_size_bytes e
      \<or> se_modified_at old \<noteq> se_modified_at e)"

definition add_diff :: "diff_row \<Rightarrow> store \<Rightarrow> store" where
  "add_diff d s = s\<lparr>diffs := diffs s @ [d]\<rparr>"

definition change_of :: "scan_entry list \<Rightarrow> scan_entry \<Rightarrow> (string \<times> bool) option" where
  "change_of previous e =
     (case row_of se_key (se_key e) previous of
        None \<Rightarrow> Some (''added'', False)
      | Some old \<Rightarrow> if entry_changed old e then Some (''changed'', se_path old \<noteq> se_path e) else None)"

definition diff_of :: "pystr \<Rightarrow> scan_entry \<Rightarrow> string \<Rightarrow> bool \<Rightarrow> diff_row" where
  "diff_of rid e kind path_changed =
     \<lparr>df_scan_run_id = rid, df_object_type = se_object_type e, df_object_id = se_object_id e,
      df_change_kind = kind, df_path_changed = path_changed\<rparr>"

definition record_entry ::
  "pystr \<Rightarrow> pystr \<Rightarrow> time \<Rightarrow> scan_entry list \<Rightarrow> scan_entry \<Rightarrow> store \<Rightarrow> store" where
  "record_entry library_id rid clk previous e s =
     (case change_of previous e of
        None \<Rightarrow> s
      | Some (kind, moved) \<Rightarrow>
          record_observation library_id rid clk kind e (add_diff (diff_of rid e kind moved) s))"

definition record_removed ::
  "pystr \<Rightarrow> pystr \<Rightarrow> time \<Rightarrow> scan_entry list \<Rightarrow> scan_entry \<Rightarrow> store \<Rightarrow> store" where
  "record_removed library_id rid clk current old s =
     (if se_key old \<in> set (map se_key current) then s
      else record_removal library_id rid clk old (add_diff (diff_of rid old ''removed'' False) s))"

definition previous_run :: "index_config \<Rightarrow> pystr \<Rightarrow> store \<Rightarrow> run_row option" where
  "previous_run cfg rid s =
     first_max run_snapshot_revision
       (filter (\<lambda>r. run_library_id r = ic_library_id cfg \<and> run_root_directory_id r = ic_root cfg
                  \<and> run_complete r \<and> run_state r = SCAN_COMPLETED \<and> run_id r \<noteq> rid) (runs s))"

definition next_revision :: "pystr \<Rightarrow> store \<Rightarrow> int" where
  "next_revision library_id s =
     (case first_max run_snapshot_revision (filter (\<lambda>r. run_library_id r = library_id) (runs s)) of
        None \<Rightarrow> 1
      | Some r \<Rightarrow> (case run_snapshot_revision r of None \<Rightarrow> 1 | Some n \<Rightarrow> n + 1))"

definition count_kind :: "string \<Rightarrow> scan_entry list \<Rightarrow> scan_entry list \<Rightarrow> int" where
  "count_kind kind previous current =
     int (length (filter (\<lambda>e. map_option fst (change_of previous e) = Some kind) current))"

definition completed_row ::
  "int \<Rightarrow> scan_entry list \<Rightarrow> scan_entry list \<Rightarrow> run_row \<Rightarrow> run_row" where
  "completed_row revision previous current r =
     r\<lparr>run_snapshot_revision := Some revision, run_state := SCAN_COMPLETED, run_complete := True,
       run_error_code := None, run_added_count := count_kind ''added'' previous current,
       run_changed_count := count_kind ''changed'' previous current,
       run_removed_count :=
         int (length (filter (\<lambda>old. se_key old \<notin> set (map se_key current)) previous))\<rparr>"

definition record_snapshot ::
  "index_config \<Rightarrow> time \<Rightarrow> pystr \<Rightarrow> scan_entry list \<Rightarrow> scan_entry list \<Rightarrow> store \<Rightarrow> store" where
  "record_snapshot cfg clk rid previous current s =
     fold (record_removed (ic_library_id cfg) rid clk current) previous
       (fold (record_entry (ic_library_id cfg) rid clk previous) current
          (s\<lparr>diffs := filter (\<lambda>d. df_scan_run_id d \<noteq> rid) (diffs s)\<rparr>))"

definition complete_run :: "index_config \<Rightarrow> time \<Rightarrow> pystr \<Rightarrow> unit index_act" where
  "complete_run cfg clk rid s =
     (case row_of run_id rid (runs s) of
        None \<Rightarrow> (Inl (index_error_of ''scan_run_missing''), s)
      | Some r \<Rightarrow>
          if run_expected_total r \<noteq> None \<and> run_expected_total r \<noteq> Some (run_items_seen r)
          then (Inr (), put_run clk (\<lambda>r. r\<lparr>run_state := SCAN_FAILED, run_complete := False,
                                         run_error_code := Some (lit ''total_mismatch'')\<rparr>) rid s)
          else
            (let previous = (case previous_run cfg rid s of
                               None \<Rightarrow> [] | Some r' \<Rightarrow> run_entries (run_id r') s);
                 current = run_entries rid s
             in (Inr (), put_run clk (completed_row (next_revision (ic_library_id cfg) s) previous current) rid
                           (record_snapshot cfg clk rid previous current s))))"

section \<open>The result\<close>

record index_result =
  ix_run_id :: pystr
  ix_state :: scan_run_state
  ix_complete :: bool
  ix_pages_read :: int
  ix_items_seen :: int
  ix_snapshot_revision :: "int option"
  ix_added_count :: int
  ix_changed_count :: int
  ix_removed_count :: int
  ix_changes :: "(pystr \<times> pystr \<times> string \<times> bool) list"
  ix_deletion_candidates :: "pystr list"
  ix_error_code :: "pystr option"

definition reported_diffs :: "index_config \<Rightarrow> pystr \<Rightarrow> store \<Rightarrow> diff_row list" where
  "reported_diffs cfg rid s =
     take (nat (ic_max_changes cfg))
       (sort_key (\<lambda>d. (df_object_type d, df_object_id d)) (filter (\<lambda>d. df_scan_run_id d = rid) (diffs s)))"

definition result_of :: "index_config \<Rightarrow> store \<Rightarrow> run_row \<Rightarrow> index_result" where
  "result_of cfg s r =
     (let rows = (if run_complete r then reported_diffs cfg (run_id r) s else []) in
      \<lparr>ix_run_id = run_id r, ix_state = run_state r, ix_complete = run_complete r,
       ix_pages_read = run_pages_read r, ix_items_seen = run_items_seen r,
       ix_snapshot_revision = run_snapshot_revision r, ix_added_count = run_added_count r,
       ix_changed_count = run_changed_count r, ix_removed_count = run_removed_count r,
       ix_changes = map (\<lambda>d. (df_object_type d, df_object_id d, df_change_kind d, df_path_changed d)) rows,
       ix_deletion_candidates = map df_object_id (filter (\<lambda>d. df_change_kind d = ''removed'') rows),
       ix_error_code = run_error_code r\<rparr>)"

definition result_for_run :: "index_config \<Rightarrow> pystr \<Rightarrow> index_result index_act" where
  "result_for_run cfg rid s =
     (case row_of run_id rid (runs s) of
        None \<Rightarrow> (Inl (index_error_of ''scan_run_missing''), s)
      | Some r \<Rightarrow> (Inr (result_of cfg s r), s))"

section \<open>The scan\<close>

record 'w scan_world =
  sw_db :: store
  sw_clock :: time
  sw_remote :: 'w

type_synonym 'w index_gateway = "'w scan_world gateway"
type_synonym ('w, 'a) scan_act = "('w scan_world, index_error, 'a) act"

definition session :: "(time \<Rightarrow> 'a index_act) \<Rightarrow> ('w, 'a) scan_act" where
  "session f w = (case f (sw_clock w) (sw_db w) of (out, s) \<Rightarrow> (out, w\<lparr>sw_db := s\<rparr>))"

definition end_incomplete ::
  "index_config \<Rightarrow> pystr \<Rightarrow> scan_run_state \<Rightarrow> pystr \<Rightarrow> ('w, index_result) scan_act" where
  "end_incomplete cfg rid st code =
     sbind (session (\<lambda>clk. finish_incomplete clk rid st code)) (\<lambda>_.
     session (\<lambda>clk. result_for_run cfg rid))"

definition end_complete :: "index_config \<Rightarrow> pystr \<Rightarrow> ('w, index_result) scan_act" where
  "end_complete cfg rid =
     sbind (session (\<lambda>clk. complete_run cfg clk rid)) (\<lambda>_. session (\<lambda>clk. result_for_run cfg rid))"

fun index_code :: "index_error \<Rightarrow> pystr" where
  "index_code (IndexErr c) = c"
| "index_code IndexIntegrityErr = lit ''storage_error''"
| "index_code IndexStorageErr = lit ''storage_error''"

fun index_loop ::
  "index_config \<Rightarrow> 'w index_gateway \<Rightarrow> pystr \<Rightarrow> nat \<Rightarrow> int \<Rightarrow> int option \<Rightarrow> int option \<Rightarrow> 'w scan_world
    \<Rightarrow> ((index_error + index_result) \<times> 'w scan_world) option" where
  "index_loop cfg gw rid 0 n ec et w = None"
| "index_loop cfg gw rid (Suc fuel) n ec et w =
     (case gw (ic_root cfg) n (ic_page_size cfg) w of
        (GwCancelled, w1) \<Rightarrow> Some (end_incomplete cfg rid SCAN_CANCELLED (lit ''cancelled'') w1)
      | (GwError, w1) \<Rightarrow> Some (end_incomplete cfg rid SCAN_FAILED (lit ''gateway_error'') w1)
      | (GwPage p, w1) \<Rightarrow>
          (case validate_page (ic_root cfg) p n ec et of
             Inl e \<Rightarrow>
               Some (end_incomplete cfg rid
                 (if e = index_error_of ''cancelled'' then SCAN_CANCELLED else SCAN_FAILED) (index_code e) w1)
           | Inr (ec', et', ends) \<Rightarrow>
               (case session (\<lambda>clk. persist_page cfg clk rid p ec' et') w1 of
                  (Inl e, w2) \<Rightarrow> Some (end_incomplete cfg rid SCAN_FAILED (index_code e) w2)
                | (Inr _, w2) \<Rightarrow>
                    if ends then Some (end_complete cfg rid w2)
                    else index_loop cfg gw rid fuel (n + 1) ec' et' w2)))"

definition index_resume ::
  "index_config \<Rightarrow> 'w index_gateway \<Rightarrow> nat \<Rightarrow> run_row \<Rightarrow> 'w scan_world
    \<Rightarrow> ((index_error + index_result) \<times> 'w scan_world) option" where
  "index_resume cfg gw fuel r w =
     (case sbind (session (\<lambda>clk. mark_running clk (run_id r))) (\<lambda>_.
             session (\<lambda>clk. checkpoint_for_run (run_id r))) w of
        (Inl e, w1) \<Rightarrow> Some (Inl e, w1)
      | (Inr c, w1) \<Rightarrow>
          if run_expected_page_count r \<noteq> None \<and> run_expected_page_count r = Some (cp_page c)
          then Some (end_complete cfg (run_id r) w1)
          else index_loop cfg gw (run_id r) fuel (cp_page c + 1) (run_expected_page_count r)
                 (run_expected_total r) w1)"

definition index_scan ::
  "index_config \<Rightarrow> 'w index_gateway \<Rightarrow> nat \<Rightarrow> pystr \<Rightarrow> pystr \<Rightarrow> 'w scan_world
    \<Rightarrow> ((index_error + index_result) \<times> 'w scan_world) option" where
  "index_scan cfg gw fuel new_id key w =
     (if \<not> index_key key then Some (Inl (index_error_of ''invalid_idempotency_key''), w)
      else
        (case sbind (session (\<lambda>clk. verify_index_scope cfg)) (\<lambda>_.
                session (get_or_create_run cfg key new_id)) w of
           (Inl e, w1) \<Rightarrow> Some (Inl e, w1)
         | (Inr r, w1) \<Rightarrow>
             if run_complete r \<and> run_state r = SCAN_COMPLETED
             then Some (session (\<lambda>clk. result_for_run cfg (run_id r)) w1)
             else index_resume cfg gw fuel r w1))"

end
