(* ===== verification/Index_Steps.thy ===== *)
theory Index_Steps
  imports Library_Index
begin

text \<open>
  The transactions of the index service as a step relation, and what every scan is: a sequence
  of such steps.  With the flag set, a step works on a run that is not complete yet, as every
  scan does that is alone with its database.
\<close>

section \<open>Steps\<close>

definition own_run :: "bool \<Rightarrow> index_config \<Rightarrow> pystr \<Rightarrow> store \<Rightarrow> bool" where
  "own_run b cfg rid s \<longleftrightarrow>
     (\<forall>r. row_of run_id rid (runs s) = Some r \<longrightarrow>
        run_library_id r = ic_library_id cfg \<and> run_root_directory_id r = ic_root cfg
        \<and> (b \<longrightarrow> \<not> run_complete r))"

inductive index_step :: "bool \<Rightarrow> index_config \<Rightarrow> store \<Rightarrow> store \<Rightarrow> bool" for b cfg where
  step_create: "verify_index_scope cfg s = (Inr (), s)
    \<Longrightarrow> get_or_create_run cfg key new_id clk s = (out, s') \<Longrightarrow> index_step b cfg s s'"
| step_mark: "own_run b cfg rid s \<Longrightarrow> mark_running clk rid s = (out, s') \<Longrightarrow> index_step b cfg s s'"
| step_page: "own_run b cfg rid s \<Longrightarrow> validate_page (ic_root cfg) p n ec et = Inr (ec', et', ends)
    \<Longrightarrow> persist_page cfg clk rid p ec' et' s = (out, s') \<Longrightarrow> index_step b cfg s s'"
| step_finish: "own_run b cfg rid s \<Longrightarrow> st \<noteq> SCAN_COMPLETED
    \<Longrightarrow> finish_incomplete clk rid st code s = (out, s') \<Longrightarrow> index_step b cfg s s'"
| step_complete: "own_run b cfg rid s \<Longrightarrow> complete_run cfg clk rid s = (out, s') \<Longrightarrow> index_step b cfg s s'"

inductive index_steps :: "bool \<Rightarrow> store \<Rightarrow> store \<Rightarrow> bool" for b where
  steps_none: "index_steps b s s"
| steps_more: "index_steps b s s1 \<Longrightarrow> index_step b cfg s1 s2 \<Longrightarrow> index_steps b s s2"

lemma index_steps_trans: "index_steps b s1 s2 \<Longrightarrow> index_steps b s s1 \<Longrightarrow> index_steps b s s2"
  by (induction rule: index_steps.induct) (auto intro: steps_more)

lemma index_steps_one: "index_step b cfg s s' \<Longrightarrow> index_steps b s s'"
  by (rule steps_more[OF steps_none])

section \<open>A run keeps its name\<close>

definition run_named :: "run_row \<Rightarrow> run_row \<Rightarrow> bool" where
  "run_named r r' \<longleftrightarrow>
     run_id r' = run_id r \<and> run_library_id r' = run_library_id r
     \<and> run_root_directory_id r' = run_root_directory_id r
     \<and> run_idempotency_key r' = run_idempotency_key r"

lemma run_named_refl [simp]: "run_named r r" by (simp add: run_named_def)

lemma run_named_touched [simp]: "run_named r (touched clk r r') = run_named r r'"
  by (simp add: touched_def run_named_def)

lemma touched_simps [simp]:
  "run_id (touched clk r r') = run_id r'"
  "run_library_id (touched clk r r') = run_library_id r'"
  "run_root_directory_id (touched clk r r') = run_root_directory_id r'"
  "run_state (touched clk r r') = run_state r'"
  "run_complete (touched clk r r') = run_complete r'"
  "run_snapshot_revision (touched clk r r') = run_snapshot_revision r'"
  "run_expected_page_count (touched clk r r') = run_expected_page_count r'"
  "run_expected_total (touched clk r r') = run_expected_total r'"
  "run_pages_read (touched clk r r') = run_pages_read r'"
  "run_items_seen (touched clk r r') = run_items_seen r'"
  "run_idempotency_key (touched clk r r') = run_idempotency_key r'"
  "run_error_code (touched clk r r') = run_error_code r'"
  "run_added_count (touched clk r r') = run_added_count r'"
  "run_changed_count (touched clk r r') = run_changed_count r'"
  "run_removed_count (touched clk r r') = run_removed_count r'"
  by (auto simp: touched_def)

lemma runs_put_run:
  assumes "\<And>r. run_id (f r) = run_id r"
  shows "row_of run_id k (runs (put_run clk f rid s))
    = map_option (\<lambda>r. if run_id r = rid then touched clk r (f r) else r) (row_of run_id k (runs s))"
  unfolding put_run_def by (simp add: row_of_update assms)

lemma put_run_simps [simp]:
  "libraries (put_run clk f rid s) = libraries s" "scan_entries (put_run clk f rid s) = scan_entries s"
  "checkpoints (put_run clk f rid s) = checkpoints s" "diffs (put_run clk f rid s) = diffs s"
  "ledger (put_run clk f rid s) = ledger s" "plans (put_run clk f rid s) = plans s"
  "ops (put_run clk f rid s) = ops s" "events (put_run clk f rid s) = events s"
  "inventory_events (put_run clk f rid s) = inventory_events s"
  "media_identities (put_run clk f rid s) = media_identities s"
  by (simp_all add: put_run_def)

section \<open>Recording leaves the scan tables alone\<close>

lemma record_frame [simp]:
  "runs (record_inventory_event l r e k p s) = runs s"
  "libraries (record_inventory_event l r e k p s) = libraries s"
  "scan_entries (record_inventory_event l r e k p s) = scan_entries s"
  "checkpoints (record_inventory_event l r e k p s) = checkpoints s"
  "ledger (record_inventory_event l r e k p s) = ledger s"
  "diffs (record_inventory_event l r e k p s) = diffs s"
  "plans (record_inventory_event l r e k p s) = plans s"
  "runs (put_ledger q f s) = runs s" "libraries (put_ledger q f s) = libraries s"
  "scan_entries (put_ledger q f s) = scan_entries s" "checkpoints (put_ledger q f s) = checkpoints s"
  "diffs (put_ledger q f s) = diffs s" "plans (put_ledger q f s) = plans s"
  by (simp_all add: record_inventory_event_def put_ledger_def)

definition scan_tables :: "store \<Rightarrow> store \<Rightarrow> bool" where
  "scan_tables s s' \<longleftrightarrow> runs s' = runs s \<and> libraries s' = libraries s \<and> scan_entries s' = scan_entries s
     \<and> checkpoints s' = checkpoints s \<and> plans s' = plans s"

lemma record_tables:
  "scan_tables s (record_entry lib rid clk prev e s)"
  "scan_tables s (record_removed lib rid clk cur e s)"
  by (auto simp: scan_tables_def record_entry_def record_removed_def record_observation_def
      record_removal_def add_diff_def Let_def split: option.splits)

lemma fold_tables: "(\<And>e s. scan_tables s (f e s)) \<Longrightarrow> scan_tables s (fold f es s)"
proof (induction es arbitrary: s)
  case Nil
  then show ?case by (simp add: scan_tables_def)
next
  case (Cons e es)
  then have "scan_tables (f e s) (fold f es (f e s))" "scan_tables s (f e s)" by blast+
  then show ?case by (simp add: scan_tables_def)
qed

lemma snapshot_tables [simp]:
  "runs (record_snapshot cfg clk rid prev cur s) = runs s"
  "libraries (record_snapshot cfg clk rid prev cur s) = libraries s"
  "scan_entries (record_snapshot cfg clk rid prev cur s) = scan_entries s"
  "checkpoints (record_snapshot cfg clk rid prev cur s) = checkpoints s"
  "plans (record_snapshot cfg clk rid prev cur s) = plans s"
proof -
  let ?s0 = "s\<lparr>diffs := filter (\<lambda>d. df_scan_run_id d \<noteq> rid) (diffs s)\<rparr>"
  let ?s1 = "fold (record_entry (ic_library_id cfg) rid clk prev) cur ?s0"
  have "scan_tables ?s0 ?s1" by (rule fold_tables, rule record_tables(1))
  moreover have "scan_tables ?s1 (record_snapshot cfg clk rid prev cur s)"
    unfolding record_snapshot_def by (rule fold_tables, rule record_tables(2))
  ultimately have "scan_tables s (record_snapshot cfg clk rid prev cur s)" by (simp add: scan_tables_def)
  then show "runs (record_snapshot cfg clk rid prev cur s) = runs s"
    "libraries (record_snapshot cfg clk rid prev cur s) = libraries s"
    "scan_entries (record_snapshot cfg clk rid prev cur s) = scan_entries s"
    "checkpoints (record_snapshot cfg clk rid prev cur s) = checkpoints s"
    "plans (record_snapshot cfg clk rid prev cur s) = plans s"
    by (simp_all add: scan_tables_def)
qed

section \<open>What a step changes\<close>

lemma completed_row_simps [simp]:
  "run_id (completed_row n p c r) = run_id r" "run_library_id (completed_row n p c r) = run_library_id r"
  "run_root_directory_id (completed_row n p c r) = run_root_directory_id r"
  "run_idempotency_key (completed_row n p c r) = run_idempotency_key r"
  "run_state (completed_row n p c r) = SCAN_COMPLETED" "run_complete (completed_row n p c r)"
  "run_snapshot_revision (completed_row n p c r) = Some n"
  "run_items_seen (completed_row n p c r) = run_items_seen r"
  by (simp_all add: completed_row_def)

text \<open>Every step but the creation of a run rewrites at most the row of one run.\<close>

definition run_rewritten :: "bool \<Rightarrow> index_config \<Rightarrow> store \<Rightarrow> store \<Rightarrow> bool" where
  "run_rewritten b cfg s s' \<longleftrightarrow>
     (\<exists>f rid clk. (\<forall>r. run_named r (f r)) \<and> own_run b cfg rid s
        \<and> runs s' = update_where (\<lambda>r. run_id r = rid) (\<lambda>r. touched clk r (f r)) (runs s))"

lemma run_rewrittenI:
  "own_run b cfg rid s \<Longrightarrow> (\<And>r. run_named r (f r))
    \<Longrightarrow> runs s' = update_where (\<lambda>r. run_id r = rid) (\<lambda>r. touched clk r (f r)) (runs s)
    \<Longrightarrow> run_rewritten b cfg s s'"
  unfolding run_rewritten_def by blast

definition run_added :: "index_config \<Rightarrow> store \<Rightarrow> store \<Rightarrow> bool" where
  "run_added cfg s s' \<longleftrightarrow>
     (\<exists>key rid clk. runs s' = runs s @ [fresh_run cfg key rid clk] \<and> rid \<notin> run_id ` set (runs s)
        \<and> keyed_run cfg key s = None \<and> verify_index_scope cfg s = (Inr (), s))"

lemma update_run_cases:
  assumes "update_run clk f rid s = (out, s')"
  shows "s' = s \<or> s' = put_run clk f rid s"
  using assms by (auto simp: update_run_def split: option.splits)

lemma runs_of_put_run:
  "runs (put_run clk f rid s) = update_where (\<lambda>r. run_id r = rid) (\<lambda>r. touched clk r (f r)) (runs s)"
  by (simp add: put_run_def)

lemma put_run_rewritten:
  "own_run b cfg rid s \<Longrightarrow> (\<And>r. run_named r (f r)) \<Longrightarrow> run_rewritten b cfg s (put_run clk f rid s)"
  by (rule run_rewrittenI[OF _ _ runs_of_put_run])

definition paged_row :: "int option \<Rightarrow> int option \<Rightarrow> int \<Rightarrow> int \<Rightarrow> run_row \<Rightarrow> run_row" where
  "paged_row ec et n seen r =
     r\<lparr>run_expected_page_count := ec, run_expected_total := et, run_pages_read := n, run_items_seen := seen\<rparr>"

text \<open>The rows of a page that is stored, without the order in which a refusal is found out.\<close>

fun plain_rows ::
  "pystr \<Rightarrow> (pystr \<times> pystr) list \<Rightarrow> lib_entry list \<Rightarrow> index_error + scan_entry list" where
  "plain_rows rid seen [] = Inr []"
| "plain_rows rid seen (e # es) =
     rbind (entry_identity e) (\<lambda>k.
     if k \<in> set seen then Inl (index_error_of ''repeated_entry'')
     else map_sum id (Cons (scan_entry_of rid k e)) (plain_rows rid (k # seen) es))"

lemma map_sum_eq: "map_sum g f x = Inr y \<longleftrightarrow> (\<exists>z. x = Inr z \<and> y = f z)"
  by (cases x) auto

lemma page_rows_plain:
  "page_rows refuses rid old seen refused es = Inr rows
    \<longleftrightarrow> \<not> refused \<and> plain_rows rid (seen @ old) es = Inr rows \<and> \<not> list_ex refuses rows"
proof (induction es arbitrary: seen refused rows)
  case (Cons e es)
  show ?case
    by (cases "entry_identity e") (auto simp: rbind_def Cons.IH map_sum_eq)
qed auto

lemma persist_cases:
  assumes "persist_page cfg clk rid p ec et s = (out, s')"
  shows "(\<exists>e. out = Inl e) \<and> s' = s
    \<or> (\<exists>r c rows. out = Inr () \<and> row_of run_id rid (runs s) = Some r
        \<and> row_of cp_scan_run_id rid (checkpoints s) = Some c
        \<and> plain_rows rid (map se_key (run_entries rid s)) (dp_items p) = Inr rows
        \<and> \<not> list_ex (ic_refuses cfg) rows
        \<and> s' = (put_run clk (paged_row ec et (dp_page p) (cp_items_seen c + int (length (dp_items p)))) rid s)
              \<lparr>scan_entries := scan_entries s @ rows,
               checkpoints := update_where (\<lambda>c. cp_scan_run_id c = rid)
                 (\<lambda>d. d\<lparr>cp_page := dp_page p, cp_items_seen := cp_items_seen c + int (length (dp_items p))\<rparr>)
                 (checkpoints s)\<rparr>)"
  using assms
  by (auto simp: persist_page_def Let_def paged_row_def[abs_def] page_rows_plain split: option.splits sum.splits)

lemma complete_cases:
  assumes "complete_run cfg clk rid s = (out, s')"
  obtains "row_of run_id rid (runs s) = None" "s' = s" "out = Inl (index_error_of ''scan_run_missing'')"
  | r where "row_of run_id rid (runs s) = Some r" "out = Inr ()"
      "run_expected_total r \<noteq> None" "run_expected_total r \<noteq> Some (run_items_seen r)"
      "s' = put_run clk (\<lambda>r. r\<lparr>run_state := SCAN_FAILED, run_complete := False,
              run_error_code := Some (lit ''total_mismatch'')\<rparr>) rid s"
  | r previous where "row_of run_id rid (runs s) = Some r" "out = Inr ()"
      "run_expected_total r = None \<or> run_expected_total r = Some (run_items_seen r)"
      "previous = (case previous_run cfg rid s of None \<Rightarrow> [] | Some r' \<Rightarrow> run_entries (run_id r') s)"
      "s' = put_run clk (completed_row (next_revision (ic_library_id cfg) s) previous (run_entries rid s)) rid
              (record_snapshot cfg clk rid previous (run_entries rid s) s)"
  using assms by (auto simp: complete_run_def Let_def split: option.splits if_splits)

lemma create_cases:
  assumes "get_or_create_run cfg key new_id clk s = (out, s')"
  shows "s' = s \<or> (keyed_run cfg key s = None \<and> new_id \<notin> run_id ` set (runs s)
      \<and> row_of lib_id (ic_library_id cfg) (libraries s) \<noteq> None \<and> out = Inr (fresh_run cfg key new_id clk)
      \<and> s' = s\<lparr>runs := runs s @ [fresh_run cfg key new_id clk],
             checkpoints := checkpoints s @ [\<lparr>cp_scan_run_id = new_id, cp_page = 0, cp_items_seen = 0\<rparr>]\<rparr>)"
  using assms by (auto simp: get_or_create_run_def split: option.splits if_splits)

lemma step_runs:
  assumes "index_step b cfg s s'"
  shows "libraries s' = libraries s" and "plans s' = plans s"
    and "run_added cfg s s' \<or> run_rewritten b cfg s s' \<or> runs s' = runs s"
proof -
  have marked: "run_named r (r\<lparr>run_state := SCAN_RUNNING, run_error_code := None\<rparr>)"
    and finished: "run_named r (r\<lparr>run_state := st, run_complete := False, run_error_code := code\<rparr>)"
    and paged: "run_named r (paged_row ec et n seen r)" and completed: "run_named r (completed_row n prev cur r)"
    for r st code ec et n seen prev cur
    by (simp_all add: run_named_def paged_row_def)
  from assms have "libraries s' = libraries s \<and> plans s' = plans s
    \<and> (run_added cfg s s' \<or> run_rewritten b cfg s s' \<or> runs s' = runs s)"
  proof cases
    case (step_create key new_id clk out)
    have "run_added cfg s s'" if "keyed_run cfg key s = None" "new_id \<notin> run_id ` set (runs s)"
      "runs s' = runs s @ [fresh_run cfg key new_id clk]"
      unfolding run_added_def using that step_create(1) by blast
    with create_cases[OF step_create(2)] show ?thesis by auto
  next
    case (step_mark rid clk out)
    with update_run_cases[of clk _ rid s out s'] marked show ?thesis
      unfolding mark_running_def by (metis put_run_rewritten put_run_simps(1,6))
  next
    case (step_page rid p n ec et ec' et' ends clk out)
    from persist_cases[OF step_page(3)] show ?thesis
      by (elim disjE exE conjE) (simp_all add: run_rewrittenI[OF step_page(1) paged] runs_of_put_run)
  next
    case (step_finish rid st clk code out)
    with update_run_cases[of clk _ rid s out s'] finished show ?thesis
      unfolding finish_incomplete_def by (metis put_run_rewritten put_run_simps(1,6))
  next
    case (step_complete rid clk out)
    from step_complete(2) show ?thesis
      by (cases rule: complete_cases)
        (simp_all add: put_run_rewritten[OF step_complete(1) finished]
          run_rewrittenI[OF step_complete(1) completed] runs_of_put_run)
  qed
  then show "libraries s' = libraries s" "plans s' = plans s"
    "run_added cfg s s' \<or> run_rewritten b cfg s s' \<or> runs s' = runs s" by simp_all
qed

lemma own_run_step:
  assumes "index_step b cfg s s'" and "own_run False cfg' rid s" and "row_of run_id rid (runs s) \<noteq> None"
  shows "own_run False cfg' rid s' \<and> row_of run_id rid (runs s') \<noteq> None"
proof -
  have upd: "row_of run_id rid (update_where (\<lambda>r. run_id r = k) (\<lambda>r. touched clk r (f r)) (runs s))
      = map_option (\<lambda>r. if run_id r = k then touched clk r (f r) else r) (row_of run_id rid (runs s))"
    if "\<forall>r. run_named r (f r)" for k clk f
    using that by (intro row_of_update) (simp add: run_named_def)
  from step_runs(3)[OF assms(1)] show ?thesis
  proof (elim disjE)
    assume "run_rewritten b cfg s s'"
    then obtain f k clk where f: "\<forall>r. run_named r (f r)"
      "runs s' = update_where (\<lambda>r. run_id r = k) (\<lambda>r. touched clk r (f r)) (runs s)"
      unfolding run_rewritten_def by blast
    show ?thesis unfolding f(2) own_run_def upd[OF f(1)]
      using assms(2,3) f(1) by (auto simp: own_run_def run_named_def)
  qed (use assms(2,3) in \<open>auto simp: own_run_def run_added_def row_of_append split: option.splits\<close>)
qed

section \<open>A scan is a sequence of steps\<close>

lemma session_Some: "session f w = (out, w') \<Longrightarrow> f (sw_clock w) (sw_db w) = (out, sw_db w')"
  by (auto simp: session_def split: prod.splits)

lemma result_for_run_same: "result_for_run cfg rid s = (out, s') \<Longrightarrow> s' = s"
  by (auto simp: result_for_run_def split: option.splits)

text \<open>With the flag, nothing else writes while an answer is waited for.\<close>

definition good_gateway :: "bool \<Rightarrow> 'w index_gateway \<Rightarrow> bool" where
  "good_gateway b gw \<longleftrightarrow>
     (\<forall>d n z w. if b then sw_db (snd (gw d n z w)) = sw_db w
                else index_steps False (sw_db w) (sw_db (snd (gw d n z w))))"

definition ready :: "bool \<Rightarrow> index_config \<Rightarrow> pystr \<Rightarrow> store \<Rightarrow> bool" where
  "ready b cfg rid s \<longleftrightarrow> own_run b cfg rid s \<and> row_of run_id rid (runs s) \<noteq> None"

lemma ready_steps: "index_steps b s s' \<Longrightarrow> ready False cfg rid s \<Longrightarrow> ready False cfg rid s'"
  by (induction rule: index_steps.induct) (auto simp: ready_def dest: own_run_step)

lemma gateway_steps:
  assumes "good_gateway b gw" "gw d n z w = (rep, w')"
  shows "index_steps b (sw_db w) (sw_db w')"
  using assms by (cases b) (auto simp: good_gateway_def steps_none dest: spec[of _ d] split: if_splits,
      metis snd_conv steps_none, metis snd_conv)

lemma gateway_ready:
  assumes "good_gateway b gw" "gw d n z w = (rep, w')" "ready b cfg rid (sw_db w)"
  shows "ready b cfg rid (sw_db w')"
proof (cases b)
  case True
  with assms have "sw_db w' = sw_db w" by (metis good_gateway_def snd_conv)
  with assms(3) show ?thesis by simp
next
  case False
  with ready_steps[OF gateway_steps[OF assms(1,2)]] assms(3) show ?thesis by simp
qed

lemma persist_ready:
  assumes "persist_page cfg clk rid p ec et s = (out, s')" "ready b cfg rid s"
  shows "ready b cfg rid s'"
  using persist_cases[OF assms(1)] assms(2)
  by (auto simp: ready_def own_run_def runs_put_run paged_row_def split: if_splits)

lemma mark_ready:
  assumes "mark_running clk rid s = (out, s')" "ready b cfg rid s"
  shows "ready b cfg rid s'"
  using update_run_cases[OF assms(1)[unfolded mark_running_def]] assms(2)
  by (auto simp: ready_def own_run_def runs_put_run split: if_splits)

lemma session_result_same:
  "session (\<lambda>clk. result_for_run cfg rid) w = (out, w') \<Longrightarrow> sw_db w' = sw_db w"
  by (drule session_Some) (simp add: result_for_run_same)

lemma end_incomplete_steps:
  assumes "end_incomplete cfg rid st code w = (out, w')" "ready b cfg rid (sw_db w)" "st \<noteq> SCAN_COMPLETED"
  shows "index_step b cfg (sw_db w) (sw_db w')"
proof -
  obtain o1 w1 where f: "session (\<lambda>clk. finish_incomplete clk rid st code) w = (o1, w1)" by fastforce
  have "sw_db w' = sw_db w1"
    using assms(1) f session_result_same by (auto simp: end_incomplete_def sbind_def split: sum.splits)
  with step_finish[OF _ assms(3) session_Some[OF f]] assms(2) show ?thesis by (simp add: ready_def)
qed

lemma end_complete_steps:
  assumes "end_complete cfg rid w = (out, w')" "ready b cfg rid (sw_db w)"
  shows "index_step b cfg (sw_db w) (sw_db w')"
proof -
  obtain o1 w1 where f: "session (\<lambda>clk. complete_run cfg clk rid) w = (o1, w1)" by fastforce
  have "sw_db w' = sw_db w1"
    using assms(1) f session_result_same by (auto simp: end_complete_def sbind_def split: sum.splits)
  with step_complete[OF _ session_Some[OF f]] assms(2) show ?thesis by (simp add: ready_def)
qed

text \<open>How a scan ends: a last transaction on a run that is still its own, and the result.\<close>

definition scan_end ::
  "index_config \<Rightarrow> pystr \<Rightarrow> 'w scan_world \<Rightarrow> (index_error + index_result) \<Rightarrow> 'w scan_world \<Rightarrow> bool" where
  "scan_end cfg rid w out w' \<longleftrightarrow>
     end_complete cfg rid w = (out, w')
     \<or> (\<exists>st code. st \<noteq> SCAN_COMPLETED \<and> end_incomplete cfg rid st code w = (out, w'))"

lemma scan_end_step: "scan_end cfg rid w out w' \<Longrightarrow> ready b cfg rid (sw_db w) \<Longrightarrow> index_step b cfg (sw_db w) (sw_db w')"
  unfolding scan_end_def by (auto dest: end_complete_steps end_incomplete_steps)

lemma index_loop_ends:
  assumes "index_loop cfg gw rid fuel n ec et w = Some (out, w')" "good_gateway b gw" "ready b cfg rid (sw_db w)"
  obtains w1 where "index_steps b (sw_db w) (sw_db w1)" "ready b cfg rid (sw_db w1)" "scan_end cfg rid w1 out w'"
proof -
  have "\<exists>w1. index_steps b (sw_db w) (sw_db w1) \<and> ready b cfg rid (sw_db w1) \<and> scan_end cfg rid w1 out w'"
    using assms(1,3)
  proof (induction fuel arbitrary: n ec et w)
    case (Suc fuel)
    obtain rep w1 where g: "gw (ic_root cfg) n (ic_page_size cfg) w = (rep, w1)" by fastforce
    note s1 = gateway_steps[OF assms(2) g] gateway_ready[OF assms(2) g Suc.prems(2)]
    have incomplete: ?case
      if "end_incomplete cfg rid st code w2 = (out, w')" "st \<noteq> SCAN_COMPLETED" "sw_db w2 = sw_db w1" for st code w2
    proof -
      have "index_steps b (sw_db w) (sw_db w2)" "ready b cfg rid (sw_db w2)" using s1 that(3) by simp_all
      with that(1,2) show ?thesis unfolding scan_end_def by blast
    qed
    show ?case
    proof (cases rep)
      case (GwPage p)
      show ?thesis
      proof (cases "validate_page (ic_root cfg) p n ec et")
        case (Inl e)
        with Suc.prems(1) g GwPage incomplete[of "if e = index_error_of ''cancelled'' then SCAN_CANCELLED else SCAN_FAILED"]
        show ?thesis by simp
      next
        case (Inr v)
        obtain ec' et' ends where v: "v = (ec', et', ends)" by (cases v)
        obtain o2 w2 where p2: "session (\<lambda>clk. persist_page cfg clk rid p ec' et') w1 = (o2, w2)" by fastforce
        note pp = session_Some[OF p2]
        have step: "index_step b cfg (sw_db w1) (sw_db w2)"
          using step_page[OF _ Inr[unfolded v] pp] s1(2) by (simp add: ready_def)
        note steps = steps_more[OF s1(1) step] and r2 = persist_ready[OF pp s1(2)]
        note prems = Suc.prems(1) g GwPage Inr v p2
        show ?thesis
        proof (cases o2)
          case (Inl e)
          then have "sw_db w2 = sw_db w1" using persist_cases[OF pp] by auto
          with prems Inl incomplete[of SCAN_FAILED] show ?thesis by simp
        next
          case (Inr _)
          show ?thesis
          proof (cases ends)
            case True
            with prems Inr have "end_complete cfg rid w2 = (out, w')" by simp
            with steps r2 show ?thesis unfolding scan_end_def by blast
          next
            case False
            with prems Inr have "index_loop cfg gw rid fuel (n + 1) ec' et' w2 = Some (out, w')" by simp
            from Suc.IH[OF this r2] index_steps_trans[OF _ steps] show ?thesis by blast
          qed
        qed
      qed
    qed (use Suc.prems(1) g incomplete in simp_all)
  qed simp
  with that show thesis by blast
qed

lemma keyed_run_Some:
  assumes "keyed_run cfg key s = Some r"
  shows "r \<in> set (runs s)" "run_library_id r = ic_library_id cfg" "run_idempotency_key r = key"
  using assms unfolding keyed_run_def find_Some_iff by (auto simp: in_set_conv_nth)

lemma created_ready:
  assumes "get_or_create_run cfg key new_id clk s = (Inr r, s')" and "distinct (map run_id (runs s))"
    and "b \<Longrightarrow> \<not> run_complete r"
  shows "row_of run_id (run_id r) (runs s') = Some r" and "ready b cfg (run_id r) s'"
proof -
  have fresh: "row_of run_id i (runs s) = None" if "i \<notin> run_id ` set (runs s)" for i
    using that by (simp add: row_of_None)
  have "row_of run_id (run_id r) (runs s') = Some r \<and> run_library_id r = ic_library_id cfg
      \<and> run_root_directory_id r = ic_root cfg"
  proof (cases "keyed_run cfg key s")
    case None
    with assms(1) fresh show ?thesis
      by (auto simp: get_or_create_run_def fresh_run_def row_of_append split: if_splits option.splits)
  next
    case (Some q)
    with assms(1) have "q = r" "s' = s" "run_root_directory_id r = ic_root cfg"
      by (auto simp: get_or_create_run_def split: if_splits)
    with keyed_run_Some[OF Some] row_of_unique[OF assms(2)] show ?thesis by simp
  qed
  then show "row_of run_id (run_id r) (runs s') = Some r" "ready b cfg (run_id r) s'"
    using assms(3) by (auto simp: ready_def own_run_def)
qed

lemma index_resume_ends:
  assumes "index_resume cfg gw fuel r w = Some (out, w')" and "good_gateway b gw"
    and "ready b cfg (run_id r) (sw_db w)"
  shows "(\<exists>w1. index_steps b (sw_db w) (sw_db w1) \<and> ready b cfg (run_id r) (sw_db w1)
      \<and> scan_end cfg (run_id r) w1 out w')
    \<or> (index_steps b (sw_db w) (sw_db w') \<and> (\<exists>e. out = Inl e))"
proof -
  obtain o1 w1 where m: "session (\<lambda>clk. mark_running clk (run_id r)) w = (o1, w1)" by fastforce
  note mark = session_Some[OF m]
  have r1: "ready b cfg (run_id r) (sw_db w1)" by (rule mark_ready[OF mark assms(3)])
  have s1: "index_steps b (sw_db w) (sw_db w1)"
    using index_steps_one[OF step_mark[of b cfg, OF _ mark]] assms(3) by (simp add: ready_def)
  show ?thesis
  proof (cases o1)
    case (Inl e)
    with assms(1) m s1 show ?thesis by (auto simp: index_resume_def sbind_def)
  next
    case (Inr _)
    show ?thesis
    proof (cases "row_of cp_scan_run_id (run_id r) (checkpoints (sw_db w1))")
      case None
      with assms(1) m Inr s1 show ?thesis
        by (auto simp: index_resume_def sbind_def session_def checkpoint_for_run_def)
    next
      case (Some c)
      then have cp: "session (\<lambda>clk. checkpoint_for_run (run_id r)) w1 = (Inr c, w1)"
        by (simp add: session_def checkpoint_for_run_def)
      show ?thesis
      proof (cases "run_expected_page_count r \<noteq> None \<and> run_expected_page_count r = Some (cp_page c)")
        case True
        with assms(1) m Inr cp have "end_complete cfg (run_id r) w1 = (out, w')"
          by (simp add: index_resume_def sbind_def)
        with s1 r1 show ?thesis unfolding scan_end_def by blast
      next
        case False
        with assms(1) m Inr cp have "index_loop cfg gw (run_id r) fuel (cp_page c + 1)
            (run_expected_page_count r) (run_expected_total r) w1 = Some (out, w')"
          by (auto simp: index_resume_def sbind_def)
        from index_loop_ends[OF this assms(2) r1] index_steps_trans[OF _ s1] show ?thesis by metis
      qed
    qed
  qed
qed

text \<open>The run of a key stays the run of the key.\<close>

lemma keyed_run_append: "keyed_run cfg key (s\<lparr>runs := runs s @ [r]\<rparr>) =
  (case keyed_run cfg key s of Some q \<Rightarrow> Some q
   | None \<Rightarrow> if run_library_id r = ic_library_id cfg \<and> run_idempotency_key r = key then Some r else None)"
proof -
  have "find P (xs @ [r]) = (case find P xs of Some q \<Rightarrow> Some q | None \<Rightarrow> if P r then Some r else None)"
    for P and xs :: "run_row list"
    by (induction xs) auto
  then show ?thesis by (simp add: keyed_run_def)
qed

lemma find_named:
  assumes "list_all2 run_named rs rs'" and "find (\<lambda>r. run_library_id r = l \<and> run_idempotency_key r = k) rs = Some r"
  shows "\<exists>r'. find (\<lambda>r. run_library_id r = l \<and> run_idempotency_key r = k) rs' = Some r' \<and> run_named r r'"
  using assms by (induction rs rs' rule: list_all2_induct) (auto simp: run_named_def split: if_splits)

lemma keyed_run_step:
  assumes "index_step b cfg' s s'" and "keyed_run cfg key s = Some r"
  shows "\<exists>r'. keyed_run cfg key s' = Some r' \<and> run_named r r'"
proof -
  have same: ?thesis if "runs s' = runs s" using that assms(2) by (simp add: keyed_run_def)
  have added: ?thesis if "runs s' = runs s @ [q]" for q
    using keyed_run_append[of cfg key s q] that assms(2) by (simp add: keyed_run_def)
  have named: ?thesis if "list_all2 run_named (runs s) (runs s')"
    using find_named[OF that] assms(2) by (simp add: keyed_run_def)
  from step_runs(3)[OF assms(1)] show ?thesis
  proof (elim disjE)
    assume "run_added cfg' s s'"
    then show ?thesis unfolding run_added_def using added by blast
  next
    assume "run_rewritten b cfg' s s'"
    then have "list_all2 run_named (runs s) (runs s')"
      by (auto simp: run_rewritten_def list_all2_conv_all_nth update_where_def)
    then show ?thesis by (rule named)
  qed (rule same)
qed

lemma keyed_run_steps:
  assumes "index_steps b s s'" and "keyed_run cfg key s = Some r"
  shows "\<exists>r'. keyed_run cfg key s' = Some r' \<and> run_named r r'"
  using assms
proof (induction rule: index_steps.induct)
  case (steps_more s s1 cfg' s2)
  then obtain r1 where r1: "keyed_run cfg key s1 = Some r1" "run_named r r1" by blast
  from keyed_run_step[OF steps_more.hyps(2) r1(1)] r1(2) show ?case by (auto simp: run_named_def)
qed auto

text \<open>A scan that is no repetition: it creates or finds its run and works on it.\<close>

lemma index_scan_ends:
  assumes "index_scan cfg gw fuel new_id key w = Some (out, w')" and "good_gateway b gw"
    and "b \<longrightarrow> (\<forall>r \<in> set (runs (sw_db w)). run_complete r \<longrightarrow> run_state r = SCAN_COMPLETED)"
    and "distinct (map run_id (runs (sw_db w)))"
  shows "(\<exists>r. keyed_run cfg key (sw_db w) = Some r \<and> run_complete r \<and> run_state r = SCAN_COMPLETED
        \<and> sw_db w' = sw_db w \<and> (out, sw_db w') = result_for_run cfg (run_id r) (sw_db w))
    \<or> (\<exists>r w1. index_steps b (sw_db w) (sw_db w1) \<and> ready b cfg (run_id r) (sw_db w1)
        \<and> (keyed_run cfg key (sw_db w) = Some r \<or> keyed_run cfg key (sw_db w) = None \<and> run_id r = new_id)
        \<and> verify_index_scope cfg (sw_db w) = (Inr (), sw_db w) \<and> scan_end cfg (run_id r) w1 out w'
        \<and> (\<exists>r1. keyed_run cfg key (sw_db w1) = Some r1 \<and> run_id r1 = run_id r))
    \<or> (index_steps b (sw_db w) (sw_db w') \<and> (\<exists>e. out = Inl e))"
proof (cases "index_key key")
  case False
  with assms(1) show ?thesis by (auto simp: index_scan_def intro: steps_none)
next
  case True
  obtain o1 w1 where c: "sbind (session (\<lambda>clk. verify_index_scope cfg)) (\<lambda>_.
      session (get_or_create_run cfg key new_id)) w = (o1, w1)" by fastforce
  have "sw_db w1 = sw_db w \<and> (\<forall>r. o1 \<noteq> Inr r) \<or>
    (verify_index_scope cfg (sw_db w) = (Inr (), sw_db w)
      \<and> get_or_create_run cfg key new_id (sw_clock w) (sw_db w) = (o1, sw_db w1))"
    using c by (auto simp: sbind_def session_def verify_index_scope_def split: prod.splits sum.splits
        option.splits if_splits)
  then show ?thesis
  proof (elim disjE conjE)
    assume "sw_db w1 = sw_db w" "\<forall>r. o1 \<noteq> Inr r"
    with assms(1) c True show ?thesis by (cases o1) (auto simp: index_scan_def intro: steps_none)
  next
    assume v: "verify_index_scope cfg (sw_db w) = (Inr (), sw_db w)"
      and g: "get_or_create_run cfg key new_id (sw_clock w) (sw_db w) = (o1, sw_db w1)"
    note s1 = index_steps_one[OF step_create[OF v g]]
    show ?thesis
    proof (cases o1)
      case (Inl e)
      with assms(1) c True s1 show ?thesis by (auto simp: index_scan_def)
    next
      case (Inr r)
      have r: "keyed_run cfg key (sw_db w) = Some r \<and> sw_db w1 = sw_db w
          \<or> keyed_run cfg key (sw_db w) = None \<and> run_id r = new_id \<and> \<not> run_complete r"
        using g[unfolded Inr]
        by (auto simp: get_or_create_run_def fresh_run_def split: option.splits if_splits)
      have keyed: "keyed_run cfg key (sw_db w1) = Some r"
      proof (cases "keyed_run cfg key (sw_db w)")
        case None
        with g[unfolded Inr] have "r = fresh_run cfg key new_id (sw_clock w)"
          "runs (sw_db w1) = runs (sw_db w) @ [r]"
          by (auto simp: get_or_create_run_def split: if_splits dest!: sym[of _ "sw_db w1"])
        with keyed_run_append[of cfg key "sw_db w" r] None show ?thesis
          by (simp add: keyed_run_def fresh_run_def)
      qed (use r in auto)
      show ?thesis
      proof (cases "run_complete r \<and> run_state r = SCAN_COMPLETED")
        case True
        with assms(1) c \<open>index_key key\<close> Inr
        have res: "session (\<lambda>clk. result_for_run cfg (run_id r)) w1 = (out, w')" by (simp add: index_scan_def)
        from session_result_same[OF res] session_Some[OF res] r True show ?thesis by auto
      next
        case False
        with assms(1) c \<open>index_key key\<close> Inr
        have res: "index_resume cfg gw fuel r w1 = Some (out, w')" by (auto simp: index_scan_def)
        have "\<not> run_complete r" if b
          using r keyed_run_Some(1)[of cfg key "sw_db w" r] assms(3) that False by blast
        from created_ready(2)[OF g[unfolded Inr] assms(4) this]
        have ready: "ready b cfg (run_id r) (sw_db w1)" .
        from index_resume_ends[OF res assms(2) ready] show ?thesis
        proof (elim disjE exE conjE)
          fix w2
          assume w2: "index_steps b (sw_db w1) (sw_db w2)" "ready b cfg (run_id r) (sw_db w2)"
            "scan_end cfg (run_id r) w2 out w'"
          have "index_steps b (sw_db w) (sw_db w2)" by (rule index_steps_trans[OF w2(1) s1])
          moreover have "\<exists>r1. keyed_run cfg key (sw_db w2) = Some r1 \<and> run_id r1 = run_id r"
            using keyed_run_steps[OF w2(1) keyed] by (auto simp: run_named_def)
          ultimately show ?thesis using w2 r v by blast
        next
          fix e
          assume e: "index_steps b (sw_db w1) (sw_db w')" "out = Inl e"
          from index_steps_trans[OF e(1) s1] e(2) show ?thesis by blast
        qed
      qed
    qed
  qed
qed

lemma index_scan_steps:
  assumes "index_scan cfg gw fuel new_id key w = Some (out, w')" and "good_gateway b gw"
    and "b \<longrightarrow> (\<forall>r \<in> set (runs (sw_db w)). run_complete r \<longrightarrow> run_state r = SCAN_COMPLETED)"
    and "distinct (map run_id (runs (sw_db w)))"
  shows "index_steps b (sw_db w) (sw_db w')"
proof -
  have ends: "index_steps b (sw_db w) (sw_db w')"
    if "index_steps b (sw_db w) (sw_db w1)" "ready b cfg rid (sw_db w1)" "scan_end cfg rid w1 out w'" for rid w1
    by (rule steps_more[OF that(1) scan_end_step[OF that(3,2)]])
  from index_scan_ends[OF assms] show ?thesis
    by (elim disjE exE conjE) (auto intro: ends steps_none)
qed

end
