(* ===== verification/Index_Props.thy ===== *)
theory Index_Props
  imports Index_Steps Plan_Loader_Props Plan_Json
begin

text \<open>
  What the transactions of the index keep of its tables: every run counts its own entries, every
  entry lies in the scanned directory, and the revisions of a library are never used twice.
\<close>

section \<open>Pages\<close>

lemma entries_in_scope_Inr:
  "entries_in_scope rt es = Inr () \<longleftrightarrow>
     (\<forall>e \<in> set es. le_parent_id e = Some rt \<and> (\<exists>k. entry_identity e = Inr k))"
  by (induction es) (auto simp: rbind_def split: sum.splits)

lemma validate_page_Inr:
  assumes "validate_page rt p n ec et = Inr (ec', et', ends)"
  shows "dp_page p = n" "1 \<le> n" "entries_in_scope rt (dp_items p) = Inr ()" "dp_state p = PAGE_COMPLETE"
    and "dp_items p = [] \<Longrightarrow> ends"
    and "ends \<longleftrightarrow> ec' = Some n \<or> dp_terminal p = Some True \<or> dp_has_more p = Some False"
    and "ec' = (if dp_page_count p = None then ec else dp_page_count p)"
    and "et' = (if et = None then dp_total p else et)"
  using assms by (auto simp: validate_page_def Let_def rbind_def below_def split: if_splits sum.splits)

lemma scan_entry_of_simps [simp]:
  "se_key (scan_entry_of rid k e) = k" "se_scan_run_id (scan_entry_of rid k e) = rid"
  "se_parent_id (scan_entry_of rid k e) = le_parent_id e"
  "se_is_directory (scan_entry_of rid k e) = le_is_directory e"
  by (simp_all add: se_key_def scan_entry_of_def)

lemma page_rows_Inr:
  assumes "plain_rows rid seen es = Inr rows"
  shows "length rows = length es" and "\<forall>r \<in> set rows. se_scan_run_id r = rid"
    and "distinct (map se_key rows)" and "set (map se_key rows) \<inter> set seen = {}"
    and "list_all2 (\<lambda>e r. entry_identity e = Inr (se_key r) \<and> r = scan_entry_of rid (se_key r) e) es rows"
proof -
  have "length rows = length es \<and> (\<forall>r \<in> set rows. se_scan_run_id r = rid) \<and> distinct (map se_key rows)
    \<and> set (map se_key rows) \<inter> set seen = {}
    \<and> list_all2 (\<lambda>e r. entry_identity e = Inr (se_key r) \<and> r = scan_entry_of rid (se_key r) e) es rows"
    using assms
  proof (induction es arbitrary: seen rows)
    case (Cons e es)
    then obtain k rs where k: "entry_identity e = Inr k" "k \<notin> set seen"
      and rs: "plain_rows rid (k # seen) es = Inr rs" "rows = scan_entry_of rid k e # rs"
      by (auto simp: rbind_Inr map_sum_Inr split: if_splits)
    from Cons.IH[OF rs(1)] k rs(2) show ?case by auto
  qed simp
  then show "length rows = length es" "\<forall>r \<in> set rows. se_scan_run_id r = rid" "distinct (map se_key rows)"
    "set (map se_key rows) \<inter> set seen = {}"
    "list_all2 (\<lambda>e r. entry_identity e = Inr (se_key r) \<and> r = scan_entry_of rid (se_key r) e) es rows"
    by blast+
qed

lemma page_rows_parent:
  assumes "plain_rows rid seen es = Inr rows" "entries_in_scope rt es = Inr ()" "r \<in> set rows"
  shows "se_parent_id r = Some rt" and "se_object_type r = lit (if se_is_directory r then ''directory'' else ''file'')"
proof -
  obtain i where i: "i < length rows" "r = rows ! i" using assms(3) by (auto simp: in_set_conv_nth)
  from page_rows_Inr(5)[OF assms(1)] i page_rows_Inr(1)[OF assms(1)]
  have e: "entry_identity (es ! i) = Inr (se_key r)" "r = scan_entry_of rid (se_key r) (es ! i)" "es ! i \<in> set es"
    by (auto simp: list_all2_conv_all_nth)
  from e(2) have "se_parent_id r = le_parent_id (es ! i)" "se_is_directory r = le_is_directory (es ! i)"
    by (metis scan_entry_of_simps(3), metis scan_entry_of_simps(4))
  moreover have "fst (se_key r) = lit (if le_is_directory (es ! i) then ''directory'' else ''file'')"
    using e(1) by (cases "se_key r") (auto simp: entry_identity_def split: if_splits option.splits)
  ultimately show "se_parent_id r = Some rt"
    "se_object_type r = lit (if se_is_directory r then ''directory'' else ''file'')"
    using e(3) assms(2) by (auto simp: entries_in_scope_Inr se_key_def)
qed

section \<open>Revisions\<close>

definition revisions_unique :: "run_row list \<Rightarrow> bool" where
  "revisions_unique rs \<longleftrightarrow>
     (\<forall>r \<in> set rs. \<forall>q \<in> set rs. run_library_id r = run_library_id q \<longrightarrow>
        run_snapshot_revision r \<noteq> None \<longrightarrow> run_snapshot_revision r = run_snapshot_revision q
        \<longrightarrow> run_id r = run_id q)"

lemma revisions_uniqueD:
  "revisions_unique rs \<Longrightarrow> r \<in> set rs \<Longrightarrow> q \<in> set rs \<Longrightarrow> run_library_id r = run_library_id q
    \<Longrightarrow> run_snapshot_revision r \<noteq> None \<Longrightarrow> run_snapshot_revision r = run_snapshot_revision q
    \<Longrightarrow> run_id r = run_id q"
  unfolding revisions_unique_def by blast

lemma revisions_unique_snoc:
  assumes "revisions_unique rs" "run_snapshot_revision x = None"
  shows "revisions_unique (rs @ [x])"
  unfolding revisions_unique_def
proof (intro ballI impI)
  fix r q
  assume "r \<in> set (rs @ [x])" "q \<in> set (rs @ [x])" "run_library_id r = run_library_id q"
    and rev: "run_snapshot_revision r \<noteq> None" "run_snapshot_revision r = run_snapshot_revision q"
  moreover have "r \<noteq> x" using rev(1) assms(2) by (cases "r = x") simp_all
  moreover have "q \<noteq> x" using rev(1)[unfolded rev(2)] assms(2) by (cases "q = x") simp_all
  ultimately show "run_id r = run_id q" by (intro revisions_uniqueD[OF assms(1)]) simp_all
qed

lemma next_revision_gt:
  assumes "r \<in> set (runs s)" "run_library_id r = library_id" "run_snapshot_revision r = Some n"
  shows "n < next_revision library_id s"
proof -
  let ?rs = "filter (\<lambda>r. run_library_id r = library_id) (runs s)"
  have "r \<in> set ?rs" using assms by simp
  then obtain q where q: "first_max run_snapshot_revision ?rs = Some q"
    by (metis first_max_None empty_iff list.set(1) not_None_eq)
  have "run_snapshot_revision r \<le> run_snapshot_revision q"
    using first_max_Some[OF q] \<open>r \<in> set ?rs\<close> by blast
  then obtain m where "run_snapshot_revision q = Some m" "n \<le> m"
    using assms(3) by (cases "run_snapshot_revision q") auto
  with q show ?thesis by (simp add: next_revision_def)
qed

section \<open>The invariant\<close>

definition entry_pk :: "scan_entry \<Rightarrow> pystr \<times> pystr \<times> pystr" where
  "entry_pk e = (se_scan_run_id e, se_key e)"

definition run_sound :: "store \<Rightarrow> run_row \<Rightarrow> bool" where
  "run_sound s r \<longleftrightarrow>
     (case row_of cp_scan_run_id (run_id r) (checkpoints s) of
        None \<Rightarrow> False
      | Some c \<Rightarrow> cp_page c = run_pages_read r \<and> cp_items_seen c = run_items_seen r)
     \<and> run_items_seen r = int (length (run_entries (run_id r) s))
     \<and> (\<forall>e \<in> set (run_entries (run_id r) s).
          se_parent_id e = Some (run_root_directory_id r)
          \<and> se_object_type e = lit (if se_is_directory e then ''directory'' else ''file''))
     \<and> (run_complete r \<longrightarrow> run_snapshot_revision r \<noteq> None)"

definition index_ok :: "store \<Rightarrow> bool" where
  "index_ok s \<longleftrightarrow>
     distinct (map run_id (runs s)) \<and> distinct (map entry_pk (scan_entries s))
     \<and> cp_scan_run_id ` set (checkpoints s) \<subseteq> run_id ` set (runs s)
     \<and> se_scan_run_id ` set (scan_entries s) \<subseteq> run_id ` set (runs s)
     \<and> revisions_unique (runs s) \<and> (\<forall>r \<in> set (runs s). run_sound s r)"

lemma run_entries_nil: "rid \<notin> se_scan_run_id ` set (scan_entries s) \<Longrightarrow> run_entries rid s = []"
  by (auto simp: run_entries_def filter_empty_conv)

lemma index_create_ok:
  assumes "get_or_create_run cfg key new_id clk s = (out, s')" and "index_ok s"
  shows "index_ok s'"
  using create_cases[OF assms(1)]
proof (elim disjE conjE)
  let ?r = "fresh_run cfg key new_id clk" and ?c = "\<lparr>cp_scan_run_id = new_id, cp_page = 0, cp_items_seen = 0\<rparr>"
  assume new: "new_id \<notin> run_id ` set (runs s)"
    and s': "s' = s\<lparr>runs := runs s @ [?r], checkpoints := checkpoints s @ [?c]\<rparr>"
  have none: "row_of cp_scan_run_id new_id (checkpoints s) = None" "run_entries new_id s = []"
    using assms(2) new by (auto simp: index_ok_def row_of_None intro!: run_entries_nil)
  have "run_sound s' r" if r: "r \<in> set (runs s)" for r
  proof -
    have "run_sound s r" using assms(2) r by (simp add: index_ok_def)
    then show ?thesis
      by (auto simp: run_sound_def s' row_of_append run_entries_def split: option.splits)
  qed
  moreover have "run_sound s' ?r"
    using none by (simp add: run_sound_def s' row_of_append fresh_run_def run_entries_def)
  moreover have "revisions_unique (runs s')"
    using assms(2) by (simp add: s' index_ok_def fresh_run_def revisions_unique_snoc)
  moreover have "distinct (map run_id (runs s'))"
    using assms(2) new by (simp add: index_ok_def s' fresh_run_def)
  moreover have "cp_scan_run_id ` set (checkpoints s') \<subseteq> run_id ` set (runs s')"
    "se_scan_run_id ` set (scan_entries s') \<subseteq> run_id ` set (runs s')"
    using assms(2) by (auto simp: index_ok_def s' fresh_run_def)
  moreover have "distinct (map entry_pk (scan_entries s'))" using assms(2) by (simp add: index_ok_def s')
  moreover have "set (runs s') = insert ?r (set (runs s))" by (simp add: s')
  ultimately show ?thesis by (simp add: index_ok_def)
qed (use assms(2) in simp)

text \<open>Rewriting one row of \<open>runs\<close> keeps the invariant when the row keeps its counts and revision.\<close>

lemma put_run_ok:
  assumes "index_ok s" and "\<And>r. run_named r (f r)"
    and "\<And>r. run_pages_read (f r) = run_pages_read r" "\<And>r. run_items_seen (f r) = run_items_seen r"
    and "\<And>r. r \<in> set (runs s) \<Longrightarrow> run_id r = rid \<Longrightarrow>
      (run_complete (f r) \<longrightarrow> run_snapshot_revision (f r) \<noteq> None)
      \<and> (\<forall>q \<in> set (runs s). run_id q \<noteq> rid \<longrightarrow> run_library_id q = run_library_id r
           \<longrightarrow> run_snapshot_revision (f r) \<noteq> None \<longrightarrow> run_snapshot_revision q \<noteq> run_snapshot_revision (f r))"
  shows "index_ok (put_run clk f rid s)"
proof -
  let ?s = "put_run clk f rid s"
  have member: "\<exists>q \<in> set (runs s). r = (if run_id q = rid then touched clk q (f q) else q)"
    if "r \<in> set (runs ?s)" for r
    using that unfolding runs_of_put_run by (rule set_update_where)
  have ids: "map run_id (runs ?s) = map run_id (runs s)"
    using assms(2) by (simp add: runs_of_put_run map_key_update run_named_def)
  have "run_sound ?s r" if r: "r \<in> set (runs ?s)" for r
  proof -
    obtain q where q: "q \<in> set (runs s)" "r = (if run_id q = rid then touched clk q (f q) else q)"
      using member[OF r] by blast
    have sound: "run_sound s q" using assms(1) q(1) by (simp add: index_ok_def)
    show ?thesis
    proof (cases "run_id q = rid")
      case True
      have "run_id (f q) = run_id q" "run_root_directory_id (f q) = run_root_directory_id q"
        using assms(2)[of q] by (simp_all add: run_named_def)
      with True q(2) sound assms(3,4)[of q] assms(5)[OF q(1) True] show ?thesis
        by (simp add: run_sound_def run_entries_def split: option.splits)
    next
      case False
      with q(2) sound show ?thesis by (simp add: run_sound_def run_entries_def)
    qed
  qed
  moreover have "revisions_unique (runs ?s)"
    unfolding revisions_unique_def
  proof (intro ballI impI)
    fix r q
    assume rq: "r \<in> set (runs ?s)" "q \<in> set (runs ?s)" "run_library_id r = run_library_id q"
      "run_snapshot_revision r \<noteq> None" "run_snapshot_revision r = run_snapshot_revision q"
    obtain r0 where r0: "r0 \<in> set (runs s)" "r = (if run_id r0 = rid then touched clk r0 (f r0) else r0)"
      using member[OF rq(1)] by blast
    obtain q0 where q0: "q0 \<in> set (runs s)" "q = (if run_id q0 = rid then touched clk q0 (f q0) else q0)"
      using member[OF rq(2)] by blast
    have same: "run_id r = run_id r0" "run_id q = run_id q0" "run_library_id r = run_library_id r0"
      "run_library_id q = run_library_id q0"
      using r0 q0 assms(2) by (auto simp: run_named_def)
    show "run_id r = run_id q"
    proof (cases "run_id r0 = rid \<longleftrightarrow> run_id q0 = rid")
      case True
      show ?thesis
      proof (cases "run_id r0 = rid")
        case False
        with True r0 q0 have "r = r0" "q = q0" by simp_all
        with rq r0 q0 assms(1) revisions_uniqueD[of "runs s" r0 q0] show ?thesis by (simp add: index_ok_def)
      qed (use True same in simp)
    next
      case False
      with r0 q0 rq same assms(5)[OF r0(1)] assms(5)[OF q0(1)] show ?thesis
        by (auto split: if_splits)
    qed
  qed
  ultimately show ?thesis
    using assms(1) ids by (simp add: index_ok_def) (metis (no_types, lifting) image_set)
qed

lemma mark_ok:
  assumes "mark_running clk rid s = (out, s')" "index_ok s"
  shows "index_ok s'"
proof -
  have rev: "run_snapshot_revision q \<noteq> run_snapshot_revision r"
    if "r \<in> set (runs s)" "run_id r = rid" "q \<in> set (runs s)" "run_id q \<noteq> rid"
      "run_library_id q = run_library_id r" "run_snapshot_revision r \<noteq> None" for r q
    using revisions_uniqueD[of "runs s" r q] assms(2) that by (auto simp: index_ok_def)
  have sound: "run_complete r \<longrightarrow> run_snapshot_revision r \<noteq> None" if "r \<in> set (runs s)" for r
    using assms(2) that by (simp add: index_ok_def run_sound_def)
  have "index_ok (put_run clk (\<lambda>r. r\<lparr>run_state := SCAN_RUNNING, run_error_code := None\<rparr>) rid s)"
    by (rule put_run_ok[OF assms(2)]) (use rev sound in \<open>auto simp: run_named_def\<close>)
  with update_run_cases[OF assms(1)[unfolded mark_running_def]] assms(2) show ?thesis by auto
qed

lemma failed_ok:
  assumes "index_ok s"
  shows "index_ok (put_run clk (\<lambda>r. r\<lparr>run_state := st, run_complete := False, run_error_code := code\<rparr>) rid s)"
proof (rule put_run_ok[OF assms])
  fix r
  assume r: "r \<in> set (runs s)" "run_id r = rid"
  have "run_snapshot_revision q \<noteq> run_snapshot_revision r"
    if "q \<in> set (runs s)" "run_id q \<noteq> rid" "run_library_id q = run_library_id r"
      "run_snapshot_revision r \<noteq> None" for q
    using revisions_uniqueD[of "runs s" r q] assms that r by (auto simp: index_ok_def)
  then show "(run_complete (r\<lparr>run_state := st, run_complete := False, run_error_code := code\<rparr>) \<longrightarrow>
        run_snapshot_revision (r\<lparr>run_state := st, run_complete := False, run_error_code := code\<rparr>) \<noteq> None) \<and>
      (\<forall>q\<in>set (runs s). run_id q \<noteq> rid \<longrightarrow> run_library_id q = run_library_id r \<longrightarrow>
        run_snapshot_revision (r\<lparr>run_state := st, run_complete := False, run_error_code := code\<rparr>) \<noteq> None \<longrightarrow>
        run_snapshot_revision q
          \<noteq> run_snapshot_revision (r\<lparr>run_state := st, run_complete := False, run_error_code := code\<rparr>))"
    by simp
qed (simp_all add: run_named_def)

lemma index_ok_tables: "scan_tables s s' \<Longrightarrow> index_ok s' = index_ok s"
  by (simp add: scan_tables_def index_ok_def run_sound_def run_entries_def)

lemma complete_ok:
  assumes "complete_run cfg clk rid s = (out, s')" "index_ok s" "own_run b cfg rid s"
  shows "index_ok s'"
  using assms(1)
proof (cases rule: complete_cases)
  case (3 r previous)
  let ?s1 = "record_snapshot cfg clk rid previous (run_entries rid s) s"
  have "index_ok ?s1"
    using assms(2) index_ok_tables[of s ?s1] by (simp add: scan_tables_def)
  then show ?thesis unfolding 3(5)
  proof (rule put_run_ok)
    fix q
    assume q: "q \<in> set (runs ?s1)" "run_id q = rid"
    then have "row_of run_id rid (runs s) = Some q"
      using row_of_unique[of run_id "runs s" q] assms(2) by (simp add: index_ok_def)
    then have lib: "run_library_id q = ic_library_id cfg" using assms(3) by (simp add: own_run_def)
    have "run_snapshot_revision q' \<noteq> Some (next_revision (ic_library_id cfg) s)"
      if "q' \<in> set (runs s)" "run_library_id q' = ic_library_id cfg" for q'
      using next_revision_gt[OF that, of "next_revision (ic_library_id cfg) s"] by blast
    then show "(run_complete (completed_row (next_revision (ic_library_id cfg) s) previous (run_entries rid s) q) \<longrightarrow>
         run_snapshot_revision (completed_row (next_revision (ic_library_id cfg) s) previous (run_entries rid s) q) \<noteq> None) \<and>
        (\<forall>q'\<in>set (runs ?s1). run_id q' \<noteq> rid \<longrightarrow> run_library_id q' = run_library_id q \<longrightarrow>
         run_snapshot_revision (completed_row (next_revision (ic_library_id cfg) s) previous (run_entries rid s) q) \<noteq> None \<longrightarrow>
         run_snapshot_revision q'
           \<noteq> run_snapshot_revision (completed_row (next_revision (ic_library_id cfg) s) previous (run_entries rid s) q))"
      by (simp add: lib)
  qed (simp_all add: run_named_def completed_row_def)
qed (use assms(2) failed_ok in simp_all)

lemma persist_ok:
  assumes "persist_page cfg clk rid p ec et s = (out, s')" "index_ok s" "own_run b cfg rid s"
    and "entries_in_scope (ic_root cfg) (dp_items p) = Inr ()"
  shows "index_ok s'"
  using persist_cases[OF assms(1)]
proof (elim disjE exE conjE)
  fix r and c :: checkpoint_row and rows
  let ?n = "cp_items_seen c + int (length (dp_items p))"
  let ?f = "paged_row ec et (dp_page p) ?n"
  let ?cps = "update_where (\<lambda>c. cp_scan_run_id c = rid) (\<lambda>d. d\<lparr>cp_page := dp_page p, cp_items_seen := ?n\<rparr>)
      (checkpoints s)"
  assume r: "row_of run_id rid (runs s) = Some r" and c: "row_of cp_scan_run_id rid (checkpoints s) = Some c"
    and rows: "plain_rows rid (map se_key (run_entries rid s)) (dp_items p) = Inr rows"
    and s': "s' = (put_run clk ?f rid s)\<lparr>scan_entries := scan_entries s @ rows, checkpoints := ?cps\<rparr>"
  note ok = assms(2)[unfolded index_ok_def]
  have rr: "r \<in> set (runs s)" "run_id r = rid" using row_of_Some[OF r] by auto
  have only: "q = r" if "q \<in> set (runs s)" "run_id q = rid" for q
    using row_of_unique[of run_id "runs s" q] ok that r by simp
  have rt: "run_root_directory_id r = ic_root cfg" using assms(3) r by (simp add: own_run_def)
  have entries: "run_entries i s' = (if i = rid then run_entries i s @ rows else run_entries i s)" for i
    using page_rows_Inr(2)[OF rows] by (auto simp: run_entries_def s' filter_empty_conv filter_id_conv)
  have cps: "row_of cp_scan_run_id i (checkpoints s') = (if i = rid
      then Some (c\<lparr>cp_page := dp_page p, cp_items_seen := ?n\<rparr>) else row_of cp_scan_run_id i (checkpoints s))" for i
    using c row_of_Some[of cp_scan_run_id i "checkpoints s"]
    by (cases "row_of cp_scan_run_id i (checkpoints s)") (auto simp: s' row_of_update)
  have member: "\<exists>q \<in> set (runs s). q' = (if run_id q = rid then touched clk q (?f q) else q)"
    if "q' \<in> set (runs s')" for q'
    using that unfolding s' by (auto simp: runs_of_put_run dest!: set_update_where)
  have sound: "run_sound s' q'" if q': "q' \<in> set (runs s')" for q'
  proof -
    obtain q where q: "q \<in> set (runs s)" "q' = (if run_id q = rid then touched clk q (?f q) else q)"
      using member[OF q'] by blast
    have snd: "run_sound s q" using ok q(1) by blast
    show ?thesis
    proof (cases "run_id q = rid")
      case True
      then have "q = r" using only q(1) by blast
      moreover have "\<forall>e \<in> set rows. se_parent_id e = Some (ic_root cfg)
          \<and> se_object_type e = lit (if se_is_directory e then ''directory'' else ''file'')"
        using page_rows_parent[OF rows assms(4)] by blast
      ultimately show ?thesis using snd q(2) True c rt page_rows_Inr(1)[OF rows]
        by (auto simp: run_sound_def entries cps paged_row_def)
    next
      case False
      with q(2) snd show ?thesis by (simp add: run_sound_def entries cps)
    qed
  qed
  have ids: "map run_id (runs s') = map run_id (runs s)"
    by (simp add: s' runs_of_put_run map_key_update paged_row_def)
  have id_set: "run_id ` set (runs s') = run_id ` set (runs s)" by (metis ids image_set)
  have cp_ids: "map cp_scan_run_id (checkpoints s') = map cp_scan_run_id (checkpoints s)"
    by (simp add: s' map_key_update)
  have cp_set: "cp_scan_run_id ` set (checkpoints s') = cp_scan_run_id ` set (checkpoints s)"
    by (metis cp_ids image_set)
  have "revisions_unique (runs s')"
    unfolding revisions_unique_def
  proof (intro ballI impI)
    fix x y
    assume xy: "x \<in> set (runs s')" "y \<in> set (runs s')" "run_library_id x = run_library_id y"
      "run_snapshot_revision x \<noteq> None" "run_snapshot_revision x = run_snapshot_revision y"
    have same: "\<exists>q \<in> set (runs s). run_id q = run_id z \<and> run_library_id q = run_library_id z
        \<and> run_snapshot_revision q = run_snapshot_revision z" if "z \<in> set (runs s')" for z
      using member[OF that] by (auto simp: paged_row_def split: if_splits)
    from same[OF xy(1)] same[OF xy(2)] show "run_id x = run_id y"
      using revisions_uniqueD[of "runs s"] ok xy(3-5) by metis
  qed
  moreover have "distinct (map entry_pk (scan_entries s'))"
  proof -
    have "map entry_pk rows = map (Pair rid) (map se_key rows)"
      using page_rows_Inr(2)[OF rows] by (simp add: entry_pk_def)
    then have "distinct (map entry_pk rows)"
      using page_rows_Inr(3)[OF rows] by (simp add: distinct_map inj_on_def)
    moreover have "entry_pk e \<noteq> entry_pk e'" if "e \<in> set (scan_entries s)" "e' \<in> set rows" for e e'
      using page_rows_Inr(2,4)[OF rows] that by (auto simp: entry_pk_def run_entries_def)
    ultimately show ?thesis using ok by (auto simp: s') (metis)
  qed
  moreover have "se_scan_run_id ` set (scan_entries s') \<subseteq> run_id ` set (runs s')"
    unfolding id_set using ok rr page_rows_Inr(2)[OF rows] by (auto simp: s')
  ultimately show ?thesis
    unfolding index_ok_def id_set cp_set ids using ok sound by blast
qed (use assms(2) in simp)

lemma index_step_ok: "index_step b cfg s s' \<Longrightarrow> index_ok s \<Longrightarrow> index_ok s'"
proof (induction rule: index_step.induct)
  case (step_page rid s p n ec et ec' et' ends clk out s')
  with persist_ok validate_page_Inr(3) show ?case by blast
next
  case (step_finish rid s st clk code out s')
  then have "s' = s \<or> s' = put_run clk (\<lambda>r. r\<lparr>run_state := st, run_complete := False,
      run_error_code := Some code\<rparr>) rid s"
    unfolding finish_incomplete_def by (intro update_run_cases)
  with step_finish failed_ok show ?case by auto
qed (auto intro: index_create_ok mark_ok complete_ok)

lemma index_steps_ok: "index_steps b s s' \<Longrightarrow> index_ok s \<Longrightarrow> index_ok s'"
  by (induction rule: index_steps.induct) (auto intro: index_step_ok)

end
