(* ===== verification/Index_Ledger.thy ===== *)
theory Index_Ledger
  imports Index_Props
begin

text \<open>
  The ledger of a library and the plans made from its scans.  When scans follow one another, the
  ledger shows the latest complete snapshot: what it holds is active with the observed data, what
  it no longer holds is missing.  A new snapshot unloads every plan of an older one.
\<close>

section \<open>Ledger rows by key\<close>

definition ledger_entry :: "pystr \<Rightarrow> pystr \<times> pystr \<Rightarrow> store \<Rightarrow> ledger_row option" where
  "ledger_entry library_id k s = row_of ledger_key (library_id, k) (ledger s)"

lemma ledger_entry_event [simp]:
  "ledger_entry l k (record_inventory_event l' r e kind p s) = ledger_entry l k s"
  by (simp add: ledger_entry_def)

lemma ledger_entry_diff [simp]: "ledger_entry l k (add_diff d s) = ledger_entry l k s"
  by (simp add: ledger_entry_def add_diff_def)

lemma ledger_entry_diffs [simp]: "ledger_entry l k (s\<lparr>diffs := ds\<rparr>) = ledger_entry l k s"
  by (simp add: ledger_entry_def)

lemma ledger_entry_put:
  assumes "\<And>l. ledger_key (f l) = ledger_key l"
  shows "ledger_entry l k (put_ledger q f s)
    = (if q = (l, k) then map_option f (ledger_entry l k s) else ledger_entry l k s)"
proof (cases "row_of ledger_key (l, k) (ledger s)")
  case (Some r)
  with row_of_Some[OF Some] show ?thesis by (auto simp: ledger_entry_def put_ledger_def row_of_update assms)
qed (simp add: ledger_entry_def put_ledger_def row_of_update assms)

lemma ledger_keys [simp]:
  "ledger_key (observed_row rid clk e l) = ledger_key l"
  "ledger_key (removed_row rid clk l) = ledger_key l"
  "ledger_key (new_ledger_row l' rid clk e st ms) = (l', se_key e)"
  by (simp_all add: ledger_key_def observed_row_def removed_row_def new_ledger_row_def se_key_def)

lemma ledger_entry_add:
  "ledger_entry l k (s\<lparr>ledger := ledger s @ [r]\<rparr>)
     = (case ledger_entry l k s of
          Some x \<Rightarrow> Some x | None \<Rightarrow> if ledger_key r = (l, k) then Some r else None)"
  by (simp add: ledger_entry_def row_of_append split: option.splits)

definition observed :: "pystr \<Rightarrow> pystr \<Rightarrow> time \<Rightarrow> scan_entry \<Rightarrow> ledger_row option \<Rightarrow> ledger_row option" where
  "observed library_id rid clk e x =
     Some (case x of None \<Rightarrow> new_ledger_row library_id rid clk e ''active'' None
             | Some l \<Rightarrow> observed_row rid clk e l)"

definition removed :: "pystr \<Rightarrow> pystr \<Rightarrow> time \<Rightarrow> scan_entry \<Rightarrow> ledger_row option \<Rightarrow> ledger_row option" where
  "removed library_id rid clk e x =
     Some (case x of None \<Rightarrow> new_ledger_row library_id rid clk e ''missing'' (Some clk)
             | Some l \<Rightarrow> removed_row rid clk l)"

lemma ledger_observation:
  "ledger_entry l' k (record_observation l rid clk kind e s)
     = (if l' = l \<and> k = se_key e then observed l rid clk e (ledger_entry l k s) else ledger_entry l' k s)"
  by (cases "ledger_entry l (se_key e) s")
    (auto simp: record_observation_def Let_def ledger_entry_def[symmetric] ledger_entry_add
        ledger_entry_put observed_def split: option.splits)

lemma ledger_removal:
  "ledger_entry l' k (record_removal l rid clk e s)
     = (if l' = l \<and> k = se_key e then removed l rid clk e (ledger_entry l k s) else ledger_entry l' k s)"
  by (cases "ledger_entry l (se_key e) s")
    (auto simp: record_removal_def Let_def ledger_entry_def[symmetric] ledger_entry_add
        ledger_entry_put removed_def split: option.splits)

lemma fold_ledger:
  assumes "\<And>e s l' k. ledger_entry l' k (f e s)
      = (if l' = l \<and> k = se_key e then g e (ledger_entry l k s) else ledger_entry l' k s)"
    and "distinct (map se_key es)"
  shows "ledger_entry l' k (fold f es s)
    = (if l' = l then (case row_of se_key k es of None \<Rightarrow> ledger_entry l k s
                         | Some e \<Rightarrow> g e (ledger_entry l k s))
       else ledger_entry l' k s)"
  using assms(2)
proof (induction es arbitrary: s)
  case (Cons e es)
  have none: "row_of se_key (se_key e) es = None" using Cons.prems by (auto simp: row_of_None)
  from Cons none show ?case by (auto simp: assms(1) split: option.splits)
qed simp

section \<open>The ledger shows a snapshot\<close>

definition shows_entry :: "ledger_row \<Rightarrow> scan_entry \<Rightarrow> bool" where
  "shows_entry l e \<longleftrightarrow>
     lg_parent_id l = se_parent_id e \<and> lg_name l = se_name e \<and> lg_path l = se_path e
     \<and> lg_is_directory l = se_is_directory e \<and> lg_size_bytes l = se_size_bytes e
     \<and> lg_modified_at l = se_modified_at e"

definition key_mirrored :: "scan_entry option \<Rightarrow> ledger_row option \<Rightarrow> bool" where
  "key_mirrored e l \<longleftrightarrow>
     (case (e, l) of
        (Some e, Some l) \<Rightarrow> lg_status l = ''active'' \<and> lg_missing_since l = None \<and> shows_entry l e
      | (Some e, None) \<Rightarrow> False
      | (None, Some l) \<Rightarrow> lg_status l = ''missing'' \<and> lg_missing_since l \<noteq> None
      | (None, None) \<Rightarrow> True)"

definition mirrors :: "scan_entry list \<Rightarrow> pystr \<Rightarrow> store \<Rightarrow> bool" where
  "mirrors es library_id s \<longleftrightarrow> (\<forall>k. key_mirrored (row_of se_key k es) (ledger_entry library_id k s))"

lemma ledger_snapshot:
  assumes "distinct (map se_key prev)" "distinct (map se_key cur)"
  shows "ledger_entry l k (record_snapshot cfg clk rid prev cur s)
    = (if l \<noteq> ic_library_id cfg then ledger_entry l k s
       else (case row_of se_key k cur of
               Some e \<Rightarrow> if change_of prev e = None then ledger_entry l k s
                         else observed l rid clk e (ledger_entry l k s)
             | None \<Rightarrow> (case row_of se_key k prev of
                          None \<Rightarrow> ledger_entry l k s | Some old \<Rightarrow> removed l rid clk old (ledger_entry l k s))))"
proof -
  let ?lib = "ic_library_id cfg"
  let ?g = "\<lambda>e x. if change_of prev e = None then x else observed ?lib rid clk e x"
  let ?h = "\<lambda>old x. if se_key old \<in> set (map se_key cur) then x else removed ?lib rid clk old x"
  have g: "ledger_entry l' k (record_entry ?lib rid clk prev e s)
      = (if l' = ?lib \<and> k = se_key e then ?g e (ledger_entry ?lib k s) else ledger_entry l' k s)" for e s l' k
    by (auto simp: record_entry_def ledger_observation split: option.splits)
  have h: "ledger_entry l' k (record_removed ?lib rid clk cur e s)
      = (if l' = ?lib \<and> k = se_key e then ?h e (ledger_entry ?lib k s) else ledger_entry l' k s)" for e s l' k
    by (auto simp: record_removed_def ledger_removal)
  have mem: "row_of se_key k cur = Some e \<Longrightarrow> k \<in> se_key ` set cur" for e
    by (auto dest: row_of_Some)
  have key: "row_of se_key k prev = Some e \<Longrightarrow> se_key e = k \<and> k \<in> se_key ` set prev" for e
    by (auto dest: row_of_Some)
  show ?thesis
    unfolding record_snapshot_def
    by (auto simp: fold_ledger[of _ ?lib ?h, OF h assms(1)] fold_ledger[of _ ?lib ?g, OF g assms(2)]
        row_of_None mem key split: option.splits)
qed

lemma key_mirrored_observed:
  assumes "x = None \<or> (\<exists>l. x = Some l \<and> (lg_status l = ''active'' \<and> lg_missing_since l = None
      \<or> lg_status l = ''missing''))"
  shows "key_mirrored (Some e) (observed lib rid clk e x)"
  using assms
  by (auto simp: key_mirrored_def observed_def observed_row_def new_ledger_row_def shows_entry_def)

lemma record_snapshot_mirrors:
  assumes "mirrors prev (ic_library_id cfg) s" "distinct (map se_key prev)" "distinct (map se_key cur)"
  shows "mirrors cur (ic_library_id cfg) (record_snapshot cfg clk rid prev cur s)"
  unfolding mirrors_def
proof
  fix k
  let ?x = "ledger_entry (ic_library_id cfg) k s"
  have old: "key_mirrored (row_of se_key k prev) ?x" using assms(1) unfolding mirrors_def by blast
  show "key_mirrored (row_of se_key k cur)
      (ledger_entry (ic_library_id cfg) k (record_snapshot cfg clk rid prev cur s))"
  proof (cases "row_of se_key k cur")
    case None
    show ?thesis
    proof (cases "row_of se_key k prev")
      case (Some q)
      with None old show ?thesis
        by (cases ?x) (auto simp: ledger_snapshot[OF assms(2,3)] key_mirrored_def removed_def
            removed_row_def new_ledger_row_def split: option.splits)
    qed (use None old in \<open>simp add: ledger_snapshot[OF assms(2,3)]\<close>)
  next
    case (Some e)
    have k: "se_key e = k" using row_of_Some[OF Some] by simp
    show ?thesis
    proof (cases "change_of prev e")
      case None
      then obtain q where "row_of se_key k prev = Some q" "\<not> entry_changed q e"
        using k by (auto simp: change_of_def split: option.splits if_splits)
      with Some None old show ?thesis
        by (auto simp: ledger_snapshot[OF assms(2,3)] key_mirrored_def shows_entry_def entry_changed_def
            split: option.splits)
    next
      case (Some c)
      have "?x = None \<or> (\<exists>l. ?x = Some l \<and> (lg_status l = ''active'' \<and> lg_missing_since l = None
          \<or> lg_status l = ''missing''))"
        using old by (auto simp: key_mirrored_def split: option.splits)
      from key_mirrored_observed[OF this] Some \<open>row_of se_key k cur = Some e\<close> show ?thesis
        by (simp add: ledger_snapshot[OF assms(2,3)])
    qed
  qed
qed

section \<open>The latest snapshot\<close>

definition snapshot :: "library_row \<Rightarrow> store \<Rightarrow> scan_entry list" where
  "snapshot lib s = (case latest_run lib s of None \<Rightarrow> [] | Some r \<Rightarrow> run_entries (run_id r) s)"

lemma distinct_run_entries:
  assumes "index_ok s"
  shows "distinct (map se_key (run_entries rid s))"
proof -
  have "distinct (map entry_pk (run_entries rid s))"
    using assms by (simp add: index_ok_def run_entries_def distinct_map_filter)
  moreover have "map entry_pk (run_entries rid s) = map (Pair rid) (map se_key (run_entries rid s))"
    by (simp add: entry_pk_def run_entries_def)
  ultimately show ?thesis by (metis distinct_map)
qed

lemma latest_run_put:
  assumes "\<And>r. r \<in> set (runs s) \<Longrightarrow> run_id r = rid \<Longrightarrow> \<not> run_complete r \<and> \<not> run_complete (f r)"
  shows "latest_run lib (put_run clk f rid s) = latest_run lib s"
proof -
  have "filter P (map (\<lambda>r. if run_id r = rid then touched clk r (f r) else r) rs) = filter P rs"
    if "\<And>r. P r \<Longrightarrow> run_complete r" "set rs \<subseteq> set (runs s)" for P rs
    using that(2)
  proof (induction rs)
    case (Cons r rs)
    have "\<not> P r \<and> \<not> P (touched clk r (f r))" if "run_id r = rid"
      using assms[of r] that Cons.prems \<open>\<And>r. P r \<Longrightarrow> run_complete r\<close>
      by (metis list.set_intros(1) subset_iff touched_simps(5))
    with Cons show ?case by auto
  qed simp
  from this[of "\<lambda>r. run_library_id r = lib_id lib \<and> run_root_directory_id r = lib_root_directory_id lib
      \<and> run_state r = SCAN_COMPLETED \<and> run_complete r" "runs s"]
  show ?thesis by (simp add: latest_run_def runs_of_put_run update_where_def)
qed

lemma first_max_top:
  assumes "x \<in> set xs" "\<And>y. y \<in> set xs \<Longrightarrow> y \<noteq> x \<Longrightarrow> k y < k x"
  shows "first_max k xs = Some x"
proof -
  obtain u where u: "first_max k xs = Some u"
    using assms(1) by (metis first_max_None empty_iff list.set(1) not_None_eq)
  from first_max_Some[OF u] assms have "u = x" by (metis leD)
  with u show ?thesis by simp
qed

definition library_ok :: "store \<Rightarrow> bool" where
  "library_ok s \<longleftrightarrow>
     index_ok s \<and> distinct (map lib_id (libraries s))
     \<and> (\<forall>r \<in> set (runs s). run_complete r \<longrightarrow> run_state r = SCAN_COMPLETED)
     \<and> (\<forall>r \<in> set (runs s). \<exists>lib \<in> set (libraries s).
          lib_id lib = run_library_id r \<and> lib_root_directory_id lib = run_root_directory_id r)
     \<and> (\<forall>lib \<in> set (libraries s). mirrors (snapshot lib s) (lib_id lib) s)"

lemma latest_run_Some:
  assumes "latest_run lib s = Some r"
  shows "r \<in> set (runs s)" "run_complete r" "run_library_id r = lib_id lib"
    "run_root_directory_id r = lib_root_directory_id lib"
  using first_max_Some[OF assms[unfolded latest_run_def]] by auto

lemma snapshot_same:
  assumes "latest_run lib s' = latest_run lib s"
    and "\<And>r. latest_run lib s = Some r \<Longrightarrow> run_entries (run_id r) s' = run_entries (run_id r) s"
  shows "snapshot lib s' = snapshot lib s"
  using assms by (simp add: snapshot_def split: option.split)

lemma own_incomplete:
  assumes "own_run True cfg rid s" "distinct (map run_id (runs s))" "r \<in> set (runs s)" "run_id r = rid"
  shows "\<not> run_complete r" "run_library_id r = ic_library_id cfg" "run_root_directory_id r = ic_root cfg"
  using row_of_unique[OF assms(2,3)] assms(1,4) by (auto simp: own_run_def)

text \<open>A step that only rewrites an incomplete run, and adds entries to it, changes no snapshot.\<close>

lemma quiet_step_ok:
  assumes "library_ok s" and "index_ok s'" and "libraries s' = libraries s" and "ledger s' = ledger s"
    and "runs s' = runs (put_run clk f rid s)" and "\<And>r. run_named r (f r)"
    and "\<And>r. r \<in> set (runs s) \<Longrightarrow> run_id r = rid \<Longrightarrow> \<not> run_complete r \<and> \<not> run_complete (f r)"
    and "\<And>i. i \<noteq> rid \<Longrightarrow> run_entries i s' = run_entries i s"
  shows "library_ok s'"
proof -
  have latest: "latest_run lib s' = latest_run lib s" for lib
    using latest_run_put[of s rid f lib clk] assms(5,7) by (simp add: latest_run_def)
  have snap: "snapshot lib s' = snapshot lib s" for lib
  proof (rule snapshot_same[OF latest])
    fix r
    assume "latest_run lib s = Some r"
    with latest_run_Some assms(7) have "run_id r \<noteq> rid" by blast
    then show "run_entries (run_id r) s' = run_entries (run_id r) s" by (rule assms(8))
  qed
  have led: "mirrors es l s' = mirrors es l s" for es l
    by (simp add: mirrors_def ledger_entry_def assms(4))
  have member: "\<exists>q \<in> set (runs s). r = q \<and> run_id q \<noteq> rid \<or> r = touched clk q (f q) \<and> run_id q = rid"
    if "r \<in> set (runs s')" for r
    using that unfolding assms(5) runs_of_put_run by (auto dest!: set_update_where split: if_splits)
  have "run_complete r \<longrightarrow> run_state r = SCAN_COMPLETED" if "r \<in> set (runs s')" for r
    using member[OF that] assms(1,7) by (auto simp: library_ok_def)
  moreover have "\<exists>lib \<in> set (libraries s). lib_id lib = run_library_id r
      \<and> lib_root_directory_id lib = run_root_directory_id r" if r: "r \<in> set (runs s')" for r
  proof -
    obtain q where q: "q \<in> set (runs s)" "run_library_id r = run_library_id q"
      "run_root_directory_id r = run_root_directory_id q"
      using member[OF r] assms(6) by (auto simp: run_named_def)
    then show ?thesis using assms(1) by (simp add: library_ok_def)
  qed
  ultimately show ?thesis
    using assms(1,2) by (simp add: library_ok_def assms(3) snap led)
qed

lemma own_put_named:
  assumes "library_ok s" "own_run True cfg rid s" "r \<in> set (runs s)" "run_id r = rid"
  shows "\<not> run_complete r" "run_library_id r = ic_library_id cfg" "run_root_directory_id r = ic_root cfg"
  using own_incomplete[OF assms(2) _ assms(3,4)] assms(1) by (simp_all add: library_ok_def index_ok_def)

lemma create_library_ok:
  assumes "get_or_create_run cfg key new_id clk s = (out, s')" "library_ok s" "index_ok s'"
    and "verify_index_scope cfg s = (Inr (), s)"
  shows "library_ok s'"
  using create_cases[OF assms(1)]
proof (elim disjE conjE)
  assume s': "s' = s\<lparr>runs := runs s @ [fresh_run cfg key new_id clk],
      checkpoints := checkpoints s @ [\<lparr>cp_scan_run_id = new_id, cp_page = 0, cp_items_seen = 0\<rparr>]\<rparr>"
  have latest: "latest_run lib s' = latest_run lib s" for lib
    by (simp add: latest_run_def s' fresh_run_def)
  have snap: "snapshot lib s' = snapshot lib s" for lib
    by (rule snapshot_same[OF latest]) (simp add: s' run_entries_def)
  have led: "mirrors es l s' = mirrors es l s" for es l by (simp add: mirrors_def ledger_entry_def s')
  have "\<exists>lib \<in> set (libraries s). lib_id lib = ic_library_id cfg \<and> lib_root_directory_id lib = ic_root cfg"
    using assms(4) row_of_Some[of lib_id "ic_library_id cfg" "libraries s"]
    by (auto simp: verify_index_scope_def split: option.splits if_splits)
  with assms(2,3) show ?thesis
    unfolding library_ok_def snap led by (simp add: s' fresh_run_def)
qed (use assms(2) in simp)

lemma completed_latest:
  assumes "index_ok s" "row_of run_id rid (runs s) = Some r" "lib_id lib = run_library_id r"
    "lib_root_directory_id lib = run_root_directory_id r" "run_library_id r = library_id"
    and s1: "runs s1 = runs s"
  shows "map_option run_id (latest_run lib
      (put_run clk (completed_row (next_revision library_id s) prev cur) rid s1)) = Some rid"
proof -
  let ?f = "completed_row (next_revision library_id s) prev cur"
  let ?s = "put_run clk ?f rid s1" and ?top = "touched clk r (?f r)"
  let ?c = "filter (\<lambda>r. run_library_id r = lib_id lib \<and> run_root_directory_id r = lib_root_directory_id lib
                  \<and> run_state r = SCAN_COMPLETED \<and> run_complete r) (runs ?s)"
  have r: "r \<in> set (runs s)" "run_id r = rid" using row_of_Some[OF assms(2)] by auto
  have only: "q = r" if "q \<in> set (runs s)" "run_id q = rid" for q
    using row_of_unique[of run_id "runs s" q] assms(1,2) that by (simp add: index_ok_def)
  have "?top \<in> set (runs ?s)"
    using r by (auto simp: runs_of_put_run update_where_def s1)
  then have top: "?top \<in> set ?c" using assms(3,4) by simp
  have "run_snapshot_revision y < run_snapshot_revision ?top" if y: "y \<in> set ?c" "y \<noteq> ?top" for y
  proof -
    obtain q where q: "q \<in> set (runs s)" "y = (if run_id q = rid then touched clk q (?f q) else q)"
      using y(1) by (auto simp: runs_of_put_run s1 dest!: set_update_where)
    with only y(2) have "y = q" by auto
    then have "run_library_id q = library_id" using y(1) assms(3,5) by simp
    from next_revision_gt[OF q(1) this] \<open>y = q\<close> show ?thesis
      by (cases "run_snapshot_revision q") simp_all
  qed
  from first_max_top[where k = run_snapshot_revision, OF top this] show ?thesis using r(2) by (simp add: latest_run_def)
qed

lemma complete_library_ok:
  assumes "complete_run cfg clk rid s = (out, s')" "library_ok s" "index_ok s'" "own_run True cfg rid s"
  shows "library_ok s'"
  using assms(1)
proof (cases rule: complete_cases)
  case (2 r)
  note own = own_put_named[OF assms(2,4)]
  show ?thesis
    by (rule quiet_step_ok[OF assms(2,3), where clk = clk and rid = rid
        and f = "\<lambda>r. r\<lparr>run_state := SCAN_FAILED, run_complete := False,
          run_error_code := Some (lit ''total_mismatch'')\<rparr>"])
      (use own in \<open>auto simp: 2(5) run_named_def run_entries_def\<close>)
next
  case (3 r prev)
  let ?cur = "run_entries rid s"
  let ?s1 = "record_snapshot cfg clk rid prev ?cur s"
  let ?f = "completed_row (next_revision (ic_library_id cfg) s) prev ?cur"
  note ok = assms(2)[unfolded library_ok_def]
  note own = own_put_named[OF assms(2,4)]
  have r: "r \<in> set (runs s)" "run_id r = rid" using row_of_Some[OF 3(1)] by auto
  obtain lib0 where lib0: "lib0 \<in> set (libraries s)" "lib_id lib0 = ic_library_id cfg"
    "lib_root_directory_id lib0 = ic_root cfg"
    using ok r own[OF r] by metis
  have one: "lib = lib0" if "lib \<in> set (libraries s)" "lib_id lib = ic_library_id cfg" for lib
    using ok that lib0 by (metis distinct_map inj_onD)
  have prev: "prev = snapshot lib0 s"
  proof -
    have "filter (\<lambda>q. run_library_id q = ic_library_id cfg \<and> run_root_directory_id q = ic_root cfg
        \<and> run_complete q \<and> run_state q = SCAN_COMPLETED \<and> run_id q \<noteq> rid) (runs s)
      = filter (\<lambda>q. run_library_id q = lib_id lib0 \<and> run_root_directory_id q = lib_root_directory_id lib0
        \<and> run_state q = SCAN_COMPLETED \<and> run_complete q) (runs s)"
      using own lib0 by (intro filter_cong) auto
    then show ?thesis unfolding 3(4) snapshot_def previous_run_def latest_run_def by simp
  qed
  have entries: "run_entries i s' = run_entries i s" for i by (simp add: 3(5) run_entries_def)
  have led: "ledger_entry l k s' = ledger_entry l k ?s1" for l k by (simp add: 3(5) ledger_entry_def)
  have "mirrors (snapshot lib s') (lib_id lib) s'" if lib: "lib \<in> set (libraries s')" for lib
  proof (cases "lib_id lib = ic_library_id cfg")
    case True
    with lib one have "lib = lib0" by (simp add: 3(5))
    have "map_option run_id (latest_run lib0 s') = Some rid"
      unfolding 3(5) using ok by (intro completed_latest[OF _ 3(1)]) (simp_all add: lib0 own[OF r])
    then have cur: "snapshot lib0 s' = ?cur" by (auto simp: snapshot_def entries split: option.splits)
    have "mirrors prev (ic_library_id cfg) s" using ok lib0 prev by metis
    from record_snapshot_mirrors[OF this, of ?cur clk rid] distinct_run_entries[of s] ok
    have "mirrors ?cur (ic_library_id cfg) ?s1"
      by (simp add: prev snapshot_def split: option.splits)
    then show ?thesis unfolding \<open>lib = lib0\<close> cur lib0(2) by (simp add: mirrors_def led)
  next
    case False
    have "latest_run lib s' = latest_run lib s"
    proof -
      have "filter P (map (\<lambda>q. if run_id q = rid then touched clk q (?f q) else q) rs) = filter P rs"
        if "\<And>q. P q \<Longrightarrow> run_library_id q = lib_id lib" "set rs \<subseteq> set (runs s)" for P rs
        using that(2)
      proof (induction rs)
        case (Cons q rs)
        have "\<not> P q \<and> \<not> P (touched clk q (?f q))" if "run_id q = rid"
          using own[of q] that Cons.prems False \<open>\<And>q. P q \<Longrightarrow> run_library_id q = lib_id lib\<close> by fastforce
        with Cons show ?case by auto
      qed simp
      from this[of "\<lambda>q. run_library_id q = lib_id lib \<and> run_root_directory_id q = lib_root_directory_id lib
          \<and> run_state q = SCAN_COMPLETED \<and> run_complete q" "runs s"]
      show ?thesis by (simp add: latest_run_def 3(5) runs_of_put_run update_where_def)
    qed
    then have snap: "snapshot lib s' = snapshot lib s" by (rule snapshot_same) (simp add: entries)
    have dist: "distinct (map se_key prev)"
      using distinct_run_entries[of s] ok by (simp add: prev snapshot_def split: option.splits)
    have "ledger_entry (lib_id lib) k s' = ledger_entry (lib_id lib) k s" for k
      using False by (simp add: led ledger_snapshot[OF dist distinct_run_entries] ok)
    then have "mirrors es (lib_id lib) s' = mirrors es (lib_id lib) s" for es by (simp add: mirrors_def)
    moreover have "lib \<in> set (libraries s)" using lib by (simp add: 3(5))
    ultimately show ?thesis using ok unfolding snap by blast
  qed
  moreover have member: "\<exists>q \<in> set (runs s). run_library_id x = run_library_id q
      \<and> run_root_directory_id x = run_root_directory_id q \<and> (x = q \<or> run_state x = SCAN_COMPLETED)"
    if "x \<in> set (runs s')" for x
    using that by (auto simp: 3(5) runs_of_put_run dest!: set_update_where)
  then have "run_complete x \<longrightarrow> run_state x = SCAN_COMPLETED" "\<exists>lib \<in> set (libraries s').
      lib_id lib = run_library_id x \<and> lib_root_directory_id lib = run_root_directory_id x"
    if "x \<in> set (runs s')" for x
    using ok that by (auto simp: 3(5)) metis+
  ultimately show ?thesis using assms(3) ok by (simp add: library_ok_def 3(5))
qed (use assms(2) in simp)

lemma index_step_library_ok:
  assumes "index_step True cfg s s'" "library_ok s"
  shows "library_ok s'"
proof -
  have ok': "index_ok s'" using index_step_ok[OF assms(1)] assms(2) by (simp add: library_ok_def)
  note quiet = quiet_step_ok[OF assms(2) ok']
  from assms(1) show ?thesis
  proof cases
    case (step_create key new_id clk out)
    then show ?thesis using create_library_ok assms(2) ok' by blast
  next
    case (step_mark rid clk out)
    from update_run_cases[OF step_mark(2)[unfolded mark_running_def]] show ?thesis
    proof
      assume s': "s' = put_run clk (\<lambda>r. r\<lparr>run_state := SCAN_RUNNING, run_error_code := None\<rparr>) rid s"
      then show ?thesis
        by (intro quiet[where clk = clk and rid = rid
              and f = "\<lambda>r. r\<lparr>run_state := SCAN_RUNNING, run_error_code := None\<rparr>"])
          (use own_put_named[OF assms(2) step_mark(1)] in \<open>auto simp: run_named_def run_entries_def\<close>)
    qed (use assms(2) in simp)
  next
    case (step_page rid p n ec et ec' et' ends clk out)
    from persist_cases[OF step_page(3)] show ?thesis
    proof (elim disjE exE conjE)
      fix r and c :: checkpoint_row and rows
      assume rows: "plain_rows rid (map se_key (run_entries rid s)) (dp_items p) = Inr rows"
        and s': "s' = (put_run clk (paged_row ec' et' (dp_page p) (cp_items_seen c + int (length (dp_items p)))) rid s)
          \<lparr>scan_entries := scan_entries s @ rows,
           checkpoints := update_where (\<lambda>c. cp_scan_run_id c = rid)
             (\<lambda>d. d\<lparr>cp_page := dp_page p, cp_items_seen := cp_items_seen c + int (length (dp_items p))\<rparr>)
             (checkpoints s)\<rparr>"
      have "run_entries i s' = run_entries i s" if "i \<noteq> rid" for i
        using page_rows_Inr(2)[OF rows] that by (auto simp: s' run_entries_def filter_empty_conv)
      then show ?thesis
        by (intro quiet[where clk = clk and rid = rid
              and f = "paged_row ec' et' (dp_page p) (cp_items_seen c + int (length (dp_items p)))"])
          (use own_put_named[OF assms(2) step_page(1)] in \<open>auto simp: s' run_named_def paged_row_def\<close>)
    qed (use assms(2) in simp)
  next
    case (step_finish rid st clk code out)
    let ?f = "\<lambda>r. r\<lparr>run_state := st, run_complete := False, run_error_code := Some code\<rparr>"
    from update_run_cases[OF step_finish(3)[unfolded finish_incomplete_def]] show ?thesis
    proof
      assume "s' = put_run clk ?f rid s"
      then show ?thesis
        by (intro quiet[where f = ?f and rid = rid and clk = clk])
          (use own_put_named[OF assms(2) step_finish(1)] in \<open>auto simp: run_named_def run_entries_def\<close>)
    qed (use assms(2) in simp)
  next
    case (step_complete rid clk out)
    then show ?thesis using complete_library_ok assms(2) ok' by blast
  qed
qed

lemma index_steps_library_ok: "index_steps True s s' \<Longrightarrow> library_ok s \<Longrightarrow> library_ok s'"
  by (induction rule: index_steps.induct) (auto intro: index_step_library_ok)

section \<open>Scans that follow one another\<close>

text \<open>
  C9. The ledger shows the latest complete snapshot.  Scans that follow one another, resumed,
  repeated, failed and, at the remote drive, cancelled ones included, keep this: an object is active in the ledger of a
  library, with the data last observed, exactly when the latest complete scan of the library's
  root holds it; every other object of the ledger is missing, with the time since when.
\<close>

theorem ledger_shows_latest_snapshot:
  assumes "index_scan cfg gw fuel new_id key w = Some (out, w')" and "good_gateway True gw"
    and "library_ok (sw_db w)"
  shows "library_ok (sw_db w')"
proof (rule index_steps_library_ok)
  show "index_steps True (sw_db w) (sw_db w')"
    by (rule index_scan_steps[OF assms(1,2)]) (use assms(3) in \<open>simp_all add: library_ok_def index_ok_def\<close>)
qed (rule assms(3))

lemma end_incomplete_result:
  assumes "end_incomplete cfg rid st code w = (Inr res, w')"
  shows "\<not> ix_complete res"
  using assms
  by (auto simp: end_incomplete_def sbind_def session_def finish_incomplete_def update_run_def
      result_for_run_def result_of_def Let_def runs_put_run split: option.splits prod.splits sum.splits if_splits
      dest!: row_of_Some)

lemma end_complete_result:
  assumes "end_complete cfg rid w = (Inr res, w')"
  obtains clk r where "complete_run cfg clk rid (sw_db w) = (Inr (), sw_db w')" "ix_run_id res = rid"
    "row_of run_id rid (runs (sw_db w')) = Some r" "ix_complete res = run_complete r" "res = result_of cfg (sw_db w') r"
proof -
  obtain o1 w1 where f: "session (\<lambda>clk. complete_run cfg clk rid) w = (o1, w1)" by fastforce
  from assms f obtain u where o1: "o1 = Inr u" and res: "session (\<lambda>clk. result_for_run cfg rid) w1 = (Inr res, w')"
    by (auto simp: end_complete_def sbind_def split: sum.splits)
  note same = session_result_same[OF res]
  from session_Some[OF res] same obtain r where r: "row_of run_id rid (runs (sw_db w')) = Some r"
    "res = result_of cfg (sw_db w') r"
    by (auto simp: result_for_run_def split: option.splits)
  have "ix_run_id res = rid" "ix_complete res = run_complete r"
    using r row_of_Some[OF r(1)] by (simp_all add: result_of_def Let_def)
  with session_Some[OF f] o1 same r that show thesis by simp
qed

text \<open>
  C15. A new snapshot unloads the plans of the old ones.  Let a scan be alone, no other session
  writing while it runs, over tables that are sound, and let no completed run have its key, so that
  it is no repetition of an earlier scan.  If it completes, then right after it no plan of the
  library that was made from another run loads for execution, whatever its review state.
\<close>

theorem new_snapshot_unloads_plans:
  assumes "index_scan cfg gw fuel new_id key w = Some (Inr res, w')" and "good_gateway True gw"
    and "library_ok (sw_db w)" and "ix_complete res"
    and "\<And>r. keyed_run cfg key (sw_db w) = Some r \<Longrightarrow> \<not> run_complete r"
    and "get_plan pid (sw_db w') = Some p" and "plan_library_id p = ic_library_id cfg"
    and "plan_source_scan_run_id p \<noteq> ix_run_id res"
  shows "load_executable_steps u digest (sw_db w') clk pid = None"
proof (rule ccontr)
  assume "load_executable_steps u digest (sw_db w') clk pid \<noteq> None"
  then obtain sts where load: "load_executable_steps u digest (sw_db w') clk pid = Some sts" by blast
  from load_Some[OF load] assms(6) obtain lib run where
    ctx: "plan_context (sw_db w') clk p = Some (lib, run)" by (metis option.inject)
  note lib = plan_context_Some[OF ctx]
  have comp: "True \<longrightarrow> (\<forall>r \<in> set (runs (sw_db w)). run_complete r \<longrightarrow> run_state r = SCAN_COMPLETED)"
    and dist: "distinct (map run_id (runs (sw_db w)))"
    using assms(3) by (simp_all add: library_ok_def index_ok_def)
  from index_scan_ends[OF assms(1,2) comp dist] assms(5) obtain rid w1 where
    w1: "index_steps True (sw_db w) (sw_db w1)" "ready True cfg rid (sw_db w1)"
      "scan_end cfg rid w1 (Inr res) w'"
    by blast
  then have "end_complete cfg rid w1 = (Inr res, w')"
    using end_incomplete_result assms(4) unfolding scan_end_def by blast
  from end_complete_result[OF this] obtain c r' where
    c: "complete_run cfg c rid (sw_db w1) = (Inr (), sw_db w')" "ix_run_id res = rid"
    and r': "row_of run_id rid (runs (sw_db w')) = Some r'" "run_complete r'"
    using assms(4) by metis
  have ok1: "library_ok (sw_db w1)" by (rule index_steps_library_ok[OF w1(1) assms(3)])
  note ok1' = ok1[unfolded library_ok_def]
  from c(1) show False
  proof (cases rule: complete_cases)
    case (3 r prev)
    have r: "r \<in> set (runs (sw_db w1))" "run_id r = rid" using row_of_Some[OF 3(1)] by auto
    have own: "own_run True cfg rid (sw_db w1)" using w1(2) by (simp add: ready_def)
    note own = own_put_named[OF ok1 own r]
    have "row_of lib_id (ic_library_id cfg) (libraries (sw_db w1)) = Some lib"
      using lib(1) assms(7) by (simp add: 3(5))
    then have l: "lib \<in> set (libraries (sw_db w1))" "lib_id lib = ic_library_id cfg"
      using row_of_Some by fastforce+
    obtain lib0 where "lib0 \<in> set (libraries (sw_db w1))" "lib_id lib0 = ic_library_id cfg"
      "lib_root_directory_id lib0 = ic_root cfg"
      using ok1' r own by metis
    with l ok1' have "lib_root_directory_id lib = ic_root cfg" by (metis distinct_map inj_onD)
    with l own have "map_option run_id (latest_run lib (sw_db w')) = Some rid"
      unfolding 3(5) using ok1' by (intro completed_latest[OF _ 3(1)]) simp_all
    with lib(11) have "run_id run = rid" by simp
    with row_of_Some[OF lib(2)] assms(8) c(2) show ?thesis by simp
  next
    case (2 r)
    with r' show ?thesis using row_of_Some[OF 2(1)] by (auto simp: runs_put_run)
  qed (use r' in simp)
qed

end
