(* ===== verification/Index_Scan.thy ===== *)
theory Index_Scan
  imports Index_Ledger
begin

text \<open>
  What a whole scan does: it agrees with the plain reading of a directory, it ends, it is
  repeatable, and what an overlapping scan can do to a completed one.
\<close>

section \<open>A scan that is alone\<close>

text \<open>A remote drive that knows nothing of the database.\<close>

definition alone :: "'w gateway \<Rightarrow> 'w index_gateway" where
  "alone rg d n z w = (case rg d n z (sw_remote w) of (rep, x) \<Rightarrow> (rep, w\<lparr>sw_remote := x\<rparr>))"

lemma alone_good [simp]: "good_gateway True (alone rg)"
  by (simp add: good_gateway_def alone_def split: prod.split)

definition row_for :: "pystr \<Rightarrow> lib_entry \<Rightarrow> scan_entry" where
  "row_for rid e = scan_entry_of rid (projr (entry_identity e)) e"

lemma page_rows_all:
  assumes "entries_in_scope rt es = Inr ()" "distinct (map entry_identity es)"
    and "\<And>e. e \<in> set es \<Longrightarrow> projr (entry_identity e) \<notin> set seen"
  shows "plain_rows rid seen es = Inr (map (row_for rid) es)"
  using assms
proof (induction es arbitrary: seen)
  case (Cons e es)
  note scope = Cons.prems(1)[unfolded entries_in_scope_Inr]
  obtain k where k: "entry_identity e = Inr k" using scope by auto
  have "projr (entry_identity e') \<notin> set (k # seen)" if e': "e' \<in> set es" for e'
  proof -
    obtain k' where k': "entry_identity e' = Inr k'" using scope e' by auto
    have "entry_identity e' \<noteq> entry_identity e" using Cons.prems(2) e' by (auto simp: rev_image_eqI)
    with k k' Cons.prems(3)[of e'] e' show ?thesis by simp
  qed
  moreover have "entries_in_scope rt es = Inr ()" using scope by (simp add: entries_in_scope_Inr)
  ultimately have "plain_rows rid (k # seen) es = Inr (map (row_for rid) es)"
    using Cons.IH Cons.prems(2) by simp
  with k Cons.prems(3)[of e] show ?case by (simp add: row_for_def rbind_def)
qed simp

section \<open>Agreement with reading the directory\<close>

lemma take_new_False:
  "take_new es a = (b, False) \<Longrightarrow> sa_items b = sa_items a @ es \<and> sa_expected b = sa_expected a
    \<and> sa_page_count_seen b = sa_page_count_seen a \<and> sa_total b = sa_total a \<and> sa_total_seen b = sa_total_seen a
    \<and> sa_seen_pages b = sa_seen_pages a \<and> sa_page_number b = sa_page_number a"
  by (induction es a rule: take_new.induct) (auto split: if_splits)

lemma no_conflict_next: "\<not> signals_conflict p n ex \<Longrightarrow> dp_next_page p = None \<or> dp_next_page p = Some (n + 1)"
  by (auto simp: signals_conflict_def Let_def)

text \<open>What the two loops know of each other.\<close>

definition same_counts :: "scan_acc \<Rightarrow> int \<Rightarrow> int option \<Rightarrow> int option \<Rightarrow> bool" where
  "same_counts a n ec et \<longleftrightarrow>
     sa_page_number a = n \<and> 1 \<le> n \<and> sa_total_seen a = sa_page_count_seen a
     \<and> (if sa_page_count_seen a then ec = sa_expected a \<and> et = sa_total a else ec = None \<and> et = None)"

lemma partial_incomplete [simp]: "\<not> sr_complete (partial_result a st code)"
  by (simp add: partial_result_def)

text \<open>A turn of \<open>scan_directory\<close> that reads on or completes.\<close>

definition goes_on :: "scan_result + scan_acc \<Rightarrow> bool" where
  "goes_on x \<longleftrightarrow> (case x of Inl r \<Rightarrow> sr_complete r | Inr a \<Rightarrow> True)"

lemma goes_on_simps [simp]:
  "goes_on (Inr a)" "goes_on (Inl r) = sr_complete r"
  by (simp_all add: goes_on_def)

lemma goes_on_if [simp]:
  "goes_on (if b then Inl (partial_result a st code) else x) \<longleftrightarrow> \<not> b \<and> goes_on x"
  by simp

lemma counted_simps [simp]:
  "sa_page_number (counted p a) = sa_page_number a" "sa_items (counted p a) = sa_items a"
  "sa_expected (counted p a) = (if sa_page_count_seen a then sa_expected a else dp_page_count p)"
  "sa_total (counted p a) = (if sa_total_seen a then sa_total a else dp_total p)"
  "sa_page_count_seen (counted p a)" "sa_total_seen (counted p a)"
  "sa_seen_pages (counted p a) = dp_page p # sa_seen_pages a"
  by (simp_all add: counted_def scan_first_def Let_def)

lemma scan_page_goes_on:
  "goes_on (scan_page p a) \<longleftrightarrow>
     dp_page p = sa_page_number a \<and> dp_page p \<notin> set (sa_seen_pages a)
     \<and> (sa_page_count_seen a \<longrightarrow> dp_page_count p = sa_expected a)
     \<and> (sa_total_seen a \<longrightarrow> dp_total p = sa_total a)
     \<and> dp_state p = PAGE_COMPLETE \<and> dp_scan_complete p \<noteq> Some False
     \<and> \<not> signals_conflict p (sa_page_number a) (sa_expected (counted p a))
     \<and> \<not> below (sa_page_number a) (sa_expected (counted p a))
     \<and> \<not> empty_unexplained p (sa_page_number a) (sa_expected (counted p a))
     \<and> goes_on (scan_items p (counted p a))"
  unfolding scan_page_def scan_counted_def Let_def goes_on_if counted_simps(1) by auto

lemma scan_page_is_items: "goes_on (scan_page p a) \<Longrightarrow> scan_page p a = scan_items p (counted p a)"
  unfolding scan_page_goes_on by (auto simp: scan_page_def scan_counted_def Let_def simp del: lit_simps)

lemma scan_items_goes_on:
  assumes "goes_on (scan_items p a)"
  obtains b where "take_new (dp_items p) a = (b, False)" "page_ends p (sa_page_number a) (sa_expected a)"
      "sa_total a = None \<or> sa_total a = Some (int (length (sa_items b)))"
      "scan_items p a = Inl \<lparr>sr_items = sa_items b, sr_pages_read = sa_pages_read b,
         sr_page_count = sa_expected a, sr_total = sa_total b, sr_complete = True,
         sr_state = PAGE_COMPLETE, sr_error_code = None\<rparr>"
  | b next_page where "take_new (dp_items p) a = (b, False)" "\<not> page_ends p (sa_page_number a) (sa_expected a)"
      "sa_expected a \<noteq> None \<or> dp_has_more p = Some True \<or> dp_next_page p \<noteq> None"
      "next_page = (case dp_next_page p of None \<Rightarrow> sa_page_number a + 1 | Some k \<Rightarrow> k)"
      "scan_items p a = Inr (b\<lparr>sa_page_number := next_page\<rparr>)"
proof -
  obtain b new where t: "take_new (dp_items p) a = (b, new)" by fastforce
  have "\<not> new" by (rule notI) (use assms t in \<open>simp add: scan_items_def Let_def\<close>)
  then have t: "take_new (dp_items p) a = (b, False)" using t by simp
  note b = take_new_False[OF t]
  show thesis
  proof (cases "page_ends p (sa_page_number a) (sa_expected a)")
    case True
    with assms t b show thesis by (intro that(1)[OF t True]) (auto simp: scan_items_def Let_def split: if_splits)
  next
    case False
    with assms t show thesis
      by (intro that(2)[OF t False _ refl]) (auto simp: scan_items_def Let_def split: if_splits)
  qed
qed

lemma scan_page_valid:
  assumes "goes_on (scan_page p a)" and "same_counts a n ec et" and "entries_in_scope rt (dp_items p) = Inr ()"
  defines "ec' \<equiv> sa_expected (counted p a)" and "et' \<equiv> sa_total (counted p a)"
  shows "validate_page rt p n ec et = Inr (ec', et', page_ends p n ec')"
    and "dp_page p = n"
    and "page_ends p n ec' \<Longrightarrow> \<exists>r. scan_page p a = Inl r \<and> sr_complete r
      \<and> sr_items r = sa_items a @ dp_items p \<and> (et' = None \<or> et' = Some (int (length (sr_items r))))"
    and "\<not> page_ends p n ec' \<Longrightarrow> \<exists>a'. scan_page p a = Inr a' \<and> same_counts a' (n + 1) ec' et'
      \<and> sa_items a' = sa_items a @ dp_items p"
proof -
  note g = assms(1)[unfolded scan_page_goes_on]
  note c = assms(2)[unfolded same_counts_def]
  have n: "sa_page_number a = n" "1 \<le> n" using c by auto
  show page: "dp_page p = n" using g n by simp
  have ec': "ec' = (if dp_page_count p = None then ec else dp_page_count p)"
    using g c by (auto simp: ec'_def split: if_splits)
  have et': "et' = (if et = None then dp_total p else et)"
    using g c by (auto simp: et'_def split: if_splits)
  have below: "\<not> below n ec'" and conflict: "\<not> signals_conflict p n ec'"
    using g n by (simp_all add: ec'_def)
  have empty: "dp_items p \<noteq> [] \<or> page_ends p n ec'"
    using g n below by (auto simp: empty_unexplained_def page_ends_def ec'_def below_def split: option.splits if_splits)
  have items: "goes_on (scan_items p (counted p a))" using g by simp
  have same: "scan_page p a = scan_items p (counted p a)" by (rule scan_page_is_items[OF assms(1)])
  show r: "\<exists>r. scan_page p a = Inl r \<and> sr_complete r \<and> sr_items r = sa_items a @ dp_items p
      \<and> (et' = None \<or> et' = Some (int (length (sr_items r))))" if "page_ends p n ec'"
    using items
  proof (cases rule: scan_items_goes_on)
    case (1 b)
    with take_new_False[OF 1(1)] show ?thesis by (simp add: same et'_def)
  qed (use that n in \<open>simp add: ec'_def\<close>)
  show a': "\<exists>a'. scan_page p a = Inr a' \<and> same_counts a' (n + 1) ec' et'
      \<and> sa_items a' = sa_items a @ dp_items p" if "\<not> page_ends p n ec'"
    using items
  proof (cases rule: scan_items_goes_on)
    case (2 b next_page)
    have "next_page = n + 1" using no_conflict_next[OF conflict] n 2(4) by auto
    with 2 take_new_False[OF 2(1)] n show ?thesis by (simp add: same same_counts_def ec'_def et'_def)
  qed (use that n in \<open>simp add: ec'_def\<close>)
  have on: "ec' \<noteq> None \<or> dp_has_more p = Some True \<or> dp_next_page p \<noteq> None" if "\<not> page_ends p n ec'"
    using items
  proof (cases rule: scan_items_goes_on)
    case (2 b next_page)
    then show ?thesis by (simp add: ec'_def)
  qed (use that n in \<open>simp add: ec'_def\<close>)
  have total: "\<not> below 0 et'" if "page_ends p n ec'"
    using r[OF that] by (auto simp: below_def)
  have count: "\<not> (dp_page_count p \<noteq> None \<and> (below 1 (dp_page_count p) \<or> below n (dp_page_count p)))"
    using below n(2) by (auto simp: ec' below_def)
  have counts: "\<not> (dp_page_count p \<noteq> None \<and> ec \<noteq> None \<and> dp_page_count p \<noteq> ec)"
    "\<not> (et \<noteq> None \<and> dp_total p \<noteq> et)"
    using g c by (auto split: if_splits)
  have go: "page_ends p n ec' \<or> (ec' \<noteq> None \<and> \<not> below (n + 1) ec') \<or> dp_has_more p = Some True
      \<or> dp_next_page p \<noteq> None"
    using on below by (cases "page_ends p n ec'") (auto simp: page_ends_def below_def split: option.splits)
  show "validate_page rt p n ec et = Inr (ec', et', page_ends p n ec')"
    unfolding validate_page_def Let_def ec'[symmetric] et'[symmetric] page_ends_def[symmetric]
      if_not_P[OF count] if_not_P[OF counts(1)] if_not_P[OF counts(2)]
    using g n page conflict empty total go by (auto simp: assms(3) rbind_def)
qed

lemma scan_page_extends:
  assumes "goes_on (scan_page p a)"
  shows "case scan_page p a of Inl r \<Rightarrow> sr_items r = sa_items a @ dp_items p
    | Inr a' \<Rightarrow> sa_items a' = sa_items a @ dp_items p"
proof -
  have items: "goes_on (scan_items p (counted p a))" using assms by (simp add: scan_page_goes_on)
  from items show ?thesis
  proof (cases rule: scan_items_goes_on)
    case (1 b)
    with take_new_False[OF 1(1)] show ?thesis by (simp add: scan_page_is_items[OF assms])
  next
    case (2 b next_page)
    with take_new_False[OF 2(1)] show ?thesis by (simp add: scan_page_is_items[OF assms])
  qed
qed

lemma scan_loop_goes_on:
  assumes "scan_directory_loop rg d z (Suc fuel) a x = Some (Inr r, x')" "sr_complete r"
  obtains p x1 where "rg d (sa_page_number a) z x = (GwPage p, x1)" "goes_on (scan_page p a)"
    "case scan_page p a of Inl r' \<Rightarrow> r' = r \<and> x' = x1
       | Inr a' \<Rightarrow> scan_directory_loop rg d z fuel a' x1 = Some (Inr r, x')"
  using assms by (auto split: prod.splits gw_reply.splits sum.splits)

lemma scan_loop_extends:
  assumes "scan_directory_loop rg d z fuel a x = Some (Inr r, x')" "sr_complete r"
  shows "\<exists>ys. sr_items r = sa_items a @ ys"
  using assms
proof (induction fuel arbitrary: a x)
  case (Suc fuel)
  from scan_loop_goes_on[OF Suc.prems] obtain p x1 where p: "goes_on (scan_page p a)"
    "case scan_page p a of Inl r' \<Rightarrow> r' = r \<and> x' = x1
       | Inr a' \<Rightarrow> scan_directory_loop rg d z fuel a' x1 = Some (Inr r, x')" by metis
  show ?case
  proof (cases "scan_page p a")
    case (Inl r')
    with p scan_page_extends[OF p(1)] show ?thesis by simp
  next
    case (Inr a')
    with p Suc.IH[of a' x1] Suc.prems(2) scan_page_extends[OF p(1)] show ?thesis by auto
  qed
qed simp

text \<open>The database after the pages of \<open>es\<close> have been stored for the run.\<close>

definition stored :: "pystr \<Rightarrow> lib_entry list \<Rightarrow> store \<Rightarrow> bool" where
  "stored rid es s \<longleftrightarrow> row_of run_id rid (runs s) \<noteq> None
     \<and> map_option cp_items_seen (row_of cp_scan_run_id rid (checkpoints s)) = Some (int (length es))
     \<and> run_entries rid s = map (row_for rid) es"

lemma persist_stored:
  assumes "stored rid es s" and "entries_in_scope rt (es @ dp_items p) = Inr ()"
    and "distinct (map entry_identity (es @ dp_items p))"
    and "\<not> list_ex (ic_refuses cfg) (map (row_for rid) (dp_items p))"
  shows "\<exists>s'. persist_page cfg clk rid p ec et s = (Inr (), s') \<and> stored rid (es @ dp_items p) s'
    \<and> (\<exists>r. row_of run_id rid (runs s') = Some r \<and> run_expected_total r = et
         \<and> run_items_seen r = int (length (es @ dp_items p)))"
proof -
  obtain r c where r: "row_of run_id rid (runs s) = Some r" and c: "row_of cp_scan_run_id rid (checkpoints s) = Some c"
    "cp_items_seen c = int (length es)"
    using assms(1) by (auto simp: stored_def)
  note id = row_of_Some[OF r] row_of_Some[OF c(1)]
  have scope: "\<exists>k. entry_identity e = Inr k" if "e \<in> set (es @ dp_items p)" for e
    using assms(2) that unfolding entries_in_scope_Inr by blast
  have keys: "map se_key (run_entries rid s) = map (\<lambda>e. projr (entry_identity e)) es"
    using assms(1) by (simp add: stored_def row_for_def)
  have new: "projr (entry_identity e) \<notin> set (map se_key (run_entries rid s))" if e: "e \<in> set (dp_items p)" for e
  proof
    assume "projr (entry_identity e) \<in> set (map se_key (run_entries rid s))"
    then obtain e' where e': "e' \<in> set es" "projr (entry_identity e) = projr (entry_identity e')"
      unfolding keys by auto
    with scope[of e] scope[of e'] e have "entry_identity e = entry_identity e'" by auto
    with assms(3) e e'(1) show False by (auto simp: rev_image_eqI)
  qed
  have "entries_in_scope rt (dp_items p) = Inr ()"
    using assms(2) unfolding entries_in_scope_Inr by simp
  from page_rows_all[OF this _ new] assms(3)
  have rows: "plain_rows rid (map se_key (run_entries rid s)) (dp_items p) = Inr (map (row_for rid) (dp_items p))"
    by simp
  let ?n = "cp_items_seen c + int (length (dp_items p))"
  let ?s = "(put_run clk (paged_row ec et (dp_page p) ?n) rid s)
    \<lparr>scan_entries := scan_entries s @ map (row_for rid) (dp_items p),
     checkpoints := update_where (\<lambda>c. cp_scan_run_id c = rid)
       (\<lambda>c. c\<lparr>cp_page := dp_page p, cp_items_seen := ?n\<rparr>) (checkpoints s)\<rparr>"
  have "page_rows (ic_refuses cfg) rid (map se_key (run_entries rid s)) [] False (dp_items p)
      = Inr (map (row_for rid) (dp_items p))"
    using rows assms(4) by (simp add: page_rows_plain)
  then have persisted: "persist_page cfg clk rid p ec et s = (Inr (), ?s)"
    by (simp add: persist_page_def r c Let_def paged_row_def[abs_def])
  have run: "row_of run_id rid (runs ?s) = Some (touched clk r (paged_row ec et (dp_page p) ?n r))"
    using r id by (simp add: runs_put_run paged_row_def)
  have "map_option cp_items_seen (row_of cp_scan_run_id rid (checkpoints ?s)) = Some ?n"
    using c id by (simp add: row_of_update)
  moreover have "run_entries rid ?s = map (row_for rid) (es @ dp_items p)"
    using assms(1) by (simp add: stored_def run_entries_def filter_map comp_def row_for_def)
  ultimately have "stored rid (es @ dp_items p) ?s" using run c by (simp add: stored_def)
  with persisted run c show ?thesis by (intro exI[of _ ?s]) (simp add: paged_row_def)
qed

lemma end_complete_ok:
  assumes "row_of run_id rid (runs (sw_db w)) = Some r"
    and "run_expected_total r = None \<or> run_expected_total r = Some (run_items_seen r)"
  shows "\<exists>res w'. end_complete cfg rid w = (Inr res, w') \<and> ix_state res = SCAN_COMPLETED \<and> ix_complete res
    \<and> ix_run_id res = rid \<and> ix_items_seen res = run_items_seen r
    \<and> run_entries rid (sw_db w') = run_entries rid (sw_db w) \<and> sw_remote w' = sw_remote w"
proof -
  obtain out s' where c: "complete_run cfg (sw_clock w) rid (sw_db w) = (out, s')" by fastforce
  then show ?thesis
  proof (cases rule: complete_cases)
    case (3 r' prev)
    then have "r' = r" using assms(1) by simp
    with 3 c row_of_Some[OF assms(1)] show ?thesis
      by (auto simp: end_complete_def sbind_def session_def result_for_run_def runs_put_run result_of_def
          Let_def run_entries_def)
  qed (use assms in auto)
qed

lemma loop_agrees:
  assumes "scan_directory_loop rg (ic_root cfg) (ic_page_size cfg) fuel a (sw_remote w) = Some (Inr r, x')"
    and "sr_complete r" and "entries_in_scope (ic_root cfg) (sr_items r) = Inr ()"
    and "distinct (map entry_identity (sr_items r))"
    and "\<not> list_ex (ic_refuses cfg) (map (row_for rid) (sr_items r))"
    and "same_counts a n ec et" and "stored rid (sa_items a) (sw_db w)"
  shows "\<exists>res w'. index_loop cfg (alone rg) rid fuel n ec et w = Some (Inr res, w')
    \<and> ix_state res = SCAN_COMPLETED \<and> ix_complete res \<and> ix_run_id res = rid
    \<and> ix_items_seen res = int (length (sr_items r))
    \<and> run_entries rid (sw_db w') = map (row_for rid) (sr_items r) \<and> sw_remote w' = x'"
  using assms(1,6,7)
proof (induction fuel arbitrary: a w n ec et)
  case (Suc fuel)
  from scan_loop_goes_on[OF Suc.prems(1) assms(2)] obtain p x1 where
    p: "rg (ic_root cfg) (sa_page_number a) (ic_page_size cfg) (sw_remote w) = (GwPage p, x1)"
      "goes_on (scan_page p a)"
    and next_turn: "case scan_page p a of Inl r' \<Rightarrow> r' = r \<and> x' = x1
       | Inr a' \<Rightarrow> scan_directory_loop rg (ic_root cfg) (ic_page_size cfg) fuel a' x1 = Some (Inr r, x')" .
  have n: "sa_page_number a = n" using Suc.prems(2) by (simp add: same_counts_def)
  obtain ys where items: "sr_items r = (sa_items a @ dp_items p) @ ys"
  proof (cases "scan_page p a")
    case (Inl r')
    with next_turn scan_page_extends[OF p(2)] show thesis by (intro that[of "[]"]) simp
  next
    case (Inr a')
    with next_turn scan_page_extends[OF p(2)] scan_loop_extends[of rg _ _ fuel a' x1 r x'] assms(2) that
    show thesis by auto
  qed
  have scope: "entries_in_scope (ic_root cfg) (sa_items a @ dp_items p) = Inr ()"
    "entries_in_scope (ic_root cfg) (dp_items p) = Inr ()"
    using assms(3) unfolding items entries_in_scope_Inr by auto
  have dist: "distinct (map entry_identity (sa_items a @ dp_items p))"
    and refuses: "\<not> list_ex (ic_refuses cfg) (map (row_for rid) (dp_items p))"
    using assms(4,5) unfolding items by auto
  note valid = scan_page_valid[OF p(2) Suc.prems(2) scope(2)]
  let ?ec = "sa_expected (counted p a)" and ?et = "sa_total (counted p a)"
  let ?w1 = "w\<lparr>sw_remote := x1\<rparr>"
  have gw: "alone rg (ic_root cfg) n (ic_page_size cfg) w = (GwPage p, ?w1)" using p(1) n by (simp add: alone_def)
  from persist_stored[OF Suc.prems(3) scope(1) dist refuses] obtain s' r1 where
    persist: "persist_page cfg (sw_clock w) rid p ?ec ?et (sw_db w) = (Inr (), s')"
    and st: "stored rid (sa_items a @ dp_items p) s'"
    and r1: "row_of run_id rid (runs s') = Some r1" "run_expected_total r1 = ?et"
      "run_items_seen r1 = int (length (sa_items a @ dp_items p))" by blast
  let ?w2 = "?w1\<lparr>sw_db := s'\<rparr>"
  have session: "session (\<lambda>clk. persist_page cfg clk rid p ?ec ?et) ?w1 = (Inr (), ?w2)"
    using persist by (simp add: session_def)
  show ?case
  proof (cases "page_ends p n ?ec")
    case True
    from valid(3)[OF True] next_turn have r: "sr_items r = sa_items a @ dp_items p"
      "?et = None \<or> ?et = Some (int (length (sr_items r)))" "x' = x1" by auto
    have "index_loop cfg (alone rg) rid (Suc fuel) n ec et w = Some (end_complete cfg rid ?w2)"
      using True by (simp add: gw valid(1) session del: counted_simps)
    moreover have "\<exists>res w'. end_complete cfg rid ?w2 = (Inr res, w') \<and> ix_state res = SCAN_COMPLETED
      \<and> ix_complete res \<and> ix_run_id res = rid \<and> ix_items_seen res = run_items_seen r1
      \<and> run_entries rid (sw_db w') = run_entries rid (sw_db ?w2) \<and> sw_remote w' = sw_remote ?w2"
      by (rule end_complete_ok) (use r1 r in auto)
    ultimately show ?thesis using r1 r st by (auto simp: stored_def)
  next
    case False
    from valid(4)[OF False] next_turn obtain a' where
      a': "scan_directory_loop rg (ic_root cfg) (ic_page_size cfg) fuel a' (sw_remote ?w2) = Some (Inr r, x')"
        "same_counts a' (n + 1) ?ec ?et" "sa_items a' = sa_items a @ dp_items p" by auto
    have "index_loop cfg (alone rg) rid (Suc fuel) n ec et w
      = index_loop cfg (alone rg) rid fuel (n + 1) ?ec ?et ?w2"
      using False by (simp add: gw valid(1) session del: counted_simps)
    with Suc.IH[OF a'(1,2)] a'(3) st show ?thesis by simp
  qed
qed simp

text \<open>
  C10. What the plain reading reads completely, the index stores.  Let the key be valid and used by
  no run of the library, the identifier of the run new, the library enabled and verified for the
  root, the tables sound, and no other session at work.  If \<open>scan_directory\<close> reads the root
  completely, and the entries it reads lie in the root, have distinct identities and are storable,
  then the scan of the index over the same remote drive completes too, leaves the drive in the same
  state, and its snapshot holds the entries read, in their order.  Only this direction holds: the
  index also accepts a page count that appears on a later page than the first.
\<close>

theorem index_agrees_with_scan:
  assumes "scan_directory rg (ic_root cfg) (ic_page_size cfg) fuel (sw_remote w) = Some (Inr r, x')"
    and "sr_complete r" and "entries_in_scope (ic_root cfg) (sr_items r) = Inr ()"
    and "distinct (map entry_identity (sr_items r))"
    and "\<not> list_ex (ic_refuses cfg) (map (row_for new_id) (sr_items r))"
    and "index_key key" and "verify_index_scope cfg (sw_db w) = (Inr (), sw_db w)"
    and "keyed_run cfg key (sw_db w) = None" and "index_ok (sw_db w)"
    and "new_id \<notin> run_id ` set (runs (sw_db w))"
  shows "\<exists>res w'. index_scan cfg (alone rg) fuel new_id key w = Some (Inr res, w')
    \<and> ix_state res = SCAN_COMPLETED \<and> ix_complete res \<and> ix_run_id res = new_id
    \<and> ix_items_seen res = int (length (sr_items r))
    \<and> run_entries new_id (sw_db w') = map (row_for new_id) (sr_items r) \<and> sw_remote w' = x'"
proof -
  let ?s = "sw_db w" and ?f = "fresh_run cfg key new_id (sw_clock w)"
  let ?s1 = "?s\<lparr>runs := runs ?s @ [?f],
    checkpoints := checkpoints ?s @ [\<lparr>cp_scan_run_id = new_id, cp_page = 0, cp_items_seen = 0\<rparr>]\<rparr>"
  let ?w1 = "w\<lparr>sw_db := ?s1\<rparr>"
  have lib: "row_of lib_id (ic_library_id cfg) (libraries ?s) \<noteq> None"
    using assms(7) by (auto simp: verify_index_scope_def split: option.splits)
  have create: "sbind (session (\<lambda>clk. verify_index_scope cfg)) (\<lambda>_. session (get_or_create_run cfg key new_id)) w
      = (Inr ?f, ?w1)"
    using assms(7,8,10) lib by (simp add: sbind_def session_def get_or_create_run_def)
  have none: "row_of run_id new_id (runs ?s) = None" "row_of cp_scan_run_id new_id (checkpoints ?s) = None"
    "run_entries new_id ?s = []"
    using assms(9,10) by (auto simp: index_ok_def row_of_None intro!: run_entries_nil)
  let ?s2 = "put_run (sw_clock w) (\<lambda>r. r\<lparr>run_state := SCAN_RUNNING, run_error_code := None\<rparr>) new_id ?s1"
  let ?w2 = "?w1\<lparr>sw_db := ?s2\<rparr>"
  have f: "run_id ?f = new_id" "\<not> run_complete ?f" "run_expected_page_count ?f = None" "run_expected_total ?f = None"
    by (simp_all add: fresh_run_def)
  have mark: "sbind (session (\<lambda>clk. mark_running clk new_id)) (\<lambda>_. session (\<lambda>clk. checkpoint_for_run new_id)) ?w1
      = (Inr \<lparr>cp_scan_run_id = new_id, cp_page = 0, cp_items_seen = 0\<rparr>, ?w2)"
    using none f by (simp add: sbind_def session_def mark_running_def update_run_def checkpoint_for_run_def row_of_append)
  have scan: "index_scan cfg (alone rg) fuel new_id key w = index_loop cfg (alone rg) new_id fuel 1 None None ?w2"
    using assms(6) f by (simp add: index_scan_def create index_resume_def mark)
  have loop: "scan_directory_loop rg (ic_root cfg) (ic_page_size cfg) fuel scan_start (sw_remote ?w2) = Some (Inr r, x')"
    using assms(1) by (simp add: scan_directory_def split: if_splits)
  have "same_counts scan_start 1 None None" by (simp add: same_counts_def scan_start_def)
  moreover have "stored new_id (sa_items scan_start) (sw_db ?w2)"
    using none f by (simp add: stored_def scan_start_def runs_put_run row_of_append run_entries_def)
  ultimately show ?thesis unfolding scan
    by (rule loop_agrees[OF loop assms(2-5)])
qed

section \<open>A scan ends\<close>

lemma index_loop_ends_in:
  assumes "finite U" and "\<And>d n z x p x' e k. rg d n z x = (GwPage p, x') \<Longrightarrow> e \<in> set (dp_items p)
      \<Longrightarrow> entry_identity e = Inr k \<Longrightarrow> k \<in> U"
    and "card (U - set (map se_key (run_entries rid (sw_db w)))) < fuel"
  shows "\<exists>out. index_loop cfg (alone rg) rid fuel n ec et w = Some out"
  using assms(3)
proof (induction fuel arbitrary: n ec et w)
  case (Suc fuel)
  obtain rep x1 where rg: "rg (ic_root cfg) n (ic_page_size cfg) (sw_remote w) = (rep, x1)" by fastforce
  let ?w1 = "w\<lparr>sw_remote := x1\<rparr>"
  have gw: "alone rg (ic_root cfg) n (ic_page_size cfg) w = (rep, ?w1)" by (simp add: alone_def rg)
  show ?case
  proof (cases rep)
    case (GwPage p)
    show ?thesis
    proof (cases "validate_page (ic_root cfg) p n ec et")
      case (Inr v)
      obtain ec' et' ends where v: "v = (ec', et', ends)" by (cases v)
      note val = validate_page_Inr[OF Inr[unfolded v]]
      obtain o2 w2 where p2: "session (\<lambda>clk. persist_page cfg clk rid p ec' et') ?w1 = (o2, w2)" by fastforce
      show ?thesis
      proof (cases "o2 = Inr () \<and> \<not> ends")
        case False
        with gw GwPage Inr v p2 show ?thesis by (cases o2) auto
      next
        case True
        with persist_cases[OF session_Some[OF p2]] obtain rows where
          rows: "plain_rows rid (map se_key (run_entries rid (sw_db w))) (dp_items p) = Inr rows"
          "scan_entries (sw_db w2) = scan_entries (sw_db w) @ rows" by auto
        note pr = page_rows_Inr[OF rows(1)]
        have entries: "run_entries rid (sw_db w2) = run_entries rid (sw_db w) @ rows"
          using pr(2) rows(2) by (simp add: run_entries_def filter_id_conv)
        have "rows \<noteq> []" using pr(1) val(5) True by auto
        then obtain r0 where r0: "r0 \<in> set rows" by (cases rows) auto
        from r0 obtain i where i: "i < length rows" "rows ! i = r0" by (auto simp: in_set_conv_nth)
        have "dp_items p ! i \<in> set (dp_items p)" "entry_identity (dp_items p ! i) = Inr (se_key r0)"
          using pr(1,5) i by (auto simp: list_all2_conv_all_nth)
        with assms(2)[OF rg[unfolded GwPage]] have "se_key r0 \<in> U" by blast
        moreover have "se_key r0 \<notin> set (map se_key (run_entries rid (sw_db w)))" using pr(4) r0 by auto
        ultimately have "card (U - set (map se_key (run_entries rid (sw_db w2))))
            < card (U - set (map se_key (run_entries rid (sw_db w))))"
          using assms(1) r0 by (intro psubset_card_mono) (auto simp: entries)
        with Suc.prems have "card (U - set (map se_key (run_entries rid (sw_db w2)))) < fuel" by simp
        from Suc.IH[OF this] gw GwPage Inr v p2 True show ?thesis by simp
      qed
    qed (simp add: gw GwPage)
  qed (simp_all add: gw)
qed simp

text \<open>
  C28. A scan ends.  If the pages a remote drive can serve name only finitely many objects, every
  scan over it returns after at most one page more than there are objects, whatever the drive
  says of page counts and further pages.
\<close>

theorem index_scan_terminates:
  assumes "finite U" and "\<And>d n z x p x' e k. rg d n z x = (GwPage p, x') \<Longrightarrow> e \<in> set (dp_items p)
      \<Longrightarrow> entry_identity e = Inr k \<Longrightarrow> k \<in> U"
  shows "\<exists>out w'. index_scan cfg (alone rg) (Suc (card U)) new_id key w = Some (out, w')"
proof -
  have loop: "\<exists>out. index_loop cfg (alone rg) rid (Suc (card U)) n ec et w1 = Some out" for rid n ec et w1
  proof (rule index_loop_ends_in[OF assms])
    show "card (U - set (map se_key (run_entries rid (sw_db w1)))) < Suc (card U)"
      using card_mono[OF assms(1), of "U - set (map se_key (run_entries rid (sw_db w1)))"] by auto
  qed
  have resume: "\<exists>out. index_resume cfg (alone rg) (Suc (card U)) r w1 = Some out" for r w1
    using loop by (auto simp: index_resume_def split: prod.splits sum.splits)
  show ?thesis
    using resume by (auto simp: index_scan_def split: prod.splits sum.splits)
qed

end
