(* ===== verification/Index_Race.thy ===== *)
theory Index_Race
  imports Index_Ledger
begin

text \<open>
  Scans under the same idempotency key: one after the other, where the second repeats the result
  of the first, and one beside the other, where the slower one can take the result back.
\<close>

section \<open>One after the other\<close>

lemma index_scan_repeated:
  assumes "index_key key" and "verify_index_scope cfg (sw_db w) = (Inr (), sw_db w)"
    and "keyed_run cfg key (sw_db w) = Some r" and "run_root_directory_id r = ic_root cfg"
    and "run_complete r" "run_state r = SCAN_COMPLETED"
    and "row_of run_id (run_id r) (runs (sw_db w)) = Some r"
  shows "index_scan cfg gw fuel new_id key w = Some (Inr (result_of cfg (sw_db w) r), w)"
  using assms
  by (simp add: index_scan_def sbind_def session_def get_or_create_run_def result_for_run_def)

lemma index_scan_key:
  assumes "index_scan cfg gw fuel new_id key w = Some (Inr res, w')"
  shows "index_key key" and "verify_index_scope cfg (sw_db w) = (Inr (), sw_db w)"
proof -
  show "index_key key" using assms by (auto simp: index_scan_def split: if_splits)
  show "verify_index_scope cfg (sw_db w) = (Inr (), sw_db w)"
    using assms by (auto simp: index_scan_def sbind_def session_def verify_index_scope_def
        split: if_splits option.splits)
qed

lemma steps_libraries: "index_steps b s s' \<Longrightarrow> libraries s' = libraries s"
  by (induction rule: index_steps.induct) (auto dest: step_runs(1))

text \<open>
  A completed scan repeats.  Once a scan under an idempotency key has completed, every further
  scan under the key returns the same result and changes nothing, whatever the remote drive would
  answer now: it is not asked.
\<close>

theorem completed_scan_repeats:
  assumes "index_scan cfg gw fuel new_id key w = Some (Inr res, w')" and "good_gateway True gw"
    and "library_ok (sw_db w)" and "ix_complete res"
  shows "index_scan cfg gw' fuel' new_id' key w' = Some (Inr res, w')"
proof -
  have comp: "True \<longrightarrow> (\<forall>r \<in> set (runs (sw_db w)). run_complete r \<longrightarrow> run_state r = SCAN_COMPLETED)"
    and dist: "distinct (map run_id (runs (sw_db w)))"
    using assms(3) by (simp_all add: library_ok_def index_ok_def)
  note key = index_scan_key[OF assms(1)]
  have worked: ?thesis
    if w1: "index_steps True (sw_db w) (sw_db w1)" "ready True cfg (run_id r) (sw_db w1)"
      "scan_end cfg (run_id r) w1 (Inr res) w'"
      and r1: "keyed_run cfg key (sw_db w1) = Some r1" "run_id r1 = run_id r" for r w1 r1
  proof -
    note last = scan_end_step[OF w1(3,2)]
    note steps = steps_more[OF w1(1) last]
    have ok1: "library_ok (sw_db w1)" and ok': "library_ok (sw_db w')"
      by (rule index_steps_library_ok[OF w1(1) assms(3)], rule index_steps_library_ok[OF steps assms(3)])
    have dist1: "distinct (map run_id (runs (sw_db w1)))" and dist': "distinct (map run_id (runs (sw_db w')))"
      and comp': "\<forall>r \<in> set (runs (sw_db w')). run_complete r \<longrightarrow> run_state r = SCAN_COMPLETED"
      using ok1 ok' by (simp_all add: library_ok_def index_ok_def)
    from w1(3) assms(4) end_incomplete_result have "end_complete cfg (run_id r) w1 = (Inr res, w')"
      unfolding scan_end_def by blast
    from end_complete_result[OF this] obtain r' where
      r': "row_of run_id (run_id r) (runs (sw_db w')) = Some r'" "run_complete r'" "res = result_of cfg (sw_db w') r'"
      using assms(4) by metis
    have "row_of run_id (run_id r) (runs (sw_db w1)) = Some r1"
      using row_of_unique[OF dist1 keyed_run_Some(1)[OF r1(1)]] r1(2) by simp
    then have "run_root_directory_id r1 = ic_root cfg" using w1(2) by (simp add: ready_def own_run_def)
    moreover from keyed_run_step[OF last r1(1)] obtain r2 where
      r2: "keyed_run cfg key (sw_db w') = Some r2" "run_named r1 r2" by blast
    ultimately have root2: "run_root_directory_id r2 = ic_root cfg" by (simp add: run_named_def)
    have "row_of run_id (run_id r2) (runs (sw_db w')) = Some r2"
      by (rule row_of_unique[OF dist' keyed_run_Some(1)[OF r2(1)]])
    with r'(1) r1(2) r2(2) have eq: "r2 = r'" by (simp add: run_named_def)
    have scope: "verify_index_scope cfg (sw_db w') = (Inr (), sw_db w')"
      using key(2) steps_libraries[OF steps] by (auto simp: verify_index_scope_def split: option.splits if_splits)
    have "run_state r' = SCAN_COMPLETED" using comp' r' row_of_Some[OF r'(1)] by simp
    with index_scan_repeated[OF key(1) scope r2(1) root2] r' r1(2) r2(2) eq row_of_Some[OF r'(1)]
    show ?thesis by simp
  qed
  from index_scan_ends[OF assms(1,2) comp dist] show ?thesis
  proof (elim disjE exE conjE)
    fix r
    assume r: "keyed_run cfg key (sw_db w) = Some r" "run_complete r" "run_state r = SCAN_COMPLETED"
      and w': "sw_db w' = sw_db w"
    have row: "row_of run_id (run_id r) (runs (sw_db w)) = Some r"
      by (rule row_of_unique[OF dist keyed_run_Some(1)[OF r(1)]])
    have "run_root_directory_id r = ic_root cfg"
      using assms(1) key r(1) by (auto simp: index_scan_def sbind_def session_def get_or_create_run_def split: if_splits)
    note rep = index_scan_repeated[OF key r(1) this r(2,3) row]
    from rep[of gw fuel new_id] assms(1) have "w' = w" "res = result_of cfg (sw_db w) r" by simp_all
    with rep show ?thesis by simp
  qed (blast intro: worked, blast intro: worked, simp)
qed

section \<open>One beside the other\<close>

text \<open>
  C29. A late failure takes a completed snapshot back.  \<open>_finish_incomplete\<close> does not look at the
  state of the run.  When the remote drive fails for a scan whose run another scan under the same
  key has completed in the meantime, the run becomes failed and incomplete, and no plan made from
  its snapshot loads for execution any more.
\<close>

theorem late_failure_revokes_snapshot:
  assumes "gw (ic_root cfg) n (ic_page_size cfg) w = (GwError, w1)"
    and "row_of run_id rid (runs (sw_db w1)) = Some r"
  shows "\<exists>res w'. index_loop cfg gw rid (Suc fuel) n ec et w = Some (Inr res, w')
    \<and> ix_state res = SCAN_FAILED \<and> \<not> ix_complete res
    \<and> ix_snapshot_revision res = run_snapshot_revision r
    \<and> (\<forall>pid p u digest clk. get_plan pid (sw_db w') = Some p \<and> plan_source_scan_run_id p = rid
        \<longrightarrow> load_executable_steps u digest (sw_db w') clk pid = None)"
proof -
  define w' where "w' = w1\<lparr>sw_db := put_run (sw_clock w1)
    (\<lambda>r. r\<lparr>run_state := SCAN_FAILED, run_complete := False, run_error_code := Some (lit ''gateway_error'')\<rparr>)
    rid (sw_db w1)\<rparr>"
  obtain r' where r': "row_of run_id rid (runs (sw_db w')) = Some r'" "run_state r' = SCAN_FAILED"
    "\<not> run_complete r'" "run_snapshot_revision r' = run_snapshot_revision r"
    using row_of_Some[OF assms(2)] by (simp add: w'_def runs_put_run assms(2))
  have "index_loop cfg gw rid (Suc fuel) n ec et w = Some (Inr (result_of cfg (sw_db w') r'), w')"
    using assms r'(1)
    by (simp add: end_incomplete_def sbind_def session_def finish_incomplete_def update_run_def
        result_for_run_def w'_def)
  moreover have "load_executable_steps u digest (sw_db w') clk pid = None"
    if p: "get_plan pid (sw_db w') = Some p" "plan_source_scan_run_id p = rid" for pid p u digest clk
  proof (rule ccontr)
    assume "load_executable_steps u digest (sw_db w') clk pid \<noteq> None"
    then obtain sts where "load_executable_steps u digest (sw_db w') clk pid = Some sts" by blast
    from load_Some[OF this] p(1) obtain lib run where
      "plan_context (sw_db w') clk p = Some (lib, run)" by (metis option.inject)
    from plan_context_Some(2,8)[OF this] p(2) r' show False by simp
  qed
  ultimately show ?thesis using r' by (intro exI[of _ "result_of cfg (sw_db w') r'"] exI[of _ w'])
    (auto simp: result_of_def Let_def)
qed

end
