(* ===== verification/Index_Cancellation.thy ===== *)
theory Index_Cancellation
  imports Index_Props
begin

text \<open>
  \<^verbatim>\<open>LibraryIndexService.scan\<close> with the cancellation of its task.  A cancellation surfaces as
  \<^verbatim>\<open>CancelledError\<close> at whatever \<^verbatim>\<open>await\<close> the scan has reached: at the gateway, which
  \<open>GwCancelled\<close> stands for, or in one of its sessions, where the transaction is then rolled back or
  already committed.  Inside the \<^verbatim>\<open>try\<close> the handler marks the run cancelled; the handler itself
  can be cancelled again.  Without a cancellation in a session this is \<open>index_scan\<close>.
\<close>

section \<open>Awaiting a session\<close>

datatype cancel = NotCancelled | CancelledBefore | CancelledAfter

datatype scan_exn = Raised index_error | CancelledError

text \<open>The sessions of a scan are numbered; \<open>cn\<close> tells what happens at each.\<close>

type_synonym ('w, 'a) await_act = "(nat \<times> 'w scan_world, scan_exn, 'a) act"

definition awaiting :: "(nat \<Rightarrow> cancel) \<Rightarrow> ('w, 'a) scan_act \<Rightarrow> ('w, 'a) await_act" where
  "awaiting cn f x =
     (case x of (k, w) \<Rightarrow>
       (case f w of (out, w') \<Rightarrow>
         (case cn k of
            NotCancelled \<Rightarrow> (map_sum Raised id out, (k + 1, w'))
          | CancelledBefore \<Rightarrow> (Inl CancelledError, (k + 1, w))
          | CancelledAfter \<Rightarrow> (Inl CancelledError, (k + 1, w')))))"

section \<open>The scan\<close>

definition end_incomplete_awaits ::
  "(nat \<Rightarrow> cancel) \<Rightarrow> index_config \<Rightarrow> pystr \<Rightarrow> scan_run_state \<Rightarrow> pystr \<Rightarrow> ('w, index_result) await_act" where
  "end_incomplete_awaits cn cfg rid st code =
     sbind (awaiting cn (session (\<lambda>clk. finish_incomplete clk rid st code))) (\<lambda>_.
     awaiting cn (session (\<lambda>clk. result_for_run cfg rid)))"

definition end_complete_awaits ::
  "(nat \<Rightarrow> cancel) \<Rightarrow> index_config \<Rightarrow> pystr \<Rightarrow> ('w, index_result) await_act" where
  "end_complete_awaits cn cfg rid =
     sbind (awaiting cn (session (\<lambda>clk. complete_run cfg clk rid))) (\<lambda>_.
     awaiting cn (session (\<lambda>clk. result_for_run cfg rid)))"

fun index_loop_awaits ::
  "(nat \<Rightarrow> cancel) \<Rightarrow> index_config \<Rightarrow> 'w index_gateway \<Rightarrow> pystr \<Rightarrow> nat \<Rightarrow> int \<Rightarrow> int option \<Rightarrow> int option
    \<Rightarrow> nat \<times> 'w scan_world \<Rightarrow> ((scan_exn + index_result) \<times> nat \<times> 'w scan_world) option" where
  "index_loop_awaits cn cfg gw rid 0 n ec et x = None"
| "index_loop_awaits cn cfg gw rid (Suc fuel) n ec et x =
     (case gw (ic_root cfg) n (ic_page_size cfg) (snd x) of
        (GwCancelled, w1) \<Rightarrow> Some (Inl CancelledError, (fst x, w1))
      | (GwError, w1) \<Rightarrow> Some (end_incomplete_awaits cn cfg rid SCAN_FAILED (lit ''gateway_error'') (fst x, w1))
      | (GwPage p, w1) \<Rightarrow>
          (case validate_page (ic_root cfg) p n ec et of
             Inl e \<Rightarrow>
               Some (end_incomplete_awaits cn cfg rid
                 (if e = index_error_of ''cancelled'' then SCAN_CANCELLED else SCAN_FAILED) (index_code e) (fst x, w1))
           | Inr (ec', et', ends) \<Rightarrow>
               (case awaiting cn (session (\<lambda>clk. persist_page cfg clk rid p ec' et')) (fst x, w1) of
                  (Inl (Raised e), x2) \<Rightarrow>
                    Some (end_incomplete_awaits cn cfg rid SCAN_FAILED (index_code e) x2)
                | (Inl CancelledError, x2) \<Rightarrow> Some (Inl CancelledError, x2)
                | (Inr _, x2) \<Rightarrow>
                    if ends then Some (end_complete_awaits cn cfg rid x2)
                    else index_loop_awaits cn cfg gw rid fuel (n + 1) ec' et' x2)))"

text \<open>The body of the \<^verbatim>\<open>try\<close>, and its handler.\<close>

definition index_resume_awaits ::
  "(nat \<Rightarrow> cancel) \<Rightarrow> index_config \<Rightarrow> 'w index_gateway \<Rightarrow> nat \<Rightarrow> run_row \<Rightarrow> nat \<times> 'w scan_world
    \<Rightarrow> ((scan_exn + index_result) \<times> nat \<times> 'w scan_world) option" where
  "index_resume_awaits cn cfg gw fuel r x =
     (case sbind (awaiting cn (session (\<lambda>clk. mark_running clk (run_id r)))) (\<lambda>_.
             awaiting cn (session (\<lambda>clk. checkpoint_for_run (run_id r)))) x of
        (Inl e, x1) \<Rightarrow> Some (Inl e, x1)
      | (Inr c, x1) \<Rightarrow>
          if run_expected_page_count r \<noteq> None \<and> run_expected_page_count r = Some (cp_page c)
          then Some (end_complete_awaits cn cfg (run_id r) x1)
          else index_loop_awaits cn cfg gw (run_id r) fuel (cp_page c + 1) (run_expected_page_count r)
                 (run_expected_total r) x1)"

definition on_cancelled ::
  "(nat \<Rightarrow> cancel) \<Rightarrow> index_config \<Rightarrow> pystr \<Rightarrow> (scan_exn + index_result) \<times> nat \<times> 'w scan_world
    \<Rightarrow> (scan_exn + index_result) \<times> nat \<times> 'w scan_world" where
  "on_cancelled cn cfg rid y =
     (if fst y = Inl CancelledError
      then end_incomplete_awaits cn cfg rid SCAN_CANCELLED (lit ''cancelled'') (snd y) else y)"

definition index_scan_awaits ::
  "(nat \<Rightarrow> cancel) \<Rightarrow> index_config \<Rightarrow> 'w index_gateway \<Rightarrow> nat \<Rightarrow> pystr \<Rightarrow> pystr \<Rightarrow> nat \<times> 'w scan_world
    \<Rightarrow> ((scan_exn + index_result) \<times> nat \<times> 'w scan_world) option" where
  "index_scan_awaits cn cfg gw fuel new_id key x =
     (if \<not> index_key key then Some (Inl (Raised (index_error_of ''invalid_idempotency_key'')), x)
      else
        (case sbind (awaiting cn (session (\<lambda>clk. verify_index_scope cfg))) (\<lambda>_.
                awaiting cn (session (get_or_create_run cfg key new_id))) x of
           (Inl e, x1) \<Rightarrow> Some (Inl e, x1)
         | (Inr r, x1) \<Rightarrow>
             if run_complete r \<and> run_state r = SCAN_COMPLETED
             then Some (awaiting cn (session (\<lambda>clk. result_for_run cfg (run_id r))) x1)
             else map_option (on_cancelled cn cfg (run_id r)) (index_resume_awaits cn cfg gw fuel r x1)))"

section \<open>Without a cancellation in a session\<close>

definition plain_end :: "(index_error + 'a) \<times> 'w scan_world \<Rightarrow> (scan_exn + 'a) \<times> 'w scan_world" where
  "plain_end y = (map_sum Raised id (fst y), snd y)"

definition forget :: "(scan_exn + 'a) \<times> nat \<times> 'w scan_world \<Rightarrow> (scan_exn + 'a) \<times> 'w scan_world" where
  "forget y = (fst y, snd (snd y))"

lemma forget_plain_simps [simp]:
  "forget (out, k, w) = (out, w)" "plain_end (out', w) = (map_sum Raised id out', w)"
  by (simp_all add: forget_def plain_end_def)

lemma awaiting_never:
  "forget (awaiting (\<lambda>_. NotCancelled) f (k, w)) = plain_end (f w)"
  by (simp add: awaiting_def forget_def plain_end_def split: prod.split)

text \<open>Two sessions after each other, the second on the result of the first.\<close>

lemma awaiting_two:
  "forget (sbind (awaiting (\<lambda>_. NotCancelled) f) (\<lambda>a. awaiting (\<lambda>_. NotCancelled) (g a)) (k, w))
    = plain_end (sbind f g w)"
proof (cases "f w")
  case (Pair out w1)
  then show ?thesis
    by (cases out) (simp_all add: sbind_def awaiting_def forget_def plain_end_def split: prod.split)
qed

lemma end_awaits_never:
  "forget (end_incomplete_awaits (\<lambda>_. NotCancelled) cfg rid st code (k, w)) = plain_end (end_incomplete cfg rid st code w)"
  "forget (end_complete_awaits (\<lambda>_. NotCancelled) cfg rid (k, w)) = plain_end (end_complete cfg rid w)"
  by (simp_all add: end_incomplete_awaits_def end_incomplete_def end_complete_awaits_def end_complete_def awaiting_two)

lemma forget_on_cancelled:
  assumes "forget y = plain_end z"
  shows "forget (on_cancelled cn cfg rid y) = plain_end z"
proof -
  have "fst y = map_sum Raised id (fst z)" using assms by (simp add: forget_def plain_end_def)
  then have "fst y \<noteq> Inl CancelledError" by (cases "fst z") simp_all
  with assms show ?thesis by (simp add: on_cancelled_def)
qed

lemma on_cancelled_Raised: "on_cancelled cn cfg rid (Inl (Raised e), x) = (Inl (Raised e), x)"
  by (simp add: on_cancelled_def)

lemmas never_ends = forget_on_cancelled[OF end_awaits_never(1)] forget_on_cancelled[OF end_awaits_never(2)]

lemma index_loop_never:
  "map_option (\<lambda>y. forget (on_cancelled (\<lambda>_. NotCancelled) cfg rid y))
      (index_loop_awaits (\<lambda>_. NotCancelled) cfg gw rid fuel n ec et (k, w))
    = map_option plain_end (index_loop cfg gw rid fuel n ec et w)"
proof (induction fuel arbitrary: n ec et k w)
  case (Suc fuel)
  obtain rep w1 where g: "gw (ic_root cfg) n (ic_page_size cfg) w = (rep, w1)" by fastforce
  show ?case
  proof (cases rep)
    case (GwPage p)
    show ?thesis
    proof (cases "validate_page (ic_root cfg) p n ec et")
      case (Inr v)
      obtain ec' et' ends where v: "v = (ec', et', ends)" by (cases v)
      obtain o2 w2 where p2: "session (\<lambda>clk. persist_page cfg clk rid p ec' et') w1 = (o2, w2)" by fastforce
      have "awaiting (\<lambda>_. NotCancelled) (session (\<lambda>clk. persist_page cfg clk rid p ec' et')) (k, w1)
          = (map_sum Raised id o2, k + 1, w2)"
        using p2 by (simp add: awaiting_def)
      with g GwPage Inr v p2 show ?thesis
        by (cases o2) (simp_all add: never_ends Suc.IH)
    qed (use g GwPage in \<open>simp add: never_ends\<close>)
  next
    case GwCancelled
    with g show ?thesis by (simp add: on_cancelled_def end_awaits_never)
  qed (use g in \<open>simp_all add: never_ends\<close>)
qed simp

lemma index_resume_never:
  "map_option (\<lambda>y. forget (on_cancelled (\<lambda>_. NotCancelled) cfg (run_id r) y))
      (index_resume_awaits (\<lambda>_. NotCancelled) cfg gw fuel r (k, w))
    = map_option plain_end (index_resume cfg gw fuel r w)"
proof -
  let ?a = "sbind (awaiting (\<lambda>_. NotCancelled) (session (\<lambda>clk. mark_running clk (run_id r)))) (\<lambda>_.
      awaiting (\<lambda>_. NotCancelled) (session (\<lambda>clk. checkpoint_for_run (run_id r)))) (k, w)"
  let ?b = "sbind (session (\<lambda>clk. mark_running clk (run_id r))) (\<lambda>_.
      session (\<lambda>clk. checkpoint_for_run (run_id r))) w"
  obtain o1 k1 w1 where a: "?a = (o1, k1, w1)" by (cases ?a) auto
  obtain o2 w2 where b: "?b = (o2, w2)" by (cases ?b) auto
  from awaiting_two[of "session (\<lambda>clk. mark_running clk (run_id r))"
      "\<lambda>_. session (\<lambda>clk. checkpoint_for_run (run_id r))" k w] a b
  have "o1 = map_sum Raised id o2" "w1 = w2" by (simp_all add: forget_def plain_end_def)
  with a b show ?thesis
    by (cases o2) (auto simp: index_resume_awaits_def index_resume_def never_ends index_loop_never
        on_cancelled_Raised)
qed

text \<open>No cancellation in a session: the scan is \<open>index_scan\<close>, cancelled at most at the gateway.\<close>

lemma index_scan_never:
  "map_option forget (index_scan_awaits (\<lambda>_. NotCancelled) cfg gw fuel new_id key (k, w))
    = map_option plain_end (index_scan cfg gw fuel new_id key w)"
proof (cases "index_key key")
  case True
  let ?a = "sbind (awaiting (\<lambda>_. NotCancelled) (session (\<lambda>clk. verify_index_scope cfg))) (\<lambda>_.
      awaiting (\<lambda>_. NotCancelled) (session (get_or_create_run cfg key new_id))) (k, w)"
  let ?b = "sbind (session (\<lambda>clk. verify_index_scope cfg)) (\<lambda>_. session (get_or_create_run cfg key new_id)) w"
  obtain o1 k1 w1 where a: "?a = (o1, k1, w1)" by (cases ?a) auto
  obtain o2 w2 where b: "?b = (o2, w2)" by (cases ?b) auto
  from awaiting_two[of "session (\<lambda>clk. verify_index_scope cfg)"
      "\<lambda>_. session (get_or_create_run cfg key new_id)" k w] a b
  have "o1 = map_sum Raised id o2" "w1 = w2" by (simp_all add: forget_def plain_end_def)
  with a b True show ?thesis
    by (cases o2) (simp_all add: index_scan_awaits_def index_scan_def awaiting_never option.map_comp comp_def
        index_resume_never)
qed (simp add: index_scan_awaits_def index_scan_def)

section \<open>What a scan keeps wherever it is cancelled\<close>

definition maintains :: "(store \<Rightarrow> bool) \<Rightarrow> ('w, 'a) await_act \<Rightarrow> bool" where
  "maintains P m \<longleftrightarrow>
     triple (\<lambda>x. P (sw_db (snd x))) m (\<lambda>_ x. P (sw_db (snd x))) (\<lambda>_ x. P (sw_db (snd x)))"

lemma maintainsD: "maintains P m \<Longrightarrow> m x = (out, x') \<Longrightarrow> P (sw_db (snd x)) \<Longrightarrow> P (sw_db (snd x'))"
  unfolding maintains_def by (cases out) (auto dest: triple_exn triple_val)

lemma maintains_bind: "maintains P m \<Longrightarrow> (\<And>a. maintains P (f a)) \<Longrightarrow> maintains P (sbind m f)"
  unfolding maintains_def by (rule triple_bind)

lemma maintains_awaiting:
  assumes "\<And>clk s out s'. f clk s = (out, s') \<Longrightarrow> P s \<Longrightarrow> P s'"
  shows "maintains P (awaiting cn (session f))"
  unfolding maintains_def using assms
  by (intro tripleI) (auto simp: awaiting_def session_def split: prod.splits cancel.splits)

definition scan_ok :: "index_config \<Rightarrow> pystr \<Rightarrow> store \<Rightarrow> bool" where
  "scan_ok cfg rid s \<longleftrightarrow> index_ok s \<and> ready False cfg rid s"

lemma scan_ok_step: "index_step b cfg' s s' \<Longrightarrow> scan_ok cfg rid s \<Longrightarrow> scan_ok cfg rid s'"
  unfolding scan_ok_def ready_def by (blast dest: index_step_ok own_run_step)

lemma scan_ok_own: "scan_ok cfg rid s \<Longrightarrow> own_run False cfg rid s"
  by (simp add: scan_ok_def ready_def)

lemma result_keeps: "maintains P (awaiting cn (session (\<lambda>clk. result_for_run cfg rid)))"
  by (rule maintains_awaiting) (blast dest: result_for_run_same)

lemma end_incomplete_keeps:
  "st \<noteq> SCAN_COMPLETED \<Longrightarrow> maintains (scan_ok cfg rid) (end_incomplete_awaits cn cfg rid st code)"
  unfolding end_incomplete_awaits_def
  by (intro maintains_bind result_keeps maintains_awaiting) (blast intro: scan_ok_step step_finish scan_ok_own)

lemma end_complete_keeps: "maintains (scan_ok cfg rid) (end_complete_awaits cn cfg rid)"
  unfolding end_complete_awaits_def
  by (intro maintains_bind result_keeps maintains_awaiting) (blast intro: scan_ok_step step_complete scan_ok_own)

lemma end_done:
  "end_incomplete_awaits cn cfg rid st code x = (out, x') \<Longrightarrow> st \<noteq> SCAN_COMPLETED
    \<Longrightarrow> scan_ok cfg rid (sw_db (snd x)) \<Longrightarrow> scan_ok cfg rid (sw_db (snd x'))"
  "end_complete_awaits cn cfg rid x = (out, x')
    \<Longrightarrow> scan_ok cfg rid (sw_db (snd x)) \<Longrightarrow> scan_ok cfg rid (sw_db (snd x'))"
  by (rule maintainsD[OF end_incomplete_keeps], assumption+, rule maintainsD[OF end_complete_keeps], assumption+)

lemma persist_keeps:
  "validate_page (ic_root cfg) p n ec et = Inr (ec', et', ends)
    \<Longrightarrow> maintains (scan_ok cfg rid) (awaiting cn (session (\<lambda>clk. persist_page cfg clk rid p ec' et')))"
  by (rule maintains_awaiting) (blast intro: scan_ok_step step_page scan_ok_own)

lemma start_keeps:
  "maintains (scan_ok cfg rid) (sbind (awaiting cn (session (\<lambda>clk. mark_running clk rid))) (\<lambda>_.
     awaiting cn (session (\<lambda>clk. checkpoint_for_run rid))))"
proof (intro maintains_bind maintains_awaiting)
  show "scan_ok cfg rid s'" if "mark_running clk rid s = (out, s')" "scan_ok cfg rid s" for clk s out s'
    using that by (blast intro: scan_ok_step step_mark scan_ok_own)
qed (auto simp: checkpoint_for_run_def split: option.splits)

lemma index_loop_keeps:
  assumes "good_gateway True gw"
  shows "index_loop_awaits cn cfg gw rid fuel n ec et x = Some (out, x')
    \<Longrightarrow> scan_ok cfg rid (sw_db (snd x)) \<Longrightarrow> scan_ok cfg rid (sw_db (snd x'))"
proof (induction fuel arbitrary: n ec et x)
  case (Suc fuel)
  obtain k w where x: "x = (k, w)" by (cases x)
  obtain rep w1 where g: "gw (ic_root cfg) n (ic_page_size cfg) w = (rep, w1)" by fastforce
  have same: "sw_db w1 = sw_db w" using assms g by (metis good_gateway_def snd_conv)
  have ok1: "scan_ok cfg rid (sw_db (snd (k, w1)))" using Suc.prems(2) x same by simp
  show ?case
  proof (cases rep)
    case (GwPage p)
    show ?thesis
    proof (cases "validate_page (ic_root cfg) p n ec et")
      case (Inl e)
      let ?st = "if e = index_error_of ''cancelled'' then SCAN_CANCELLED else SCAN_FAILED"
      have "end_incomplete_awaits cn cfg rid ?st (index_code e) (k, w1) = (out, x')"
        using Suc.prems(1) g GwPage x Inl by simp
      from maintainsD[OF end_incomplete_keeps this ok1] show ?thesis by simp
    next
      case (Inr v)
      obtain ec' et' ends where v: "v = (ec', et', ends)" by (cases v)
      obtain o2 x2 where p2: "awaiting cn (session (\<lambda>clk. persist_page cfg clk rid p ec' et')) (k, w1) = (o2, x2)"
        by (metis surj_pair)
      have ok2: "scan_ok cfg rid (sw_db (snd x2))"
        by (rule maintainsD[OF persist_keeps[OF Inr[unfolded v]] p2 ok1])
      note run = Suc.prems(1) g GwPage Inr v p2 x
      show ?thesis
      proof (cases o2)
        case (Inl e)
        with run ok2 show ?thesis
          by (cases e) (auto dest: end_done(1))
      next
        case (Inr u)
        with run ok2 Suc.IH[of _ _ _ x2] show ?thesis
          by (cases ends) (auto dest: end_done(2))
      qed
    qed
  next
    case GwError
    with Suc.prems(1) g x ok1 show ?thesis
      by (auto dest: end_done(1))
  next
    case GwCancelled
    with Suc.prems(1) g x ok1 show ?thesis by auto
  qed
qed simp

lemma index_resume_keeps:
  assumes "index_resume_awaits cn cfg gw fuel r x = Some (out, x')" "good_gateway True gw"
    and "scan_ok cfg (run_id r) (sw_db (snd x))"
  shows "scan_ok cfg (run_id r) (sw_db (snd x'))"
proof -
  obtain o1 x1 where m: "sbind (awaiting cn (session (\<lambda>clk. mark_running clk (run_id r)))) (\<lambda>_.
      awaiting cn (session (\<lambda>clk. checkpoint_for_run (run_id r)))) x = (o1, x1)" by (metis surj_pair)
  note ok1 = maintainsD[OF start_keeps m assms(3)]
  show ?thesis
  proof (cases o1)
    case (Inl e)
    with assms(1) m ok1 show ?thesis by (simp add: index_resume_awaits_def)
  next
    case (Inr c)
    show ?thesis
    proof (cases "run_expected_page_count r \<noteq> None \<and> run_expected_page_count r = Some (cp_page c)")
      case True
      with assms(1) m Inr have "end_complete_awaits cn cfg (run_id r) x1 = (out, x')"
        by (simp add: index_resume_awaits_def)
      from maintainsD[OF end_complete_keeps this ok1] show ?thesis .
    next
      case False
      with assms(1) m Inr have "index_loop_awaits cn cfg gw (run_id r) fuel (cp_page c + 1)
          (run_expected_page_count r) (run_expected_total r) x1 = Some (out, x')"
        by (auto simp: index_resume_awaits_def)
      from index_loop_keeps[OF assms(2) this ok1] show ?thesis .
    qed
  qed
qed

lemma on_cancelled_keeps:
  assumes "scan_ok cfg rid (sw_db (snd (snd y)))"
  shows "scan_ok cfg rid (sw_db (snd (snd (on_cancelled cn cfg rid y))))"
proof (cases "fst y = Inl CancelledError")
  case True
  obtain out x' where "end_incomplete_awaits cn cfg rid SCAN_CANCELLED (lit ''cancelled'') (snd y) = (out, x')"
    by (metis surj_pair)
  with maintainsD[OF end_incomplete_keeps this assms] True show ?thesis by (simp add: on_cancelled_def)
qed (use assms in \<open>simp add: on_cancelled_def\<close>)

text \<open>Finding or creating the run.\<close>

lemma scan_begins:
  assumes "sbind (awaiting cn (session (\<lambda>clk. verify_index_scope cfg))) (\<lambda>_.
      awaiting cn (session (get_or_create_run cfg key new_id))) x = (out, x')" and "index_ok (sw_db (snd x))"
  shows "index_ok (sw_db (snd x'))" and "out = Inr r \<Longrightarrow> scan_ok cfg (run_id r) (sw_db (snd x'))"
proof -
  have "maintains index_ok (sbind (awaiting cn (session (\<lambda>clk. verify_index_scope cfg))) (\<lambda>_.
      awaiting cn (session (get_or_create_run cfg key new_id))))"
  proof (intro maintains_bind maintains_awaiting)
    show "index_ok s'" if "get_or_create_run cfg key new_id clk s = (out, s')" "index_ok s" for clk s out s'
      by (rule index_create_ok[OF that])
  qed (auto simp: verify_index_scope_def split: option.splits if_splits)
  from maintainsD[OF this assms] show ok: "index_ok (sw_db (snd x'))" .
  assume "out = Inr r"
  with assms(1) obtain k w where x: "x = (k, w)" and g: "get_or_create_run cfg key new_id (sw_clock w) (sw_db w) = (Inr r, sw_db (snd x'))"
    by (cases x) (auto simp: sbind_def awaiting_def session_def verify_index_scope_def map_sum_eq
        split: prod.splits sum.splits cancel.splits option.splits if_splits)
  have "distinct (map run_id (runs (sw_db w)))" using assms(2) x by (simp add: index_ok_def)
  from created_ready(2)[OF g this, of False] ok show "scan_ok cfg (run_id r) (sw_db (snd x'))"
    by (simp add: scan_ok_def)
qed

text \<open>
  C16. The index tables stay sound, wherever a scan is cancelled.  Let a scan be alone: no other
  session writes while it runs.  Whatever the remote drive answers, however the scan is cancelled in
  its sessions (before the transaction or after its commit, the handler included), and however it
  ends: the primary keys stay unique, every run counts exactly the entries stored for it and agrees
  with its checkpoint, every entry lies in the root of its run and carries the type of its kind, a
  complete run has a revision, and no revision of a library is given to two runs.
\<close>

theorem index_tables_sound:
  assumes "index_scan_awaits cn cfg gw fuel new_id key (k, w) = Some (out, k', w')"
    and "good_gateway True gw" and "index_ok (sw_db w)"
  shows "index_ok (sw_db w')"
proof (cases "index_key key")
  case True
  obtain o1 x1 where c: "sbind (awaiting cn (session (\<lambda>clk. verify_index_scope cfg))) (\<lambda>_.
      awaiting cn (session (get_or_create_run cfg key new_id))) (k, w) = (o1, x1)" by (metis surj_pair)
  note start = scan_begins[OF c, simplified, OF assms(3)]
  show ?thesis
  proof (cases o1)
    case (Inl e)
    with assms(1) c True start(1) show ?thesis by (simp add: index_scan_awaits_def)
  next
    case (Inr r)
    show ?thesis
    proof (cases "run_complete r \<and> run_state r = SCAN_COMPLETED")
      case finished: True
      with assms(1) c True Inr
      have "awaiting cn (session (\<lambda>clk. result_for_run cfg (run_id r))) x1 = (out, k', w')"
        by (simp add: index_scan_awaits_def)
      from maintainsD[where P = index_ok, OF result_keeps this start(1)] show ?thesis by simp
    next
      case False
      with assms(1) c True Inr obtain y where y: "index_resume_awaits cn cfg gw fuel r x1 = Some y"
        "on_cancelled cn cfg (run_id r) y = (out, k', w')"
        by (auto simp: index_scan_awaits_def)
      have "scan_ok cfg (run_id r) (sw_db (snd (snd y)))"
        by (rule index_resume_keeps[OF _ assms(2) start(2)[OF Inr], of cn fuel "fst y"]) (simp add: y(1))
      from on_cancelled_keeps[OF this, of cn] y(2) show ?thesis by (simp add: scan_ok_def)
    qed
  qed
qed (use assms in \<open>simp add: index_scan_awaits_def\<close>)

section \<open>A late cancellation\<close>

text \<open>
  A cancellation takes a completed snapshot back.  When the task is cancelled after the completion
  has been committed, the handler marks the run cancelled and incomplete.  The revision and the
  ledger stay as the completion left them, but no plan made from the run loads any more.
\<close>

theorem late_cancel_revokes_snapshot:
  assumes "complete_run cfg (sw_clock w) rid (sw_db w) = (Inr (), s)"
    and "row_of run_id rid (runs s) = Some r" "run_complete r"
    and "cn k = CancelledAfter" "cn (k + 1) = NotCancelled" "cn (k + 2) = NotCancelled"
  shows "\<exists>res w'. on_cancelled cn cfg rid (end_complete_awaits cn cfg rid (k, w)) = (Inr res, k + 3, w')
    \<and> ix_state res = SCAN_CANCELLED \<and> \<not> ix_complete res
    \<and> ix_snapshot_revision res = run_snapshot_revision r \<and> ledger (sw_db w') = ledger s
    \<and> (\<forall>pid p u digest clk. get_plan pid (sw_db w') = Some p \<and> plan_source_scan_run_id p = rid
        \<longrightarrow> load_executable_steps u digest (sw_db w') clk pid = None)"
proof -
  let ?f = "\<lambda>r. r\<lparr>run_state := SCAN_CANCELLED, run_complete := False, run_error_code := Some (lit ''cancelled'')\<rparr>"
  define w' where "w' = w\<lparr>sw_db := put_run (sw_clock w) ?f rid s\<rparr>"
  obtain r' where r': "row_of run_id rid (runs (sw_db w')) = Some r'" "run_state r' = SCAN_CANCELLED"
    "\<not> run_complete r'" "run_snapshot_revision r' = run_snapshot_revision r"
    using row_of_Some[OF assms(2)] by (simp add: w'_def runs_put_run assms(2))
  have "end_complete_awaits cn cfg rid (k, w) = (Inl CancelledError, k + 1, w\<lparr>sw_db := s\<rparr>)"
    using assms(1,4) by (simp add: end_complete_awaits_def sbind_def awaiting_def session_def)
  then have "on_cancelled cn cfg rid (end_complete_awaits cn cfg rid (k, w))
      = end_incomplete_awaits cn cfg rid SCAN_CANCELLED (lit ''cancelled'') (k + 1, w\<lparr>sw_db := s\<rparr>)"
    by (simp add: on_cancelled_def)
  also have "\<dots> = (Inr (result_of cfg (sw_db w') r'), k + 3, w')"
    using assms(2,5,6) r'(1)
    by (simp add: end_incomplete_awaits_def sbind_def awaiting_def session_def finish_incomplete_def
        update_run_def result_for_run_def w'_def numeral_3_eq_3)
  finally have "on_cancelled cn cfg rid (end_complete_awaits cn cfg rid (k, w))
      = (Inr (result_of cfg (sw_db w') r'), k + 3, w')" .
  moreover have "load_executable_steps u digest (sw_db w') clk pid = None"
    if p: "get_plan pid (sw_db w') = Some p" "plan_source_scan_run_id p = rid" for pid p u digest clk
  proof (rule ccontr)
    assume "load_executable_steps u digest (sw_db w') clk pid \<noteq> None"
    then obtain sts where "load_executable_steps u digest (sw_db w') clk pid = Some sts" by blast
    from load_Some[OF this] p(1) obtain lib run where
      "plan_context (sw_db w') clk p = Some (lib, run)" by (metis option.inject)
    from plan_context_Some(2,8)[OF this] p(2) r' show False by simp
  qed
  moreover have "ledger (sw_db w') = ledger s" by (simp add: w'_def)
  ultimately show ?thesis using r' by (intro exI[of _ "result_of cfg (sw_db w') r'"] exI[of _ w'])
    (auto simp: result_of_def Let_def)
qed

end
