(* ===== verification/Index_Sessions.thy ===== *)
theory Index_Sessions
  imports Index_Props
begin

text \<open>
  The sessions of \<^verbatim>\<open>services/library_index.py\<close> statement by statement.  On SQLite a \<^verbatim>\<open>SELECT\<close> opens
  no transaction: what a session has read can be changed by another before its first write, which
  takes the write lock until the commit.  Each definition takes what other sessions do between two
  of its statements as functions on the database; where they do nothing it is the operation of
  \<^verbatim>\<open>Library_Index\<close>, which a scan that is alone performs.  Where they do something, keys, revisions
  and counts are no longer what the tables of a lone scan promise.
\<close>

section \<open>Writing back a loaded row\<close>

text \<open>
  The mapper writes the columns whose value differs from the value it loaded: \<open>r\<close> is the row as
  loaded, \<open>r'\<close> as set, \<open>q\<close> as it is in the database when the \<^verbatim>\<open>UPDATE\<close> comes.
\<close>

definition set_column :: "('r \<Rightarrow> 'c) \<Rightarrow> 'r \<Rightarrow> 'r \<Rightarrow> 'r \<Rightarrow> 'c" where
  "set_column c r r' q = (if c r' = c r then c q else c r')"

definition merged :: "run_row \<Rightarrow> run_row \<Rightarrow> run_row \<Rightarrow> run_row" where
  "merged r r' q =
     q\<lparr>run_state := set_column run_state r r' q, run_complete := set_column run_complete r r' q,
       run_snapshot_revision := set_column run_snapshot_revision r r' q,
       run_expected_page_count := set_column run_expected_page_count r r' q,
       run_expected_total := set_column run_expected_total r r' q,
       run_pages_read := set_column run_pages_read r r' q, run_items_seen := set_column run_items_seen r r' q,
       run_added_count := set_column run_added_count r r' q, run_changed_count := set_column run_changed_count r r' q,
       run_removed_count := set_column run_removed_count r r' q, run_error_code := set_column run_error_code r r' q\<rparr>"

definition write_run :: "time \<Rightarrow> run_row \<Rightarrow> run_row \<Rightarrow> store \<Rightarrow> store" where
  "write_run clk r r' s =
     (if r' = r then s
      else s\<lparr>runs := update_where (\<lambda>q. run_id q = run_id r)
               (\<lambda>q. (merged r r' q)\<lparr>run_updated_at := clk\<rparr>) (runs s)\<rparr>)"

definition write_checkpoint :: "checkpoint_row \<Rightarrow> checkpoint_row \<Rightarrow> store \<Rightarrow> store" where
  "write_checkpoint c c' s =
     s\<lparr>checkpoints := update_where (\<lambda>d. cp_scan_run_id d = cp_scan_run_id c)
        (\<lambda>d. d\<lparr>cp_page := set_column cp_page c c' d, cp_items_seen := set_column cp_items_seen c c' d\<rparr>) (checkpoints s)\<rparr>"

section \<open>The sessions\<close>

definition insert_run :: "index_config \<Rightarrow> pystr \<Rightarrow> pystr \<Rightarrow> time \<Rightarrow> run_row index_act" where
  "insert_run cfg key new_id clk s =
     (if new_id \<in> set (map run_id (runs s)) \<or> row_of lib_id (ic_library_id cfg) (libraries s) = None
      then (Inl IndexIntegrityErr, s)
      else
        (Inr (fresh_run cfg key new_id clk),
         s\<lparr>runs := runs s @ [fresh_run cfg key new_id clk],
           checkpoints := checkpoints s @ [\<lparr>cp_scan_run_id = new_id, cp_page = 0, cp_items_seen = 0\<rparr>]\<rparr>))"

definition create_between ::
  "(store \<Rightarrow> store) \<Rightarrow> index_config \<Rightarrow> pystr \<Rightarrow> pystr \<Rightarrow> time \<Rightarrow> run_row index_act" where
  "create_between itf cfg key new_id clk s =
     (case keyed_run cfg key s of
        Some r \<Rightarrow>
          if run_root_directory_id r \<noteq> ic_root cfg
          then (Inl (index_error_of ''library_scope_unverified''), s) else (Inr r, s)
      | None \<Rightarrow> insert_run cfg key new_id clk (itf s))"

definition update_between ::
  "(store \<Rightarrow> store) \<Rightarrow> time \<Rightarrow> (run_row \<Rightarrow> run_row) \<Rightarrow> pystr \<Rightarrow> unit index_act" where
  "update_between itf clk f rid s =
     (case row_of run_id rid (runs s) of
        None \<Rightarrow> (Inl (index_error_of ''scan_run_missing''), s)
      | Some r \<Rightarrow> (Inr (), write_run clk r (f r) (itf s)))"

text \<open>
  The first entry of a page is looked up before the transaction, against \<open>keys0\<close>; its insert, which
  comes with the lookup of the second or with the commit, finds \<open>keys1\<close>.
\<close>

definition rows_between ::
  "(scan_entry \<Rightarrow> bool) \<Rightarrow> pystr \<Rightarrow> (pystr \<times> pystr) list \<Rightarrow> (pystr \<times> pystr) list \<Rightarrow> lib_entry list
    \<Rightarrow> index_error + scan_entry list" where
  "rows_between refuses rid keys0 keys1 es =
     (case es of
        [] \<Rightarrow> Inr []
      | e # es' \<Rightarrow>
          rbind (entry_identity e) (\<lambda>k.
          if k \<in> set keys0 then Inl (index_error_of ''repeated_entry'')
          else map_sum id (Cons (scan_entry_of rid k e))
                 (page_rows refuses rid keys1 [k] (refuses (scan_entry_of rid k e) \<or> k \<in> set keys1) es')))"

definition persist_between ::
  "(store \<Rightarrow> store) \<Rightarrow> (store \<Rightarrow> store) \<Rightarrow> (store \<Rightarrow> store) \<Rightarrow> index_config \<Rightarrow> time \<Rightarrow> pystr \<Rightarrow> dir_page
    \<Rightarrow> int option \<Rightarrow> int option \<Rightarrow> unit index_act" where
  "persist_between itf0 itf1 itf2 cfg clk rid p expected_count expected_total s =
     (let s1 = itf0 s in
      case (row_of run_id rid (runs s), row_of cp_scan_run_id rid (checkpoints s1)) of
        (Some r, Some c) \<Rightarrow>
          (let s2 = itf1 s1; s3 = itf2 s2 in
           case rows_between (ic_refuses cfg) rid (map se_key (run_entries rid s2))
                  (map se_key (run_entries rid s3)) (dp_items p) of
             Inl e \<Rightarrow> (Inl e, s3)
           | Inr rows \<Rightarrow>
               (let seen = cp_items_seen c + int (length (dp_items p));
                    s4 = s3\<lparr>scan_entries := scan_entries s3 @ rows\<rparr>;
                    s5 = write_run clk r (r\<lparr>run_expected_page_count := expected_count,
                           run_expected_total := expected_total, run_pages_read := dp_page p,
                           run_items_seen := seen\<rparr>) s4
                in (Inr (), write_checkpoint c (c\<lparr>cp_page := dp_page p, cp_items_seen := seen\<rparr>) s5)))
      | _ \<Rightarrow> (Inl (index_error_of ''scan_run_missing''), s1))"

text \<open>The run, the previous snapshot and the largest revision are read before the first write.\<close>

definition complete_between ::
  "(store \<Rightarrow> store) \<Rightarrow> (store \<Rightarrow> store) \<Rightarrow> (store \<Rightarrow> store) \<Rightarrow> index_config \<Rightarrow> time \<Rightarrow> pystr \<Rightarrow> unit index_act" where
  "complete_between itf0 itf1 itf2 cfg clk rid s =
     (case row_of run_id rid (runs s) of
        None \<Rightarrow> (Inl (index_error_of ''scan_run_missing''), s)
      | Some r \<Rightarrow>
          (let s1 = itf0 s in
           if run_expected_total r \<noteq> None \<and> run_expected_total r \<noteq> Some (run_items_seen r)
           then (Inr (), write_run clk r (r\<lparr>run_state := SCAN_FAILED, run_complete := False,
                                           run_error_code := Some (lit ''total_mismatch'')\<rparr>) s1)
           else
             (let s2 = itf1 s1; s3 = itf2 s2;
                  previous = (case previous_run cfg rid s1 of
                                None \<Rightarrow> [] | Some r' \<Rightarrow> run_entries (run_id r') s3);
                  current = run_entries rid s3
              in (Inr (), write_run clk r (completed_row (next_revision (ic_library_id cfg) s2) previous current r)
                            (record_snapshot cfg clk rid previous current s3)))))"

section \<open>Alone\<close>

lemma create_quiet: "create_between (\<lambda>s. s) cfg key new_id clk = get_or_create_run cfg key new_id clk"
  by (rule ext) (simp add: create_between_def get_or_create_run_def insert_run_def split: option.split)

lemma update_where_one:
  assumes "distinct (map key xs)" "x \<in> set xs" "g x = h x"
  shows "update_where (\<lambda>y. key y = key x) g xs = update_where (\<lambda>y. key y = key x) h xs"
  using assms by (auto simp: update_where_def distinct_map dest: inj_onD)

lemma row_eqI:
  fixes r r' :: run_row
  assumes "run_named r r'" "run_created_at r' = run_created_at r" "run_updated_at r' = run_updated_at r"
  shows "merged r r' r = r'"
  using assms by (simp add: merged_def set_column_def run_named_def)

lemma merged_id [simp]: "run_id (merged r r' q) = run_id q"
  by (simp add: merged_def)

text \<open>Setting columns other than the identity and the times of a run.\<close>

definition sets_columns :: "run_row \<Rightarrow> run_row \<Rightarrow> bool" where
  "sets_columns r r' \<longleftrightarrow> run_named r r' \<and> run_created_at r' = run_created_at r \<and> run_updated_at r' = run_updated_at r"

lemma write_run_quiet:
  assumes "distinct (map run_id (runs s))" "row_of run_id rid (runs s) = Some r" "sets_columns r (f r)"
  shows "write_run clk r (f r) s = put_run clk f rid s"
proof -
  note r = row_of_Some[OF assms(2)]
  have m: "merged r (f r) r = f r" using assms(3) by (intro row_eqI) (simp_all add: sets_columns_def)
  show ?thesis
  proof (cases "f r = r")
    case True
    then have "update_where (\<lambda>q. run_id q = run_id r) (\<lambda>q. touched clk q (f q)) (runs s)
        = update_where (\<lambda>q. run_id q = run_id r) (\<lambda>q. q) (runs s)"
      using r by (intro update_where_one[OF assms(1)]) (simp_all add: touched_def)
    also have "\<dots> = runs s" by (simp add: update_where_def)
    finally show ?thesis using True r by (simp add: write_run_def put_run_def)
  next
    case False
    with m r update_where_one[OF assms(1), of r "\<lambda>q. touched clk q (f q)"
        "\<lambda>q. (merged r (f r) q)\<lparr>run_updated_at := clk\<rparr>"]
    show ?thesis by (simp add: write_run_def put_run_def touched_def)
  qed
qed

lemma update_quiet:
  assumes "distinct (map run_id (runs s))" "\<And>r. sets_columns r (f r)"
  shows "update_between (\<lambda>s. s) clk f rid s = update_run clk f rid s"
  using assms by (auto simp: update_between_def update_run_def write_run_quiet split: option.split)

lemma rows_quiet: "rows_between refuses rid keys keys es = page_rows refuses rid keys [] False es"
  by (cases es) (auto simp: rows_between_def rbind_def split: sum.split)

lemma complete_quiet:
  assumes "distinct (map run_id (runs s))"
  shows "complete_between (\<lambda>s. s) (\<lambda>s. s) (\<lambda>s. s) cfg clk rid s = complete_run cfg clk rid s"
proof (cases "row_of run_id rid (runs s)")
  case (Some r)
  let ?f = "\<lambda>r. r\<lparr>run_state := SCAN_FAILED, run_complete := False, run_error_code := Some (lit ''total_mismatch'')\<rparr>"
  have "sets_columns q (completed_row n prev cur q)" "sets_columns q (?f q)" for q n prev cur
    by (simp_all add: sets_columns_def run_named_def completed_row_def)
  with Some assms write_run_quiet[of s rid r ?f clk] show ?thesis
    by (simp add: complete_between_def complete_run_def Let_def write_run_quiet)
qed (simp add: complete_between_def complete_run_def)

lemma persist_quiet:
  assumes "distinct (map run_id (runs s))" "distinct (map cp_scan_run_id (checkpoints s))"
  shows "persist_between (\<lambda>s. s) (\<lambda>s. s) (\<lambda>s. s) cfg clk rid p ec et s = persist_page cfg clk rid p ec et s"
proof (cases "row_of run_id rid (runs s)")
  case r: (Some r)
  show ?thesis
  proof (cases "row_of cp_scan_run_id rid (checkpoints s)")
    case c: (Some c)
    let ?n = "cp_items_seen c + int (length (dp_items p))"
    let ?f = "\<lambda>r. r\<lparr>run_expected_page_count := ec, run_expected_total := et, run_pages_read := dp_page p, run_items_seen := ?n\<rparr>"
    note id = row_of_Some[OF r] row_of_Some[OF c]
    have w: "write_run clk r (?f r) (s\<lparr>scan_entries := es\<rparr>) = (put_run clk ?f rid s)\<lparr>scan_entries := es\<rparr>" for es
      using write_run_quiet[of "s\<lparr>scan_entries := es\<rparr>" rid r ?f clk] assms(1) r
      by (simp add: sets_columns_def run_named_def put_run_def)
    have "update_where (\<lambda>d. cp_scan_run_id d = cp_scan_run_id c)
          (\<lambda>d. d\<lparr>cp_page := set_column cp_page c (c\<lparr>cp_page := dp_page p, cp_items_seen := ?n\<rparr>) d,
                 cp_items_seen := set_column cp_items_seen c (c\<lparr>cp_page := dp_page p, cp_items_seen := ?n\<rparr>) d\<rparr>) (checkpoints s)
        = update_where (\<lambda>d. cp_scan_run_id d = cp_scan_run_id c)
          (\<lambda>d. d\<lparr>cp_page := dp_page p, cp_items_seen := ?n\<rparr>) (checkpoints s)"
      using id by (intro update_where_one[OF assms(2)]) (simp_all add: set_column_def)
    with r c w id show ?thesis
      by (simp add: persist_between_def persist_page_def Let_def rows_quiet write_checkpoint_def split: sum.split)
  qed (simp add: persist_between_def persist_page_def r Let_def)
qed (simp add: persist_between_def persist_page_def Let_def)

section \<open>Beside each other\<close>

text \<open>
  Two runs under one key.  A scan that starts after another has looked for the run of their common
  key, and before that one has inserted it, creates a run of its own; both go on.
\<close>

theorem run_created_twice:
  assumes "keyed_run cfg key s = None" "row_of lib_id (ic_library_id cfg) (libraries s) \<noteq> None"
    and "i \<notin> run_id ` set (runs s)" "j \<notin> run_id ` set (runs s)" "i \<noteq> j"
  shows "\<exists>s'. create_between (\<lambda>v. snd (get_or_create_run cfg key j clk' v)) cfg key i clk s
      = (Inr (fresh_run cfg key i clk), s')
    \<and> runs s' = runs s @ [fresh_run cfg key j clk', fresh_run cfg key i clk]"
  using assms by (auto simp: create_between_def insert_run_def get_or_create_run_def fresh_run_def image_iff)

text \<open>
  A revision given twice.  When another scan of the library commits its completion after this one
  has read the largest revision, and before it writes, both runs are complete with the same revision.
\<close>

theorem revision_given_twice:
  assumes "row_of run_id rid (runs s) = Some r" "row_of run_id rid' (runs s) = Some r'" "rid \<noteq> rid'"
    and "run_expected_total r = None \<or> run_expected_total r = Some (run_items_seen r)"
    and "run_expected_total r' = None \<or> run_expected_total r' = Some (run_items_seen r')"
    and "run_snapshot_revision r = None" "ic_library_id cfg' = ic_library_id cfg" "\<not> run_complete r"
  shows "\<exists>s' q q'. complete_between (\<lambda>v. v) (\<lambda>v. v) (\<lambda>v. snd (complete_run cfg' clk' rid' v)) cfg clk rid s
      = (Inr (), s')
    \<and> row_of run_id rid (runs s') = Some q \<and> run_complete q
    \<and> row_of run_id rid' (runs s') = Some q' \<and> run_complete q'
    \<and> run_snapshot_revision q = run_snapshot_revision q'
    \<and> run_snapshot_revision q = Some (next_revision (ic_library_id cfg) s)"
proof -
  note id = row_of_Some[OF assms(1)] row_of_Some[OF assms(2)]
  define v where "v = snd (complete_run cfg' clk' rid' s)"
  have v: "row_of run_id rid (runs v) = Some r"
    "\<exists>q'. row_of run_id rid' (runs v) = Some q' \<and> run_complete q' \<and> run_snapshot_revision q' = Some (next_revision (ic_library_id cfg) s)"
    using assms id by (auto simp: v_def complete_run_def Let_def runs_put_run)
  define prev where "prev = (case previous_run cfg rid s of None \<Rightarrow> [] | Some r' \<Rightarrow> run_entries (run_id r') v)"
  let ?c = "completed_row (next_revision (ic_library_id cfg) s) prev (run_entries rid v) r"
  define s' where "s' = write_run clk r ?c (record_snapshot cfg clk rid prev (run_entries rid v) v)"
  have c: "complete_between (\<lambda>v. v) (\<lambda>v. v) (\<lambda>v. snd (complete_run cfg' clk' rid' v)) cfg clk rid s = (Inr (), s')"
    unfolding complete_between_def Let_def s'_def prev_def v_def using assms(1,4) by auto
  have ne: "?c \<noteq> r" using assms(6) by (auto simp: completed_row_def dest: arg_cong[where f = run_snapshot_revision])
  have row: "row_of run_id k (runs s') = map_option (\<lambda>q. if run_id q = rid
      then (merged r ?c q)\<lparr>run_updated_at := clk\<rparr> else q) (row_of run_id k (runs v))" for k
    using ne id by (simp add: s'_def write_run_def row_of_update)
  have "row_of run_id rid (runs s') = Some ((merged r ?c r)\<lparr>run_updated_at := clk\<rparr>)"
    using v(1) id by (simp add: row)
  moreover from v(2) obtain q' where q': "row_of run_id rid' (runs v) = Some q'" "run_complete q'"
    "run_snapshot_revision q' = Some (next_revision (ic_library_id cfg) s)" by blast
  moreover have "run_id q' \<noteq> rid" using row_of_Some[OF q'(1)] assms(3) by simp
  then have "row_of run_id rid' (runs s') = Some q'" using q'(1) by (simp add: row)
  moreover have "run_complete (merged r ?c r)" "run_snapshot_revision (merged r ?c r) = Some (next_revision (ic_library_id cfg) s)"
    using assms(6,8) by (simp_all add: merged_def set_column_def)
  ultimately show ?thesis using c by auto
qed

text \<open>
  A count lost.  When another session of the same run stores a page after this one has read the
  checkpoint, and before it writes, the entries of both pages are stored, but the run counts only
  its own.
\<close>

lemma rows_between_plain:
  assumes "plain_rows rid keys es = Inr rows" "\<not> list_ex refuses rows"
  shows "rows_between refuses rid keys keys es = Inr rows"
  using assms by (simp add: rows_quiet page_rows_plain)

theorem page_count_lost:
  assumes "row_of run_id rid (runs s) = Some r" "row_of cp_scan_run_id rid (checkpoints s) = Some c"
    and "cp_items_seen c = run_items_seen r" "dp_items p \<noteq> []"
    and "persist_page cfg clk' rid p' ec' et' s = (Inr (), v)"
    and "plain_rows rid (map se_key (run_entries rid v)) (dp_items p) = Inr rows" "\<not> list_ex (ic_refuses cfg) rows"
  shows "\<exists>s' q. persist_between (\<lambda>u. u) (\<lambda>u. snd (persist_page cfg clk' rid p' ec' et' u)) (\<lambda>u. u) cfg clk rid p ec et s
      = (Inr (), s')
    \<and> row_of run_id rid (runs s') = Some q
    \<and> run_items_seen q = run_items_seen r + int (length (dp_items p))
    \<and> length (run_entries rid s') = length (run_entries rid s) + length (dp_items p') + length rows"
proof -
  note id = row_of_Some[OF assms(1)] row_of_Some[OF assms(2)]
  from persist_cases[OF assms(5)] assms(1,2) obtain rows' where
    rows': "plain_rows rid (map se_key (run_entries rid s)) (dp_items p') = Inr rows'"
    and v: "v = (put_run clk' (paged_row ec' et' (dp_page p') (cp_items_seen c + int (length (dp_items p')))) rid s)
        \<lparr>scan_entries := scan_entries s @ rows', checkpoints := checkpoints v\<rparr>"
    by auto
  have entries: "run_entries rid v = run_entries rid s @ rows'"
    by (subst v) (use page_rows_Inr(2)[OF rows'] in \<open>simp add: run_entries_def filter_id_conv\<close>)
  have "\<exists>q. row_of run_id rid (runs v) = Some q"
    by (subst v) (simp add: runs_put_run paged_row_def assms(1))
  then obtain q where q: "row_of run_id rid (runs v) = Some q" by blast
  let ?n = "run_items_seen r + int (length (dp_items p))"
  let ?r = "r\<lparr>run_expected_page_count := ec, run_expected_total := et, run_pages_read := dp_page p, run_items_seen := ?n\<rparr>"
  let ?s = "write_checkpoint c (c\<lparr>cp_page := dp_page p, cp_items_seen := ?n\<rparr>)
    (write_run clk r ?r (v\<lparr>scan_entries := scan_entries v @ rows\<rparr>))"
  have ne: "?r \<noteq> r" using assms(4) by (auto dest: arg_cong[where f = run_items_seen])
  have "persist_between (\<lambda>u. u) (\<lambda>u. snd (persist_page cfg clk' rid p' ec' et' u)) (\<lambda>u. u) cfg clk rid p ec et s = (Inr (), ?s)"
    using assms(1-3,5) rows_between_plain[OF assms(6,7)] by (simp add: persist_between_def Let_def)
  moreover have "row_of run_id rid (runs ?s) = Some ((merged r ?r q)\<lparr>run_updated_at := clk\<rparr>)"
    using ne id q row_of_Some[OF q] by (simp add: write_checkpoint_def write_run_def row_of_update)
  moreover have "run_items_seen (merged r ?r q) = ?n" using assms(4) by (simp add: merged_def set_column_def)
  moreover have "length (run_entries rid ?s) = length (run_entries rid v) + length rows"
    using page_rows_Inr(2)[OF assms(6)]
    by (simp add: write_checkpoint_def write_run_def run_entries_def filter_id_conv)
  ultimately show ?thesis using page_rows_Inr(1)[OF rows'] by (auto simp: entries)
qed

end
