(* ===== verification/Index_Demo.thy ===== *)
theory Index_Demo
  imports Index_Scan Index_Race Index_Cancellation Index_Sessions Plan_Demo
begin

text \<open>
  A library with one directory of two files is scanned twice, the second time after one file is
  gone; in between, a plan is made from the first scan.  Evaluated in the kernel, the scans
  instantiate the properties of the index.
\<close>

definition tv_config :: index_config where
  "tv_config = \<lparr>ic_library_id = [8], ic_root = lit ''9'', ic_page_size = 1, ic_max_changes = 10,
     ic_refuses = (\<lambda>_. False)\<rparr>"

definition tv_file :: "string \<Rightarrow> lib_entry" where
  "tv_file i = \<lparr>le_directory_id = None, le_file_id = Some (lit i), le_parent_id = Some (lit ''9''),
     le_name = lit i, le_is_directory = False, le_size_bytes = Some 4, le_modified_at = None,
     le_pickcode = None, le_path = Some (lit i)\<rparr>"

definition tv_page :: "lib_entry \<Rightarrow> int \<Rightarrow> int \<Rightarrow> dir_page" where
  "tv_page e n k = \<lparr>dp_items = [e], dp_page = n, dp_page_count = Some k, dp_total = Some k,
     dp_scan_complete = None, dp_state = PAGE_COMPLETE, dp_error_code = None, dp_has_more = None,
     dp_next_page = None, dp_terminal = None\<rparr>"

definition tv_remote :: "string list \<Rightarrow> unit gateway" where
  "tv_remote names d n z x = (if 1 \<le> n \<and> nat n \<le> length names
     then (GwPage (tv_page (tv_file (names ! (nat n - 1))) n (int (length names))), x) else (GwError, x))"

definition tv_world :: "unit scan_world" where
  "tv_world = \<lparr>sw_db = saga_store\<lparr>plans := [], runs := [], scan_entries := []\<rparr>, sw_clock = 5, sw_remote = ()\<rparr>"

definition tv_scan :: "string list \<Rightarrow> nat \<Rightarrow> string \<Rightarrow> unit scan_world
    \<Rightarrow> ((index_error + index_result) \<times> unit scan_world) option" where
  "tv_scan names fuel i w = index_scan tv_config (alone (tv_remote names)) fuel (lit i) (lit i) w"

definition tv_first :: "unit scan_world" where
  "tv_first = snd (the (tv_scan [''5'', ''6''] 3 ''r1'' tv_world))"

definition tv_second :: "unit scan_world" where
  "tv_second = snd (the (tv_scan [''6''] 3 ''r2'' tv_first))"

definition tv_outcome :: "((index_error + index_result) \<times> unit scan_world) option \<Rightarrow> (bool \<times> int \<times> int) option" where
  "tv_outcome x = (case x of Some (Inr r, _) \<Rightarrow> Some (ix_complete r, ix_items_seen r, ix_removed_count r) | _ \<Rightarrow> None)"

lemma tv_runs:
  "tv_outcome (tv_scan [''5'', ''6''] 3 ''r1'' tv_world) = Some (True, 2, 0)"
  "tv_outcome (tv_scan [''6''] 3 ''r2'' tv_first) = Some (True, 1, 1)"
  by code_simp+

lemma tv_scans:
  obtains r1 r2 where "tv_scan [''5'', ''6''] 3 ''r1'' tv_world = Some (Inr r1, tv_first)" "ix_complete r1"
    "tv_scan [''6''] 3 ''r2'' tv_first = Some (Inr r2, tv_second)" "ix_complete r2"
  using tv_runs that
  by (auto simp: tv_outcome_def tv_first_def tv_second_def split: option.splits prod.splits sum.splits)

lemma tv_world_ok: "library_ok (sw_db tv_world)" "index_ok (sw_db tv_world)"
  by (simp_all add: library_ok_def index_ok_def tv_world_def saga_store_def saga_library_def
      revisions_unique_def snapshot_def latest_run_def mirrors_def key_mirrored_def ledger_entry_def)

section \<open>Witnesses\<close>

text \<open>The scan is cancelled once its first page is stored.\<close>

definition tv_cancel :: "nat \<Rightarrow> cancel" where
  "tv_cancel k = (if k = 4 then CancelledAfter else NotCancelled)"

theorem index_tables_sound_witness:
  "\<exists>res k w. index_scan_awaits tv_cancel tv_config (alone (tv_remote [''5'', ''6''])) 3 (lit ''r1'') (lit ''r1'') (0, tv_world)
      = Some (Inr res, k, w)
    \<and> ix_state res = SCAN_CANCELLED \<and> ix_pages_read res = 1 \<and> index_ok (sw_db w)"
proof -
  let ?scan = "index_scan_awaits tv_cancel tv_config (alone (tv_remote [''5'', ''6''])) 3 (lit ''r1'') (lit ''r1'') (0, tv_world)"
  have "map_option (\<lambda>y. map_sum id (\<lambda>r. (ix_state r, ix_pages_read r)) (fst y)) ?scan
      = Some (Inr (SCAN_CANCELLED, 1))"
    by code_simp
  then obtain res k w where r: "?scan = Some (Inr res, k, w)" "ix_state res = SCAN_CANCELLED" "ix_pages_read res = 1"
    by (auto simp: map_sum_Inr)
  from index_tables_sound[OF r(1) alone_good tv_world_ok(2)] r show ?thesis by blast
qed

theorem ledger_shows_latest_snapshot_witness:
  "library_ok (sw_db tv_first)
    \<and> map (\<lambda>l. (lg_object_id l, lg_status l)) (ledger (sw_db tv_second)) = [(lit ''5'', ''missing''), (lit ''6'', ''active'')]"
proof (intro conjI)
  show "map (\<lambda>l. (lg_object_id l, lg_status l)) (ledger (sw_db tv_second))
      = [(lit ''5'', ''missing''), (lit ''6'', ''active'')]"
    by code_simp
  obtain r1 where "tv_scan [''5'', ''6''] 3 ''r1'' tv_world = Some (Inr r1, tv_first)" using tv_scans by blast
  from ledger_shows_latest_snapshot[OF this[unfolded tv_scan_def] alone_good tv_world_ok(1)]
  show "library_ok (sw_db tv_first)" .
qed

lemma tv_first_ok: "library_ok (sw_db tv_first)"
proof -
  obtain r1 where "tv_scan [''5'', ''6''] 3 ''r1'' tv_world = Some (Inr r1, tv_first)" using tv_scans by blast
  from index_steps_library_ok[OF index_scan_steps[OF this[unfolded tv_scan_def] alone_good] tv_world_ok(1)] tv_world_ok(1)
  show ?thesis by (simp add: library_ok_def index_ok_def)
qed

text \<open>A plan for the first file, made from the first scan.\<close>

definition tv_request :: plan_request where
  "tv_request = (sky_request (sky_item\<lparr>pi_source := (pi_source sky_item)\<lparr>psrc_object_type := lit ''file'',
       psrc_path := lit ''5''\<rparr>\<rparr>))\<lparr>pq_scan_run_id := lit ''r1''\<rparr>"

definition tv_planned :: "unit scan_world" where
  "tv_planned = tv_first\<lparr>sw_db := (sw_db tv_first)\<lparr>plans :=
     plans (snd (create_plan ascii_unicode plain_digest (\<lambda>s. s) [6] 10 tv_request (sw_db tv_first)))\<rparr>\<rparr>"

definition tv_third :: "unit scan_world" where
  "tv_third = snd (the (tv_scan [''6''] 3 ''r2'' tv_planned))"

lemma library_ok_plans [simp]: "library_ok (s\<lparr>plans := ps\<rparr>) = library_ok s"
  by (simp add: library_ok_def index_ok_def run_sound_def run_entries_def snapshot_def latest_run_def
      mirrors_def ledger_entry_def cong: option.case_cong)

theorem new_snapshot_unloads_plans_witness:
  "load_executable_steps ascii_unicode plain_digest (sw_db tv_planned) 20 [6] \<noteq> None
    \<and> load_executable_steps ascii_unicode plain_digest (sw_db tv_third) 20 [6] = None"
proof
  show "load_executable_steps ascii_unicode plain_digest (sw_db tv_planned) 20 [6] \<noteq> None" by code_simp
  have "map_option (\<lambda>x. map_sum id (\<lambda>r. (ix_run_id r, ix_complete r)) (fst x)) (tv_scan [''6''] 3 ''r2'' tv_planned)
      = Some (Inr (lit ''r2'', True))"
    by code_simp
  then obtain r2 where r2: "tv_scan [''6''] 3 ''r2'' tv_planned = Some (Inr r2, tv_third)" "ix_complete r2"
    "ix_run_id r2 = lit ''r2''"
    by (auto simp: tv_third_def map_sum_Inr)
  have "keyed_run tv_config (lit ''r2'') (sw_db tv_planned) = None"
    "map_option (\<lambda>p. (plan_library_id p, plan_source_scan_run_id p)) (get_plan [6] (sw_db tv_third)) = Some ([8], lit ''r1'')"
    "lit ''r1'' \<noteq> lit ''r2''" "ic_library_id tv_config = [8]" "library_ok (sw_db tv_planned)"
    by (code_simp, code_simp, code_simp, code_simp, simp add: tv_planned_def tv_first_ok)
  with new_snapshot_unloads_plans[OF r2(1)[unfolded tv_scan_def] alone_good _ r2(2)] r2(3)
  show "load_executable_steps ascii_unicode plain_digest (sw_db tv_third) 20 [6] = None"
    by auto
qed

theorem completed_scan_repeats_witness:
  "\<exists>r. tv_scan [''6''] 3 ''r1'' tv_first = Some (Inr r, tv_first) \<and> ix_complete r"
proof -
  obtain r1 where r1: "tv_scan [''5'', ''6''] 3 ''r1'' tv_world = Some (Inr r1, tv_first)" "ix_complete r1"
    using tv_scans by blast
  from completed_scan_repeats[OF r1(1)[unfolded tv_scan_def] alone_good tv_world_ok(1) r1(2)] r1(2)
  show ?thesis by (auto simp: tv_scan_def)
qed

theorem late_failure_revokes_snapshot_witness:
  "\<exists>res w'. index_loop tv_config (alone (tv_remote [])) (lit ''r1'') 1 2 None None tv_first = Some (Inr res, w')
    \<and> ix_state res = SCAN_FAILED \<and> ix_snapshot_revision res = Some 1"
proof -
  have "map_option (\<lambda>r. (run_complete r, run_snapshot_revision r)) (row_of run_id (lit ''r1'') (runs (sw_db tv_first)))
      = Some (True, Some 1)"
    by code_simp
  then obtain r where r: "row_of run_id (lit ''r1'') (runs (sw_db tv_first)) = Some r" "run_snapshot_revision r = Some 1"
    by auto
  have gw: "alone (tv_remote []) (ic_root tv_config) 2 (ic_page_size tv_config) tv_first = (GwError, tv_first)"
    by (simp add: alone_def tv_remote_def)
  from late_failure_revokes_snapshot[where gw = "alone (tv_remote [])" and fuel = 0 and ec = None and et = None, OF gw r(1)] r(2) show ?thesis by auto
qed

theorem index_agrees_with_scan_witness:
  "\<exists>res w'. tv_scan [''5'', ''6''] 3 ''r1'' tv_world = Some (Inr res, w') \<and> ix_complete res
    \<and> run_entries (lit ''r1'') (sw_db w') = map (row_for (lit ''r1'')) [tv_file ''5'', tv_file ''6'']"
proof -
  have "map_option (\<lambda>x. map_sum id (\<lambda>r. (sr_complete r, sr_items r)) (fst x))
      (scan_directory (tv_remote [''5'', ''6'']) (ic_root tv_config) (ic_page_size tv_config) 3 (sw_remote tv_world))
    = Some (Inr (True, [tv_file ''5'', tv_file ''6'']))"
    by code_simp
  then obtain r x' where r: "scan_directory (tv_remote [''5'', ''6'']) (ic_root tv_config) (ic_page_size tv_config) 3
      (sw_remote tv_world) = Some (Inr r, x')" "sr_complete r" "sr_items r = [tv_file ''5'', tv_file ''6'']"
    by (auto simp: map_sum_Inr)
  have side: "entries_in_scope (ic_root tv_config) (sr_items r) = Inr ()"
    "distinct (map entry_identity (sr_items r))"
    "\<not> list_ex (ic_refuses tv_config) (map (row_for (lit ''r1'')) (sr_items r))"
    "index_key (lit ''r1'')" "keyed_run tv_config (lit ''r1'') (sw_db tv_world) = None"
    "lit ''r1'' \<notin> run_id ` set (runs (sw_db tv_world))"
    unfolding r(3) by (simp_all add: tv_config_def tv_file_def entry_identity_def lit_def index_key_def
        keyed_run_def tv_world_def rbind_def)
  have scope: "verify_index_scope tv_config (sw_db tv_world) = (Inr (), sw_db tv_world)"
    by (simp add: verify_index_scope_def tv_config_def tv_world_def saga_store_def saga_library_def row_of_def)
  from index_agrees_with_scan[OF r(1,2) side(1-4) scope side(5) tv_world_ok(2) side(6)] r(3)
  show ?thesis by (auto simp: tv_scan_def)
qed

theorem index_scan_terminates_witness:
  "\<exists>out w'. index_scan tv_config (alone (tv_remote [''5'', ''6''])) (Suc (card {(lit ''file'', lit ''5''), (lit ''file'', lit ''6'')}))
    (lit ''r1'') (lit ''r1'') tv_world = Some (out, w')"
proof (rule index_scan_terminates)
  fix d n z x p x' e k
  assume p: "tv_remote [''5'', ''6''] d n z x = (GwPage p, x')" "e \<in> set (dp_items p)" "entry_identity e = Inr k"
  then have "n = 1 \<or> n = 2" by (auto simp: tv_remote_def split: if_splits)
  with p show "k \<in> {(lit ''file'', lit ''5''), (lit ''file'', lit ''6'')}"
    by (auto simp: tv_remote_def tv_page_def tv_file_def entry_identity_def split: if_splits)
qed simp

end
