(* ===== verification/Subscriptions.thy ===== *)
theory Subscriptions
  imports Workflow Complex_Main "HOL-Library.List_Lexorder"
begin

text \<open>
  \<^verbatim>\<open>services/subscriptions.py\<close> and \<^verbatim>\<open>services/subscription_scheduler.py\<close>: what the user wants to
  be searched for again and again, and the loop that searches.  A call is several statements;
  where other sessions can commit between two of them, their effect is an argument (\<open>interf\<close>).
  The search service is a parameter that may change the database.
\<close>

section \<open>Tables\<close>

datatype sub_mode = MODE_REMIND | MODE_CONFIRM | MODE_AUTO

datatype sub_status =
  SUB_ACTIVE | SUB_MATCHED | SUB_PAUSED | SUB_CANCELLED | SUB_COMPLETED | SUB_NO_MATCH

record sub_row =
  sb_id :: pystr
  sb_tmdb_id :: int
  sb_media_type :: media_type
  sb_season :: "int option"
  sb_episode_start :: "int option"
  sb_episode_end :: "int option"
  sb_mode :: sub_mode
  sb_status :: sub_status
  sb_profile_id :: "pystr option"
  sb_next_check_at :: "time option"
  sb_last_checked_at :: "time option"
  sb_last_match_count :: int
  sb_last_error_code :: "pystr option"
  sb_revision :: int
  sb_created_at :: time
  sb_updated_at :: time

record obs_row =
  ob_id :: pystr
  ob_subscription_id :: pystr
  ob_resource_id :: pystr
  ob_canonical_key :: pystr
  ob_first_seen_at :: time
  ob_last_seen_at :: time
  ob_seen_count :: int

record known_resource =
  kr_id :: pystr
  kr_canonical_key :: pystr

record sub_db =
  subs :: "sub_row list"
  observations :: "obs_row list"
  known_resources :: "known_resource list"

text \<open>The database and the clock; a session reads the clock once.\<close>

record sub_world =
  sd_db :: sub_db
  sd_clock :: time

datatype sub_error =
    SubNotFound pystr
  | SubConflict string
  | SubValueError string
  | SubIntegrityErr

type_synonym 'a sub_act = "(sub_world, sub_error, 'a) act"

definition set_subs :: "(sub_row list \<Rightarrow> sub_row list) \<Rightarrow> sub_world \<Rightarrow> sub_world" where
  "set_subs f w = w\<lparr>sd_db := (sd_db w)\<lparr>subs := f (subs (sd_db w))\<rparr>\<rparr>"

definition get_sub :: "pystr \<Rightarrow> sub_world \<Rightarrow> sub_row option" where
  "get_sub sid w = row_of sb_id sid (subs (sd_db w))"

text \<open>
  An \<open>UPDATE\<close> of a loaded row writes the columns whose values changed since it was loaded; the
  other columns keep what the table holds by then.  The time of the update is always written.
\<close>

definition pick :: "'a \<Rightarrow> 'a \<Rightarrow> 'a \<Rightarrow> 'a" where
  "pick old new current = (if new = old then current else new)"

definition merge_sub :: "sub_row \<Rightarrow> sub_row \<Rightarrow> sub_row \<Rightarrow> sub_row" where
  "merge_sub old new r =
     r\<lparr>sb_status := pick (sb_status old) (sb_status new) (sb_status r),
       sb_next_check_at := pick (sb_next_check_at old) (sb_next_check_at new) (sb_next_check_at r),
       sb_last_checked_at := pick (sb_last_checked_at old) (sb_last_checked_at new) (sb_last_checked_at r),
       sb_last_match_count := pick (sb_last_match_count old) (sb_last_match_count new) (sb_last_match_count r),
       sb_last_error_code := pick (sb_last_error_code old) (sb_last_error_code new) (sb_last_error_code r),
       sb_revision := pick (sb_revision old) (sb_revision new) (sb_revision r),
       sb_updated_at := sb_updated_at new\<rparr>"

definition flush_sub :: "sub_row \<Rightarrow> sub_row \<Rightarrow> sub_world \<Rightarrow> sub_world" where
  "flush_sub old new = set_subs (update_where (\<lambda>r. sb_id r = sb_id old) (merge_sub old new))"

section \<open>Creating and changing\<close>

record sub_request =
  sq_tmdb_id :: int
  sq_media_type :: media_type
  sq_season :: "int option"
  sq_episode_start :: "int option"
  sq_episode_end :: "int option"
  sq_mode :: sub_mode
  sq_profile_id :: "pystr option"

definition at_least :: "int \<Rightarrow> int option \<Rightarrow> bool" where
  "at_least n v = (case v of None \<Rightarrow> True | Some k \<Rightarrow> n \<le> k)"

definition valid_sub_request :: "sub_request \<Rightarrow> bool" where
  "valid_sub_request q =
     (0 < sq_tmdb_id q \<and> at_least 0 (sq_season q) \<and> at_least 1 (sq_episode_start q)
      \<and> at_least 1 (sq_episode_end q)
      \<and> (case sq_profile_id q of None \<Rightarrow> True | Some p \<Rightarrow> 1 \<le> length p \<and> length p \<le> 64)
      \<and> (case (sq_episode_start q, sq_episode_end q) of (Some a, Some b) \<Rightarrow> a \<le> b | _ \<Rightarrow> True)
      \<and> (sq_media_type q = MEDIA_MOVIE
           \<longrightarrow> sq_season q = None \<and> sq_episode_start q = None \<and> sq_episode_end q = None))"

type_synonym sub_scope = "int \<times> media_type \<times> int option \<times> int option \<times> int option"

definition scope_of :: "sub_row \<Rightarrow> sub_scope" where
  "scope_of r = (sb_tmdb_id r, sb_media_type r, sb_season r, sb_episode_start r, sb_episode_end r)"

definition request_scope :: "sub_request \<Rightarrow> sub_scope" where
  "request_scope q = (sq_tmdb_id q, sq_media_type q, sq_season q, sq_episode_start q, sq_episode_end q)"

text \<open>
  The first row of the scope in the order of the table (\<open>== None\<close> is \<open>IS NULL\<close>).  The unique
  constraint never counts two rows equal when one of their columns is \<open>NULL\<close>.
\<close>

definition find_scope :: "sub_request \<Rightarrow> sub_world \<Rightarrow> sub_row option" where
  "find_scope q w = find (\<lambda>r. scope_of r = request_scope q) (subs (sd_db w))"

fun closed_scope :: "sub_scope \<Rightarrow> bool" where
  "closed_scope (t, m, s, a, b) = (s \<noteq> None \<and> a \<noteq> None \<and> b \<noteq> None)"

definition sub_clash :: "sub_row \<Rightarrow> sub_row list \<Rightarrow> bool" where
  "sub_clash r rs =
     (sb_id r \<in> set (map sb_id rs) \<or> (closed_scope (scope_of r) \<and> scope_of r \<in> set (map scope_of rs)))"

definition new_sub :: "sub_request \<Rightarrow> pystr \<Rightarrow> time \<Rightarrow> sub_row" where
  "new_sub q uuid now =
     \<lparr>sb_id = lit ''sub_'' @ uuid, sb_tmdb_id = sq_tmdb_id q, sb_media_type = sq_media_type q,
      sb_season = sq_season q, sb_episode_start = sq_episode_start q,
      sb_episode_end = sq_episode_end q, sb_mode = sq_mode q, sb_status = SUB_ACTIVE,
      sb_profile_id = sq_profile_id q, sb_next_check_at = Some now, sb_last_checked_at = None,
      sb_last_match_count = 0, sb_last_error_code = None, sb_revision = 1, sb_created_at = now,
      sb_updated_at = now\<rparr>"

definition create_sub ::
  "(sub_world \<Rightarrow> sub_world) \<Rightarrow> pystr \<Rightarrow> sub_request \<Rightarrow> sub_row sub_act" where
  "create_sub interf uuid q w =
     (if (case find_scope q w of None \<Rightarrow> False | Some r \<Rightarrow> sb_status r \<noteq> SUB_CANCELLED)
        then (Inl (SubConflict ''subscription_exists''), w)
      else
        (let r = new_sub q uuid (sd_clock w); w1 = interf w in
         if sub_clash r (subs (sd_db w1)) then (Inl (SubConflict ''subscription_exists''), w1)
         else (Inr r, set_subs (\<lambda>rs. rs @ [r]) w1)))"

definition list_subs :: "sub_world \<Rightarrow> sub_row list" where
  "list_subs w = sort_key (\<lambda>r. - sb_updated_at r) (subs (sd_db w))"

definition view_sub :: "pystr \<Rightarrow> sub_row sub_act" where
  "view_sub sid w = (case get_sub sid w of None \<Rightarrow> Inl (SubNotFound sid) | Some r \<Rightarrow> Inr r, w)"

definition mutated_sub :: "string \<Rightarrow> time \<Rightarrow> sub_row \<Rightarrow> sub_error + sub_row" where
  "mutated_sub action now r =
     (if action = ''pause''
        then (if sb_status r \<in> {SUB_CANCELLED, SUB_COMPLETED}
              then Inl (SubConflict ''subscription_not_pauseable'')
              else Inr (r\<lparr>sb_status := SUB_PAUSED\<rparr>))
      else if action = ''resume''
        then (if sb_status r = SUB_CANCELLED then Inl (SubConflict ''subscription_cancelled'')
              else Inr (r\<lparr>sb_status := SUB_ACTIVE, sb_next_check_at := Some now\<rparr>))
      else if action = ''cancel''
        then Inr (r\<lparr>sb_status := SUB_CANCELLED, sb_next_check_at := None\<rparr>)
      else Inl (SubValueError ''unknown_subscription_action''))"

definition mutate_sub ::
  "(sub_world \<Rightarrow> sub_world) \<Rightarrow> pystr \<Rightarrow> int \<Rightarrow> string \<Rightarrow> sub_row sub_act" where
  "mutate_sub interf sid revision action w =
     (case get_sub sid w of
        None \<Rightarrow> (Inl (SubNotFound sid), w)
      | Some r \<Rightarrow>
          if sb_revision r \<noteq> revision then (Inl (SubConflict ''subscription_conflict''), w)
          else
            (case mutated_sub action (sd_clock w) r of
               Inl e \<Rightarrow> (Inl e, w)
             | Inr r1 \<Rightarrow>
                 (let r2 = r1\<lparr>sb_revision := sb_revision r + 1, sb_updated_at := sd_clock w\<rparr>
                  in (Inr r2, flush_sub r r2 (interf w)))))"

section \<open>Observations\<close>

definition canonical_of :: "sub_world \<Rightarrow> pystr \<Rightarrow> pystr" where
  "canonical_of w rid =
     (case row_of kr_id rid (known_resources (sd_db w)) of
        Some k \<Rightarrow> kr_canonical_key k | None \<Rightarrow> lit ''resource:'' @ rid)"

definition obs_of :: "pystr \<Rightarrow> sub_world \<Rightarrow> obs_row list" where
  "obs_of sid w = filter (\<lambda>o'. ob_subscription_id o' = sid) (observations (sd_db w))"

definition new_obs ::
  "(pystr \<Rightarrow> pystr) \<Rightarrow> pystr \<Rightarrow> time \<Rightarrow> pystr \<Rightarrow> pystr \<Rightarrow> obs_row" where
  "new_obs digest sid now rid key =
     \<lparr>ob_id = digest (sid @ [58] @ key), ob_subscription_id = sid, ob_resource_id = rid,
      ob_canonical_key = key, ob_first_seen_at = now, ob_last_seen_at = now, ob_seen_count = 1\<rparr>"

definition seen_again :: "time \<Rightarrow> pystr \<Rightarrow> obs_row \<Rightarrow> obs_row" where
  "seen_again now rid r =
     r\<lparr>ob_resource_id := rid, ob_last_seen_at := now, ob_seen_count := ob_seen_count r + 1\<rparr>"

text \<open>The loop over the resources: the rows by key, and the resources that are new.\<close>

fun observe_all ::
  "(pystr \<Rightarrow> pystr) \<Rightarrow> pystr \<Rightarrow> time \<Rightarrow> (pystr \<times> pystr) list \<Rightarrow> obs_row list
    \<Rightarrow> obs_row list \<times> pystr list" where
  "observe_all digest sid now [] rows = (rows, [])"
| "observe_all digest sid now ((rid, key) # rest) rows =
     (if key \<in> set (map ob_canonical_key rows)
      then observe_all digest sid now rest
             (update_where (\<lambda>r. ob_canonical_key r = key) (seen_again now rid) rows)
      else
        (let out = observe_all digest sid now rest (rows @ [new_obs digest sid now rid key])
         in (fst out, rid # snd out)))"

definition merge_obs :: "obs_row \<Rightarrow> obs_row \<Rightarrow> obs_row \<Rightarrow> obs_row" where
  "merge_obs old new r =
     r\<lparr>ob_resource_id := pick (ob_resource_id old) (ob_resource_id new) (ob_resource_id r),
       ob_last_seen_at := pick (ob_last_seen_at old) (ob_last_seen_at new) (ob_last_seen_at r),
       ob_seen_count := pick (ob_seen_count old) (ob_seen_count new) (ob_seen_count r)\<rparr>"

definition obs_clash :: "obs_row \<Rightarrow> obs_row list \<Rightarrow> bool" where
  "obs_clash r rs =
     list_ex (\<lambda>q. ob_id q = ob_id r
        \<or> ob_subscription_id q = ob_subscription_id r \<and> ob_canonical_key q = ob_canonical_key r) rs"

fun insert_obs :: "obs_row list \<Rightarrow> obs_row list \<Rightarrow> obs_row list option" where
  "insert_obs [] rs = Some rs"
| "insert_obs (r # new) rs = (if obs_clash r rs then None else insert_obs new (rs @ [r]))"

definition write_obs :: "obs_row list \<Rightarrow> obs_row list \<Rightarrow> sub_world \<Rightarrow> (sub_error + unit) \<times> sub_world" where
  "write_obs loaded rows w =
     (let fresh = drop (length loaded) rows;
          changed = zip loaded rows;
          kept = fold (\<lambda>(old, new). update_where (\<lambda>r. ob_id r = ob_id old) (merge_obs old new))
                   changed (observations (sd_db w))
      in case insert_obs fresh kept of
           None \<Rightarrow> (Inl SubIntegrityErr, w)
         | Some rs \<Rightarrow> (Inr (), w\<lparr>sd_db := (sd_db w)\<lparr>observations := rs\<rparr>\<rparr>))"

definition record_observations ::
  "(sub_world \<Rightarrow> sub_world) \<Rightarrow> (pystr \<Rightarrow> pystr) \<Rightarrow> pystr \<Rightarrow> pystr list \<Rightarrow> pystr list sub_act" where
  "record_observations interf digest sid rids w =
     (if rids = [] then (Inr [], w)
      else
        (let keyed = map (\<lambda>rid. (rid, canonical_of w rid)) rids;
             loaded = filter (\<lambda>r. ob_canonical_key r \<in> set (map snd keyed)) (obs_of sid w);
             out = observe_all digest sid (sd_clock w) keyed loaded
         in case write_obs loaded (fst out) (interf w) of
              (Inl e, w1) \<Rightarrow> (Inl e, w1)
            | (Inr _, w1) \<Rightarrow> (Inr (snd out), w1)))"

definition list_observations :: "pystr \<Rightarrow> int \<Rightarrow> obs_row list sub_act" where
  "list_observations sid limit w =
     (if limit < 1 \<or> limit > 100
        then (Inl (SubValueError ''limit must be between 1 and 100''), w)
      else (case get_sub sid w of
              None \<Rightarrow> (Inl (SubNotFound sid), w)
            | Some _ \<Rightarrow>
                (Inr (take (nat limit) (sort_key (\<lambda>r. - ob_last_seen_at r) (sort_key ob_id (obs_of sid w)))), w)))"

section \<open>Checking\<close>

definition six_hours :: int where
  "six_hours = 6 * 3600 * 1000000"

text \<open>
  The surroundings of a check: the search, which returns the identifiers of its results or
  raises, and what other sessions do between the reads and writes of the later statements.
\<close>

record check_env =
  ce_search :: "int \<Rightarrow> media_type \<Rightarrow> int option \<Rightarrow> sub_world \<Rightarrow> pystr list option \<times> sub_world"
  ce_digest :: "pystr \<Rightarrow> pystr"
  ce_observing :: "sub_world \<Rightarrow> sub_world"
  ce_finishing :: "sub_world \<Rightarrow> sub_world"

definition failed_check :: "time \<Rightarrow> sub_row \<Rightarrow> sub_row" where
  "failed_check now r =
     r\<lparr>sb_last_checked_at := Some now, sb_last_error_code := Some (lit ''search_unavailable''),
       sb_next_check_at := Some (now + six_hours), sb_revision := sb_revision r + 1,
       sb_updated_at := now\<rparr>"

definition finished_check :: "time \<Rightarrow> pystr list \<Rightarrow> sub_row \<Rightarrow> sub_row" where
  "finished_check now rids r =
     r\<lparr>sb_last_checked_at := Some now, sb_last_match_count := int (length rids),
       sb_last_error_code := None, sb_status := (if rids = [] then SUB_NO_MATCH else SUB_MATCHED),
       sb_next_check_at := Some (now + six_hours), sb_revision := sb_revision r + 1,
       sb_updated_at := now\<rparr>"

definition update_sub ::
  "(sub_world \<Rightarrow> sub_world) \<Rightarrow> (time \<Rightarrow> sub_row \<Rightarrow> sub_row) \<Rightarrow> pystr \<Rightarrow> sub_row sub_act" where
  "update_sub interf f sid w =
     (case get_sub sid w of
        None \<Rightarrow> (Inl (SubNotFound sid), w)
      | Some r \<Rightarrow> (Inr (f (sd_clock w) r), flush_sub r (f (sd_clock w) r) (interf w)))"

record check_result =
  ck_subscription :: sub_row
  ck_matched_count :: int
  ck_resource_ids :: "pystr list"
  ck_new_resource_ids :: "pystr list"

text \<open>\<open>dict.fromkeys\<close> keeps the first of equal identifiers.\<close>

fun first_of_each :: "pystr list \<Rightarrow> pystr list" where
  "first_of_each [] = []"
| "first_of_each (x # xs) = x # filter (\<lambda>y. y \<noteq> x) (first_of_each xs)"

definition check_sub :: "check_env \<Rightarrow> pystr \<Rightarrow> check_result sub_act" where
  "check_sub env sid w =
     (case get_sub sid w of
        None \<Rightarrow> (Inl (SubNotFound sid), w)
      | Some r \<Rightarrow>
          if sb_status r \<in> {SUB_PAUSED, SUB_CANCELLED, SUB_COMPLETED}
            then (Inl (SubConflict ''subscription_not_active''), w)
          else
            (case ce_search env (sb_tmdb_id r) (sb_media_type r) (sb_season r) w of
               (None, w1) \<Rightarrow>
                 (case update_sub (ce_finishing env) failed_check sid w1 of
                    (Inl e, w2) \<Rightarrow> (Inl e, w2)
                  | (Inr _, w2) \<Rightarrow> (Inl (SubConflict ''subscription_check_failed''), w2))
             | (Some found, w1) \<Rightarrow>
                 (let rids = first_of_each found in
                  sbind (record_observations (ce_observing env) (ce_digest env) sid rids) (\<lambda>new.
                  sbind (update_sub (ce_finishing env) (\<lambda>now. finished_check now rids) sid) (\<lambda>row.
                  sret \<lparr>ck_subscription = row, ck_matched_count = int (length rids),
                        ck_resource_ids = rids, ck_new_resource_ids = new\<rparr>)) w1)))"

section \<open>The scheduler\<close>

definition schedulable :: "sub_status set" where
  "schedulable = {SUB_ACTIVE, SUB_MATCHED, SUB_NO_MATCH}"

definition sub_due :: "time \<Rightarrow> sub_row \<Rightarrow> bool" where
  "sub_due current r =
     (sb_status r \<in> schedulable
      \<and> (case sb_next_check_at r of None \<Rightarrow> False | Some t \<Rightarrow> t \<le> current))"

definition due_ids :: "time \<Rightarrow> sub_world \<Rightarrow> pystr list" where
  "due_ids current w =
     map sb_id (sort_key (\<lambda>r. the (sb_next_check_at r)) (sort_key sb_id
       (filter (sub_due current) (subs (sd_db w)))))"

record scheduler_result =
  sch_due :: int
  sch_checked :: int
  sch_failed :: int

text \<open>A check that raises counts as failed and does not stop the round.\<close>

fun check_each :: "check_env \<Rightarrow> pystr list \<Rightarrow> sub_world \<Rightarrow> nat \<times> sub_world" where
  "check_each env [] w = (0, w)"
| "check_each env (sid # sids) w =
     (case check_sub env sid w of
        (out, w1) \<Rightarrow> (case check_each env sids w1 of
           (failed, w2) \<Rightarrow> ((if isl out then Suc failed else failed), w2)))"

definition run_due_once ::
  "check_env \<Rightarrow> time option \<Rightarrow> int \<Rightarrow> scheduler_result sub_act" where
  "run_due_once env now limit w =
     (if limit < 1 \<or> limit > 100
        then (Inl (SubValueError ''limit must be between 1 and 100''), w)
      else
        (let current = (case now of None \<Rightarrow> sd_clock w | Some t \<Rightarrow> t);
             ids = take (nat limit) (due_ids current w)
         in case check_each env ids w of
              (failed, w1) \<Rightarrow>
                (Inr \<lparr>sch_due = int (length ids), sch_checked = int (length ids) - int failed,
                      sch_failed = int failed\<rparr>, w1)))"

text \<open>
  \<open>run_forever\<close>, at most \<open>fuel\<close> rounds with the default limit: the results of the rounds, and
  whether the stop event ended it.  \<open>pause\<close> is the wait between two rounds.
\<close>

fun sched_rounds ::
  "check_env \<Rightarrow> (sub_world \<Rightarrow> bool) \<Rightarrow> (sub_world \<Rightarrow> sub_world) \<Rightarrow> nat \<Rightarrow> sub_world
    \<Rightarrow> bool \<times> sub_world" where
  "sched_rounds env stop pause 0 w = (stop w, w)"
| "sched_rounds env stop pause (Suc fuel) w =
     (if stop w then (True, w)
      else sched_rounds env stop pause fuel (pause (snd (run_due_once env None 25 w))))"

definition sched_run_forever ::
  "check_env \<Rightarrow> (sub_world \<Rightarrow> bool) \<Rightarrow> (sub_world \<Rightarrow> sub_world) \<Rightarrow> nat \<Rightarrow> rat \<Rightarrow> bool sub_act" where
  "sched_run_forever env stop pause fuel interval_seconds w =
     (if interval_seconds < 5 \<or> interval_seconds > 86400
        then (Inl (SubValueError ''interval_seconds must be between 5 and 86400''), w)
      else (case sched_rounds env stop pause fuel w of (b, w1) \<Rightarrow> (Inr b, w1)))"

end
