(* ===== verification/Subscription_Props.thy ===== *)
theory Subscription_Props
  imports Subscriptions
begin

text \<open>
  What every interleaving of subscription calls keeps, and what can go wrong between a read
  and the write that rests on it.
\<close>

section \<open>Names\<close>

text \<open>The columns no call ever writes again; rows are never deleted.\<close>

definition sub_name :: "sub_row \<Rightarrow> pystr \<times> sub_scope" where
  "sub_name r = (sb_id r, scope_of r)"

definition obs_name :: "obs_row \<Rightarrow> pystr \<times> pystr \<times> pystr" where
  "obs_name r = (ob_id r, ob_subscription_id r, ob_canonical_key r)"

abbreviation sub_names :: "sub_world \<Rightarrow> (pystr \<times> sub_scope) list" where
  "sub_names w \<equiv> map sub_name (subs (sd_db w))"

abbreviation obs_names :: "sub_world \<Rightarrow> (pystr \<times> pystr \<times> pystr) list" where
  "obs_names w \<equiv> map obs_name (observations (sd_db w))"

definition sub_grows :: "sub_world \<Rightarrow> sub_world \<Rightarrow> bool" where
  "sub_grows w w' \<longleftrightarrow> (\<exists>ys. sub_names w' = sub_names w @ ys) \<and> (\<exists>zs. obs_names w' = obs_names w @ zs)"

definition names_ok :: "(pystr \<times> sub_scope) list \<Rightarrow> bool" where
  "names_ok ns \<longleftrightarrow> distinct (map fst ns) \<and> distinct (filter closed_scope (map snd ns))"

definition obs_names_ok :: "(pystr \<Rightarrow> pystr) \<Rightarrow> pystr set \<Rightarrow> (pystr \<times> pystr \<times> pystr) list \<Rightarrow> bool" where
  "obs_names_ok digest ids ns \<longleftrightarrow> distinct (map fst ns) \<and> distinct (map snd ns)
     \<and> (\<forall>(i, sid, key) \<in> set ns. sid \<in> ids \<and> i = digest (sid @ [58] @ key))"

definition subs_ok :: "(pystr \<Rightarrow> pystr) \<Rightarrow> sub_world \<Rightarrow> bool" where
  "subs_ok digest w \<longleftrightarrow>
     names_ok (sub_names w) \<and> obs_names_ok digest (sb_id ` set (subs (sd_db w))) (obs_names w)
     \<and> (\<forall>r \<in> set (subs (sd_db w)). 1 \<le> sb_revision r)
     \<and> (\<forall>r \<in> set (observations (sd_db w)). 1 \<le> ob_seen_count r)"

definition sound :: "(pystr \<Rightarrow> pystr) \<Rightarrow> sub_world \<Rightarrow> sub_world \<Rightarrow> bool" where
  "sound digest w w' \<longleftrightarrow> (subs_ok digest w \<longrightarrow> subs_ok digest w' \<and> sub_grows w w')"

lemma sub_grows_refl [simp]: "sub_grows w w"
  by (simp add: sub_grows_def)

lemma sub_grows_trans: "sub_grows w1 w2 \<Longrightarrow> sub_grows w w1 \<Longrightarrow> sub_grows w w2"
  unfolding sub_grows_def by (metis append.assoc)

lemma sound_refl [simp]: "sound digest w w"
  by (simp add: sound_def)

lemma sound_trans: "sound digest w1 w2 \<Longrightarrow> sound digest w w1 \<Longrightarrow> sound digest w w2"
  by (auto simp: sound_def intro: sub_grows_trans)

lemma get_sub_id: "get_sub sid w = Some r \<Longrightarrow> sb_id r = sid \<and> r \<in> set (subs (sd_db w))"
  by (auto simp: get_sub_def dest: row_of_Some)

lemma ids_grow: "sub_grows w w' \<Longrightarrow> sb_id ` set (subs (sd_db w)) \<subseteq> sb_id ` set (subs (sd_db w'))"
proof -
  assume "sub_grows w w'"
  then obtain ys where "sub_names w' = sub_names w @ ys" by (auto simp: sub_grows_def)
  then have "map fst (sub_names w') = map fst (sub_names w) @ map fst ys" by simp
  then have "map sb_id (subs (sd_db w')) = map sb_id (subs (sd_db w)) @ map fst ys"
    by (simp add: comp_def sub_name_def)
  then show ?thesis by (metis image_Un le_sup_iff list.set_map order_refl set_append)
qed

section \<open>Writes\<close>

lemma merge_sub_name [simp]: "sub_name (merge_sub old new r) = sub_name r"
  by (simp add: merge_sub_def sub_name_def scope_of_def)

lemma merge_obs_name [simp]: "obs_name (merge_obs old new r) = obs_name r"
  by (simp add: merge_obs_def obs_name_def)

lemma sub_name_ids: "map sb_id rs = map (fst \<circ> sub_name) rs"
  by (simp add: sub_name_def)

lemma merge_sub_id [simp]: "sb_id (merge_sub old new r) = sb_id r"
  by (simp add: merge_sub_def)

lemma flush_names [simp]:
  "sub_names (flush_sub old new w) = sub_names w"
  "map sb_id (subs (sd_db (flush_sub old new w))) = map sb_id (subs (sd_db w))"
  "sd_clock (flush_sub old new w) = sd_clock w"
  "observations (sd_db (flush_sub old new w)) = observations (sd_db w)"
  "known_resources (sd_db (flush_sub old new w)) = known_resources (sd_db w)"
  by (simp_all add: flush_sub_def set_subs_def map_key_update)

lemma flush_ids [simp]: "sb_id ` set (subs (sd_db (flush_sub old new w))) = sb_id ` set (subs (sd_db w))"
  by (metis flush_names(2) set_map)

lemma flush_sound: "1 \<le> sb_revision new \<Longrightarrow> sound digest w (flush_sub old new w)"
  by (auto simp: sound_def subs_ok_def sub_grows_def)
    (auto simp: flush_sub_def set_subs_def merge_sub_def pick_def dest!: set_update_where)

lemma new_sub_sound:
  assumes "\<not> sub_clash r (subs (sd_db w))" "1 \<le> sb_revision r"
  shows "sound digest w (set_subs (\<lambda>rs. rs @ [r]) w)"
  using assms
  by (auto simp: sound_def subs_ok_def names_ok_def obs_names_ok_def sub_grows_def set_subs_def sub_clash_def
      sub_name_def obs_name_def comp_def image_iff)

lemma create_sub_sound:
  assumes "create_sub interf uuid q w = (out, w')" and "\<And>v. sound digest v (interf v)"
  shows "sound digest w w'"
  using assms(1) new_sub_sound[of "new_sub q uuid (sd_clock w)" "interf w" digest] assms(2)[of w]
  by (auto simp: create_sub_def Let_def new_sub_def intro: sound_trans split: if_splits)

lemma mutated_revision: "mutated_sub action now r = Inr r1 \<Longrightarrow> sb_revision r1 = sb_revision r"
  by (auto simp: mutated_sub_def split: if_splits)

lemma mutate_sub_sound:
  assumes "mutate_sub interf sid revision action w = (out, w')" and "\<And>v. sound digest v (interf v)"
  shows "sound digest w w'"
proof (cases "w' = w")
  case False
  with assms(1) obtain r r1 where r: "get_sub sid w = Some r"
    and w'': "w' = flush_sub r (r1\<lparr>sb_revision := sb_revision r + 1, sb_updated_at := sd_clock w\<rparr>) (interf w)"
    by (auto simp: mutate_sub_def Let_def split: option.splits if_splits sum.splits)
  define r2 where "r2 = r1\<lparr>sb_revision := sb_revision r + 1, sb_updated_at := sd_clock w\<rparr>"
  then have r2: "sb_revision r2 = sb_revision r + 1" by simp
  note w' = w''[folded r2_def]
  show ?thesis
  proof (cases "subs_ok digest w")
    case True
    then have "1 \<le> sb_revision r" using get_sub_id[OF r] by (auto simp: subs_ok_def)
    with flush_sound[of r2 digest "interf w" r] r2 assms(2)[of w] sound_trans show ?thesis
      unfolding w' by auto
  qed (simp add: sound_def)
qed simp

lemma update_sub_sound:
  assumes "update_sub interf f sid w = (out, w')" and "\<And>v. sound digest v (interf v)"
    and "\<And>now r. sb_revision (f now r) = sb_revision r + 1"
  shows "sound digest w w'"
proof (cases "get_sub sid w")
  case (Some r)
  with assms(1) have w': "w' = flush_sub r (f (sd_clock w) r) (interf w)" by (auto simp: update_sub_def)
  show ?thesis
  proof (cases "subs_ok digest w")
    case True
    then have "1 \<le> sb_revision r" using get_sub_id[OF Some] by (auto simp: subs_ok_def)
    with flush_sound[of "f (sd_clock w) r" digest "interf w" r] assms(3) assms(2)[of w] sound_trans
    show ?thesis unfolding w' by auto
  qed (simp add: sound_def)
qed (use assms(1) in \<open>auto simp: update_sub_def\<close>)

section \<open>Recording\<close>

lemma seen_again_name [simp]: "obs_name (seen_again now rid r) = obs_name r"
  by (simp add: seen_again_def obs_name_def)

definition obs_of_sub :: "(pystr \<Rightarrow> pystr) \<Rightarrow> pystr \<Rightarrow> obs_row \<Rightarrow> bool" where
  "obs_of_sub digest sid r \<longleftrightarrow>
     ob_subscription_id r = sid \<and> ob_id r = digest (sid @ [58] @ ob_canonical_key r)"

text \<open>The loop keeps the loaded rows in place and appends the new ones.\<close>

lemma observe_all_rows:
  assumes "observe_all digest sid now ks rows = (rows', new)" and "\<forall>r \<in> set rows. 1 \<le> ob_seen_count r"
  shows "\<exists>fresh. map obs_name rows' = map obs_name rows @ map obs_name fresh
    \<and> (\<forall>r \<in> set fresh. obs_of_sub digest sid r)" and "\<forall>r \<in> set rows'. 1 \<le> ob_seen_count r"
proof -
  have "(\<exists>fresh. map obs_name rows' = map obs_name rows @ map obs_name fresh
      \<and> (\<forall>r \<in> set fresh. obs_of_sub digest sid r)) \<and> (\<forall>r \<in> set rows'. 1 \<le> ob_seen_count r)"
    using assms
  proof (induction digest sid now ks rows arbitrary: rows' new rule: observe_all.induct)
    case (1 digest sid now rows)
    then show ?case by (auto intro!: exI[of _ "[]"])
  next
    case (2 digest sid now rid key rest rows)
    show ?case
    proof (cases "key \<in> set (map ob_canonical_key rows)")
      case True
      with 2 have "observe_all digest sid now rest
        (update_where (\<lambda>r. ob_canonical_key r = key) (seen_again now rid) rows) = (rows', new)" by simp
      moreover have "\<forall>r \<in> set (update_where (\<lambda>r. ob_canonical_key r = key) (seen_again now rid) rows). 1 \<le> ob_seen_count r"
        using "2.prems"(2) by (fastforce simp: seen_again_def dest!: set_update_where)
      ultimately show ?thesis using "2.IH"(1)[OF True] by (simp add: map_key_update)
    next
      case False
      let ?n = "new_obs digest sid now rid key"
      obtain new0 where o: "observe_all digest sid now rest (rows @ [?n]) = (rows', new0)"
        using "2.prems"(1) False by (auto simp: Let_def prod_eq_iff)
      have "\<forall>r \<in> set (rows @ [?n]). 1 \<le> ob_seen_count r"
        using "2.prems"(2) by (simp add: new_obs_def)
      from "2.IH"(2)[OF False o this] obtain fresh where
        "map obs_name rows' = map obs_name (rows @ [?n]) @ map obs_name fresh"
        "\<forall>r \<in> set fresh. obs_of_sub digest sid r" "\<forall>r \<in> set rows'. 1 \<le> ob_seen_count r" by blast
      then show ?thesis by (intro conjI exI[of _ "?n # fresh"]) (auto simp: new_obs_def obs_of_sub_def)
    qed
  qed
  then show "\<exists>fresh. map obs_name rows' = map obs_name rows @ map obs_name fresh
    \<and> (\<forall>r \<in> set fresh. obs_of_sub digest sid r)" "\<forall>r \<in> set rows'. 1 \<le> ob_seen_count r" by blast+
qed

lemma observe_all_fresh:
  assumes "observe_all digest sid now ks rows = (rows', new)" and "\<forall>r \<in> set rows. 1 \<le> ob_seen_count r"
  shows "\<forall>r \<in> set (drop (length rows) rows'). obs_of_sub digest sid r"
proof
  fix r assume r: "r \<in> set (drop (length rows) rows')"
  from observe_all_rows(1)[OF assms] obtain fresh where
    f: "map obs_name rows' = map obs_name rows @ map obs_name fresh"
      "\<forall>r \<in> set fresh. obs_of_sub digest sid r" by blast
  from r have "obs_name r \<in> set (drop (length rows) (map obs_name rows'))" by (simp add: drop_map)
  then have "obs_name r \<in> set (map obs_name fresh)" unfolding f(1) by simp
  then obtain r' where "r' \<in> set fresh" "obs_name r = obs_name r'" by auto
  with f(2) show "obs_of_sub digest sid r" by (auto simp: obs_name_def obs_of_sub_def)
qed

lemma observe_all_distinct:
  assumes "observe_all digest sid now ks rows = (rows', new)" and "distinct (map ob_canonical_key rows)"
  shows "distinct (map ob_canonical_key rows')"
  using assms
proof (induction digest sid now ks rows arbitrary: rows' new rule: observe_all.induct)
  case (2 digest sid now rid key rest rows)
  show ?case
  proof (cases "key \<in> set (map ob_canonical_key rows)")
    case True
    with 2 have "observe_all digest sid now rest
      (update_where (\<lambda>r. ob_canonical_key r = key) (seen_again now rid) rows) = (rows', new)" by simp
    moreover have "map ob_canonical_key (update_where (\<lambda>r. ob_canonical_key r = key) (seen_again now rid) rows)
      = map ob_canonical_key rows"
      by (rule map_key_update) (simp add: seen_again_def)
    ultimately show ?thesis using "2.IH"(1)[OF True] "2.prems"(2) by metis
  next
    case False
    with 2 obtain new0 where "observe_all digest sid now rest (rows @ [new_obs digest sid now rid key]) = (rows', new0)"
      by (auto simp: Let_def prod_eq_iff)
    from "2.IH"(2)[OF False this] False "2.prems"(2) show ?thesis by (simp add: new_obs_def)
  qed
qed simp

lemma insert_obs_Some:
  assumes "insert_obs new rs = Some rs'"
  shows "rs' = rs @ new" and "distinct (map ob_id rs) \<Longrightarrow> distinct (map ob_id rs')"
    and "distinct (map (snd \<circ> obs_name) rs) \<Longrightarrow> distinct (map (snd \<circ> obs_name) rs')"
proof -
  have "rs' = rs @ new \<and> (distinct (map ob_id rs) \<longrightarrow> distinct (map ob_id rs'))
    \<and> (distinct (map (snd \<circ> obs_name) rs) \<longrightarrow> distinct (map (snd \<circ> obs_name) rs'))"
    using assms
  proof (induction new arbitrary: rs)
    case (Cons r new)
    then have r: "\<not> obs_clash r rs" "insert_obs new (rs @ [r]) = Some rs'" by (auto split: if_splits)
    have "distinct (map ob_id rs) \<longrightarrow> distinct (map ob_id (rs @ [r]))"
      "distinct (map (snd \<circ> obs_name) rs) \<longrightarrow> distinct (map (snd \<circ> obs_name) (rs @ [r]))"
      using r(1) by (auto simp: obs_clash_def list_ex_iff obs_name_def)
    with Cons.IH[OF r(2)] show ?case by (intro conjI) (simp, blast, blast)
  qed simp
  then show "rs' = rs @ new" "distinct (map ob_id rs) \<Longrightarrow> distinct (map ob_id rs')"
    "distinct (map (snd \<circ> obs_name) rs) \<Longrightarrow> distinct (map (snd \<circ> obs_name) rs')" by blast+
qed

lemma fold_merge_names:
  "map obs_name (fold (\<lambda>(old, new). update_where (\<lambda>r. ob_id r = ob_id old) (merge_obs old new)) ps rs)
    = map obs_name rs"
  by (induction ps arbitrary: rs) (auto simp: map_key_update)

lemma fold_merge_counts:
  assumes "\<forall>(old, new) \<in> set ps. 1 \<le> ob_seen_count new" and "\<forall>r \<in> set rs. 1 \<le> ob_seen_count r"
  shows "\<forall>r \<in> set (fold (\<lambda>(old, new). update_where (\<lambda>r. ob_id r = ob_id old) (merge_obs old new)) ps rs).
    1 \<le> ob_seen_count r"
  using assms
proof (induction ps arbitrary: rs)
  case (Cons p ps)
  obtain old new where p: "p = (old, new)" by (cases p)
  have "\<forall>r \<in> set (update_where (\<lambda>r. ob_id r = ob_id old) (merge_obs old new) rs). 1 \<le> ob_seen_count r"
    using Cons.prems p by (fastforce simp: merge_obs_def pick_def dest!: set_update_where)
  from Cons.IH[OF _ this] Cons.prems p show ?case by simp
qed simp

lemma write_obs_sound:
  assumes "write_obs loaded rows w = (out, w')" and "sid \<in> sb_id ` set (subs (sd_db w))"
    and "\<forall>r \<in> set (drop (length loaded) rows). obs_of_sub digest sid r" and "\<forall>r \<in> set rows. 1 \<le> ob_seen_count r"
  shows "sound digest w w'"
proof (cases "w' = w")
  case False
  let ?kept = "fold (\<lambda>(old, new). update_where (\<lambda>r. ob_id r = ob_id old) (merge_obs old new))
      (zip loaded rows) (observations (sd_db w))"
  from assms(1) False obtain rs where rs: "insert_obs (drop (length loaded) rows) ?kept = Some rs"
    and w': "w' = w\<lparr>sd_db := (sd_db w)\<lparr>observations := rs\<rparr>\<rparr>"
    by (auto simp: write_obs_def Let_def split: option.splits)
  note ins = insert_obs_Some[OF rs]
  have names: "obs_names w' = obs_names w @ map obs_name (drop (length loaded) rows)"
    by (simp add: w' ins(1) fold_merge_names)
  have ids: "map ob_id xs = map fst (map obs_name xs)" for xs by (simp add: obs_name_def)
  show ?thesis unfolding sound_def
  proof
    assume ok: "subs_ok digest w"
    then have "distinct (map ob_id rs)" "distinct (map (snd \<circ> obs_name) rs)"
      using ins(2,3) fold_merge_names[of "zip loaded rows" "observations (sd_db w)"]
      by (auto simp: ids subs_ok_def obs_names_ok_def simp flip: map_map)
    then have "distinct (map fst (obs_names w'))" "distinct (map snd (obs_names w'))"
      by (simp_all add: w' obs_name_def comp_def)
    moreover have "\<forall>r \<in> set rs. 1 \<le> ob_seen_count r"
      using fold_merge_counts[of "zip loaded rows" "observations (sd_db w)"] ok assms(4)
      by (auto simp: ins(1) subs_ok_def dest: set_zip_rightD in_set_dropD)
    moreover have "\<forall>(i, q, key) \<in> set (obs_names w'). q \<in> sb_id ` set (subs (sd_db w))
        \<and> i = digest (q @ [58] @ key)"
      using ok assms(2,3) unfolding names
      by (auto simp: subs_ok_def obs_names_ok_def obs_of_sub_def obs_name_def)
    ultimately have "obs_names_ok digest (sb_id ` set (subs (sd_db w'))) (obs_names w')"
      "\<forall>r \<in> set (observations (sd_db w')). 1 \<le> ob_seen_count r"
      unfolding obs_names_ok_def by (simp_all add: w')
    with ok names show "subs_ok digest w' \<and> sub_grows w w'"
      by (simp add: subs_ok_def sub_grows_def w')
  qed
qed simp

lemma record_observations_sound:
  assumes "record_observations interf digest sid rids w = (out, w')" and "\<And>v. sound digest v (interf v)"
    and "sid \<in> sb_id ` set (subs (sd_db w))"
  shows "sound digest w w'"
proof (cases "rids = [] \<or> \<not> subs_ok digest w")
  case False
  let ?keyed = "map (\<lambda>rid. (rid, canonical_of w rid)) rids"
  let ?loaded = "filter (\<lambda>r. ob_canonical_key r \<in> set (map snd ?keyed)) (obs_of sid w)"
  obtain rows new where o: "observe_all digest sid (sd_clock w) ?keyed ?loaded = (rows, new)" by fastforce
  obtain x w2 where wo: "write_obs ?loaded rows (interf w) = (x, w2)" by fastforce
  have "w2 = w'"
    using assms(1) False unfolding record_observations_def Let_def o fst_conv wo by (auto split: sum.splits)
  with wo have w1: "write_obs ?loaded rows (interf w) = (x, w')" by simp
  have counts: "\<forall>r \<in> set ?loaded. 1 \<le> ob_seen_count r"
    using False by (auto simp: subs_ok_def obs_of_def)
  note rows = observe_all_rows(2)[OF o counts] and fresh = observe_all_fresh[OF o counts]
  have int: "sound digest w (interf w)" by (rule assms(2))
  with False ids_grow[of w "interf w"] have "sid \<in> sb_id ` set (subs (sd_db (interf w)))"
    using assms(3) unfolding sound_def by blast
  from write_obs_sound[OF w1 this fresh rows] int show ?thesis by (rule sound_trans)
qed (use assms(1) in \<open>auto simp: record_observations_def sound_def\<close>)

definition sound_env :: "(pystr \<Rightarrow> pystr) \<Rightarrow> check_env \<Rightarrow> bool" where
  "sound_env digest env \<longleftrightarrow>
     ce_digest env = digest \<and> (\<forall>t m s v. sound digest v (snd (ce_search env t m s v)))
     \<and> (\<forall>v. sound digest v (ce_observing env v)) \<and> (\<forall>v. sound digest v (ce_finishing env v))"

lemma check_revisions [simp]:
  "sb_revision (failed_check now r) = sb_revision r + 1"
  "sb_revision (finished_check now rids r) = sb_revision r + 1"
  by (simp_all add: failed_check_def finished_check_def)

lemma check_sub_sound:
  assumes "check_sub env sid w = (out, w')" and "sound_env digest env"
  shows "sound digest w w'"
proof (cases "w' = w \<or> \<not> subs_ok digest w")
  case False
  with assms(1) obtain r where r: "get_sub sid w = Some r"
    "sb_status r \<notin> {SUB_PAUSED, SUB_CANCELLED, SUB_COMPLETED}"
    by (auto simp: check_sub_def split: option.splits if_splits)
  obtain res w1 where s: "ce_search env (sb_tmdb_id r) (sb_media_type r) (sb_season r) w = (res, w1)" by fastforce
  have s1: "sound digest w w1" using assms(2) s unfolding sound_env_def by (metis snd_conv)
  have int: "\<And>v. sound digest v (ce_observing env v)" "\<And>v. sound digest v (ce_finishing env v)"
    and dg: "ce_digest env = digest" using assms(2) by (simp_all add: sound_env_def)
  show ?thesis
  proof (cases res)
    case None
    with assms(1) r s obtain o2 where "update_sub (ce_finishing env) failed_check sid w1 = (o2, w')"
      by (auto simp: check_sub_def split: prod.splits sum.splits)
    from update_sub_sound[OF this int(2)] s1 show ?thesis by (auto intro: sound_trans)
  next
    case (Some found)
    let ?rids = "first_of_each found"
    obtain o2 w2 where rec: "record_observations (ce_observing env) digest sid ?rids w1 = (o2, w2)" by fastforce
    have "sid \<in> sb_id ` set (subs (sd_db w1))"
      using get_sub_id[OF r(1)] ids_grow[of w w1] s1 False unfolding sound_def by blast
    from record_observations_sound[OF rec int(1) this] s1 have s2: "sound digest w w2" by (rule sound_trans)
    show ?thesis
    proof (cases o2)
      case (Inl e)
      with assms(1) r s Some rec dg s2 show ?thesis by (auto simp: check_sub_def sbind_def Let_def)
    next
      case (Inr new)
      with assms(1) r s Some rec dg obtain o3 where
        "update_sub (ce_finishing env) (\<lambda>now. finished_check now ?rids) sid w2 = (o3, w')"
        by (auto simp: check_sub_def sbind_def sret_def Let_def split: prod.splits sum.splits)
      from update_sub_sound[OF this int(2)] s2 show ?thesis by (auto intro: sound_trans)
    qed
  qed
qed (auto simp: sound_def)

section \<open>Every interleaving\<close>

text \<open>
  Sequences of calls.  What happens while a call waits is again such a sequence, as are the
  changes of the resource table and of the clock in between.
\<close>

inductive sub_run :: "(pystr \<Rightarrow> pystr) \<Rightarrow> sub_world \<Rightarrow> sub_world \<Rightarrow> bool" for digest where
  sub_start: "sub_run digest w w"
| sub_other: "sub_run digest w w1 \<Longrightarrow> subs (sd_db w2) = subs (sd_db w1)
    \<Longrightarrow> observations (sd_db w2) = observations (sd_db w1) \<Longrightarrow> sub_run digest w w2"
| sub_create: "sub_run digest w w1 \<Longrightarrow> (\<And>v. sub_run digest v (interf v))
    \<Longrightarrow> create_sub interf uuid q w1 = (out, w2) \<Longrightarrow> sub_run digest w w2"
| sub_mutate: "sub_run digest w w1 \<Longrightarrow> (\<And>v. sub_run digest v (interf v))
    \<Longrightarrow> mutate_sub interf sid revision action w1 = (out, w2) \<Longrightarrow> sub_run digest w w2"
| sub_check: "sub_run digest w w1 \<Longrightarrow> ce_digest env = digest
    \<Longrightarrow> (\<And>t m s v. sub_run digest v (snd (ce_search env t m s v)))
    \<Longrightarrow> (\<And>v. sub_run digest v (ce_observing env v)) \<Longrightarrow> (\<And>v. sub_run digest v (ce_finishing env v))
    \<Longrightarrow> check_sub env sid w1 = (out, w2) \<Longrightarrow> sub_run digest w w2"

lemma sub_run_sound: "sub_run digest w w' \<Longrightarrow> sound digest w w'"
proof (induction rule: sub_run.induct)
  case (sub_other w w1 w2)
  have "sound digest w1 w2"
    using sub_other.hyps(2,3) by (simp add: sound_def subs_ok_def sub_grows_def)
  then show ?case using sub_other.IH by (rule sound_trans)
next
  case (sub_create w w1 interf uuid q out w2)
  show ?case by (rule sound_trans[OF create_sub_sound[OF sub_create.hyps(3)]]) (use sub_create in auto)
next
  case (sub_mutate w w1 interf sid revision action out w2)
  show ?case by (rule sound_trans[OF mutate_sub_sound[OF sub_mutate.hyps(3)]]) (use sub_mutate in auto)
next
  case (sub_check w w1 env sid out w2)
  show ?case by (rule sound_trans[OF check_sub_sound[OF sub_check.hyps(6)]])
    (use sub_check in \<open>auto simp: sound_env_def\<close>)
qed simp

text \<open>
  C21. The subscription tables stay sound over every interleaving of creating, changing and
  checking: identifiers are unique, a scope with season and both episode bounds is taken by one
  subscription at most, every subscription has one row per canonical resource, which belongs to
  an existing subscription and counts at least one sighting, and no row disappears.
\<close>

theorem subscription_tables_sound:
  assumes "sub_run digest w w'" and "subs_ok digest w"
  shows "subs_ok digest w' \<and> sub_grows w w'"
  using sub_run_sound[OF assms(1)] assms(2) by (simp add: sound_def)

end
