(* ===== verification/Subscription_Checks.thy ===== *)
theory Subscription_Checks
  imports Subscription_Props "HOL-Library.Multiset"
begin

text \<open>
  What a check does when no other session interferes, and what the scheduler does with it; then
  the changes that are lost when one does.
\<close>

section \<open>Recording alone\<close>

text \<open>How often a subscription has seen a canonical resource.\<close>

definition seen :: "pystr \<Rightarrow> pystr \<Rightarrow> sub_world \<Rightarrow> int" where
  "seen sid key w =
     (case row_of (\<lambda>r. snd (obs_name r)) (sid, key) (observations (sd_db w)) of
        None \<Rightarrow> 0 | Some r \<Rightarrow> ob_seen_count r)"

definition key_count :: "pystr \<Rightarrow> obs_row list \<Rightarrow> int" where
  "key_count key rows = (case row_of ob_canonical_key key rows of None \<Rightarrow> 0 | Some r \<Rightarrow> ob_seen_count r)"

definition occurrences :: "'a \<Rightarrow> 'a list \<Rightarrow> int" where
  "occurrences x xs = int (length (filter (\<lambda>y. y = x) xs))"

lemma occurrences_simps [simp]:
  "occurrences x [] = 0" "occurrences x (y # ys) = (if y = x then 1 + occurrences x ys else occurrences x ys)"
  by (simp_all add: occurrences_def)

lemma seen_again_key [simp]: "ob_canonical_key (seen_again now rid r) = ob_canonical_key r"
  by (simp add: seen_again_def)

lemma observe_all_counts:
  assumes "observe_all digest sid now ks rows = (rows', new)" and "\<forall>r \<in> set rows. 1 \<le> ob_seen_count r"
  shows "key_count key rows' = key_count key rows + occurrences key (map snd ks)"
    and "set (map ob_canonical_key rows') = set (map ob_canonical_key rows) \<union> set (map snd ks)"
  using assms
proof (induction digest sid now ks rows arbitrary: rows' new rule: observe_all.induct)
  case (2 digest sid now rid k rest rows)
  {
    case 1
    show ?case
    proof (cases "k \<in> set (map ob_canonical_key rows)")
      case True
      let ?rows = "update_where (\<lambda>r. ob_canonical_key r = k) (seen_again now rid) rows"
      from 1 True have "observe_all digest sid now rest ?rows = (rows', new)" by simp
      moreover have "\<forall>r \<in> set ?rows. 1 \<le> ob_seen_count r"
        using 1 by (fastforce simp: seen_again_def dest!: set_update_where)
      moreover obtain r where "row_of ob_canonical_key k rows = Some r"
        using True row_of_None[of ob_canonical_key k rows] by fastforce
      ultimately show ?thesis
        using "2.IH"(1)[OF True]
        by (auto simp: key_count_def row_of_update seen_again_def split: option.splits dest: row_of_Some)
    next
      case False
      let ?n = "new_obs digest sid now rid k"
      obtain new0 where "observe_all digest sid now rest (rows @ [?n]) = (rows', new0)"
        using 1 False by (auto simp: Let_def prod_eq_iff)
      moreover have "row_of ob_canonical_key k rows = None" using False by (simp add: row_of_None)
      ultimately show ?thesis
        using "2.IH"(3)[OF False] 1(2)
        by (auto simp: key_count_def row_of_append new_obs_def split: option.splits)
    qed
  next
    case 2
    show ?case
    proof (cases "k \<in> set (map ob_canonical_key rows)")
      case True
      let ?rows = "update_where (\<lambda>r. ob_canonical_key r = k) (seen_again now rid) rows"
      from 2 True have "observe_all digest sid now rest ?rows = (rows', new)" by simp
      moreover have "\<forall>r \<in> set ?rows. 1 \<le> ob_seen_count r"
        using 2 by (fastforce simp: seen_again_def dest!: set_update_where)
      moreover have "set (map ob_canonical_key ?rows) = set (map ob_canonical_key rows)"
        by (simp only: map_key_update[of ob_canonical_key, OF seen_again_key])
      ultimately show ?thesis using "2.IH"(2)[OF True] True by auto
    next
      case False
      let ?n = "new_obs digest sid now rid k"
      obtain new0 where "observe_all digest sid now rest (rows @ [?n]) = (rows', new0)"
        using 2 False by (auto simp: Let_def prod_eq_iff)
      with "2.IH"(4)[OF False] 2(2) show ?thesis by (auto simp: new_obs_def)
    qed
  }
qed auto

text \<open>The new resources are the first ones of the keys not seen before.\<close>

lemma observe_all_new:
  assumes "observe_all digest sid now ks rows = (rows', new)"
  shows "set new \<subseteq> set (map fst ks)"
    and "(\<And>rid key. (rid, key) \<in> set ks \<Longrightarrow> canonical rid = key)
      \<Longrightarrow> distinct (map canonical new)
        \<and> canonical ` set new = set (map snd ks) - set (map ob_canonical_key rows)"
  using assms
proof (induction digest sid now ks rows arbitrary: rows' new rule: observe_all.induct)
  case (2 digest sid now rid k rest rows)
  let ?rows = "update_where (\<lambda>r. ob_canonical_key r = k) (seen_again now rid) rows"
  have keys: "set (map ob_canonical_key ?rows) = set (map ob_canonical_key rows)"
    by (simp only: map_key_update[of ob_canonical_key, OF seen_again_key])
  {
    case 1
    show ?case
    proof (cases "k \<in> set (map ob_canonical_key rows)")
      case True
      with 1 have "observe_all digest sid now rest ?rows = (rows', new)" by simp
      from "2.IH"(1)[OF True this] show ?thesis by auto
    next
      case False
      then obtain new0 where "observe_all digest sid now rest (rows @ [new_obs digest sid now rid k]) = (rows', new0)"
        "new = rid # new0"
        using 1 by (auto simp: Let_def prod_eq_iff)
      with "2.IH"(3)[OF False] show ?thesis by auto
    qed
  next
    case 2
    show ?case
    proof (cases "k \<in> set (map ob_canonical_key rows)")
      case True
      with 2(2) have "observe_all digest sid now rest ?rows = (rows', new)" by simp
      from "2.IH"(2)[OF True _ this] 2(1) True keys show ?thesis by auto
    next
      case False
      then obtain new0 where o: "observe_all digest sid now rest (rows @ [new_obs digest sid now rid k]) = (rows', new0)"
        and new: "new = rid # new0"
        using 2(2) by (auto simp: Let_def prod_eq_iff)
      from "2.IH"(4)[OF False _ o] 2(1) have "distinct (map canonical new0)"
        "canonical ` set new0 = set (map snd rest) - insert k (set (map ob_canonical_key rows))"
        by (auto simp: new_obs_def)
      moreover have "canonical rid = k" using 2(1) by simp
      ultimately show ?thesis using False by (auto simp: new)
    qed
  }
qed auto

text \<open>Without interference every changed row is written as it was computed.\<close>

definition rewritten :: "obs_row list \<Rightarrow> obs_row \<Rightarrow> obs_row" where
  "rewritten news r = (case row_of ob_id (ob_id r) news of None \<Rightarrow> r | Some n \<Rightarrow> n)"

definition same_obs :: "obs_row \<Rightarrow> obs_row \<Rightarrow> bool" where
  "same_obs r n \<longleftrightarrow> obs_name n = obs_name r \<and> ob_first_seen_at n = ob_first_seen_at r"

lemma merge_obs_all: "same_obs r n \<Longrightarrow> merge_obs r n r = n"
  by (auto simp: merge_obs_def same_obs_def pick_def obs_name_def)

lemma fold_merge_rewritten:
  assumes "list_all2 same_obs loaded news" and "distinct (map ob_id rs)" and "distinct (map ob_id loaded)"
    and "set loaded \<subseteq> set rs"
  shows "fold (\<lambda>(old, new). update_where (\<lambda>r. ob_id r = ob_id old) (merge_obs old new)) (zip loaded news) rs
    = map (rewritten news) rs"
  using assms
proof (induction loaded news arbitrary: rs rule: list_all2_induct)
  case Nil
  then show ?case by (simp add: rewritten_def)
next
  case (Cons l ls n ns)
  let ?rs = "update_where (\<lambda>r. ob_id r = ob_id l) (merge_obs l n) rs"
  have n: "ob_id n = ob_id l" using Cons.hyps(1) by (simp add: same_obs_def obs_name_def)
  have ids: "map ob_id ?rs = map ob_id rs" by (rule map_key_update) (simp add: merge_obs_def)
  have at_l: "r = l" if "r \<in> set rs" "ob_id r = ob_id l" for r
    using that Cons.prems(1,3) by (auto simp: distinct_map inj_on_def)
  have upd: "?rs = map (\<lambda>r. if ob_id r = ob_id l then n else r) rs"
    using merge_obs_all[OF Cons.hyps(1)] at_l by (auto simp: update_where_def)
  have "set ls \<subseteq> set ?rs" using Cons.prems(2,3) by (auto simp: upd image_iff)
  then have "fold (\<lambda>(old, new). update_where (\<lambda>r. ob_id r = ob_id old) (merge_obs old new)) (zip ls ns) ?rs
    = map (rewritten ns) ?rs"
    using Cons.IH[of ?rs] Cons.prems(1,2) ids by simp
  moreover have "row_of ob_id (ob_id l) ns = None"
  proof -
    have "map ob_id ns = map ob_id ls"
      using Cons.hyps(2) by (auto simp: list_all2_conv_all_nth same_obs_def obs_name_def intro!: nth_equalityI)
    then have "ob_id ` set ns = ob_id ` set ls" by (metis set_map)
    with Cons.prems(2) show ?thesis by (simp add: row_of_None)
  qed
  ultimately show ?case
    using n by (auto simp: upd rewritten_def)
qed

lemma row_of_map:
  "(\<And>r. r \<in> set rs \<Longrightarrow> key (f r) = key r) \<Longrightarrow> row_of key k (map f rs) = map_option f (row_of key k rs)"
  by (induction rs) auto

lemma row_of_filter:
  assumes "\<And>r. r \<in> set rs \<Longrightarrow> P r \<and> key r = k \<longleftrightarrow> key' r = k'"
  shows "row_of key k (filter P rs) = row_of key' k' rs"
  using assms
proof (induction rs)
  case (Cons r rs)
  then have "row_of key k (filter P rs) = row_of key' k' rs" "P r \<and> key r = k \<longleftrightarrow> key' r = k'" by simp_all
  then show ?case by auto
qed simp

lemma observe_all_same:
  assumes "observe_all digest sid now ks rows = (rows', new)"
  shows "list_all2 same_obs rows (take (length rows) rows')"
  using assms
proof (induction digest sid now ks rows arbitrary: rows' new rule: observe_all.induct)
  case (1 digest sid now rows)
  then show ?case by (simp add: list_all2_refl same_obs_def)
next
  case (2 digest sid now rid k rest rows)
  show ?case
  proof (cases "k \<in> set (map ob_canonical_key rows)")
    case True
    let ?rows = "update_where (\<lambda>r. ob_canonical_key r = k) (seen_again now rid) rows"
    from 2 True have "observe_all digest sid now rest ?rows = (rows', new)" by simp
    from "2.IH"(1)[OF True this] have "list_all2 same_obs ?rows (take (length rows) rows')"
      by (simp add: update_where_def)
    then show ?thesis
      by (auto simp: update_where_def list_all2_conv_all_nth same_obs_def seen_again_def obs_name_def split: if_splits)
  next
    case False
    let ?n = "new_obs digest sid now rid k"
    obtain new0 where "observe_all digest sid now rest (rows @ [?n]) = (rows', new0)"
      using 2 False by (auto simp: Let_def prod_eq_iff)
    from "2.IH"(2)[OF False this] have all: "list_all2 same_obs (rows @ [?n]) (take (Suc (length rows)) rows')" by simp
    from list_all2_takeI[OF all, of "length rows"] show ?thesis by (simp add: min_def)
  qed
qed

lemma insert_obs_ok:
  assumes "distinct (map ob_id (rs @ new))" and "distinct (map (\<lambda>r. snd (obs_name r)) (rs @ new))"
  shows "insert_obs new rs = Some (rs @ new)"
  using assms
proof (induction new arbitrary: rs)
  case (Cons r new)
  then have "ob_id r \<notin> ob_id ` set rs" "snd (obs_name r) \<notin> (\<lambda>r. snd (obs_name r)) ` set rs" by auto
  then have "\<not> obs_clash r rs" by (auto simp: obs_clash_def list_ex_iff obs_name_def image_iff)
  with Cons.IH[of "rs @ [r]"] Cons.prems show ?case by simp
qed simp

text \<open>
  The identifier of an observation is the digest of subscription and key; no two of the pairs at
  hand have the same.
\<close>

definition names_apart :: "(pystr \<Rightarrow> pystr) \<Rightarrow> pystr set \<Rightarrow> pystr set \<Rightarrow> bool" where
  "names_apart digest ids keys \<longleftrightarrow> inj_on (\<lambda>(i, k). digest (i @ [58] @ k)) (ids \<times> keys)"


lemma names_apartD:
  "names_apart digest ids keys \<Longrightarrow> i \<in> ids \<Longrightarrow> j \<in> ids \<Longrightarrow> k \<in> keys \<Longrightarrow> l \<in> keys
    \<Longrightarrow> digest (i @ [58] @ k) = digest (j @ [58] @ l) \<Longrightarrow> i = j \<and> k = l"
  unfolding names_apart_def by (drule inj_onD[where x = "(i, k)" and y = "(j, l)"]) auto

definition sub_ids :: "sub_world \<Rightarrow> pystr set" where
  "sub_ids w = sb_id ` set (subs (sd_db w))"

definition obs_keys :: "sub_world \<Rightarrow> pystr set" where
  "obs_keys w = ob_canonical_key ` set (observations (sd_db w))"

definition recorded :: "pystr \<Rightarrow> pystr list \<Rightarrow> sub_world \<Rightarrow> sub_world \<Rightarrow> pystr list \<Rightarrow> bool" where
  "recorded sid rids w w' new \<longleftrightarrow>
     subs (sd_db w') = subs (sd_db w) \<and> known_resources (sd_db w') = known_resources (sd_db w)
     \<and> sd_clock w' = sd_clock w
     \<and> (\<forall>key. seen sid key w' = seen sid key w + occurrences key (map (canonical_of w) rids))
     \<and> set new \<subseteq> set rids \<and> distinct (map (canonical_of w) new)
     \<and> (\<forall>rid \<in> set rids. canonical_of w rid \<in> canonical_of w ` set new \<longleftrightarrow> seen sid (canonical_of w rid) w = 0)
     \<and> obs_keys w' \<subseteq> obs_keys w \<union> canonical_of w ` set rids"

lemma record_observations_alone:
  assumes "subs_ok digest w" and "sid \<in> sub_ids w"
  shows "(\<exists>new w'. record_observations (\<lambda>v. v) digest sid rids w = (Inr new, w') \<and> recorded sid rids w w' new)
    \<or> (fst (record_observations (\<lambda>v. v) digest sid rids w) = Inl SubIntegrityErr
        \<and> \<not> names_apart digest (sub_ids w) (obs_keys w \<union> canonical_of w ` set rids))"
proof (cases "rids = []")
  case True
  then show ?thesis by (auto simp: record_observations_def recorded_def occurrences_def)
next
  case False
  let ?keyed = "map (\<lambda>rid. (rid, canonical_of w rid)) rids"
  let ?obs = "observations (sd_db w)"
  let ?name = "\<lambda>r. snd (obs_name r)"
  define loaded where "loaded = filter (\<lambda>r. ob_canonical_key r \<in> set (map snd ?keyed)) (obs_of sid w)"
  obtain rows new where o: "observe_all digest sid (sd_clock w) ?keyed loaded = (rows, new)" by fastforce
  define news fresh where "news = take (length loaded) rows" and "fresh = drop (length loaded) rows"
  have rows: "rows = news @ fresh" by (simp add: news_def fresh_def)
  have same: "list_all2 same_obs loaded news" using observe_all_same[OF o] by (simp add: news_def)
  have len: "length news = length loaded" using list_all2_lengthD[OF same] by simp
  have loaded: "set loaded \<subseteq> set ?obs" "\<forall>r \<in> set loaded. ob_subscription_id r = sid"
    by (auto simp: loaded_def obs_of_def)
  have counts: "\<forall>r \<in> set loaded. 1 \<le> ob_seen_count r" using loaded(1) assms(1) by (auto simp: subs_ok_def)
  have dist: "distinct (map ob_id ?obs)" "distinct (map ?name ?obs)"
    using assms(1) by (auto simp: subs_ok_def obs_names_ok_def obs_name_def comp_def)
  have dl: "distinct (map ob_id loaded)" "distinct (map ob_canonical_key loaded)"
  proof -
    show "distinct (map ob_id loaded)" unfolding loaded_def obs_of_def
      using dist(1) by (simp add: distinct_map_filter)
    have "distinct (map ?name loaded)" unfolding loaded_def obs_of_def
      using dist(2) by (simp add: distinct_map_filter)
    moreover have "map ?name loaded = map (Pair sid) (map ob_canonical_key loaded)"
      using loaded(2) by (simp add: obs_name_def)
    ultimately show "distinct (map ob_canonical_key loaded)" by (metis distinct_map)
  qed
  note kept = fold_merge_rewritten[OF same dist(1) dl(1) loaded(1)]
  have fr: "r \<in> set fresh \<Longrightarrow> obs_of_sub digest sid r" for r
    using observe_all_fresh[OF o counts] by (simp add: fresh_def)
  have keys: "map ob_canonical_key news = map ob_canonical_key loaded" "map ob_id news = map ob_id loaded"
    using same by (auto simp: list_all2_conv_all_nth same_obs_def obs_name_def intro!: nth_equalityI)
  have dr: "distinct (map ob_canonical_key rows)" by (rule observe_all_distinct[OF o dl(2)])
  have seen_loaded: "row_of ?name (sid, key) ?obs = row_of ob_canonical_key key loaded"
    if "key \<in> set (map snd ?keyed)" for key
  proof -
    have "loaded = filter (\<lambda>r. ob_canonical_key r \<in> set (map snd ?keyed) \<and> ob_subscription_id r = sid) ?obs"
      by (simp add: loaded_def obs_of_def filter_filter conj_commute)
    then show ?thesis by (simp only:, intro row_of_filter[symmetric]) (use that in \<open>auto simp: obs_name_def\<close>)
  qed
  have old_loaded: "q \<in> set loaded"
    if "q \<in> set ?obs" "ob_subscription_id q = sid" "ob_canonical_key q \<in> set (map snd ?keyed)" for q
    using that by (simp add: loaded_def obs_of_def)
  have fresh_key: "ob_canonical_key r \<in> set (map snd ?keyed)" "ob_canonical_key r \<notin> ob_canonical_key ` set loaded"
    if "r \<in> set fresh" for r
  proof -
    have disj: "ob_canonical_key ` set news \<inter> ob_canonical_key ` set fresh = {}" using dr by (auto simp: rows)
    moreover have "ob_canonical_key ` set news = ob_canonical_key ` set loaded" using keys(1) by (metis set_map)
    ultimately show 1: "ob_canonical_key r \<notin> ob_canonical_key ` set loaded" using that by auto
    have "ob_canonical_key r \<in> set (map ob_canonical_key rows)" using that by (simp add: rows)
    with observe_all_counts(2)[OF o counts] 1 show "ob_canonical_key r \<in> set (map snd ?keyed)" by auto
  qed
  have fresh_name: "?name r \<notin> ?name ` set ?obs" if "r \<in> set fresh" for r
  proof
    assume "?name r \<in> ?name ` set ?obs"
    then obtain q where q: "q \<in> set ?obs" "?name r = ?name q" by auto
    with fr[OF that] have "ob_subscription_id q = sid" "ob_canonical_key q = ob_canonical_key r"
      by (simp_all add: obs_name_def obs_of_sub_def)
    with old_loaded[OF q(1)] fresh_key[OF that] show False by (metis image_eqI)
  qed
  let ?apart = "names_apart digest (sub_ids w) (obs_keys w \<union> canonical_of w ` set rids)"
  have fresh_in: "ob_canonical_key r \<in> obs_keys w \<union> canonical_of w ` set rids" if "r \<in> set fresh" for r
    using fresh_key(1)[OF that] by auto
  have fresh_id: "ob_id r \<notin> ob_id ` set ?obs" if "?apart" "r \<in> set fresh" for r
  proof
    assume "ob_id r \<in> ob_id ` set ?obs"
    then obtain q where q: "q \<in> set ?obs" "ob_id r = ob_id q" by auto
    have qs: "ob_subscription_id q \<in> sub_ids w" "ob_canonical_key q \<in> obs_keys w \<union> canonical_of w ` set rids"
      and "ob_id q = digest (ob_subscription_id q @ [58] @ ob_canonical_key q)"
      using assms(1) q(1) by (auto simp: subs_ok_def obs_names_ok_def obs_name_def sub_ids_def obs_keys_def)
    with q(2) fr[OF that(2)]
    have "digest (sid @ [58] @ ob_canonical_key r) = digest (ob_subscription_id q @ [58] @ ob_canonical_key q)"
      by (simp add: obs_of_sub_def)
    with names_apartD[OF that(1) assms(2) qs(1) fresh_in[OF that(2)] qs(2)]
    have "ob_subscription_id q = sid" "ob_canonical_key q = ob_canonical_key r" by simp_all
    with fresh_name[OF that(2)] fr[OF that(2)] q(1) show False by (auto simp: obs_name_def obs_of_sub_def image_iff)
  qed
  have mapped_name: "obs_name (rewritten news r) = obs_name r" if "r \<in> set ?obs" for r
  proof (cases "row_of ob_id (ob_id r) news")
    case (Some n)
    from row_of_Some[OF Some] obtain i where i: "i < length news" "n = news ! i" "ob_id n = ob_id r"
      by (auto simp: in_set_conv_nth)
    with same have l: "same_obs (loaded ! i) n" by (simp add: list_all2_conv_all_nth)
    moreover have "loaded ! i \<in> set ?obs" using loaded(1) i(1) len by auto
    ultimately have "loaded ! i = r"
      using that i(3) dist(1) by (auto simp: same_obs_def obs_name_def distinct_map inj_on_def)
    with l Some show ?thesis by (simp add: rewritten_def same_obs_def)
  qed (simp add: rewritten_def)
  let ?rs = "map (rewritten news) ?obs @ fresh"
  have ids: "map ob_id (map (rewritten news) ?obs) = map ob_id ?obs"
    and names: "map ?name (map (rewritten news) ?obs) = map ?name ?obs"
    using mapped_name by (simp_all add: obs_name_def)
  have "distinct (map ob_id ?rs)" if ?apart
  proof -
    have "inj_on ob_id (set fresh)"
    proof (rule inj_onI)
      fix x y assume xy: "x \<in> set fresh" "y \<in> set fresh" "ob_id x = ob_id y"
      with fr have "digest (sid @ [58] @ ob_canonical_key x) = digest (sid @ [58] @ ob_canonical_key y)"
        by (simp add: obs_of_sub_def)
      with names_apartD[OF that assms(2,2) fresh_in[OF xy(1)] fresh_in[OF xy(2)]]
      have "ob_canonical_key x = ob_canonical_key y" by blast
      with xy(1,2) dr show "x = y" by (auto simp: rows distinct_map inj_on_def)
    qed
    moreover have "distinct fresh" using dr by (auto simp: rows distinct_map)
    moreover have "ob_id ` set ?obs \<inter> ob_id ` set fresh = {}"
      unfolding disjoint_iff using fresh_id[OF that] by (metis imageE)
    ultimately show ?thesis using dist(1)
      by (simp only: map_append ids distinct_append) (simp add: distinct_map)
  qed
  moreover have "distinct (map ?name ?rs)"
  proof -
    have "map ?name fresh = map (Pair sid) (map ob_canonical_key fresh)"
      using fr by (simp add: obs_name_def obs_of_sub_def)
    moreover have "distinct (map (Pair sid) (map ob_canonical_key fresh))"
      using dr by (simp add: rows distinct_map inj_on_def)
    ultimately show ?thesis using names dist(2) fresh_name
      by (simp only: map_append distinct_append) auto
  qed
  ultimately have apart: "insert_obs fresh (map (rewritten news) ?obs) = Some ?rs" if ?apart
    using that by (intro insert_obs_ok) blast+
  have pairs: "zip loaded rows = zip loaded news" by (simp add: rows zip_append2 len)
  have act: "record_observations (\<lambda>v. v) digest sid rids w
      = (case write_obs loaded rows w of (Inl e, w1) \<Rightarrow> (Inl e, w1) | (Inr _, w1) \<Rightarrow> (Inr new, w1))"
    using False unfolding record_observations_def Let_def loaded_def[symmetric] o fst_conv snd_conv by simp
  show ?thesis
  proof (cases "insert_obs fresh (map (rewritten news) ?obs)")
    case None
    then have "fst (record_observations (\<lambda>v. v) digest sid rids w) = Inl SubIntegrityErr"
      using pairs kept by (simp add: act write_obs_def fresh_def Let_def)
    moreover from None apart have "\<not> ?apart" by auto
    ultimately show ?thesis by blast
  next
    case (Some qs)
    from insert_obs_Some(1)[OF Some] Some have ins: "insert_obs fresh (map (rewritten news) ?obs) = Some ?rs" by simp
    define w' where "w' = w\<lparr>sd_db := (sd_db w)\<lparr>observations := ?rs\<rparr>\<rparr>"
    have "write_obs loaded rows w = (Inr (), w')"
      using pairs kept ins by (simp add: write_obs_def fresh_def w'_def Let_def)
    then have "record_observations (\<lambda>v. v) digest sid rids w = (Inr new, w')" by (simp add: act)
    moreover have "recorded sid rids w w' new"
    proof -
      have counted: "seen sid key w' = seen sid key w + occurrences key (map snd ?keyed)" for key
      proof (cases "row_of ?name (sid, key) ?obs")
        case None
        have "row_of ?name (sid, key) (map (rewritten news) ?obs) = None"
          using None mapped_name by (simp add: row_of_map)
        then have "seen sid key w' = (case row_of ?name (sid, key) fresh of None \<Rightarrow> 0 | Some r \<Rightarrow> ob_seen_count r)"
          by (simp add: seen_def w'_def row_of_append)
        also have "row_of ?name (sid, key) fresh = row_of ob_canonical_key key fresh"
          using row_of_filter[of fresh "\<lambda>_. True" ?name "(sid, key)" ob_canonical_key key] fr
          by (auto simp: obs_name_def obs_of_sub_def)
        also have "(case \<dots> of None \<Rightarrow> 0 | Some r \<Rightarrow> ob_seen_count r) = key_count key rows"
        proof -
          have "key \<notin> ob_canonical_key ` set loaded"
            using None loaded row_of_None[of ?name "(sid, key)" ?obs] by (auto simp: obs_name_def image_iff)
          then have "row_of ob_canonical_key key news = None"
            using keys(1) by (simp add: row_of_None flip: set_map)
          then show ?thesis by (simp add: key_count_def rows row_of_append)
        qed
        also have "\<dots> = key_count key loaded + occurrences key (map snd ?keyed)"
          by (rule observe_all_counts(1)[OF o counts])
        also have "key_count key loaded = 0"
          using None loaded row_of_None[of ?name "(sid, key)" ?obs] row_of_None[of ob_canonical_key key loaded]
          by (auto simp: key_count_def obs_name_def image_iff split: option.splits dest!: row_of_Some)
        finally show ?thesis using None by (simp add: seen_def)
      next
        case (Some q)
        note q = row_of_Some[OF Some]
        have w'q: "seen sid key w' = ob_seen_count (rewritten news q)"
          using Some mapped_name by (simp add: seen_def w'_def row_of_append row_of_map)
        show ?thesis
        proof (cases "key \<in> set (map snd ?keyed)")
          case True
          with q have "q \<in> set loaded" by (intro old_loaded) (auto simp: obs_name_def)
          then obtain i where i: "i < length loaded" "loaded ! i = q" by (auto simp: in_set_conv_nth)
          with same len have n: "same_obs q (news ! i)" "news ! i \<in> set news" by (auto simp: list_all2_conv_all_nth)
          have "row_of ob_id (ob_id (news ! i)) news = Some (news ! i)"
            by (rule row_of_unique) (use dl(1) keys(2) n(2) in simp_all)
          with n(1) have re: "rewritten news q = news ! i" by (simp add: rewritten_def same_obs_def obs_name_def)
          have "row_of ob_canonical_key (ob_canonical_key (news ! i)) rows = Some (news ! i)"
            by (rule row_of_unique[OF dr]) (simp add: rows n(2))
          with n(1) q have "key_count key rows = ob_seen_count (news ! i)"
            by (simp add: key_count_def same_obs_def obs_name_def)
          with observe_all_counts(1)[OF o counts, of key] w'q re seen_loaded[OF True] show ?thesis
            by (simp add: seen_def key_count_def)
        next
          case False
          have "q \<notin> set loaded" using False q by (auto simp: loaded_def obs_name_def)
          then have "ob_id q \<notin> ob_id ` set news"
          proof -
            have "ob_id q \<notin> ob_id ` set loaded"
              using q \<open>q \<notin> set loaded\<close> dist(1) loaded(1) by (auto simp: distinct_map inj_on_def)
            moreover have "ob_id ` set news = ob_id ` set loaded" using keys(2) by (metis set_map)
            ultimately show ?thesis by simp
          qed
          then have "rewritten news q = q" by (simp add: rewritten_def row_of_None split: option.splits) (simp add: row_of_None[THEN iffD2])
          moreover have "occurrences key (map snd ?keyed) = 0" using False by (auto simp: occurrences_def filter_empty_conv)
          ultimately show ?thesis using w'q Some by (simp add: seen_def)
        qed
      qed
      have zero: "seen sid key w = 0 \<longleftrightarrow> key \<notin> set (map ob_canonical_key loaded)"
        if "key \<in> set (map snd ?keyed)" for key
        using seen_loaded[OF that] counts row_of_None[of ob_canonical_key key loaded]
        by (auto simp: seen_def split: option.splits dest!: row_of_Some)
      have K: "map snd ?keyed = map (canonical_of w) rids" "map fst ?keyed = rids" by (simp_all add: comp_def)
      have cn: "\<And>rid key. (rid, key) \<in> set ?keyed \<Longrightarrow> canonical_of w rid = key" by auto
      have new: "set new \<subseteq> set rids" "distinct (map (canonical_of w) new)"
        "canonical_of w ` set new = set (map (canonical_of w) rids) - set (map ob_canonical_key loaded)"
        using observe_all_new(1)[OF o] observe_all_new(2)[where canonical = "canonical_of w", OF o cn] unfolding K by blast+
      have "seen sid (canonical_of w rid) w = 0 \<longleftrightarrow> canonical_of w rid \<in> canonical_of w ` set new"
        if "rid \<in> set rids" for rid
        using zero[of "canonical_of w rid"] that unfolding K new(3) by simp
      moreover have "obs_keys w' \<subseteq> obs_keys w \<union> canonical_of w ` set rids"
      proof -
        have "ob_canonical_key (rewritten news r) = ob_canonical_key r" if "r \<in> set ?obs" for r
          using mapped_name[OF that] by (simp add: obs_name_def)
        then show ?thesis using fresh_in by (auto simp: obs_keys_def w'_def)
      qed
      ultimately show ?thesis using counted[unfolded K] new(1,2) unfolding recorded_def by (simp add: w'_def)
    qed
    ultimately show ?thesis by blast
  qed
qed

section \<open>A check alone\<close>

text \<open>
  No other session writes subscriptions or observations while the check runs; the search may
  still store resources.
\<close>

definition quiet_env :: "check_env \<Rightarrow> bool" where
  "quiet_env env \<longleftrightarrow>
     (\<forall>t m s v. \<exists>ks. snd (ce_search env t m s v) = v\<lparr>sd_db := (sd_db v)\<lparr>known_resources := ks\<rparr>\<rparr>)
     \<and> ce_observing env = (\<lambda>v. v) \<and> ce_finishing env = (\<lambda>v. v)"

definition active_sub :: "sub_row \<Rightarrow> bool" where
  "active_sub r \<longleftrightarrow> sb_status r \<notin> {SUB_PAUSED, SUB_CANCELLED, SUB_COMPLETED}"

lemma first_of_each_set [simp]: "set (first_of_each xs) = set xs" "distinct (first_of_each xs)"
  by (induction xs) auto

definition quiet_search :: "sub_world \<Rightarrow> sub_world \<Rightarrow> bool" where
  "quiet_search w w1 \<longleftrightarrow> subs (sd_db w1) = subs (sd_db w) \<and> observations (sd_db w1) = observations (sd_db w)
     \<and> sd_clock w1 = sd_clock w"

lemma check_alone [consumes 4, case_names failed found clash]:
  assumes "quiet_env env" and "subs_ok (ce_digest env) w"
    and "get_sub sid w = Some r" and "active_sub r"
  obtains w1 where "quiet_search w w1"
      "ce_search env (sb_tmdb_id r) (sb_media_type r) (sb_season r) w = (None, w1)"
      "check_sub env sid w = (Inl (SubConflict ''subscription_check_failed''),
         flush_sub r (failed_check (sd_clock w) r) w1)"
    | found w1 w2 new where "quiet_search w w1" "recorded sid (first_of_each found) w1 w2 new"
      "ce_search env (sb_tmdb_id r) (sb_media_type r) (sb_season r) w = (Some found, w1)"
      "check_sub env sid w
        = (Inr \<lparr>ck_subscription = finished_check (sd_clock w) (first_of_each found) r,
                ck_matched_count = int (length (first_of_each found)),
                ck_resource_ids = first_of_each found, ck_new_resource_ids = new\<rparr>,
           flush_sub r (finished_check (sd_clock w) (first_of_each found) r) w2)"
    | found w1 where "ce_search env (sb_tmdb_id r) (sb_media_type r) (sb_season r) w = (Some found, w1)"
      "fst (check_sub env sid w) = Inl SubIntegrityErr"
      "\<not> names_apart (ce_digest env) (sub_ids w) (obs_keys w \<union> canonical_of w1 ` set found)"
proof -
  obtain ks where ks: "snd (ce_search env (sb_tmdb_id r) (sb_media_type r) (sb_season r) w)
      = w\<lparr>sd_db := (sd_db w)\<lparr>known_resources := ks\<rparr>\<rparr>"
    using assms(1) unfolding quiet_env_def by meson
  define w1 where "w1 = w\<lparr>sd_db := (sd_db w)\<lparr>known_resources := ks\<rparr>\<rparr>"
  note quiet = assms(1)[unfolded quiet_env_def]
  have q1: "quiet_search w w1" and get: "get_sub sid w1 = Some r" "sd_clock w1 = sd_clock w"
    and same: "sub_ids w1 = sub_ids w" "obs_keys w1 = obs_keys w"
    using assms(3) by (simp_all add: w1_def quiet_search_def get_sub_def sub_ids_def obs_keys_def)
  have "subs_ok (ce_digest env) w1" "sid \<in> sub_ids w1"
    using assms(2) get_sub_id[OF assms(3)] by (auto simp: w1_def subs_ok_def sub_ids_def)
  note rec = record_observations_alone[OF this, unfolded same]
  show thesis
  proof (cases "fst (ce_search env (sb_tmdb_id r) (sb_media_type r) (sb_season r) w)")
    case None
    with ks have s: "ce_search env (sb_tmdb_id r) (sb_media_type r) (sb_season r) w = (None, w1)"
      by (simp add: prod_eq_iff w1_def)
    then have "check_sub env sid w = (Inl (SubConflict ''subscription_check_failed''),
            flush_sub r (failed_check (sd_clock w) r) w1)"
      using assms(3,4) get quiet by (simp add: check_sub_def active_sub_def update_sub_def)
    with q1 s show thesis by (intro that(1))
  next
    case (Some found)
    with ks have s: "ce_search env (sb_tmdb_id r) (sb_media_type r) (sb_season r) w = (Some found, w1)"
      by (simp add: prod_eq_iff w1_def)
    let ?rec = "record_observations (\<lambda>v. v) (ce_digest env) sid (first_of_each found) w1"
    from rec[of "first_of_each found"] show thesis
    proof (elim disjE exE conjE)
      fix new w2
      assume r2: "?rec = (Inr new, w2)" "recorded sid (first_of_each found) w1 w2 new"
      then have "get_sub sid w2 = Some r" "sd_clock w2 = sd_clock w"
        using get by (simp_all add: recorded_def get_sub_def)
      with s r2(1) assms(3,4) quiet have "check_sub env sid w
            = (Inr \<lparr>ck_subscription = finished_check (sd_clock w) (first_of_each found) r,
                    ck_matched_count = int (length (first_of_each found)),
                    ck_resource_ids = first_of_each found, ck_new_resource_ids = new\<rparr>,
               flush_sub r (finished_check (sd_clock w) (first_of_each found) r) w2)"
        by (simp add: check_sub_def active_sub_def update_sub_def sbind_def sret_def Let_def)
      with q1 r2(2) s show thesis by (intro that(2))
    next
      assume "fst ?rec = Inl SubIntegrityErr"
        and clash: "\<not> names_apart (ce_digest env) (sub_ids w) (obs_keys w \<union> canonical_of w1 ` set (first_of_each found))"
      then obtain w2 where "?rec = (Inl SubIntegrityErr, w2)" by (metis prod.collapse)
      with s assms(3,4) quiet have "fst (check_sub env sid w) = Inl SubIntegrityErr"
        by (simp add: check_sub_def active_sub_def sbind_def Let_def)
      with s clash show thesis by (intro that(3)) auto
    qed
  qed
qed

text \<open>
  C22. A check records every result once.  A check that ends without an error, while no other session
  writes subscriptions or observations, counts each of its results once for its canonical resource,
  leaves every other count alone, and reports as new one resource for each canonical resource the
  subscription had not seen.
\<close>

theorem check_records_results:
  assumes "check_sub env sid w = (Inr res, w')" and "quiet_env env" and "subs_ok (ce_digest env) w"
  shows "distinct (ck_resource_ids res) \<and> ck_matched_count res = int (length (ck_resource_ids res))
    \<and> seen sid key w' = seen sid key w + occurrences key (map (canonical_of w') (ck_resource_ids res))
    \<and> distinct (map (canonical_of w') (ck_new_resource_ids res))
    \<and> canonical_of w' ` set (ck_new_resource_ids res)
        = {k \<in> canonical_of w' ` set (ck_resource_ids res). seen sid k w = 0}"
proof -
  from assms(1) obtain r where r: "get_sub sid w = Some r" "active_sub r"
    by (auto simp: check_sub_def active_sub_def split: option.splits if_splits)
  from assms(2,3) r show ?thesis
  proof (cases rule: check_alone)
    case (failed w1)
    with assms(1) show ?thesis by simp
  next
    case (clash found w1)
    with assms(1) show ?thesis by simp
  next
    case (found found w1 w2 new)
    let ?rids = "first_of_each found"
    from found(4) assms(1) have res: "ck_resource_ids res = ?rids" "ck_matched_count res = int (length ?rids)"
        "ck_new_resource_ids res = new"
      and w': "w' = flush_sub r (finished_check (sd_clock w) ?rids r) w2" by auto
    note rec = found(2)[unfolded recorded_def]
    have "observations (sd_db w') = observations (sd_db w2)"
      "known_resources (sd_db w') = known_resources (sd_db w1)"
      "observations (sd_db w1) = observations (sd_db w)"
      using rec found(1) by (simp_all add: w' quiet_search_def)
    then have same: "\<And>key. seen sid key w2 = seen sid key w'" "\<And>key. seen sid key w1 = seen sid key w"
      "canonical_of w1 = canonical_of w'"
      by (auto simp: seen_def canonical_of_def)
    have new: "set new \<subseteq> set ?rids" and iff: "rid \<in> set ?rids \<Longrightarrow>
        canonical_of w' rid \<in> canonical_of w' ` set new \<longleftrightarrow> seen sid (canonical_of w' rid) w = 0" for rid
      using rec unfolding same by blast+
    have "canonical_of w' ` set new = {k \<in> canonical_of w' ` set ?rids. seen sid k w = 0}"
      using new iff by blast
    with rec show ?thesis unfolding res same by simp
  qed
qed

section \<open>The scheduler alone\<close>






lemma flush_known [simp]: "known_resources (sd_db (flush_sub r r' w)) = known_resources (sd_db w)"
  by (simp add: flush_sub_def set_subs_def)











section \<open>Changes that are lost\<close>

lemma record_keeps_subs:
  assumes "record_observations interf digest sid rids v = (out, v')" and "\<And>v. subs (sd_db (interf v)) = subs (sd_db v)"
  shows "subs (sd_db v') = subs (sd_db v)"
  using assms by (auto simp: record_observations_def write_obs_def Let_def split: if_splits option.splits prod.splits sum.splits)

text \<open>
  C31. A check undoes a cancellation.  When a subscription is cancelled while its search runs, the
  cancellation succeeds; and if the check then ends without an error, having found results or not,
  while no other session writes subscriptions, the subscription is active again with a next check
  that the scheduler will run.
\<close>

theorem check_undoes_cancel:
  assumes "get_sub sid w = Some r" and "active_sub r"
    and "mutate_sub (\<lambda>v. v) sid (sb_revision r) ''cancel'' w = (Inr rc, w1)"
    and "subs (sd_db (snd (ce_search env (sb_tmdb_id r) (sb_media_type r) (sb_season r) w))) = subs (sd_db w1)"
    and "\<And>v. subs (sd_db (ce_observing env v)) = subs (sd_db v)"
    and "\<And>v. subs (sd_db (ce_finishing env v)) = subs (sd_db v)"
    and "check_sub env sid w = (Inr res, w')"
  shows "sb_status rc = SUB_CANCELLED
    \<and> (\<exists>r' t. get_sub sid w' = Some r' \<and> sb_next_check_at r' = Some t \<and> sub_due t r'
        \<and> sb_status r' = (if ck_resource_ids res = [] then SUB_NO_MATCH else SUB_MATCHED))"
proof -
  note r = get_sub_id[OF assms(1)]
  from assms(1,3) have rc: "sb_status rc = SUB_CANCELLED" "sb_id rc = sid"
    and w1: "w1 = flush_sub r rc w"
    using r by (auto simp: mutate_sub_def mutated_sub_def Let_def)
  let ?c = "merge_sub r rc r"
  have g1: "get_sub sid w1 = Some ?c"
    using assms(1) r unfolding w1 get_sub_def flush_sub_def set_subs_def by (simp add: row_of_update)
  obtain found v where s: "ce_search env (sb_tmdb_id r) (sb_media_type r) (sb_season r) w = (found, v)" by fastforce
  from assms(1,2,7) s obtain fs v2 new where found: "found = Some fs"
    and rec: "record_observations (ce_observing env) (ce_digest env) sid (first_of_each fs) v = (Inr new, v2)"
    and fin: "sbind (update_sub (ce_finishing env) (\<lambda>now. finished_check now (first_of_each fs)) sid) (\<lambda>row.
        sret \<lparr>ck_subscription = row, ck_matched_count = int (length (first_of_each fs)),
          ck_resource_ids = first_of_each fs, ck_new_resource_ids = new\<rparr>) v2 = (Inr res, w')"
    by (auto simp: check_sub_def active_sub_def Let_def sbind_def[where m = "record_observations a b c d" for a b c d]
        split: option.splits prod.splits sum.splits)
  have "subs (sd_db v2) = subs (sd_db w1)" using record_keeps_subs[OF rec assms(5)] assms(4) s by simp
  then have g2: "get_sub sid v2 = Some ?c" using g1 by (simp add: get_sub_def)
  let ?n = "finished_check (sd_clock v2) (first_of_each fs) ?c"
  from fin g2 have res: "ck_resource_ids res = first_of_each fs" and w': "w' = flush_sub ?c ?n (ce_finishing env v2)"
    by (auto simp: sbind_def update_sub_def sret_def)
  have "get_sub sid (ce_finishing env v2) = Some ?c" using g2 assms(6) by (simp add: get_sub_def)
  then have "get_sub sid w' = Some (merge_sub ?c ?n ?c)"
    using r unfolding w' get_sub_def flush_sub_def set_subs_def by (simp add: row_of_update)
  moreover have "sb_status (merge_sub ?c ?n ?c) = (if first_of_each fs = [] then SUB_NO_MATCH else SUB_MATCHED)"
    "sb_next_check_at (merge_sub ?c ?n ?c) = Some (sd_clock v2 + six_hours)"
    by (simp_all add: merge_sub_def finished_check_def pick_def)
  ultimately show ?thesis using rc(1) res by (auto simp: sub_due_def schedulable_def)
qed

text \<open>
  C32. A cancelled subscription and its scope.  When the first subscription of a scope is cancelled,
  creating another one for a scope with season and both episode bounds is always refused, and
  creating another one for any other scope always succeeds, even if a second, active one exists.
\<close>

theorem create_after_cancel:
  assumes "find_scope q w = Some r" and "sb_status r = SUB_CANCELLED"
    and "lit ''sub_'' @ uuid \<notin> sb_id ` set (subs (sd_db w))"
  shows "create_sub (\<lambda>v. v) uuid q w
    = (if closed_scope (request_scope q) then (Inl (SubConflict ''subscription_exists''), w)
       else (Inr (new_sub q uuid (sd_clock w)), set_subs (\<lambda>rs. rs @ [new_sub q uuid (sd_clock w)]) w))"
proof -
  from assms(1) obtain x where "x \<in> set (subs (sd_db w))" "scope_of x = request_scope q"
    by (auto simp: find_scope_def find_Some_iff in_set_conv_nth)
  moreover have "scope_of (new_sub q uuid (sd_clock w)) = request_scope q" "sb_id (new_sub q uuid (sd_clock w)) = lit ''sub_'' @ uuid"
    by (simp_all add: new_sub_def scope_of_def request_scope_def)
  ultimately have "sub_clash (new_sub q uuid (sd_clock w)) (subs (sd_db w)) \<longleftrightarrow> closed_scope (request_scope q)"
    using assms(3) by (force simp: sub_clash_def)
  with assms(1,2) show ?thesis by (simp add: create_sub_def Let_def)
qed

text \<open>
  Two changes under one revision both succeed.  The revision is compared when the row is read,
  not when it is written: when a subscription is cancelled between the two statements of a pause
  under the same revision, both calls report success and the subscription ends paused.
\<close>

theorem pause_overwrites_cancel:
  assumes "get_sub sid w = Some r" and "sb_status r \<notin> {SUB_CANCELLED, SUB_COMPLETED, SUB_PAUSED}"
  shows "\<exists>rc rp w' r'. fst (mutate_sub (\<lambda>v. v) sid (sb_revision r) ''cancel'' w) = Inr rc
    \<and> sb_status rc = SUB_CANCELLED
    \<and> mutate_sub (\<lambda>v. snd (mutate_sub (\<lambda>v. v) sid (sb_revision r) ''cancel'' v)) sid (sb_revision r) ''pause'' w
        = (Inr rp, w')
    \<and> get_sub sid w' = Some r' \<and> sb_status r' = SUB_PAUSED \<and> sb_revision r' = sb_revision r + 1"
proof -
  note r = get_sub_id[OF assms(1)]
  let ?rc = "r\<lparr>sb_status := SUB_CANCELLED, sb_next_check_at := None, sb_revision := sb_revision r + 1,
    sb_updated_at := sd_clock w\<rparr>"
  let ?rp = "r\<lparr>sb_status := SUB_PAUSED, sb_revision := sb_revision r + 1, sb_updated_at := sd_clock w\<rparr>"
  have cancel: "mutate_sub (\<lambda>v. v) sid (sb_revision r) ''cancel'' w = (Inr ?rc, flush_sub r ?rc w)"
    using assms(1) by (simp add: mutate_sub_def mutated_sub_def Let_def)
  have "mutate_sub (\<lambda>v. snd (mutate_sub (\<lambda>v. v) sid (sb_revision r) ''cancel'' v)) sid (sb_revision r) ''pause'' w
      = (Inr ?rp, flush_sub r ?rp (flush_sub r ?rc w))"
    using assms by (simp add: mutate_sub_def[of _ sid _ "''pause''"] mutated_sub_def Let_def cancel)
  moreover have "get_sub sid (flush_sub r ?rp (flush_sub r ?rc w)) = Some (merge_sub r ?rp (merge_sub r ?rc r))"
    using assms(1) r unfolding get_sub_def flush_sub_def set_subs_def by (simp add: row_of_update)
  moreover have "sb_status (merge_sub r ?rp (merge_sub r ?rc r)) = SUB_PAUSED"
    "sb_revision (merge_sub r ?rp (merge_sub r ?rc r)) = sb_revision r + 1"
    using assms(2) by (auto simp: merge_sub_def pick_def)
  ultimately show ?thesis using cancel by auto
qed

end
