(* ===== verification/Subscription_Demo.thy ===== *)
theory Subscription_Demo
  imports Subscription_Checks "HOL-Library.Code_Target_Nat"
begin

text \<open>
  A film that is subscribed, searched, cancelled and subscribed again.  Evaluated in the kernel,
  the calls instantiate the properties of subscriptions.
\<close>

definition film_sub :: sub_row where
  "film_sub = \<lparr>sb_id = lit ''sub_a'', sb_tmdb_id = 7, sb_media_type = MEDIA_MOVIE, sb_season = None,
     sb_episode_start = None, sb_episode_end = None, sb_mode = MODE_REMIND, sb_status = SUB_ACTIVE,
     sb_profile_id = None, sb_next_check_at = Some 3, sb_last_checked_at = None, sb_last_match_count = 0,
     sb_last_error_code = None, sb_revision = 1, sb_created_at = 3, sb_updated_at = 3\<rparr>"

definition film_world :: sub_world where
  "film_world = \<lparr>sd_db = \<lparr>subs = [film_sub], observations = [],
     known_resources = [\<lparr>kr_id = [1], kr_canonical_key = [9]\<rparr>, \<lparr>kr_id = [2], kr_canonical_key = [9]\<rparr>]\<rparr>,
     sd_clock = 10\<rparr>"

definition film_env :: check_env where
  "film_env = \<lparr>ce_search = (\<lambda>t m s w. (Some [[1], [2], [1]], w)), ce_digest = (\<lambda>k. k),
     ce_observing = (\<lambda>w. w), ce_finishing = (\<lambda>w. w)\<rparr>"

definition film_checked :: sub_world where
  "film_checked = snd (check_sub film_env (lit ''sub_a'') film_world)"

definition film_request :: sub_request where
  "film_request = \<lparr>sq_tmdb_id = 7, sq_media_type = MEDIA_MOVIE, sq_season = None, sq_episode_start = None,
     sq_episode_end = None, sq_mode = MODE_AUTO, sq_profile_id = None\<rparr>"

definition film_cancelled :: sub_world where
  "film_cancelled = snd (mutate_sub (\<lambda>w. w) (lit ''sub_a'') 1 ''cancel'' film_world)"

lemma film_ok: "subs_ok (\<lambda>k. k) film_world" "quiet_env film_env"
  "get_sub (lit ''sub_a'') film_world = Some film_sub" "active_sub film_sub"
  "distinct (map sb_id (subs (sd_db film_world)))"
proof -
  have "\<exists>ks. w = w\<lparr>sd_db := (sd_db w)\<lparr>known_resources := ks\<rparr>\<rparr>" for w :: sub_world
    by (rule exI[of _ "known_resources (sd_db w)"]) simp
  then show "quiet_env film_env" unfolding quiet_env_def film_env_def by simp
qed (simp_all add: subs_ok_def names_ok_def obs_names_ok_def film_world_def film_sub_def sub_name_def
    scope_of_def get_sub_def active_sub_def)

section \<open>Witnesses\<close>

theorem subscription_tables_sound_witness:
  "subs_ok (\<lambda>k. k) film_checked \<and> map ob_seen_count (observations (sd_db film_checked)) = [2]"
proof -
  obtain out where c: "check_sub film_env (lit ''sub_a'') film_world = (out, film_checked)"
    by (metis film_checked_def prod.collapse)
  have "sub_run (\<lambda>k. k) film_world film_checked"
    by (rule sub_check[OF sub_start _ _ _ _ c]) (simp_all add: film_env_def sub_start)
  from subscription_tables_sound[OF this film_ok(1)] have "subs_ok (\<lambda>k. k) film_checked" by simp
  moreover have "map ob_seen_count (observations (sd_db film_checked)) = [2]" by code_simp
  ultimately show ?thesis by blast
qed

theorem check_records_results_witness:
  "seen (lit ''sub_a'') [9] film_checked = 2
    \<and> (\<exists>res. fst (check_sub film_env (lit ''sub_a'') film_world) = Inr res \<and> ck_new_resource_ids res = [[1]]
        \<and> ck_matched_count res = 2)"
proof -
  have v: "map_sum id (\<lambda>r. (ck_new_resource_ids r, ck_resource_ids r)) (fst (check_sub film_env (lit ''sub_a'') film_world))
      = Inr ([[1]], [[1], [2]])"
    by code_simp
  then obtain res where "fst (check_sub film_env (lit ''sub_a'') film_world) = Inr res"
    and res: "ck_new_resource_ids res = [[1]]" "ck_resource_ids res = [[1], [2]]"
    by (cases "fst (check_sub film_env (lit ''sub_a'') film_world)") auto
  then have c: "check_sub film_env (lit ''sub_a'') film_world = (Inr res, film_checked)"
    by (simp add: film_checked_def prod_eq_iff)
  have "canonical_of film_checked [1] = [9]" "canonical_of film_checked [2] = [9]" by code_simp+
  moreover have "seen (lit ''sub_a'') [9] film_world = 0" by (simp add: seen_def film_world_def)
  ultimately show ?thesis
    using check_records_results[OF c film_ok(2), of "[9]"] film_ok(1) res c
    by (simp add: film_env_def)
qed


theorem check_undoes_cancel_witness:
  "\<exists>env res w' r'. check_sub env (lit ''sub_a'') film_world = (Inr res, w') \<and> ck_resource_ids res = [[1], [2]]
    \<and> get_sub (lit ''sub_a'') w' = Some r' \<and> sb_status r' = SUB_MATCHED"
proof -
  let ?env = "film_env\<lparr>ce_search := \<lambda>t m s w. (Some [[1], [2], [1]], film_cancelled)\<rparr>"
  have "map_sum id sb_id (fst (mutate_sub (\<lambda>w. w) (lit ''sub_a'') 1 ''cancel'' film_world)) = Inr (lit ''sub_a'')"
    by code_simp
  then obtain rc where cancel: "mutate_sub (\<lambda>v. v) (lit ''sub_a'') (sb_revision film_sub) ''cancel'' film_world = (Inr rc, film_cancelled)"
    by (cases "fst (mutate_sub (\<lambda>w. w) (lit ''sub_a'') 1 ''cancel'' film_world)")
      (auto simp: film_cancelled_def prod_eq_iff film_sub_def)
  have "map_sum id ck_resource_ids (fst (check_sub ?env (lit ''sub_a'') film_world)) = Inr [[1], [2]]"
    by code_simp
  then obtain res w' where c: "check_sub ?env (lit ''sub_a'') film_world = (Inr res, w')" "ck_resource_ids res = [[1], [2]]"
    by (cases "check_sub ?env (lit ''sub_a'') film_world"; cases "fst (check_sub ?env (lit ''sub_a'') film_world)") auto
  from check_undoes_cancel[OF film_ok(3,4) cancel _ _ _ c(1)] c(2) obtain r' where
    "get_sub (lit ''sub_a'') w' = Some r'" "sb_status r' = SUB_MATCHED" by (auto simp: film_env_def)
  with c show ?thesis by blast
qed

theorem create_after_cancel_witness:
  "\<exists>w'. create_sub (\<lambda>v. v) [98] film_request film_cancelled
      = (Inr (new_sub film_request [98] (sd_clock film_cancelled)), w') \<and> length (subs (sd_db w')) = 2"
proof -
  have "map_option sb_status (find_scope film_request film_cancelled) = Some SUB_CANCELLED"
    "map sb_id (subs (sd_db film_cancelled)) = [lit ''sub_a'']" "lit ''sub_'' @ [98] \<noteq> lit ''sub_a''"
    "\<not> closed_scope (request_scope film_request)"
    by code_simp+
  then obtain r where "find_scope film_request film_cancelled = Some r" "sb_status r = SUB_CANCELLED"
    and ids: "lit ''sub_'' @ [98] \<notin> set (map sb_id (subs (sd_db film_cancelled)))"
    and len: "length (subs (sd_db film_cancelled)) = 1"
    by (auto dest: arg_cong[where f = length])
  with create_after_cancel[of film_request film_cancelled r "[98]"] \<open>\<not> closed_scope (request_scope film_request)\<close>
  show ?thesis by (auto simp: set_subs_def)
qed

theorem pause_overwrites_cancel_witness:
  "\<exists>rp w' r'. mutate_sub (\<lambda>v. snd (mutate_sub (\<lambda>v. v) (lit ''sub_a'') 1 ''cancel'' v)) (lit ''sub_a'') 1 ''pause'' film_world
      = (Inr rp, w') \<and> get_sub (lit ''sub_a'') w' = Some r' \<and> sb_status r' = SUB_PAUSED"
  using pause_overwrites_cancel[OF film_ok(3)] by (auto simp: film_sub_def)

end
