(* ===== verification/Regex_Match.thy ===== *)
theory Regex_Match
  imports Prelude
begin

text \<open>
  The part of Python's module \<^verbatim>\<open>re\<close> that the file name parser uses: a backtracking matcher
  over positions of a text.  A match attempt returns all ways to match, the preferred one first;
  \<open>search\<close> takes the first way at the leftmost position that has one.  The theorem at the end
  compares the matcher with a declarative reading of the patterns.
\<close>

section \<open>Characters\<close>

definition digit_char :: "nat \<Rightarrow> bool" where
  "digit_char c = (48 \<le> c \<and> c \<le> 57)"

definition alnum_char :: "nat \<Rightarrow> bool" where
  "alnum_char c = (digit_char c \<or> 65 \<le> c \<and> c \<le> 90 \<or> 97 \<le> c \<and> c \<le> 122)"

text \<open>
  Under \<open>re.IGNORECASE\<close> a letter also matches the other code points with the same lower case:
  dotted capital and dotless small i, long s and the Kelvin sign.
\<close>

definition lower_ascii :: "nat \<Rightarrow> nat" where
  "lower_ascii c = (if 65 \<le> c \<and> c \<le> 90 then c + 32 else c)"

definition same_ci :: "nat \<Rightarrow> nat \<Rightarrow> bool" where
  "same_ci p c =
     (lower_ascii c = lower_ascii p
      \<or> lower_ascii p = 105 \<and> (c = 304 \<or> c = 305)
      \<or> lower_ascii p = 107 \<and> c = 8490
      \<or> lower_ascii p = 115 \<and> c = 383)"

definition alnum_ci :: "nat \<Rightarrow> bool" where
  "alnum_ci c = (alnum_char c \<or> c = 304 \<or> c = 305 \<or> c = 383 \<or> c = 8490)"

section \<open>Patterns\<close>

text \<open>The groups of the patterns; the only unnamed one is the first of its pattern.\<close>

datatype re_group = GROUP_SEASON | GROUP_S_SEASON | GROUP_SEASON_CN | GROUP_START | GROUP_END | GROUP_FIRST

text \<open>
  \<open>Many c m n\<close> is a greedy repetition of one character class; \<open>Opt\<close> is greedy too.
  \<open>AtEnd\<close> is \<open>$\<close> without \<open>re.MULTILINE\<close>.
\<close>

datatype regex =
    Empty
  | Chr "nat \<Rightarrow> bool"
  | Many "nat \<Rightarrow> bool" nat "nat option"
  | Both regex regex
  | Either regex regex
  | Opt regex
  | Group re_group regex
  | NotBehind "nat \<Rightarrow> bool"
  | NotAhead "nat \<Rightarrow> bool"
  | AtEnd

type_synonym re_groups = "re_group \<Rightarrow> (nat \<times> nat) option"

text \<open>The number of characters of a class from a position on, at most \<open>n\<close>.\<close>

fun run_length :: "(nat \<Rightarrow> bool) \<Rightarrow> nat \<Rightarrow> pystr \<Rightarrow> nat" where
  "run_length c 0 s = 0"
| "run_length c (Suc n) [] = 0"
| "run_length c (Suc n) (x # s) = (if c x then Suc (run_length c n s) else 0)"

definition at_most :: "nat option \<Rightarrow> pystr \<Rightarrow> nat \<Rightarrow> nat" where
  "at_most n s i = (case n of None \<Rightarrow> length s - i | Some k \<Rightarrow> k)"

fun re_match :: "regex \<Rightarrow> pystr \<Rightarrow> nat \<times> re_groups \<Rightarrow> (nat \<times> re_groups) list" where
  "re_match Empty s (i, g) = [(i, g)]"
| "re_match (Chr c) s (i, g) = (if i < length s \<and> c (s ! i) then [(Suc i, g)] else [])"
| "re_match (Many c m n) s (i, g) =
     map (\<lambda>k. (i + k, g)) (rev [m..<Suc (run_length c (at_most n s i) (drop i s))])"
| "re_match (Both a b) s p = concat (map (re_match b s) (re_match a s p))"
| "re_match (Either a b) s p = re_match a s p @ re_match b s p"
| "re_match (Opt a) s p = re_match a s p @ [p]"
| "re_match (Group x a) s (i, g) =
     map (\<lambda>(j, h). (j, h(x := Some (i, j)))) (re_match a s (i, g))"
| "re_match (NotBehind c) s (i, g) = (if 0 < i \<and> i \<le> length s \<and> c (s ! (i - 1)) then [] else [(i, g)])"
| "re_match (NotAhead c) s (i, g) = (if i < length s \<and> c (s ! i) then [] else [(i, g)])"
| "re_match AtEnd s (i, g) =
     (if i = length s \<or> Suc i = length s \<and> s ! i = 10 then [(i, g)] else [])"

record re_found =
  rf_start :: nat
  rf_end :: nat
  rf_groups :: re_groups

text \<open>\<open>Pattern.match\<close> at a position.\<close>

definition match_at :: "regex \<Rightarrow> pystr \<Rightarrow> nat \<Rightarrow> re_found option" where
  "match_at r s i =
     (case re_match r s (i, \<lambda>_. None) of
        [] \<Rightarrow> None
      | (j, g) # _ \<Rightarrow> Some \<lparr>rf_start = i, rf_end = j, rf_groups = g\<rparr>)"

text \<open>The first result of a list of attempts.\<close>

fun first_some :: "('a \<Rightarrow> 'b option) \<Rightarrow> 'a list \<Rightarrow> 'b option" where
  "first_some f [] = None"
| "first_some f (x # xs) = (case f x of Some y \<Rightarrow> Some y | None \<Rightarrow> first_some f xs)"

text \<open>\<open>Pattern.search\<close> from a position on.\<close>

definition search_from :: "regex \<Rightarrow> pystr \<Rightarrow> nat \<Rightarrow> re_found option" where
  "search_from r s i = first_some (match_at r s) [i..<Suc (length s)]"

definition re_search :: "regex \<Rightarrow> pystr \<Rightarrow> re_found option" where
  "re_search r s = search_from r s 0"

lemma first_some_Some:
  "first_some f xs = Some y \<Longrightarrow> \<exists>us x vs. xs = us @ x # vs \<and> f x = Some y \<and> (\<forall>u \<in> set us. f u = None)"
proof (induction xs)
  case (Cons x xs)
  show ?case
  proof (cases "f x")
    case None
    with Cons obtain us z vs where "xs = us @ z # vs" "f z = Some y" "\<forall>u \<in> set us. f u = None" by auto
    with None show ?thesis by (intro exI[of _ "x # us"]) auto
  next
    case (Some w)
    with Cons.prems show ?thesis by (intro exI[of _ "[]"]) auto
  qed
qed simp

lemma first_some_None: "first_some f xs = None \<longleftrightarrow> (\<forall>x \<in> set xs. f x = None)"
  by (induction xs) (auto split: option.splits)

lemma first_some_append:
  "first_some f (xs @ ys) = (case first_some f xs of Some y \<Rightarrow> Some y | None \<Rightarrow> first_some f ys)"
  by (induction xs) (auto split: option.splits)

lemma run_length_bounds: "run_length c n s \<le> n" "run_length c n s \<le> length s"
  by (induction c n s rule: run_length.induct) auto

lemma run_length_iff: "k \<le> run_length c n s \<longleftrightarrow> k \<le> n \<and> k \<le> length s \<and> list_all c (take k s)"
proof (induction c n s arbitrary: k rule: run_length.induct)
  case (3 c n x s)
  then show ?case by (cases k) auto
qed auto

section \<open>What a pattern means\<close>

text \<open>
  \<open>re_reads r s p q\<close>: starting at \<open>p\<close> the pattern can read the text up to \<open>q\<close>.  No order of
  preference, and no algorithm.
\<close>

inductive re_reads :: "regex \<Rightarrow> pystr \<Rightarrow> nat \<times> re_groups \<Rightarrow> nat \<times> re_groups \<Rightarrow> bool" where
  reads_empty: "re_reads Empty s p p"
| reads_chr: "i < length s \<Longrightarrow> c (s ! i) \<Longrightarrow> re_reads (Chr c) s (i, g) (Suc i, g)"
| reads_many: "m \<le> k \<Longrightarrow> (case n of None \<Rightarrow> True | Some l \<Rightarrow> k \<le> l) \<Longrightarrow> i + k \<le> length s \<or> k = 0
    \<Longrightarrow> (\<forall>x < k. c (s ! (i + x))) \<Longrightarrow> re_reads (Many c m n) s (i, g) (i + k, g)"
| reads_both: "re_reads a s p q \<Longrightarrow> re_reads b s q r \<Longrightarrow> re_reads (Both a b) s p r"
| reads_left: "re_reads a s p q \<Longrightarrow> re_reads (Either a b) s p q"
| reads_right: "re_reads b s p q \<Longrightarrow> re_reads (Either a b) s p q"
| reads_some: "re_reads a s p q \<Longrightarrow> re_reads (Opt a) s p q"
| reads_none: "re_reads (Opt a) s p p"
| reads_group: "re_reads a s (i, g) (j, h) \<Longrightarrow> re_reads (Group x a) s (i, g) (j, h(x := Some (i, j)))"
| reads_not_behind: "(0 < i \<and> i \<le> length s \<longrightarrow> \<not> c (s ! (i - 1)))
    \<Longrightarrow> re_reads (NotBehind c) s (i, g) (i, g)"
| reads_not_ahead: "(i < length s \<longrightarrow> \<not> c (s ! i)) \<Longrightarrow> re_reads (NotAhead c) s (i, g) (i, g)"
| reads_at_end: "i = length s \<or> Suc i = length s \<and> s ! i = 10 \<Longrightarrow> re_reads AtEnd s (i, g) (i, g)"

inductive_simps re_reads_simps:
  "re_reads Empty s p q" "re_reads (Chr c) s p q" "re_reads (Many c m n) s p q"
  "re_reads (Both a b) s p q" "re_reads (Either a b) s p q" "re_reads (Opt a) s p q"
  "re_reads (Group x a) s p q" "re_reads (NotBehind c) s p q" "re_reads (NotAhead c) s p q"
  "re_reads AtEnd s p q"

lemma many_reads:
  "(k \<le> run_length c (at_most n s i) (drop i s))
    \<longleftrightarrow> ((case n of None \<Rightarrow> True | Some l \<Rightarrow> k \<le> l) \<and> (i + k \<le> length s \<or> k = 0) \<and> (\<forall>x < k. c (s ! (i + x))))"
proof -
  have "list_all c (take k (drop i s)) \<longleftrightarrow> (\<forall>x < k. c (s ! (i + x)))" if "i + k \<le> length s"
    using that by (auto simp: list_all_length)
  then show ?thesis
    by (cases "k = 0") (auto simp: run_length_iff at_most_def split: option.splits)
qed

lemma re_match_reads: "set (re_match r s p) = {q. re_reads r s p q}"
proof (induction r arbitrary: p)
  case Empty
  show ?case by (cases p) (auto simp: re_reads_simps)
next
  case (Chr c)
  show ?case by (cases p) (auto simp: re_reads_simps)
next
  case (Many c m n)
  obtain i g where p: "p = (i, g)" by (cases p)
  have "set (re_match (Many c m n) s p)
      = (\<lambda>k. (i + k, g)) ` {k. m \<le> k \<and> k \<le> run_length c (at_most n s i) (drop i s)}"
    unfolding p by auto
  also have "\<dots> = {q. re_reads (Many c m n) s p q}"
    unfolding p many_reads by (force simp: re_reads_simps)
  finally show ?case .
next
  case (Both a b)
  then show ?case by (auto simp: re_reads_simps)
next
  case (Either a b)
  then show ?case by (simp add: re_reads_simps Collect_disj_eq)
next
  case (Opt a)
  then show ?case by (auto simp: re_reads_simps)
next
  case (Group x a)
  obtain i g where p: "p = (i, g)" by (cases p)
  have "set (re_match (Group x a) s p) = (\<lambda>(j, h). (j, h(x := Some (i, j)))) ` {q. re_reads a s p q}"
    using Group.IH unfolding p by simp
  also have "\<dots> = {q. re_reads (Group x a) s p q}"
    unfolding p by (auto simp: re_reads_simps image_iff)
  finally show ?case .
next
  case (NotBehind c)
  show ?case by (cases p) (auto simp: re_reads_simps)
next
  case (NotAhead c)
  show ?case by (cases p) (auto simp: re_reads_simps)
next
  case AtEnd
  show ?case by (cases p) (auto simp: re_reads_simps)
qed

text \<open>A match never ends before it starts, or after the text.\<close>

lemma re_reads_within:
  assumes "re_reads r s p q"
  shows "fst p \<le> fst q \<and> (fst p \<le> length s \<longrightarrow> fst q \<le> length s)"
  using assms by induction auto

lemma match_at_Some:
  assumes "match_at r s i = Some m"
  shows "rf_start m = i \<and> re_reads r s (i, \<lambda>_. None) (rf_end m, rf_groups m)"
proof -
  from assms obtain j g rest where "re_match r s (i, \<lambda>_. None) = (j, g) # rest"
    and m: "m = \<lparr>rf_start = i, rf_end = j, rf_groups = g\<rparr>"
    by (auto simp: match_at_def split: list.splits)
  then have "(j, g) \<in> set (re_match r s (i, \<lambda>_. None))" by simp
  with m show ?thesis by (simp add: re_match_reads)
qed

lemma match_at_None: "match_at r s i = None \<longleftrightarrow> (\<forall>q. \<not> re_reads r s (i, \<lambda>_. None) q)"
proof -
  have "match_at r s i = None \<longleftrightarrow> set (re_match r s (i, \<lambda>_. None)) = {}"
    by (auto simp: match_at_def split: list.splits prod.splits)
  then show ?thesis by (auto simp: re_match_reads)
qed

lemma search_from_Some:
  assumes "search_from r s i = Some m"
  shows "i \<le> rf_start m \<and> rf_start m \<le> rf_end m \<and> rf_end m \<le> length s
    \<and> match_at r s (rf_start m) = Some m
    \<and> re_reads r s (rf_start m, \<lambda>_. None) (rf_end m, rf_groups m)"
proof -
  from assms obtain us x vs where x: "[i..<Suc (length s)] = us @ x # vs" "match_at r s x = Some m"
    unfolding search_from_def by (blast dest: first_some_Some)
  then have "x \<in> set [i..<Suc (length s)]" by simp
  with match_at_Some[OF x(2)] x(2) re_reads_within show ?thesis by fastforce
qed

text \<open>
  \<open>Pattern.finditer\<close>: every search goes on where the last match ended.  No pattern that is used
  with it matches the empty text.
\<close>

function find_all :: "regex \<Rightarrow> pystr \<Rightarrow> nat \<Rightarrow> re_found list" where
  "find_all r s i =
     (case search_from r s i of
        None \<Rightarrow> []
      | Some m \<Rightarrow> if rf_end m \<le> i then [m] else m # find_all r s (rf_end m))"
  by pat_completeness auto

termination
  by (relation "measure (\<lambda>(r, s, i). Suc (length s) - i)") (auto dest: search_from_Some)

declare find_all.simps [simp del]

text \<open>
  \<open>search\<close> is complete: it fails only when the pattern reads nothing anywhere.
\<close>

lemma re_search_None:
  "re_search r s = None \<longleftrightarrow> (\<forall>i \<le> length s. \<forall>q. \<not> re_reads r s (i, \<lambda>_. None) q)"
  by (auto simp: re_search_def search_from_def first_some_None match_at_None simp flip: upt_Suc)


end
