(* ===== verification/Media_Parser.thy ===== *)
theory Media_Parser
  imports Regex_Match Write_Contract
begin

text \<open>
  \<^verbatim>\<open>services/media_parser.py\<close>: what a file name says about a film or an episode.  The patterns are
  translated one by one into \<open>regex\<close>.  Unicode normalisation and the character database are data of the
  interpreter and stay parameters.
\<close>

section \<open>Pattern vocabulary\<close>

definition ci :: "string \<Rightarrow> regex" where
  "ci w = foldr (\<lambda>c r. Both (Chr (same_ci c)) r) (lit w) Empty"

definition exact :: "pystr \<Rightarrow> regex" where
  "exact w = foldr (\<lambda>c r. Both (Chr (\<lambda>x. x = c)) r) w Empty"

fun any_of :: "regex list \<Rightarrow> regex" where
  "any_of [] = Chr (\<lambda>_. False)"
| "any_of [r] = r"
| "any_of (r # rs) = Either r (any_of rs)"

fun in_order :: "regex list \<Rightarrow> regex" where
  "in_order [] = Empty"
| "in_order (r # rs) = Both r (in_order rs)"

text \<open>\<open>[ ._-]*\<close>, digits, and the two forms of the word boundary the patterns write out.\<close>

definition sep_char :: "nat \<Rightarrow> bool" where
  "sep_char c = (c = 32 \<or> c = 46 \<or> c = 95 \<or> c = 45)"

definition seps :: regex where
  "seps = Many sep_char 0 None"

definition digits :: "nat \<Rightarrow> regex" where
  "digits n = Many digit_char 1 (Some n)"

definition token_ci :: "regex \<Rightarrow> regex" where
  "token_ci r = in_order [NotBehind alnum_ci, r, NotAhead alnum_ci]"

definition token_cs :: "regex \<Rightarrow> regex" where
  "token_cs r = in_order [NotBehind alnum_char, r, NotAhead alnum_char]"

definition words_ci :: "string list \<Rightarrow> regex" where
  "words_ci ws = in_order (ci (hd ws) # concat (map (\<lambda>w. [seps, ci w]) (tl ws)))"

section \<open>The patterns\<close>

definition year_re :: regex where
  "year_re = in_order [NotBehind digit_char, any_of [exact (lit ''19''), exact (lit ''20'')],
     Many digit_char 2 (Some 2), NotAhead digit_char]"

text \<open>\<open>(?:[ ._-]*(?:E|EP)?(?P<end>[0-9]{1,4}))?\<close>\<close>

definition range_end :: regex where
  "range_end = Opt (in_order [seps, Opt (any_of [ci ''E'', ci ''EP'']), Group GROUP_END (digits 4)])"

definition season_episode_re :: regex where
  "season_episode_re = token_ci (in_order [ci ''S'', Group GROUP_SEASON (digits 3), seps, ci ''E'',
     Group GROUP_START (digits 4), range_end])"

definition multi_season_episode_re :: regex where
  "multi_season_episode_re = token_ci (in_order [Group GROUP_SEASON (digits 3), ci ''X'',
     Group GROUP_START (digits 4), range_end])"

definition chinese_episode_re :: regex where
  "chinese_episode_re = in_order [exact [31532], Group GROUP_SEASON (digits 3), exact [23395], seps, exact [31532],
     Group GROUP_START (digits 4),
     Opt (in_order [seps, any_of [exact [45], exact [33267], exact [21040]], seps, Group GROUP_END (digits 4)]), Opt (exact [38598])]"

definition season_only_re :: regex where
  "season_only_re = token_ci (any_of
     [in_order [ci ''Season'', seps, Group GROUP_SEASON (digits 3)],
      in_order [ci ''S'', Group GROUP_S_SEASON (digits 3)],
      in_order [Group GROUP_SEASON_CN (digits 3), exact [23395]]])"

definition episode_label_re :: regex where
  "episode_label_re = token_ci (in_order
     [any_of [ci ''Episode'', ci ''Ep'', ci ''EP'', ci ''E'', ci ''#''], seps,
      Group GROUP_START (digits 4), range_end])"

definition resolution_patterns :: "(string \<times> regex) list" where
  "resolution_patterns =
     [(''2160p'', token_cs (in_order [exact (lit ''2160''), Chr (\<lambda>c. c = 80 \<or> c = 112)])),
      (''4K'', token_cs (in_order [exact (lit ''4''), Chr (\<lambda>c. c = 75 \<or> c = 107)])),
      (''UHD'', token_ci (ci ''UHD'')),
      (''1080p'', token_cs (in_order [exact (lit ''1080''), Chr (\<lambda>c. c = 80 \<or> c = 112)])),
      (''720p'', token_cs (in_order [exact (lit ''720''), Chr (\<lambda>c. c = 80 \<or> c = 112)]))]"

definition source_patterns :: "(string \<times> regex) list" where
  "source_patterns =
     [(''WEB-DL'', token_ci (words_ci [''WEB'', ''DL''])),
      (''WEBRip'', token_ci (words_ci [''WEB'', ''Rip''])),
      (''BluRay'', token_ci (words_ci [''Blu'', ''Ray''])),
      (''BDRip'', token_ci (words_ci [''BDRip''])),
      (''BRRip'', token_ci (words_ci [''BRRip''])),
      (''HDTV'', token_ci (words_ci [''HDTV''])),
      (''Remux'', token_ci (words_ci [''Remux'']))]"

definition video_codec_patterns :: "(string \<times> regex) list" where
  "video_codec_patterns =
     [(''H.264'', token_ci (any_of [words_ci [''H'', ''264''], ci ''x264'', ci ''AVC''])),
      (''H.265'', token_ci (any_of [words_ci [''H'', ''265''], ci ''x265''])),
      (''HEVC'', token_ci (words_ci [''HEVC''])),
      (''AV1'', token_ci (words_ci [''AV1'']))]"

definition hdr_patterns :: "(string \<times> regex) list" where
  "hdr_patterns =
     [(''Dolby Vision'', token_ci (words_ci [''Dolby'', ''Vision''])),
      (''HDR10+'', token_ci (words_ci [''HDR10+''])),
      (''HDR10'', in_order [NotBehind alnum_ci, ci ''HDR10'', NotAhead (\<lambda>c. c = 43 \<or> alnum_ci c)]),
      (''HDR'', token_ci (words_ci [''HDR''])),
      (''Dolby Vision'', token_ci (words_ci [''DV'']))]"

definition audio_patterns :: "(string \<times> regex) list" where
  "audio_patterns =
     [(''TrueHD'', token_ci (words_ci [''True'', ''HD''])),
      (''DTS-HD MA'', token_ci (words_ci [''DTS'', ''HD'', ''MA''])),
      (''E-AC-3'', token_ci (words_ci [''E'', ''AC'', ''3''])),
      (''DTS'', token_ci (words_ci [''DTS''])),
      (''AC-3'', token_ci (words_ci [''AC'', ''3''])),
      (''AAC'', token_ci (words_ci [''AAC''])),
      (''FLAC'', token_ci (words_ci [''FLAC''])),
      (''Opus'', token_ci (words_ci [''Opus'']))]"

definition explicit_special_patterns :: "(string \<times> regex) list" where
  "explicit_special_patterns =
     [(''SP'', token_ci (words_ci [''SP''])),
      (''OVA'', token_ci (words_ci [''OVA''])),
      (''OAD'', token_ci (words_ci [''OAD''])),
      (''ONA'', token_ci (words_ci [''ONA'']))]"

definition generic_special_re :: regex where
  "generic_special_re = token_ci (in_order [ci ''special'', Opt (ci ''s'')])"

definition language_patterns :: "(string \<times> regex) list" where
  "language_patterns =
     [(''Chinese Simplified'', token_ci (any_of [ci ''CHS'', exact [31616, 20013], exact [31616, 20307, 20013, 25991]])),
      (''Chinese Traditional'', token_ci (any_of [ci ''CHT'', exact [32321, 20013], exact [32321, 39636, 20013, 25991]])),
      (''Chinese'', token_cs (any_of [exact [20013, 25991], exact [22269, 35821], exact [26222, 36890, 35805]])),
      (''English'', token_ci (any_of [ci ''ENG'', ci ''EN'', ci ''English'', exact [33521, 25991]])),
      (''Japanese'', token_ci (any_of [ci ''JPN'', ci ''JP'', ci ''Japanese'', exact [26085, 35821], exact [26085, 25991]])),
      (''Korean'', token_ci (any_of [ci ''KOR'', ci ''KR'', ci ''Korean'', exact [38889, 35821], exact [38889, 25991]]))]"

definition subtitle_hint_patterns :: "(string \<times> regex) list" where
  "subtitle_hint_patterns =
     [(''subtitle'', token_ci (any_of [ci ''SUB'', ci ''SUBS'', exact [23383, 24149], exact [20013, 23383]])),
      (''dual'', token_cs (any_of [exact [21452, 35821], exact [20013, 33521], exact [20013, 26085], exact [33521, 20013]])),
      (''forced'', token_ci (words_ci [''forced''])),
      (''SDH'', token_ci (words_ci [''SDH'']))]"

definition atmos_re :: regex where
  "atmos_re = token_ci (ci ''Atmos'')"

definition dolby_audio_re :: regex where
  "dolby_audio_re = token_ci (any_of
     [in_order [ci ''Dolby'', seps, any_of [ci ''Audio'', ci ''Digital'']],
      in_order [ci ''DD'', Opt (ci ''+'')], ci ''DDP''])"

text \<open>The alternatives \<open>_has_token\<close> and \<open>_companion_spans\<close> are called with.\<close>

definition trailer_words :: regex where
  "trailer_words = any_of [in_order [ci ''trailer'', Opt (ci ''s'')], ci ''preview'']"

definition sample_words :: regex where
  "sample_words = any_of [in_order [ci ''sample'', Opt (ci ''s'')], ci ''proof'']"

definition featurette_words :: regex where
  "featurette_words = in_order [ci ''featurette'', Opt (ci ''s'')]"

definition extra_words :: regex where
  "extra_words = in_order [ci ''extra'', Opt (ci ''s'')]"

definition poster_words :: regex where
  "poster_words = any_of [ci ''poster'', ci ''fanart'', ci ''backdrop'', ci ''cover'']"

section \<open>Values\<close>

datatype media_hint = HINT_MOVIE | HINT_TV | HINT_UNKNOWN

datatype companion =
    COMP_VIDEO | COMP_SUBTITLE | COMP_SAMPLE | COMP_TRAILER | COMP_EXTRA | COMP_FEATURETTE
  | COMP_NFO | COMP_POSTER | COMP_UNKNOWN

record parse_result =
  mp_original_filename :: "pystr option"
  mp_title :: "pystr option"
  mp_year :: "nat option"
  mp_year_candidates :: "nat list"
  mp_season :: "nat option"
  mp_episode_start :: "nat option"
  mp_episode_end :: "nat option"
  mp_special_hints :: "string list"
  mp_resolution :: "string option"
  mp_source :: "string option"
  mp_video_codec :: "string option"
  mp_hdr :: "string option"
  mp_dolby_vision :: "bool option"
  mp_audio_codec :: "string option"
  mp_atmos :: "bool option"
  mp_dolby_audio :: "bool option"
  mp_language_hints :: "string list"
  mp_subtitle_hints :: "string list"
  mp_release_group :: "pystr option"
  mp_container :: "pystr option"
  mp_companion_type :: companion
  mp_media_type_hint :: media_hint
  mp_evidence :: "string list"

text \<open>The Unicode data of the interpreter: \<open>NFKC\<close>, and what \<open>str.isalnum\<close> says.\<close>

record text_db =
  tx_uni :: unicode
  tx_nfkc :: "pystr \<Rightarrow> pystr"
  tx_alnum :: "nat \<Rightarrow> bool"

type_synonym re_span = "nat \<times> nat"

definition span_of :: "re_found \<Rightarrow> re_span" where
  "span_of m = (rf_start m, rf_end m)"

definition spans_of :: "re_found list \<Rightarrow> re_span list" where
  "spans_of ms = map span_of ms"

definition slice :: "pystr \<Rightarrow> nat \<Rightarrow> nat \<Rightarrow> pystr" where
  "slice s i j = take (j - i) (drop i s)"

section \<open>Reading the fields\<close>

definition group_text :: "pystr \<Rightarrow> re_found \<Rightarrow> re_group \<Rightarrow> pystr option" where
  "group_text s m x = map_option (\<lambda>(i, j). slice s i j) (rf_groups m x)"

definition group_int :: "pystr \<Rightarrow> re_found \<Rightarrow> re_group \<Rightarrow> nat option" where
  "group_int s m x =
     (case group_text s m x of
        None \<Rightarrow> None
      | Some t \<Rightarrow> if t = [] then None else Some (undecimal 0 t))"

text \<open>Python's \<open>or\<close> on optional integers: zero counts as false.\<close>

definition or_int :: "nat option \<Rightarrow> nat option \<Rightarrow> nat option" where
  "or_int a b = (case a of None \<Rightarrow> b | Some n \<Rightarrow> if n = 0 then b else Some n)"

definition season_only :: "pystr \<Rightarrow> re_found \<Rightarrow> nat option" where
  "season_only s m =
     or_int (or_int (group_int s m GROUP_SEASON) (group_int s m GROUP_S_SEASON)) (group_int s m GROUP_SEASON_CN)"

type_synonym episode_parts = "nat option \<times> nat option \<times> nat option \<times> re_span list"

definition episode_fields :: "pystr \<Rightarrow> episode_parts" where
  "episode_fields stem =
     (case first_some (\<lambda>r. re_search r stem)
             [season_episode_re, multi_season_episode_re, chinese_episode_re] of
        Some m \<Rightarrow>
          (group_int stem m GROUP_SEASON, group_int stem m GROUP_START, group_int stem m GROUP_END, [span_of m])
      | None \<Rightarrow>
          (case re_search episode_label_re stem of
             Some m \<Rightarrow>
               (case re_search season_only_re stem of
                  None \<Rightarrow> (None, group_int stem m GROUP_START, group_int stem m GROUP_END, [span_of m])
                | Some t \<Rightarrow>
                    (season_only stem t, group_int stem m GROUP_START, group_int stem m GROUP_END,
                     [span_of m, span_of t]))
           | None \<Rightarrow>
               (case re_search season_only_re stem of
                  Some t \<Rightarrow> (season_only stem t, None, None, [span_of t])
                | None \<Rightarrow> (None, None, None, []))))"

definition found_values :: "(string \<times> regex) list \<Rightarrow> pystr \<Rightarrow> (string \<times> re_span) list" where
  "found_values pats s =
     sort_key (\<lambda>(v, p). fst p)
       (concat (map (\<lambda>(v, r). case re_search r s of None \<Rightarrow> [] | Some m \<Rightarrow> [(v, span_of m)]) pats))"

definition first_pattern :: "(string \<times> regex) list \<Rightarrow> pystr \<Rightarrow> string option" where
  "first_pattern pats s =
     first_some (\<lambda>(v, r). case re_search r s of None \<Rightarrow> None | Some m \<Rightarrow> Some v) pats"

definition has_token :: "regex \<Rightarrow> pystr \<Rightarrow> bool" where
  "has_token r s = (re_search (token_ci r) s \<noteq> None)"

definition video_extensions :: "pystr list" where
  "video_extensions = map lit [''mkv'', ''mp4'', ''avi'', ''mov'', ''ts'', ''m2ts'', ''wmv'', ''flv'', ''webm'']"

definition subtitle_extensions :: "pystr list" where
  "subtitle_extensions = map lit [''srt'', ''ass'', ''ssa'', ''sub'', ''vtt'']"

definition image_extensions :: "pystr list" where
  "image_extensions = map lit [''jpg'', ''jpeg'', ''png'', ''webp'']"

definition ext_in :: "pystr option \<Rightarrow> pystr list \<Rightarrow> bool" where
  "ext_in e es = (case e of None \<Rightarrow> False | Some x \<Rightarrow> x \<in> set es)"

definition companion_type :: "unicode \<Rightarrow> pystr \<Rightarrow> pystr option \<Rightarrow> companion" where
  "companion_type u stem extension =
     (let normalized = py_casefold u stem in
      if ext_in extension subtitle_extensions then COMP_SUBTITLE
      else if extension = Some (lit ''nfo'') then COMP_NFO
      else if has_token trailer_words normalized then COMP_TRAILER
      else if has_token sample_words normalized then COMP_SAMPLE
      else if has_token featurette_words normalized then COMP_FEATURETTE
      else if has_token extra_words normalized then COMP_EXTRA
      else if ext_in extension image_extensions \<and> has_token poster_words normalized then COMP_POSTER
      else if ext_in extension video_extensions then COMP_VIDEO
      else COMP_UNKNOWN)"

definition companion_spans :: "pystr \<Rightarrow> pystr option \<Rightarrow> re_span list" where
  "companion_spans stem extension =
     concat (map (\<lambda>r. spans_of (find_all (token_ci r) stem 0))
       ([trailer_words, sample_words, featurette_words, extra_words]
        @ (if ext_in extension image_extensions then [poster_words] else [])))"

definition metadata_patterns :: "regex list" where
  "metadata_patterns =
     [season_episode_re, multi_season_episode_re, chinese_episode_re, season_only_re, episode_label_re]
     @ map snd (explicit_special_patterns @ resolution_patterns @ source_patterns
         @ video_codec_patterns @ hdr_patterns @ audio_patterns @ language_patterns
         @ subtitle_hint_patterns)"

definition metadata_cutoff :: "pystr \<Rightarrow> nat" where
  "metadata_cutoff stem =
     (let starts = concat (map (\<lambda>r. case re_search r stem of None \<Rightarrow> [] | Some m \<Rightarrow> [rf_start m])
                     metadata_patterns)
      in if starts = [] then length stem else Min (set starts))"

definition select_year :: "pystr \<Rightarrow> re_found list \<Rightarrow> re_found option" where
  "select_year stem candidates =
     (if candidates = [] then None
      else
        (let cutoff = metadata_cutoff stem;
             earlier = filter (\<lambda>m. rf_start m < cutoff) candidates
         in Some (last (if earlier = [] then candidates else earlier))))"

definition match_int :: "pystr \<Rightarrow> re_found \<Rightarrow> nat" where
  "match_int s m = undecimal 0 (slice s (rf_start m) (rf_end m))"

definition looks_technical :: "unicode \<Rightarrow> pystr \<Rightarrow> bool" where
  "looks_technical u v =
     (list_ex (\<lambda>(x, r). re_search r v \<noteq> None)
        (resolution_patterns @ source_patterns @ video_codec_patterns @ hdr_patterns)
      \<or> py_casefold u v \<in> set (map lit [''sample'', ''trailer'', ''movie'', ''tv'']))"

definition bracket_group :: regex where
  "bracket_group = in_order [exact (lit ''[''), Group GROUP_FIRST (Many (\<lambda>c. c \<noteq> 93) 1 (Some 40)), exact (lit '']'')]"

definition release_group :: "unicode \<Rightarrow> pystr \<Rightarrow> pystr option \<times> re_span list" where
  "release_group u stem =
     (let spaces = Many (uni_space u) 0 None;
          found = (case match_at (Both spaces bracket_group) stem 0 of
                     Some m \<Rightarrow> Some m
                   | None \<Rightarrow> re_search (in_order [bracket_group, spaces, AtEnd]) stem)
      in case found of
           None \<Rightarrow> (None, [])
         | Some m \<Rightarrow>
             (let candidate = (case group_text stem m GROUP_FIRST of None \<Rightarrow> [] | Some t \<Rightarrow> py_strip u t)
              in if candidate = [] \<or> looks_technical u candidate then (None, [])
                 else (Some candidate, [span_of m])))"

section \<open>The title\<close>

definition masked :: "pystr \<Rightarrow> re_span list \<Rightarrow> pystr" where
  "masked stem spans =
     map (\<lambda>i. if list_ex (\<lambda>(a, b). a \<le> i \<and> i < b) spans then 32 else stem ! i) [0..<length stem]"

text \<open>\<open>re.sub(r"[..]+", " ", ..)\<close>: every run of characters of a class becomes one space.\<close>

function squeeze :: "(nat \<Rightarrow> bool) \<Rightarrow> pystr \<Rightarrow> pystr" where
  "squeeze c [] = []"
| "squeeze c (x # xs) = (if c x then 32 # squeeze c (dropWhile c xs) else x # squeeze c xs)"
  by pat_completeness auto
termination by (relation "measure (length \<circ> snd)") (auto simp: length_dropWhile_le le_imp_less_Suc)

definition strip_of :: "(nat \<Rightarrow> bool) \<Rightarrow> pystr \<Rightarrow> pystr" where
  "strip_of c s = rev (dropWhile c (rev (dropWhile c s)))"

definition brackets :: "nat \<Rightarrow> bool" where
  "brackets c = (c \<in> {91, 93, 40, 41, 123, 125})"

definition title_edge :: "nat \<Rightarrow> bool" where
  "title_edge c = (c = 32 \<or> c = 45 \<or> c = 95)"

definition title_candidate :: "unicode \<Rightarrow> pystr \<Rightarrow> re_found option \<Rightarrow> re_span list \<Rightarrow> pystr option" where
  "title_candidate u stem year spans =
     (let all = spans @ (case year of None \<Rightarrow> [] | Some m \<Rightarrow> [span_of m]);
          v1 = squeeze (\<lambda>c. c = 46 \<or> c = 95) (masked stem all);
          v2 = map (\<lambda>c. if brackets c then 32 else c) v1;
          v3 = strip_of title_edge (squeeze (uni_space u) v2)
      in if v3 = [] then None else Some v3)"

section \<open>parse_media_filename\<close>

definition basename :: "pystr \<Rightarrow> pystr" where
  "basename s = rev (takeWhile (\<lambda>c. c \<noteq> 47 \<and> c \<noteq> 92) (rev s))"

definition split_extension :: "unicode \<Rightarrow> pystr \<Rightarrow> pystr \<times> pystr option" where
  "split_extension u b =
     (if 46 \<notin> set b \<or> last b = 46 then (b, None)
      else
        (let extension = rev (takeWhile (\<lambda>c. c \<noteq> 46) (rev b));
             stem = take (length b - Suc (length extension)) b;
             folded = py_casefold u extension
         in (stem, if folded = [] then None else Some folded)))"

definition non_empty :: "pystr \<Rightarrow> pystr option" where
  "non_empty s = (if s = [] then None else Some s)"

definition empty_result :: parse_result where
  "empty_result =
     \<lparr>mp_original_filename = None, mp_title = None, mp_year = None, mp_year_candidates = [],
      mp_season = None, mp_episode_start = None, mp_episode_end = None, mp_special_hints = [],
      mp_resolution = None, mp_source = None, mp_video_codec = None, mp_hdr = None,
      mp_dolby_vision = None, mp_audio_codec = None, mp_atmos = None, mp_dolby_audio = None,
      mp_language_hints = [], mp_subtitle_hints = [], mp_release_group = None, mp_container = None,
      mp_companion_type = COMP_UNKNOWN, mp_media_type_hint = HINT_UNKNOWN, mp_evidence = []\<rparr>"

text \<open>
  The special markers: the explicit ones, or a single \<open>special\<close> that starts after the last
  episode marker.
\<close>

definition special_fields :: "pystr \<Rightarrow> re_span list \<Rightarrow> string list \<times> re_span list" where
  "special_fields stem episode_spans =
     (let explicit = found_values explicit_special_patterns stem;
          post = (if episode_spans = [] then []
                  else filter (\<lambda>m. Max (set (map snd episode_spans)) < rf_start m)
                         (find_all generic_special_re stem 0))
      in if explicit \<noteq> [] then (map fst explicit, map snd explicit)
         else (case post of [m] \<Rightarrow> ([''special''], [span_of m]) | _ \<Rightarrow> ([], [])))"

definition companion_name :: "companion \<Rightarrow> string" where
  "companion_name c =
     (case c of COMP_VIDEO \<Rightarrow> ''video'' | COMP_SUBTITLE \<Rightarrow> ''subtitle'' | COMP_SAMPLE \<Rightarrow> ''sample''
      | COMP_TRAILER \<Rightarrow> ''trailer'' | COMP_EXTRA \<Rightarrow> ''extra'' | COMP_FEATURETTE \<Rightarrow> ''featurette''
      | COMP_NFO \<Rightarrow> ''nfo'' | COMP_POSTER \<Rightarrow> ''poster'' | COMP_UNKNOWN \<Rightarrow> ''unknown'')"

definition evidence_of :: "bool \<Rightarrow> parse_result \<Rightarrow> string list" where
  "evidence_of generic_special r =
     (let note = (\<lambda>b e. if b then [e] else []) in
      note (mp_title r \<noteq> None) ''title_candidate'' @ note (mp_year r \<noteq> None) ''year''
      @ note (mp_season r \<noteq> None) ''season'' @ note (mp_episode_start r \<noteq> None) ''episode''
      @ note (mp_episode_end r \<noteq> None) ''episode_range''
      @ (if mp_special_hints r \<noteq> [] then [''special''] else note generic_special ''generic_special_token'')
      @ note (mp_resolution r \<noteq> None) ''resolution'' @ note (mp_source r \<noteq> None) ''source''
      @ note (mp_video_codec r \<noteq> None) ''video_codec'' @ note (mp_hdr r \<noteq> None) ''hdr''
      @ note (mp_audio_codec r \<noteq> None) ''audio_codec'' @ note (mp_atmos r = Some True) ''atmos''
      @ note (mp_dolby_audio r = Some True) ''dolby_audio'' @ note (mp_language_hints r \<noteq> []) ''language''
      @ note (mp_subtitle_hints r \<noteq> [] \<or> mp_companion_type r = COMP_SUBTITLE) ''subtitle''
      @ note (mp_release_group r \<noteq> None) ''release_group''
      @ note (mp_companion_type r \<noteq> COMP_UNKNOWN) (''companion:'' @ companion_name (mp_companion_type r))
      @ (case mp_media_type_hint r of HINT_TV \<Rightarrow> [''media_type:tv''] | HINT_MOVIE \<Rightarrow> [''media_type:movie'']
         | HINT_UNKNOWN \<Rightarrow> []))"

definition parse_stem :: "unicode \<Rightarrow> pystr \<Rightarrow> pystr \<Rightarrow> pystr option \<Rightarrow> parse_result" where
  "parse_stem u base stem extension =
     (let companion = companion_type u stem extension;
          years = find_all year_re stem 0;
          year = select_year stem years
      in case episode_fields stem of (season, e_start, e_end, episode_spans) \<Rightarrow>
           (case special_fields stem episode_spans of (special_hints, special_spans) \<Rightarrow>
             (let languages = found_values language_patterns stem;
                  subtitles = found_values subtitle_hint_patterns stem;
                  hdr = first_pattern hdr_patterns stem;
                  spans_in = (\<lambda>pats. map snd (found_values pats stem));
                  group = release_group u stem;
                  title = title_candidate u stem year
                    (episode_spans @ special_spans @ spans_in resolution_patterns
                     @ spans_in source_patterns @ spans_in video_codec_patterns @ spans_in hdr_patterns
                     @ spans_in audio_patterns @ map snd languages @ map snd subtitles
                     @ spans_of (find_all atmos_re stem 0) @ spans_of (find_all dolby_audio_re stem 0)
                     @ snd group @ companion_spans stem extension);
                  hint = (if e_start \<noteq> None \<or> season \<noteq> None \<or> special_hints \<noteq> [] then HINT_TV
                          else if companion = COMP_VIDEO \<and> year \<noteq> None then HINT_MOVIE
                          else HINT_UNKNOWN);
                  r = \<lparr>mp_original_filename = non_empty base, mp_title = title,
                       mp_year = map_option (match_int stem) year,
                       mp_year_candidates = map (match_int stem) years, mp_season = season,
                       mp_episode_start = e_start, mp_episode_end = e_end,
                       mp_special_hints = special_hints,
                       mp_resolution = first_pattern resolution_patterns stem,
                       mp_source = first_pattern source_patterns stem,
                       mp_video_codec = first_pattern video_codec_patterns stem, mp_hdr = hdr,
                       mp_dolby_vision = (if hdr = Some ''Dolby Vision'' then Some True else None),
                       mp_audio_codec = first_pattern audio_patterns stem,
                       mp_atmos = (if has_token (ci ''Atmos'') stem then Some True else None),
                       mp_dolby_audio = (if re_search dolby_audio_re stem \<noteq> None then Some True else None),
                       mp_language_hints = map fst languages, mp_subtitle_hints = map fst subtitles,
                       mp_release_group = fst group, mp_container = extension,
                       mp_companion_type = companion, mp_media_type_hint = hint, mp_evidence = []\<rparr>
              in r\<lparr>mp_evidence := evidence_of (find_all generic_special_re stem 0 \<noteq> []) r\<rparr>)))"

definition parse_media_filename :: "text_db \<Rightarrow> pystr \<Rightarrow> parse_result" where
  "parse_media_filename tx filename =
     (let u = tx_uni tx;
          base = basename (py_strip u (tx_nfkc tx filename));
          (stem, extension) = split_extension u base
      in if stem = [] then empty_result\<lparr>mp_original_filename := non_empty base, mp_container := extension\<rparr>
         else parse_stem u base stem extension)"

end
