(* ===== verification/Inventory.thy ===== *)
theory Inventory
  imports Media_Parser Json "HOL-Library.List_Lexorder"
begin

text \<open>
  \<^verbatim>\<open>services/library_inventory.py\<close>: the identity of a scanned file, how fresh a snapshot is, which
  files duplicate each other, and whether a candidate is already there.  The candidate comes from
  decoded JSON, so its fields are JSON values and comparisons with them may raise.  SHA-256 is a
  parameter.
\<close>

datatype inventory_error = InventoryErr string | InventoryTypeErr

datatype freshness_status = FRESH | STALE | INCOMPLETE | UNKNOWN_AGE

datatype duplicate_kind = DUP_EXACT | DUP_MEDIA | DUP_VERSION | DUP_REVIEW

datatype inventory_decision =
  DEC_NOT_FOUND | DEC_EXACT | DEC_MEDIA | DEC_VERSION | DEC_NEEDS_REVIEW | DEC_INDEX_INCOMPLETE

datatype confidence = TRUSTED | CANDIDATE | UNKNOWN_IDENTITY

section \<open>Files\<close>

record inventory_file =
  if_object_id :: pystr
  if_name :: pystr
  if_size_bytes :: "int option"
  if_modified_at :: "time option"
  if_tmdb_id :: "int option"
  if_media_type :: "pystr option"
  if_season :: "int option"
  if_episode_start :: "int option"
  if_episode_end :: "int option"
  if_content_digest :: "pystr option"
  if_infohash :: "pystr option"

definition safe_object_id :: "pystr \<Rightarrow> nat \<Rightarrow> bool" where
  "safe_object_id v n =
     (v \<noteq> [] \<and> length v \<le> n \<and> 0 \<notin> set v \<and> 47 \<notin> set v \<and> 92 \<notin> set v \<and> \<not> occurs_in (lit ''://'') v)"

definition opt_less :: "int option \<Rightarrow> int \<Rightarrow> bool" where
  "opt_less v n = (case v of None \<Rightarrow> False | Some k \<Rightarrow> k < n)"

definition blank :: "unicode \<Rightarrow> pystr option \<Rightarrow> bool" where
  "blank u v = (case v of None \<Rightarrow> False | Some t \<Rightarrow> py_strip u t = [])"

definition known_types :: "pystr set" where
  "known_types = {lit ''movie'', lit ''tv''}"

text \<open>\<open>__post_init__\<close>.\<close>

definition check_file :: "unicode \<Rightarrow> inventory_file \<Rightarrow> inventory_error + inventory_file" where
  "check_file u f =
     (if \<not> safe_object_id (if_object_id f) 128 then Inl (InventoryErr ''invalid_object_id'')
      else if py_strip u (if_name f) = [] then Inl (InventoryErr ''invalid_name'')
      else if opt_less (if_size_bytes f) 0 then Inl (InventoryErr ''invalid_size'')
      else if opt_less (if_tmdb_id f) 1 then Inl (InventoryErr ''invalid_tmdb_id'')
      else if (case if_media_type f of None \<Rightarrow> False | Some t \<Rightarrow> t \<notin> known_types)
        then Inl (InventoryErr ''invalid_media_type'')
      else if opt_less (if_season f) 0 then Inl (InventoryErr ''invalid_season'')
      else if opt_less (if_episode_start f) 1 then Inl (InventoryErr ''invalid_episode'')
      else if opt_less (if_episode_end f) 1
          \<or> (case (if_episode_start f, if_episode_end f) of (Some a, Some b) \<Rightarrow> b < a | _ \<Rightarrow> False)
        then Inl (InventoryErr ''invalid_episode'')
      else if blank u (if_content_digest f) then Inl (InventoryErr ''invalid_content_digest'')
      else if blank u (if_infohash f) then Inl (InventoryErr ''invalid_infohash'')
      else Inr f)"

section \<open>Identity\<close>

record media_identity =
  md_key :: pystr
  md_title :: "pystr option"
  md_year :: "int option"
  md_media_type :: pystr
  md_season :: "int option"
  md_episode_start :: "int option"
  md_episode_end :: "int option"
  md_tmdb_id :: "int option"
  md_confidence :: confidence
  md_resolution :: "string option"
  md_source :: "string option"
  md_video_codec :: "string option"
  md_hdr :: "string option"

record inventory_identity =
  ii_file :: inventory_file
  ii_parsed :: parse_result
  ii_identity :: media_identity

text \<open>\<open>str.split()\<close> and \<open>" ".join\<close>.\<close>

function py_words :: "unicode \<Rightarrow> pystr \<Rightarrow> pystr list" where
  "py_words u s =
     (case dropWhile (uni_space u) s of
        [] \<Rightarrow> []
      | x # xs \<Rightarrow> (x # takeWhile (\<lambda>c. \<not> uni_space u c) xs) # py_words u (dropWhile (\<lambda>c. \<not> uni_space u c) xs))"
  by pat_completeness auto
termination
proof (relation "measure (length \<circ> snd)", goal_cases)
  case (2 u s x xs)
  then have "Suc (length xs) \<le> length s" by (metis length_Cons length_dropWhile_le)
  with length_dropWhile_le[of "\<lambda>c. \<not> uni_space u c" xs] show ?case by simp
qed simp

declare py_words.simps [simp del]

fun join_words :: "pystr list \<Rightarrow> pystr" where
  "join_words [] = []"
| "join_words [w] = w"
| "join_words (w # ws) = w @ [32] @ join_words ws"

definition normalize_title :: "text_db \<Rightarrow> pystr option \<Rightarrow> pystr option" where
  "normalize_title tx value =
     (case value of
        None \<Rightarrow> None
      | Some t \<Rightarrow>
          if t = [] then None
          else
            (let folded = py_casefold (tx_uni tx) (tx_nfkc tx t);
                 spaced = squeeze (\<lambda>c. \<not> (tx_alnum tx c \<or> c = 95)) folded
             in non_empty (join_words (py_words (tx_uni tx) spaced))))"

definition hint_type :: "parse_result \<Rightarrow> pystr" where
  "hint_type r =
     (case mp_media_type_hint r of HINT_MOVIE \<Rightarrow> lit ''movie'' | HINT_TV \<Rightarrow> lit ''tv'' | HINT_UNKNOWN \<Rightarrow> lit ''unknown'')"

definition number_text :: "int \<Rightarrow> pystr" where
  "number_text n = (if n < 0 then 45 # decimal (nat (- n)) else decimal (nat n))"

text \<open>Python's \<open>or\<close>: a missing or zero end is replaced by the start.\<close>

definition or_start :: "int option \<Rightarrow> int option \<Rightarrow> int option" where
  "or_start e s = (case e of Some n \<Rightarrow> if n = 0 then s else Some n | None \<Rightarrow> s)"

definition text_or_dash :: "int option \<Rightarrow> pystr" where
  "text_or_dash v = (case v of None \<Rightarrow> [45] | Some n \<Rightarrow> number_text n)"

definition identity_key ::
  "int option \<Rightarrow> pystr \<Rightarrow> pystr option \<Rightarrow> int option \<Rightarrow> int option \<Rightarrow> int option \<Rightarrow> int option \<Rightarrow> pystr" where
  "identity_key tmdb media title year season e_start e_end =
     (let scope =
        (if media = lit ''tv''
         then lit '':s'' @ text_or_dash season
           @ (case e_start of
                None \<Rightarrow> []
              | Some n \<Rightarrow> lit '':e'' @ number_text n @ [45] @ text_or_dash (or_start e_end (Some n)))
         else [])
      in case tmdb of
           Some n \<Rightarrow> lit ''tmdb:'' @ media @ [58] @ number_text n @ scope
         | None \<Rightarrow>
             (case title of
                Some t \<Rightarrow>
                  lit ''candidate:'' @ media @ [58] @ t @ [58]
                  @ (case year of None \<Rightarrow> [45] | Some y \<Rightarrow> if y = 0 then [45] else number_text y) @ scope
              | None \<Rightarrow> lit ''unknown''))"

definition or_parsed :: "int option \<Rightarrow> nat option \<Rightarrow> int option" where
  "or_parsed given parsed = (case given of Some n \<Rightarrow> Some n | None \<Rightarrow> map_option int parsed)"

definition build_identity :: "text_db \<Rightarrow> inventory_file \<Rightarrow> inventory_identity" where
  "build_identity tx f =
     (let parsed = parse_media_filename tx (if_name f);
          title = normalize_title tx (mp_title parsed);
          media = (case if_media_type f of Some t \<Rightarrow> t | None \<Rightarrow> hint_type parsed);
          season = or_parsed (if_season f) (mp_season parsed);
          e_start = or_parsed (if_episode_start f) (mp_episode_start parsed);
          e_end = or_parsed (if_episode_end f) (mp_episode_end parsed);
          year = map_option int (mp_year parsed)
      in \<lparr>ii_file = f, ii_parsed = parsed,
          ii_identity =
            \<lparr>md_key = identity_key (if_tmdb_id f) media title year season e_start e_end,
             md_title = title, md_year = year, md_media_type = media, md_season = season,
             md_episode_start = e_start, md_episode_end = e_end, md_tmdb_id = if_tmdb_id f,
             md_confidence =
               (if if_tmdb_id f \<noteq> None then TRUSTED
                else if title \<noteq> None \<and> year \<noteq> None \<and> media \<noteq> lit ''unknown'' then CANDIDATE
                else UNKNOWN_IDENTITY),
             md_resolution = mp_resolution parsed, md_source = mp_source parsed,
             md_video_codec = mp_video_codec parsed, md_hdr = mp_hdr parsed\<rparr>\<rparr>)"

section \<open>Freshness\<close>

record inventory_freshness =
  fr_complete :: bool
  fr_captured_at :: "time option"
  fr_age_seconds :: "int option"
  fr_threshold_seconds :: int
  fr_status :: freshness_status

definition age_of :: "time \<Rightarrow> time option \<Rightarrow> int option" where
  "age_of now captured = map_option (\<lambda>c. max 0 ((now - c) div 1000000)) captured"

definition calculate_freshness :: "bool \<Rightarrow> time option \<Rightarrow> time \<Rightarrow> int \<Rightarrow> inventory_freshness" where
  "calculate_freshness full captured now threshold =
     \<lparr>fr_complete = full, fr_captured_at = captured, fr_age_seconds = age_of now captured,
      fr_threshold_seconds = threshold,
      fr_status =
        (if \<not> full then INCOMPLETE
         else (case age_of now captured of
                 None \<Rightarrow> UNKNOWN_AGE
               | Some age \<Rightarrow> if age \<le> threshold then FRESH else STALE))\<rparr>"

section \<open>Duplicates\<close>

record duplicate_group =
  dg_group_key :: pystr
  dg_kind :: duplicate_kind
  dg_identity_key :: pystr
  dg_object_ids :: "pystr list"
  dg_confidence :: confidence

definition kind_value :: "duplicate_kind \<Rightarrow> pystr" where
  "kind_value k =
     lit (case k of DUP_EXACT \<Rightarrow> ''exact_duplicate'' | DUP_MEDIA \<Rightarrow> ''media_duplicate''
          | DUP_VERSION \<Rightarrow> ''version_duplicate'' | DUP_REVIEW \<Rightarrow> ''review_candidate'')"

definition group_key :: "(pystr \<Rightarrow> pystr) \<Rightarrow> duplicate_kind \<Rightarrow> pystr \<Rightarrow> pystr" where
  "group_key digest k key = kind_value k @ [58] @ take 24 (digest key)"

text \<open>What each dictionary of the code collects: pairs of key and object, in the order of the files.\<close>

definition nonempty_text :: "pystr option \<Rightarrow> pystr option" where
  "nonempty_text v = (case v of Some [] \<Rightarrow> None | _ \<Rightarrow> v)"

definition exact_key :: "unicode \<Rightarrow> inventory_identity \<Rightarrow> pystr option" where
  "exact_key u i =
     (case nonempty_text (if_content_digest (ii_file i)) of
        Some d \<Rightarrow> Some (lit ''digest:'' @ py_casefold u d)
      | None \<Rightarrow> map_option (\<lambda>h. lit ''infohash:'' @ py_casefold u h) (nonempty_text (if_infohash (ii_file i))))"

definition media_key :: "inventory_identity \<Rightarrow> pystr option" where
  "media_key i = (if md_tmdb_id (ii_identity i) \<noteq> None then Some (md_key (ii_identity i)) else None)"

definition review_key :: "inventory_identity \<Rightarrow> pystr option" where
  "review_key i =
     (if md_tmdb_id (ii_identity i) = None \<and> md_confidence (ii_identity i) = CANDIDATE
      then Some (md_key (ii_identity i)) else None)"

definition keyed_objects ::
  "(inventory_identity \<Rightarrow> pystr option) \<Rightarrow> inventory_identity list \<Rightarrow> (pystr \<times> pystr) list" where
  "keyed_objects key items =
     concat (map (\<lambda>i. case key i of None \<Rightarrow> [] | Some k \<Rightarrow> [(k, if_object_id (ii_file i))]) items)"

definition groups_of ::
  "(pystr \<Rightarrow> pystr) \<Rightarrow> duplicate_kind \<Rightarrow> confidence \<Rightarrow> (pystr \<times> pystr) list \<Rightarrow> duplicate_group list" where
  "groups_of digest kind conf pairs =
     concat (map (\<lambda>key.
       let object_ids = map snd (filter (\<lambda>p. fst p = key) pairs) in
       if length object_ids > 1
       then [\<lparr>dg_group_key = group_key digest kind key, dg_kind = kind, dg_identity_key = key,
              dg_object_ids = sort object_ids, dg_confidence = conf\<rparr>]
       else []) (sort (remdups (map fst pairs))))"

definition find_duplicate_groups ::
  "unicode \<Rightarrow> (pystr \<Rightarrow> pystr) \<Rightarrow> inventory_identity list \<Rightarrow> duplicate_group list" where
  "find_duplicate_groups u digest items =
     groups_of digest DUP_EXACT TRUSTED (keyed_objects (exact_key u) items)
     @ groups_of digest DUP_MEDIA TRUSTED (keyed_objects media_key items)
     @ groups_of digest DUP_REVIEW CANDIDATE (keyed_objects review_key items)"

section \<open>Snapshots\<close>

record inventory_snapshot =
  sn_complete :: bool
  sn_captured_at :: "time option"
  sn_files :: "inventory_identity list"
  sn_freshness :: inventory_freshness
  sn_duplicate_groups :: "duplicate_group list"

fun check_files :: "unicode \<Rightarrow> inventory_file list \<Rightarrow> inventory_error + inventory_file list" where
  "check_files u [] = Inr []"
| "check_files u (f # fs) =
     (case check_file u f of
        Inl e \<Rightarrow> Inl e
      | Inr g \<Rightarrow> (case check_files u fs of Inl e \<Rightarrow> Inl e | Inr gs \<Rightarrow> Inr (g # gs)))"

text \<open>The files are created while the snapshot is built, so \<open>check_files\<close> is part of it.\<close>

definition build_snapshot ::
  "text_db \<Rightarrow> (pystr \<Rightarrow> pystr) \<Rightarrow> inventory_file list \<Rightarrow> bool \<Rightarrow> time option \<Rightarrow> time \<Rightarrow> int
    \<Rightarrow> inventory_error + inventory_snapshot" where
  "build_snapshot tx digest files full captured now threshold =
     (if threshold < 60 \<or> threshold > 86400 then Inl (InventoryErr ''invalid_freshness_threshold'')
      else
        (case check_files (tx_uni tx) files of
           Inl e \<Rightarrow> Inl e
         | Inr fs \<Rightarrow>
             (let items = map (build_identity tx) fs in
              if \<not> distinct (map if_object_id fs) then Inl (InventoryErr ''duplicate_object_id'')
              else Inr \<lparr>sn_complete = full, sn_captured_at = captured, sn_files = items,
                        sn_freshness = calculate_freshness full captured now threshold,
                        sn_duplicate_groups = find_duplicate_groups (tx_uni tx) digest items\<rparr>)))"

section \<open>Candidates\<close>

record probe =
  pb_object_id :: json
  pb_content_digest :: json
  pb_infohash :: json
  pb_tmdb_id :: json
  pb_media_type :: json
  pb_season :: json
  pb_episode_start :: json
  pb_episode_end :: json
  pb_name :: pystr

definition empty_probe :: "pystr \<Rightarrow> probe" where
  "empty_probe name =
     \<lparr>pb_object_id = JNull, pb_content_digest = JNull, pb_infohash = JNull, pb_tmdb_id = JNull,
      pb_media_type = JNull, pb_season = JNull, pb_episode_start = JNull, pb_episode_end = JNull,
      pb_name = name\<rparr>"

fun json_truthy :: "json \<Rightarrow> bool" where
  "json_truthy JNull = False"
| "json_truthy (JBool b) = b"
| "json_truthy (JInt n) = (n \<noteq> 0)"
| "json_truthy (JReal r) = (r \<noteq> 0)"
| "json_truthy (JNonFinite _) = True"
| "json_truthy (JStr s) = (s \<noteq> [])"
| "json_truthy (JList xs) = (xs \<noteq> [])"
| "json_truthy (JObj kvs) = (kvs \<noteq> [])"

definition opt_str_eq :: "pystr option \<Rightarrow> json \<Rightarrow> bool" where
  "opt_str_eq v j = (case v of None \<Rightarrow> j = JNull | Some s \<Rightarrow> json_eq_str j s)"

definition opt_int_eq :: "int option \<Rightarrow> json \<Rightarrow> bool" where
  "opt_int_eq v j = (case v of None \<Rightarrow> j = JNull | Some n \<Rightarrow> json_eq_int j n)"

text \<open>\<open>n <= j\<close> and \<open>n >= j\<close> for an integer; other values than numbers raise \<open>TypeError\<close>.\<close>

definition int_le_json :: "int \<Rightarrow> json \<Rightarrow> bool option" where
  "int_le_json n j =
     (case j of JNonFinite s \<Rightarrow> Some (s = ''Infinity'')
      | _ \<Rightarrow> map_option (\<lambda>r. of_int n \<le> r) (json_number j))"

definition int_ge_json :: "int \<Rightarrow> json \<Rightarrow> bool option" where
  "int_ge_json n j =
     (case j of JNonFinite s \<Rightarrow> Some (s = ''-Infinity'')
      | _ \<Rightarrow> map_option (\<lambda>r. r \<le> of_int n) (json_number j))"

definition episode_scope_matches :: "inventory_identity \<Rightarrow> probe \<Rightarrow> inventory_error + bool" where
  "episode_scope_matches i p =
     (let m = ii_identity i in
      if \<not> json_eq_str (pb_media_type p) (lit ''tv'') then Inr True
      else if pb_season p \<noteq> JNull \<and> \<not> opt_int_eq (md_season m) (pb_season p) then Inr False
      else if pb_episode_start p = JNull then Inr True
      else
        (let candidate_end = (if json_truthy (pb_episode_end p) then pb_episode_end p else pb_episode_start p)
         in case (md_episode_start m, or_start (md_episode_end m) (md_episode_start m)) of
              (Some a, Some b) \<Rightarrow>
                (case int_le_json a candidate_end of
                   None \<Rightarrow> Inl InventoryTypeErr
                 | Some False \<Rightarrow> Inr False
                 | Some True \<Rightarrow>
                     (case int_ge_json b (pb_episode_start p) of
                        None \<Rightarrow> Inl InventoryTypeErr | Some r \<Rightarrow> Inr r))
            | _ \<Rightarrow> Inr False))"

definition media_matches :: "inventory_identity \<Rightarrow> probe \<Rightarrow> inventory_error + bool" where
  "media_matches i p =
     (if \<not> opt_int_eq (md_tmdb_id (ii_identity i)) (pb_tmdb_id p) then Inr False
      else if pb_media_type p \<noteq> JNull \<and> \<not> json_eq_str (pb_media_type p) (md_media_type (ii_identity i))
        then Inr False
      else episode_scope_matches i p)"

fun matching_files :: "probe \<Rightarrow> inventory_identity list \<Rightarrow> inventory_error + inventory_identity list" where
  "matching_files p [] = Inr []"
| "matching_files p (i # items) =
     (case media_matches i p of
        Inl e \<Rightarrow> Inl e
      | Inr b \<Rightarrow>
          (case matching_files p items of
             Inl e \<Rightarrow> Inl e | Inr ms \<Rightarrow> Inr (if b then i # ms else ms)))"

definition same_version :: "text_db \<Rightarrow> inventory_identity \<Rightarrow> pystr \<Rightarrow> bool" where
  "same_version tx i name =
     (let parsed = parse_media_filename tx name; r = ii_parsed i in
      mp_resolution r = mp_resolution parsed \<and> mp_source r = mp_source parsed
      \<and> mp_video_codec r = mp_video_codec parsed \<and> mp_hdr r = mp_hdr parsed)"

text \<open>The file a candidate's name stands for.  A list or object is not hashable.\<close>

definition probe_file :: "unicode \<Rightarrow> probe \<Rightarrow> inventory_error + inventory_file" where
  "probe_file u p =
     (let f = (\<lambda>t. \<lparr>if_object_id = lit ''probe'', if_name = pb_name p, if_size_bytes = None,
           if_modified_at = None, if_tmdb_id = None, if_media_type = t, if_season = None,
           if_episode_start = None, if_episode_end = None, if_content_digest = None, if_infohash = None\<rparr>)
      in if py_strip u (pb_name p) = [] then Inl (InventoryErr ''invalid_name'')
         else case pb_media_type p of
           JNull \<Rightarrow> check_file u (f None)
         | JStr t \<Rightarrow> check_file u (f (Some t))
         | JList _ \<Rightarrow> Inl InventoryTypeErr
         | JObj _ \<Rightarrow> Inl InventoryTypeErr
         | _ \<Rightarrow> Inl (InventoryErr ''invalid_media_type''))"

definition exact_match :: "probe \<Rightarrow> inventory_identity \<Rightarrow> bool" where
  "exact_match p i =
     (json_truthy (pb_content_digest p) \<and> opt_str_eq (if_content_digest (ii_file i)) (pb_content_digest p)
      \<or> json_truthy (pb_infohash p) \<and> opt_str_eq (if_infohash (ii_file i)) (pb_infohash p))"

definition check_name :: "text_db \<Rightarrow> inventory_snapshot \<Rightarrow> probe \<Rightarrow> inventory_error + inventory_decision" where
  "check_name tx sn p =
     (if pb_name p = [] then Inr DEC_NOT_FOUND
      else
        (case probe_file (tx_uni tx) p of
           Inl e \<Rightarrow> Inl e
         | Inr f \<Rightarrow>
             if list_ex (\<lambda>i. md_key (ii_identity i) = md_key (ii_identity (build_identity tx f))) (sn_files sn)
             then Inr DEC_NEEDS_REVIEW else Inr DEC_NOT_FOUND))"

definition check_inventory :: "text_db \<Rightarrow> inventory_snapshot \<Rightarrow> probe \<Rightarrow> inventory_error + inventory_decision" where
  "check_inventory tx sn p =
     (if \<not> sn_complete sn \<or> fr_status (sn_freshness sn) = INCOMPLETE then Inr DEC_INDEX_INCOMPLETE
      else if json_truthy (pb_object_id p)
          \<and> list_ex (\<lambda>i. json_eq_str (pb_object_id p) (if_object_id (ii_file i))) (sn_files sn)
        then Inr DEC_EXACT
      else if list_ex (exact_match p) (sn_files sn) then Inr DEC_EXACT
      else if pb_tmdb_id p \<noteq> JNull
        then (case matching_files p (sn_files sn) of
                Inl e \<Rightarrow> Inl e
              | Inr ms \<Rightarrow>
                  if ms \<noteq> []
                  then (if pb_name p \<noteq> [] \<and> list_ex (\<lambda>i. same_version tx i (pb_name p)) ms
                        then Inr DEC_VERSION else Inr DEC_MEDIA)
                  else check_name tx sn p)
      else check_name tx sn p)"

end
