(* ===== verification/Inventory_Props.thy ===== *)
theory Inventory_Props
  imports Inventory
begin

text \<open>
  The duplicate groups of a snapshot: a group is exactly the set of files that share a key.
\<close>

definition object_of :: "inventory_identity \<Rightarrow> pystr" where
  "object_of i = if_object_id (ii_file i)"

text \<open>The key by which a kind of group is formed; versions are never grouped.\<close>

definition group_rule :: "unicode \<Rightarrow> duplicate_kind \<Rightarrow> inventory_identity \<Rightarrow> pystr option" where
  "group_rule u kind =
     (case kind of DUP_EXACT \<Rightarrow> exact_key u | DUP_MEDIA \<Rightarrow> media_key | DUP_REVIEW \<Rightarrow> review_key
      | DUP_VERSION \<Rightarrow> (\<lambda>_. None))"

definition sharing :: "(inventory_identity \<Rightarrow> pystr option) \<Rightarrow> inventory_identity list \<Rightarrow> pystr \<Rightarrow> pystr set" where
  "sharing rule items key = object_of ` {i \<in> set items. rule i = Some key}"

lemma keyed_objects_Cons:
  "keyed_objects key (i # items)
    = (case key i of None \<Rightarrow> [] | Some k \<Rightarrow> [(k, object_of i)]) @ keyed_objects key items"
  by (simp add: keyed_objects_def object_of_def split: option.split)

lemma keyed_objects_set: "set (keyed_objects rule items) = {(k, object_of i) | i k. i \<in> set items \<and> rule i = Some k}"
  by (force simp: keyed_objects_def object_of_def split: option.splits)

lemma grouped_objects:
  assumes "distinct (map object_of items)"
  shows "distinct (map snd (filter (\<lambda>p. fst p = key) (keyed_objects rule items)))
    \<and> set (map snd (filter (\<lambda>p. fst p = key) (keyed_objects rule items))) = sharing rule items key"
  using assms
proof (induction items)
  case Nil
  then show ?case by (simp add: keyed_objects_def sharing_def)
next
  case (Cons i items)
  have new: "object_of i \<notin> sharing rule items key" using Cons.prems by (auto simp: sharing_def)
  from Cons have IH: "distinct (map snd (filter (\<lambda>p. fst p = key) (keyed_objects rule items)))"
    "set (map snd (filter (\<lambda>p. fst p = key) (keyed_objects rule items))) = sharing rule items key" by simp_all
  have step: "sharing rule (i # items) key
      = (if rule i = Some key then insert (object_of i) (sharing rule items key) else sharing rule items key)"
    by (auto simp: sharing_def)
  show ?case
  proof (cases "rule i = Some key")
    case True
    with IH new step show ?thesis by (simp add: keyed_objects_Cons)
  next
    case False
    with IH step show ?thesis by (cases "rule i") (simp_all add: keyed_objects_Cons)
  qed
qed

definition exact_group :: "(inventory_identity \<Rightarrow> pystr option) \<Rightarrow> inventory_identity list \<Rightarrow> duplicate_group \<Rightarrow> bool" where
  "exact_group rule items g =
     (sorted (dg_object_ids g) \<and> distinct (dg_object_ids g) \<and> 1 < length (dg_object_ids g)
      \<and> set (dg_object_ids g) = sharing rule items (dg_identity_key g))"

lemma groups_of_sound:
  assumes "g \<in> set (groups_of digest kind conf (keyed_objects rule items))" and "distinct (map object_of items)"
  shows "dg_kind g = kind \<and> dg_confidence g = conf \<and> exact_group rule items g"
proof -
  from assms(1) obtain key where len: "length (filter (\<lambda>p. fst p = key) (keyed_objects rule items)) > 1"
    and g: "g = \<lparr>dg_group_key = group_key digest kind key, dg_kind = kind, dg_identity_key = key,
      dg_object_ids = sort (map snd (filter (\<lambda>p. fst p = key) (keyed_objects rule items))), dg_confidence = conf\<rparr>"
    by (auto simp: groups_of_def Let_def split: if_splits)
  show ?thesis unfolding g exact_group_def using len grouped_objects[OF assms(2), of key rule] by simp
qed

lemma two_in_list: "a \<in> set xs \<Longrightarrow> b \<in> set xs \<Longrightarrow> a \<noteq> b \<Longrightarrow> 1 < length xs"
  by (cases xs) (auto dest: length_pos_if_in_set)

lemma groups_of_complete:
  assumes "i \<in> set items" "j \<in> set items" "rule i = Some key" "rule j = Some key" "object_of i \<noteq> object_of j"
  shows "\<exists>g \<in> set (groups_of digest kind conf (keyed_objects rule items)). dg_identity_key g = key
    \<and> {object_of i, object_of j} \<subseteq> set (dg_object_ids g)"
proof -
  let ?ids = "map snd (filter (\<lambda>p. fst p = key) (keyed_objects rule items))"
  have mem: "object_of i \<in> set ?ids" "object_of j \<in> set ?ids"
    using assms by (force simp: keyed_objects_set)+
  then have len: "1 < length ?ids" using assms(5) by (rule two_in_list)
  have key: "key \<in> set (map fst (keyed_objects rule items))"
    using assms(1,3) by (force simp: keyed_objects_set)
  let ?g = "\<lparr>dg_group_key = group_key digest kind key, dg_kind = kind, dg_identity_key = key,
      dg_object_ids = sort ?ids, dg_confidence = conf\<rparr>"
  have "?g \<in> set (groups_of digest kind conf (keyed_objects rule items))"
    unfolding groups_of_def using key len by (auto simp: Let_def intro!: bexI[of _ key])
  with mem show ?thesis by (intro bexI[of _ ?g]) auto
qed

text \<open>
  C24. Duplicate groups are exact.  In a snapshot whose files have different objects, every group
  lists, sorted and without repetition, precisely the files that share its key, at least two of
  them, and is trusted unless it is a candidate for review; and any two files that share a key
  of one of the three kinds are together in a group of this kind.
\<close>

theorem duplicate_groups_exact:
  assumes "distinct (map object_of items)"
  shows "(\<forall>g \<in> set (find_duplicate_groups u digest items).
      exact_group (group_rule u (dg_kind g)) items g
      \<and> dg_confidence g = (if dg_kind g = DUP_REVIEW then CANDIDATE else TRUSTED))
    \<and> (\<forall>kind. \<forall>i \<in> set items. \<forall>j \<in> set items. \<forall>key.
      i \<noteq> j \<and> group_rule u kind i = Some key \<and> group_rule u kind j = Some key
      \<longrightarrow> (\<exists>g \<in> set (find_duplicate_groups u digest items). dg_kind g = kind \<and> dg_identity_key g = key
            \<and> {object_of i, object_of j} \<subseteq> set (dg_object_ids g)))"
proof (intro conjI ballI allI impI)
  fix g assume g: "g \<in> set (find_duplicate_groups u digest items)"
  then show "exact_group (group_rule u (dg_kind g)) items g"
    and "dg_confidence g = (if dg_kind g = DUP_REVIEW then CANDIDATE else TRUSTED)"
    using groups_of_sound[OF _ assms] by (auto simp: find_duplicate_groups_def group_rule_def dest!: groups_of_sound[OF _ assms])
next
  fix kind i j key
  assume ij: "i \<in> set items" "j \<in> set items"
    and k: "i \<noteq> j \<and> group_rule u kind i = Some key \<and> group_rule u kind j = Some key"
  from assms ij k have "object_of i \<noteq> object_of j" by (metis distinct_map inj_on_def)
  note found = groups_of_complete[OF ij _ _ this, where key = key and digest = digest]
  have kind: "dg_kind g = c" if "g \<in> set (groups_of digest c conf ps)" for g c conf ps
    using that by (auto simp: groups_of_def Let_def split: if_splits)
  show "\<exists>g \<in> set (find_duplicate_groups u digest items). dg_kind g = kind \<and> dg_identity_key g = key
      \<and> {object_of i, object_of j} \<subseteq> set (dg_object_ids g)"
  proof (cases kind)
    case DUP_EXACT
    with k have "exact_key u i = Some key" "exact_key u j = Some key" by (simp_all add: group_rule_def)
    from found[OF this, of DUP_EXACT TRUSTED] kind[of _ DUP_EXACT] DUP_EXACT show ?thesis
      unfolding find_duplicate_groups_def by fastforce
  next
    case DUP_MEDIA
    with k have "media_key i = Some key" "media_key j = Some key" by (simp_all add: group_rule_def)
    from found[OF this, of DUP_MEDIA TRUSTED] kind[of _ DUP_MEDIA] DUP_MEDIA show ?thesis
      unfolding find_duplicate_groups_def by fastforce
  next
    case DUP_REVIEW
    with k have "review_key i = Some key" "review_key j = Some key" by (simp_all add: group_rule_def)
    from found[OF this, of DUP_REVIEW CANDIDATE] kind[of _ DUP_REVIEW] DUP_REVIEW show ?thesis
      unfolding find_duplicate_groups_def by fastforce
  next
    case DUP_VERSION
    with k show ?thesis by (simp add: group_rule_def)
  qed
qed

end
