(* ===== verification/Push_Guard.thy ===== *)
theory Push_Guard
  imports Inventory Task_Queue
begin

text \<open>
  \<^verbatim>\<open>services/inventory_push_guard.py\<close>: the check of every enabled library just before a link is
  pushed.  It only reads, but statement after statement, and other sessions may commit in
  between: \<open>view n\<close> is the database as the statement number \<open>n\<close> finds it, \<open>clk n\<close> the clock then.
\<close>

record guard_resource =
  gr_id :: pystr
  gr_kind :: string
  gr_name :: pystr
  gr_metadata :: "json option"

record push_check =
  pc_allowed :: bool
  pc_code :: string
  pc_decision :: "inventory_decision option"

definition refused :: "string \<Rightarrow> push_check" where
  "refused code = \<lparr>pc_allowed = False, pc_code = code, pc_decision = None\<rparr>"

record push_guard =
  pg_text :: text_db
  pg_digest :: "pystr \<Rightarrow> pystr"
  pg_threshold :: int

definition new_push_guard :: "text_db \<Rightarrow> (pystr \<Rightarrow> pystr) \<Rightarrow> int \<Rightarrow> push_guard option" where
  "new_push_guard tx digest threshold =
     (if threshold < 60 \<or> threshold > 86400 then None
      else Some \<lparr>pg_text = tx, pg_digest = digest, pg_threshold = threshold\<rparr>)"

definition resource_probe :: "guard_resource \<Rightarrow> probe" where
  "resource_probe r =
     (let m = load_json_object (gr_metadata r) in
      \<lparr>pb_object_id = jget m ''object_id'', pb_content_digest = jget m ''content_digest'',
       pb_infohash = jget m ''infohash'', pb_tmdb_id = jget m ''tmdb_id'',
       pb_media_type = jget m ''media_type'', pb_season = jget m ''season_number'',
       pb_episode_start = jget m ''episode_start'', pb_episode_end = jget m ''episode_end'',
       pb_name = gr_name r\<rparr>)"

definition enabled_libraries :: "store \<Rightarrow> library_row list" where
  "enabled_libraries s = sort_key lib_id (filter lib_enabled (libraries s))"

text \<open>\<open>ORDER BY created_at DESC, id DESC LIMIT 1\<close>.\<close>

definition newest_run :: "pystr \<Rightarrow> store \<Rightarrow> run_row option" where
  "newest_run library_id s =
     (case rev (sort_key run_created_at (sort_key run_id
             (filter (\<lambda>r. run_library_id r = library_id) (runs s)))) of
        [] \<Rightarrow> None | r # _ \<Rightarrow> Some r)"

text \<open>A dictionary of the identities by object; of equal keys the last one stays.\<close>

definition confirmed_identity :: "pystr \<Rightarrow> store \<Rightarrow> pystr \<Rightarrow> media_identity_row option" where
  "confirmed_identity library_id s object_id =
     row_of mi_object_id object_id (rev (filter (\<lambda>m. mi_library_id m = library_id) (media_identities s)))"

definition file_of_entry :: "pystr \<Rightarrow> store \<Rightarrow> scan_entry \<Rightarrow> inventory_file" where
  "file_of_entry library_id s e =
     (let m = confirmed_identity library_id s (se_object_id e) in
      \<lparr>if_object_id = se_object_id e, if_name = se_name e, if_size_bytes = se_size_bytes e,
       if_modified_at = se_modified_at e, if_tmdb_id = map_option mi_tmdb_id m,
       if_media_type = map_option mi_media_type m, if_season = Option.bind m mi_season,
       if_episode_start = Option.bind m mi_episode_start, if_episode_end = Option.bind m mi_episode_end,
       if_content_digest = None, if_infohash = None\<rparr>)"

definition file_entries :: "run_row \<Rightarrow> store \<Rightarrow> scan_entry list" where
  "file_entries r s = filter (\<lambda>e. se_scan_run_id e = run_id r \<and> \<not> se_is_directory e) (scan_entries s)"

definition usable_run :: "run_row \<Rightarrow> bool" where
  "usable_run r = (run_complete r \<and> run_state r = SCAN_COMPLETED)"

text \<open>\<open>_snapshot\<close>: the entries are read by statement \<open>k\<close>, the identities by the next one.\<close>

definition guard_snapshot ::
  "push_guard \<Rightarrow> (nat \<Rightarrow> store) \<Rightarrow> (nat \<Rightarrow> time) \<Rightarrow> run_row \<Rightarrow> pystr \<Rightarrow> nat
    \<Rightarrow> inventory_error + inventory_snapshot" where
  "guard_snapshot g view clk r library_id k =
     build_snapshot (pg_text g) (pg_digest g)
       (map (file_of_entry library_id (view (k + 1))) (file_entries r (view k)))
       (usable_run r) (Some (run_updated_at r)) (clk (k + 1)) (pg_threshold g)"

definition needs_review :: "inventory_decision set" where
  "needs_review = {DEC_MEDIA, DEC_VERSION, DEC_NEEDS_REVIEW}"

fun check_libraries ::
  "push_guard \<Rightarrow> (nat \<Rightarrow> store) \<Rightarrow> (nat \<Rightarrow> time) \<Rightarrow> probe \<Rightarrow> library_row list
    \<Rightarrow> inventory_decision option \<Rightarrow> nat \<Rightarrow> inventory_error + push_check" where
  "check_libraries g view clk p [] review k =
     Inr (case review of
            Some d \<Rightarrow> \<lparr>pc_allowed = False, pc_code = ''inventory_review_required'', pc_decision = Some d\<rparr>
          | None \<Rightarrow> \<lparr>pc_allowed = True, pc_code = ''inventory_not_found'', pc_decision = Some DEC_NOT_FOUND\<rparr>)"
| "check_libraries g view clk p (lib # libs) review k =
     (case newest_run (lib_id lib) (view k) of
        None \<Rightarrow> Inr (refused ''inventory_index_incomplete'')
      | Some r \<Rightarrow>
          (case guard_snapshot g view clk r (lib_id lib) (k + 1) of
             Inl e \<Rightarrow> Inl e
           | Inr sn \<Rightarrow>
               (case fr_status (sn_freshness sn) of
                  INCOMPLETE \<Rightarrow> Inr (refused ''inventory_index_incomplete'')
                | STALE \<Rightarrow> Inr (refused ''inventory_index_stale'')
                | UNKNOWN_AGE \<Rightarrow> Inr (refused ''inventory_index_unknown'')
                | FRESH \<Rightarrow>
                    (case check_inventory (pg_text g) sn p of
                       Inl e \<Rightarrow> Inl e
                     | Inr d \<Rightarrow>
                         if d = DEC_EXACT
                         then Inr \<lparr>pc_allowed = False, pc_code = ''inventory_exact_duplicate'', pc_decision = Some d\<rparr>
                         else check_libraries g view clk p libs
                                (if d \<in> needs_review then Some d else review) (k + 3)))))"

definition guard_check ::
  "push_guard \<Rightarrow> (nat \<Rightarrow> store) \<Rightarrow> (nat \<Rightarrow> time) \<Rightarrow> guard_resource list \<Rightarrow> pystr option
    \<Rightarrow> inventory_error + push_check" where
  "guard_check g view clk rs resource_id =
     (case (case resource_id of None \<Rightarrow> None | Some i \<Rightarrow> row_of gr_id i rs) of
        None \<Rightarrow> Inr (refused ''resource_not_found'')
      | Some r \<Rightarrow>
          if gr_kind r \<noteq> ''magnet''
          then Inr \<lparr>pc_allowed = True, pc_code = ''not_applicable'', pc_decision = None\<rparr>
          else
            (let libs = enabled_libraries (view 0) in
             if libs = [] then Inr (refused ''inventory_scope_unconfigured'')
             else check_libraries g view clk (resource_probe r) libs None 1))"

text \<open>What the worker sees of it: an exception of the guard is \<open>None\<close>.\<close>

definition guard_gate ::
  "push_guard \<Rightarrow> (nat \<Rightarrow> store) \<Rightarrow> (nat \<Rightarrow> time) \<Rightarrow> guard_resource list \<Rightarrow> pystr option \<Rightarrow> gate option" where
  "guard_gate g view clk rs resource_id =
     (case guard_check g view clk rs resource_id of
        Inl _ \<Rightarrow> None
      | Inr c \<Rightarrow> Some \<lparr>gate_allowed = pc_allowed c, gate_code = lit (pc_code c)\<rparr>)"

end
