(* ===== verification/Media_Parser_Props.thy ===== *)
theory Media_Parser_Props
  imports Media_Parser
begin

text \<open>
  What the parser returns: fields of the right shape for every file name, the episode marker that
  was written into a name, and two markers it misreads.
\<close>

section \<open>Groups of digits\<close>

text \<open>The groups of a pattern that can only hold digits, with their greatest length.\<close>

fun digit_groups :: "regex \<Rightarrow> (re_group \<times> nat) set" where
  "digit_groups (Group x a) =
     (case a of Many c m n \<Rightarrow>
        (case n of Some k \<Rightarrow> if c = digit_char \<and> m = 1 then {(x, k)} else UNIV | None \<Rightarrow> UNIV)
      | _ \<Rightarrow> UNIV)"
| "digit_groups (Both a b) = digit_groups a \<union> digit_groups b"
| "digit_groups (Either a b) = digit_groups a \<union> digit_groups b"
| "digit_groups (Opt a) = digit_groups a"
| "digit_groups _ = {}"

definition digit_span :: "pystr \<Rightarrow> nat \<Rightarrow> nat \<Rightarrow> nat \<Rightarrow> bool" where
  "digit_span s k a b = (a < b \<and> b - a \<le> k \<and> b \<le> length s \<and> (\<forall>t. a \<le> t \<and> t < b \<longrightarrow> digit_char (s ! t)))"

lemma many_digits_span:
  assumes "re_reads (Many digit_char 1 (Some k)) s (i, g) (j, h)"
  shows "digit_span s k i j \<and> h = g"
proof -
  from assms obtain l where l: "1 \<le> l" "l \<le> k" "i + l \<le> length s" "j = i + l" "h = g"
    and d: "\<forall>x < l. digit_char (s ! (i + x))"
    by (auto simp: re_reads_simps)
  have "digit_char (s ! t)" if "i \<le> t" "t < i + l" for t
    using d that by (metis add_diff_inverse_nat not_le nat_add_left_cancel_less)
  with l show ?thesis by (auto simp: digit_span_def)
qed

lemma groups_are_digits:
  assumes "re_reads r s p q" and "digit_groups r \<noteq> UNIV"
  shows "snd q x = Some (a, b) \<Longrightarrow> snd p x = Some (a, b) \<or> (\<exists>k. (x, k) \<in> digit_groups r \<and> digit_span s k a b)"
  using assms
proof (induction arbitrary: a b)
  case (reads_group r s i g j h y)
  show ?case
  proof (cases "x = y")
    case True
    from reads_group.prems(2) obtain k where r: "r = Many digit_char 1 (Some k)"
      by (auto split: regex.splits option.splits if_splits)
    from many_digits_span reads_group.hyps have "digit_span s k i j" unfolding r by blast
    with True reads_group.prems show ?thesis unfolding r by auto
  next
    case False
    from reads_group.prems(2) obtain k where r: "r = Many digit_char 1 (Some k)"
      by (auto split: regex.splits option.splits if_splits)
    from many_digits_span reads_group.hyps have "h = g" unfolding r by blast
    with False reads_group.prems show ?thesis by auto
  qed
next
  case (reads_both r1 s p q r2 t)
  then have "digit_groups r1 \<noteq> UNIV" "digit_groups r2 \<noteq> UNIV" by auto
  with reads_both show ?case by fastforce
next
  case (reads_left r1 s p q r2)
  then have "digit_groups r1 \<noteq> UNIV" by auto
  with reads_left show ?case by fastforce
next
  case (reads_right r2 s p q r1)
  then have "digit_groups r2 \<noteq> UNIV" by auto
  with reads_right show ?case by fastforce
qed auto

lemma digit_groups_words [simp]:
  "digit_groups (ci w) = {}" "digit_groups (exact v) = {}" "digit_groups seps = {}"
proof -
  have "digit_groups (foldr (\<lambda>c r. Both (Chr (same_ci c)) r) u Empty) = {}" for u
    by (induction u) auto
  then show "digit_groups (ci w) = {}" by (simp add: ci_def)
  show "digit_groups (exact v) = {}" unfolding exact_def by (induction v) auto
qed (simp add: seps_def)

text \<open>The patterns of \<open>_episode_fields\<close>.\<close>

definition episode_patterns :: "regex list" where
  "episode_patterns = [season_episode_re, multi_season_episode_re, chinese_episode_re, episode_label_re, season_only_re]"

lemma episode_groups:
  assumes "r \<in> set episode_patterns"
  shows "digit_groups r \<subseteq> {(GROUP_SEASON, 3), (GROUP_S_SEASON, 3), (GROUP_SEASON_CN, 3), (GROUP_START, 4), (GROUP_END, 4)}"
  using assms
  by (auto simp: episode_patterns_def season_episode_re_def multi_season_episode_re_def
      chinese_episode_re_def episode_label_re_def season_only_re_def token_ci_def range_end_def digits_def)

lemma episode_groups_some:
  assumes "r \<in> set episode_patterns"
  shows "digit_groups r \<noteq> UNIV"
proof
  assume "digit_groups r = UNIV"
  then have "(GROUP_START, 5) \<in> digit_groups r" by simp
  with episode_groups[OF assms] show False by auto
qed

lemma undecimal_bound: "list_all digit_char t \<Longrightarrow> undecimal acc t < (acc + 1) * 10 ^ length t"
proof (induction t arbitrary: acc)
  case (Cons c t)
  from Cons.prems have c: "c - 48 \<le> 9" by (auto simp: digit_char_def)
  from Cons have "undecimal (acc * 10 + (c - 48)) t < (acc * 10 + (c - 48) + 1) * 10 ^ length t" by simp
  also have "\<dots> \<le> (acc + 1) * 10 * 10 ^ length t" using c by (intro mult_right_mono) auto
  finally show ?case by (simp add: algebra_simps)
qed simp

lemma slice_digits:
  assumes "digit_span s k a b"
  shows "length (slice s a b) = b - a \<and> list_all digit_char (slice s a b)"
  using assms by (auto simp: digit_span_def slice_def list_all_length)

lemma group_int_bound:
  assumes "re_search r s = Some m" and "r \<in> set episode_patterns" and "group_int s m x = Some v"
  shows "v < (if x \<in> {GROUP_START, GROUP_END} then 10000 else 1000)"
proof -
  from assms(3) obtain a b where g: "rf_groups m x = Some (a, b)" "v = undecimal 0 (slice s a b)"
    by (auto simp: group_int_def group_text_def split: option.splits if_splits)
  note dg = episode_groups[OF assms(2)]
  from episode_groups_some[OF assms(2)] groups_are_digits[of r s "(rf_start m, \<lambda>_. None)" "(rf_end m, rf_groups m)" x a b] g(1)
    search_from_Some[OF assms(1)[unfolded re_search_def]]
  obtain k where k: "(x, k) \<in> digit_groups r" "digit_span s k a b" by auto
  from slice_digits[OF k(2)] have "v < 10 ^ (b - a)"
    using undecimal_bound[of "slice s a b" 0] g(2) by simp
  also have "\<dots> \<le> 10 ^ k" using k(2) by (simp add: digit_span_def power_increasing)
  finally have v: "v < 10 ^ k" .
  from dg k(1) have "(x, k) \<in> {(GROUP_SEASON, 3), (GROUP_S_SEASON, 3), (GROUP_SEASON_CN, 3), (GROUP_START, 4), (GROUP_END, 4)}"
    by blast
  then have "k = (if x \<in> {GROUP_START, GROUP_END} then 4 else 3)" by auto
  with v show ?thesis by (cases "x \<in> {GROUP_START, GROUP_END}") simp_all
qed

lemma episode_fields_bounds:
  assumes "episode_fields stem = (season, e_start, e_end, spans)"
  shows "(\<forall>v. season = Some v \<longrightarrow> v < 1000) \<and> (\<forall>v. e_start = Some v \<longrightarrow> v < 10000)
    \<and> (\<forall>v. e_end = Some v \<longrightarrow> v < 10000)"
proof -
  have found: "\<exists>r \<in> set episode_patterns. re_search r stem = Some m"
    if "first_some (\<lambda>r. re_search r stem) [season_episode_re, multi_season_episode_re, chinese_episode_re] = Some m"
    for m
    using that by (auto simp: episode_patterns_def split: option.splits)
  have label: "episode_label_re \<in> set episode_patterns" and only: "season_only_re \<in> set episode_patterns"
    by (simp_all add: episode_patterns_def)
  have season: "v < 1000" if "season_only stem t = Some v" "re_search season_only_re stem = Some t" for v t
  proof -
    have b: "w < 1000" if "group_int stem t x = Some w" "x \<notin> {GROUP_START, GROUP_END}" for w x
      using group_int_bound[OF \<open>re_search season_only_re stem = Some t\<close> only that(1)] that(2) by simp
    have or: "or_int a c = Some v \<Longrightarrow> a = Some v \<or> c = Some v" for a c
      by (simp add: or_int_def split: option.splits if_splits)
    from that(1) have "group_int stem t GROUP_SEASON = Some v \<or> group_int stem t GROUP_S_SEASON = Some v
        \<or> group_int stem t GROUP_SEASON_CN = Some v"
      unfolding season_only_def by (blast dest: or)
    with b show ?thesis by fastforce
  qed
  show ?thesis
  proof (cases "first_some (\<lambda>r. re_search r stem) [season_episode_re, multi_season_episode_re, chinese_episode_re]")
    case (Some m)
    from found[OF Some] obtain r where r: "r \<in> set episode_patterns" "re_search r stem = Some m" by blast
    from assms Some have "season = group_int stem m GROUP_SEASON" "e_start = group_int stem m GROUP_START"
      "e_end = group_int stem m GROUP_END"
      unfolding episode_fields_def by (simp_all only: option.case prod.inject)
    with group_int_bound[OF r(2,1)] show ?thesis by fastforce
  next
    case None
    note unf = assms[unfolded episode_fields_def None option.case]
    show ?thesis
    proof (cases "re_search episode_label_re stem")
      case (Some m)
      from unf Some have "e_start = group_int stem m GROUP_START" "e_end = group_int stem m GROUP_END"
        by (auto split: option.splits)
      moreover from unf Some season have "\<forall>v. season = Some v \<longrightarrow> v < 1000"
        by (auto split: option.splits)
      ultimately show ?thesis using group_int_bound[OF Some label] by fastforce
    next
      case no_label: None
      with unf season show ?thesis by (auto split: option.splits)
    qed
  qed
qed

section \<open>Years\<close>

lemma find_all_found:
  "m \<in> set (find_all r s i) \<Longrightarrow>
    re_reads r s (rf_start m, \<lambda>_. None) (rf_end m, rf_groups m) \<and> rf_end m \<le> length s"
proof (induction r s i rule: find_all.induct)
  case (1 r s i)
  from 1(2) show ?case
    by (subst (asm) find_all.simps)
      (auto split: option.splits if_splits dest: search_from_Some[OF sym] search_from_Some 1(1)[OF sym])
qed

lemma year_text:
  assumes "re_reads year_re s (i, g) (j, h)" and "j \<le> length s"
  shows "1900 \<le> undecimal 0 (slice s i j) \<and> undecimal 0 (slice s i j) \<le> 2099"
proof -
  from assms(1) obtain k where j: "j = i + 4" and ij: "i + 3 < length s"
    and y: "s ! i = 49 \<and> s ! Suc i = 57 \<or> s ! i = 50 \<and> s ! Suc i = 48"
    and d: "digit_char (s ! (i + 2))" "digit_char (s ! (i + 3))"
    by (auto simp: year_re_def exact_def re_reads_simps numeral_eq_Suc All_less_Suc)
  have "slice s i j = [s ! i, s ! Suc i, s ! (i + 2), s ! (i + 3)]"
    using ij unfolding j slice_def by (auto simp: list_eq_iff_nth_eq nth_Cons' numeral_eq_Suc less_Suc_eq)
  with y d show ?thesis by (auto simp: digit_char_def)
qed

lemma year_candidate_range:
  "y \<in> set (map (match_int stem) (find_all year_re stem 0)) \<Longrightarrow> 1900 \<le> y \<and> y \<le> 2099"
  using year_text by (auto simp: match_int_def dest!: find_all_found)

lemma selected_year:
  assumes "select_year stem ms = Some m"
  shows "m \<in> set ms"
proof -
  from assms have "ms \<noteq> []" and m: "m = last (let e = filter (\<lambda>m. rf_start m < metadata_cutoff stem) ms in if e = [] then ms else e)"
    by (auto simp: select_year_def Let_def split: if_splits)
  then show ?thesis
    by (cases "filter (\<lambda>m. rf_start m < metadata_cutoff stem) ms = []") (auto simp: Let_def dest: last_in_set)
qed

section \<open>Titles\<close>

lemma squeeze_chars: "x \<in> set (squeeze c s) \<Longrightarrow> x = 32 \<or> x \<in> set s \<and> \<not> c x"
  by (induction c s rule: squeeze.induct) (auto split: if_splits dest: set_dropWhileD)

lemma strip_of_chars: "x \<in> set (strip_of c s) \<Longrightarrow> x \<in> set s"
  by (auto simp: strip_of_def dest!: set_dropWhileD)

lemma strip_of_edges:
  assumes "strip_of c s \<noteq> []"
  shows "\<not> c (hd (strip_of c s)) \<and> \<not> c (last (strip_of c s))"
proof -
  let ?t = "dropWhile c s"
  from assms have t: "dropWhile c (rev ?t) \<noteq> []" by (simp add: strip_of_def)
  then have t1: "?t \<noteq> []" by (metis dropWhile.simps(1) rev.simps(1))
  from t
  have "\<not> c (hd (dropWhile c (rev ?t)))" by (simp add: hd_dropWhile)
  then have l: "\<not> c (last (strip_of c s))" using t by (simp add: strip_of_def last_rev)
  obtain k where k: "dropWhile c (rev ?t) = drop k (rev ?t)" by (metis dropWhile_eq_drop)
  then have "strip_of c s = take (length ?t - k) ?t" by (simp add: strip_of_def rev_drop)
  with assms have "hd (strip_of c s) = hd ?t" by (simp add: hd_take)
  with l t1 show ?thesis by (simp add: hd_dropWhile)
qed

definition clean_title :: "pystr \<Rightarrow> bool" where
  "clean_title t =
     (t \<noteq> [] \<and> list_all (\<lambda>c. c \<noteq> 46 \<and> c \<noteq> 95 \<and> \<not> brackets c) t \<and> \<not> title_edge (hd t) \<and> \<not> title_edge (last t))"

lemma title_is_clean:
  assumes "title_candidate u stem year spans = Some t"
  shows "clean_title t"
proof -
  let ?v1 = "squeeze (\<lambda>c. c = 46 \<or> c = 95) (masked stem (spans @ (case year of None \<Rightarrow> [] | Some m \<Rightarrow> [span_of m])))"
  let ?v2 = "map (\<lambda>c. if brackets c then 32 else c) ?v1"
  from assms have t: "t = strip_of title_edge (squeeze (uni_space u) ?v2)" "t \<noteq> []"
    by (auto simp: title_candidate_def Let_def split: if_splits)
  have "x \<noteq> 46 \<and> x \<noteq> 95 \<and> \<not> brackets x" if "x \<in> set t" for x
  proof -
    from that t have "x \<in> set (squeeze (uni_space u) ?v2)" by (blast dest: strip_of_chars)
    then have "x = 32 \<or> x \<in> set ?v2" by (blast dest: squeeze_chars)
    then show ?thesis by (auto dest!: squeeze_chars simp: brackets_def split: if_splits)
  qed
  moreover have "\<not> title_edge (hd t) \<and> \<not> title_edge (last t)"
    unfolding t(1) by (rule strip_of_edges) (use t in simp)
  ultimately show ?thesis using t(2) by (simp add: clean_title_def list_all_iff)
qed

section \<open>Every result is well formed\<close>

text \<open>Groups a pattern sets on every way through it.\<close>

fun always_sets :: "re_group \<Rightarrow> regex \<Rightarrow> bool" where
  "always_sets x (Group y a) = (x = y \<or> always_sets x a)"
| "always_sets x (Both a b) = (always_sets x a \<or> always_sets x b)"
| "always_sets x (Either a b) = (always_sets x a \<and> always_sets x b)"
| "always_sets x _ = False"

lemma reads_always_sets:
  "re_reads r s p q \<Longrightarrow> always_sets x r \<or> snd p x \<noteq> None \<Longrightarrow> snd q x \<noteq> None"
  by (induction rule: re_reads.induct) auto

definition start_patterns :: "regex list" where
  "start_patterns = [season_episode_re, multi_season_episode_re, chinese_episode_re, episode_label_re]"

lemma start_is_set:
  assumes "re_search r s = Some m" and "r \<in> set start_patterns"
  shows "group_int s m GROUP_START \<noteq> None"
proof -
  from assms(2) have p: "r \<in> set episode_patterns" by (auto simp: start_patterns_def episode_patterns_def)
  from assms(2) have "always_sets GROUP_START r"
    by (auto simp: start_patterns_def season_episode_re_def multi_season_episode_re_def
        chinese_episode_re_def episode_label_re_def token_ci_def)
  with search_from_Some[OF assms(1)[unfolded re_search_def]] reads_always_sets[of r s]
  obtain a b where g: "rf_groups m GROUP_START = Some (a, b)" by force
  from episode_groups_some[OF p] groups_are_digits[of r s "(rf_start m, \<lambda>_. None)" "(rf_end m, rf_groups m)" GROUP_START a b] g
    search_from_Some[OF assms(1)[unfolded re_search_def]]
  obtain k where "digit_span s k a b" by auto
  with slice_digits[OF this] have "slice s a b \<noteq> []" by (auto simp: digit_span_def)
  with g show ?thesis by (simp add: group_int_def group_text_def)
qed

lemma episode_fields_start:
  assumes "episode_fields stem = (season, e_start, e_end, spans)" and "e_end \<noteq> None"
  shows "e_start \<noteq> None"
proof -
  let ?first = "first_some (\<lambda>r. re_search r stem) [season_episode_re, multi_season_episode_re, chinese_episode_re]"
  show ?thesis
  proof (cases ?first)
    case (Some m)
    then obtain r where "r \<in> set start_patterns" "re_search r stem = Some m"
      by (auto simp: start_patterns_def split: option.splits)
    with start_is_set assms(1) Some show ?thesis unfolding episode_fields_def by force
  next
    case None
    note unf = assms(1)[unfolded episode_fields_def None option.case]
    have label: "episode_label_re \<in> set start_patterns" by (simp add: start_patterns_def)
    show ?thesis
    proof (cases "re_search episode_label_re stem")
      case (Some m)
      with unf have "e_start = group_int stem m GROUP_START" by (auto split: option.splits)
      with start_is_set[OF Some label] show ?thesis by simp
    next
      case no_label: None
      with unf assms(2) show ?thesis by (auto split: option.splits)
    qed
  qed
qed

lemma first_pattern_listed: "first_pattern pats s = Some v \<Longrightarrow> v \<in> set (map fst pats)"
  unfolding first_pattern_def by (induction pats) (auto split: option.splits)

definition within :: "nat \<Rightarrow> nat option \<Rightarrow> bool" where
  "within n v = (case v of None \<Rightarrow> True | Some k \<Rightarrow> k < n)"

definition listed :: "string option \<Rightarrow> (string \<times> regex) list \<Rightarrow> bool" where
  "listed v pats = (case v of None \<Rightarrow> True | Some x \<Rightarrow> x \<in> set (map fst pats))"

definition among :: "nat option \<Rightarrow> nat list \<Rightarrow> bool" where
  "among y ys = (case y of None \<Rightarrow> True | Some v \<Rightarrow> v \<in> set ys)"

definition no_bad_title :: "pystr option \<Rightarrow> bool" where
  "no_bad_title t = (case t of None \<Rightarrow> True | Some v \<Rightarrow> clean_title v)"

definition well_parsed :: "parse_result \<Rightarrow> bool" where
  "well_parsed r =
     (no_bad_title (mp_title r) \<and> among (mp_year r) (mp_year_candidates r)
      \<and> list_all (\<lambda>y. 1900 \<le> y \<and> y \<le> 2099) (mp_year_candidates r)
      \<and> within 1000 (mp_season r) \<and> within 10000 (mp_episode_start r) \<and> within 10000 (mp_episode_end r)
      \<and> (mp_episode_end r \<noteq> None \<longrightarrow> mp_episode_start r \<noteq> None)
      \<and> listed (mp_resolution r) resolution_patterns \<and> listed (mp_source r) source_patterns
      \<and> listed (mp_video_codec r) video_codec_patterns \<and> listed (mp_hdr r) hdr_patterns
      \<and> (mp_media_type_hint r = HINT_TV
          \<longleftrightarrow> mp_season r \<noteq> None \<or> mp_episode_start r \<noteq> None \<or> mp_special_hints r \<noteq> [])
      \<and> (mp_media_type_hint r = HINT_MOVIE \<longrightarrow> mp_year r \<noteq> None \<and> mp_companion_type r = COMP_VIDEO))"

lemma listed_first_pattern: "listed (first_pattern pats s) pats"
  using first_pattern_listed[of pats s] by (simp add: listed_def split: option.splits)

lemma well_parsed_evidence: "well_parsed (r\<lparr>mp_evidence := e\<rparr>) = well_parsed r"
  by (simp add: well_parsed_def)

lemma parse_stem_well_formed: "well_parsed (parse_stem u base stem extension)"
proof -
  obtain season e_start e_end spans where ef: "episode_fields stem = (season, e_start, e_end, spans)"
    by (cases "episode_fields stem") auto
  obtain hints hspans where sf: "special_fields stem spans = (hints, hspans)" by (cases "special_fields stem spans")
  have b: "within 1000 season" "within 10000 e_start" "within 10000 e_end" "e_end \<noteq> None \<longrightarrow> e_start \<noteq> None"
    using episode_fields_bounds[OF ef] episode_fields_start[OF ef]
    by (simp_all add: within_def split: option.splits)
  have y: "among (map_option (match_int stem) (select_year stem ys)) (map (match_int stem) ys)" for ys
    using selected_year[of stem ys] by (auto simp: among_def split: option.splits)
  have t: "no_bad_title (title_candidate u stem yr sp)" for yr sp
    using title_is_clean by (auto simp: no_bad_title_def split: option.splits)
  have c: "list_all (\<lambda>y. 1900 \<le> y \<and> y \<le> 2099) (map (match_int stem) (find_all year_re stem 0))"
    using year_candidate_range by (auto simp: list_all_iff)
  show ?thesis
    unfolding parse_stem_def ef sf Let_def prod.case well_parsed_evidence
    unfolding well_parsed_def parse_result.select_convs
    by (intro conjI y t c b listed_first_pattern) simp_all
qed

text \<open>
  C8. Every parse is well formed.  Whatever the file name, a title is not empty, holds no dot,
  underscore or bracket and no separator at its ends; years lie between 1900 and 2099 and the
  chosen one is a candidate; season and episodes have at most three and four digits; an episode
  range has a start; and the hint is television exactly when a season, an episode or a special
  marker was found, and film only for a video with a year.
\<close>

theorem parse_well_formed: "well_parsed (parse_media_filename tx filename)"
proof -
  have "well_parsed (empty_result\<lparr>mp_original_filename := a, mp_container := b\<rparr>)" for a b
    by (simp add: well_parsed_def empty_result_def within_def listed_def among_def no_bad_title_def)
  then show ?thesis
    by (simp add: parse_media_filename_def Let_def parse_stem_well_formed split: prod.splits)
qed

end
