(* ===== verification/Media_Parser_Markers.thy ===== *)
theory Media_Parser_Markers
  imports Media_Parser_Props
begin

text \<open>
  Episode markers: a marker written into a file name is read back, and a year that follows the
  marker is read as the last episode.
\<close>

section \<open>The preferred way\<close>

text \<open>The preferred way through a pattern, built up along the text.\<close>

definition re_first :: "regex \<Rightarrow> pystr \<Rightarrow> nat \<times> re_groups \<Rightarrow> (nat \<times> re_groups) option" where
  "re_first r s p = (case re_match r s p of [] \<Rightarrow> None | q # _ \<Rightarrow> Some q)"

lemma match_at_first:
  "re_first r s (i, \<lambda>_. None) = Some (j, g) \<Longrightarrow> match_at r s i = Some \<lparr>rf_start = i, rf_end = j, rf_groups = g\<rparr>"
  by (simp add: re_first_def match_at_def split: list.splits)

lemma first_both:
  "re_first a s p = Some q \<Longrightarrow> re_first b s q = Some r \<Longrightarrow> re_first (Both a b) s p = Some r"
  by (auto simp: re_first_def split: list.splits)

lemma first_empty: "re_first Empty s p = Some p"
  by (cases p) (simp add: re_first_def)

lemma first_chr: "drop i s = x # t \<Longrightarrow> c x \<Longrightarrow> re_first (Chr c) s (i, g) = Some (Suc i, g)"
  using nth_via_drop[of i s x t] by (cases "i < length s") (auto simp: re_first_def)

lemma first_ci: "drop i s = x # t \<Longrightarrow> same_ci (of_char a) x \<Longrightarrow> re_first (ci [a]) s (i, g) = Some (Suc i, g)"
  by (auto simp: ci_def intro!: first_both first_empty first_chr)

lemma first_many:
  assumes "drop i s = w @ t" and "list_all c w" and "t = [] \<or> \<not> c (hd t) \<or> n = Some (length w)"
    and "case n of None \<Rightarrow> True | Some k \<Rightarrow> length w \<le> k" and "m \<le> length w"
  shows "re_first (Many c m n) s (i, g) = Some (i + length w, g)"
proof -
  let ?n = "at_most n s i"
  have "length (drop i s) = length w + length t" using assms(1) by simp
  then have n: "length w \<le> ?n" using assms(4) by (auto simp: at_most_def split: option.splits)
  have "length w \<le> run_length c ?n (w @ t)"
    using n assms(2) by (simp add: run_length_iff)
  moreover have "\<not> Suc (length w) \<le> run_length c ?n (w @ t)"
  proof
    assume "Suc (length w) \<le> run_length c ?n (w @ t)"
    then have "Suc (length w) \<le> ?n" "t \<noteq> []" "list_all c (take (Suc (length w)) (w @ t))"
      by (auto simp: run_length_iff)
    with assms(3) show False by (cases t) (auto simp: at_most_def)
  qed
  ultimately have "run_length c ?n (drop i s) = length w" unfolding assms(1) by simp
  with assms(5) show ?thesis by (simp add: re_first_def)
qed

lemma first_not_behind: "i = 0 \<or> \<not> c (s ! (i - 1)) \<Longrightarrow> re_first (NotBehind c) s (i, g) = Some (i, g)"
  by (auto simp: re_first_def)

lemma first_not_ahead:
  "drop i s = t \<Longrightarrow> t = [] \<or> \<not> c (hd t) \<Longrightarrow> re_first (NotAhead c) s (i, g) = Some (i, g)"
  by (auto simp: re_first_def hd_drop_conv_nth)

lemma first_opt_some: "re_first a s p = Some q \<Longrightarrow> re_first (Opt a) s p = Some q"
  by (auto simp: re_first_def split: list.splits)

lemma first_opt_none: "re_match a s p = [] \<Longrightarrow> re_first (Opt a) s p = Some p"
  by (simp add: re_first_def)

lemma first_group:
  "re_first a s (i, g) = Some (j, h) \<Longrightarrow> re_first (Group x a) s (i, g) = Some (j, h(x := Some (i, j)))"
  by (auto simp: re_first_def split: list.splits)

lemma drop_past: "drop i s = w @ t \<Longrightarrow> drop (i + length w) s = t"
  by (metis add.commute append_eq_conv_conj drop_drop)

lemma slice_at: "drop i s = w @ t \<Longrightarrow> slice s i (i + length w) = w"
  by (simp add: slice_def)

lemma re_match_nothing: "(\<And>q. \<not> re_reads r s p q) \<Longrightarrow> re_match r s p = []"
  using re_match_reads[of r s p] by auto

section \<open>Season and episode\<close>

definition digits_up_to :: "nat \<Rightarrow> pystr \<Rightarrow> bool" where
  "digits_up_to n w = (w \<noteq> [] \<and> length w \<le> n \<and> list_all digit_char w)"

lemma first_digits:
  assumes "drop i s = w @ t" and "digits_up_to n w" and "t = [] \<or> \<not> digit_char (hd t) \<or> length w = n"
  shows "re_first (digits n) s (i, g) = Some (i + length w, g)"
  unfolding digits_def
  by (rule first_many[OF assms(1)]) (use assms(2,3) in \<open>auto simp: digits_up_to_def Suc_le_eq\<close>)

definition marker_groups :: "nat \<Rightarrow> pystr \<Rightarrow> pystr \<Rightarrow> re_groups" where
  "marker_groups i ds de =
     (\<lambda>_. None)(GROUP_SEASON := Some (Suc i, Suc i + length ds),
                GROUP_START := Some (Suc (Suc i + length ds), Suc (Suc i + length ds) + length de))"

lemma marker_match:
  assumes stem: "drop i s = [83] @ ds @ [69] @ de @ rest"
    and behind: "i = 0 \<or> \<not> alnum_ci (s ! (i - 1))"
    and ds: "digits_up_to 3 ds" and de: "digits_up_to 4 de" "rest = [] \<or> \<not> digit_char (hd rest) \<or> length de = 4"
    and range: "re_first range_end s (Suc (Suc i + length ds) + length de, marker_groups i ds de) = Some (j, g)"
    and ahead: "drop j s = [] \<or> \<not> alnum_ci (hd (drop j s))"
  shows "match_at season_episode_re s i = Some \<lparr>rf_start = i, rf_end = j, rf_groups = g\<rparr>"
proof (rule match_at_first)
  let ?g0 = "\<lambda>_. None" and ?k = "Suc i + length ds" and ?l = "Suc (Suc i + length ds) + length de"
  let ?g1 = "?g0(GROUP_SEASON := Some (Suc i, ?k))"
  have d1: "drop (Suc i) s = ds @ [69] @ de @ rest" using drop_past[OF stem] by simp
  have d2: "drop ?k s = [69] @ de @ rest" by (rule drop_past[OF d1])
  have d3: "drop (Suc ?k) s = de @ rest" using drop_past[OF d2] by simp
  have nd: "\<not> digit_char 69" "\<not> sep_char 69" by (simp_all add: digit_char_def sep_char_def)
  have a0: "re_first (NotBehind alnum_ci) s (i, ?g0) = Some (i, ?g0)"
    using behind by (intro first_not_behind) simp
  have a1: "re_first (ci ''S'') s (i, ?g0) = Some (Suc i, ?g0)"
    using stem by (auto intro!: first_ci simp: same_ci_def)
  have a2: "re_first (Group GROUP_SEASON (digits 3)) s (Suc i, ?g0) = Some (?k, ?g1)"
    using first_digits[OF d1 ds] nd by (intro first_group) simp
  have a3: "re_first seps s (?k, ?g1) = Some (?k, ?g1)"
    unfolding seps_def using first_many[of ?k s "[]" "[69] @ de @ rest"] d2 nd by simp
  have a4: "re_first (ci ''E'') s (?k, ?g1) = Some (Suc ?k, ?g1)"
    using d2 by (auto intro!: first_ci simp: same_ci_def)
  have a5: "re_first (Group GROUP_START (digits 4)) s (Suc ?k, ?g1) = Some (?l, marker_groups i ds de)"
    unfolding marker_groups_def by (rule first_group, rule first_digits[OF d3 de])
  have a6: "re_first (NotAhead alnum_ci) s (j, g) = Some (j, g)"
    using ahead by (intro first_not_ahead[OF refl]) simp
  have inner: "re_first (in_order [ci ''S'', Group GROUP_SEASON (digits 3), seps, ci ''E'',
      Group GROUP_START (digits 4), range_end]) s (i, ?g0) = Some (j, g)"
    unfolding in_order.simps
    by (rule first_both[OF a1 first_both[OF a2 first_both[OF a3 first_both[OF a4
        first_both[OF a5 first_both[OF range first_empty]]]]]])
  show "re_first season_episode_re s (i, ?g0) = Some (j, g)"
    unfolding season_episode_re_def token_ci_def in_order.simps(2)[of "NotBehind alnum_ci"]
    by (rule first_both[OF a0]) (simp only: in_order.simps(2)[of _ "[NotAhead alnum_ci]"] in_order.simps(2)[of "NotAhead alnum_ci"]
        in_order.simps(1) first_both[OF inner first_both[OF a6 first_empty]])
qed

text \<open>No reading starts where the next character is not a digit.\<close>

lemma marker_needs_digit:
  assumes "re_reads season_episode_re s (i, g) q"
  shows "Suc i < length s \<and> digit_char (s ! Suc i)"
proof -
  from assms obtain k where "1 \<le> k" "Suc i + k \<le> length s \<or> k = 0" "\<forall>x < k. digit_char (s ! (Suc i + x))"
    unfolding season_episode_re_def token_ci_def digits_def
    by (auto simp: re_reads_simps ci_def)
  then show ?thesis by (auto dest: spec[of _ 0])
qed

lemma marker_search:
  assumes stem: "s = pre @ [83] @ t" and pre: "list_all (\<lambda>c. \<not> digit_char c) pre"
    and found: "match_at season_episode_re s (length pre) = Some m"
  shows "re_search season_episode_re s = Some m"
proof -
  have "\<not> digit_char (s ! Suc i)" if "i < length pre" for i
    using that pre unfolding stem
    by (cases "Suc i < length pre") (auto simp: nth_append list_all_length digit_char_def not_less_eq less_Suc_eq)
  then have "match_at season_episode_re s i = None" if "i < length pre" for i
    using marker_needs_digit that unfolding match_at_None by blast
  then have none: "first_some (match_at season_episode_re s) [0..<length pre] = None"
    by (simp add: first_some_None)
  have "[0..<Suc (length s)] = [0..<length pre] @ length pre # [Suc (length pre)..<Suc (length s)]"
    using upt_add_eq_append[of 0 "length pre" "Suc (length s) - length pre"]
      upt_conv_Cons[of "length pre" "Suc (length s)"] unfolding stem by simp
  with none found show ?thesis by (simp add: re_search_def search_from_def first_some_append del: upt_Suc)
qed

section \<open>What follows the marker\<close>

text \<open>\<open>stem_of\<close>: what \<open>parse_media_filename\<close> looks the fields up in.\<close>

definition stem_of :: "text_db \<Rightarrow> pystr \<Rightarrow> pystr" where
  "stem_of tx filename =
     fst (split_extension (tx_uni tx) (basename (py_strip (tx_uni tx) (tx_nfkc tx filename))))"

lemma parse_episode_fields:
  assumes "stem_of tx f \<noteq> []" and "episode_fields (stem_of tx f) = (season, e_start, e_end, spans)"
  shows "mp_season (parse_media_filename tx f) = season
    \<and> mp_episode_start (parse_media_filename tx f) = e_start
    \<and> mp_episode_end (parse_media_filename tx f) = e_end
    \<and> (season \<noteq> None \<longrightarrow> mp_media_type_hint (parse_media_filename tx f) = HINT_TV)"
proof -
  let ?b = "basename (py_strip (tx_uni tx) (tx_nfkc tx f))"
  obtain stem extension where se: "split_extension (tx_uni tx) ?b = (stem, extension)"
    by (cases "split_extension (tx_uni tx) ?b")
  with assms have stem: "stem \<noteq> []" "episode_fields stem = (season, e_start, e_end, spans)"
    by (simp_all add: stem_of_def)
  obtain hints hspans where sf: "special_fields stem spans = (hints, hspans)" by (cases "special_fields stem spans")
  have p: "parse_media_filename tx f = parse_stem (tx_uni tx) ?b stem extension"
    using se stem(1) by (simp add: parse_media_filename_def Let_def)
  show ?thesis
    unfolding p parse_stem_def stem(2) sf Let_def prod.case by simp
qed

definition marker_name :: "pystr \<Rightarrow> pystr \<Rightarrow> pystr \<Rightarrow> pystr \<Rightarrow> pystr" where
  "marker_name pre ds de rest = pre @ [83] @ ds @ [69] @ de @ rest"

definition marker_prefix :: "pystr \<Rightarrow> bool" where
  "marker_prefix pre = (list_all (\<lambda>c. \<not> digit_char c) pre \<and> (pre = [] \<or> \<not> alnum_ci (last pre)))"

text \<open>Once the end of the range is known, so are the fields.\<close>

lemma marker_fields:
  assumes stem: "stem_of tx f = marker_name pre ds de rest" and pre: "marker_prefix pre"
    and ds: "digits_up_to 3 ds" and de: "digits_up_to 4 de" "rest = [] \<or> \<not> digit_char (hd rest) \<or> length de = 4"
    and range: "re_first range_end (stem_of tx f) (length pre + length ds + length de + 2,
        marker_groups (length pre) ds de) = Some (j, g)"
    and ahead: "drop j (stem_of tx f) = [] \<or> \<not> alnum_ci (hd (drop j (stem_of tx f)))"
    and kept: "g GROUP_SEASON = marker_groups (length pre) ds de GROUP_SEASON"
      "g GROUP_START = marker_groups (length pre) ds de GROUP_START"
  shows "mp_season (parse_media_filename tx f) = Some (undecimal 0 ds)
    \<and> mp_episode_start (parse_media_filename tx f) = Some (undecimal 0 de)
    \<and> mp_episode_end (parse_media_filename tx f)
        = group_int (stem_of tx f) \<lparr>rf_start = length pre, rf_end = j, rf_groups = g\<rparr> GROUP_END
    \<and> mp_media_type_hint (parse_media_filename tx f) = HINT_TV"
proof -
  let ?s = "stem_of tx f" and ?i = "length pre"
  let ?m = "\<lparr>rf_start = ?i, rf_end = j, rf_groups = g\<rparr>"
  have d0: "drop ?i ?s = [83] @ ds @ [69] @ de @ rest" by (simp add: stem marker_name_def)
  have d1: "drop (Suc ?i) ?s = ds @ [69] @ de @ rest" using drop_past[OF d0] by simp
  have d3: "drop (Suc (Suc ?i + length ds)) ?s = de @ rest"
    using drop_past[OF drop_past[OF d1]] drop_past[of _ ?s "[69]"] drop_past[OF d1] by simp
  have l: "Suc (Suc ?i + length ds) + length de = ?i + length ds + length de + 2" by simp
  have behind: "?i = 0 \<or> \<not> alnum_ci (?s ! (?i - 1))"
    using pre by (auto simp: marker_prefix_def stem marker_name_def nth_append last_conv_nth)
  have "match_at season_episode_re ?s ?i = Some ?m"
    using marker_match[OF d0 behind ds de] range ahead l by simp
  moreover have "?s = pre @ [83] @ (ds @ [69] @ de @ rest)" by (simp add: stem marker_name_def)
  ultimately have found: "re_search season_episode_re ?s = Some ?m"
    using marker_search pre by (simp add: marker_prefix_def)
  have "group_int ?s ?m GROUP_SEASON = Some (undecimal 0 ds)" "group_int ?s ?m GROUP_START = Some (undecimal 0 de)"
    using slice_at[OF d1] slice_at[OF d3] ds de(1) kept
    by (simp_all add: group_int_def group_text_def marker_groups_def digits_up_to_def)
  then have "episode_fields ?s
      = (Some (undecimal 0 ds), Some (undecimal 0 de), group_int ?s ?m GROUP_END, [span_of ?m])"
    by (simp add: episode_fields_def found)
  moreover have "?s \<noteq> []" by (simp add: stem marker_name_def)
  ultimately show ?thesis using parse_episode_fields[of tx f] by simp
qed

text \<open>
  A range follows when, past any separators, there is a digit, or an \<open>E\<close> or \<open>EP\<close> and then a digit.
\<close>

definition starts_digit :: "pystr \<Rightarrow> bool" where
  "starts_digit t = (t \<noteq> [] \<and> digit_char (hd t))"

definition number_follows :: "pystr \<Rightarrow> bool" where
  "number_follows t =
     (let u = dropWhile sep_char t in
      starts_digit u
      \<or> (u \<noteq> [] \<and> same_ci 69 (hd u)
          \<and> (starts_digit (tl u) \<or> (tl u \<noteq> [] \<and> same_ci 80 (hd (tl u)) \<and> starts_digit (tl (tl u))))))"

definition no_range :: "pystr \<Rightarrow> bool" where
  "no_range rest = ((rest = [] \<or> \<not> alnum_ci (hd rest)) \<and> \<not> number_follows rest)"

lemma dropWhile_at:
  assumes "k < length t" and "\<forall>x < k. c (t ! x)" and "\<not> c (t ! k)"
  shows "dropWhile c t = drop k t"
proof -
  have "takeWhile c t = take k t" using assms by (intro takeWhile_eq_take_P_nth) auto
  then show ?thesis by (metis append_take_drop_id same_append_eq takeWhile_dropWhile_id)
qed

definition char_at :: "pystr \<Rightarrow> nat \<Rightarrow> (nat \<Rightarrow> bool) \<Rightarrow> bool" where
  "char_at s k c = (k < length s \<and> c (s ! k))"

lemma starts_digit_drop: "starts_digit (drop k t) = char_at t k digit_char"
  by (auto simp: starts_digit_def char_at_def hd_drop_conv_nth)

lemma range_inner_reads:
  assumes "re_reads (in_order [seps, Opt (any_of [ci ''E'', ci ''EP'']), Group GROUP_END (digits 4)]) s (i, g) q"
  shows "\<exists>k. (\<forall>x < k. sep_char (s ! (i + x)))
    \<and> (char_at s (i + k) digit_char
       \<or> char_at s (i + k) (same_ci 69) \<and> (char_at s (i + k + 1) digit_char
           \<or> char_at s (i + k + 1) (same_ci 80) \<and> char_at s (i + k + 2) digit_char))"
proof -
  from assms obtain p1 p2 p3 where r: "re_reads seps s (i, g) p1"
    "re_reads (Opt (any_of [ci ''E'', ci ''EP''])) s p1 p2" "re_reads (Group GROUP_END (digits 4)) s p2 p3"
    unfolding in_order.simps re_reads_simps(4) by blast
  from r(1) obtain k where k: "p1 = (i + k, g)" "\<forall>x < k. sep_char (s ! (i + x))"
    by (auto simp: seps_def re_reads_simps(3))
  have digit: "char_at s (fst p2) digit_char"
  proof -
    from r(3) obtain l where "fst p2 + l \<le> length s" "1 \<le> l" "\<forall>x < l. digit_char (s ! (fst p2 + x))"
      by (cases p2) (auto simp: digits_def re_reads_simps)
    then show ?thesis by (auto simp: char_at_def dest: spec[of _ 0])
  qed
  from r(2) k(1) have "p2 = p1
      \<or> char_at s (i + k) (same_ci 69) \<and> (fst p2 = i + k + 1
          \<or> char_at s (i + k + 1) (same_ci 80) \<and> fst p2 = i + k + 2)"
    by (auto simp: re_reads_simps ci_def char_at_def)
  with digit k show ?thesis by (intro exI[of _ k]) auto
qed

lemma no_range_end:
  assumes "drop i s = t" and "i \<le> length s" and "no_range t"
  shows "re_first range_end s (i, g) = Some (i, g)"
  unfolding range_end_def
proof (rule first_opt_none, rule re_match_nothing)
  fix q
  have at: "char_at s (i + x) c = char_at t x c" for x c
    using assms(1,2) by (auto simp: char_at_def)
  show "\<not> re_reads (in_order [seps, Opt (any_of [ci ''E'', ci ''EP'']), Group GROUP_END (digits 4)]) s (i, g) q"
  proof
    assume "re_reads (in_order [seps, Opt (any_of [ci ''E'', ci ''EP'']), Group GROUP_END (digits 4)]) s (i, g) q"
    from range_inner_reads[OF this] obtain k where seps: "\<forall>x < k. sep_char (s ! (i + x))"
      and ahead: "char_at t k digit_char \<or> char_at t k (same_ci 69) \<and> (char_at t (Suc k) digit_char
         \<or> char_at t (Suc k) (same_ci 80) \<and> char_at t (Suc (Suc k)) digit_char)"
      using at by (metis Suc_eq_plus1 add.assoc add_2_eq_Suc')
    then have k: "k < length t" "\<not> sep_char (t ! k)"
      by (auto simp: char_at_def sep_char_def digit_char_def same_ci_def lower_ascii_def)
    have "\<forall>x < k. sep_char (t ! x)" using seps assms(1,2) k(1) by auto
    from dropWhile_at[OF k(1) this k(2)] have u: "dropWhile sep_char t = drop k t" .
    have "tl (drop k t) = drop (Suc k) t" "tl (drop (Suc k) t) = drop (Suc (Suc k)) t"
      by (simp_all add: drop_Suc tl_drop)
    with ahead have "number_follows t"
      unfolding number_follows_def Let_def u
      by (auto simp: starts_digit_drop) (auto simp: char_at_def hd_drop_conv_nth)
    with assms(3) show False by (simp add: no_range_def)
  qed
qed

text \<open>
  C7. An episode marker is read back.  Let the stem of a file name be any text without a digit that
  does not end in a letter, then \<open>S\<close>, one to three digits, \<open>E\<close>, one to four digits, and then
  nothing or a rest that does not begin with a letter or digit and in which, past the separators it
  begins with, neither a number nor an \<open>E\<close> or \<open>EP\<close> with a number follows.  Then the parse has
  exactly this season and this episode, no range, and the hint television, whatever else is in the rest.
\<close>

theorem episode_marker_parsed:
  assumes "stem_of tx f = marker_name pre ds de rest" and "marker_prefix pre"
    and "digits_up_to 3 ds" and "digits_up_to 4 de" and "no_range rest"
  shows "mp_season (parse_media_filename tx f) = Some (undecimal 0 ds)
    \<and> mp_episode_start (parse_media_filename tx f) = Some (undecimal 0 de)
    \<and> mp_episode_end (parse_media_filename tx f) = None
    \<and> mp_media_type_hint (parse_media_filename tx f) = HINT_TV"
proof -
  let ?i = "length pre" and ?j = "length pre + length ds + length de + 2"
  let ?g = "marker_groups (length pre) ds de"
  have rest: "drop ?j (stem_of tx f) = rest" by (simp add: assms(1) marker_name_def)
  have range: "re_first range_end (stem_of tx f) (?j, ?g) = Some (?j, ?g)"
    using assms(5) by (intro no_range_end[OF rest]) (simp_all add: assms(1) marker_name_def)
  have ahead: "drop ?j (stem_of tx f) = [] \<or> \<not> alnum_ci (hd (drop ?j (stem_of tx f)))"
    and next_char: "rest = [] \<or> \<not> digit_char (hd rest) \<or> length de = 4"
    unfolding rest using assms(5) by (auto simp: no_range_def alnum_ci_def alnum_char_def)
  show ?thesis
    using marker_fields[OF assms(1-4) next_char range ahead]
    by (simp add: group_int_def group_text_def marker_groups_def)
qed

text \<open>
  A number after the marker is read as the last episode: when the marker is followed by
  separators and a number of up to four digits, such as the year of the series, the parse has a
  range that ends with this number.
\<close>

lemma number_range_fields:
  assumes "stem_of tx f = marker_name pre ds de (gap @ number @ rest)" and "marker_prefix pre"
    and "digits_up_to 3 ds" and "digits_up_to 4 de"
    and "gap \<noteq> []" "list_all sep_char gap" "digits_up_to 4 number" "rest = [] \<or> \<not> alnum_ci (hd rest)"
  shows "mp_season (parse_media_filename tx f) = Some (undecimal 0 ds)
    \<and> mp_episode_start (parse_media_filename tx f) = Some (undecimal 0 de)
    \<and> mp_episode_end (parse_media_filename tx f) = Some (undecimal 0 number)"
proof -
  let ?s = "stem_of tx f" and ?j = "length pre + length ds + length de + 2"
  let ?g = "marker_groups (length pre) ds de"
  let ?n = "?j + length gap" and ?e = "?j + length gap + length number"
  have d1: "drop ?j ?s = gap @ number @ rest" by (simp add: assms(1) marker_name_def)
  have d2: "drop ?n ?s = number @ rest" by (rule drop_past[OF d1])
  have d3: "drop ?e ?s = rest" by (rule drop_past[OF d2])
  obtain x xs where x: "number = x # xs" "digit_char x" using assms(7) by (cases number) (auto simp: digits_up_to_def)
  have a1: "re_first seps ?s (?j, ?g) = Some (?n, ?g)"
    unfolding seps_def using first_many[OF d1 assms(6)] x by (auto simp: sep_char_def digit_char_def)
  have "\<not> re_reads (any_of [ci ''E'', ci ''EP'']) ?s (?n, ?g) q" for q
  proof -
    have "?s ! ?n = x" using nth_via_drop[of ?n ?s x] d2 x(1) by simp
    then show ?thesis using x(2) by (auto simp: re_reads_simps ci_def same_ci_def digit_char_def lower_ascii_def)
  qed
  then have a2: "re_first (Opt (any_of [ci ''E'', ci ''EP''])) ?s (?n, ?g) = Some (?n, ?g)"
    by (intro first_opt_none re_match_nothing)
  have rest: "rest = [] \<or> \<not> digit_char (hd rest)"
    using assms(8) by (auto simp: alnum_ci_def alnum_char_def)
  have a3: "re_first (Group GROUP_END (digits 4)) ?s (?n, ?g) = Some (?e, ?g(GROUP_END := Some (?n, ?e)))"
    by (rule first_group, rule first_digits[OF d2 assms(7)]) (use rest in blast)
  have range: "re_first range_end ?s (?j, ?g) = Some (?e, ?g(GROUP_END := Some (?n, ?e)))"
    unfolding range_end_def in_order.simps
    by (rule first_opt_some, rule first_both[OF a1 first_both[OF a2 first_both[OF a3 first_empty]]])
  have gap: "gap @ number @ rest = [] \<or> \<not> digit_char (hd (gap @ number @ rest)) \<or> length de = 4"
    using assms(5,6) by (cases gap) (auto simp: sep_char_def digit_char_def)
  have ahead: "drop ?e ?s = [] \<or> \<not> alnum_ci (hd (drop ?e ?s))" unfolding d3 by (rule assms(8))
  have "slice ?s ?n ?e = number" by (rule slice_at[OF d2])
  then show ?thesis
    using marker_fields[OF assms(1-4) gap range ahead] assms(7)
    by (simp add: group_int_def group_text_def marker_groups_def digits_up_to_def)
qed

lemmas number_range_end = number_range_fields[THEN conjunct2, THEN conjunct2]

end
