(* ===== verification/Push_Guard_Props.thy ===== *)
theory Push_Guard_Props
  imports Push_Guard Media_Parser_Markers Task_Props
begin

text \<open>
  What the push guard guarantees, what it never looks at, and what blocks more than it should;
  together with the task worker, what a pushed link implies about every enabled library.
\<close>

section \<open>What a decision says\<close>

definition probe_key_matches :: "text_db \<Rightarrow> probe \<Rightarrow> inventory_identity \<Rightarrow> bool" where
  "probe_key_matches tx p i =
     (pb_name p \<noteq> [] \<and> (\<exists>f. probe_file (tx_uni tx) p = Inr f
        \<and> md_key (ii_identity i) = md_key (ii_identity (build_identity tx f))))"

text \<open>
  A file confirmed as what the metadata of the candidate names: the same film or series, and for
  an episode the same season and an overlapping range.  The end of a range is its start when
  there is none.
\<close>

definition episodes_overlap :: "media_identity \<Rightarrow> probe \<Rightarrow> bool" where
  "episodes_overlap m p =
     (pb_episode_start p = JNull
      \<or> (\<exists>a b x y. md_episode_start m = Some a
           \<and> b = (case md_episode_end m of Some e \<Rightarrow> if e = 0 then a else e | None \<Rightarrow> a)
           \<and> pb_episode_start p = JInt x
           \<and> (pb_episode_end p = JNull \<and> y = x \<or> pb_episode_end p = JInt y \<and> y \<noteq> 0)
           \<and> a \<le> y \<and> x \<le> b))"

definition same_media :: "probe \<Rightarrow> inventory_identity \<Rightarrow> bool" where
  "same_media p i =
     (let m = ii_identity i in
      (\<exists>n. pb_tmdb_id p = JInt n \<and> md_tmdb_id m = Some n)
      \<and> (pb_media_type p = JNull \<or> pb_media_type p = JStr (md_media_type m))
      \<and> (pb_media_type p = JStr (lit ''tv'')
          \<longrightarrow> (pb_season p = JNull \<or> (\<exists>k. pb_season p = JInt k \<and> md_season m = Some k))
              \<and> episodes_overlap m p))"

lemma same_media_matches:
  assumes "same_media p i"
  shows "pb_tmdb_id p \<noteq> JNull \<and> media_matches i p = Inr True"
proof -
  let ?m = "ii_identity i"
  from assms obtain n where n: "pb_tmdb_id p = JInt n" "md_tmdb_id ?m = Some n"
    and t: "pb_media_type p = JNull \<or> pb_media_type p = JStr (md_media_type ?m)"
    and tv: "pb_media_type p = JStr (lit ''tv'')
      \<longrightarrow> (pb_season p = JNull \<or> (\<exists>k. pb_season p = JInt k \<and> md_season ?m = Some k)) \<and> episodes_overlap ?m p"
    by (auto simp: same_media_def Let_def)
  have "episode_scope_matches i p = Inr True"
  proof (cases "pb_media_type p = JStr (lit ''tv'')")
    case False
    then show ?thesis by (simp add: episode_scope_matches_def json_eq_str_def)
  next
    case True
    with tv have season: "\<not> (pb_season p \<noteq> JNull \<and> \<not> opt_int_eq (md_season ?m) (pb_season p))"
      by (auto simp: opt_int_eq_def)
    from True tv have "episodes_overlap ?m p" by blast
    then show ?thesis unfolding episodes_overlap_def
    proof (elim conjE disjE exE)
      fix a b x y
      assume h: "md_episode_start ?m = Some a" "a \<le> y" "x \<le> b"
        "b = (case md_episode_end ?m of Some e \<Rightarrow> if e = 0 then a else e | None \<Rightarrow> a)"
        "pb_episode_start p = JInt x" "pb_episode_end p = JInt y" "y \<noteq> 0"
      then have "or_start (md_episode_end ?m) (Some a) = Some b"
        by (simp add: or_start_def split: option.split)
      with h True season show ?thesis
        by (simp add: episode_scope_matches_def Let_def json_eq_str_def int_le_json_def int_ge_json_def)
    next
      fix a b x y
      assume h: "md_episode_start ?m = Some a" "a \<le> y" "x \<le> b"
        "b = (case md_episode_end ?m of Some e \<Rightarrow> if e = 0 then a else e | None \<Rightarrow> a)"
        "pb_episode_start p = JInt x" "pb_episode_end p = JNull" "y = x"
      then have "or_start (md_episode_end ?m) (Some a) = Some b"
        by (simp add: or_start_def split: option.split)
      with h True season show ?thesis
        by (simp add: episode_scope_matches_def Let_def json_eq_str_def int_le_json_def int_ge_json_def)
    qed (use True season in \<open>simp_all add: episode_scope_matches_def Let_def json_eq_str_def\<close>)
  qed
  with n t show ?thesis by (auto simp: media_matches_def opt_int_eq_def json_eq_str_def)
qed

text \<open>A file that is the candidate, by object, by confirmed identity or by the key of its name.\<close>

definition already_there :: "text_db \<Rightarrow> probe \<Rightarrow> inventory_identity \<Rightarrow> bool" where
  "already_there tx p i =
     (json_truthy (pb_object_id p) \<and> json_eq_str (pb_object_id p) (if_object_id (ii_file i))
      \<or> exact_match p i
      \<or> same_media p i
      \<or> probe_key_matches tx p i)"

lemma matching_files_member:
  "matching_files p items = Inr ms \<Longrightarrow> set ms = {i \<in> set items. media_matches i p = Inr True}"
proof (induction items arbitrary: ms)
  case (Cons i items)
  show ?case
  proof (cases "media_matches i p")
    case (Inl e)
    with Cons.prems show ?thesis by simp
  next
    case b: (Inr b)
    show ?thesis
    proof (cases "matching_files p items")
      case (Inl e)
      with Cons.prems b show ?thesis by simp
    next
      case (Inr ns)
      have "matching_files p (i # items) = Inr (if b then i # ns else ns)" using b Inr by simp
      from trans[OF Cons.prems[symmetric] this] have ms: "ms = (if b then i # ns else ns)" by (rule Inr_inject)
      show ?thesis
      proof (cases b)
        case True
        with Cons.IH[OF Inr] b show ?thesis unfolding ms by (simp add: insert_Collect) blast
      next
        case False
        with Cons.IH[OF Inr] b show ?thesis unfolding ms by (simp del: Collect_conj_eq) (metis Inr_inject)
      qed
    qed
  qed
qed simp

lemma check_name_not_found:
  assumes "check_name tx sn p = Inr DEC_NOT_FOUND" and "i \<in> set (sn_files sn)"
  shows "\<not> probe_key_matches tx p i"
proof
  assume "probe_key_matches tx p i"
  then obtain f where f: "pb_name p \<noteq> []" "probe_file (tx_uni tx) p = Inr f"
    "md_key (ii_identity i) = md_key (ii_identity (build_identity tx f))"
    unfolding probe_key_matches_def by blast
  from f(3) assms(2)
  have "list_ex (\<lambda>i. md_key (ii_identity i) = md_key (ii_identity (build_identity tx f))) (sn_files sn)"
    unfolding list_ex_iff by blast
  with assms(1) f(1,2) show False by (simp add: check_name_def)
qed

lemma check_name_decision:
  "check_name tx sn p = Inr d \<Longrightarrow> d = DEC_NOT_FOUND \<or> d = DEC_NEEDS_REVIEW"
  by (auto simp: check_name_def split: if_splits sum.splits)

lemma not_found_clear:
  assumes "check_inventory tx sn p = Inr DEC_NOT_FOUND" and "i \<in> set (sn_files sn)"
  shows "\<not> already_there tx p i"
proof -
  from assms have 1: "\<not> (json_truthy (pb_object_id p) \<and> json_eq_str (pb_object_id p) (if_object_id (ii_file i)))"
    and 2: "\<not> exact_match p i"
    by (auto simp: check_inventory_def list_ex_iff split: if_splits)
  show ?thesis
  proof (cases "pb_tmdb_id p = JNull")
    case True
    with assms(1) have "check_name tx sn p = Inr DEC_NOT_FOUND"
      by (simp add: check_inventory_def split: if_splits)
    with check_name_not_found assms(2) 1 2 True same_media_matches show ?thesis by (auto simp: already_there_def)
  next
    case False
    with assms(1) obtain ms where ms: "matching_files p (sn_files sn) = Inr ms" "ms = []"
      and n: "check_name tx sn p = Inr DEC_NOT_FOUND"
      by (auto simp: check_inventory_def split: if_splits sum.splits)
    from matching_files_member[OF ms(1)] ms(2) assms(2) have "media_matches i p \<noteq> Inr True" by auto
    with check_name_not_found[OF n assms(2)] 1 2 same_media_matches show ?thesis by (auto simp: already_there_def)
  qed
qed

lemma decision_cases:
  assumes "check_inventory tx sn p = Inr d" and "fr_status (sn_freshness sn) = FRESH" and "sn_complete sn"
  shows "d = DEC_NOT_FOUND \<or> d = DEC_EXACT \<or> d \<in> needs_review"
  using assms check_name_decision[of tx sn p d]
  by (auto simp: check_inventory_def needs_review_def split: if_splits sum.splits)

section \<open>The newest run\<close>

lemma newest_run_Some:
  assumes "newest_run l s = Some r"
  shows "r \<in> set (runs s) \<and> run_library_id r = l
    \<and> (\<forall>q \<in> set (runs s). run_library_id q = l \<longrightarrow> run_created_at q \<le> run_created_at r)"
proof -
  let ?rs = "sort_key run_created_at (sort_key run_id (filter (\<lambda>r. run_library_id r = l) (runs s)))"
  from assms obtain xs where "rev ?rs = r # xs" by (auto simp: newest_run_def split: list.splits)
  then have rs: "?rs = rev xs @ [r]" by (metis rev.simps(2) rev_rev_ident)
  have set: "set ?rs = {q \<in> set (runs s). run_library_id q = l}" by simp
  have "sorted (map run_created_at (rev xs @ [r]))" using sorted_sort_key[of run_created_at] rs by metis
  then have "\<forall>q \<in> set (rev xs @ [r]). run_created_at q \<le> run_created_at r"
    by (auto simp: sorted_append)
  moreover have "r \<in> set ?rs" unfolding rs by simp
  ultimately show ?thesis unfolding rs[symmetric] set by blast
qed

section \<open>A library that lets a push pass\<close>

text \<open>
  Three statements read a library: the newest run in \<open>a\<close>, its entries in \<open>b\<close>, the identities of the
  objects in \<open>c\<close>.  Without another session's commit between them the three states are one.
\<close>

definition snapshot_items :: "push_guard \<Rightarrow> run_row \<Rightarrow> pystr \<Rightarrow> store \<Rightarrow> store \<Rightarrow> inventory_identity list" where
  "snapshot_items g r l b c = map (build_identity (pg_text g)) (map (file_of_entry l c) (file_entries r b))"

definition library_clear ::
  "push_guard \<Rightarrow> time \<Rightarrow> probe \<Rightarrow> store \<Rightarrow> store \<Rightarrow> store \<Rightarrow> library_row \<Rightarrow> bool" where
  "library_clear g now p a b c lib =
     (\<exists>r \<in> set (runs a). newest_run (lib_id lib) a = Some r \<and> run_library_id r = lib_id lib
        \<and> (\<forall>q \<in> set (runs a). run_library_id q = lib_id lib \<longrightarrow> run_created_at q \<le> run_created_at r)
        \<and> run_complete r \<and> run_state r = SCAN_COMPLETED \<and> (now - run_updated_at r) div 1000000 \<le> pg_threshold g
        \<and> (\<forall>i \<in> set (snapshot_items g r (lib_id lib) b c). \<not> already_there (pg_text g) p i))"

text \<open>What the statements number \<open>k\<close>, \<open>k + 1\<close> and \<open>k + 2\<close> read.\<close>

definition clear_at :: "push_guard \<Rightarrow> (nat \<Rightarrow> store) \<Rightarrow> (nat \<Rightarrow> time) \<Rightarrow> probe \<Rightarrow> nat \<Rightarrow> library_row \<Rightarrow> bool" where
  "clear_at g view clk p k lib = library_clear g (clk (k + 2)) p (view k) (view (k + 1)) (view (k + 2)) lib"

lemma check_files_same: "check_files u fs = Inr gs \<Longrightarrow> gs = fs"
proof (induction fs arbitrary: gs)
  case (Cons f fs)
  have "g = f" if "check_file u f = Inr g" for g
    using that by (auto simp: check_file_def split: if_splits)
  with Cons show ?case by (auto split: sum.splits)
qed simp

lemma build_snapshot_Inr:
  assumes "build_snapshot tx digest files full captured now threshold = Inr sn"
  shows "sn_complete sn = full \<and> sn_files sn = map (build_identity tx) files
    \<and> sn_freshness sn = calculate_freshness full captured now threshold \<and> distinct (map if_object_id files)"
  using assms by (auto simp: build_snapshot_def Let_def split: if_splits sum.splits dest: check_files_same)

lemma library_passes:
  assumes "newest_run (lib_id lib) (view k) = Some r"
    and "guard_snapshot g view clk r (lib_id lib) (k + 1) = Inr sn"
    and "fr_status (sn_freshness sn) = FRESH" and "check_inventory (pg_text g) sn p = Inr d"
    and "d \<noteq> DEC_EXACT" and "d \<notin> needs_review"
  shows "clear_at g view clk p k lib"
proof -
  note sn = build_snapshot_Inr[OF assms(2)[unfolded guard_snapshot_def]]
  from assms(3) sn have u: "usable_run r" and age: "(clk (k + 2) - run_updated_at r) div 1000000 \<le> pg_threshold g"
    by (auto simp: calculate_freshness_def age_of_def split: if_splits)
  with decision_cases[OF assms(4,3)] assms(5,6) sn have "d = DEC_NOT_FOUND" by auto
  with assms(4) not_found_clear sn
  have "\<forall>i \<in> set (snapshot_items g r (lib_id lib) (view (k + 1)) (view (k + 2))). \<not> already_there (pg_text g) p i"
    by (auto simp: snapshot_items_def)
  with newest_run_Some[OF assms(1)] assms(1) u age show ?thesis
    by (auto simp: clear_at_def library_clear_def usable_run_def)
qed

lemma allowed_libraries:
  assumes "check_libraries g view clk p libs review k = Inr c" and "pc_allowed c"
  shows "review = None \<and> (\<forall>lib \<in> set libs. \<exists>k. clear_at g view clk p k lib)"
  using assms
proof (induction libs arbitrary: review k)
  case Nil
  then show ?case by (auto split: option.splits)
next
  case (Cons lib libs)
  from Cons.prems obtain r sn d where step: "newest_run (lib_id lib) (view k) = Some r"
    "guard_snapshot g view clk r (lib_id lib) (k + 1) = Inr sn" "fr_status (sn_freshness sn) = FRESH"
    "check_inventory (pg_text g) sn p = Inr d" "d \<noteq> DEC_EXACT"
    and rest: "check_libraries g view clk p libs (if d \<in> needs_review then Some d else review) (k + 3) = Inr c"
    by (auto simp: refused_def split: option.splits sum.splits freshness_status.splits if_splits)
  from Cons.IH[OF rest Cons.prems(2)] have "d \<notin> needs_review" "review = None"
    "\<forall>lib \<in> set libs. \<exists>k. clear_at g view clk p k lib" by (auto split: if_splits)
  with library_passes[OF step] show ?case by auto
qed

lemma allowed_magnet:
  assumes "guard_check g view clk rs (Some rid) = Inr c" and "pc_allowed c"
    and "row_of gr_id rid rs = Some res" and "gr_kind res = ''magnet''"
  shows "(\<exists>lib \<in> set (libraries (view 0)). lib_enabled lib)
    \<and> (\<forall>lib \<in> set (libraries (view 0)). lib_enabled lib \<longrightarrow> (\<exists>k. clear_at g view clk (resource_probe res) k lib))"
proof -
  from assms have libs: "enabled_libraries (view 0) \<noteq> []"
    and c: "check_libraries g view clk (resource_probe res) (enabled_libraries (view 0)) None 1 = Inr c"
    by (auto simp: guard_check_def Let_def refused_def split: if_splits)
  have "set (enabled_libraries (view 0)) = {lib \<in> set (libraries (view 0)). lib_enabled lib}"
    by (simp add: enabled_libraries_def)
  with allowed_libraries[OF c assms(2)] libs show ?thesis by (metis (mono_tags, lifting) empty_Collect_eq mem_Collect_eq set_empty)
qed

section \<open>A pushed link\<close>

lemma gate_open:
  assumes "guard_gate g view clk rs rid = Some gt" and "gate_allowed gt"
  shows "\<exists>c. guard_check g view clk rs rid = Inr c \<and> pc_allowed c"
  using assms by (auto simp: guard_gate_def split: sum.splits)

lemma sent_link:
  assumes "run_once w claimed_at now db = (out, [url], db')" and "distinct (map tk_id (tasks db))"
  obtains t where "t \<in> set (tasks db)" "tk_state t = TASK_QUEUED" "tk_action t = OFFLINE_DOWNLOAD"
    "tw_decrypt w (tk_url_snapshot t) = Some url"
    "\<And>guard. tw_guard w = Some guard \<Longrightarrow> (\<exists>g. guard (tk_resource_id t) = Some g \<and> gate_allowed g)"
proof -
  have claimed: "out \<noteq> Inr False"
    using assms(1) by (auto simp: run_once_def Let_def split: option.splits prod.splits sum.splits)
  from run_once_cases[OF assms(1,2) claimed] obtain t db1 res url' where
    t: "t \<in> set (tasks db)" "tk_state t = TASK_QUEUED"
    and sub: "submission_of w (claimed_row w claimed_at t) = (res, url')"
    and sent: "[url] = (case url' of None \<Rightarrow> [] | Some u \<Rightarrow> [u])" .
  from sent sub have "submission_of w (claimed_row w claimed_at t) = (res, Some url)"
    by (auto split: option.splits)
  from submission_sent[OF this] t show thesis by (intro that) auto
qed

text \<open>
  C2. A link is pushed only past a complete picture of every library.  Task identities being distinct,
  a worker that carries the inventory guard hands a link to the drive only as the link of a queued
  download task.  The resource of this very task exists; and when it is a magnet, some library was
  enabled, and for every enabled one the guard has read, whatever other sessions committed between
  its statements, a newest scan that is completed, complete and no older than the threshold, and
  among the files read of it none is the resource: not by object, not by a confirmed identity with
  an overlapping episode range, and not by the key of its name.
\<close>

theorem pushed_link_is_new:
  assumes "run_once w claimed_at now db = (out, [url], db')" and "distinct (map tk_id (tasks db))"
    and "tw_guard w = Some (guard_gate g view clk rs)"
  shows "\<exists>t rid res. t \<in> set (tasks db) \<and> tk_state t = TASK_QUEUED \<and> tk_action t = OFFLINE_DOWNLOAD
    \<and> tw_decrypt w (tk_url_snapshot t) = Some url \<and> tk_resource_id t = Some rid \<and> row_of gr_id rid rs = Some res
    \<and> (gr_kind res = ''magnet'' \<longrightarrow>
         (\<exists>lib \<in> set (libraries (view 0)). lib_enabled lib)
         \<and> (\<forall>lib \<in> set (libraries (view 0)). lib_enabled lib \<longrightarrow>
              (\<exists>k. library_clear g (clk (k + 2)) (resource_probe res) (view k) (view (k + 1)) (view (k + 2)) lib)))"
proof -
  from assms(1,2) obtain t where t: "t \<in> set (tasks db)" "tk_state t = TASK_QUEUED" "tk_action t = OFFLINE_DOWNLOAD"
      "tw_decrypt w (tk_url_snapshot t) = Some url"
    and "\<And>guard. tw_guard w = Some guard \<Longrightarrow> (\<exists>g. guard (tk_resource_id t) = Some g \<and> gate_allowed g)"
    by (rule sent_link) blast
  from this(5)[OF assms(3)] obtain c where c: "guard_check g view clk rs (tk_resource_id t) = Inr c" "pc_allowed c"
    using gate_open by blast
  from c obtain rid res where r: "tk_resource_id t = Some rid" "row_of gr_id rid rs = Some res"
    by (auto simp: guard_check_def refused_def split: option.splits)
  from allowed_magnet[OF c(1)[unfolded r(1)] c(2) r(2), unfolded clear_at_def] t r show ?thesis by blast
qed

section \<open>What the guard never looks at\<close>

text \<open>Files of a snapshot carry neither a content digest nor an infohash.\<close>

lemma snapshot_without_digests:
  assumes "guard_snapshot g view clk r l k = Inr sn" and "i \<in> set (sn_files sn)"
  shows "if_content_digest (ii_file i) = None \<and> if_infohash (ii_file i) = None"
  using build_snapshot_Inr[OF assms(1)[unfolded guard_snapshot_def]] assms(2)
  by (auto simp: file_of_entry_def build_identity_def Let_def)

lemma no_exact_match:
  assumes "if_content_digest (ii_file i) = None \<and> if_infohash (ii_file i) = None"
  shows "\<not> exact_match p i"
proof -
  have "opt_str_eq None j \<Longrightarrow> \<not> json_truthy j" for j by (simp add: opt_str_eq_def)
  with assms show ?thesis by (auto simp: exact_match_def)
qed

lemma check_inventory_links:
  assumes "\<forall>i \<in> set (sn_files sn). if_content_digest (ii_file i) = None \<and> if_infohash (ii_file i) = None"
  shows "check_inventory tx sn (p\<lparr>pb_content_digest := d, pb_infohash := h\<rparr>) = check_inventory tx sn p"
proof -
  let ?q = "p\<lparr>pb_content_digest := d, pb_infohash := h\<rparr>"
  from assms have no: "\<not> list_ex (exact_match x) (sn_files sn)" for x
    using no_exact_match unfolding list_ex_iff by blast
  have fields: "pb_object_id ?q = pb_object_id p" "pb_tmdb_id ?q = pb_tmdb_id p"
    "pb_media_type ?q = pb_media_type p" "pb_season ?q = pb_season p"
    "pb_episode_start ?q = pb_episode_start p" "pb_episode_end ?q = pb_episode_end p" "pb_name ?q = pb_name p"
    by simp_all
  have scope: "episode_scope_matches i ?q = episode_scope_matches i p" for i
    unfolding episode_scope_matches_def fields ..
  have matches: "media_matches i ?q = media_matches i p" for i
    unfolding media_matches_def fields scope ..
  have files: "matching_files ?q items = matching_files p items" for items
    by (induction items) (simp_all only: matching_files.simps matches)
  have name: "check_name tx sn ?q = check_name tx sn p" unfolding check_name_def probe_file_def fields ..
  show ?thesis by (simp only: check_inventory_def no files name fields)
qed

lemma check_libraries_links:
  "check_libraries g view clk (p\<lparr>pb_content_digest := d, pb_infohash := h\<rparr>) libs review k
    = check_libraries g view clk p libs review k"
proof (induction libs arbitrary: review k)
  case (Cons lib libs)
  have "check_inventory (pg_text g) sn (p\<lparr>pb_content_digest := d, pb_infohash := h\<rparr>)
      = check_inventory (pg_text g) sn p"
    if "guard_snapshot g view clk r (lib_id lib) (k + 1) = Inr sn" for r sn
    using snapshot_without_digests[OF that] by (intro check_inventory_links) blast
  note same = this
  show ?case
  proof (cases "newest_run (lib_id lib) (view k)")
    case (Some r)
    show ?thesis
    proof (cases "guard_snapshot g view clk r (lib_id lib) (k + 1)")
      case (Inr sn)
      show ?thesis unfolding check_libraries.simps Some option.case Inr sum.case same[OF Inr] Cons.IH ..
    qed (simp add: Some)
  qed simp
qed simp

text \<open>The metadata of a resource without its infohash and content digest.\<close>

definition without_links :: "guard_resource \<Rightarrow> guard_resource" where
  "without_links r =
     r\<lparr>gr_metadata := map_option (\<lambda>j. case j of
         JObj kvs \<Rightarrow> JObj (filter (\<lambda>kv. fst kv \<noteq> lit ''infohash'' \<and> fst kv \<noteq> lit ''content_digest'') kvs)
       | _ \<Rightarrow> j) (gr_metadata r)\<rparr>"

text \<open>
  C34. The infohash and the content digest of a resource play no part.  Whatever other sessions do
  meanwhile, the guard decides the same with and without them in the metadata, so that it never
  refuses a link because the same content is in a library already.
\<close>

theorem links_play_no_part:
  "guard_check g view clk (map without_links rs) rid = guard_check g view clk rs rid"
proof -
  have other: "map_of (filter (\<lambda>kv. fst kv \<noteq> a \<and> fst kv \<noteq> b) kvs) k = map_of kvs k"
    if "k \<noteq> a" "k \<noteq> b" for k a b and kvs :: "(pystr \<times> json) list"
    using that by (induction kvs) auto
  have probe: "resource_probe (without_links r)
      = (resource_probe r)\<lparr>pb_content_digest := pb_content_digest (resource_probe (without_links r)),
          pb_infohash := pb_infohash (resource_probe (without_links r))\<rparr>" for r
    by (cases "gr_metadata r")
      (auto simp: resource_probe_def without_links_def Let_def jget_def load_json_object_def other
        split: json.splits)
  have ids: "gr_id (without_links r) = gr_id r" "gr_kind (without_links r) = gr_kind r" for r
    by (simp_all add: without_links_def)
  have row: "row_of gr_id k (map without_links rs) = map_option without_links (row_of gr_id k rs)" for k
    by (induction rs) (simp_all add: ids)
  have "check_libraries g view clk (resource_probe (without_links r)) libs None k
      = check_libraries g view clk (resource_probe r) libs None k" for r libs k
    by (subst probe) (rule check_libraries_links)
  then show ?thesis
    by (auto simp: guard_check_def row ids Let_def split: option.split)
qed

section \<open>A year in a file name\<close>



end
