(* ===== verification/Media_Parser_Demo.thy ===== *)
theory Media_Parser_Demo
  imports Media_Parser_Markers
begin

text \<open>Concrete file names, and the marker properties applied to them.\<close>

definition plain_text :: text_db where
  "plain_text = \<lparr>tx_uni = ascii_unicode, tx_nfkc = (\<lambda>s. s), tx_alnum = alnum_char\<rparr>"

lemma plain_stems:
  "stem_of plain_text (lit ''Dark S01E05.mkv'') = lit ''Dark S01E05''"
  "stem_of plain_text (lit ''tv/Dark S01E05 2017.mkv'') = lit ''Dark S01E05 2017''"
  by (code_simp, code_simp)

theorem episode_marker_parsed_witness:
  "mp_season (parse_media_filename plain_text (lit ''Dark S01E05.mkv'')) = Some 1
    \<and> mp_episode_start (parse_media_filename plain_text (lit ''Dark S01E05.mkv'')) = Some 5
    \<and> mp_episode_end (parse_media_filename plain_text (lit ''Dark S01E05.mkv'')) = None
    \<and> mp_media_type_hint (parse_media_filename plain_text (lit ''Dark S01E05.mkv'')) = HINT_TV"
  using episode_marker_parsed[of plain_text "lit ''Dark S01E05.mkv''" "lit ''Dark ''" "lit ''01''" "lit ''05''" "[]"]
  unfolding plain_stems(1)
  by (simp add: marker_name_def marker_prefix_def digits_up_to_def no_range_def number_follows_def
      starts_digit_def digit_char_def alnum_ci_def
      alnum_char_def)

text \<open>The year is read as the last episode.\<close>

lemma year_in_range:
  "mp_season (parse_media_filename plain_text (lit ''tv/Dark S01E05 2017.mkv'')) = Some 1
    \<and> mp_episode_start (parse_media_filename plain_text (lit ''tv/Dark S01E05 2017.mkv'')) = Some 5
    \<and> mp_episode_end (parse_media_filename plain_text (lit ''tv/Dark S01E05 2017.mkv'')) = Some 2017"
  using number_range_fields[of plain_text "lit ''tv/Dark S01E05 2017.mkv''" "lit ''Dark ''" "lit ''01''"
      "lit ''05''" "lit '' ''" "lit ''2017''" "[]"]
  unfolding plain_stems(2)
  by (simp add: marker_name_def marker_prefix_def digits_up_to_def digit_char_def alnum_ci_def
      alnum_char_def sep_char_def)

end
