(* ===== verification/Inventory_Demo.thy ===== *)
theory Inventory_Demo
  imports Inventory_Props Push_Guard_Props Media_Parser_Demo Task_Demo
begin

text \<open>
  A library with one confirmed film, which lets another film pass, and one with an episode whose
  name carries a year, which lets no later episode pass.
\<close>

definition demo_guard :: push_guard where
  "demo_guard = \<lparr>pg_text = plain_text, pg_digest = (\<lambda>k. k), pg_threshold = 900\<rparr>"

definition one_library :: library_row where
  "one_library = \<lparr>lib_id = [1], lib_root_directory_id = [7], lib_scope_verified = True, lib_enabled = True,
     lib_revision = 1\<rparr>"

definition one_run :: run_row where
  "one_run = \<lparr>run_id = [4], run_library_id = [1], run_root_directory_id = [7], run_state = SCAN_COMPLETED,
     run_complete = True, run_snapshot_revision = Some 1, run_idempotency_key = [3],
     run_expected_page_count = None, run_expected_total = None, run_pages_read = 1, run_items_seen = 1,
     run_added_count = 1, run_changed_count = 0, run_removed_count = 0, run_error_code = None,
     run_created_at = 10, run_updated_at = 20\<rparr>"

definition library_store :: "pystr \<Rightarrow> media_identity_row \<Rightarrow> store" where
  "library_store name m =
     \<lparr>ops = [], plans = [], libraries = [one_library], runs = [one_run],
      scan_entries = [\<lparr>se_scan_run_id = [4], se_object_type = lit ''file'', se_object_id = [11],
        se_parent_id = Some [7], se_name = name, se_path = None, se_is_directory = False,
        se_size_bytes = None, se_modified_at = None\<rparr>],
      events = [], checkpoints = [], diffs = [], ledger = [], inventory_events = [],
      media_identities = [m]\<rparr>"

section \<open>A film\<close>

definition one_film_store :: store where
  "one_film_store = library_store (lit ''Up.mkv'')
     \<lparr>mi_library_id = [1], mi_object_id = [11], mi_tmdb_id = 603, mi_media_type = lit ''movie'',
      mi_season = None, mi_episode_start = None, mi_episode_end = None\<rparr>"

definition film_file :: inventory_file where
  "film_file = \<lparr>if_object_id = [11], if_name = lit ''Up.mkv'', if_size_bytes = None, if_modified_at = None,
     if_tmdb_id = Some 603, if_media_type = Some (lit ''movie''), if_season = None, if_episode_start = None,
     if_episode_end = None, if_content_digest = None, if_infohash = None\<rparr>"

definition film_resource :: guard_resource where
  "film_resource = \<lparr>gr_id = [1], gr_kind = ''magnet'', gr_name = lit ''Heat'',
     gr_metadata = Some (JObj [(lit ''tmdb_id'', JInt 604)])\<rparr>"

lemma film_reads:
  "newest_run [1] one_film_store = Some one_run"
  "map (file_of_entry [1] one_film_store) (file_entries one_run one_film_store) = [film_file]"
  "check_files ascii_unicode [film_file] = Inr [film_file]"
  "resource_probe film_resource = (empty_probe (lit ''Heat''))\<lparr>pb_tmdb_id := JInt 604\<rparr>"
  "enabled_libraries one_film_store = [one_library]"
  by code_simp+

text \<open>The key of a confirmed film is not the key of a name.\<close>

lemma confirmed_key_differs: "identity_key (Some n) a b c d e f \<noteq> identity_key None a' b' c' d' e' f'"
  by (cases b') (simp_all add: identity_key_def Let_def)

lemma film_check:
  "guard_check demo_guard (\<lambda>_. one_film_store) (\<lambda>_. 100) [film_resource] (Some [1])
    = Inr \<lparr>pc_allowed = True, pc_code = ''inventory_not_found'', pc_decision = Some DEC_NOT_FOUND\<rparr>"
proof -
  let ?i = "build_identity plain_text film_file" and ?p = "(empty_probe (lit ''Heat''))\<lparr>pb_tmdb_id := JInt 604\<rparr>"
  have uni: "tx_uni plain_text = ascii_unicode" by (simp add: plain_text_def)
  let ?sn = "\<lparr>sn_complete = True, sn_captured_at = Some 20, sn_files = [?i],
      sn_freshness = calculate_freshness True (Some 20) 100 900,
      sn_duplicate_groups = find_duplicate_groups ascii_unicode (\<lambda>k. k) [?i]\<rparr>"
  have "guard_snapshot demo_guard (\<lambda>_. one_film_store) (\<lambda>_. 100) one_run [1] k
      = build_snapshot plain_text (\<lambda>k. k) [film_file] True (Some 20) 100 900" for k
    unfolding guard_snapshot_def film_reads(2) by (simp add: demo_guard_def usable_run_def one_run_def)
  also have "\<dots> = Inr ?sn"
    by (simp add: build_snapshot_def Let_def uni film_reads(3) del: check_files.simps)
  finally obtain sn where sn: "\<And>k. guard_snapshot demo_guard (\<lambda>_. one_film_store) (\<lambda>_. 100) one_run [1] k = Inr sn"
    "sn_complete sn" "sn_files sn = [?i]" "fr_status (sn_freshness sn) = FRESH"
    by (auto simp: calculate_freshness_def age_of_def)
  obtain f where f: "probe_file ascii_unicode ?p = Inr f" "if_tmdb_id f = None"
  proof -
    have "case probe_file ascii_unicode ?p of Inl _ \<Rightarrow> False | Inr f \<Rightarrow> if_tmdb_id f = None" by code_simp
    with that show ?thesis by (auto split: sum.splits)
  qed
  have key: "md_key (ii_identity ?i) \<noteq> md_key (ii_identity (build_identity plain_text f))"
    using confirmed_key_differs f(2) by (simp add: build_identity_def Let_def film_file_def)
  have "media_matches ?i ?p = Inr False"
    by (simp add: media_matches_def build_identity_def Let_def film_file_def opt_int_eq_def)
  then have "check_inventory plain_text sn ?p = Inr DEC_NOT_FOUND"
    using sn key f(1)
    by (simp add: check_inventory_def check_name_def empty_probe_def exact_match_def plain_text_def)
  moreover have "gr_id film_resource = [1]" "gr_kind film_resource = ''magnet''" by (simp_all add: film_resource_def)
  ultimately show ?thesis
    using sn(1,4) film_reads(1)
    by (simp add: guard_check_def film_reads(4,5) one_library_def needs_review_def demo_guard_def)
qed

definition guarded_worker :: task_worker where
  "guarded_worker = push_worker\<lparr>tw_guard := Some (guard_gate demo_guard (\<lambda>_. one_film_store) (\<lambda>_. 100) [film_resource])\<rparr>"

lemma guarded_pass:
  "run_once guarded_worker 100000002 100000003 retried_db = (Inr True, [[5, 9]], snd (snd pushed))"
proof -
  have "claimed_row guarded_worker n = claimed_row push_worker n" for n
    by (rule ext) (simp add: claimed_row_def guarded_worker_def push_worker_def)
  then have claim: "claim_one guarded_worker n db = claim_one push_worker n db" for n db
    by (simp only: claim_one_def)
  have gate: "guard_gate demo_guard (\<lambda>_. one_film_store) (\<lambda>_. 100) [film_resource] (Some [1])
      = Some \<lparr>gate_allowed = True, gate_code = lit ''inventory_not_found''\<rparr>"
    unfolding guard_gate_def film_check by simp
  have same: "submission_of guarded_worker t = submission_of push_worker t" if "tk_resource_id t = Some [1]" for t
    using gate that by (simp add: submission_of_def guarded_worker_def push_worker_def)
  have "case claim_one push_worker 100000002 retried_db of None \<Rightarrow> False
      | Some (tid, db1) \<Rightarrow> (case get_task tid db1 of None \<Rightarrow> False | Some t \<Rightarrow> tk_resource_id t = Some [1])"
    by code_simp
  then obtain tid db1 t where c: "claim_one push_worker 100000002 retried_db = Some (tid, db1)"
    "get_task tid db1 = Some t" "tk_resource_id t = Some [1]"
    by (auto split: option.splits)
  have "run_once guarded_worker 100000002 100000003 retried_db = run_once push_worker 100000002 100000003 retried_db"
    unfolding run_once_def claim c(1) option.case prod.case c(2) same[OF c(3)] ..
  with queue_calls(5) show ?thesis by simp
qed

theorem pushed_link_is_new_witness:
  "library_clear demo_guard 100 (resource_probe film_resource) one_film_store one_film_store one_film_store one_library"
proof -
  have "distinct (map tk_id (tasks retried_db))" by code_simp
  moreover have "gr_kind film_resource = ''magnet''" by (simp add: film_resource_def)
  moreover have "tw_guard guarded_worker
      = Some (guard_gate demo_guard (\<lambda>_. one_film_store) (\<lambda>_. 100) [film_resource])"
    by (simp add: guarded_worker_def)
  moreover have "one_library \<in> set (libraries one_film_store)" "lib_enabled one_library"
    by (simp_all add: one_film_store_def library_store_def one_library_def)
  ultimately show ?thesis
    using pushed_link_is_new[OF guarded_pass, where g = demo_guard and clk = "\<lambda>_. 100" and rs = "[film_resource]"
        and view = "\<lambda>_. one_film_store"]
    by (auto split: if_splits)
qed

section \<open>A series\<close>





section \<open>Duplicates\<close>

definition copy_of :: "pystr \<Rightarrow> inventory_identity" where
  "copy_of i = build_identity plain_text (film_file\<lparr>if_object_id := i\<rparr>)"

theorem duplicate_groups_exact_witness:
  "\<exists>g \<in> set (find_duplicate_groups ascii_unicode (\<lambda>k. k) [copy_of [3], copy_of [2], copy_of [5]]).
    dg_kind g = DUP_MEDIA \<and> {[3], [5]} \<subseteq> set (dg_object_ids g)"
proof -
  let ?items = "[copy_of [3], copy_of [2], copy_of [5]]"
  have o: "object_of (copy_of i) = i" for i by (simp add: object_of_def copy_of_def build_identity_def Let_def)
  then have d: "distinct (map object_of ?items)" by simp
  have k: "group_rule ascii_unicode DUP_MEDIA (copy_of i) = Some (md_key (ii_identity (copy_of [3])))" for i
    by (simp add: group_rule_def media_key_def copy_of_def build_identity_def Let_def film_file_def)
  have ne: "copy_of [3] \<noteq> copy_of [5]" using o[of "[3]"] o[of "[5]"] by auto
  have "copy_of [3] \<in> set ?items" "copy_of [5] \<in> set ?items" by simp_all
  with duplicate_groups_exact[OF d, of ascii_unicode "\<lambda>k. k"] ne k
  have "\<exists>g \<in> set (find_duplicate_groups ascii_unicode (\<lambda>k. k) ?items). dg_kind g = DUP_MEDIA
      \<and> dg_identity_key g = md_key (ii_identity (copy_of [3]))
      \<and> {object_of (copy_of [3]), object_of (copy_of [5])} \<subseteq> set (dg_object_ids g)" by blast
  then show ?thesis unfolding o by blast
qed

end
