(* ===== verification/Spec2Isabelle.thy ===== *)
theory Spec2Isabelle
  imports Executor_Demo Operation_Demo Workflow_Demo Task_Demo Isolation Org_Worker_Demo Plan_Demo
    Index_Demo Subscription_Demo Inventory_Demo
begin

text \<open>
  Watch-Assistant keeps a media library on a remote drive in order.  This development models
  its durable core: the index of the library, the organization of files (plan, approval, execution
  on the drive), the push of links to the drive, and the workflows that tie them together.  Paths are relative to
  \<^verbatim>\<open>src/src/watch_assistant\<close>.

  \<^bold>\<open>How the parts interact.\<close>  A scan fills the library tables.  A plan, built from a scan,
  lists for every file where it is and where it goes.  A user approves a plan, which creates an
  operation.  The worker claims the oldest approved operation, reads the plan again, checks it
  against the scan, and hands it to the executor.  The executor renews the operation's lease
  before every call to the drive, observes, writes, verifies, and commits the result together
  with an outbox event for every directory it touched.  Beside this, tasks push links to the
  drive, and a workflow shows the user the stages of one film or series.

  \<^bold>\<open>Shared vocabulary.\<close>  \<open>Prelude\<close>: Python strings as lists of code points, the Unicode database as
  a parameter, datetimes in microseconds, tables as lists of rows with the conditional update of
  SQL, the state and exception monad \<open>act\<close> and its triples.  \<open>Json\<close>: decoded JSON under \<open>==\<close>, \<open>get\<close>
  and \<open>isinstance\<close>.  \<open>Store\<close>: the rows of \<^verbatim>\<open>models.py\<close> and \<^verbatim>\<open>library_models.py\<close> the services
  share.

  \<^bold>\<open>Contracts.\<close>  \<open>Step_Checks\<close>, \<open>Companion_Group\<close> and \<open>Isolation\<close> are
  \<^verbatim>\<open>services/organization_execution_contract.py\<close>, \<^verbatim>\<open>organization_companion_contract.py\<close> and
  \<^verbatim>\<open>organization_isolation_contract.py\<close>: what an observation of a file says about a planned step.

  \<^bold>\<open>Operations.\<close>  \<open>Dirty_Outbox\<close> is \<^verbatim>\<open>services/organization_outbox.py\<close>, \<open>Operations\<close> is
  \<^verbatim>\<open>services/organization_operations.py\<close>, one definition per method.  A method is several
  statements with commits in between; where another session can commit between two of them, the
  method takes that session's effect as an argument (\<open>interf\<close>).  \<open>Lease_Writes\<close> states the
  compare-and-set contract of the conditional updates as a locale, \<open>Operation_Steps\<close> the step relation of the
  tables and that every method only makes such steps, \<open>Operation_Props\<close> the properties of the
  service: fencing, the exclusive claim, the history of an operation over any interleaving.

  \<^bold>\<open>Transports.\<close>  \<open>Write_Contract\<close> is \<^verbatim>\<open>adapters/p115_library_write_contract.py\<close>.  \<open>Transport\<close> is the
  interface the executor expects, as a locale; \<open>Offline_Transport\<close> the in-memory transport of
  \<^verbatim>\<open>adapters/p115_organization_transport.py\<close>.  \<open>Live_Response\<close> and \<open>Live_Transport\<close> are
  \<^verbatim>\<open>adapters/p115_c03_live_transport.py\<close> and the live transport over it; \<open>Live_Calls\<close> bounds
  what reaches the client, \<open>Live_Props\<close> says what listings and reads return.  The client itself is
  third-party code: a parameter (\<open>provider\<close>) that answers any method with any JSON or any
  exception.  \<open>honest_drive\<close> describes one that answers every
  page in time over directories that do not change, for what listings return at their best;
  \<open>counts_at_least\<close> one whose pages report large totals, which is all that stalling takes.

  \<^bold>\<open>Executor.\<close>  \<open>Executor\<close> is \<^verbatim>\<open>services/organization_executor.py\<close>.  It is a coroutine: at every
  await the surroundings act (\<open>xc_env\<close>), which may change database, drive, clocks and the cancel
  event in any way and may cancel the task.  A trace records calls and renewals.
  \<open>Executor_Rules\<close> is the locale that turns an invariant of awaits, calls and commits into one of a run;
  \<open>Executor_Results\<close>, \<open>Executor_Props\<close>, \<open>Executor_Writes\<close> and \<open>Executor_Outcome\<close> interpret it for
  results, budget and leases, the order of writes, and what results mean; \<open>Executor_Theorems\<close> and
  \<open>Executor_Plan\<close> hold the properties, the latter for the plan a run really reads.

  \<^bold>\<open>Index.\<close>  \<open>Library_Pages\<close> is \<^verbatim>\<open>adapters/p115_library.py\<close>: pages of a directory, the parsing of
  responses and the plain reading of a directory.  \<open>Library_Index\<close> is
  \<^verbatim>\<open>services/library_index.py\<close>, one definition per method.  Each session is one transaction there, which
  is right while no other session writes; the drive is a parameter that may change the database too,
  which is how other sessions act while an answer is waited for.  \<open>Index_Cancellation\<close> adds the
  cancellation of the task at every other \<^verbatim>\<open>await\<close>, and \<open>Index_Sessions\<close> takes the sessions apart: a
  \<^verbatim>\<open>SELECT\<close> opens no transaction, so others can write between what is read and what is written.
  Both agree with \<open>Library_Index\<close> where nothing of this happens.  \<open>Index_Steps\<close>: every
  scan is a sequence of transactions of a step relation.  \<open>Index_Props\<close>: what the transactions keep
  of the tables; \<open>Index_Cancellation\<close>: a scan that is alone keeps it wherever it is cancelled, and a
  cancellation after the completion takes the snapshot back; \<open>Index_Sessions\<close>: sessions that overlap
  create two runs under one key, lose a count, or give a revision twice.  \<open>Index_Ledger\<close>: the ledger
  mirrors the latest snapshot, and a new snapshot unloads older plans, over scans that are alone.
  \<open>Index_Scan\<close>: what the plain reading of the directory reads, a scan stores, and it ends.
  \<open>Index_Race\<close>: repeated scans and a late failure under one key.  A session reads the clock once;
  surrogate keys of ledger and event rows are left out.

  \<^bold>\<open>Plans.\<close>  \<open>Plan_Builder\<close> and \<open>Plan_Service\<close> are the rest of
  \<^verbatim>\<open>services/organization_plan.py\<close>: payloads, creation, refresh, review, lookup and listing.  JSON
  text columns are kept as their decoded values, written with sorted keys.  \<open>Plan_Json\<close> and
  \<open>Plan_Roundtrip\<close> show that what the builder writes is what the loader reads;
  \<open>Plan_History\<close> follows a plan over any sequence of calls that do not overlap, and shows which
  updates are lost when they do.

  \<^bold>\<open>Loader and worker.\<close>  \<open>Plan_Loader\<close> is \<open>load_executable_steps\<close> of
  \<^verbatim>\<open>services/organization_plan.py\<close> with all it parses and validates; the hash is a parameter.
  \<open>Plan_Loader_Props\<close>: what loads is what the current scan supports.  \<open>Org_Worker\<close> is
  \<^verbatim>\<open>services/organization_worker.py\<close>; \<open>Org_Worker_Props\<close> composes everything: what one pass of
  the worker may ask of the drive and do to the database, and when the loop gets stuck.

  \<^bold>\<open>Workflows and tasks.\<close>  \<open>Workflow\<close> and \<open>Workflow_Props\<close> are \<^verbatim>\<open>services/workflows.py\<close>;
  \<open>Task_Queue\<close> and \<open>Task_Props\<close> are \<^verbatim>\<open>services/tasks.py\<close> and \<^verbatim>\<open>worker.py\<close>.

  \<^bold>\<open>Subscriptions.\<close>  \<open>Subscriptions\<close> is \<^verbatim>\<open>services/subscriptions.py\<close> and
  \<^verbatim>\<open>services/subscription_scheduler.py\<close>.  What other sessions do between two statements is an
  argument, the search a parameter that may change the database, and events and log lines are left out.
  \<open>Subscription_Props\<close>: what all interleavings keep.  \<open>Subscription_Checks\<close>: what a check records
  and that the scheduler works off what is due, when nothing interferes, and how a check and a
  cancellation collide.  The digest that names an observation is a parameter; where two rows sharing
  a name would matter, the property assumes that the names at hand, finitely many, are apart.

  \<^bold>\<open>File names and inventory.\<close>  \<open>Regex_Match\<close> is a backtracking matcher for the part of Python's \<^verbatim>\<open>re\<close>
  in use, with a declarative reading of patterns it agrees with.  \<open>Media_Parser\<close> is
  \<^verbatim>\<open>services/media_parser.py\<close>, pattern by pattern; \<open>Media_Parser_Props\<close> shows that every result
  is well formed, \<open>Media_Parser_Markers\<close> what becomes of an episode marker.  \<open>Inventory\<close> is
  \<^verbatim>\<open>services/library_inventory.py\<close>, \<open>Inventory_Props\<close> its duplicate groups.  \<open>Push_Guard\<close> is
  \<^verbatim>\<open>services/inventory_push_guard.py\<close>, each of its statements reading the database as it is then;
  \<open>Push_Guard_Props\<close> joins it with the task worker: what a pushed
  link says about the libraries, and what the guard overlooks or blocks too much.  Candidates are
  decoded JSON; Unicode data and SHA-256 are parameters.

  \<^bold>\<open>Examples.\<close>  The theories ending in \<open>Demo\<close> evaluate concrete runs in the kernel and instantiate
  the properties that have hypotheses.

  \<^bold>\<open>Bounds and fuel.\<close>  Python integers are unbounded and modelled by \<open>int\<close>.  All loops but
  three are structural: over members, steps, pages (at most four per listing) and attempts.  The
  worker's endless loop and the scheduler's take fuel, and what is shown of them holds for every amount.  The loops of
  \<open>scan_directory\<close> and of the index take fuel; one more than the number of objects on the drive is
  enough (\<open>index_scan_terminates\<close>).

  \<^bold>\<open>Not modelled.\<close>  HTTP routes, search, matching against metadata, notifications, settings and
  credentials, and logging: they are I/O, text heuristics or
  glue around the parts above.
\<close>

end
